(* ===== verification/Prelude.thy ===== *)
theory Prelude
  imports Main "HOL-Library.Word"
begin

text \<open>
  Shared ground of the development: the machine types of the Rust program, its
  fallible results, the ASCII string operations of the standard library it
  calls, keyed SQL tables as row lists, and the generic lemmas the component
  theories share.

  A Rust \<open>u8\<close>, \<open>u32\<close>, \<open>u64\<close> is a word of its width, an \<open>i64\<close> is an
  \<open>int\<close> whose casts (\<open>as i64\<close>, \<open>as u64\<close>) and saturating operations are
  written out. A \<open>String\<close> is a list of characters; the case and white-space
  operations are those of ASCII text.
\<close>

named_theorems result_simps "unfolding rules of fallible results"
named_theorems table_simps "lookup rules of keyed tables"

section \<open>Machine types\<close>

type_synonym u8 = "8 word"
type_synonym u32 = "32 word"
type_synonym u64 = "64 word"
type_synonym i64 = int
type_synonym bytes = "8 word list"

abbreviation (input) i64_max :: int where
  "i64_max \<equiv> 9223372036854775807"

abbreviation (input) i64_min :: int where
  "i64_min \<equiv> - 9223372036854775808"

definition in_i64 :: "int \<Rightarrow> bool" where
  "in_i64 x = (i64_min \<le> x \<and> x \<le> i64_max)"

definition i64_sat :: "int \<Rightarrow> i64" where
  "i64_sat x = (if x < i64_min then i64_min else if x > i64_max then i64_max else x)"

definition i64_wrap :: "int \<Rightarrow> i64" where
  "i64_wrap x = sint (word_of_int x :: u64)"

definition u64_as_i64 :: "u64 \<Rightarrow> i64" where
  "u64_as_i64 w = sint w"

definition i64_as_u64 :: "i64 \<Rightarrow> u64" where
  "i64_as_u64 i = word_of_int i"

definition i64_as_u32 :: "i64 \<Rightarrow> u32" where
  "i64_as_u32 i = word_of_int i"

definition u32_as_i64 :: "u32 \<Rightarrow> i64" where
  "u32_as_i64 w = uint w"

definition word_sat_add :: "'a::len word \<Rightarrow> 'a word \<Rightarrow> 'a word" where
  "word_sat_add a b = (if unat a + unat b < 2 ^ LENGTH('a) then a + b else - 1)"

definition word_sat_sub :: "'a::len word \<Rightarrow> 'a word \<Rightarrow> 'a word" where
  "word_sat_sub a b = (if b \<le> a then a - b else 0)"

lemma i64_as_u64_of_u64 [simp]: "i64_as_u64 (u64_as_i64 w) = w"
  by (simp add: i64_as_u64_def u64_as_i64_def)

lemma u64_as_i64_inj [simp]: "u64_as_i64 a = u64_as_i64 b \<longleftrightarrow> a = b"
  by (metis i64_as_u64_of_u64)

lemma i64_as_u32_of_u32 [simp]: "i64_as_u32 (u32_as_i64 w) = w"
  by (simp add: i64_as_u32_def u32_as_i64_def)

lemma u64_as_i64_range: "in_i64 (u64_as_i64 w)"
proof -
  have "- (2 ^ 63) \<le> sint w" using sint_ge [of w] by simp
  moreover have "sint w < 2 ^ 63" using sint_lt [of w] by simp
  ultimately show ?thesis by (simp add: in_i64_def u64_as_i64_def)
qed

lemma u64_as_i64_small: "unat w < 2 ^ 63 \<Longrightarrow> u64_as_i64 w = int (unat w)"
proof -
  assume "unat w < 2 ^ 63"
  then have "int (unat w) < int (2 ^ 63)" by (simp only: of_nat_less_iff)
  then have "uint w < 2 ^ 63" by simp
  moreover have "- (2 ^ 63) \<le> uint w" by (rule order_trans [OF _ uint_ge_0]) simp
  ultimately have "signed_take_bit 63 (uint w) = uint w"
    by (intro signed_take_bit_int_eq_self)
  then show ?thesis by (simp add: u64_as_i64_def sint_uint)
qed

lemma i64_wrap_id [simp]: "in_i64 x \<Longrightarrow> i64_wrap x = x"
  by (simp add: i64_wrap_def in_i64_def sint_word_ariths signed_take_bit_int_eq_self
      sint_sbintrunc')

lemma i64_sat_range [simp, intro]: "in_i64 (i64_sat x)"
  by (simp add: in_i64_def i64_sat_def)

lemma i64_sat_id [simp]: "in_i64 x \<Longrightarrow> i64_sat x = x"
  by (simp add: in_i64_def i64_sat_def)

lemma i64_sat_mono: "x \<le> y \<Longrightarrow> i64_sat x \<le> i64_sat y"
  by (simp add: i64_sat_def)

lemma unat_word_sat_add:
  "unat (word_sat_add a b) = min (2 ^ LENGTH('a) - 1) (unat a + unat (b :: 'a::len word))"
proof (cases "unat a + unat b < 2 ^ LENGTH('a)")
  case True
  then show ?thesis
    by (simp add: word_sat_add_def unat_word_ariths) 
next
  case False
  moreover have "unat (- 1 :: 'a word) = 2 ^ LENGTH('a) - 1"
    by (simp add: unsigned_minus_1_eq_mask mask_eq_exp_minus_1)
  ultimately show ?thesis by (simp add: word_sat_add_def)
qed

lemma unat_word_sat_sub:
  "unat (word_sat_sub a b) = unat a - unat (b :: 'a::len word)"
  by (simp add: word_sat_sub_def unat_sub word_le_nat_alt)

section \<open>Results\<close>

text \<open>\<open>Result<T, E>\<close> is a sum: \<open>Inl\<close> carries the error, \<open>Inr\<close> the value.\<close>

definition bind_res :: "'e + 'a \<Rightarrow> ('a \<Rightarrow> 'e + 'b) \<Rightarrow> 'e + 'b" where
  "bind_res r f = (case r of Inl e \<Rightarrow> Inl e | Inr x \<Rightarrow> f x)"

definition map_res :: "('a \<Rightarrow> 'b) \<Rightarrow> 'e + 'a \<Rightarrow> 'e + 'b" where
  "map_res f r = (case r of Inl e \<Rightarrow> Inl e | Inr x \<Rightarrow> Inr (f x))"

definition is_ok :: "'e + 'a \<Rightarrow> bool" where
  "is_ok r = (case r of Inl _ \<Rightarrow> False | Inr _ \<Rightarrow> True)"

fun collect_res :: "('e + 'a) list \<Rightarrow> 'e + 'a list" where
  "collect_res [] = Inr []"
| "collect_res (r # rs) = bind_res r (\<lambda>x. map_res (\<lambda>xs. x # xs) (collect_res rs))"

lemma bind_res_simps [simp, result_simps]:
  "bind_res (Inl e) f = Inl e" "bind_res (Inr x) f = f x"
  by (simp_all add: bind_res_def)

lemma map_res_simps [simp, result_simps]:
  "map_res f (Inl e) = Inl e" "map_res f (Inr x) = Inr (f x)"
  by (simp_all add: map_res_def)

lemma is_ok_simps [simp, result_simps]:
  "is_ok (Inl e) = False" "is_ok (Inr x) = True"
  by (simp_all add: is_ok_def)

lemma collect_res_Inr: "collect_res (List.map (\<lambda>x. Inr (f x)) xs) = Inr (List.map f xs)"
  by (induction xs) simp_all

lemma collect_res_total:
  "(\<And>x. x \<in> set xs \<Longrightarrow> g x = Inr (f x)) \<Longrightarrow> collect_res (List.map g xs) = Inr (List.map f xs)"
  by (induction xs) simp_all

lemma bind_Some_const [simp]: "Option.bind x (\<lambda>_. Some c) = map_option (\<lambda>_. c) x"
  by (cases x) simp_all

section \<open>ASCII strings\<close>

definition ascii_ws :: "char \<Rightarrow> bool" where
  "ascii_ws c = (let n = of_char c :: nat in n = 32 \<or> (9 \<le> n \<and> n \<le> 13))"

definition ascii_upper :: "char \<Rightarrow> char" where
  "ascii_upper c = (let n = of_char c :: nat in if 97 \<le> n \<and> n \<le> 122 then char_of (n - 32) else c)"

definition ascii_lower :: "char \<Rightarrow> char" where
  "ascii_lower c = (let n = of_char c :: nat in if 65 \<le> n \<and> n \<le> 90 then char_of (n + 32) else c)"

definition is_digit :: "char \<Rightarrow> bool" where
  "is_digit c = (let n = of_char c :: nat in 48 \<le> n \<and> n \<le> 57)"

definition digit_val :: "char \<Rightarrow> nat" where
  "digit_val c = of_char c - 48"

definition digit_char :: "nat \<Rightarrow> char" where
  "digit_char n = char_of (48 + n)"

definition str_trim_start :: "string \<Rightarrow> string" where
  "str_trim_start s = dropWhile ascii_ws s"

definition str_trim :: "string \<Rightarrow> string" where
  "str_trim s = rev (dropWhile ascii_ws (rev (dropWhile ascii_ws s)))"

definition to_ascii_uppercase :: "string \<Rightarrow> string" where
  "to_ascii_uppercase = List.map ascii_upper"

definition to_ascii_lowercase :: "string \<Rightarrow> string" where
  "to_ascii_lowercase = List.map ascii_lower"

text \<open>\<open>split(c)\<close>: the pieces between the separators, always at least one.\<close>

fun str_split :: "char \<Rightarrow> string \<Rightarrow> string list" where
  "str_split c [] = [[]]"
| "str_split c (x # xs) =
     (if x = c then [] # str_split c xs
      else (case str_split c xs of p # ps \<Rightarrow> (x # p) # ps | [] \<Rightarrow> [[x]]))"

text \<open>\<open>split_once(c)\<close>: the text before and after the first separator.\<close>

fun str_split_once :: "char \<Rightarrow> string \<Rightarrow> (string \<times> string) option" where
  "str_split_once c [] = None"
| "str_split_once c (x # xs) =
     (if x = c then Some ([], xs)
      else map_option (\<lambda>(a, b). (x # a, b)) (str_split_once c xs))"

fun words_aux :: "string \<Rightarrow> string \<Rightarrow> string list" where
  "words_aux acc [] = (if acc = [] then [] else [rev acc])"
| "words_aux acc (x # xs) =
     (if ascii_ws x then (if acc = [] then words_aux [] xs else rev acc # words_aux [] xs)
      else words_aux (x # acc) xs)"

definition split_whitespace :: "string \<Rightarrow> string list" where
  "split_whitespace s = words_aux [] s"

fun str_join :: "string \<Rightarrow> string list \<Rightarrow> string" where
  "str_join sep [] = []"
| "str_join sep [x] = x"
| "str_join sep (x # y # ys) = x @ sep @ str_join sep (y # ys)"

definition strip_prefix :: "string \<Rightarrow> string \<Rightarrow> string option" where
  "strip_prefix p s = (if take (length p) s = p then Some (drop (length p) s) else None)"

definition strip_suffix :: "string \<Rightarrow> string \<Rightarrow> string option" where
  "strip_suffix p s =
     (if length p \<le> length s \<and> drop (length s - length p) s = p
      then Some (take (length s - length p) s) else None)"

text \<open>Decimal rendering and parsing of unsigned integers.\<close>

fun show_nat :: "nat \<Rightarrow> string" where
  "show_nat n = (if n < 10 then [digit_char n] else show_nat (n div 10) @ [digit_char (n mod 10)])"

declare show_nat.simps [simp del]

definition digits_val :: "string \<Rightarrow> nat" where
  "digits_val s = foldl (\<lambda>acc c. acc * 10 + digit_val c) 0 s"

definition parse_nat :: "string \<Rightarrow> nat option" where
  "parse_nat s =
     (let ds = (case s of c # cs \<Rightarrow> if c = CHR ''+'' then cs else s | [] \<Rightarrow> []) in
      if ds \<noteq> [] \<and> (\<forall>c\<in>set ds. is_digit c) then Some (digits_val ds) else None)"

definition parse_uint :: "nat \<Rightarrow> string \<Rightarrow> nat option" where
  "parse_uint bits s = (case parse_nat s of Some n \<Rightarrow> if n < 2 ^ bits then Some n else None | None \<Rightarrow> None)"

lemma of_char_digit_char: "n < 10 \<Longrightarrow> (of_char (digit_char n) :: nat) = 48 + n"
  by (simp add: digit_char_def)

lemma digit_char_simps [simp]:
  "n < 10 \<Longrightarrow> is_digit (digit_char n)" "n < 10 \<Longrightarrow> digit_val (digit_char n) = n"
  by (simp_all add: is_digit_def digit_val_def of_char_digit_char Let_def)

lemma show_nat_digits: "\<forall>c\<in>set (show_nat n). is_digit c"
proof (induction n rule: less_induct)
  case (less n)
  show ?case
  proof (cases "n < 10")
    case True
    then show ?thesis by (subst show_nat.simps) simp
  next
    case False
    then have "\<forall>c\<in>set (show_nat (n div 10)). is_digit c" by (intro less) simp
    with False show ?thesis by (subst show_nat.simps) simp
  qed
qed

lemma show_nat_nonempty [simp]: "show_nat n \<noteq> []"
  by (subst show_nat.simps) simp

lemma digits_val_snoc: "digits_val (s @ [c]) = digits_val s * 10 + digit_val c"
  by (simp add: digits_val_def)

lemma digits_val_show_nat [simp]: "digits_val (show_nat n) = n"
proof (induction n rule: less_induct)
  case (less n)
  show ?case
  proof (cases "n < 10")
    case True
    then show ?thesis by (subst show_nat.simps) (simp add: digits_val_def)
  next
    case False
    then have "digits_val (show_nat (n div 10)) = n div 10" using less by simp
    with False show ?thesis by (subst show_nat.simps) (simp add: digits_val_snoc)
  qed
qed

lemma show_nat_inj [simp]: "show_nat m = show_nat n \<longleftrightarrow> m = n"
  by (metis digits_val_show_nat)

lemma is_digit_not_plus: "is_digit c \<Longrightarrow> (c = CHR ''+'') = False"
  by (auto simp: is_digit_def Let_def)

lemma parse_nat_show_nat [simp]: "parse_nat (show_nat n) = Some n"
proof -
  obtain c cs where s: "show_nat n = c # cs" by (meson show_nat_nonempty neq_Nil_conv)
  then have d: "is_digit c" "\<forall>x\<in>set cs. is_digit x" using show_nat_digits [of n] by auto
  then have "(c = CHR ''+'') = False" by (intro is_digit_not_plus)
  then have "parse_nat (show_nat n) = Some (digits_val (c # cs))"
    using d by (simp add: s parse_nat_def)
  then show ?thesis by (simp flip: s)
qed

lemma parse_uint_show_nat: "n < 2 ^ b \<Longrightarrow> parse_uint b (show_nat n) = Some n"
  by (simp add: parse_uint_def)

lemma parse_uint_bound: "parse_uint b s = Some n \<Longrightarrow> n < 2 ^ b"
  by (auto simp: parse_uint_def split: option.splits if_splits)

lemma str_split_nonempty [simp]: "str_split c s \<noteq> []"
  by (cases s) (auto split: list.splits)

lemma str_split_no_sep: "p \<in> set (str_split c s) \<Longrightarrow> c \<notin> set p"
  by (induction s arbitrary: p) (auto split: if_splits list.splits)

lemma str_split_join: "str_join [c] (str_split c s) = s"
proof (induction s)
  case (Cons x xs)
  obtain p ps where "str_split c xs = p # ps" by (meson str_split_nonempty neq_Nil_conv)
  with Cons show ?case by (cases ps) auto
qed simp

end
