(* ===== verification/Admission.thy ===== *)
theory Admission
  imports Prelude
begin

text \<open>
  The process-wide admission gate (\<open>src/admission.rs\<close>): a permit count and the
  queue of blocked callers ordered by \<open>(priority, seq)\<close>, with the events of the
  callers' futures as a labelled transition function.

  A blocked \<open>acquire\<close> owns a \<open>WaiterTicket\<close> and the receiving end of a one-shot
  channel. When its future is dropped the receiver goes first and the ticket's
  \<open>Drop\<close> runs after it, so the two are separate events here: \<open>RxDrop\<close> and
  \<open>TicketDrop\<close>; \<open>Cancel\<close> is the same cancellation with no other thread in
  between. The enqueue counter is unbounded (the code's \<open>u64\<close> wraps only after
  \<open>2 ^ 64\<close> blocked calls).
\<close>

section \<open>The waiter key and its order\<close>

datatype wkey = WKey (wk_priority: int) (wk_seq: nat)

instantiation wkey :: linorder
begin

definition less_eq_wkey :: "wkey \<Rightarrow> wkey \<Rightarrow> bool" where
  "less_eq_wkey a b =
     (wk_priority a < wk_priority b \<or> (wk_priority a = wk_priority b \<and> wk_seq a \<le> wk_seq b))"

definition less_wkey :: "wkey \<Rightarrow> wkey \<Rightarrow> bool" where
  "less_wkey a b =
     (wk_priority a < wk_priority b \<or> (wk_priority a = wk_priority b \<and> wk_seq a < wk_seq b))"

instance
  by standard (auto simp: less_eq_wkey_def less_wkey_def wkey.expand)

end

section \<open>The waiter map\<close>

text \<open>The contract of the \<open>BTreeMap\<close> operations the gate uses.\<close>

locale ordered_waiters =
  fixes ins :: "'k::linorder \<Rightarrow> 'q \<Rightarrow> 'q"
    and del :: "'k \<Rightarrow> 'q \<Rightarrow> 'q"
    and first :: "'q \<Rightarrow> 'k option"
    and keys :: "'q \<Rightarrow> 'k set"
    and ok :: "'q \<Rightarrow> bool"
  assumes ok_ins: "ok q \<Longrightarrow> k \<notin> keys q \<Longrightarrow> ok (ins k q)"
    and ok_del: "ok q \<Longrightarrow> ok (del k q)"
    and keys_ins: "ok q \<Longrightarrow> keys (ins k q) = insert k (keys q)"
    and keys_del: "ok q \<Longrightarrow> keys (del k q) = keys q - {k}"
    and first_None: "ok q \<Longrightarrow> first q = None \<longleftrightarrow> keys q = {}"
    and first_Some: "ok q \<Longrightarrow> first q = Some k \<Longrightarrow> k \<in> keys q \<and> (\<forall>k'\<in>keys q. k \<le> k')"
begin

lemma first_unique:
  "ok q \<Longrightarrow> k \<in> keys q \<Longrightarrow> (\<And>k'. k' \<in> keys q \<Longrightarrow> k \<le> k') \<Longrightarrow> first q = Some k"
  by (cases "first q") (use first_None first_Some in \<open>auto intro: order_antisym\<close>)

lemma first_after_del:
  "ok q \<Longrightarrow> first q = Some k \<Longrightarrow> first (del k q) = Some k' \<Longrightarrow> k < k'"
proof -
  assume a: "ok q" "first q = Some k" "first (del k q) = Some k'"
  have "k' \<in> keys q - {k}" using first_Some [OF ok_del [OF a(1)] a(3)] keys_del [OF a(1)] by auto
  then show "k < k'" using first_Some [OF a(1,2)] by auto
qed

end

definition wq_insert :: "wkey \<Rightarrow> wkey list \<Rightarrow> wkey list" where
  "wq_insert k q = insort k q"

definition wq_remove :: "wkey \<Rightarrow> wkey list \<Rightarrow> wkey list" where
  "wq_remove k q = remove1 k q"

definition wq_first :: "wkey list \<Rightarrow> wkey option" where
  "wq_first q = (case q of [] \<Rightarrow> None | k # _ \<Rightarrow> Some k)"

definition wq_ok :: "wkey list \<Rightarrow> bool" where
  "wq_ok q = (sorted q \<and> distinct q)"

interpretation wq: ordered_waiters wq_insert wq_remove wq_first set wq_ok
  by unfold_locales
     (auto simp: wq_insert_def wq_remove_def wq_first_def wq_ok_def sorted_insort
        distinct_insort set_insort_key sorted_remove1 split: list.splits)

section \<open>The gate\<close>

record gate =
  g_permits :: nat
  g_next_seq :: nat
  g_waiters :: "wkey list"

definition gate_new :: "nat \<Rightarrow> gate" where
  "gate_new n = \<lparr>g_permits = n, g_next_seq = 0, g_waiters = []\<rparr>"

text \<open>
  The loop of \<open>release_one_locked\<close>: pop the first waiter, send to it, stop at the
  first send that succeeds; \<open>alive k\<close> tells whether the receiver of \<open>k\<close> is there.
\<close>

fun hand_off :: "(wkey \<Rightarrow> bool) \<Rightarrow> wkey list \<Rightarrow> wkey list \<times> wkey option" where
  "hand_off alive [] = ([], None)"
| "hand_off alive (k # q) = (if alive k then (q, Some k) else hand_off alive q)"

definition release_one_locked :: "(wkey \<Rightarrow> bool) \<Rightarrow> gate \<Rightarrow> gate \<times> wkey option" where
  "release_one_locked alive g =
     (case hand_off alive (g_waiters g) of
        (q, Some k) \<Rightarrow> (g\<lparr>g_waiters := q\<rparr>, Some k)
      | (q, None) \<Rightarrow> (g\<lparr>g_waiters := q, g_permits := g_permits g + 1\<rparr>, None))"

text \<open>The locked part of \<open>acquire\<close>: \<open>Inl\<close> is the fast path, \<open>Inr\<close> the key it queued under.\<close>

definition acquire_locked :: "int \<Rightarrow> gate \<Rightarrow> gate \<times> (unit + wkey)" where
  "acquire_locked prio g =
     (if g_permits g > 0 \<and> g_waiters g = [] then (g\<lparr>g_permits := g_permits g - 1\<rparr>, Inl ())
      else (let key = WKey prio (g_next_seq g) in
            (g\<lparr>g_next_seq := g_next_seq g + 1, g_waiters := wq_insert key (g_waiters g)\<rparr>, Inr key)))"

text \<open>\<open>Drop\<close> of a ticket that was not observed as granted.\<close>

definition ticket_drop :: "(wkey \<Rightarrow> bool) \<Rightarrow> wkey \<Rightarrow> gate \<Rightarrow> gate \<times> wkey option" where
  "ticket_drop alive k g =
     (if k \<in> set (g_waiters g) then (g\<lparr>g_waiters := wq_remove k (g_waiters g)\<rparr>, None)
      else release_one_locked alive g)"

section \<open>The gate and its callers\<close>

text \<open>
  \<open>gs_tickets\<close> are the pending futures, \<open>gs_rx\<close> the live receivers, \<open>gs_sent\<close> the
  channels whose grant was sent and not yet consumed, \<open>gs_guards\<close> the live
  \<open>GateGuard\<close>s.
\<close>

record gate_sys =
  gs_gate :: gate
  gs_tickets :: "wkey list"
  gs_rx :: "wkey list"
  gs_sent :: "wkey list"
  gs_guards :: nat

datatype gate_event =
    Acquire int
  | Observe wkey
  | RxDrop wkey
  | TicketDrop wkey
  | Cancel wkey
  | GuardDrop

definition gate_init :: "nat \<Rightarrow> gate_sys" where
  "gate_init n = \<lparr>gs_gate = gate_new n, gs_tickets = [], gs_rx = [], gs_sent = [], gs_guards = 0\<rparr>"

definition deliver_grant :: "gate \<times> wkey option \<Rightarrow> gate_sys \<Rightarrow> gate_sys" where
  "deliver_grant r s =
     (case r of (g, None) \<Rightarrow> s\<lparr>gs_gate := g\<rparr>
              | (g, Some k) \<Rightarrow> s\<lparr>gs_gate := g, gs_sent := k # gs_sent s\<rparr>)"

definition do_acquire :: "int \<Rightarrow> gate_sys \<Rightarrow> gate_sys" where
  "do_acquire p s =
     (case acquire_locked p (gs_gate s) of
        (g, Inl _) \<Rightarrow> s\<lparr>gs_gate := g, gs_guards := gs_guards s + 1\<rparr>
      | (g, Inr k) \<Rightarrow> s\<lparr>gs_gate := g, gs_tickets := k # gs_tickets s, gs_rx := k # gs_rx s\<rparr>)"

definition do_observe :: "wkey \<Rightarrow> gate_sys \<Rightarrow> gate_sys option" where
  "do_observe k s =
     (if k \<in> set (gs_sent s) \<and> k \<in> set (gs_rx s) \<and> k \<in> set (gs_tickets s)
      then Some (s\<lparr>gs_tickets := remove1 k (gs_tickets s), gs_rx := remove1 k (gs_rx s),
                   gs_sent := remove1 k (gs_sent s), gs_guards := gs_guards s + 1\<rparr>)
      else None)"

definition do_rx_drop :: "wkey \<Rightarrow> gate_sys \<Rightarrow> gate_sys option" where
  "do_rx_drop k s =
     (if k \<in> set (gs_rx s) then Some (s\<lparr>gs_rx := remove1 k (gs_rx s)\<rparr>) else None)"

definition do_ticket_drop :: "wkey \<Rightarrow> gate_sys \<Rightarrow> gate_sys option" where
  "do_ticket_drop k s =
     (if k \<in> set (gs_tickets s) \<and> k \<notin> set (gs_rx s)
      then (let s' = s\<lparr>gs_tickets := remove1 k (gs_tickets s), gs_sent := removeAll k (gs_sent s)\<rparr> in
            Some (deliver_grant (ticket_drop (\<lambda>x. x \<in> set (gs_rx s)) k (gs_gate s)) s'))
      else None)"

definition do_guard_drop :: "gate_sys \<Rightarrow> gate_sys option" where
  "do_guard_drop s =
     (if gs_guards s > 0
      then Some (deliver_grant (release_one_locked (\<lambda>x. x \<in> set (gs_rx s)) (gs_gate s))
                   (s\<lparr>gs_guards := gs_guards s - 1\<rparr>))
      else None)"

fun gate_step :: "gate_event \<Rightarrow> gate_sys \<Rightarrow> gate_sys option" where
  "gate_step (Acquire p) s = Some (do_acquire p s)"
| "gate_step (Observe k) s = do_observe k s"
| "gate_step (RxDrop k) s = do_rx_drop k s"
| "gate_step (TicketDrop k) s = do_ticket_drop k s"
| "gate_step (Cancel k) s = Option.bind (do_rx_drop k s) (do_ticket_drop k)"
| "gate_step GuardDrop s = do_guard_drop s"

inductive gate_run :: "nat \<Rightarrow> gate_event list \<Rightarrow> gate_sys \<Rightarrow> bool" for cap where
  gate_start: "gate_run cap [] (gate_init cap)"
| gate_next: "gate_run cap es s \<Longrightarrow> gate_step e s = Some s' \<Longrightarrow> gate_run cap (es @ [e]) s'"

inductive_cases gate_run_snocE: "gate_run cap (es @ [e]) s"

fun gate_exec :: "gate_event list \<Rightarrow> gate_sys \<Rightarrow> gate_sys option" where
  "gate_exec [] s = Some s"
| "gate_exec (e # es) s = Option.bind (gate_step e s) (gate_exec es)"

lemma gate_run_exec:
  assumes "gate_run cap es s" "gate_exec fs s = Some s'"
  shows "gate_run cap (es @ fs) s'"
  using assms
proof (induction fs arbitrary: es s)
  case (Cons f fs)
  from Cons.prems(2) obtain t where t: "gate_step f s = Some t" "gate_exec fs t = Some s'"
    by (cases "gate_step f s") auto
  then have "gate_run cap (es @ [f]) t" using Cons.prems(1) by (blast intro: gate_next)
  from Cons.IH [OF this t(2)] show ?case by simp
qed simp

section \<open>Invariants\<close>

definition permits_out :: "gate_sys \<Rightarrow> nat" where
  "permits_out s = g_permits (gs_gate s) + gs_guards s + length (gs_sent s)"

text \<open>What holds in every interleaving.\<close>

definition gate_inv :: "nat \<Rightarrow> gate_sys \<Rightarrow> bool" where
  "gate_inv cap s =
     (wq_ok (g_waiters (gs_gate s))
      \<and> distinct (gs_tickets s) \<and> distinct (gs_rx s) \<and> distinct (gs_sent s)
      \<and> set (g_waiters (gs_gate s)) \<subseteq> set (gs_tickets s)
      \<and> set (gs_sent s) \<subseteq> set (gs_tickets s)
      \<and> set (gs_rx s) \<subseteq> set (gs_tickets s)
      \<and> set (g_waiters (gs_gate s)) \<inter> set (gs_sent s) = {}
      \<and> set (gs_rx s) \<subseteq> set (g_waiters (gs_gate s)) \<union> set (gs_sent s)
      \<and> (\<forall>k\<in>set (gs_tickets s). wk_seq k < g_next_seq (gs_gate s))
      \<and> (g_waiters (gs_gate s) = [] \<or> g_permits (gs_gate s) = 0)
      \<and> cap \<le> permits_out s)"

text \<open>What holds when no cancellation is interrupted.\<close>

definition gate_exact :: "nat \<Rightarrow> gate_sys \<Rightarrow> bool" where
  "gate_exact cap s =
     (permits_out s = cap
      \<and> set (gs_tickets s) = set (g_waiters (gs_gate s)) \<union> set (gs_sent s)
      \<and> set (gs_rx s) = set (gs_tickets s))"

lemma hand_off_set:
  "hand_off alive q = (q', r) \<Longrightarrow> set q' \<subseteq> set q"
  by (induction q) (auto split: if_splits)

lemma hand_off_None: "hand_off alive q = (q', None) \<Longrightarrow> q' = [] \<and> (\<forall>k\<in>set q. \<not> alive k)"
  by (induction q) (auto split: if_splits)

lemma hand_off_ok: "hand_off alive q = (q', r) \<Longrightarrow> wq_ok q \<Longrightarrow> wq_ok q'"
  by (induction q) (auto simp: wq_ok_def split: if_splits)

lemma hand_off_Some:
  "hand_off alive q = (q', Some k) \<Longrightarrow> wq_ok q \<Longrightarrow>
   k \<in> set q \<and> k \<notin> set q' \<and> alive k \<and> (\<forall>k'\<in>set q. alive k' \<longrightarrow> k \<le> k')
   \<and> {k'\<in>set q. alive k'} - {k} \<subseteq> set q'"
  by (induction q) (auto simp: wq_ok_def split: if_splits)

lemma hand_off_all_alive:
  "(\<forall>k\<in>set q. alive k) \<Longrightarrow> hand_off alive q = (case q of [] \<Rightarrow> ([], None) | k # r \<Rightarrow> (r, Some k))"
  by (cases q) simp_all

lemma gate_inv_init: "gate_inv cap (gate_init cap)"
  by (simp add: gate_inv_def gate_init_def gate_new_def permits_out_def wq_ok_def)

lemma wq_ok_insert [intro]: "wq_ok q \<Longrightarrow> k \<notin> set q \<Longrightarrow> wq_ok (wq_insert k q)"
  by (rule wq.ok_ins)

lemma wq_set_insert [simp]: "set (wq_insert k q) = insert k (set q)"
  by (simp add: wq_insert_def set_insort_key)

lemma gate_inv_acquire:
  assumes "gate_inv cap s"
  shows "gate_inv cap (do_acquire p s)"
proof (cases "g_permits (gs_gate s) > 0 \<and> g_waiters (gs_gate s) = []")
  case True
  then show ?thesis using assms
    by (auto simp: do_acquire_def acquire_locked_def gate_inv_def permits_out_def)
next
  case False
  let ?k = "WKey p (g_next_seq (gs_gate s))"
  have "?k \<notin> set (gs_tickets s)" using assms by (auto simp: gate_inv_def)
  with False assms show ?thesis
    by (auto simp: do_acquire_def acquire_locked_def gate_inv_def permits_out_def Let_def
        intro!: wq_ok_insert)
qed

lemma length_remove1_mem: "k \<in> set xs \<Longrightarrow> Suc (length (remove1 k xs)) = length xs"
  by (induction xs) auto

lemma gate_inv_observe:
  "gate_inv cap s \<Longrightarrow> do_observe k s = Some s' \<Longrightarrow> gate_inv cap s'"
  using length_remove1_mem [of k "gs_sent s"]
  by (auto simp: do_observe_def gate_inv_def permits_out_def split: if_splits)

lemma gate_inv_rx_drop:
  "gate_inv cap s \<Longrightarrow> do_rx_drop k s = Some s' \<Longrightarrow> gate_inv cap s'"
  by (auto simp: do_rx_drop_def gate_inv_def permits_out_def split: if_splits)

definition released :: "gate_sys \<Rightarrow> gate_sys" where
  "released s = deliver_grant (release_one_locked (\<lambda>x. x \<in> set (gs_rx s)) (gs_gate s)) s"

lemma released_cases:
  obtains (granted) q k where "hand_off (\<lambda>x. x \<in> set (gs_rx s)) (g_waiters (gs_gate s)) = (q, Some k)"
      "released s = s\<lparr>gs_gate := (gs_gate s)\<lparr>g_waiters := q\<rparr>, gs_sent := k # gs_sent s\<rparr>"
  | (pooled) "hand_off (\<lambda>x. x \<in> set (gs_rx s)) (g_waiters (gs_gate s)) = ([], None)"
      "\<forall>k\<in>set (g_waiters (gs_gate s)). k \<notin> set (gs_rx s)"
      "released s = s\<lparr>gs_gate := (gs_gate s)\<lparr>g_waiters := [], g_permits := g_permits (gs_gate s) + 1\<rparr>\<rparr>"
proof (cases "hand_off (\<lambda>x. x \<in> set (gs_rx s)) (g_waiters (gs_gate s))")
  case (Pair q r)
  show thesis
  proof (cases r)
    case None
    with Pair have h: "hand_off (\<lambda>x. x \<in> set (gs_rx s)) (g_waiters (gs_gate s)) = (q, None)" by simp
    from hand_off_None [OF h] h show thesis
      by (intro pooled) (simp_all add: released_def release_one_locked_def deliver_grant_def)
  next
    case (Some k)
    with Pair show thesis
      by (intro granted [of q k]) (simp_all add: released_def release_one_locked_def deliver_grant_def)
  qed
qed

lemma gate_inv_released:
  assumes "gate_inv (cap - 1) s"
  shows "gate_inv cap (released s)"
proof (cases s rule: released_cases)
  case (granted q k)
  then have "k \<in> set (g_waiters (gs_gate s))" "k \<notin> set q" "set q \<subseteq> set (g_waiters (gs_gate s))"
    "wq_ok q" "{k'\<in>set (g_waiters (gs_gate s)). k' \<in> set (gs_rx s)} - {k} \<subseteq> set q"
    using hand_off_Some [OF granted(1)] hand_off_set [OF granted(1)] hand_off_ok [OF granted(1)] assms
    by (auto simp: gate_inv_def)
  moreover have "g_permits (gs_gate s) = 0"
    using assms \<open>k \<in> set (g_waiters (gs_gate s))\<close> by (auto simp: gate_inv_def)
  ultimately show ?thesis using assms granted(2) by (auto simp: gate_inv_def permits_out_def)
next
  case pooled
  then show ?thesis using assms by (auto simp: gate_inv_def permits_out_def wq_ok_def)
qed

lemma gate_inv_weaken: "gate_inv cap s \<Longrightarrow> c \<le> cap \<Longrightarrow> gate_inv c s"
  by (auto simp: gate_inv_def)

lemma do_guard_drop_released:
  "do_guard_drop s = (if gs_guards s > 0 then Some (released (s\<lparr>gs_guards := gs_guards s - 1\<rparr>)) else None)"
  by (simp add: do_guard_drop_def released_def)

lemma gate_inv_guard_drop:
  "gate_inv cap s \<Longrightarrow> do_guard_drop s = Some s' \<Longrightarrow> gate_inv cap s'"
proof -
  assume a: "gate_inv cap s" "do_guard_drop s = Some s'"
  then have "gate_inv (cap - 1) (s\<lparr>gs_guards := gs_guards s - 1\<rparr>)"
    by (auto simp: gate_inv_def permits_out_def do_guard_drop_released split: if_splits)
  from gate_inv_released [OF this] a(2) show ?thesis
    by (auto simp: do_guard_drop_released split: if_splits)
qed

definition forget_ticket :: "wkey \<Rightarrow> gate_sys \<Rightarrow> gate_sys" where
  "forget_ticket k s = s\<lparr>gs_tickets := remove1 k (gs_tickets s), gs_sent := removeAll k (gs_sent s)\<rparr>"

lemma do_ticket_drop_cases:
  "do_ticket_drop k s =
     (if k \<in> set (gs_tickets s) \<and> k \<notin> set (gs_rx s)
      then Some (if k \<in> set (g_waiters (gs_gate s))
                 then (forget_ticket k s)\<lparr>gs_gate := (gs_gate s)\<lparr>g_waiters := wq_remove k (g_waiters (gs_gate s))\<rparr>\<rparr>
                 else released (forget_ticket k s))
      else None)"
  by (simp add: do_ticket_drop_def ticket_drop_def released_def forget_ticket_def deliver_grant_def Let_def)

lemma removeAll_distinct_length: "distinct xs \<Longrightarrow> length xs - 1 \<le> length (removeAll k xs)"
  by (simp add: length_remove1 flip: distinct_remove1_removeAll)

lemma gate_inv_ticket_drop:
  assumes "gate_inv cap s" "do_ticket_drop k s = Some s'"
  shows "gate_inv cap s'"
proof (cases "k \<in> set (g_waiters (gs_gate s))")
  case True
  with assms have "k \<notin> set (gs_sent s)" by (auto simp: gate_inv_def)
  with assms True show ?thesis
    by (auto simp: do_ticket_drop_cases forget_ticket_def gate_inv_def permits_out_def wq_remove_def
        wq_ok_def sorted_remove1 split: if_splits)
next
  case False
  have "gate_inv (cap - 1) (forget_ticket k s)"
    using assms False removeAll_distinct_length [of "gs_sent s" k]
    by (auto simp: do_ticket_drop_cases forget_ticket_def gate_inv_def permits_out_def distinct_removeAll
        split: if_splits)
  from gate_inv_released [OF this] show ?thesis
    using assms(2) False by (auto simp: do_ticket_drop_cases split: if_splits)
qed

lemma gate_inv_step:
  assumes "gate_inv cap s" "gate_step e s = Some s'"
  shows "gate_inv cap s'"
proof (cases e)
  case (Acquire p)
  then show ?thesis using assms gate_inv_acquire [OF assms(1), of p] by auto
next
  case (Cancel k)
  then obtain t where "do_rx_drop k s = Some t" "do_ticket_drop k t = Some s'"
    using assms(2) by (cases "do_rx_drop k s") auto
  then show ?thesis using gate_inv_rx_drop gate_inv_ticket_drop assms(1) by blast
next
  case (Observe k)
  then show ?thesis using assms gate_inv_observe by simp
next
  case (RxDrop k)
  then show ?thesis using assms gate_inv_rx_drop by simp
next
  case (TicketDrop k)
  then show ?thesis using assms gate_inv_ticket_drop by simp
next
  case GuardDrop
  then show ?thesis using assms gate_inv_guard_drop by simp
qed

lemma gate_inv_run: "gate_run cap es s \<Longrightarrow> gate_inv cap s"
  by (induction rule: gate_run.induct) (auto intro: gate_inv_init gate_inv_step)

lemmas gate_inv_facts = gate_inv_def wq_ok_def permits_out_def

section \<open>Uninterrupted cancellation\<close>

fun uninterrupted :: "gate_event \<Rightarrow> bool" where
  "uninterrupted (RxDrop _) = False"
| "uninterrupted (TicketDrop _) = False"
| "uninterrupted _ = True"

lemma hand_off_live:
  assumes "\<forall>k\<in>set (g_waiters (gs_gate s)). k \<in> set (gs_rx s)"
  shows "released s =
     (case g_waiters (gs_gate s) of
        [] \<Rightarrow> s\<lparr>gs_gate := (gs_gate s)\<lparr>g_waiters := [], g_permits := g_permits (gs_gate s) + 1\<rparr>\<rparr>
      | k # q \<Rightarrow> s\<lparr>gs_gate := (gs_gate s)\<lparr>g_waiters := q\<rparr>, gs_sent := k # gs_sent s\<rparr>)"
  using assms
  by (simp add: released_def release_one_locked_def hand_off_all_alive deliver_grant_def split: list.splits)

lemma gate_exact_released:
  assumes "\<forall>k\<in>set (g_waiters (gs_gate s)). k \<in> set (gs_rx s)"
    "set (gs_tickets s) = set (g_waiters (gs_gate s)) \<union> set (gs_sent s)"
    "set (gs_rx s) = set (gs_tickets s)"
  shows "gate_exact (permits_out s + 1) (released s)"
  using assms by (subst hand_off_live) (auto simp: gate_exact_def permits_out_def split: list.splits)

lemma gate_exact_step:
  assumes "gate_inv cap s" "gate_exact cap s" "gate_step e s = Some s'" "uninterrupted e"
  shows "gate_exact cap s'"
proof (cases e)
  case (Acquire p)
  then show ?thesis using assms
    by (auto simp: gate_exact_def permits_out_def do_acquire_def acquire_locked_def Let_def split: if_splits)
next
  case (Observe k)
  then show ?thesis using assms length_remove1_mem [of k "gs_sent s"]
    by (auto simp: do_observe_def gate_exact_def gate_inv_def permits_out_def split: if_splits)
next
  case (Cancel k)
  let ?t = "s\<lparr>gs_rx := remove1 k (gs_rx s)\<rparr>"
  have k: "k \<in> set (gs_rx s)" "do_ticket_drop k ?t = Some s'"
    using assms(3) Cancel by (auto simp: do_rx_drop_def split: if_splits)
  show ?thesis
  proof (cases "k \<in> set (g_waiters (gs_gate s))")
    case True
    then have "k \<notin> set (gs_sent s)" using assms(1) by (auto simp: gate_inv_def)
    then show ?thesis using assms(1,2) k True
      by (auto simp: do_ticket_drop_cases gate_exact_def gate_inv_facts forget_ticket_def wq_remove_def
          split: if_splits)
  next
    case False
    let ?u = "forget_ticket k ?t"
    have "k \<in> set (gs_sent s)" using assms(2) k False by (auto simp: gate_exact_def)
    then have "permits_out ?u + 1 = cap"
      using assms(1,2) length_remove1_mem [of k "gs_sent s"]
      by (auto simp: gate_exact_def gate_inv_def permits_out_def forget_ticket_def
          simp flip: distinct_remove1_removeAll)
    moreover have "gate_exact (permits_out ?u + 1) (released ?u)"
      using assms(1,2) False
      by (intro gate_exact_released) (auto simp: gate_exact_def gate_inv_def forget_ticket_def)
    ultimately show ?thesis using k False by (auto simp: do_ticket_drop_cases split: if_splits)
  qed
next
  case GuardDrop
  let ?u = "s\<lparr>gs_guards := gs_guards s - 1\<rparr>"
  have g: "gs_guards s > 0" "s' = released ?u"
    using assms(3) GuardDrop by (auto simp: do_guard_drop_released split: if_splits)
  have "gate_exact (permits_out ?u + 1) (released ?u)"
    using assms(2) by (intro gate_exact_released) (auto simp: gate_exact_def)
  with g assms(2) show ?thesis by (auto simp: gate_exact_def permits_out_def)
qed (use assms in auto)

lemma gate_exact_run:
  "gate_run cap es s \<Longrightarrow> list_all uninterrupted es \<Longrightarrow> gate_exact cap s"
proof (induction rule: gate_run.induct)
  case gate_start
  then show ?case by (simp add: gate_exact_def gate_init_def gate_new_def permits_out_def)
next
  case (gate_next es s e s')
  then show ?case using gate_exact_step [OF gate_inv_run] by auto
qed

section \<open>Properties\<close>

text \<open>
  C32. Permits are conserved: in every run whose cancellations are not interrupted
  between the drop of the receiver and the drop of the ticket, the free permits, the
  live guards and the grants in flight add up to the configured cap; so no more
  than \<open>cap\<close> files are ever in flight and no permit is lost, whatever the
  callers do.
\<close>

theorem gate_conserves_permits:
  assumes "gate_run cap es s" "list_all uninterrupted es"
  shows "g_permits (gs_gate s) + gs_guards s + length (gs_sent s) = cap"
  using gate_exact_run [OF assms] by (simp add: gate_exact_def permits_out_def)

definition gate_ex_cancel :: gate_sys where
  "gate_ex_cancel =
     \<lparr>gs_gate = \<lparr>g_permits = 0, g_next_seq = 2, g_waiters = []\<rparr>,
      gs_tickets = [], gs_rx = [], gs_sent = [], gs_guards = 1\<rparr>"

definition gate_ex_wait :: gate_sys where
  "gate_ex_wait =
     \<lparr>gs_gate = \<lparr>g_permits = 0, g_next_seq = 2, g_waiters = [WKey 3 0, WKey 4 1]\<rparr>,
      gs_tickets = [WKey 4 1, WKey 3 0], gs_rx = [WKey 4 1, WKey 3 0], gs_sent = [], gs_guards = 1\<rparr>"

lemma gate_waiting_run: "gate_run 1 [Acquire 5, Acquire 3, Acquire 4] gate_ex_wait"
  using gate_run_exec [OF gate_start [of 1], of "[Acquire 5, Acquire 3, Acquire 4]"]
  by (simp add: gate_ex_wait_def gate_init_def gate_new_def do_acquire_def acquire_locked_def
      wq_insert_def less_eq_wkey_def Let_def numeral_2_eq_2)

lemma gate_cancel_run: "gate_run 1
  [Acquire 5, Acquire 3, Acquire 4, GuardDrop, Cancel (WKey 3 0), Observe (WKey 4 1)] gate_ex_cancel"
  using gate_run_exec [OF gate_start [of 1], of "[Acquire 5, Acquire 3, Acquire 4, GuardDrop,
    Cancel (WKey 3 0), Observe (WKey 4 1)]"]
  by (simp add: gate_ex_cancel_def gate_init_def gate_new_def do_acquire_def acquire_locked_def wq_insert_def
      less_eq_wkey_def do_guard_drop_def release_one_locked_def deliver_grant_def do_rx_drop_def
      do_ticket_drop_def ticket_drop_def do_observe_def Let_def numeral_2_eq_2)

theorem gate_conserves_permits_witness:
  "g_permits (gs_gate gate_ex_cancel) + gs_guards gate_ex_cancel + length (gs_sent gate_ex_cancel) = 1"
  using gate_conserves_permits [OF gate_cancel_run] by simp

text \<open>
  C31. In every interleaving, interrupted cancellations included, no permit is lost
  and nobody is stranded: the permits out never fall below the cap, permits are
  free only when nobody waits, and as long as someone waits some other caller
  holds or is being handed a permit and will release it.
\<close>

theorem gate_never_strands:
  assumes "gate_run cap es s"
  shows "cap \<le> g_permits (gs_gate s) + gs_guards s + length (gs_sent s)
    \<and> (g_waiters (gs_gate s) = [] \<or> (g_permits (gs_gate s) = 0 \<and> cap \<le> gs_guards s + length (gs_sent s)))
    \<and> set (g_waiters (gs_gate s)) \<subseteq> set (gs_tickets s)"
  using gate_inv_run [OF assms] by (auto simp: gate_inv_def permits_out_def)

theorem gate_never_strands_witness:
  "g_waiters (gs_gate gate_ex_wait) \<noteq> [] \<and> g_permits (gs_gate gate_ex_wait) = 0
   \<and> 1 \<le> gs_guards gate_ex_wait + length (gs_sent gate_ex_wait)"
  using gate_never_strands [OF gate_waiting_run] by (simp add: gate_ex_wait_def)

text \<open>
  Admission order: whenever a guard is dropped while someone whose future is
  alive waits, the permit goes to exactly one of them, and to the waiter that
  sorts first: lowest priority number, and among equals the one that queued
  first. A new caller takes a free permit only when nobody is queued and never
  overtakes a waiter.
\<close>

theorem gate_priority_fifo:
  assumes "gate_run cap es s" "gs_guards s > 0"
    and "k \<in> set (g_waiters (gs_gate s))" "k \<in> set (gs_rx s)"
  shows "(\<exists>k1 s'. gate_step GuardDrop s = Some s' \<and> gs_sent s' = k1 # gs_sent s
       \<and> k1 \<in> set (g_waiters (gs_gate s)) \<inter> set (gs_rx s) \<and> k1 \<notin> set (g_waiters (gs_gate s'))
       \<and> (wk_priority k1 < wk_priority k
            \<or> (wk_priority k1 = wk_priority k \<and> wk_seq k1 \<le> wk_seq k))
       \<and> g_permits (gs_gate s') = 0)
    \<and> gs_guards (do_acquire p s) = gs_guards s
    \<and> set (g_waiters (gs_gate (do_acquire p s)))
        = insert (WKey p (g_next_seq (gs_gate s))) (set (g_waiters (gs_gate s)))"
proof -
  let ?u = "s\<lparr>gs_guards := gs_guards s - 1\<rparr>"
  have inv: "wq_ok (g_waiters (gs_gate s))" "g_permits (gs_gate s) = 0"
    using gate_inv_run [OF assms(1)] assms(3) by (auto simp: gate_inv_def)
  have acq: "gs_guards (do_acquire p s) = gs_guards s
    \<and> set (g_waiters (gs_gate (do_acquire p s)))
        = insert (WKey p (g_next_seq (gs_gate s))) (set (g_waiters (gs_gate s)))"
    using inv by (simp add: do_acquire_def acquire_locked_def Let_def)
  have st: "gate_step GuardDrop s = Some (released ?u)"
    using assms(2) by (simp add: do_guard_drop_released)
  show ?thesis
  proof (cases ?u rule: released_cases)
    case (granted q k1)
    have "hand_off (\<lambda>x. x \<in> set (gs_rx s)) (g_waiters (gs_gate s)) = (q, Some k1)"
      using granted(1) by simp
    from hand_off_Some [OF this inv(1)] assms(3,4)
    have "k1 \<in> set (g_waiters (gs_gate s))" "k1 \<notin> set q" "k1 \<in> set (gs_rx s)" "k1 \<le> k" by auto
    with st granted(2) inv(2) acq show ?thesis by (auto simp: less_eq_wkey_def)
  next
    case pooled
    then show ?thesis using assms(3,4) by auto
  qed
qed

theorem gate_priority_fifo_witness:
  "\<exists>k1 s'. gate_step GuardDrop gate_ex_wait = Some s' \<and> gs_sent s' = [k1] \<and> wk_priority k1 \<le> 4
     \<and> gs_guards (do_acquire 0 gate_ex_wait) = 1"
  using gate_priority_fifo [OF gate_waiting_run, of "WKey 4 1" 0] by (auto simp: gate_ex_wait_def)

lemma interrupted_cancel_exec:
  "\<exists>s. gate_exec [Acquire 5, Acquire 3, RxDrop (WKey 3 0), GuardDrop, TicketDrop (WKey 3 0),
      Acquire 1, Acquire 2] (gate_init 1) = Some s \<and> gs_guards s = 2"
  by (simp add: gate_init_def gate_new_def do_acquire_def acquire_locked_def wq_insert_def
      less_eq_wkey_def do_guard_drop_def release_one_locked_def deliver_grant_def do_rx_drop_def
      do_ticket_drop_def ticket_drop_def Let_def numeral_2_eq_2)

text \<open>
  The interrupted cancellation: the receiver of a queued waiter is dropped, a
  guard is released before the ticket's \<open>Drop\<close> takes the lock, the failed send
  returns the permit to the pool, and the ticket then finds itself neither queued
  nor granted and releases once more. With a cap of one file two callers then
  hold a guard at the same time.
\<close>

theorem gate_interrupted_cancel_overadmits:
  "\<exists>s. gate_run 1 [Acquire 5, Acquire 3, RxDrop (WKey 3 0), GuardDrop, TicketDrop (WKey 3 0),
                   Acquire 1, Acquire 2] s
     \<and> gs_guards s = 2"
proof -
  obtain s where s: "gate_exec [Acquire 5, Acquire 3, RxDrop (WKey 3 0), GuardDrop,
      TicketDrop (WKey 3 0), Acquire 1, Acquire 2] (gate_init 1) = Some s" "gs_guards s = 2"
    using interrupted_cancel_exec by blast
  from gate_run_exec [OF gate_start s(1)] s(2) show ?thesis by (intro exI [of _ s]) simp
qed

end
