(* ===== verification/Errors.thy ===== *)
theory Errors
  imports Prelude
begin

text \<open>
  The error type of the component (\<open>src/error.rs\<close>): \<open>ReplError\<close> and its
  classification into transient, permanent and permission failures, with the
  two boundary classifiers of a raw I/O error.

  An \<open>io::Error\<close> is its kind, its raw OS code when it has one, and its display
  text. Of \<open>io::ErrorKind\<close> the kinds the program tests are constructors; any
  other kind carries its \<open>Debug\<close> name. The \<open>cfg\<close> of the raw lock codes is the
  \<open>platform\<close> argument.
\<close>

datatype io_kind = NotFound | PermissionDeniedKind | ResourceBusy | OtherKind string

fun io_kind_debug :: "io_kind \<Rightarrow> string" where
  "io_kind_debug NotFound = ''NotFound''"
| "io_kind_debug PermissionDeniedKind = ''PermissionDenied''"
| "io_kind_debug ResourceBusy = ''ResourceBusy''"
| "io_kind_debug (OtherKind n) = n"

record io_error =
  io_kind :: io_kind
  io_raw_os :: "int option"
  io_text :: string

datatype platform = PWindows | PUnix | POther

datatype repl_error =
    Transient string
  | Permanent string
  | PermissionDenied string
  | Integrity string
  | State string
  | Io io_error

type_synonym 'a res = "repl_error + 'a"

definition io_kind_is_permanent :: "io_kind \<Rightarrow> bool" where
  "io_kind_is_permanent k = (case k of NotFound \<Rightarrow> True | PermissionDeniedKind \<Rightarrow> True | _ \<Rightarrow> False)"

fun is_transient :: "repl_error \<Rightarrow> bool" where
  "is_transient (Transient _) = True"
| "is_transient (Integrity _) = True"
| "is_transient (Io e) = (\<not> io_kind_is_permanent (io_kind e))"
| "is_transient (Permanent _) = False"
| "is_transient (PermissionDenied _) = False"
| "is_transient (State _) = False"

fun is_permanent :: "repl_error \<Rightarrow> bool" where
  "is_permanent (Permanent _) = True"
| "is_permanent (PermissionDenied _) = True"
| "is_permanent (Io e) = io_kind_is_permanent (io_kind e)"
| "is_permanent (Transient _) = False"
| "is_permanent (Integrity _) = False"
| "is_permanent (State _) = False"

fun is_permission_denied :: "repl_error \<Rightarrow> bool" where
  "is_permission_denied (PermissionDenied _) = True"
| "is_permission_denied (Io e) = (io_kind e = PermissionDeniedKind)"
| "is_permission_denied _ = False"

definition io_message :: "io_error \<Rightarrow> string" where
  "io_message e = ''io: '' @ io_text e @ '' ('' @ io_kind_debug (io_kind e) @ '')''"

definition classify_io :: "io_error \<Rightarrow> repl_error" where
  "classify_io e =
     (case io_kind e of
        PermissionDeniedKind \<Rightarrow> PermissionDenied (io_message e)
      | NotFound \<Rightarrow> Permanent (io_message e)
      | _ \<Rightarrow> Transient (io_message e))"

definition locked_raw :: "platform \<Rightarrow> int list" where
  "locked_raw p = (case p of PWindows \<Rightarrow> [32] | PUnix \<Rightarrow> [16] | POther \<Rightarrow> [])"

definition is_locked_file :: "platform \<Rightarrow> io_error \<Rightarrow> bool" where
  "is_locked_file p e =
     (if io_kind e = PermissionDeniedKind \<or> io_kind e = ResourceBusy then True
      else (case io_raw_os e of None \<Rightarrow> False | Some code \<Rightarrow> code \<in> set (locked_raw p)))"

definition classify_cleanup_io :: "platform \<Rightarrow> io_error \<Rightarrow> repl_error" where
  "classify_cleanup_io p e =
     (if is_locked_file p e then Transient (io_message e) else classify_io e)"

text \<open>The \<open>Display\<close> of an error (\<open>#[error(...)]\<close>), used as the persisted \<open>last_error\<close>.\<close>

fun error_text :: "repl_error \<Rightarrow> string" where
  "error_text (Transient m) = ''transient: '' @ m"
| "error_text (Permanent m) = ''permanent: '' @ m"
| "error_text (PermissionDenied m) = ''permission denied: '' @ m"
| "error_text (Integrity m) = ''integrity: '' @ m"
| "error_text (State m) = ''state: '' @ m"
| "error_text (Io e) = io_text e"

section \<open>Classification\<close>

lemma transient_not_permanent [simp]: "is_transient e \<Longrightarrow> \<not> is_permanent e"
  by (cases e) simp_all

lemma not_transient_iff:
  "\<not> is_transient e \<longleftrightarrow> is_permanent e \<or> (\<exists>m. e = State m)"
  by (cases e) simp_all

lemma permission_denied_permanent: "is_permission_denied e \<Longrightarrow> is_permanent e"
  by (cases e) (simp_all add: io_kind_is_permanent_def)

lemma classify_io_faithful:
  "is_permanent (classify_io e) = is_permanent (Io e)"
  "is_transient (classify_io e) = is_transient (Io e)"
  "is_permission_denied (classify_io e) = is_permission_denied (Io e)"
  by (simp_all add: classify_io_def io_kind_is_permanent_def split: io_kind.splits)

text \<open>
  Every failure has exactly one retry class: worth retrying, fail fast, or a
  durable-store fault; a permission denial always fails fast; and classifying
  a raw I/O error at the boundary never changes the class of the error.
\<close>

theorem error_classes:
  "(is_transient e \<noteq> (is_permanent e \<or> (\<exists>m. e = State m)))
   \<and> \<not> (is_permanent e \<and> (\<exists>m. e = State m))
   \<and> (is_permission_denied e = (is_permanent e \<and> is_permission_denied e))
   \<and> is_transient (classify_io x) = is_transient (Io x)
   \<and> is_permanent (classify_io x) = is_permanent (Io x)
   \<and> is_permission_denied (classify_io x) = is_permission_denied (Io x)"
  using not_transient_iff [of e] permission_denied_permanent [of e]
  by (auto simp: classify_io_faithful)

text \<open>
  On the source-completion path a locked source is always retried, on every
  platform, although the transfer path would give up on it: the two
  classifiers differ on a permission denial or a platform lock code and agree
  on every other error.
\<close>

theorem cleanup_lock_is_retried:
  "is_transient (classify_cleanup_io p e) = (is_locked_file p e \<or> is_transient (classify_io e))
   \<and> \<not> is_permission_denied (classify_cleanup_io p e)
   \<and> (is_permanent (classify_cleanup_io p e) = (io_kind e = NotFound \<and> \<not> is_locked_file p e))"
  by (auto simp: classify_cleanup_io_def classify_io_def is_locked_file_def split: io_kind.splits)

end
