(* ===== verification/Json.thy ===== *)
theory Json
  imports Prelude
begin

text \<open>
  \<open>serde_json::Value\<close> as far as the program builds and reads it: the resume
  tokens, the finalize handles, the persisted delivery results, the configuration and the
  status documents. An object is its list of members in insertion order. A number is an
  integer, or a float: the fraction with the given numerator and (positive) denominator.
\<close>

datatype json =
    JNull
  | JBool bool
  | JNum int
  | JFloat int nat
  | JStr string
  | JArr "json list"
  | JObj "(string \<times> json) list"

fun jget :: "string \<Rightarrow> json \<Rightarrow> json option" where
  "jget k (JObj kvs) = map_of kvs k"
| "jget k _ = None"

fun jas_str :: "json \<Rightarrow> string option" where
  "jas_str (JStr s) = Some s"
| "jas_str _ = None"

fun jas_u64 :: "json \<Rightarrow> u64 option" where
  "jas_u64 (JNum n) = (if 0 \<le> n \<and> n < 2 ^ 64 then Some (word_of_int n) else None)"
| "jas_u64 _ = None"

definition ju64 :: "u64 \<Rightarrow> json" where
  "ju64 w = JNum (uint w)"

lemma jas_u64_ju64 [simp]: "jas_u64 (ju64 w) = Some w"
  using uint_lt2p [of w] by (simp add: ju64_def)

fun jas_u32 :: "json \<Rightarrow> u32 option" where
  "jas_u32 (JNum n) = (if 0 \<le> n \<and> n < 2 ^ 32 then Some (word_of_int n) else None)"
| "jas_u32 _ = None"

lemma jas_u32_uint [simp]: "jas_u32 (JNum (uint (w :: u32))) = Some w"
  using uint_lt2p [of w] by simp

fun jas_u8 :: "json \<Rightarrow> u8 option" where
  "jas_u8 (JNum n) = (if 0 \<le> n \<and> n < 2 ^ 8 then Some (word_of_int n) else None)"
| "jas_u8 _ = None"

lemma jas_u8_uint [simp]: "jas_u8 (JNum (uint (w :: u8))) = Some w"
  using uint_lt2p [of w] by simp

declare jas_u64.simps [simp del] jas_u32.simps [simp del] jas_u8.simps [simp del]

fun collect_opt :: "'a option list \<Rightarrow> 'a list option" where
  "collect_opt [] = Some []"
| "collect_opt (None # _) = None"
| "collect_opt (Some x # xs) = map_option (\<lambda>ys. x # ys) (collect_opt xs)"

lemma collect_opt_Some [simp]: "collect_opt (List.map (\<lambda>x. Some (f x)) xs) = Some (List.map f xs)"
  by (induction xs) simp_all

end
