(* ===== verification/Domain.thy ===== *)
theory Domain
  imports Errors Json
begin

text \<open>
  The shared vocabulary of the engine (\<open>src/domain.rs\<close>): the lifecycle states
  of a tracked file and of one of its destinations with their persisted TEXT
  tokens, the work item, the resume checkpoint and the delivery result with the
  JSON form \<open>serde\<close> derives for them.
\<close>

section \<open>Lifecycle states\<close>

datatype item_state =
    Ready | InProgress | Verified | CleanupPending | CleanupFailed
  | Completed | Failed | Exhausted | Quarantined | Retained

definition item_as_str :: "item_state \<Rightarrow> string" where
  "item_as_str s =
     (case s of
        Ready \<Rightarrow> ''ready'' | InProgress \<Rightarrow> ''in_progress'' | Verified \<Rightarrow> ''verified''
      | CleanupPending \<Rightarrow> ''cleanup_pending'' | CleanupFailed \<Rightarrow> ''cleanup_failed''
      | Completed \<Rightarrow> ''completed'' | Failed \<Rightarrow> ''failed'' | Exhausted \<Rightarrow> ''exhausted''
      | Quarantined \<Rightarrow> ''quarantined'' | Retained \<Rightarrow> ''retained'')"

definition item_from_str :: "string \<Rightarrow> item_state option" where
  "item_from_str s =
     (if s = ''ready'' then Some Ready
      else if s = ''in_progress'' then Some InProgress
      else if s = ''verified'' then Some Verified
      else if s = ''cleanup_pending'' then Some CleanupPending
      else if s = ''cleanup_failed'' then Some CleanupFailed
      else if s = ''completed'' then Some Completed
      else if s = ''failed'' then Some Failed
      else if s = ''exhausted'' then Some Exhausted
      else if s = ''quarantined'' then Some Quarantined
      else if s = ''retained'' then Some Retained
      else None)"

definition is_terminal :: "item_state \<Rightarrow> bool" where
  "is_terminal s = (case s of Completed \<Rightarrow> True | Quarantined \<Rightarrow> True | Retained \<Rightarrow> True | _ \<Rightarrow> False)"

datatype dest_phase = DPending | DVerified | DExhausted

definition phase_as_str :: "dest_phase \<Rightarrow> string" where
  "phase_as_str p = (case p of DPending \<Rightarrow> ''pending'' | DVerified \<Rightarrow> ''verified'' | DExhausted \<Rightarrow> ''exhausted'')"

definition phase_from_str :: "string \<Rightarrow> dest_phase option" where
  "phase_from_str s =
     (if s = ''pending'' then Some DPending
      else if s = ''verified'' then Some DVerified
      else if s = ''exhausted'' then Some DExhausted
      else None)"

lemma item_from_as_str [simp]: "item_from_str (item_as_str s) = Some s"
  by (cases s) (simp_all add: item_as_str_def item_from_str_def)

lemma item_as_from_str: "item_from_str t = Some s \<Longrightarrow> item_as_str s = t"
  by (auto simp: item_as_str_def item_from_str_def split: if_splits)

lemma item_as_str_inj [simp]: "item_as_str a = item_as_str b \<longleftrightarrow> a = b"
  by (metis item_from_as_str option.inject)

lemma phase_from_as_str [simp]: "phase_from_str (phase_as_str p) = Some p"
  by (cases p) (simp_all add: phase_as_str_def phase_from_str_def)

lemma phase_as_from_str: "phase_from_str t = Some p \<Longrightarrow> phase_as_str p = t"
  by (auto simp: phase_as_str_def phase_from_str_def split: if_splits)

lemma item_str_literals [simp]:
  "item_as_str Ready = ''ready''" "item_as_str InProgress = ''in_progress''"
  "item_as_str Verified = ''verified''" "item_as_str CleanupPending = ''cleanup_pending''"
  "item_as_str Completed = ''completed''" "item_as_str Quarantined = ''quarantined''"
  "item_as_str Retained = ''retained''" "item_as_str Failed = ''failed''"
  "item_as_str CleanupFailed = ''cleanup_failed''" "item_as_str Exhausted = ''exhausted''"
  by (simp_all add: item_as_str_def)

lemma is_terminal_simps [simp]:
  "is_terminal Completed" "is_terminal Quarantined" "is_terminal Retained"
  "\<not> is_terminal Ready" "\<not> is_terminal InProgress" "\<not> is_terminal Verified"
  "\<not> is_terminal CleanupPending" "\<not> is_terminal CleanupFailed" "\<not> is_terminal Failed"
  "\<not> is_terminal Exhausted"
  by (simp_all add: is_terminal_def)

section \<open>Work items and destination states\<close>

record work_item =
  wi_instance :: string
  wi_relpath :: string
  wi_abs_source :: "string list"
  wi_state :: item_state
  wi_size :: u64
  wi_discovered_at :: i64
  wi_attempts :: u32
  wi_cleanup_attempts :: u32
  wi_next_attempt_at :: i64
  wi_last_error :: "string option"
  wi_bytes_done :: u64
  wi_updated_at :: i64

record dest_state =
  ds_dest :: string
  ds_phase :: dest_phase
  ds_attempts :: u32
  ds_next_attempt_at :: i64
  ds_last_error :: "string option"

section \<open>Checkpoints and delivery results\<close>

record resume_state =
  rs_bytes_committed :: u64
  rs_token :: json

datatype checksum = Crc32c u32 | Sha256 bytes | NoChecksum

record delivered =
  dl_bytes :: u64
  dl_checksum :: checksum
  dl_handle :: json

text \<open>
  The derived \<open>Serialize\<close>: a struct is an object of its fields, an enum variant
  with a payload the one-member object of its name, a unit variant its name.
  The derived \<open>Deserialize\<close> reads exactly these shapes back, and a SHA-256
  payload only when it has the 32 elements of \<open>[u8; 32]\<close>.
\<close>

fun checksum_to_json :: "checksum \<Rightarrow> json" where
  "checksum_to_json (Crc32c c) = JObj [(''Crc32c'', JNum (uint c))]"
| "checksum_to_json (Sha256 bs) = JObj [(''Sha256'', JArr (List.map (\<lambda>b. JNum (uint b)) bs))]"
| "checksum_to_json NoChecksum = JStr ''None''"

fun checksum_from_json :: "json \<Rightarrow> checksum option" where
  "checksum_from_json (JStr s) = (if s = ''None'' then Some NoChecksum else None)"
| "checksum_from_json (JObj [(k, v)]) =
     (if k = ''Crc32c'' then map_option Crc32c (jas_u32 v)
      else if k = ''Sha256'' then
        (case v of
           JArr xs \<Rightarrow> (if length xs = 32 then map_option Sha256 (collect_opt (List.map jas_u8 xs)) else None)
         | _ \<Rightarrow> None)
      else None)"
| "checksum_from_json _ = None"

definition delivered_to_json :: "delivered \<Rightarrow> json" where
  "delivered_to_json d =
     JObj [(''bytes'', ju64 (dl_bytes d)), (''checksum'', checksum_to_json (dl_checksum d)),
           (''handle'', dl_handle d)]"

definition delivered_from_json :: "json \<Rightarrow> delivered option" where
  "delivered_from_json j =
     (case Option.bind (jget ''bytes'' j) jas_u64 of
        None \<Rightarrow> None
      | Some b \<Rightarrow>
        (case Option.bind (jget ''checksum'' j) checksum_from_json of
           None \<Rightarrow> None
         | Some c \<Rightarrow>
           (case jget ''handle'' j of
              None \<Rightarrow> None
            | Some h \<Rightarrow> Some \<lparr>dl_bytes = b, dl_checksum = c, dl_handle = h\<rparr>)))"

text \<open>The type invariant of \<open>Checksum::Sha256([u8; 32])\<close>.\<close>

fun checksum_ok :: "checksum \<Rightarrow> bool" where
  "checksum_ok (Sha256 bs) = (length bs = 32)"
| "checksum_ok _ = True"

lemma checksum_json_round_trip [simp]:
  "checksum_ok c \<Longrightarrow> checksum_from_json (checksum_to_json c) = Some c"
  by (cases c) (simp_all add: comp_def)

lemma delivered_json_round_trip:
  "checksum_ok (dl_checksum d) \<Longrightarrow> delivered_from_json (delivered_to_json d) = Some d"
  by (simp add: delivered_from_json_def delivered_to_json_def)

text \<open>
  The persisted tokens of the lifecycle states and of the destination phases
  are read back as the state they were written from, no two states share a
  token, and a token that no state writes is refused.
\<close>

theorem state_tokens_round_trip:
  "item_from_str (item_as_str s) = Some s
   \<and> phase_from_str (phase_as_str p) = Some p
   \<and> (item_from_str t = None) = (t \<notin> range item_as_str)
   \<and> (phase_from_str u = None) = (u \<notin> range phase_as_str)"
proof -
  have "(item_from_str t = None) = (t \<notin> range item_as_str)"
    using item_as_from_str [of t] by (cases "item_from_str t") auto
  moreover have "(phase_from_str u = None) = (u \<notin> range phase_as_str)"
    using phase_as_from_str [of u] by (cases "phase_from_str u") auto
  ultimately show ?thesis by simp
qed

end
