(* ===== verification/Tables.thy ===== *)
theory Tables
  imports Prelude
begin

text \<open>
  SQL tables with a primary key, as row lists in rowid order, and the statements
  the state store issues on them: \<open>SELECT\<close> of one key, \<open>UPDATE\<close> of one key,
  \<open>INSERT ... ON CONFLICT DO UPDATE\<close> and \<open>DELETE\<close>. The locale \<open>keyed_table\<close> is the
  contract the store's lemmas rest on; it is interpreted on every table of the
  schema in theory \<open>Store\<close>.
\<close>

definition t_find :: "('r \<Rightarrow> 'k) \<Rightarrow> 'k \<Rightarrow> 'r list \<Rightarrow> 'r option" where
  "t_find key k t = List.find (\<lambda>r. key r = k) t"

definition t_update :: "('r \<Rightarrow> 'k) \<Rightarrow> 'k \<Rightarrow> ('r \<Rightarrow> 'r) \<Rightarrow> 'r list \<Rightarrow> 'r list" where
  "t_update key k f t = List.map (\<lambda>r. if key r = k then f r else r) t"

definition t_upsert :: "('r \<Rightarrow> 'k) \<Rightarrow> 'r \<Rightarrow> ('r \<Rightarrow> 'r) \<Rightarrow> 'r list \<Rightarrow> 'r list" where
  "t_upsert key new on_conflict t =
     (if List.find (\<lambda>r. key r = key new) t = None then t @ [new]
      else t_update key (key new) on_conflict t)"

definition t_delete :: "('r \<Rightarrow> bool) \<Rightarrow> 'r list \<Rightarrow> 'r list" where
  "t_delete P t = filter (\<lambda>r. \<not> P r) t"

definition t_ok :: "('r \<Rightarrow> 'k) \<Rightarrow> 'r list \<Rightarrow> bool" where
  "t_ok key t = distinct (List.map key t)"

lemma find_None: "List.find P t = None \<longleftrightarrow> (\<forall>r\<in>set t. \<not> P r)"
  by (auto simp: find_None_iff)

lemma t_find_None: "t_find key k t = None \<longleftrightarrow> k \<notin> key ` set t"
  by (auto simp: t_find_def find_None)

lemma t_find_mem: "t_find key k t = Some r \<Longrightarrow> r \<in> set t \<and> key r = k"
  by (auto simp: t_find_def find_Some_iff)

lemma t_find_Some: "t_ok key t \<Longrightarrow> t_find key k t = Some r \<longleftrightarrow> r \<in> set t \<and> key r = k"
  by (induction t) (auto simp: t_find_def t_ok_def)

lemma t_find_append:
  "t_find key k (t @ u) = (case t_find key k t of None \<Rightarrow> t_find key k u | Some r \<Rightarrow> Some r)"
  by (induction t) (simp_all add: t_find_def)

lemma t_find_update:
  "(\<And>r. key (f r) = key r) \<Longrightarrow>
   t_find key k (t_update key k' f t) = (if k = k' then map_option f (t_find key k t) else t_find key k t)"
  by (induction t) (auto simp: t_find_def t_update_def)

lemma t_ok_update: "(\<And>r. key (f r) = key r) \<Longrightarrow> t_ok key (t_update key k f t) = t_ok key t"
proof -
  assume "\<And>r. key (f r) = key r"
  then have "List.map key (t_update key k f t) = List.map key t"
    by (simp add: t_update_def comp_def)
  then show ?thesis by (simp add: t_ok_def)
qed

lemma t_find_upsert:
  "(\<And>r. key (f r) = key r) \<Longrightarrow>
   t_find key k (t_upsert key new f t) =
     (if k = key new then (case t_find key k t of None \<Rightarrow> Some new | Some r \<Rightarrow> Some (f r))
      else t_find key k t)"
  by (auto simp: t_upsert_def t_find_update t_find_append simp flip: t_find_def split: option.splits)
     (simp_all add: t_find_def)

lemma t_ok_upsert: "(\<And>r. key (f r) = key r) \<Longrightarrow> t_ok key t \<Longrightarrow> t_ok key (t_upsert key new f t)"
  by (auto simp: t_upsert_def t_ok_update find_None) (auto simp: t_ok_def)

lemma t_ok_delete: "t_ok key t \<Longrightarrow> t_ok key (t_delete P t)"
  by (induction t) (auto simp: t_ok_def t_delete_def)

lemma t_find_delete:
  assumes "t_ok key t"
  shows "t_find key k (t_delete P t) =
     (case t_find key k t of None \<Rightarrow> None | Some r \<Rightarrow> if P r then None else Some r)"
proof (cases "t_find key k t")
  case None
  then have "t_find key k (t_delete P t) = None" by (auto simp: t_find_None t_delete_def)
  then show ?thesis using None by simp
next
  case (Some r)
  then have r: "r \<in> set t" "key r = k" using t_find_mem by fast+
  have u: "x = r" if "x \<in> set t" "key x = k" for x
    using that r assms by (auto simp: t_ok_def distinct_map dest: inj_onD)
  show ?thesis
  proof (cases "P r")
    case True
    then have "k \<notin> key ` set (t_delete P t)" using u by (auto simp: t_delete_def)
    then have "t_find key k (t_delete P t) = None" by (simp add: t_find_None)
    then show ?thesis using Some True by simp
  next
    case False
    then have "r \<in> set (t_delete P t)" using r by (simp add: t_delete_def)
    then show ?thesis using Some False r t_find_Some [OF t_ok_delete [OF assms]] by auto
  qed
qed

lemma set_t_update: "set (t_update key k f t) = (\<lambda>r. if key r = k then f r else r) ` set t"
  by (simp add: t_update_def)

lemma set_t_upsert:
  "set (t_upsert key new f t) \<subseteq> insert new (set t \<union> f ` set t)"
  by (auto simp: t_upsert_def set_t_update)

lemma set_t_delete: "set (t_delete P t) = {r \<in> set t. \<not> P r}"
  by (simp add: t_delete_def)

locale keyed_table =
  fixes key :: "'r \<Rightarrow> 'k"
    and find :: "'k \<Rightarrow> 't \<Rightarrow> 'r option"
    and update :: "'k \<Rightarrow> ('r \<Rightarrow> 'r) \<Rightarrow> 't \<Rightarrow> 't"
    and upsert :: "'r \<Rightarrow> ('r \<Rightarrow> 'r) \<Rightarrow> 't \<Rightarrow> 't"
    and ok :: "'t \<Rightarrow> bool"
  assumes find_key: "find k t = Some r \<Longrightarrow> key r = k"
    and find_update: "(\<And>r. key (f r) = key r) \<Longrightarrow>
          find k (update k' f t) = (if k = k' then map_option f (find k t) else find k t)"
    and find_upsert: "(\<And>r. key (f r) = key r) \<Longrightarrow>
          find k (upsert new f t) =
            (if k = key new then (case find k t of None \<Rightarrow> Some new | Some r \<Rightarrow> Some (f r))
             else find k t)"
    and ok_update: "(\<And>r. key (f r) = key r) \<Longrightarrow> ok t \<Longrightarrow> ok (update k f t)"
    and ok_upsert: "(\<And>r. key (f r) = key r) \<Longrightarrow> ok t \<Longrightarrow> ok (upsert new f t)"
begin

lemma find_upsert_same [simp]:
  "(\<And>r. key (f r) = key r) \<Longrightarrow>
   find (key new) (upsert new f t) = (case find (key new) t of None \<Rightarrow> Some new | Some r \<Rightarrow> Some (f r))"
  by (simp add: find_upsert)

lemma find_upsert_other [simp]:
  "(\<And>r. key (f r) = key r) \<Longrightarrow> k \<noteq> key new \<Longrightarrow> find k (upsert new f t) = find k t"
  by (simp add: find_upsert)

lemma update_absent: "(\<And>r. key (f r) = key r) \<Longrightarrow> find k t = None \<Longrightarrow> find k (update k f t) = None"
  by (simp add: find_update)

lemma update_twice:
  "(\<And>r. key (f r) = key r) \<Longrightarrow> (\<And>r. key (g r) = key r) \<Longrightarrow>
   find j (update k g (update k f t)) = find j (update k (\<lambda>r. g (f r)) t)"
  by (simp add: find_update option.map_comp comp_def)

end

end
