(* ===== verification/Store.thy ===== *)
theory Store
  imports Domain Tables "HOL-Library.List_Lexorder" "HOL-Library.Char_ord"
begin

text \<open>
  The durable state (\<open>src/state.rs\<close>): the five tables of the schema and every
  statement \<open>SqliteStore\<close> issues on them. A row keeps the SQL types, TEXT tokens
  for the states and 64-bit integers for the counters, so that each cast of the
  code is a cast here. Rows of a query without a tie-breaker come in rowid order.
  The JSON blob of a checkpoint is the checkpoint itself, and a counter is far
  from the limit of a 64-bit integer.
\<close>

section \<open>Schema\<close>

record item_row =
  ir_instance :: string
  ir_relpath :: string
  ir_state :: string
  ir_size :: int
  ir_mtime_ms :: int
  ir_discovered_at :: int
  ir_attempts :: int
  ir_cleanup_attempts :: int
  ir_next_attempt_at :: int
  ir_last_error :: "string option"
  ir_bytes_done :: int
  ir_updated_at :: int

record resume_row =
  rr_instance :: string
  rr_relpath :: string
  rr_dest :: string
  rr_blob :: resume_state

record dest_row =
  dr_instance :: string
  dr_relpath :: string
  dr_dest :: string
  dr_state :: string
  dr_attempts :: int
  dr_next_attempt_at :: int
  dr_last_error :: "string option"
  dr_updated_at :: int

record activation_row =
  ar_instance :: string
  ar_active :: int
  ar_source :: string
  ar_updated_at :: int

record stats_row =
  sr_instance :: string
  sr_replicated :: int
  sr_failed :: int
  sr_bytes :: int

record db =
  db_items :: "item_row list"
  db_resume :: "resume_row list"
  db_dests :: "dest_row list"
  db_acts :: "activation_row list"
  db_stats :: "stats_row list"

definition open_in_memory :: db where
  "open_in_memory = \<lparr>db_items = [], db_resume = [], db_dests = [], db_acts = [], db_stats = []\<rparr>"

definition item_key :: "item_row \<Rightarrow> string \<times> string" where
  "item_key r = (ir_instance r, ir_relpath r)"

definition resume_key :: "resume_row \<Rightarrow> string \<times> string \<times> string" where
  "resume_key r = (rr_instance r, rr_relpath r, rr_dest r)"

definition dest_key :: "dest_row \<Rightarrow> string \<times> string \<times> string" where
  "dest_key r = (dr_instance r, dr_relpath r, dr_dest r)"

interpretation items: keyed_table item_key "t_find item_key" "t_update item_key"
    "t_upsert item_key" "t_ok item_key"
  by unfold_locales (auto simp: t_find_update t_find_upsert t_ok_update t_ok_upsert dest: t_find_mem)

interpretation resumes: keyed_table resume_key "t_find resume_key" "t_update resume_key"
    "t_upsert resume_key" "t_ok resume_key"
  by unfold_locales (auto simp: t_find_update t_find_upsert t_ok_update t_ok_upsert dest: t_find_mem)

interpretation dests: keyed_table dest_key "t_find dest_key" "t_update dest_key"
    "t_upsert dest_key" "t_ok dest_key"
  by unfold_locales (auto simp: t_find_update t_find_upsert t_ok_update t_ok_upsert dest: t_find_mem)

interpretation acts: keyed_table ar_instance "t_find ar_instance" "t_update ar_instance"
    "t_upsert ar_instance" "t_ok ar_instance"
  by unfold_locales (auto simp: t_find_update t_find_upsert t_ok_update t_ok_upsert dest: t_find_mem)

interpretation counters: keyed_table sr_instance "t_find sr_instance" "t_update sr_instance"
    "t_upsert sr_instance" "t_ok sr_instance"
  by unfold_locales (auto simp: t_find_update t_find_upsert t_ok_update t_ok_upsert dest: t_find_mem)

section \<open>Reading rows\<close>

definition row_to_item :: "item_row \<Rightarrow> work_item res" where
  "row_to_item r =
     (case item_from_str (ir_state r) of
        None \<Rightarrow> Inl (State (''unknown item state '' @ ir_state r))
      | Some st \<Rightarrow> Inr \<lparr>wi_instance = ir_instance r, wi_relpath = ir_relpath r,
          wi_abs_source = str_split (CHR ''/'') (ir_relpath r), wi_state = st, wi_size = i64_as_u64 (ir_size r),
          wi_discovered_at = ir_discovered_at r, wi_attempts = i64_as_u32 (ir_attempts r),
          wi_cleanup_attempts = i64_as_u32 (ir_cleanup_attempts r),
          wi_next_attempt_at = ir_next_attempt_at r, wi_last_error = ir_last_error r,
          wi_bytes_done = i64_as_u64 (ir_bytes_done r), wi_updated_at = ir_updated_at r\<rparr>)"

definition row_to_dest_state :: "dest_row \<Rightarrow> dest_state res" where
  "row_to_dest_state r =
     (case phase_from_str (dr_state r) of
        None \<Rightarrow> Inl (State (''unknown dest phase '' @ dr_state r))
      | Some ph \<Rightarrow> Inr \<lparr>ds_dest = dr_dest r, ds_phase = ph, ds_attempts = i64_as_u32 (dr_attempts r),
          ds_next_attempt_at = dr_next_attempt_at r, ds_last_error = dr_last_error r\<rparr>)"

section \<open>Work items\<close>

text \<open>The \<open>CASE WHEN\<close> condition of the upsert, evaluated on the stored row.\<close>

definition sql_terminal_changed :: "int \<Rightarrow> int \<Rightarrow> item_row \<Rightarrow> bool" where
  "sql_terminal_changed sz mt r =
     (ir_state r \<in> {''completed'', ''quarantined'', ''retained''}
      \<and> (ir_size r \<noteq> sz \<or> ir_mtime_ms r \<noteq> mt))"

definition upsert_conflict :: "int \<Rightarrow> int \<Rightarrow> i64 \<Rightarrow> item_row \<Rightarrow> item_row" where
  "upsert_conflict sz mt now r =
     (let c = sql_terminal_changed sz mt r in
      r\<lparr>ir_state := (if c then ''ready'' else ir_state r),
        ir_attempts := (if c then 0 else ir_attempts r),
        ir_next_attempt_at := (if c then 0 else ir_next_attempt_at r),
        ir_last_error := (if c then None else ir_last_error r),
        ir_bytes_done := (if c then 0 else ir_bytes_done r),
        ir_cleanup_attempts := (if c then 0 else ir_cleanup_attempts r),
        ir_discovered_at := (if c then now else ir_discovered_at r),
        ir_size := sz, ir_mtime_ms := mt, ir_updated_at := now\<rparr>)"

definition fresh_row :: "string \<Rightarrow> string \<Rightarrow> int \<Rightarrow> int \<Rightarrow> i64 \<Rightarrow> item_row" where
  "fresh_row inst rel sz mt now =
     \<lparr>ir_instance = inst, ir_relpath = rel, ir_state = ''ready'', ir_size = sz, ir_mtime_ms = mt,
      ir_discovered_at = now, ir_attempts = 0, ir_cleanup_attempts = 0, ir_next_attempt_at = 0,
      ir_last_error = None, ir_bytes_done = 0, ir_updated_at = now\<rparr>"

text \<open>The same decision as the transaction takes it in Rust, on the row read before the insert.\<close>

definition upsert_resets :: "item_row option \<Rightarrow> int \<Rightarrow> int \<Rightarrow> bool" where
  "upsert_resets prior sz mt =
     (case prior of
        None \<Rightarrow> False
      | Some r \<Rightarrow> (case item_from_str (ir_state r) of None \<Rightarrow> False | Some s \<Rightarrow> is_terminal s)
                  \<and> (ir_size r \<noteq> sz \<or> ir_mtime_ms r \<noteq> mt))"

definition clear_dest_states :: "string \<Rightarrow> string \<Rightarrow> db \<Rightarrow> db" where
  "clear_dest_states inst rel d =
     d\<lparr>db_dests := t_delete (\<lambda>r. dr_instance r = inst \<and> dr_relpath r = rel) (db_dests d)\<rparr>"

definition clear_resume_all :: "string \<Rightarrow> string \<Rightarrow> db \<Rightarrow> db" where
  "clear_resume_all inst rel d =
     d\<lparr>db_resume := t_delete (\<lambda>r. rr_instance r = inst \<and> rr_relpath r = rel) (db_resume d)\<rparr>"

definition upsert_ready :: "string \<Rightarrow> string \<Rightarrow> u64 \<Rightarrow> i64 \<Rightarrow> i64 \<Rightarrow> db \<Rightarrow> db" where
  "upsert_ready inst rel fsize mtime now d =
     (let sz = u64_as_i64 fsize;
          prior = t_find item_key (inst, rel) (db_items d);
          d' = d\<lparr>db_items := t_upsert item_key (fresh_row inst rel sz mtime now)
                   (upsert_conflict sz mtime now) (db_items d)\<rparr>
      in if upsert_resets prior sz mtime
         then clear_resume_all inst rel (clear_dest_states inst rel d') else d')"

definition sql_limit :: "int \<Rightarrow> 'a list \<Rightarrow> 'a list" where
  "sql_limit n xs = (if n < 0 then xs else take (nat n) xs)"

definition claim_rows :: "string \<Rightarrow> u64 \<Rightarrow> i64 \<Rightarrow> db \<Rightarrow> item_row list" where
  "claim_rows inst limit now d =
     sql_limit (u64_as_i64 limit)
       (sort_key ir_discovered_at
          (filter (\<lambda>r. ir_instance r = inst \<and> ir_state r = ''ready'' \<and> ir_next_attempt_at r \<le> now)
             (db_items d)))"

definition update_item :: "string \<Rightarrow> string \<Rightarrow> (item_row \<Rightarrow> item_row) \<Rightarrow> db \<Rightarrow> db" where
  "update_item inst rel f d = d\<lparr>db_items := t_update item_key (inst, rel) f (db_items d)\<rparr>"

definition claim_mark :: "i64 \<Rightarrow> item_row \<Rightarrow> item_row" where
  "claim_mark now r = r\<lparr>ir_state := ''in_progress'', ir_updated_at := now\<rparr>"

definition claim_ready :: "string \<Rightarrow> u64 \<Rightarrow> i64 \<Rightarrow> db \<Rightarrow> work_item list res \<times> db" where
  "claim_ready inst limit now d =
     (case collect_res (List.map row_to_item (claim_rows inst limit now d)) of
        Inl e \<Rightarrow> (Inl e, d)
      | Inr items \<Rightarrow>
          (Inr (List.map (\<lambda>it. it\<lparr>wi_state := InProgress, wi_updated_at := now\<rparr>) items),
           foldl (\<lambda>d it. update_item inst (wi_relpath it) (claim_mark now) d) d items))"

definition set_state :: "string \<Rightarrow> string \<Rightarrow> item_state \<Rightarrow> i64 \<Rightarrow> db \<Rightarrow> db" where
  "set_state inst rel st now d =
     update_item inst rel (\<lambda>r. r\<lparr>ir_state := item_as_str st, ir_updated_at := now\<rparr>) d"

definition record_attempt ::
  "string \<Rightarrow> string \<Rightarrow> string \<Rightarrow> item_state \<Rightarrow> i64 \<Rightarrow> i64 \<Rightarrow> db \<Rightarrow> db" where
  "record_attempt inst rel err next_state next_attempt_at now d =
     update_item inst rel
       (\<lambda>r. r\<lparr>ir_attempts := ir_attempts r + 1, ir_last_error := Some err,
              ir_state := item_as_str next_state, ir_next_attempt_at := next_attempt_at,
              ir_updated_at := now\<rparr>) d"

definition record_cleanup_attempt ::
  "string \<Rightarrow> string \<Rightarrow> string \<Rightarrow> item_state \<Rightarrow> i64 \<Rightarrow> i64 \<Rightarrow> db \<Rightarrow> db" where
  "record_cleanup_attempt inst rel err next_state next_attempt_at now d =
     update_item inst rel
       (\<lambda>r. r\<lparr>ir_cleanup_attempts := ir_cleanup_attempts r + 1, ir_last_error := Some err,
              ir_state := item_as_str next_state, ir_next_attempt_at := next_attempt_at,
              ir_updated_at := now\<rparr>) d"

definition set_bytes_done :: "string \<Rightarrow> string \<Rightarrow> u64 \<Rightarrow> i64 \<Rightarrow> db \<Rightarrow> db" where
  "set_bytes_done inst rel bytes now d =
     update_item inst rel (\<lambda>r. r\<lparr>ir_bytes_done := u64_as_i64 bytes, ir_updated_at := now\<rparr>) d"

definition get_item :: "string \<Rightarrow> string \<Rightarrow> db \<Rightarrow> work_item option res" where
  "get_item inst rel d =
     (case t_find item_key (inst, rel) (db_items d) of
        None \<Rightarrow> Inr None
      | Some r \<Rightarrow> map_res Some (row_to_item r))"

definition recover_incomplete :: "string \<Rightarrow> db \<Rightarrow> work_item list res" where
  "recover_incomplete inst d =
     collect_res (List.map row_to_item (sort_key ir_discovered_at
       (filter (\<lambda>r. ir_instance r = inst
                  \<and> ir_state r \<in> {''in_progress'', ''verified'', ''cleanup_pending''}) (db_items d))))"

definition list_by_state :: "string \<Rightarrow> item_state \<Rightarrow> db \<Rightarrow> work_item list res" where
  "list_by_state inst st d =
     collect_res (List.map row_to_item (sort_key ir_discovered_at
       (filter (\<lambda>r. ir_instance r = inst \<and> ir_state r = item_as_str st) (db_items d))))"

definition roll_up_item ::
  "string \<Rightarrow> string \<Rightarrow> item_state \<Rightarrow> u32 \<Rightarrow> i64 \<Rightarrow> string option \<Rightarrow> i64 \<Rightarrow> db \<Rightarrow> db" where
  "roll_up_item inst rel st attempts next_attempt_at last_error now d =
     update_item inst rel
       (\<lambda>r. r\<lparr>ir_state := item_as_str st, ir_attempts := u32_as_i64 attempts,
              ir_next_attempt_at := next_attempt_at, ir_last_error := last_error,
              ir_updated_at := now\<rparr>) d"

section \<open>Checkpoints\<close>

definition save_resume :: "string \<Rightarrow> string \<Rightarrow> string \<Rightarrow> resume_state \<Rightarrow> db \<Rightarrow> db" where
  "save_resume inst rel dest r d =
     d\<lparr>db_resume := t_upsert resume_key
         \<lparr>rr_instance = inst, rr_relpath = rel, rr_dest = dest, rr_blob = r\<rparr>
         (\<lambda>row. row\<lparr>rr_blob := r\<rparr>) (db_resume d)\<rparr>"

definition load_resume :: "string \<Rightarrow> string \<Rightarrow> string \<Rightarrow> db \<Rightarrow> resume_state option" where
  "load_resume inst rel dest d = map_option rr_blob (t_find resume_key (inst, rel, dest) (db_resume d))"

definition clear_resume :: "string \<Rightarrow> string \<Rightarrow> string \<Rightarrow> db \<Rightarrow> db" where
  "clear_resume inst rel dest d =
     d\<lparr>db_resume := t_delete (\<lambda>r. rr_instance r = inst \<and> rr_relpath r = rel \<and> rr_dest r = dest) (db_resume d)\<rparr>"

section \<open>Per-destination completion\<close>

definition dest_states :: "string \<Rightarrow> string \<Rightarrow> db \<Rightarrow> dest_state list res" where
  "dest_states inst rel d =
     collect_res (List.map row_to_dest_state
       (sort_key dr_dest (filter (\<lambda>r. dr_instance r = inst \<and> dr_relpath r = rel) (db_dests d))))"

definition set_dest_phase :: "string \<Rightarrow> string \<Rightarrow> string \<Rightarrow> dest_phase \<Rightarrow> i64 \<Rightarrow> db \<Rightarrow> db" where
  "set_dest_phase inst rel dest ph now d =
     d\<lparr>db_dests := t_upsert dest_key
         \<lparr>dr_instance = inst, dr_relpath = rel, dr_dest = dest, dr_state = phase_as_str ph,
          dr_attempts = 0, dr_next_attempt_at = 0, dr_last_error = None, dr_updated_at = now\<rparr>
         (\<lambda>r. r\<lparr>dr_state := phase_as_str ph, dr_updated_at := now\<rparr>) (db_dests d)\<rparr>"

definition record_dest_attempt ::
  "string \<Rightarrow> string \<Rightarrow> string \<Rightarrow> string \<Rightarrow> dest_phase \<Rightarrow> i64 \<Rightarrow> i64 \<Rightarrow> db \<Rightarrow> db" where
  "record_dest_attempt inst rel dest err ph next_attempt_at now d =
     d\<lparr>db_dests := t_upsert dest_key
         \<lparr>dr_instance = inst, dr_relpath = rel, dr_dest = dest, dr_state = phase_as_str ph,
          dr_attempts = 1, dr_next_attempt_at = next_attempt_at, dr_last_error = Some err,
          dr_updated_at = now\<rparr>
         (\<lambda>r. r\<lparr>dr_attempts := dr_attempts r + 1, dr_state := phase_as_str ph,
               dr_next_attempt_at := next_attempt_at, dr_last_error := Some err,
               dr_updated_at := now\<rparr>) (db_dests d)\<rparr>"

section \<open>Activation and statistics\<close>

record activation_info =
  av_active :: bool
  av_source :: string
  av_updated_at :: i64

definition load_activation :: "string \<Rightarrow> db \<Rightarrow> activation_info option" where
  "load_activation inst d =
     map_option (\<lambda>r. \<lparr>av_active = (ar_active r \<noteq> 0), av_source = ar_source r, av_updated_at = ar_updated_at r\<rparr>)
       (t_find ar_instance inst (db_acts d))"

definition set_activation :: "string \<Rightarrow> bool \<Rightarrow> string \<Rightarrow> i64 \<Rightarrow> db \<Rightarrow> db" where
  "set_activation inst active source now d =
     d\<lparr>db_acts := t_upsert ar_instance
         \<lparr>ar_instance = inst, ar_active = of_bool active, ar_source = source, ar_updated_at = now\<rparr>
         (\<lambda>r. r\<lparr>ar_active := of_bool active, ar_source := source, ar_updated_at := now\<rparr>) (db_acts d)\<rparr>"

definition clear_activation :: "string \<Rightarrow> db \<Rightarrow> db" where
  "clear_activation inst d = d\<lparr>db_acts := t_delete (\<lambda>r. ar_instance r = inst) (db_acts d)\<rparr>"

record stats_delta =
  sd_replicated :: i64
  sd_failed :: i64
  sd_bytes :: i64

record stats_info =
  st_replicated :: u64
  st_failed :: u64
  st_bytes :: u64

definition bump_stats :: "string \<Rightarrow> stats_delta \<Rightarrow> db \<Rightarrow> db" where
  "bump_stats inst dl d =
     d\<lparr>db_stats := t_upsert sr_instance
         \<lparr>sr_instance = inst, sr_replicated = sd_replicated dl, sr_failed = sd_failed dl,
          sr_bytes = sd_bytes dl\<rparr>
         (\<lambda>r. r\<lparr>sr_replicated := sr_replicated r + sd_replicated dl,
               sr_failed := sr_failed r + sd_failed dl, sr_bytes := sr_bytes r + sd_bytes dl\<rparr>) (db_stats d)\<rparr>"

definition read_stats :: "string \<Rightarrow> db \<Rightarrow> stats_info" where
  "read_stats inst d =
     (case t_find sr_instance inst (db_stats d) of
        None \<Rightarrow> \<lparr>st_replicated = 0, st_failed = 0, st_bytes = 0\<rparr>
      | Some r \<Rightarrow> \<lparr>st_replicated = i64_as_u64 (max 0 (sr_replicated r)),
                   st_failed = i64_as_u64 (max 0 (sr_failed r)),
                   st_bytes = i64_as_u64 (max 0 (sr_bytes r))\<rparr>)"

end
