(* ===== verification/Store_Laws.thy ===== *)
theory Store_Laws
  imports Store
begin

text \<open>
  What the state store promises the engine: the observable view of a database
  (state of an item, phase of a destination, checkpoint) under every operation,
  well-formedness and isolation between instances over arbitrary operation
  sequences, and the queue contracts of \<open>upsert_ready\<close>, \<open>claim_ready\<close> and
  \<open>recover_incomplete\<close>.
\<close>

named_theorems store_view "observations of the store after an operation"

section \<open>The observable view\<close>

definition item_at :: "string \<Rightarrow> string \<Rightarrow> db \<Rightarrow> item_row option" where
  "item_at inst rel d = t_find item_key (inst, rel) (db_items d)"

definition state_at :: "string \<Rightarrow> string \<Rightarrow> db \<Rightarrow> item_state option" where
  "state_at inst rel d = Option.bind (item_at inst rel d) (\<lambda>r. item_from_str (ir_state r))"

definition phase_at :: "string \<Rightarrow> string \<Rightarrow> string \<Rightarrow> db \<Rightarrow> dest_phase option" where
  "phase_at inst rel dest d =
     Option.bind (t_find dest_key (inst, rel, dest) (db_dests d)) (\<lambda>r. phase_from_str (dr_state r))"

lemma item_at_update_item:
  "(\<And>r. item_key (f r) = item_key r) \<Longrightarrow>
   item_at i r (update_item inst rel f d) =
     (if (i, r) = (inst, rel) then map_option f (item_at i r d) else item_at i r d)"
  by (simp add: item_at_def update_item_def items.find_update)

lemma keys_of_updates [simp]:
  "item_key (r\<lparr>ir_state := a\<rparr>) = item_key r"
  "item_key (r\<lparr>ir_attempts := b\<rparr>) = item_key r"
  "item_key (r\<lparr>ir_cleanup_attempts := b\<rparr>) = item_key r"
  "item_key (r\<lparr>ir_last_error := c\<rparr>) = item_key r"
  "item_key (r\<lparr>ir_next_attempt_at := b\<rparr>) = item_key r"
  "item_key (r\<lparr>ir_bytes_done := b\<rparr>) = item_key r"
  "item_key (r\<lparr>ir_updated_at := b\<rparr>) = item_key r"
  "item_key (r\<lparr>ir_size := b\<rparr>) = item_key r"
  "item_key (r\<lparr>ir_mtime_ms := b\<rparr>) = item_key r"
  "item_key (r\<lparr>ir_discovered_at := b\<rparr>) = item_key r"
  "dest_key (q\<lparr>dr_state := a\<rparr>) = dest_key q"
  "dest_key (q\<lparr>dr_attempts := b\<rparr>) = dest_key q"
  "dest_key (q\<lparr>dr_next_attempt_at := b\<rparr>) = dest_key q"
  "dest_key (q\<lparr>dr_last_error := c\<rparr>) = dest_key q"
  "dest_key (q\<lparr>dr_updated_at := b\<rparr>) = dest_key q"
  "resume_key (u\<lparr>rr_blob := v\<rparr>) = resume_key u"
  by (simp_all add: item_key_def dest_key_def resume_key_def)

lemma keys_of_rows [simp]:
  "item_key (upsert_conflict sz mt now r) = item_key r"
  "item_key (claim_mark now r) = item_key r"
  "item_key (fresh_row inst rel sz mt now) = (inst, rel)"
  by (simp_all add: upsert_conflict_def claim_mark_def fresh_row_def item_key_def Let_def)

lemma dest_key_row [simp]:
  "dest_key \<lparr>dr_instance = i, dr_relpath = r, dr_dest = t, dr_state = a, dr_attempts = b,
     dr_next_attempt_at = c, dr_last_error = e, dr_updated_at = u\<rparr> = (i, r, t)"
  "resume_key \<lparr>rr_instance = i, rr_relpath = r, rr_dest = t, rr_blob = bl\<rparr> = (i, r, t)"
  by (simp_all add: dest_key_def resume_key_def)

text \<open>State of an item.\<close>

lemma state_at_update_item:
  "(\<And>r. item_key (f r) = item_key r) \<Longrightarrow>
   state_at i r (update_item inst rel f d) =
     (if (i, r) = (inst, rel) then Option.bind (item_at i r d) (\<lambda>x. item_from_str (ir_state (f x)))
      else state_at i r d)"
  by (auto simp: state_at_def item_at_update_item split: bind_splits)

lemma state_at_set_state [store_view]:
  "state_at i r (set_state inst rel st now d) =
     (if (i, r) = (inst, rel) then map_option (\<lambda>_. st) (item_at i r d) else state_at i r d)"
  by (simp add: set_state_def state_at_update_item)

lemma state_at_roll_up [store_view]:
  "state_at i r (roll_up_item inst rel st a n e now d) =
     (if (i, r) = (inst, rel) then map_option (\<lambda>_. st) (item_at i r d) else state_at i r d)"
  by (simp add: roll_up_item_def state_at_update_item)

lemma state_at_record_attempt [store_view]:
  "state_at i r (record_attempt inst rel e st n now d) =
     (if (i, r) = (inst, rel) then map_option (\<lambda>_. st) (item_at i r d) else state_at i r d)"
  by (simp add: record_attempt_def state_at_update_item)

lemma state_at_record_cleanup_attempt [store_view]:
  "state_at i r (record_cleanup_attempt inst rel e st n now d) =
     (if (i, r) = (inst, rel) then map_option (\<lambda>_. st) (item_at i r d) else state_at i r d)"
  by (simp add: record_cleanup_attempt_def state_at_update_item)

lemma state_at_set_bytes_done [store_view]:
  "state_at i r (set_bytes_done inst rel b now d) = state_at i r d"
  by (simp add: set_bytes_done_def state_at_update_item) (simp add: state_at_def)

lemma item_at_dom_update [store_view]:
  "(item_at i r (set_state inst rel st now d) = None) = (item_at i r d = None)"
  "(item_at i r (roll_up_item inst rel st a n e' now d) = None) = (item_at i r d = None)"
  "(item_at i r (record_attempt inst rel e st n now d) = None) = (item_at i r d = None)"
  "(item_at i r (record_cleanup_attempt inst rel e st n now d) = None) = (item_at i r d = None)"
  "(item_at i r (set_bytes_done inst rel b now d) = None) = (item_at i r d = None)"
  by (simp_all add: set_state_def roll_up_item_def record_attempt_def record_cleanup_attempt_def
      set_bytes_done_def item_at_update_item)

lemma item_at_other_tables [store_view]:
  "item_at i r (save_resume inst rel t rs d) = item_at i r d"
  "item_at i r (clear_resume inst rel t d) = item_at i r d"
  "item_at i r (clear_resume_all inst rel d) = item_at i r d"
  "item_at i r (clear_dest_states inst rel d) = item_at i r d"
  "item_at i r (set_dest_phase inst rel t ph now d) = item_at i r d"
  "item_at i r (record_dest_attempt inst rel t e ph n now d) = item_at i r d"
  "item_at i r (bump_stats inst dl d) = item_at i r d"
  "item_at i r (set_activation inst b src now d) = item_at i r d"
  "item_at i r (clear_activation inst d) = item_at i r d"
  by (simp_all add: item_at_def save_resume_def clear_resume_def clear_resume_all_def
      clear_dest_states_def set_dest_phase_def record_dest_attempt_def bump_stats_def
      set_activation_def clear_activation_def)

lemma state_at_other_tables [store_view]:
  "state_at i r (save_resume inst rel t rs d) = state_at i r d"
  "state_at i r (clear_resume inst rel t d) = state_at i r d"
  "state_at i r (clear_resume_all inst rel d) = state_at i r d"
  "state_at i r (clear_dest_states inst rel d) = state_at i r d"
  "state_at i r (set_dest_phase inst rel t ph now d) = state_at i r d"
  "state_at i r (record_dest_attempt inst rel t e ph n now d) = state_at i r d"
  "state_at i r (bump_stats inst dl d) = state_at i r d"
  by (simp_all add: state_at_def item_at_other_tables)

text \<open>Phase of a destination.\<close>

lemma db_dests_update_item [store_view]:
  "db_dests (update_item inst rel f d) = db_dests d"
  "db_resume (update_item inst rel f d) = db_resume d"
  "db_stats (update_item inst rel f d) = db_stats d"
  "db_acts (update_item inst rel f d) = db_acts d"
  by (simp_all add: update_item_def)

lemma db_item_ops [store_view]:
  "db_dests (set_state inst rel st now d) = db_dests d"
  "db_dests (roll_up_item inst rel st a n e' now d) = db_dests d"
  "db_dests (record_attempt inst rel e st n now d) = db_dests d"
  "db_dests (record_cleanup_attempt inst rel e st n now d) = db_dests d"
  "db_dests (set_bytes_done inst rel b now d) = db_dests d"
  "db_resume (set_state inst rel st now d) = db_resume d"
  "db_resume (roll_up_item inst rel st a n e' now d) = db_resume d"
  "db_resume (record_attempt inst rel e st n now d) = db_resume d"
  "db_resume (record_cleanup_attempt inst rel e st n now d) = db_resume d"
  "db_resume (set_bytes_done inst rel b now d) = db_resume d"
  by (simp_all add: set_state_def roll_up_item_def record_attempt_def record_cleanup_attempt_def
      set_bytes_done_def store_view)

lemma phase_at_other_ops [store_view]:
  "phase_at i r t (set_state inst rel st now d) = phase_at i r t d"
  "phase_at i r t (roll_up_item inst rel st a n e' now d) = phase_at i r t d"
  "phase_at i r t (record_attempt inst rel e st n now d) = phase_at i r t d"
  "phase_at i r t (record_cleanup_attempt inst rel e st n now d) = phase_at i r t d"
  "phase_at i r t (set_bytes_done inst rel b now d) = phase_at i r t d"
  "phase_at i r t (save_resume inst rel t' rs d) = phase_at i r t d"
  "phase_at i r t (clear_resume inst rel t' d) = phase_at i r t d"
  "phase_at i r t (clear_resume_all inst rel d) = phase_at i r t d"
  "phase_at i r t (bump_stats inst dl d) = phase_at i r t d"
  by (simp_all add: phase_at_def store_view)
     (simp_all add: save_resume_def clear_resume_def clear_resume_all_def bump_stats_def)

lemma phase_at_set_dest_phase [store_view]:
  "phase_at i r t (set_dest_phase inst rel dest ph now d) =
     (if (i, r, t) = (inst, rel, dest) then Some ph else phase_at i r t d)"
  by (auto simp: phase_at_def set_dest_phase_def dests.find_upsert split: option.splits)

lemma phase_at_record_dest_attempt [store_view]:
  "phase_at i r t (record_dest_attempt inst rel dest e ph n now d) =
     (if (i, r, t) = (inst, rel, dest) then Some ph else phase_at i r t d)"
  by (auto simp: phase_at_def record_dest_attempt_def dests.find_upsert split: option.splits)

lemma phase_at_clear_dest_states [store_view]:
  "t_ok dest_key (db_dests d) \<Longrightarrow>
   phase_at i r t (clear_dest_states inst rel d) =
     (if (i, r) = (inst, rel) then None else phase_at i r t d)"
  by (auto simp: phase_at_def clear_dest_states_def t_find_delete dest_key_def
      dest!: dests.find_key split: option.splits)

text \<open>Checkpoints.\<close>

lemma load_save_resume [store_view]:
  "load_resume i r t (save_resume inst rel dest rs d) =
     (if (i, r, t) = (inst, rel, dest) then Some rs else load_resume i r t d)"
  by (auto simp: load_resume_def save_resume_def resumes.find_upsert split: option.splits)

lemma load_clear_resume [store_view]:
  "t_ok resume_key (db_resume d) \<Longrightarrow>
   load_resume i r t (clear_resume inst rel dest d) =
     (if (i, r, t) = (inst, rel, dest) then None else load_resume i r t d)"
  by (auto simp: load_resume_def clear_resume_def t_find_delete resume_key_def
      dest!: resumes.find_key split: option.splits)

lemma load_clear_resume_all [store_view]:
  "t_ok resume_key (db_resume d) \<Longrightarrow>
   load_resume i r t (clear_resume_all inst rel d) =
     (if (i, r) = (inst, rel) then None else load_resume i r t d)"
  by (auto simp: load_resume_def clear_resume_all_def t_find_delete resume_key_def
      dest!: resumes.find_key split: option.splits)

section \<open>Well-formed databases\<close>

definition db_ok :: "db \<Rightarrow> bool" where
  "db_ok d =
     (t_ok item_key (db_items d) \<and> t_ok resume_key (db_resume d) \<and> t_ok dest_key (db_dests d)
      \<and> t_ok ar_instance (db_acts d) \<and> t_ok sr_instance (db_stats d)
      \<and> (\<forall>r\<in>set (db_items d). item_from_str (ir_state r) \<noteq> None)
      \<and> (\<forall>r\<in>set (db_dests d). phase_from_str (dr_state r) \<noteq> None))"

lemma row_to_item_ok:
  "item_from_str (ir_state r) = Some st \<Longrightarrow> \<exists>it. row_to_item r = Inr it \<and> wi_state it = st
     \<and> wi_relpath it = ir_relpath r \<and> wi_instance it = ir_instance r"
  by (simp add: row_to_item_def)

definition the_item :: "item_row \<Rightarrow> work_item" where
  "the_item r = (case row_to_item r of Inr it \<Rightarrow> it | Inl _ \<Rightarrow> undefined)"

lemma row_to_item_Inr: "item_from_str (ir_state r) \<noteq> None \<Longrightarrow> row_to_item r = Inr (the_item r)"
  by (auto simp: the_item_def row_to_item_def split: option.splits)

lemma the_item_sel [simp]:
  assumes "item_from_str (ir_state r) \<noteq> None"
  shows "wi_relpath (the_item r) = ir_relpath r" "wi_instance (the_item r) = ir_instance r"
    "wi_discovered_at (the_item r) = ir_discovered_at r"
    "wi_next_attempt_at (the_item r) = ir_next_attempt_at r"
  using assms by (auto simp: the_item_def row_to_item_def)

lemma the_item_state:
  "item_from_str (ir_state r) \<noteq> None \<Longrightarrow> item_from_str (ir_state r) = Some (wi_state (the_item r))"
  by (auto simp: the_item_def row_to_item_def)

lemma collect_items:
  "(\<And>r. r \<in> set rows \<Longrightarrow> item_from_str (ir_state r) \<noteq> None) \<Longrightarrow>
   collect_res (List.map row_to_item rows) = Inr (List.map the_item rows)"
  by (rule collect_res_total) (rule row_to_item_Inr, simp)

lemma db_ok_update_item:
  assumes "db_ok d" "\<And>r. item_key (f r) = item_key r"
    "\<And>r. item_from_str (ir_state r) \<noteq> None \<Longrightarrow> item_from_str (ir_state (f r)) \<noteq> None"
  shows "db_ok (update_item inst rel f d)"
  using assms by (auto simp: db_ok_def update_item_def set_t_update items.ok_update)

lemma db_ok_claim_mark: "db_ok d \<Longrightarrow> db_ok (update_item inst rel (claim_mark now) d)"
  by (rule db_ok_update_item) (simp_all add: claim_mark_def item_from_str_def)

lemma db_ok_claim_marks:
  "db_ok d \<Longrightarrow> db_ok (foldl (\<lambda>d it. update_item inst (wi_relpath it) (claim_mark now) d) d items)"
  by (induction items arbitrary: d) (simp_all add: db_ok_claim_mark)

lemma db_ok_claim_ready: "db_ok d \<Longrightarrow> db_ok (snd (claim_ready inst limit now d))"
  by (simp add: claim_ready_def db_ok_claim_marks split: sum.split)

lemma db_ok_item_ops:
  assumes "db_ok d"
  shows "db_ok (set_state inst rel st now d)" "db_ok (record_attempt inst rel e st n now d)"
    "db_ok (record_cleanup_attempt inst rel e st n now d)" "db_ok (set_bytes_done inst rel b now d)"
    "db_ok (roll_up_item inst rel st a n e' now d)"
  unfolding set_state_def record_attempt_def record_cleanup_attempt_def set_bytes_done_def roll_up_item_def
  by (rule db_ok_update_item; use assms in simp)+

lemma db_ok_delete:
  "db_ok d \<Longrightarrow> db_ok (clear_resume inst rel t d)"
  "db_ok d \<Longrightarrow> db_ok (clear_resume_all inst rel d)"
  "db_ok d \<Longrightarrow> db_ok (clear_dest_states inst rel d)"
  "db_ok d \<Longrightarrow> db_ok (clear_activation inst d)"
  by (auto simp: db_ok_def clear_resume_def clear_resume_all_def clear_dest_states_def
      clear_activation_def t_ok_delete set_t_delete)

lemma db_ok_save_resume: "db_ok d \<Longrightarrow> db_ok (save_resume inst rel t rs d)"
  by (simp add: db_ok_def save_resume_def resumes.ok_upsert)

lemma db_ok_set_dest_phase: "db_ok d \<Longrightarrow> db_ok (set_dest_phase inst rel t ph now d)"
  by (auto simp: db_ok_def set_dest_phase_def dests.ok_upsert dest!: set_t_upsert [THEN subsetD])

lemma db_ok_record_dest_attempt: "db_ok d \<Longrightarrow> db_ok (record_dest_attempt inst rel t e ph n now d)"
  by (auto simp: db_ok_def record_dest_attempt_def dests.ok_upsert dest!: set_t_upsert [THEN subsetD])

lemma db_ok_bump_stats: "db_ok d \<Longrightarrow> db_ok (bump_stats inst dl d)"
  by (simp add: db_ok_def bump_stats_def counters.ok_upsert)

lemma db_ok_set_activation: "db_ok d \<Longrightarrow> db_ok (set_activation inst b src now d)"
  by (simp add: db_ok_def set_activation_def acts.ok_upsert)

lemma item_from_str_ready [simp]: "item_from_str ''ready'' = Some Ready"
  by (simp add: item_from_str_def)

lemma db_ok_upsert_ready:
  assumes "db_ok d"
  shows "db_ok (upsert_ready inst rel sz mt now d)"
proof -
  have "db_ok (d\<lparr>db_items := t_upsert item_key (fresh_row inst rel s mt now) (upsert_conflict s mt now)
      (db_items d)\<rparr>)" for s
    using assms
    by (auto simp: db_ok_def items.ok_upsert fresh_row_def upsert_conflict_def Let_def
        dest!: set_t_upsert [THEN subsetD])
  then show ?thesis by (simp add: upsert_ready_def Let_def db_ok_delete)
qed

section \<open>Operation sequences\<close>

datatype store_op =
    OpUpsertReady string string u64 i64 i64
  | OpClaimReady string u64 i64
  | OpSetState string string item_state i64
  | OpRecordAttempt string string string item_state i64 i64
  | OpRecordCleanupAttempt string string string item_state i64 i64
  | OpSetBytesDone string string u64 i64
  | OpRollUp string string item_state u32 i64 "string option" i64
  | OpSaveResume string string string resume_state
  | OpClearResume string string string
  | OpClearResumeAll string string
  | OpSetDestPhase string string string dest_phase i64
  | OpRecordDestAttempt string string string string dest_phase i64 i64
  | OpClearDestStates string string
  | OpSetActivation string bool string i64
  | OpClearActivation string
  | OpBumpStats string stats_delta

fun store_apply :: "store_op \<Rightarrow> db \<Rightarrow> db" where
  "store_apply (OpUpsertReady i r sz mt now) d = upsert_ready i r sz mt now d"
| "store_apply (OpClaimReady i l now) d = snd (claim_ready i l now d)"
| "store_apply (OpSetState i r st now) d = set_state i r st now d"
| "store_apply (OpRecordAttempt i r e st n now) d = record_attempt i r e st n now d"
| "store_apply (OpRecordCleanupAttempt i r e st n now) d = record_cleanup_attempt i r e st n now d"
| "store_apply (OpSetBytesDone i r b now) d = set_bytes_done i r b now d"
| "store_apply (OpRollUp i r st a n e now) d = roll_up_item i r st a n e now d"
| "store_apply (OpSaveResume i r t rs) d = save_resume i r t rs d"
| "store_apply (OpClearResume i r t) d = clear_resume i r t d"
| "store_apply (OpClearResumeAll i r) d = clear_resume_all i r d"
| "store_apply (OpSetDestPhase i r t ph now) d = set_dest_phase i r t ph now d"
| "store_apply (OpRecordDestAttempt i r t e ph n now) d = record_dest_attempt i r t e ph n now d"
| "store_apply (OpClearDestStates i r) d = clear_dest_states i r d"
| "store_apply (OpSetActivation i b src now) d = set_activation i b src now d"
| "store_apply (OpClearActivation i) d = clear_activation i d"
| "store_apply (OpBumpStats i dl) d = bump_stats i dl d"

fun op_instance :: "store_op \<Rightarrow> string" where
  "op_instance (OpUpsertReady i r sz mt now) = i"
| "op_instance (OpClaimReady i l now) = i"
| "op_instance (OpSetState i r st now) = i"
| "op_instance (OpRecordAttempt i r e st n now) = i"
| "op_instance (OpRecordCleanupAttempt i r e st n now) = i"
| "op_instance (OpSetBytesDone i r b now) = i"
| "op_instance (OpRollUp i r st a n e now) = i"
| "op_instance (OpSaveResume i r t rs) = i"
| "op_instance (OpClearResume i r t) = i"
| "op_instance (OpClearResumeAll i r) = i"
| "op_instance (OpSetDestPhase i r t ph now) = i"
| "op_instance (OpRecordDestAttempt i r t e ph n now) = i"
| "op_instance (OpClearDestStates i r) = i"
| "op_instance (OpSetActivation i b src now) = i"
| "op_instance (OpClearActivation i) = i"
| "op_instance (OpBumpStats i dl) = i"

lemma db_ok_apply: "db_ok d \<Longrightarrow> db_ok (store_apply op d)"
  by (cases op)
     (simp_all add: db_ok_upsert_ready db_ok_claim_ready db_ok_item_ops db_ok_delete db_ok_save_resume
        db_ok_set_dest_phase db_ok_record_dest_attempt db_ok_set_activation db_ok_bump_stats)

text \<open>Everything an instance owns.\<close>

definition instance_view :: "string \<Rightarrow> db \<Rightarrow> db" where
  "instance_view j d =
     \<lparr>db_items = filter (\<lambda>r. ir_instance r = j) (db_items d),
      db_resume = filter (\<lambda>r. rr_instance r = j) (db_resume d),
      db_dests = filter (\<lambda>r. dr_instance r = j) (db_dests d),
      db_acts = filter (\<lambda>r. ar_instance r = j) (db_acts d),
      db_stats = filter (\<lambda>r. sr_instance r = j) (db_stats d)\<rparr>"

lemma filter_t_update:
  "(\<And>r. key r = k \<Longrightarrow> \<not> P r \<and> \<not> P (f r)) \<Longrightarrow> filter P (t_update key k f t) = filter P t"
  by (induction t) (auto simp: t_update_def)

lemma filter_t_upsert:
  "(\<And>r. key r = key new \<Longrightarrow> \<not> P r \<and> \<not> P (f r)) \<Longrightarrow>
   filter P (t_upsert key new f t) = filter P t"
  by (auto simp: t_upsert_def filter_t_update)

lemma filter_t_delete:
  "(\<And>r. Q r \<Longrightarrow> \<not> P r) \<Longrightarrow> filter P (t_delete Q t) = filter P t"
  by (induction t) (auto simp: t_delete_def)

lemma view_update_item:
  assumes "i \<noteq> j" "\<And>r. item_key (f r) = item_key r"
  shows "instance_view j (update_item i rel f d) = instance_view j d"
proof -
  have "ir_instance (f r) = ir_instance r" for r
    using assms(2) [of r] by (simp add: item_key_def)
  then have "filter (\<lambda>r. ir_instance r = j) (t_update item_key (i, rel) f (db_items d))
      = filter (\<lambda>r. ir_instance r = j) (db_items d)"
    using assms(1) by (intro filter_t_update) (auto simp: item_key_def)
  then show ?thesis by (simp add: instance_view_def update_item_def)
qed

lemma view_claim_marks:
  "i \<noteq> j \<Longrightarrow> instance_view j (foldl (\<lambda>d it. update_item i (wi_relpath it) (claim_mark now) d) d items)
     = instance_view j d"
  by (induction items arbitrary: d) (simp_all add: view_update_item)

lemma view_deletes:
  assumes "i \<noteq> j"
  shows "instance_view j (clear_resume i rel t d) = instance_view j d"
    "instance_view j (clear_resume_all i rel d) = instance_view j d"
    "instance_view j (clear_dest_states i rel d) = instance_view j d"
    "instance_view j (clear_activation i d) = instance_view j d"
  using assms
  by (auto simp: instance_view_def clear_resume_def clear_resume_all_def clear_dest_states_def
      clear_activation_def intro!: filter_t_delete)

lemma view_upserts:
  assumes "i \<noteq> j"
  shows "instance_view j (save_resume i rel t rs d) = instance_view j d"
    "instance_view j (set_dest_phase i rel t ph now d) = instance_view j d"
    "instance_view j (record_dest_attempt i rel t e ph n now d) = instance_view j d"
    "instance_view j (set_activation i b src now d) = instance_view j d"
    "instance_view j (bump_stats i dl d) = instance_view j d"
  using assms
  by (auto simp: instance_view_def save_resume_def set_dest_phase_def record_dest_attempt_def
      set_activation_def bump_stats_def resume_key_def dest_key_def intro!: filter_t_upsert)

lemma view_upsert_ready:
  "i \<noteq> j \<Longrightarrow> instance_view j (upsert_ready i rel sz mt now d) = instance_view j d"
  by (simp add: upsert_ready_def Let_def view_deletes)
     (auto simp: instance_view_def item_key_def fresh_row_def upsert_conflict_def Let_def
        intro!: filter_t_upsert)

lemma view_apply: "op_instance op \<noteq> j \<Longrightarrow> instance_view j (store_apply op d) = instance_view j d"
  by (cases op)
     (simp_all add: view_upsert_ready view_deletes view_upserts view_update_item view_claim_marks
        claim_ready_def set_state_def record_attempt_def record_cleanup_attempt_def
        set_bytes_done_def roll_up_item_def split: sum.split)

text \<open>
  C34. The database stays well formed under every sequence of store operations
  (primary keys unique, every persisted state and phase one the code can read back),
  and instances sharing it are isolated: operations of other instances leave
  every row of an instance, in all five tables, as it was.
\<close>

theorem store_well_formed_and_isolated:
  "db_ok (fold store_apply ops open_in_memory)
   \<and> instance_view j (fold store_apply (filter (\<lambda>op. op_instance op \<noteq> j) ops) d) = instance_view j d"
proof -
  have "db_ok (fold store_apply ops d)" if "db_ok d" for d
    using that by (induction ops arbitrary: d) (simp_all add: db_ok_apply)
  moreover have "db_ok open_in_memory"
    by (simp add: db_ok_def open_in_memory_def t_ok_def)
  moreover have "instance_view j (fold store_apply (filter (\<lambda>op. op_instance op \<noteq> j) ops) d)
      = instance_view j d"
    by (induction ops arbitrary: d) (simp_all add: view_apply)
  ultimately show ?thesis by blast
qed

section \<open>Discovery\<close>

lemma reset_decisions_agree:
  "upsert_resets (Some r) sz mt = sql_terminal_changed sz mt r"
  by (auto simp: upsert_resets_def sql_terminal_changed_def item_from_str_def)

lemma upsert_ready_items:
  "item_at i r (upsert_ready inst rel sz mt now d) =
     (if (i, r) = (inst, rel)
      then (case item_at i r d of
              None \<Rightarrow> Some (fresh_row inst rel (u64_as_i64 sz) mt now)
            | Some x \<Rightarrow> Some (upsert_conflict (u64_as_i64 sz) mt now x))
      else item_at i r d)"
  by (simp add: upsert_ready_def Let_def store_view)
     (auto simp: item_at_def items.find_upsert)

lemma upsert_ready_tables:
  assumes "db_ok d"
  shows "phase_at i r t (upsert_ready inst rel sz mt now d) =
      (if (i, r) = (inst, rel) \<and> upsert_resets (item_at inst rel d) (u64_as_i64 sz) mt then None
       else phase_at i r t d)"
    "load_resume i r t (upsert_ready inst rel sz mt now d) =
      (if (i, r) = (inst, rel) \<and> upsert_resets (item_at inst rel d) (u64_as_i64 sz) mt then None
       else load_resume i r t d)"
proof -
  let ?d = "d\<lparr>db_items := t_upsert item_key (fresh_row inst rel (u64_as_i64 sz) mt now)
                   (upsert_conflict (u64_as_i64 sz) mt now) (db_items d)\<rparr>"
  have ok: "t_ok dest_key (db_dests ?d)" "t_ok resume_key (db_resume (clear_dest_states inst rel ?d))"
    using assms by (simp_all add: db_ok_def clear_dest_states_def)
  have p: "phase_at i r t ?d = phase_at i r t d" by (simp add: phase_at_def)
  have l: "load_resume i r t (clear_dest_states inst rel ?d) = load_resume i r t d"
    "load_resume i r t ?d = load_resume i r t d"
    by (simp_all add: load_resume_def clear_dest_states_def)
  show "phase_at i r t (upsert_ready inst rel sz mt now d) =
      (if (i, r) = (inst, rel) \<and> upsert_resets (item_at inst rel d) (u64_as_i64 sz) mt then None
       else phase_at i r t d)"
    using p by (auto simp: upsert_ready_def Let_def item_at_def phase_at_other_ops
        phase_at_clear_dest_states [OF ok(1)])
  show "load_resume i r t (upsert_ready inst rel sz mt now d) =
      (if (i, r) = (inst, rel) \<and> upsert_resets (item_at inst rel d) (u64_as_i64 sz) mt then None
       else load_resume i r t d)"
    using l by (auto simp: upsert_ready_def Let_def item_at_def load_clear_resume_all [OF ok(2)])
qed

text \<open>
  C33. Re-discovery of a tracked file. A file that was terminal and whose size or
  modification time changed is queued again from scratch: it becomes ready with all
  its attempt bookkeeping reset, and every destination phase and every checkpoint
  of the old file is gone, so no destination can be skipped on the strength of
  the old content. In every other case (not terminal, or unchanged) the state, the
  attempts, the destination phases and the checkpoints survive. The decision
  taken in SQL and the one taken in Rust never disagree.
\<close>

theorem rediscovery_exact:
  fixes sz :: u64 and mt now :: i64
  assumes "db_ok d" "item_at inst rel d = Some x" "item_from_str (ir_state x) = Some st"
  defines "d' \<equiv> upsert_ready inst rel sz mt now d"
    and "changed \<equiv> ir_size x \<noteq> u64_as_i64 sz \<or> ir_mtime_ms x \<noteq> mt"
  shows "state_at inst rel d' = Some (if is_terminal st \<and> changed then Ready else st)
    \<and> (\<exists>y. item_at inst rel d' = Some y \<and> ir_size y = u64_as_i64 sz \<and> ir_mtime_ms y = mt
         \<and> (if is_terminal st \<and> changed
            then ir_attempts y = 0 \<and> ir_cleanup_attempts y = 0 \<and> ir_next_attempt_at y = 0
                 \<and> ir_bytes_done y = 0 \<and> ir_last_error y = None \<and> ir_discovered_at y = now
            else ir_attempts y = ir_attempts x \<and> ir_cleanup_attempts y = ir_cleanup_attempts x
                 \<and> ir_next_attempt_at y = ir_next_attempt_at x \<and> ir_bytes_done y = ir_bytes_done x
                 \<and> ir_last_error y = ir_last_error x \<and> ir_discovered_at y = ir_discovered_at x))
    \<and> phase_at inst rel dest d' = (if is_terminal st \<and> changed then None else phase_at inst rel dest d)
    \<and> load_resume inst rel dest d' = (if is_terminal st \<and> changed then None else load_resume inst rel dest d)"
proof -
  have c: "sql_terminal_changed (u64_as_i64 sz) mt x = (is_terminal st \<and> changed)"
    using assms(3) reset_decisions_agree [of x "u64_as_i64 sz" mt]
    by (simp add: upsert_resets_def changed_def)
  have y: "item_at inst rel d' = Some (upsert_conflict (u64_as_i64 sz) mt now x)"
    by (simp add: d'_def upsert_ready_items assms(2))
  have r: "upsert_resets (item_at inst rel d) (u64_as_i64 sz) mt = (is_terminal st \<and> changed)"
    using c by (simp add: assms(2) reset_decisions_agree)
  show ?thesis
    using y c assms(3) upsert_ready_tables [OF assms(1), of inst rel dest inst rel sz mt now] r
    by (auto simp: state_at_def upsert_conflict_def Let_def d'_def)
qed

definition rotated_db :: db where
  "rotated_db =
     save_resume ''i'' ''export.csv'' ''s3'' \<lparr>rs_bytes_committed = 10, rs_token = JNull\<rparr>
       (set_dest_phase ''i'' ''export.csv'' ''s3'' DVerified 5
         (set_state ''i'' ''export.csv'' Completed 5 (upsert_ready ''i'' ''export.csv'' 10 1 1 open_in_memory)))"

lemma rotated_db_ok: "db_ok rotated_db"
proof -
  have "db_ok open_in_memory" by (simp add: db_ok_def open_in_memory_def t_ok_def)
  then show ?thesis
    by (simp add: rotated_db_def db_ok_save_resume db_ok_set_dest_phase db_ok_item_ops db_ok_upsert_ready)
qed

definition completed_row :: item_row where
  "completed_row =
     \<lparr>ir_instance = ''i'', ir_relpath = ''export.csv'', ir_state = ''completed'', ir_size = 10,
      ir_mtime_ms = 1, ir_discovered_at = 1, ir_attempts = 0, ir_cleanup_attempts = 0,
      ir_next_attempt_at = 0, ir_last_error = None, ir_bytes_done = 0, ir_updated_at = 5\<rparr>"

lemma rotated_item: "item_at ''i'' ''export.csv'' rotated_db = Some completed_row"
  by (simp add: rotated_db_def store_view)
     (simp add: set_state_def item_at_update_item upsert_ready_items,
      simp add: item_at_def t_find_def open_in_memory_def fresh_row_def completed_row_def u64_as_i64_def)

theorem rediscovery_exact_witness:
  "state_at ''i'' ''export.csv'' (upsert_ready ''i'' ''export.csv'' 12 1 9 rotated_db) = Some Ready
   \<and> phase_at ''i'' ''export.csv'' ''s3'' (upsert_ready ''i'' ''export.csv'' 12 1 9 rotated_db) = None
   \<and> state_at ''i'' ''export.csv'' (upsert_ready ''i'' ''export.csv'' 10 1 9 rotated_db) = Some Completed"
  using rediscovery_exact [OF rotated_db_ok rotated_item, of Completed 12 1 9 "''s3''"]
    rediscovery_exact [OF rotated_db_ok rotated_item, of Completed 10 1 9 "''s3''"]
  by (simp add: completed_row_def item_from_str_def u64_as_i64_def)

section \<open>Claiming\<close>

lemma item_at_claim_marks:
  "item_at i r (foldl (\<lambda>d it. update_item inst (wi_relpath it) (claim_mark now) d) d its) =
     (if i = inst \<and> r \<in> wi_relpath ` set its then map_option (claim_mark now) (item_at i r d)
      else item_at i r d)"
proof (induction its arbitrary: d)
  case (Cons a its)
  have "claim_mark now (claim_mark now x) = claim_mark now x" for x
    by (simp add: claim_mark_def)
  with Cons show ?case
    by (auto simp: item_at_update_item option.map_comp comp_def)
qed simp

lemma claim_rows_subset: "set (claim_rows inst limit now d) \<subseteq>
    {r \<in> set (db_items d). ir_instance r = inst \<and> ir_state r = ''ready'' \<and> ir_next_attempt_at r \<le> now}"
  by (auto simp: claim_rows_def sql_limit_def dest: in_set_takeD)

lemma claim_rows_sorted: "sorted (List.map ir_discovered_at (claim_rows inst limit now d))"
  by (auto simp: claim_rows_def sql_limit_def sorted_wrt_take simp flip: take_map)

lemma claim_rows_bound:
  "unat limit < 2 ^ 63 \<Longrightarrow> length (claim_rows inst limit now d) \<le> unat limit"
  by (simp add: claim_rows_def sql_limit_def u64_as_i64_small)

lemma claim_ready_result:
  assumes "db_ok d"
  shows "claim_ready inst limit now d =
     (Inr (List.map (\<lambda>r. (the_item r)\<lparr>wi_state := InProgress, wi_updated_at := now\<rparr>)
             (claim_rows inst limit now d)),
      foldl (\<lambda>d it. update_item inst (wi_relpath it) (claim_mark now) d) d
        (List.map the_item (claim_rows inst limit now d)))"
proof -
  have "collect_res (List.map row_to_item (claim_rows inst limit now d))
      = Inr (List.map the_item (claim_rows inst limit now d))"
    using claim_rows_subset [of inst limit now d]
    by (intro collect_items) auto
  then show ?thesis by (simp add: claim_ready_def comp_def)
qed

lemma item_at_mem: "t_ok item_key (db_items d) \<Longrightarrow>
    item_at i r d = Some x \<longleftrightarrow> x \<in> set (db_items d) \<and> ir_instance x = i \<and> ir_relpath x = r"
  by (auto simp: item_at_def t_find_Some item_key_def)

lemma take_sorted_oldest:
  assumes "sorted (List.map f xs)" "x \<in> set xs" "x \<notin> set (take n xs)" "y \<in> set (take n xs)"
  shows "f y \<le> f x \<and> length (take n xs) = n"
proof -
  have "x \<in> set (drop n xs)" using assms(2,3) by (metis Un_iff append_take_drop_id set_append)
  moreover have "sorted (List.map f (take n xs) @ List.map f (drop n xs))"
    using assms(1) by (metis append_take_drop_id map_append)
  ultimately have "f y \<le> f x" using assms(4) by (auto simp: sorted_append)
  moreover have "n < length xs" using \<open>x \<in> set (drop n xs)\<close> by (cases "n < length xs") auto
  ultimately show ?thesis by simp
qed

text \<open>
  Claiming takes only items of the instance that are ready and past their
  backoff gate, oldest first and at most \<open>limit\<close> of them; an eligible item is
  left out only when \<open>limit\<close> items at least as old were taken. Every claimed
  item, and no other, is durably in progress afterwards, so a second claim at
  the same time returns none of them.
\<close>

theorem claim_ready_exact:
  assumes "db_ok d" "unat limit < 2 ^ 63"
  shows "\<exists>items d'. claim_ready inst limit now d = (Inr items, d')
    \<and> length items \<le> unat limit
    \<and> sorted (List.map wi_discovered_at items)
    \<and> (\<forall>i r. item_at i r d' = (if i = inst \<and> r \<in> wi_relpath ` set items
                 then map_option (claim_mark now) (item_at i r d) else item_at i r d))
    \<and> (\<forall>it\<in>set items. wi_state it = InProgress \<and> wi_instance it = inst
         \<and> state_at inst (wi_relpath it) d = Some Ready
         \<and> state_at inst (wi_relpath it) d' = Some InProgress
         \<and> wi_next_attempt_at it \<le> now)
    \<and> (\<forall>r x. item_at inst r d = Some x \<longrightarrow> ir_state x = ''ready'' \<longrightarrow> ir_next_attempt_at x \<le> now
         \<longrightarrow> r \<notin> wi_relpath ` set items
         \<longrightarrow> length items = unat limit \<and> (\<forall>it\<in>set items. wi_discovered_at it \<le> ir_discovered_at x))"
proof -
  let ?rows = "claim_rows inst limit now d"
  let ?items = "List.map (\<lambda>r. (the_item r)\<lparr>wi_state := InProgress, wi_updated_at := now\<rparr>) ?rows"
  let ?d = "foldl (\<lambda>d it. update_item inst (wi_relpath it) (claim_mark now) d) d (List.map the_item ?rows)"
  let ?all = "sort_key ir_discovered_at (filter (\<lambda>r. ir_instance r = inst \<and> ir_state r = ''ready''
      \<and> ir_next_attempt_at r \<le> now) (db_items d))"
  have ok: "t_ok item_key (db_items d)" using assms(1) by (simp add: db_ok_def)
  have row: "r \<in> set (db_items d) \<and> ir_instance r = inst \<and> ir_state r = ''ready''
      \<and> ir_next_attempt_at r \<le> now \<and> item_at inst (ir_relpath r) d = Some r"
    if "r \<in> set ?rows" for r
    using that claim_rows_subset [of inst limit now d] item_at_mem [OF ok] by auto
  have sel: "wi_relpath (the_item r) = ir_relpath r" "wi_discovered_at (the_item r) = ir_discovered_at r"
    "wi_instance (the_item r) = inst" "wi_next_attempt_at (the_item r) \<le> now"
    if "r \<in> set ?rows" for r using row [OF that] by simp_all
  have rel: "wi_relpath ` set ?items = ir_relpath ` set ?rows"
    "wi_relpath ` set (List.map the_item ?rows) = ir_relpath ` set ?rows"
    using sel(1) by (auto simp: image_iff)
  have disc: "List.map wi_discovered_at ?items = List.map ir_discovered_at ?rows"
    using sel(2) by simp
  have new: "item_at i r ?d = (if i = inst \<and> r \<in> wi_relpath ` set ?items
      then map_option (claim_mark now) (item_at i r d) else item_at i r d)" for i r
    unfolding item_at_claim_marks rel ..
  have each: "wi_state it = InProgress \<and> wi_instance it = inst
         \<and> state_at inst (wi_relpath it) d = Some Ready
         \<and> state_at inst (wi_relpath it) ?d = Some InProgress \<and> wi_next_attempt_at it \<le> now"
    if "it \<in> set ?items" for it
  proof -
    obtain r where r: "r \<in> set ?rows" "it = (the_item r)\<lparr>wi_state := InProgress, wi_updated_at := now\<rparr>"
      using \<open>it \<in> set ?items\<close> by auto
    have "wi_relpath it \<in> wi_relpath ` set ?items" using that by blast
    then show ?thesis
      using r row [OF r(1)] sel [OF r(1)] new [of inst "wi_relpath it"]
      by (simp add: state_at_def claim_mark_def item_from_str_def)
  qed
  have left: "length ?items = unat limit \<and> (\<forall>it\<in>set ?items. wi_discovered_at it \<le> ir_discovered_at x)"
    if x: "item_at inst r d = Some x" "ir_state x = ''ready''" "ir_next_attempt_at x \<le> now"
      "r \<notin> wi_relpath ` set ?items" for r x
  proof -
    have lim: "?rows = take (unat limit) ?all"
      using assms(2) by (simp add: claim_rows_def sql_limit_def u64_as_i64_small)
    have "x \<in> set ?all" using x item_at_mem [OF ok] by auto
    moreover have "x \<notin> set ?rows" using x rel item_at_mem [OF ok] by auto
    moreover have "sorted (List.map ir_discovered_at ?all)" by simp
    moreover have "length ?rows = unat limit"
      using \<open>x \<in> set ?all\<close> \<open>x \<notin> set ?rows\<close> unfolding lim
      by (metis (no_types, lifting) length_take min_def nle_le take_all)
    ultimately show ?thesis
      using take_sorted_oldest [of ir_discovered_at ?all x "unat limit"] sel(2) unfolding lim
      by auto
  qed
  show ?thesis
    using claim_ready_result [OF assms(1), of inst limit now] claim_rows_bound [OF assms(2)]
      claim_rows_sorted [of inst limit now d] disc new each left
    by (intro exI [of _ ?items] exI [of _ ?d]) (simp only: length_map, blast)
qed

definition two_files_db :: db where
  "two_files_db = upsert_ready ''i'' ''b'' 7 1 20 (upsert_ready ''i'' ''a'' 5 1 10 open_in_memory)"

lemma two_files_db_ok: "db_ok two_files_db"
proof -
  have "db_ok open_in_memory" by (simp add: db_ok_def open_in_memory_def t_ok_def)
  then show ?thesis by (simp add: two_files_db_def db_ok_upsert_ready)
qed

theorem claim_ready_exact_witness:
  "\<exists>items d'. claim_ready ''i'' 1 30 two_files_db = (Inr items, d') \<and> length items \<le> 1
     \<and> list_all (\<lambda>it. state_at ''i'' (wi_relpath it) d' = Some InProgress) items"
  using claim_ready_exact [OF two_files_db_ok, of 1 "''i''" 30]
  by (auto simp: list_all_iff)

section \<open>Recovery\<close>

text \<open>
  Crash recovery sees exactly the work a prior run left unfinished: the items
  in progress, verified or awaiting their source action, each once, oldest
  first, with their persisted state.
\<close>

theorem recover_incomplete_exact:
  assumes "db_ok d"
  shows "\<exists>items. recover_incomplete inst d = Inr items
    \<and> sorted (List.map wi_discovered_at items)
    \<and> distinct (List.map wi_relpath items)
    \<and> (\<lambda>it. (wi_instance it, wi_relpath it, wi_state it)) ` set items
       = {(inst, r, st) | r st. state_at inst r d = Some st
             \<and> st \<in> {InProgress, Verified, CleanupPending}}"
proof -
  let ?P = "\<lambda>r. ir_instance r = inst \<and> ir_state r \<in> {''in_progress'', ''verified'', ''cleanup_pending''}"
  let ?rows = "sort_key ir_discovered_at (filter ?P (db_items d))"
  have ok: "t_ok item_key (db_items d)"
    and st: "\<And>r. r \<in> set (db_items d) \<Longrightarrow> item_from_str (ir_state r) \<noteq> None"
    using assms by (auto simp: db_ok_def)
  have rows: "r \<in> set (db_items d) \<and> ?P r" if "r \<in> set ?rows" for r using that by auto
  have sel: "wi_relpath (the_item r) = ir_relpath r" "wi_discovered_at (the_item r) = ir_discovered_at r"
    "wi_instance (the_item r) = inst" "item_from_str (ir_state r) = Some (wi_state (the_item r))"
    if "r \<in> set ?rows" for r using rows [OF that] st by (simp_all add: the_item_state)
  have res: "recover_incomplete inst d = Inr (List.map the_item ?rows)"
    unfolding recover_incomplete_def by (rule collect_items) (use st in auto)
  have m1: "List.map wi_discovered_at (List.map the_item ?rows) = List.map ir_discovered_at ?rows"
    "List.map wi_relpath (List.map the_item ?rows) = List.map ir_relpath ?rows"
    using sel by simp_all
  have "distinct (db_items d)" using ok unfolding t_ok_def distinct_map by blast
  then have d1: "distinct ?rows" by simp
  have inj: "inj_on item_key (set (db_items d))" using ok unfolding t_ok_def distinct_map by blast
  have "x = y" if x: "x \<in> set ?rows" and y: "y \<in> set ?rows" and xy: "ir_relpath x = ir_relpath y" for x y
  proof -
    have "item_key x = item_key y" using rows [OF x] rows [OF y] xy by (simp add: item_key_def)
    then show ?thesis using inj_onD [OF inj] rows [OF x] rows [OF y] by blast
  qed
  then have "inj_on ir_relpath (set ?rows)" by (rule inj_onI)
  with d1 have dist: "distinct (List.map ir_relpath ?rows)" unfolding distinct_map by blast
  have eq: "(\<lambda>it. (wi_instance it, wi_relpath it, wi_state it)) ` set (List.map the_item ?rows)
       = {(inst, r, st) | r st. state_at inst r d = Some st \<and> st \<in> {InProgress, Verified, CleanupPending}}"
    (is "?L = ?R")
  proof
    show "?L \<subseteq> ?R"
    proof
      fix x assume "x \<in> ?L"
      then obtain r where r: "r \<in> set ?rows"
        "x = (wi_instance (the_item r), wi_relpath (the_item r), wi_state (the_item r))" by auto
      have at: "item_at inst (ir_relpath r) d = Some r" using item_at_mem [OF ok] rows [OF r(1)] by blast
      have s: "item_from_str (ir_state r) = Some (wi_state (the_item r))" using sel(4) [OF r(1)] .
      have "item_as_str (wi_state (the_item r)) \<in> {''in_progress'', ''verified'', ''cleanup_pending''}"
        using rows [OF r(1)] item_as_from_str [OF s] by simp
      then have "wi_state (the_item r) \<in> {InProgress, Verified, CleanupPending}"
        by (cases "wi_state (the_item r)") simp_all
      moreover have "state_at inst (ir_relpath r) d = Some (wi_state (the_item r))"
        unfolding state_at_def at by (simp add: s)
      moreover have "x = (inst, ir_relpath r, wi_state (the_item r))"
        unfolding r(2) sel(1) [OF r(1)] sel(3) [OF r(1)] ..
      ultimately show "x \<in> ?R" unfolding mem_Collect_eq by (intro exI conjI)
    qed
    show "?R \<subseteq> ?L"
    proof
      fix x assume "x \<in> ?R"
      then obtain r s where x: "x = (inst, r, s)" "state_at inst r d = Some s"
        "s \<in> {InProgress, Verified, CleanupPending}" by auto
      then obtain y where y: "item_at inst r d = Some y" "item_from_str (ir_state y) = Some s"
        by (auto simp: state_at_def split: bind_splits)
      then have "y \<in> set (db_items d)" "ir_instance y = inst" "ir_relpath y = r"
        using item_at_mem [OF ok] by auto
      moreover have "ir_state y \<in> {''in_progress'', ''verified'', ''cleanup_pending''}"
        using x(3) item_as_from_str [OF y(2)] by auto
      ultimately have "y \<in> set ?rows" by simp
      moreover have "x = (wi_instance (the_item y), wi_relpath (the_item y), wi_state (the_item y))"
        using sel(1,3) [OF \<open>y \<in> set ?rows\<close>] sel(4) [OF \<open>y \<in> set ?rows\<close>, unfolded y(2)] x(1)
          \<open>ir_relpath y = r\<close> by simp
      ultimately show "x \<in> ?L" unfolding set_map by (intro image_eqI [of _ _ "the_item y"]) auto
    qed
  qed
  show ?thesis
    using res eq unfolding m1 [symmetric] 
    by (intro exI [of _ "List.map the_item ?rows"] conjI) (simp_all only: m1 dist sorted_sort_key simp_thms)
qed

theorem recover_incomplete_exact_witness:
  "\<exists>items. recover_incomplete ''i'' (set_state ''i'' ''a'' Verified 40 two_files_db) = Inr items
    \<and> distinct (List.map wi_relpath items)"
  using recover_incomplete_exact [OF db_ok_item_ops(1) [OF two_files_db_ok],
      of "''i''" "''i''" "''a''" Verified 40]
  by auto

end
