(* ===== verification/Paths.thy ===== *)
theory Paths
  imports Prelude
begin

text \<open>
  Path handling shared by the worker and the local destination
  (\<open>join_rel\<close>, \<open>suffixed\<close>, \<open>move_temp_path\<close> in \<open>src/instance/worker.rs\<close>,
  \<open>final_path\<close> and \<open>temp_path_for\<close> in \<open>src/dest/local.rs\<close>). A path is the list of its
  components below the root directory, as on a Unix host: a pushed component that holds
  no separator never replaces the path.
\<close>

type_synonym path = "string list"

definition rel_segments :: "string \<Rightarrow> string list" where
  "rel_segments rel =
     filter (\<lambda>seg. \<not> (seg = [] \<or> seg = ''.'' \<or> seg = ''..'')) (str_split (CHR ''/'') rel)"

definition join_rel :: "path \<Rightarrow> string \<Rightarrow> path" where
  "join_rel root rel = root @ rel_segments rel"

definition path_parent :: "path \<Rightarrow> path option" where
  "path_parent p = (if p = [] then None else Some (butlast p))"

definition path_file_name :: "path \<Rightarrow> string option" where
  "path_file_name p = (if p = [] \<or> last p = ''..'' then None else Some (last p))"

definition path_display :: "path \<Rightarrow> string" where
  "path_display p = CHR ''/'' # str_join ''/'' p"

text \<open>\<open>Path::file_stem\<close> and \<open>Path::extension\<close>: split at the last dot, unless it leads.\<close>

fun rsplit_dot :: "string \<Rightarrow> (string \<times> string) option" where
  "rsplit_dot [] = None"
| "rsplit_dot (c # cs) =
     (case rsplit_dot cs of
        Some (a, b) \<Rightarrow> Some (c # a, b)
      | None \<Rightarrow> if c = CHR ''.'' then Some ([], cs) else None)"

definition stem_ext :: "string \<Rightarrow> string \<times> string option" where
  "stem_ext name =
     (case rsplit_dot name of
        None \<Rightarrow> (name, None)
      | Some (a, b) \<Rightarrow> if a = [] then (name, None) else (a, Some b))"

definition suffixed_name :: "string option \<Rightarrow> nat \<Rightarrow> string" where
  "suffixed_name name n =
     (case name of
        None \<Rightarrow> ''file.'' @ show_nat n
      | Some s \<Rightarrow> (case stem_ext s of
            (st, Some e) \<Rightarrow> st @ ''.'' @ show_nat n @ ''.'' @ e
          | (st, None) \<Rightarrow> st @ ''.'' @ show_nat n))"

definition suffixed :: "path \<Rightarrow> nat \<Rightarrow> path" where
  "suffixed p n =
     (case path_file_name p of
        None \<Rightarrow> p @ [suffixed_name None n]
      | Some s \<Rightarrow> butlast p @ [suffixed_name (Some s) n])"

definition hex_char :: "nat \<Rightarrow> char" where
  "hex_char n = (if n < 10 then char_of (48 + n) else char_of (87 + n))"

fun hex_pad :: "nat \<Rightarrow> nat \<Rightarrow> string" where
  "hex_pad 0 n = []"
| "hex_pad (Suc w) n = hex_pad w (n div 16) @ [hex_char (n mod 16)]"

definition move_temp_path :: "path \<Rightarrow> nat \<Rightarrow> path" where
  "move_temp_path target tag =
     (case path_parent target of None \<Rightarrow> [] | Some d \<Rightarrow> d)
     @ [''.'' @ (case path_file_name target of None \<Rightarrow> ''file'' | Some n \<Rightarrow> n) @ ''.'' @ hex_pad 32 tag @ ''.movetmp'']"

definition temp_path_for :: "path \<Rightarrow> u64 \<Rightarrow> path" where
  "temp_path_for final tag =
     (case path_parent final of None \<Rightarrow> [] | Some d \<Rightarrow> d)
     @ [''.'' @ (case path_file_name final of None \<Rightarrow> ''file'' | Some n \<Rightarrow> n) @ ''.'' @ hex_pad 16 (unat tag) @ ''.part'']"

section \<open>Confinement\<close>

lemma rel_segments_safe:
  "seg \<in> set (rel_segments rel) \<Longrightarrow>
   seg \<noteq> [] \<and> seg \<noteq> ''.'' \<and> seg \<noteq> ''..'' \<and> CHR ''/'' \<notin> set seg"
  using str_split_no_sep by (fastforce simp: rel_segments_def)

definition normal_rel :: "string \<Rightarrow> bool" where
  "normal_rel rel = (\<forall>seg\<in>set (str_split (CHR ''/'') rel). seg \<noteq> [] \<and> seg \<noteq> ''.'' \<and> seg \<noteq> ''..'')"

lemma rel_segments_normal: "normal_rel rel \<Longrightarrow> rel_segments rel = str_split (CHR ''/'') rel"
  by (simp add: rel_segments_def normal_rel_def)

lemma str_split_inj: "str_split c a = str_split c b \<Longrightarrow> a = b"
  by (metis str_split_join)

text \<open>
  The target of a tracked file never leaves its root: whatever the relative path
  holds, the joined path is the root followed by ordinary names, none of them empty, \<open>.\<close>,
  \<open>..\<close> or containing a separator; and two different normalized relative paths never
  share a target.
\<close>

theorem join_rel_confined:
  "\<exists>segs. join_rel root rel = root @ segs
     \<and> (\<forall>seg\<in>set segs. seg \<noteq> [] \<and> seg \<noteq> ''.'' \<and> seg \<noteq> ''..'' \<and> CHR ''/'' \<notin> set seg)
     \<and> (normal_rel rel \<longrightarrow> normal_rel rel' \<longrightarrow> join_rel root rel = join_rel root rel' \<longrightarrow> rel = rel')"
proof -
  have "rel = rel'" if "normal_rel rel" "normal_rel rel'" "join_rel root rel = join_rel root rel'"
    using that by (auto simp: join_rel_def rel_segments_normal dest: str_split_inj)
  then show ?thesis
    using rel_segments_safe by (intro exI [of _ "rel_segments rel"]) (auto simp: join_rel_def)
qed

theorem join_rel_confined_witness:
  "join_rel [''srv'', ''out''] ''../../etc/./passwd'' = [''srv'', ''out'', ''etc'', ''passwd'']
   \<and> (\<exists>segs. join_rel [''srv'', ''out''] ''../../etc/./passwd'' = [''srv'', ''out''] @ segs
        \<and> list_all (\<lambda>s. s \<noteq> ''..'') segs)"
  using join_rel_confined [of "[''srv'', ''out'']" "''../../etc/./passwd''" "''a''"]
  by (auto simp: join_rel_def rel_segments_def list_all_iff)

section \<open>Suffixed names\<close>

lemma rsplit_dot_join: "rsplit_dot s = Some (a, b) \<Longrightarrow> s = a @ ''.'' @ b"
  by (induction s arbitrary: a) (auto split: option.splits if_splits)

lemma stem_ext_join:
  "stem_ext s = (st, e) \<Longrightarrow> s = st @ (case e of None \<Rightarrow> [] | Some x \<Rightarrow> ''.'' @ x)"
  by (auto simp: stem_ext_def dest!: rsplit_dot_join split: option.splits prod.splits if_splits)

lemma suffixed_name_longer: "length s < length (suffixed_name (Some s) n)"
proof -
  obtain st e where "stem_ext s = (st, e)" by force
  then show ?thesis
    using stem_ext_join [of s st e] by (cases e) (auto simp: suffixed_name_def)
qed

lemma suffixed_name_inj: "suffixed_name s m = suffixed_name s n \<Longrightarrow> m = n"
  by (cases s) (auto simp: suffixed_name_def split: prod.splits option.splits)

lemma suffixed_inj: "suffixed p m = suffixed p n \<Longrightarrow> m = n"
  by (auto simp: suffixed_def split: option.splits dest: suffixed_name_inj)

lemma suffixed_other: "suffixed p n \<noteq> p"
proof (cases "path_file_name p")
  case None
  then show ?thesis by (simp add: suffixed_def)
next
  case (Some s)
  then have "p \<noteq> []" "last p = s" by (auto simp: path_file_name_def split: if_splits)
  then have "last (suffixed p n) \<noteq> last p"
    using suffixed_name_longer [of s n] Some by (auto simp: suffixed_def)
  then show ?thesis by auto
qed

lemma suffixed_parent: "path_file_name p = Some s \<Longrightarrow> path_parent (suffixed p n) = path_parent p"
  by (auto simp: suffixed_def path_parent_def path_file_name_def split: if_splits)

end
