(* ===== verification/Events.thy ===== *)
theory Events
  imports Domain
begin

text \<open>
  The outbound event catalog (\<open>src/events.rs\<close>): the \<open>Event\<close> variants, their field
  maps and the publish plan, and the progress throttle. The RFC 3339 rendering
  of a timestamp (crate \<open>time\<close>) is the argument \<open>rfc\<close>; a progress percentage is an
  integer, as the only call site produces it.
\<close>

datatype event =
    FileDiscovered string u64
  | FileReady string u64
  | ReplicationStarted string u64 string u32
  | ReplicationProgress string u64 u64 int string u32
  | ReplicationCompleted string u64 string u64
  | ReplicationFailed string string u32 string "i64 option"
  | RetriesExhausted string string u32 string
  | FileArchived string "string option"
  | FileDeleted string
  | FileCleanupFailed string string u32 string
  | FileQuarantined string u32 string "string option"
  | ScanComplete u64 u64
  | InstanceActivated string
  | InstanceDeactivated string
  | ComponentReady u64 string
  | ScheduleTriggered string
  | WindowOpened string
  | WindowClosed string
  | ScheduleComplete string
  | Disconnected string
  | Reconnected string
  | PermissionDeniedEvent string string string

fun event_name :: "event \<Rightarrow> string" where
  "event_name (FileDiscovered _ _) = ''FileDiscovered''"
| "event_name (FileReady _ _) = ''FileReady''"
| "event_name (ReplicationStarted _ _ _ _) = ''ReplicationStarted''"
| "event_name (ReplicationProgress _ _ _ _ _ _) = ''ReplicationProgress''"
| "event_name (ReplicationCompleted _ _ _ _) = ''ReplicationCompleted''"
| "event_name (ReplicationFailed _ _ _ _ _) = ''ReplicationFailed''"
| "event_name (RetriesExhausted _ _ _ _) = ''RetriesExhausted''"
| "event_name (FileArchived _ _) = ''FileArchived''"
| "event_name (FileDeleted _) = ''FileDeleted''"
| "event_name (FileCleanupFailed _ _ _ _) = ''FileCleanupFailed''"
| "event_name (FileQuarantined _ _ _ _) = ''FileQuarantined''"
| "event_name (ScanComplete _ _) = ''ScanComplete''"
| "event_name (InstanceActivated _) = ''InstanceActivated''"
| "event_name (InstanceDeactivated _) = ''InstanceDeactivated''"
| "event_name (ComponentReady _ _) = ''ComponentReady''"
| "event_name (ScheduleTriggered _) = ''ScheduleTriggered''"
| "event_name (WindowOpened _) = ''WindowOpened''"
| "event_name (WindowClosed _) = ''WindowClosed''"
| "event_name (ScheduleComplete _) = ''ScheduleComplete''"
| "event_name (Disconnected _) = ''Disconnected''"
| "event_name (Reconnected _) = ''Reconnected''"
| "event_name (PermissionDeniedEvent _ _ _) = ''PermissionDenied''"

type_synonym fields = "(string \<times> json) list"

definition jnum32 :: "u32 \<Rightarrow> json" where
  "jnum32 w = JNum (uint w)"

definition opt_field :: "string \<Rightarrow> string option \<Rightarrow> fields" where
  "opt_field k v = (case v of None \<Rightarrow> [] | Some s \<Rightarrow> [(k, JStr s)])"

fun event_fields :: "(i64 \<Rightarrow> string) \<Rightarrow> event \<Rightarrow> fields" where
  "event_fields rfc (FileDiscovered p s) = [(''path'', JStr p), (''size'', ju64 s)]"
| "event_fields rfc (FileReady p s) = [(''path'', JStr p), (''size'', ju64 s)]"
| "event_fields rfc (ReplicationStarted p s d a) =
     [(''path'', JStr p), (''size'', ju64 s), (''destination'', JStr d), (''attempt'', jnum32 a)]"
| "event_fields rfc (ReplicationProgress p s b pc d a) =
     [(''path'', JStr p), (''size'', ju64 s), (''bytesDone'', ju64 b), (''percent'', JNum pc),
      (''destination'', JStr d), (''attempt'', jnum32 a)]"
| "event_fields rfc (ReplicationCompleted p s d b) =
     [(''path'', JStr p), (''size'', ju64 s), (''destination'', JStr d), (''bytes'', ju64 b)]"
| "event_fields rfc (ReplicationFailed p d a e n) =
     [(''path'', JStr p), (''destination'', JStr d), (''attempt'', jnum32 a), (''error'', JStr e),
      (''willRetry'', JBool True)] @ opt_field ''nextAttemptAt'' (map_option rfc n)"
| "event_fields rfc (RetriesExhausted p d a e) =
     [(''path'', JStr p), (''destination'', JStr d), (''attempts'', jnum32 a), (''lastError'', JStr e)]"
| "event_fields rfc (FileArchived p ap) = (''path'', JStr p) # opt_field ''archivePath'' ap"
| "event_fields rfc (FileDeleted p) = [(''path'', JStr p)]"
| "event_fields rfc (FileCleanupFailed p ac a e) =
     [(''path'', JStr p), (''action'', JStr ac), (''attempts'', jnum32 a), (''lastError'', JStr e)]"
| "event_fields rfc (FileQuarantined p a e qp) =
     [(''path'', JStr p), (''attempts'', jnum32 a), (''lastError'', JStr e)] @ opt_field ''quarantinePath'' qp"
| "event_fields rfc (ScanComplete d a) = [(''discovered'', ju64 d), (''awaiting'', ju64 a)]"
| "event_fields rfc (InstanceActivated s) = [(''source'', JStr s)]"
| "event_fields rfc (InstanceDeactivated s) = [(''source'', JStr s)]"
| "event_fields rfc (ComponentReady n v) = [(''instances'', ju64 n), (''version'', JStr v)]"
| "event_fields rfc (ScheduleTriggered s) = [(''scope'', JStr s)]"
| "event_fields rfc (WindowOpened w) = [(''window'', JStr w)]"
| "event_fields rfc (WindowClosed w) = [(''window'', JStr w)]"
| "event_fields rfc (ScheduleComplete m) = [(''mode'', JStr m)]"
| "event_fields rfc (Disconnected l) = [(''link'', JStr l)]"
| "event_fields rfc (Reconnected l) = [(''link'', JStr l)]"
| "event_fields rfc (PermissionDeniedEvent p r e) =
     [(''path'', JStr p), (''role'', JStr r), (''error'', JStr e)]"

datatype severity = SevDebug | SevInfo | SevWarning | SevCritical

record emit_plan =
  ep_severity :: severity
  ep_event_type :: string
  ep_message :: "string option"
  ep_context :: fields
  ep_alarm :: "bool option"

fun event_message :: "event \<Rightarrow> string option" where
  "event_message (ReplicationFailed _ _ _ e _) = Some e"
| "event_message (RetriesExhausted _ _ _ e) = Some e"
| "event_message (FileQuarantined _ _ e _) = Some e"
| "event_message (FileCleanupFailed _ _ _ e) = Some e"
| "event_message (PermissionDeniedEvent _ _ e) = Some e"
| "event_message _ = None"

fun event_severity :: "event \<Rightarrow> severity" where
  "event_severity (ReplicationFailed _ _ _ _ _) = SevWarning"
| "event_severity (RetriesExhausted _ _ _ _) = SevCritical"
| "event_severity (FileQuarantined _ _ _ _) = SevCritical"
| "event_severity (FileCleanupFailed _ _ _ _) = SevCritical"
| "event_severity (Disconnected _) = SevCritical"
| "event_severity (Reconnected _) = SevCritical"
| "event_severity (PermissionDeniedEvent _ _ _) = SevCritical"
| "event_severity (FileDiscovered _ _) = SevDebug"
| "event_severity _ = SevInfo"

fun event_type :: "event \<Rightarrow> string" where
  "event_type (FileDiscovered _ _) = ''file-discovered''"
| "event_type (FileReady _ _) = ''file-ready''"
| "event_type (ReplicationStarted _ _ _ _) = ''replication-started''"
| "event_type (ReplicationProgress _ _ _ _ _ _) = ''replication-progress''"
| "event_type (ReplicationCompleted _ _ _ _) = ''replication-completed''"
| "event_type (ReplicationFailed _ _ _ _ _) = ''replication-failed''"
| "event_type (RetriesExhausted _ _ _ _) = ''retries-exhausted''"
| "event_type (FileArchived _ _) = ''file-archived''"
| "event_type (FileDeleted _) = ''file-deleted''"
| "event_type (FileCleanupFailed _ _ _ _) = ''file-cleanup-failed''"
| "event_type (FileQuarantined _ _ _ _) = ''file-quarantined''"
| "event_type (ScanComplete _ _) = ''scan-complete''"
| "event_type (InstanceActivated _) = ''instance-activated''"
| "event_type (InstanceDeactivated _) = ''instance-deactivated''"
| "event_type (ComponentReady _ _) = ''component-ready''"
| "event_type (ScheduleTriggered _) = ''schedule-triggered''"
| "event_type (WindowOpened _) = ''window-opened''"
| "event_type (WindowClosed _) = ''window-closed''"
| "event_type (ScheduleComplete _) = ''schedule-complete''"
| "event_type (Disconnected _) = ''disconnected''"
| "event_type (Reconnected _) = ''disconnected''"
| "event_type (PermissionDeniedEvent _ _ _) = ''permission-denied''"

fun event_alarm :: "event \<Rightarrow> bool option" where
  "event_alarm (Disconnected _) = Some True"
| "event_alarm (Reconnected _) = Some False"
| "event_alarm _ = None"

definition event_plan :: "(i64 \<Rightarrow> string) \<Rightarrow> event \<Rightarrow> emit_plan" where
  "event_plan rfc ev =
     \<lparr>ep_severity = event_severity ev, ep_event_type = event_type ev, ep_message = event_message ev,
      ep_context = filter (\<lambda>kv. fst kv \<notin> {''error'', ''lastError''}) (event_fields rfc ev),
      ep_alarm = event_alarm ev\<rparr>"

lemma plan_message:
  "ep_message (event_plan rfc ev)
       = (case map_of (event_fields rfc ev) ''error'' of
            Some v \<Rightarrow> jas_str v
          | None \<Rightarrow> Option.bind (map_of (event_fields rfc ev) ''lastError'') jas_str)"
  by (cases ev) (simp_all add: event_plan_def opt_field_def split: option.splits)

lemma plan_alarm:
  "(ep_alarm (event_plan rfc ev) \<noteq> None) = (ep_event_type (event_plan rfc ev) = ''disconnected'')"
  by (cases ev) (simp_all add: event_plan_def)

lemma plan_warning:
  "(ep_severity (event_plan rfc ev) = SevWarning)
       = (jget ''willRetry'' (JObj (event_fields rfc ev)) = Some (JBool True))"
  by (cases ev) (simp_all add: event_plan_def opt_field_def split: option.splits)

text \<open>
  The publish plan of every event: the error text travels exactly once, as the
  message when there is one and never in the context; no other field is lost;
  only a link going down or coming back is an alarm and both ride one channel;
  and a failure that will be retried is a warning while a terminal one is critical.
\<close>

theorem event_plan_exact:
  "(\<forall>k v. ((k, v) \<in> set (ep_context (event_plan rfc ev)))
       = ((k, v) \<in> set (event_fields rfc ev) \<and> k \<noteq> ''error'' \<and> k \<noteq> ''lastError''))
   \<and> ep_message (event_plan rfc ev)
       = (case map_of (event_fields rfc ev) ''error'' of
            Some v \<Rightarrow> jas_str v
          | None \<Rightarrow> Option.bind (map_of (event_fields rfc ev) ''lastError'') jas_str)
   \<and> (ep_alarm (event_plan rfc ev) \<noteq> None) = (ep_event_type (event_plan rfc ev) = ''disconnected'')
   \<and> (ep_severity (event_plan rfc ev) = SevWarning)
       = (jget ''willRetry'' (JObj (event_fields rfc ev)) = Some (JBool True))"
  using plan_message [of rfc ev] plan_alarm [of rfc ev] plan_warning [of rfc ev]
  by (simp add: event_plan_def)

section \<open>Progress throttle\<close>

record throttle =
  last_percent :: int
  last_emit_ms :: i64
  percent_step :: int
  interval_ms :: i64

definition throttle_new :: "int \<Rightarrow> i64 \<Rightarrow> throttle" where
  "throttle_new step interval = \<lparr>last_percent = - 1, last_emit_ms = 0,
     percent_step = max step 1, interval_ms = max interval 0\<rparr>"

definition throttle_with_defaults :: throttle where
  "throttle_with_defaults = throttle_new 10 5000"

definition should_emit :: "int \<Rightarrow> i64 \<Rightarrow> throttle \<Rightarrow> bool \<times> throttle" where
  "should_emit percent now t =
     (let first_at_zero = last_percent t < 0 \<and> percent \<le> 0;
          emit = first_at_zero \<or> 100 \<le> percent \<or> percent_step t \<le> percent - last_percent t
                 \<or> interval_ms t \<le> now - last_emit_ms t
      in (emit, if emit then t\<lparr>last_percent := percent, last_emit_ms := now\<rparr> else t))"

fun throttle_run :: "(int \<times> i64) list \<Rightarrow> throttle \<Rightarrow> (int \<times> i64) list" where
  "throttle_run [] t = []"
| "throttle_run ((p, now) # obs) t =
     (case should_emit p now t of (b, t') \<Rightarrow> if b then (p, now) # throttle_run obs t' else throttle_run obs t')"

fun apart :: "int \<Rightarrow> i64 \<Rightarrow> (int \<times> i64) \<Rightarrow> (int \<times> i64) list \<Rightarrow> bool" where
  "apart step interval prev [] = True"
| "apart step interval prev ((p, now) # out) =
     ((100 \<le> p \<or> step \<le> p - fst prev \<or> interval \<le> now - snd prev) \<and> apart step interval (p, now) out)"

lemma should_emit_pair:
  "should_emit p now t =
     (fst (should_emit p now t), if fst (should_emit p now t) then t\<lparr>last_percent := p, last_emit_ms := now\<rparr> else t)"
  by (simp add: should_emit_def Let_def)

lemma throttle_run_apart:
  "0 \<le> last_percent t \<Longrightarrow> list_all (\<lambda>(p, _). 0 \<le> p) obs \<Longrightarrow>
   apart (percent_step t) (interval_ms t) (last_percent t, last_emit_ms t) (throttle_run obs t)"
proof (induction obs arbitrary: t)
  case (Cons ob obs)
  obtain p now where o: "ob = (p, now)" by force
  let ?t = "t\<lparr>last_percent := p, last_emit_ms := now\<rparr>"
  show ?case
  proof (cases "fst (should_emit p now t)")
    case True
    then have "should_emit p now t = (True, ?t)" using should_emit_pair [of p now t] by simp
    moreover have "apart (percent_step t) (interval_ms t) (p, now) (throttle_run obs ?t)"
      using Cons.IH [of ?t] Cons.prems o by simp
    ultimately show ?thesis using True Cons.prems o by (auto simp: should_emit_def Let_def)
  next
    case False
    then have "should_emit p now t = (False, t)" using should_emit_pair [of p now t] by simp
    then show ?thesis using Cons o by simp
  qed
qed simp

lemma throttle_run_hundred:
  "(p, now) \<in> set obs \<Longrightarrow> 100 \<le> p \<Longrightarrow> (p, now) \<in> set (throttle_run obs t)"
  by (induction obs arbitrary: t) (auto simp: should_emit_def Let_def split: if_splits)

text \<open>
  Progress events of one transfer that starts at 0%: the first observation is
  always published, every observation at 100% is, and two consecutive events below
  100% are a percent step or an interval apart, so a stream of any length
  publishes a bounded number of them per interval.
\<close>

theorem progress_throttled:
  assumes "list_all (\<lambda>(p, _). 0 \<le> p) obs"
  shows "throttle_run ((0, t0) # obs) (throttle_new step interval)
         = (0, t0) # throttle_run obs (snd (should_emit 0 t0 (throttle_new step interval)))
    \<and> apart (max step 1) (max interval 0) (0, t0)
        (tl (throttle_run ((0, t0) # obs) (throttle_new step interval)))
    \<and> (\<forall>(p, now)\<in>set obs. 100 \<le> p \<longrightarrow> (p, now) \<in> set (throttle_run ((0, t0) # obs) (throttle_new step interval)))"
proof -
  let ?t = "(throttle_new step interval)\<lparr>last_percent := 0, last_emit_ms := t0\<rparr>"
  have s: "should_emit 0 t0 (throttle_new step interval) = (True, ?t)"
    by (simp add: should_emit_def throttle_new_def)
  have "apart (percent_step ?t) (interval_ms ?t) (last_percent ?t, last_emit_ms ?t) (throttle_run obs ?t)"
    by (rule throttle_run_apart) (use assms in simp_all)
  then show ?thesis using s throttle_run_hundred [of _ _ obs ?t] by (auto simp: throttle_new_def)
qed

theorem progress_throttled_witness:
  "throttle_run [(0, 7), (4, 8), (10, 9), (100, 10)] (throttle_new 10 5000) = [(0, 7), (10, 9), (100, 10)]
   \<and> apart 10 5000 (0, 7) (tl (throttle_run [(0, 7), (4, 8), (10, 9), (100, 10)] (throttle_new 10 5000)))"
  using progress_throttled [of "[(4, 8), (10, 9), (100, 10)]" 7 10 5000]
  by (simp add: should_emit_def throttle_new_def)

end
