(* ===== verification/Permission.thy ===== *)
theory Permission
  imports Domain
begin

text \<open>
  Permission handling (\<open>src/permission.rs\<close>): the startup probes of an instance's
  directories and the policy applied to their violations, and the log-once
  deduplication of permission errors. The system calls of the probes are the
  argument \<open>probe_io\<close>; the dedup map is an association list.
\<close>

datatype role = Ingress | Egress | Archive | FailedDir

definition role_as_str :: "role \<Rightarrow> string" where
  "role_as_str r = (case r of Ingress \<Rightarrow> ''ingress'' | Egress \<Rightarrow> ''egress''
                           | Archive \<Rightarrow> ''archive'' | FailedDir \<Rightarrow> ''failed'')"

record violation =
  vi_path :: string
  vi_role :: role
  vi_kind :: io_kind
  vi_msg :: string

section \<open>Startup validation\<close>

record probe_io =
  pr_read_dir :: "string \<Rightarrow> io_error option"
  pr_create_dir_all :: "string \<Rightarrow> io_error option"
  pr_write_probe :: "string \<Rightarrow> io_error option"

definition probe_writable :: "probe_io \<Rightarrow> string \<Rightarrow> io_error option" where
  "probe_writable io dir =
     (case pr_create_dir_all io dir of
        Some e \<Rightarrow> Some e
      | None \<Rightarrow> pr_write_probe io (dir @ ''/.file-replicator-write-probe''))"

datatype egress_kind = ELocal string | EOther string

record validate_cfg =
  vc_ingress :: string
  vc_egress :: "egress_kind list"
  vc_archive_dir :: "string option"
  vc_failed_dir :: "string option"

definition to_violation :: "string \<Rightarrow> role \<Rightarrow> io_error option \<Rightarrow> violation list" where
  "to_violation p r res =
     (case res of None \<Rightarrow> []
                | Some e \<Rightarrow> [\<lparr>vi_path = p, vi_role = r, vi_kind = io_kind e, vi_msg = io_text e\<rparr>])"

definition validate_instance :: "probe_io \<Rightarrow> validate_cfg \<Rightarrow> violation list" where
  "validate_instance io cfg =
     to_violation (vc_ingress cfg) Ingress (pr_read_dir io (vc_ingress cfg))
     @ concat (List.map (\<lambda>e. case e of ELocal p \<Rightarrow> to_violation p Egress (probe_writable io p)
                                     | EOther _ \<Rightarrow> []) (vc_egress cfg))
     @ (case vc_archive_dir cfg of None \<Rightarrow> [] | Some d \<Rightarrow> to_violation d Archive (probe_writable io d))
     @ (case vc_failed_dir cfg of None \<Rightarrow> [] | Some d \<Rightarrow> to_violation d FailedDir (probe_writable io d))"

datatype permission_policy = DisableInstance | Fatal | Retain

datatype policy_outcome = PStart | PSkip | PFatal

definition apply_policy :: "permission_policy \<Rightarrow> violation list \<Rightarrow> policy_outcome" where
  "apply_policy pol vs =
     (if vs = [] then PStart
      else (case pol of DisableInstance \<Rightarrow> PSkip | Fatal \<Rightarrow> PFatal | Retain \<Rightarrow> PStart))"

section \<open>Log once\<close>

definition relog_interval_ms :: i64 where
  "relog_interval_ms = 60 * 60 * 1000"

type_synonym perm_log = "((string \<times> io_kind) \<times> i64) list"

definition should_log :: "string \<Rightarrow> io_kind \<Rightarrow> i64 \<Rightarrow> perm_log \<Rightarrow> bool \<times> perm_log" where
  "should_log path k now l =
     (case map_of l (path, k) of
        Some t \<Rightarrow> (if relog_interval_ms \<le> now - t
                   then (True, List.map (\<lambda>e. if fst e = (path, k) then ((path, k), now) else e) l)
                   else (False, l))
      | None \<Rightarrow> (True, ((path, k), now) # l))"

definition recovered :: "string list \<Rightarrow> perm_log \<Rightarrow> string list \<times> perm_log" where
  "recovered still l =
     (remdups (List.map (fst \<circ> fst) (filter (\<lambda>e. fst (fst e) \<notin> set still) l)),
      filter (\<lambda>e. fst (fst e) \<in> set still) l)"

lemma map_of_refresh:
  "map_of (List.map (\<lambda>e. if fst e = k then (k, v) else e) l) j =
     (if j = k then map_option (\<lambda>_. v) (map_of l k) else map_of l j)"
  by (induction l) auto

lemma should_log_entry:
  "should_log p k now l = (b, l') \<Longrightarrow>
   map_of l' (p, k) = (if b then Some now else map_of l (p, k))
   \<and> (\<forall>q. q \<noteq> (p, k) \<longrightarrow> map_of l' q = map_of l q)"
  by (auto simp: should_log_def map_of_refresh split: option.splits if_splits)

lemma should_log_other:
  "should_log p k now l = (b, l') \<Longrightarrow> (p, k) \<noteq> q \<Longrightarrow> map_of l' q = map_of l q"
  by (drule should_log_entry) (cases q, auto)

lemma map_of_recovered:
  "map_of (snd (recovered still l)) (p, k) = (if p \<in> set still then map_of l (p, k) else None)"
  by (induction l) (auto simp: recovered_def)

text \<open>The reports of one scan: every erroring path is asked about, then the rest is evicted.\<close>

datatype perm_event = Report string io_kind i64 | Evict "string list"

fun perm_run :: "perm_event list \<Rightarrow> perm_log \<Rightarrow> (string \<times> io_kind \<times> i64) list \<times> perm_log" where
  "perm_run [] l = ([], l)"
| "perm_run (Report p k now # es) l =
     (case should_log p k now l of
        (b, l') \<Rightarrow> (case perm_run es l' of (out, l'') \<Rightarrow> ((if b then (p, k, now) # out else out), l'')))"
| "perm_run (Evict still # es) l = perm_run es (snd (recovered still l))"

definition evicts :: "string \<Rightarrow> perm_event \<Rightarrow> bool" where
  "evicts p e = (case e of Evict still \<Rightarrow> p \<notin> set still | _ \<Rightarrow> False)"

text \<open>Distances between consecutive log lines of one key, given when it was last logged.\<close>

fun spaced :: "string \<times> io_kind \<Rightarrow> i64 option \<Rightarrow> (string \<times> io_kind \<times> i64) list \<Rightarrow> bool" where
  "spaced q prev [] = True"
| "spaced q prev ((p, k, now) # out) =
     (if (p, k) = q
      then (case prev of None \<Rightarrow> True | Some t \<Rightarrow> relog_interval_ms \<le> now - t) \<and> spaced q (Some now) out
      else spaced q prev out)"

lemma perm_run_spaced:
  "list_all (\<lambda>e. \<not> evicts (fst q) e) es \<Longrightarrow> spaced q (map_of l q) (fst (perm_run es l))"
proof (induction es arbitrary: l)
  case (Cons e es)
  show ?case
  proof (cases e)
    case (Report p k now)
    obtain b l' where s: "should_log p k now l = (b, l')" by force
    obtain out l'' where r: "perm_run es l' = (out, l'')" by force
    have ih: "spaced q (map_of l' q) out" using Cons.IH [of l'] Cons.prems r Report by simp
    note en = should_log_entry [OF s]
    show ?thesis
    proof (cases "(p, k) = q")
      case True
      have "(case map_of l q of None \<Rightarrow> True | Some t \<Rightarrow> relog_interval_ms \<le> now - t)" if b
        using s that unfolding True [symmetric]
        by (simp add: should_log_def split: option.splits if_splits)
      moreover have "map_of l' q = (if b then Some now else map_of l q)" using en unfolding True by (rule conjunct1)
      ultimately show ?thesis using s r ih Report True by (cases b) simp_all
    next
      case False
      then have "map_of l' q = map_of l q" by (rule should_log_other [OF s])
      then have "spaced q (map_of l q) out" using ih by (simp only:)
      then show ?thesis using s r Report False by (cases b) simp_all
    qed
  next
    case (Evict still)
    then have "map_of (snd (recovered still l)) q = map_of l q"
      using Cons.prems map_of_recovered [of still l "fst q" "snd q"] by (simp add: evicts_def)
    then show ?thesis using Cons.IH [of "snd (recovered still l)"] Cons.prems Evict by simp
  qed
qed simp

text \<open>
  A permission error is logged on first sighting and then at most once per re-log
  interval, over any sequence of reports and evictions that does not evict its
  path; after an eviction of the path the next report is logged again at once.
\<close>

theorem perm_log_rate:
  assumes "list_all (\<lambda>e. \<not> evicts p e) es"
  shows "spaced (p, k) (map_of l (p, k)) (fst (perm_run es l))
    \<and> (map_of l (p, k) = None \<longrightarrow> fst (should_log p k now l))
    \<and> (p \<notin> set still \<longrightarrow> fst (should_log p k now (snd (recovered still l))))
    \<and> fst ` set (snd (recovered still l)) \<subseteq> {q \<in> fst ` set l. fst q \<in> set still}"
  using perm_run_spaced [of "(p, k)" es l] assms map_of_recovered [of still l p k]
  by (auto simp: should_log_def recovered_def)

theorem perm_log_rate_witness:
  "fst (perm_run [Report ''d'' NotFound 0, Report ''d'' NotFound 5, Report ''d'' NotFound 3600000] [])
     = [(''d'', NotFound, 0), (''d'', NotFound, 3600000)]
   \<and> spaced (''d'', NotFound) None
       (fst (perm_run [Report ''d'' NotFound 0, Report ''d'' NotFound 5, Report ''d'' NotFound 3600000] []))"
  using perm_log_rate [of "''d''" "[Report ''d'' NotFound 0, Report ''d'' NotFound 5, Report ''d'' NotFound 3600000]"
      NotFound "[]"]
  by (simp add: evicts_def should_log_def relog_interval_ms_def)

text \<open>
  An instance starts exactly when every directory it depends on passed its probe
  or its policy is to retain; a remote egress is never probed; and the two refusing
  policies differ only in their reach.
\<close>

definition dirs_viable :: "probe_io \<Rightarrow> validate_cfg \<Rightarrow> bool" where
  "dirs_viable io cfg =
     (pr_read_dir io (vc_ingress cfg) = None
      \<and> (\<forall>e\<in>set (vc_egress cfg). case e of ELocal p \<Rightarrow> probe_writable io p = None | EOther _ \<Rightarrow> True)
      \<and> (case vc_archive_dir cfg of None \<Rightarrow> True | Some d \<Rightarrow> probe_writable io d = None)
      \<and> (case vc_failed_dir cfg of None \<Rightarrow> True | Some d \<Rightarrow> probe_writable io d = None))"

lemma to_violation_Nil: "to_violation p r res = [] \<longleftrightarrow> res = None"
  by (simp add: to_violation_def split: option.splits)

lemma validate_viable: "validate_instance io cfg = [] \<longleftrightarrow> dirs_viable io cfg"
  by (auto simp: validate_instance_def dirs_viable_def to_violation_Nil split: option.splits egress_kind.splits)

theorem startup_policy_exact:
  "(apply_policy pol (validate_instance io cfg) = PStart) = (dirs_viable io cfg \<or> pol = Retain)
   \<and> (apply_policy pol (validate_instance io cfg) = PSkip) = (pol = DisableInstance \<and> \<not> dirs_viable io cfg)
   \<and> (apply_policy pol (validate_instance io cfg) = PFatal) = (pol = Fatal \<and> \<not> dirs_viable io cfg)"
  by (cases pol) (auto simp: apply_policy_def validate_viable)

end
