(* ===== verification/World.thy ===== *)
theory World
  imports Store_Laws Paths Events Permission
begin

text \<open>
  The state the engine acts on and its effects. A \<open>world\<close> holds the database, the
  file system, the remote objects, the emitted events and the permission log; an
  effectful Rust function is an action on it. Every durable effect consumes the
  next \<open>fate\<close> of the world: it runs, it fails with an I/O error, or the process
  dies there. A theorem over all fate lists covers every fault and every crash
  point. Beside the files the world has their modification times, the objects of the
  remote stores (\<open>w_remote\<close>: bucket and key), the parts of the multipart uploads in
  progress (\<open>w_uploads\<close>: upload id and part number) and the byte counter of the
  transfer that is running (\<open>w_sent\<close>) and the cached session of a destination that keeps one
  (\<open>w_session\<close>). \<open>None\<close> is the outcome of a process that died.

  The second half is the small program logic the worker's proofs use: \<open>wp m Q C w\<close>
  holds when \<open>m\<close> run in \<open>w\<close> ends in a state of \<open>Q\<close> or dies in a state of \<open>C\<close>.
\<close>

named_theorems wp_rules "weakest preconditions of the effects"

datatype fate = Fine | Fault io_error nat | Crash

record world =
  w_db :: db
  w_files :: "path \<Rightarrow> bytes option"
  w_mtime :: "path \<Rightarrow> i64"
  w_remote :: "string \<Rightarrow> string \<Rightarrow> bytes option"
  w_uploads :: "string \<Rightarrow> u32 \<Rightarrow> (string \<times> bytes) option"
  w_events :: "event list"
  w_perm :: perm_log
  w_rng :: "u64 list"
  w_nanos :: "nat list"
  w_last_progress :: u64
  w_sent :: u64
  w_session :: "nat option"
  w_fate :: "fate list"

type_synonym 'a act = "world \<Rightarrow> 'a option \<times> world"

definition ret :: "'a \<Rightarrow> 'a act" where
  "ret x w = (Some x, w)"

definition bnd :: "'a act \<Rightarrow> ('a \<Rightarrow> 'b act) \<Rightarrow> 'b act" where
  "bnd m f w = (case m w of (None, w') \<Rightarrow> (None, w') | (Some x, w') \<Rightarrow> f x w')"

definition seqn :: "'a act \<Rightarrow> 'b act \<Rightarrow> 'b act" where
  "seqn m n = bnd m (\<lambda>_. n)"

text \<open>\<open>m?\<close>: return the error of a fallible action, or go on with its value.\<close>

definition try_act :: "'a res act \<Rightarrow> ('a \<Rightarrow> 'b res act) \<Rightarrow> 'b res act" where
  "try_act m f = bnd m (\<lambda>r. case r of Inl e \<Rightarrow> ret (Inl e) | Inr x \<Rightarrow> f x)"

definition get_world :: "(world \<Rightarrow> 'a) \<Rightarrow> 'a act" where
  "get_world f w = (Some (f w), w)"

definition emit_event :: "event \<Rightarrow> unit act" where
  "emit_event e w = (Some (), w\<lparr>w_events := w_events w @ [e]\<rparr>)"

definition next_fate :: "world \<Rightarrow> fate \<times> world" where
  "next_fate w = (case w_fate w of [] \<Rightarrow> (Fine, w) | f # fs \<Rightarrow> (f, w\<lparr>w_fate := fs\<rparr>))"

text \<open>One effect: \<open>ok\<close> when it runs, \<open>fail\<close> when it returns an error.\<close>

definition effect :: "(world \<Rightarrow> 'a \<times> world) \<Rightarrow> (io_error \<Rightarrow> nat \<Rightarrow> world \<Rightarrow> 'a \<times> world) \<Rightarrow> 'a act" where
  "effect run_ok run_fail w =
     (case next_fate w of
        (Fine, w') \<Rightarrow> (case run_ok w' of (x, w'') \<Rightarrow> (Some x, w''))
      | (Fault e n, w') \<Rightarrow> (case run_fail e n w' of (x, w'') \<Rightarrow> (Some x, w''))
      | (Crash, w') \<Rightarrow> (None, w'))"

definition db_write :: "(db \<Rightarrow> db) \<Rightarrow> unit res act" where
  "db_write f = effect (\<lambda>w. (Inr (), w\<lparr>w_db := f (w_db w)\<rparr>)) (\<lambda>e _ w. (Inl (State (io_text e)), w))"

definition db_read :: "(db \<Rightarrow> 'a res) \<Rightarrow> 'a res act" where
  "db_read f = effect (\<lambda>w. (f (w_db w), w)) (\<lambda>e _ w. (Inl (State (io_text e)), w))"

text \<open>The random draw of \<open>gen_range(0..=cap)\<close>: any value up to the cap.\<close>

definition draw_rng :: "(u64 \<Rightarrow> u64) act" where
  "draw_rng w =
     (case w_rng w of
        [] \<Rightarrow> (Some (\<lambda>cap. cap), w)
      | r # rs \<Rightarrow> (Some (\<lambda>cap. if r \<le> cap then r else cap), w\<lparr>w_rng := rs\<rparr>))"

definition log_permission :: "string \<Rightarrow> io_kind \<Rightarrow> i64 \<Rightarrow> bool act" where
  "log_permission key k now w =
     (case should_log key k now (w_perm w) of (b, l) \<Rightarrow> (Some b, w\<lparr>w_perm := l\<rparr>))"

text \<open>A loop over a list whose body may fail: the first error ends it.\<close>

fun for_each :: "('a \<Rightarrow> unit res act) \<Rightarrow> 'a list \<Rightarrow> unit res act" where
  "for_each f [] = ret (Inr ())"
| "for_each f (x # xs) = try_act (f x) (\<lambda>_. for_each f xs)"

fun for_each_ignore :: "('a \<Rightarrow> unit act) \<Rightarrow> 'a list \<Rightarrow> unit act" where
  "for_each_ignore f [] = ret ()"
| "for_each_ignore f (x # xs) = bnd (f x) (\<lambda>_. for_each_ignore f xs)"

section \<open>Program logic\<close>

definition wp :: "'a act \<Rightarrow> ('a \<Rightarrow> world \<Rightarrow> bool) \<Rightarrow> (world \<Rightarrow> bool) \<Rightarrow> world \<Rightarrow> bool" where
  "wp m Q C w = (case m w of (Some x, w') \<Rightarrow> Q x w' | (None, w') \<Rightarrow> C w')"

lemma wp_ret [wp_rules]: "wp (ret x) Q C = Q x"
  by (rule ext) (simp add: wp_def ret_def)

lemma wp_bnd [wp_rules]: "wp (bnd m f) Q C = wp m (\<lambda>x. wp (f x) Q C) C"
  by (rule ext) (auto simp: wp_def bnd_def split: option.splits prod.splits)

lemma wp_seqn [wp_rules]: "wp (seqn m n) Q C = wp m (\<lambda>_. wp n Q C) C"
  by (simp add: seqn_def wp_bnd)

lemma wp_try [wp_rules]:
  "wp (try_act m f) Q C =
     wp m (\<lambda>r. case r of Inl e \<Rightarrow> Q (Inl e) | Inr x \<Rightarrow> wp (f x) Q C) C"
proof -
  have "(\<lambda>r. wp (case r of Inl e \<Rightarrow> ret (Inl e) | Inr x \<Rightarrow> f x) Q C)
      = (\<lambda>r. case r of Inl e \<Rightarrow> Q (Inl e) | Inr x \<Rightarrow> wp (f x) Q C)"
    by (rule ext) (simp add: wp_ret split: sum.split)
  then show ?thesis by (simp add: try_act_def wp_bnd)
qed

lemma wp_get_world [wp_rules]: "wp (get_world f) Q C = (\<lambda>w. Q (f w) w)"
  by (rule ext) (simp add: wp_def get_world_def)

lemma wp_emit [wp_rules]: "wp (emit_event e) Q C = (\<lambda>w. Q () (w\<lparr>w_events := w_events w @ [e]\<rparr>))"
  by (rule ext) (simp add: wp_def emit_event_def)

lemma wp_conseq:
  "wp m Q C w \<Longrightarrow> (\<And>x w'. Q x w' \<Longrightarrow> Q' x w') \<Longrightarrow> (\<And>w'. C w' \<Longrightarrow> C' w') \<Longrightarrow> wp m Q' C' w"
  by (auto simp: wp_def split: option.splits prod.splits)

lemma wp_conj:
  "wp m Q C w \<Longrightarrow> wp m Q' C' w \<Longrightarrow> wp m (\<lambda>x w. Q x w \<and> Q' x w) (\<lambda>w. C w \<and> C' w) w"
  by (auto simp: wp_def split: option.splits prod.splits)

lemma wp_run:
  "wp m Q C w \<Longrightarrow> m w = (r, w') \<Longrightarrow> (case r of Some x \<Rightarrow> Q x w' | None \<Rightarrow> C w')"
  by (simp add: wp_def)

lemma wp_effect:
  assumes "\<And>fs. case run_ok (w\<lparr>w_fate := fs\<rparr>) of (x, w') \<Rightarrow> Q x w'"
    "\<And>e n fs. case run_fail e n (w\<lparr>w_fate := fs\<rparr>) of (x, w') \<Rightarrow> Q x w'"
    "\<And>fs. C (w\<lparr>w_fate := fs\<rparr>)"
  shows "wp (effect run_ok run_fail) Q C w"
proof -
  have same: "w\<lparr>w_fate := w_fate w\<rparr> = w" by simp
  show ?thesis
  proof (cases "w_fate w")
    case Nil
    then show ?thesis using assms(1) [of "w_fate w", unfolded same]
      by (simp add: wp_def effect_def next_fate_def split_beta)
  next
    case (Cons f fs)
    then show ?thesis using assms(1) [of fs] assms(2) [of _ _ fs] assms(3) [of fs]
      by (cases f) (simp_all add: wp_def effect_def next_fate_def split_beta)
  qed
qed

text \<open>
  Predicates of the worker never look at the fates to come: \<open>blind\<close>. For those, an
  effect either runs, or fails leaving the world as it was, or the process dies.
\<close>

definition blind :: "(world \<Rightarrow> bool) \<Rightarrow> bool" where
  "blind P = (\<forall>w fs. P (w\<lparr>w_fate := fs\<rparr>) = P w)"

lemma blindD: "blind P \<Longrightarrow> P (w\<lparr>w_fate := fs\<rparr>) = P w"
  by (simp add: blind_def)

text \<open>Invariant triples: what \<open>m\<close> keeps at every point where it can stop.\<close>

definition keeps :: "(world \<Rightarrow> bool) \<Rightarrow> 'a act \<Rightarrow> bool" where
  "keeps P m = (\<forall>w. P w \<longrightarrow> wp m (\<lambda>_. P) P w)"

lemma keepsI: "(\<And>w. P w \<Longrightarrow> wp m (\<lambda>_. P) P w) \<Longrightarrow> keeps P m"
  by (simp add: keeps_def)

lemma keepsD: "keeps P m \<Longrightarrow> P w \<Longrightarrow> wp m (\<lambda>_. P) P w"
  by (simp add: keeps_def)

lemma keeps_ret [intro]: "keeps P (ret x)"
  by (simp add: keeps_def wp_ret)

lemma keeps_get_world [intro]: "keeps P (get_world f)"
  by (simp add: keeps_def wp_get_world)

lemma keeps_bnd [intro]:
  assumes "keeps P m" "\<And>x. keeps P (f x)"
  shows "keeps P (bnd m f)"
proof (rule keepsI)
  fix w assume "P w"
  then have "wp m (\<lambda>_. P) P w" by (rule keepsD [OF assms(1)])
  then show "wp (bnd m f) (\<lambda>_. P) P w"
    unfolding wp_bnd by (rule wp_conseq) (auto intro: keepsD [OF assms(2)])
qed

lemma keeps_seqn [intro]: "keeps P m \<Longrightarrow> keeps P n \<Longrightarrow> keeps P (seqn m n)"
  by (auto simp: seqn_def)

lemma keeps_try [intro]: "keeps P m \<Longrightarrow> (\<And>x. keeps P (f x)) \<Longrightarrow> keeps P (try_act m f)"
  unfolding try_act_def by (rule keeps_bnd) (auto split: sum.split)

lemma keeps_for_each: "(\<And>x. x \<in> set xs \<Longrightarrow> keeps P (f x)) \<Longrightarrow> keeps P (for_each f xs)"
  by (induction xs) auto

lemma keeps_for_each_ignore: "(\<And>x. x \<in> set xs \<Longrightarrow> keeps P (f x)) \<Longrightarrow> keeps P (for_each_ignore f xs)"
  by (induction xs) auto

lemma keeps_effect:
  assumes "blind P"
    "\<And>w. P w \<Longrightarrow> P (snd (run_ok w))" "\<And>e n w. P w \<Longrightarrow> P (snd (run_fail e n w))"
  shows "keeps P (effect run_ok run_fail)"
proof (rule keepsI, rule wp_effect)
  fix w fs assume "P w"
  then have P: "P (w\<lparr>w_fate := fs\<rparr>)" using assms(1) by (simp add: blindD)
  show "case run_ok (w\<lparr>w_fate := fs\<rparr>) of (x, w') \<Rightarrow> P w'"
    using assms(2) [OF P] by (simp add: split_beta)
  show "case run_fail e n (w\<lparr>w_fate := fs\<rparr>) of (x, w') \<Rightarrow> P w'" for e n
    using assms(3) [OF P] by (simp add: split_beta)
  show "P (w\<lparr>w_fate := fs\<rparr>)" by (rule P)
qed

lemma keeps_db_write:
  "blind P \<Longrightarrow> (\<And>w. P w \<Longrightarrow> P (w\<lparr>w_db := f (w_db w)\<rparr>)) \<Longrightarrow> keeps P (db_write f)"
  unfolding db_write_def by (rule keeps_effect) simp_all

lemma keeps_db_read: "blind P \<Longrightarrow> keeps P (db_read f)"
  unfolding db_read_def by (rule keeps_effect) simp_all

lemma keeps_emit: "(\<And>w. P w \<Longrightarrow> P (w\<lparr>w_events := w_events w @ [e]\<rparr>)) \<Longrightarrow> keeps P (emit_event e)"
  by (simp add: keeps_def wp_emit)

lemma wp_draw: "(\<And>draw rs. (\<And>c. draw c \<le> c) \<Longrightarrow> Q draw (w\<lparr>w_rng := rs\<rparr>)) \<Longrightarrow> wp draw_rng Q C w"
proof -
  assume a: "\<And>draw rs. (\<And>c. draw c \<le> c) \<Longrightarrow> Q draw (w\<lparr>w_rng := rs\<rparr>)"
  have same: "w\<lparr>w_rng := w_rng w\<rparr> = w" by simp
  show ?thesis
  proof (cases "w_rng w")
    case Nil
    then show ?thesis using a [of "\<lambda>c. c" "w_rng w", unfolded same]
      by (simp add: wp_def draw_rng_def)
  next
    case (Cons r rs)
    then show ?thesis using a [of "\<lambda>c. if r \<le> c then r else c" rs]
      by (simp add: wp_def draw_rng_def)
  qed
qed

lemma keeps_draw: "(\<And>w rs. P w \<Longrightarrow> P (w\<lparr>w_rng := rs\<rparr>)) \<Longrightarrow> keeps P draw_rng"
  by (intro keepsI wp_draw) simp

lemma wp_log_permission:
  "(\<And>b l. Q b (w\<lparr>w_perm := l\<rparr>)) \<Longrightarrow> wp (log_permission k kd now) Q C w"
  by (simp add: wp_def log_permission_def split: prod.splits)

lemma keeps_log_permission: "(\<And>w l. P w \<Longrightarrow> P (w\<lparr>w_perm := l\<rparr>)) \<Longrightarrow> keeps P (log_permission k kd now)"
  by (intro keepsI wp_log_permission) simp

lemma wp_db_write [intro]:
  "(\<And>fs. Q (Inr ()) (w\<lparr>w_fate := fs, w_db := f (w_db w)\<rparr>)) \<Longrightarrow>
   (\<And>e fs. Q (Inl (State e)) (w\<lparr>w_fate := fs\<rparr>)) \<Longrightarrow> (\<And>fs. C (w\<lparr>w_fate := fs\<rparr>)) \<Longrightarrow>
   wp (db_write f) Q C w"
  unfolding db_write_def by (rule wp_effect) simp_all

lemma wp_db_read [intro]:
  "(\<And>fs. Q (f (w_db w)) (w\<lparr>w_fate := fs\<rparr>)) \<Longrightarrow>
   (\<And>e fs. Q (Inl (State e)) (w\<lparr>w_fate := fs\<rparr>)) \<Longrightarrow> (\<And>fs. C (w\<lparr>w_fate := fs\<rparr>)) \<Longrightarrow>
   wp (db_read f) Q C w"
  unfolding db_read_def by (rule wp_effect) simp_all

end
