(* ===== verification/Integrity_Check.thy ===== *)
theory Integrity_Check
  imports Domain
begin

text \<open>
  Streaming integrity (\<open>src/integrity.rs\<close>): the selectable algorithms, the
  incremental hasher, the one-pass \<open>hash_reader\<close> loop and the \<open>verify\<close> policy.
  The digest crates (\<open>crc32c\<close>, \<open>sha2\<close>) are the argument \<open>digests\<close>; a reader is the
  list of results its successive \<open>read\<close> calls return.
\<close>

datatype verify_policy = VChecksum | VSize | VNone

datatype algorithm = AlgCrc32c | AlgSha256

definition algorithm_from_name :: "string \<Rightarrow> algorithm option" where
  "algorithm_from_name name =
     (let n = filter (\<lambda>c. c \<noteq> CHR ''-'') (to_ascii_uppercase (str_trim name)) in
      if n = ''CRC32C'' then Some AlgCrc32c
      else if n = ''SHA256'' then Some AlgSha256
      else None)"

record 'h digests =
  crc_append :: "u32 \<Rightarrow> bytes \<Rightarrow> u32"
  sha_new :: 'h
  sha_update :: "'h \<Rightarrow> bytes \<Rightarrow> 'h"
  sha_finalize :: "'h \<Rightarrow> bytes"

datatype 'h hasher = HCrc32c u32 | HSha256 'h

definition hasher_new :: "'h digests \<Rightarrow> algorithm \<Rightarrow> 'h hasher" where
  "hasher_new D a = (case a of AlgCrc32c \<Rightarrow> HCrc32c 0 | AlgSha256 \<Rightarrow> HSha256 (sha_new D))"

definition hasher_update :: "'h digests \<Rightarrow> 'h hasher \<Rightarrow> bytes \<Rightarrow> 'h hasher" where
  "hasher_update D h buf =
     (case h of HCrc32c s \<Rightarrow> HCrc32c (crc_append D s buf) | HSha256 s \<Rightarrow> HSha256 (sha_update D s buf))"

definition hasher_finish :: "'h digests \<Rightarrow> 'h hasher \<Rightarrow> checksum" where
  "hasher_finish D h = (case h of HCrc32c s \<Rightarrow> Crc32c s | HSha256 s \<Rightarrow> Sha256 (sha_finalize D s))"

text \<open>The read loop: stops at the first empty read, an error ends it.\<close>

fun hash_loop :: "'h digests \<Rightarrow> (io_error + bytes) list \<Rightarrow> 'h hasher \<Rightarrow> u64
    \<Rightarrow> io_error + (u64 \<times> checksum)" where
  "hash_loop D [] h n_total = Inr (n_total, hasher_finish D h)"
| "hash_loop D (Inl e # rs) h n_total = Inl e"
| "hash_loop D (Inr b # rs) h n_total =
     (if b = [] then Inr (n_total, hasher_finish D h)
      else hash_loop D rs (hasher_update D h b) (n_total + of_nat (length b)))"

definition hash_reader :: "'h digests \<Rightarrow> (io_error + bytes) list \<Rightarrow> algorithm
    \<Rightarrow> io_error + (u64 \<times> checksum)" where
  "hash_reader D reads a = hash_loop D reads (hasher_new D a) 0"

definition bytes_debug :: "bytes \<Rightarrow> string" where
  "bytes_debug bs = ''['' @ str_join '', '' (List.map (\<lambda>b. show_nat (unat b)) bs) @ '']''"

fun checksum_debug :: "checksum \<Rightarrow> string" where
  "checksum_debug (Crc32c c) = ''Crc32c('' @ show_nat (unat c) @ '')''"
| "checksum_debug (Sha256 bs) = ''Sha256('' @ bytes_debug bs @ '')''"
| "checksum_debug NoChecksum = ''None''"

definition verify_checksum :: "checksum \<Rightarrow> checksum \<Rightarrow> unit res" where
  "verify_checksum expected actual =
     (if expected = NoChecksum \<or> actual = NoChecksum then Inr ()
      else if expected = actual then Inr ()
      else Inl (Integrity (''checksum mismatch: expected '' @ checksum_debug expected
                           @ '', got '' @ checksum_debug actual)))"

definition verify_size :: "u64 \<Rightarrow> u64 \<Rightarrow> unit res" where
  "verify_size expected actual =
     (if expected = actual then Inr ()
      else Inl (Integrity (''size mismatch: expected '' @ show_nat (unat expected)
                           @ '', got '' @ show_nat (unat actual))))"

definition verify :: "verify_policy \<Rightarrow> u64 \<Rightarrow> u64 \<Rightarrow> checksum \<Rightarrow> checksum \<Rightarrow> unit res" where
  "verify policy esize asize esum asum =
     (case policy of
        VChecksum \<Rightarrow> verify_checksum esum asum
      | VSize \<Rightarrow> verify_size esize asize
      | VNone \<Rightarrow> Inr ())"

section \<open>Chunking does not matter\<close>

text \<open>
  The documented law of an incremental digest: feeding two buffers in turn is
  feeding their concatenation.
\<close>

definition incremental_digests :: "'h digests \<Rightarrow> bool" where
  "incremental_digests D =
     (\<forall>a b. (\<forall>s. crc_append D (crc_append D s a) b = crc_append D s (a @ b))
          \<and> (\<forall>s. sha_update D (sha_update D s a) b = sha_update D s (a @ b)))"

lemma hasher_update_append:
  "incremental_digests D \<Longrightarrow>
   hasher_update D (hasher_update D h a) b = hasher_update D h (a @ b)"
  by (cases h) (auto simp: incremental_digests_def hasher_update_def)

lemma hash_loop_step:
  assumes "incremental_digests D" "[] \<notin> set chunks"
  shows "hash_loop D (List.map Inr chunks) (hasher_update D h a) t
       = Inr (t + of_nat (length (concat chunks)),
              hasher_finish D (hasher_update D h (a @ concat chunks)))"
  using assms(2)
  by (induction chunks arbitrary: a t)
     (auto simp: hasher_update_append [OF assms(1)] ac_simps)

lemma verify_checksum_ok:
  "verify_checksum a b = Inr () \<longleftrightarrow> a = b \<or> a = NoChecksum \<or> b = NoChecksum"
  by (auto simp: verify_checksum_def)

lemma verify_size_ok: "verify_size a b = Inr () \<longleftrightarrow> a = b"
  by (simp add: verify_size_def)

text \<open>
  The one-pass hash of a stream depends only on its content: however the
  reader cuts the same bytes into non-empty reads, \<open>hash_reader\<close> returns their
  number and the digest of the whole content fed at once.
\<close>

theorem hash_reader_chunking:
  assumes "incremental_digests D" "chunks \<noteq> []" "[] \<notin> set chunks"
  shows "hash_reader D (List.map Inr chunks) a
       = Inr (of_nat (length (concat chunks)),
              hasher_finish D (hasher_update D (hasher_new D a) (concat chunks)))"
proof -
  obtain c cs where c: "chunks = c # cs" using assms(2) by (cases chunks) auto
  then have "c \<noteq> []" "[] \<notin> set cs" using assms(3) by auto
  then show ?thesis
    using hash_loop_step [OF assms(1), of cs "hasher_new D a" c]
    by (simp add: hash_reader_def c)
qed

definition sum_digests :: "u32 digests" where
  "sum_digests = \<lparr>crc_append = (\<lambda>s bs. foldl (\<lambda>x b. x + ucast b) s bs), sha_new = 0,
     sha_update = (\<lambda>s bs. foldl (\<lambda>x b. x + ucast b) s bs), sha_finalize = (\<lambda>s. [ucast s])\<rparr>"

lemma sum_digests_incremental: "incremental_digests sum_digests"
  by (simp add: incremental_digests_def sum_digests_def)

theorem hash_reader_chunking_witness:
  "hash_reader sum_digests (List.map Inr [[1, 2], [3]]) AlgCrc32c = Inr (3, Crc32c 6)"
  using hash_reader_chunking [of sum_digests "[[1, 2], [3]]" AlgCrc32c]
  by (simp add: sum_digests_incremental)
     (simp add: sum_digests_def hasher_finish_def hasher_update_def hasher_new_def)

text \<open>
  Verification accepts exactly the objects the configured policy allows: under
  the checksum policy an object whose digest agrees (or was not computed on one
  side), under the size policy one whose byte count agrees, and any object when
  verification is off; every refusal is a retriable integrity error.
\<close>

theorem verify_policy_exact:
  "(verify pol es as ec ac = Inr ()) =
     (case pol of VChecksum \<Rightarrow> ec = ac \<or> ec = NoChecksum \<or> ac = NoChecksum
                | VSize \<Rightarrow> es = as | VNone \<Rightarrow> True)
   \<and> (case verify pol es as ec ac of Inr _ \<Rightarrow> True | Inl e \<Rightarrow> is_transient e \<and> (\<exists>m. e = Integrity m))"
  by (cases pol) (auto simp: verify_def verify_checksum_ok verify_size_ok verify_checksum_def verify_size_def)

end
