(* ===== verification/SourceFs.thy ===== *)
theory SourceFs
  imports World Integrity_Check
begin

text \<open>
  The source-side file operations of the completion and quarantine actions
  (\<open>SourceFs\<close>, \<open>move_file\<close>, \<open>resolve_collision\<close>, \<open>apply_success_action\<close>,
  \<open>verify_archived\<close>, \<open>apply_quarantine_action\<close> in \<open>src/instance/worker.rs\<close>).
  \<open>rename\<close> is atomic and replaces its target, a failed \<open>copy\<close> may leave a
  prefix of the file behind, and the nanosecond tag of a temporary name comes from
  the world.
\<close>

datatype collision = Suffix | Overwrite | CFail

section \<open>File operations\<close>

definition enoent :: io_error where
  "enoent = \<lparr>io_kind = NotFound, io_raw_os = Some 2, io_text = ''No such file or directory (os error 2)''\<rparr>"

definition set_file :: "path \<Rightarrow> bytes option \<Rightarrow> world \<Rightarrow> world" where
  "set_file p c w = w\<lparr>w_files := (w_files w)(p := c)\<rparr>"

definition fs_exists :: "path \<Rightarrow> bool act" where
  "fs_exists p = get_world (\<lambda>w. w_files w p \<noteq> None)"

definition fs_remove_file :: "path \<Rightarrow> (io_error + unit) act" where
  "fs_remove_file p =
     effect (\<lambda>w. case w_files w p of None \<Rightarrow> (Inl enoent, w) | Some _ \<Rightarrow> (Inr (), set_file p None w))
            (\<lambda>e _ w. (Inl e, w))"

definition fs_create_dir_all :: "path \<Rightarrow> (io_error + unit) act" where
  "fs_create_dir_all p = effect (\<lambda>w. (Inr (), w)) (\<lambda>e _ w. (Inl e, w))"

definition fs_rename :: "path \<Rightarrow> path \<Rightarrow> (io_error + unit) act" where
  "fs_rename a b =
     effect (\<lambda>w. case w_files w a of
                   None \<Rightarrow> (Inl enoent, w)
                 | Some c \<Rightarrow> (Inr (), set_file b (Some c) (set_file a None w)))
            (\<lambda>e _ w. (Inl e, w))"

definition fs_copy :: "path \<Rightarrow> path \<Rightarrow> (io_error + u64) act" where
  "fs_copy a b =
     effect (\<lambda>w. case w_files w a of
                   None \<Rightarrow> (Inl enoent, w)
                 | Some c \<Rightarrow> (Inr (of_nat (length c)), set_file b (Some c) w))
            (\<lambda>e n w. case (w_files w a, n) of
                       (Some c, Suc k) \<Rightarrow> (Inl e, set_file b (Some (take k c)) w)
                     | _ \<Rightarrow> (Inl e, w))"

definition fs_metadata_len :: "path \<Rightarrow> (io_error + u64) act" where
  "fs_metadata_len p =
     effect (\<lambda>w. case w_files w p of None \<Rightarrow> (Inl enoent, w) | Some c \<Rightarrow> (Inr (of_nat (length c)), w))
            (\<lambda>e _ w. (Inl e, w))"

definition fs_open :: "path \<Rightarrow> (io_error + bytes) act" where
  "fs_open p =
     effect (\<lambda>w. case w_files w p of None \<Rightarrow> (Inl enoent, w) | Some c \<Rightarrow> (Inr c, w))
            (\<lambda>e _ w. (Inl e, w))"

text \<open>The reads of an opened file: full 64 KiB buffers, then the rest.\<close>

function read_chunks :: "bytes \<Rightarrow> bytes list" where
  "read_chunks bs = (if bs = [] then [] else take 65536 bs # read_chunks (drop 65536 bs))"
  by pat_completeness auto
termination by (relation "measure length") auto

declare read_chunks.simps [simp del]

definition hash_open_file :: "'h digests \<Rightarrow> bytes \<Rightarrow> algorithm \<Rightarrow> (io_error + (u64 \<times> checksum)) act" where
  "hash_open_file D content a =
     effect (\<lambda>w. (hash_reader D (List.map Inr (read_chunks content)) a, w))
            (\<lambda>e n w. (hash_reader D (List.map Inr (take n (read_chunks content)) @ [Inl e]) a, w))"

definition map_err :: "(io_error \<Rightarrow> repl_error) \<Rightarrow> (io_error + 'a) act \<Rightarrow> 'a res act" where
  "map_err f m = bnd m (\<lambda>r. ret (case r of Inl e \<Rightarrow> Inl (f e) | Inr x \<Rightarrow> Inr x))"

definition ok :: "'a \<Rightarrow> 'a res act" where
  "ok x = ret (Inr x)"

definition err :: "repl_error \<Rightarrow> 'a res act" where
  "err e = ret (Inl e)"

definition next_nanos :: "nat act" where
  "next_nanos w = (case w_nanos w of [] \<Rightarrow> (Some 0, w) | n # ns \<Rightarrow> (Some n, w\<lparr>w_nanos := ns\<rparr>))"

section \<open>Moving a file\<close>

fun first_free :: "(path \<Rightarrow> bool) \<Rightarrow> path \<Rightarrow> nat \<Rightarrow> nat \<Rightarrow> path option" where
  "first_free taken dst i 0 = None"
| "first_free taken dst i (Suc n) =
     (if \<not> taken (suffixed dst i) then Some (suffixed dst i) else first_free taken dst (i + 1) n)"

definition resolve_collision :: "(io_error \<Rightarrow> repl_error) \<Rightarrow> path \<Rightarrow> collision \<Rightarrow> path res act" where
  "resolve_collision classify dst col =
     bnd (fs_exists dst) (\<lambda>ex.
       if \<not> ex then ok dst
       else (case col of
          Overwrite \<Rightarrow> try_act (map_err classify (fs_remove_file dst)) (\<lambda>_. ok dst)
        | CFail \<Rightarrow> err (Permanent (''destination already exists: '' @ path_display dst))
        | Suffix \<Rightarrow>
            bnd (get_world (\<lambda>w. first_free (\<lambda>p. w_files w p \<noteq> None) dst 1 9999)) (\<lambda>r.
              case r of Some cand \<Rightarrow> ok cand
                      | None \<Rightarrow> err (Permanent (''no free suffixed name for '' @ path_display dst)))))"

text \<open>Clean up the temporary file and report \<open>e\<close>.\<close>

definition discard_temp :: "(io_error \<Rightarrow> repl_error) \<Rightarrow> path \<Rightarrow> io_error + unit \<Rightarrow> unit res act" where
  "discard_temp classify tmp r =
     (case r of Inr _ \<Rightarrow> ok () | Inl e \<Rightarrow> seqn (fs_remove_file tmp) (err (classify e)))"

text \<open>Publish the temporary file on the target; when the rename fails, free the target and retry.\<close>

definition free_target :: "(io_error \<Rightarrow> repl_error) \<Rightarrow> path \<Rightarrow> path \<Rightarrow> unit res act" where
  "free_target classify tmp target =
     bnd (fs_exists target) (\<lambda>ex.
       if ex then bnd (fs_remove_file target) (discard_temp classify tmp) else ok ())"

definition publish_temp :: "(io_error \<Rightarrow> repl_error) \<Rightarrow> path \<Rightarrow> path \<Rightarrow> unit res act" where
  "publish_temp classify tmp target =
     bnd (fs_rename tmp target) (\<lambda>r.
       if is_ok r then ok ()
       else try_act (free_target classify tmp target) (\<lambda>_.
            bnd (fs_rename tmp target) (discard_temp classify tmp)))"

text \<open>Across file systems: copy to a temporary file, publish it, remove the source.\<close>

definition copy_fallback :: "(io_error \<Rightarrow> repl_error) \<Rightarrow> path \<Rightarrow> path \<Rightarrow> path res act" where
  "copy_fallback classify src target =
     bnd next_nanos (\<lambda>tag. let tmp = move_temp_path target tag in
     bnd (fs_copy src tmp) (\<lambda>r.
     try_act (discard_temp classify tmp (map_res (\<lambda>_. ()) r)) (\<lambda>_.
     try_act (publish_temp classify tmp target) (\<lambda>_.
     try_act (map_err classify (fs_remove_file src)) (\<lambda>_. ok target)))))"

definition rename_or_copy :: "(io_error \<Rightarrow> repl_error) \<Rightarrow> path \<Rightarrow> path \<Rightarrow> path res act" where
  "rename_or_copy classify src target =
     bnd (fs_rename src target) (\<lambda>r. if is_ok r then ok target else copy_fallback classify src target)"

definition create_parent :: "(io_error \<Rightarrow> repl_error) \<Rightarrow> path \<Rightarrow> unit res act" where
  "create_parent classify dst =
     (case path_parent dst of None \<Rightarrow> ok () | Some parent \<Rightarrow> map_err classify (fs_create_dir_all parent))"

definition move_file :: "(io_error \<Rightarrow> repl_error) \<Rightarrow> path \<Rightarrow> path \<Rightarrow> collision \<Rightarrow> path res act" where
  "move_file classify src dst col =
     try_act (create_parent classify dst) (\<lambda>_.
     try_act (resolve_collision classify dst col) (rename_or_copy classify src))"

section \<open>Completion action\<close>

datatype on_success = OnArchive | OnDelete

record cleanup_ctx =
  cx_on_success :: on_success
  cx_src :: path
  cx_archive_dir :: "path option"
  cx_relpath :: string
  cx_collision :: collision
  cx_verify :: verify_policy
  cx_expected_size :: u64
  cx_expected_checksum :: checksum

definition cleanup_action :: "on_success \<Rightarrow> string" where
  "cleanup_action a = (case a of OnDelete \<Rightarrow> ''delete'' | OnArchive \<Rightarrow> ''archive'')"

datatype cleanup_done = Deleted | Archived "path option"

definition permanent_mismatch :: "repl_error \<Rightarrow> repl_error" where
  "permanent_mismatch e =
     (case e of Integrity m \<Rightarrow> Permanent (''archived copy mismatch: '' @ m) | other \<Rightarrow> other)"

definition lift_mismatch :: "unit res \<Rightarrow> unit res" where
  "lift_mismatch r = (case r of Inl e \<Rightarrow> Inl (permanent_mismatch e) | Inr u \<Rightarrow> Inr u)"

definition checksum_algo :: "checksum \<Rightarrow> algorithm option" where
  "checksum_algo c = (case c of Crc32c _ \<Rightarrow> Some AlgCrc32c | Sha256 _ \<Rightarrow> Some AlgSha256 | NoChecksum \<Rightarrow> None)"

definition verify_archived :: "'h digests \<Rightarrow> platform \<Rightarrow> path \<Rightarrow> cleanup_ctx \<Rightarrow> unit res act" where
  "verify_archived D pf target cx =
     try_act (map_err (classify_cleanup_io pf) (fs_metadata_len target)) (\<lambda>len.
     try_act (ret (lift_mismatch (verify_size (cx_expected_size cx) len))) (\<lambda>_.
     if cx_verify cx \<noteq> VChecksum then ok ()
     else (case checksum_algo (cx_expected_checksum cx) of
             None \<Rightarrow> ok ()
           | Some algo \<Rightarrow>
               try_act (map_err (classify_cleanup_io pf) (fs_open target)) (\<lambda>content.
               try_act (map_err (classify_cleanup_io pf) (hash_open_file D content algo)) (\<lambda>(_, actual).
               ret (lift_mismatch (verify_checksum (cx_expected_checksum cx) actual)))))))"

definition apply_success_action :: "'h digests \<Rightarrow> platform \<Rightarrow> cleanup_ctx \<Rightarrow> cleanup_done res act" where
  "apply_success_action D pf cx =
     (case cx_on_success cx of
        OnDelete \<Rightarrow>
          bnd (fs_remove_file (cx_src cx)) (\<lambda>r.
          try_act (case r of
                     Inr _ \<Rightarrow> ok ()
                   | Inl e \<Rightarrow> if io_kind e = NotFound then ok () else err (classify_cleanup_io pf e)) (\<lambda>_.
          bnd (fs_exists (cx_src cx)) (\<lambda>ex.
            if ex then err (Transient (''delete returned success but the source is still present: ''
                                       @ path_display (cx_src cx)))
            else ok Deleted)))
      | OnArchive \<Rightarrow>
          (case cx_archive_dir cx of
             None \<Rightarrow> err (Permanent (''onSuccess=archive requires completion.archiveDir; cannot archive ''
                                     @ cx_relpath cx))
           | Some dir \<Rightarrow>
               (let dst = join_rel dir (cx_relpath cx) in
                bnd (fs_exists (cx_src cx)) (\<lambda>ex.
                if \<not> ex
                then bnd (fs_exists dst) (\<lambda>dex.
                       if dex then try_act (verify_archived D pf dst cx) (\<lambda>_. ok (Archived (Some dst)))
                       else ok (Archived None))
                else try_act (move_file (classify_cleanup_io pf) (cx_src cx) dst (cx_collision cx)) (\<lambda>target.
                     try_act (verify_archived D pf target cx) (\<lambda>_. ok (Archived (Some target))))))))"

section \<open>Quarantine action\<close>

record quarantine_ctx =
  qx_instance :: string
  qx_relpath :: string
  qx_last_error :: string
  qx_attempts :: u32
  qx_first_seen :: i64
  qx_last_try :: i64
  qx_destination :: string
  qx_bytes_done :: u64

definition sidecar_json :: "quarantine_ctx \<Rightarrow> json" where
  "sidecar_json qx =
     JObj [(''instance'', JStr (qx_instance qx)), (''relpath'', JStr (qx_relpath qx)),
           (''lastError'', JStr (qx_last_error qx)), (''attempts'', jnum32 (qx_attempts qx)),
           (''firstSeen'', JNum (qx_first_seen qx)), (''lastTry'', JNum (qx_last_try qx)),
           (''destination'', JStr (qx_destination qx)), (''bytesDone'', ju64 (qx_bytes_done qx))]"

text \<open>\<open>dst\<close> with \<open>.error.json\<close> appended; the serializer is the argument \<open>ser\<close>.\<close>

definition sidecar_path :: "path \<Rightarrow> path" where
  "sidecar_path dst = (if dst = [] then [''.error.json''] else butlast dst @ [last dst @ ''.error.json''])"

definition fs_write :: "path \<Rightarrow> bytes \<Rightarrow> (io_error + unit) act" where
  "fs_write p c = effect (\<lambda>w. (Inr (), set_file p (Some c) w)) (\<lambda>e _ w. (Inl e, w))"

definition write_error_sidecar :: "(json \<Rightarrow> bytes) \<Rightarrow> path \<Rightarrow> quarantine_ctx \<Rightarrow> unit act" where
  "write_error_sidecar ser dst qx =
     (let sidecar = sidecar_path dst in
      seqn (case path_parent sidecar of None \<Rightarrow> ret (Inr ()) | Some p \<Rightarrow> fs_create_dir_all p)
        (seqn (fs_write sidecar (ser (sidecar_json qx))) (ret ())))"

definition apply_quarantine_action ::
  "(json \<Rightarrow> bytes) \<Rightarrow> path option \<Rightarrow> path \<Rightarrow> collision \<Rightarrow> quarantine_ctx \<Rightarrow> unit act" where
  "apply_quarantine_action ser failed_dir src col qx =
     (case failed_dir of
        None \<Rightarrow> ret ()
      | Some dir \<Rightarrow>
          (let dst = join_rel dir (qx_relpath qx) in
           bnd (fs_exists src) (\<lambda>ex.
           seqn (if ex then move_file classify_io src dst col else ret (Inr src))
             (write_error_sidecar ser dst qx))))"

end
