(* ===== verification/Retry.thy ===== *)
theory Retry
  imports Domain
begin

text \<open>
  The retry policy of the worker (\<open>RetryPolicy\<close> and \<open>decide_cleanup\<close> in
  \<open>src/instance/worker.rs\<close>): resolution of the configured knobs, the full-jitter
  exponential backoff, and the two independent give-up decisions. The random
  draw \<open>rng.gen_range(0..=cap)\<close> is the argument \<open>draw\<close>; the duration parser is
  the argument \<open>dur\<close> of \<open>retry_resolve\<close>.
\<close>

record retry_policy =
  base_delay_ms :: u64
  max_delay_ms :: u64
  give_up_after_ms :: "i64 option"
  max_attempts :: "u32 option"

record retry_cfg =
  rc_base_delay_ms :: "u64 option"
  rc_max_delay_ms :: "u64 option"
  rc_give_up_after :: "string option"
  rc_max_attempts :: "u32 option"

definition retry_default :: retry_policy where
  "retry_default = \<lparr>base_delay_ms = 1000, max_delay_ms = 900000,
     give_up_after_ms = Some 604800000, max_attempts = None\<rparr>"

definition or_opt :: "'a option \<Rightarrow> 'a option \<Rightarrow> 'a option" where
  "or_opt a b = (case a of Some x \<Rightarrow> Some x | None \<Rightarrow> b)"

definition unwrap_or :: "'a option \<Rightarrow> 'a \<Rightarrow> 'a" where
  "unwrap_or a d = (case a of Some x \<Rightarrow> x | None \<Rightarrow> d)"

definition pick :: "(retry_cfg \<Rightarrow> 'a option) \<Rightarrow> retry_cfg option \<Rightarrow> retry_cfg option \<Rightarrow> 'a option" where
  "pick f inst glob = or_opt (Option.bind inst f) (Option.bind glob f)"

definition retry_resolve ::
  "(string \<Rightarrow> u64 option) \<Rightarrow> retry_cfg option \<Rightarrow> retry_cfg option \<Rightarrow> retry_policy" where
  "retry_resolve dur inst glob =
     (let base = max (unwrap_or (pick rc_base_delay_ms inst glob) (base_delay_ms retry_default)) 1;
          mx = max (unwrap_or (pick rc_max_delay_ms inst glob) (max_delay_ms retry_default)) base;
          give_up = (case pick rc_give_up_after inst glob of
                       Some s \<Rightarrow> (case dur s of
                                   Some ms \<Rightarrow> Some (u64_as_i64 ms)
                                 | None \<Rightarrow> give_up_after_ms retry_default)
                     | None \<Rightarrow> give_up_after_ms retry_default)
      in \<lparr>base_delay_ms = base, max_delay_ms = mx, give_up_after_ms = give_up,
          max_attempts = pick rc_max_attempts inst glob\<rparr>)"

definition u64_sat_mul :: "u64 \<Rightarrow> u64 \<Rightarrow> u64" where
  "u64_sat_mul a b = (if unat a * unat b < 2 ^ 64 then a * b else - 1)"

definition backoff_cap :: "retry_policy \<Rightarrow> u32 \<Rightarrow> u64" where
  "backoff_cap P attempts =
     (let shift = min (word_sat_sub attempts 1) 32;
          ex = u64_sat_mul (base_delay_ms P) (push_bit (unat shift) 1)
      in max (min ex (max_delay_ms P)) 1)"

definition backoff_ms :: "retry_policy \<Rightarrow> u32 \<Rightarrow> (u64 \<Rightarrow> u64) \<Rightarrow> u64" where
  "backoff_ms P attempts draw = draw (backoff_cap P attempts)"

datatype retry_decision = DRetry i64 | DGiveUp

definition i64_sat_add :: "i64 \<Rightarrow> i64 \<Rightarrow> i64" where
  "i64_sat_add a b = i64_sat (a + b)"

definition i64_sat_sub :: "i64 \<Rightarrow> i64 \<Rightarrow> i64" where
  "i64_sat_sub a b = i64_sat (a - b)"

definition decide :: "retry_policy \<Rightarrow> work_item \<Rightarrow> bool \<Rightarrow> i64 \<Rightarrow> (u64 \<Rightarrow> u64) \<Rightarrow> retry_decision" where
  "decide P item permanent now draw =
     (let attempts = word_sat_add (wi_attempts item) 1 in
      if permanent then DGiveUp
      else if (case max_attempts P of Some cap \<Rightarrow> cap \<le> attempts | None \<Rightarrow> False) then DGiveUp
      else if (case give_up_after_ms P of
                 Some budget \<Rightarrow> budget \<le> i64_sat_sub now (wi_discovered_at item)
               | None \<Rightarrow> False) then DGiveUp
      else DRetry (i64_sat_add now (u64_as_i64 (backoff_ms P attempts draw))))"

definition default_cleanup_max_attempts :: u32 where
  "default_cleanup_max_attempts = 10"

definition cleanup_no_retry :: i64 where
  "cleanup_no_retry = i64_max"

definition decide_cleanup :: "retry_policy \<Rightarrow> bool \<Rightarrow> u32 \<Rightarrow> i64 \<Rightarrow> (u64 \<Rightarrow> u64) \<Rightarrow> retry_decision" where
  "decide_cleanup P permanent attempts_so_far now draw =
     (if permanent then DGiveUp
      else (let attempts = word_sat_add attempts_so_far 1;
                cap = unwrap_or (max_attempts P) default_cleanup_max_attempts in
            if cap \<le> attempts then DGiveUp
            else DRetry (i64_sat_add now (u64_as_i64 (backoff_ms P attempts draw)))))"

section \<open>Backoff\<close>

lemma unat_two_power: "n \<le> 32 \<Longrightarrow> unat ((2 :: u64) ^ n) = 2 ^ n"
proof -
  assume "n \<le> 32"
  then have b: "(2 :: nat) ^ n < 2 ^ 64" by (intro power_strict_increasing) simp_all
  have "(2 :: u64) ^ n = of_nat (2 ^ n)" by simp
  then have "unat ((2 :: u64) ^ n) = 2 ^ n mod 2 ^ 64" by (simp only: unat_of_nat) simp
  with b show ?thesis by simp
qed

lemma unat_u64_sat_mul: "unat (u64_sat_mul a b) = min (2 ^ 64 - 1) (unat a * unat b)"
proof (cases "unat a * unat b < 2 ^ 64")
  case True
  then show ?thesis by (simp add: u64_sat_mul_def unat_word_ariths)
next
  case False
  moreover have "unat (- 1 :: u64) = 2 ^ 64 - 1"
    by (simp add: unsigned_minus_1_eq_mask mask_eq_exp_minus_1)
  ultimately show ?thesis by (simp add: u64_sat_mul_def)
qed

lemma unat_max_word: "unat (max a b) = max (unat a) (unat (b :: 'a::len word))"
  by (simp add: max_def word_le_nat_alt)

lemma unat_min_word: "unat (min a b) = min (unat a) (unat (b :: 'a::len word))"
  by (simp add: min_def word_le_nat_alt)

lemma unat_backoff_cap:
  "unat (backoff_cap P attempts) =
     max (min (min (2 ^ 64 - 1) (unat (base_delay_ms P) * 2 ^ min (unat attempts - 1) 32))
              (unat (max_delay_ms P))) 1"
proof -
  have "unat (min (word_sat_sub attempts 1) 32) = min (unat attempts - 1) 32"
    by (simp add: unat_min_word unat_word_sat_sub)
  then show ?thesis
    by (simp add: backoff_cap_def Let_def unat_max_word unat_min_word unat_u64_sat_mul unat_two_power)
qed

lemma clamp_mono: "a \<le> b \<Longrightarrow> max (min (min M a) m) 1 \<le> max (min (min M b) m) (1 :: nat)"
  by linarith

lemma backoff_le_max:
  assumes "\<And>c. draw c \<le> c"
  shows "unat (backoff_ms P attempts draw) \<le> max (unat (max_delay_ms P)) 1
    \<and> unat (backoff_ms P attempts draw)
        \<le> max (unat (base_delay_ms P) * 2 ^ min (unat attempts - 1) 32) 1"
proof -
  have "unat (backoff_ms P attempts draw) \<le> unat (backoff_cap P attempts)"
    using assms by (simp add: backoff_ms_def flip: word_le_nat_alt)
  then show ?thesis unfolding unat_backoff_cap by linarith
qed

text \<open>
  The backoff never exceeds the configured maximum (or one millisecond) nor the
  exponential curve \<open>base * 2^(attempts - 1)\<close>; the curve only grows with the number
  of attempts, and the arithmetic neither overflows nor drops to zero for any
  policy and any of the \<open>2 ^ 32\<close> attempt counts.
\<close>

theorem backoff_bounds:
  assumes "\<And>c. draw c \<le> c"
  shows "unat (backoff_ms P attempts draw) \<le> max (unat (max_delay_ms P)) 1
    \<and> unat (backoff_ms P attempts draw)
        \<le> max (unat (base_delay_ms P) * 2 ^ min (unat attempts - 1) 32) 1
    \<and> backoff_cap P attempts \<le> backoff_cap P (word_sat_add attempts 1)
    \<and> 1 \<le> backoff_cap P attempts"
proof -
  let ?e = "\<lambda>a. unat (base_delay_ms P) * 2 ^ min (unat a - 1) 32"
  have "unat attempts \<le> unat (word_sat_add attempts 1)"
    using unsigned_less [of attempts, where 'a = nat] by (simp add: unat_word_sat_add)
  then have "?e attempts \<le> ?e (word_sat_add attempts 1)"
    by (intro mult_le_mono2 power_increasing) auto
  then have "backoff_cap P attempts \<le> backoff_cap P (word_sat_add attempts 1)"
    unfolding word_le_nat_alt unat_backoff_cap by (rule clamp_mono)
  moreover have "1 \<le> backoff_cap P attempts"
    unfolding word_le_nat_alt unat_backoff_cap by simp
  ultimately show ?thesis
    using backoff_le_max [of draw P attempts, OF assms] by blast
qed

definition half_draw :: "u64 \<Rightarrow> u64" where
  "half_draw c = c div 2"

lemma half_draw_le: "half_draw c \<le> c"
  by (simp add: half_draw_def word_le_nat_alt unat_div)

theorem backoff_bounds_witness:
  "unat (backoff_ms retry_default 40 half_draw) \<le> 900000 \<and> 1 \<le> backoff_cap retry_default 40"
  using backoff_bounds [of half_draw retry_default 40, OF half_draw_le] by (simp add: retry_default_def)

section \<open>Give-up decisions\<close>

lemma max_one_less: "b \<le> max m 1 \<Longrightarrow> m < 2 ^ 63 \<Longrightarrow> b < (2 ^ 63 :: nat)"
  by (auto simp: max_def split: if_splits)

lemma backoff_i64:
  assumes "\<And>c. draw c \<le> c" "unat (max_delay_ms P) < 2 ^ 63"
  shows "0 \<le> u64_as_i64 (backoff_ms P a draw)
    \<and> u64_as_i64 (backoff_ms P a draw) \<le> max (int (unat (max_delay_ms P))) 1"
proof -
  have "unat (backoff_ms P a draw) \<le> max (unat (max_delay_ms P)) 1"
    using backoff_le_max [of draw P a, OF assms(1)] by simp
  moreover from this assms(2) have "unat (backoff_ms P a draw) < 2 ^ 63"
    by (rule max_one_less)
  ultimately show ?thesis by (simp only: u64_as_i64_small) linarith
qed

lemma i64_sat_add_range:
  "in_i64 now \<Longrightarrow> 0 \<le> d \<Longrightarrow> now \<le> i64_sat_add now d \<and> i64_sat_add now d \<le> now + d
     \<and> in_i64 (i64_sat_add now d)"
  by (auto simp: i64_sat_add_def i64_sat_def in_i64_def)

definition attempts_spent :: "retry_policy \<Rightarrow> u32 \<Rightarrow> bool" where
  "attempts_spent P n = (case max_attempts P of Some cap \<Rightarrow> unat cap \<le> unat n + 1 | None \<Rightarrow> False)"

definition time_spent :: "retry_policy \<Rightarrow> i64 \<Rightarrow> i64 \<Rightarrow> bool" where
  "time_spent P discovered now =
     (case give_up_after_ms P of Some b \<Rightarrow> b \<le> i64_sat (now - discovered) | None \<Rightarrow> False)"

lemma cap_le_attempts:
  "cap \<le> word_sat_add n 1 \<longleftrightarrow> unat cap \<le> unat n + 1" for cap n :: u32
  using unsigned_less [of cap, where 'a = nat] by (auto simp: word_le_nat_alt unat_word_sat_add)

text \<open>
  A failed transfer is given up exactly when the error is permanent, the
  attempt cap is reached, or the time budget since discovery is spent; otherwise it
  is retried at a time that is not in the past and at most one maximal delay away.
\<close>

theorem decide_exact:
  assumes "\<And>c. draw c \<le> c" "unat (max_delay_ms P) < 2 ^ 63" "in_i64 now"
  shows "(case decide P item permanent now draw of
      DGiveUp \<Rightarrow> permanent \<or> attempts_spent P (wi_attempts item) \<or> time_spent P (wi_discovered_at item) now
    | DRetry t \<Rightarrow> \<not> (permanent \<or> attempts_spent P (wi_attempts item) \<or> time_spent P (wi_discovered_at item) now)
        \<and> now \<le> t \<and> t \<le> now + max (int (unat (max_delay_ms P))) 1 \<and> in_i64 t)"
proof -
  let ?d = "u64_as_i64 (backoff_ms P (word_sat_add (wi_attempts item) 1) draw)"
  have "0 \<le> ?d \<and> ?d \<le> max (int (unat (max_delay_ms P))) 1"
    by (rule backoff_i64) (use assms in auto)
  then have "now \<le> i64_sat_add now ?d \<and> i64_sat_add now ?d \<le> now + max (int (unat (max_delay_ms P))) 1
      \<and> in_i64 (i64_sat_add now ?d)"
    using i64_sat_add_range [OF assms(3), of ?d] by linarith
  then show ?thesis
    by (auto simp: decide_def Let_def attempts_spent_def time_spent_def cap_le_attempts
        i64_sat_sub_def split: option.splits)
qed

definition probe_item :: work_item where
  "probe_item = \<lparr>wi_instance = ''i'', wi_relpath = ''a'', wi_abs_source = [''a''], wi_state = InProgress,
     wi_size = 4, wi_discovered_at = 1000, wi_attempts = 2, wi_cleanup_attempts = 0,
     wi_next_attempt_at = 0, wi_last_error = None, wi_bytes_done = 0, wi_updated_at = 0\<rparr>"

theorem decide_exact_witness:
  "\<exists>t. decide retry_default probe_item False 5000 half_draw = DRetry t \<and> 5000 \<le> t \<and> t \<le> 905000"
  using decide_exact [where draw = half_draw and P = retry_default and now = 5000 and item = probe_item
      and permanent = False, OF half_draw_le]
  by (auto simp: retry_default_def in_i64_def attempts_spent_def time_spent_def probe_item_def
      i64_sat_def split: retry_decision.splits)

text \<open>
  The source-completion retries have a budget of their own: the decision does
  not look at the transfer attempts or at the time since discovery; a permanent
  error gives up at once, otherwise it gives up exactly at the configured attempt
  cap or, without one, at the tenth attempt. So every sequence of failing cleanup
  attempts ends after at most that many.
\<close>

theorem cleanup_budget_exact:
  "(decide_cleanup P permanent n now draw = DGiveUp) =
     (permanent \<or> unat (unwrap_or (max_attempts P) 10) \<le> unat n + 1)
   \<and> (\<exists>k. unat k < max 1 (unat (unwrap_or (max_attempts P) 10))
        \<and> decide_cleanup P False k now draw = DGiveUp)"
proof -
  let ?cap = "unwrap_or (max_attempts P) 10"
  have g: "(decide_cleanup P perm m now draw = DGiveUp) = (perm \<or> unat ?cap \<le> unat m + 1)" for perm m
    by (simp add: decide_cleanup_def Let_def cap_le_attempts default_cleanup_max_attempts_def)
  have "unat (word_sat_sub ?cap 1) < max 1 (unat ?cap)"
    "unat ?cap \<le> unat (word_sat_sub ?cap 1) + 1"
    by (simp_all add: unat_word_sat_sub)
  then show ?thesis using g by blast
qed

end
