(* ===== verification/Worker.thy ===== *)
theory Worker
  imports SourceFs Retry
begin

text \<open>
  The per-file worker (\<open>src/instance/worker.rs\<close>): destination labels, the fan-out
  deliver/verify pipeline with its per-destination retry state, the write-ahead
  completion and its retries, the terminal handling of an exhausted item, and crash
  recovery.

  A \<open>dyn Destination\<close> is a record of actions. The spawned tasks of one fan-out run one
  after the other here, in the order \<open>wo_order\<close> gives; they touch disjoint rows, and a
  store fault of one ends the round as the drop of the task set does. Metrics are
  not modelled, nor is the task that turns progress reports into events (its throttle
  is in theory \<open>Events\<close>).
\<close>

section \<open>Destinations and labels\<close>

record destination =
  d_kind :: string
  d_supports_resume :: bool
  d_deliver :: "work_item \<Rightarrow> resume_state option \<Rightarrow> (u64 \<Rightarrow> unit act) \<Rightarrow> delivered res act"
  d_verify :: "work_item \<Rightarrow> delivered \<Rightarrow> verify_policy \<Rightarrow> unit res act"
  d_abort :: "work_item \<Rightarrow> resume_state \<Rightarrow> unit res act"

record dest_slot =
  slot_label :: string
  slot_dest :: destination

fun label_from :: "string list \<Rightarrow> (string \<Rightarrow> nat) \<Rightarrow> string list \<Rightarrow> string list" where
  "label_from kinds seen [] = []"
| "label_from kinds seen (k # ks) =
     (if count_list kinds k = 1 then k # label_from kinds seen ks
      else (let n = seen k + 1 in
            (k @ ''#'' @ show_nat n) # label_from kinds (seen(k := n)) ks))"

definition label_destinations :: "destination list \<Rightarrow> string list" where
  "label_destinations ds =
     (let kinds = List.map d_kind ds in label_from kinds (\<lambda>_. 0) kinds)"

section \<open>The worker\<close>

datatype on_exhausted = RetainInPlace | Quarantine

record completion_cfg =
  co_on_success :: on_success
  co_archive_dir :: "path option"
  co_on_exhausted :: on_exhausted
  co_failed_dir :: "path option"
  co_on_collision :: collision
  co_verify :: verify_policy

record 'h worker =
  wo_instance :: string
  wo_dests :: "dest_slot list"
  wo_completion :: completion_cfg
  wo_ingress_root :: path
  wo_retry :: retry_policy
  wo_digests :: "'h digests"
  wo_platform :: platform
  wo_serialize :: "json \<Rightarrow> bytes"
  wo_order :: "dest_slot list \<Rightarrow> dest_slot list"

definition new_multi ::
  "string \<Rightarrow> destination list \<Rightarrow> completion_cfg \<Rightarrow> path \<Rightarrow> retry_policy \<Rightarrow> 'h digests \<Rightarrow> platform
   \<Rightarrow> (json \<Rightarrow> bytes) \<Rightarrow> (dest_slot list \<Rightarrow> dest_slot list) \<Rightarrow> 'h worker" where
  "new_multi inst ds co root rp D pf ser order =
     \<lparr>wo_instance = inst,
      wo_dests = List.map (\<lambda>(l, d). \<lparr>slot_label = l, slot_dest = d\<rparr>) (zip (label_destinations ds) ds),
      wo_completion = co, wo_ingress_root = root, wo_retry = rp, wo_digests = D,
      wo_platform = pf, wo_serialize = ser, wo_order = order\<rparr>"

definition dest_labels_joined :: "'h worker \<Rightarrow> string" where
  "dest_labels_joined W = str_join ''+'' (List.map slot_label (wo_dests W))"

definition abs_source :: "'h worker \<Rightarrow> work_item \<Rightarrow> path" where
  "abs_source W item = join_rel (wo_ingress_root W) (wi_relpath item)"

section \<open>Progress\<close>

definition progress_step_bytes :: u64 where
  "progress_step_bytes = 4 * 1024 * 1024"

definition set_last_progress :: "u64 \<Rightarrow> unit act" where
  "set_last_progress n w = (Some (), w\<lparr>w_last_progress := n\<rparr>)"

definition persist_progress :: "string \<Rightarrow> string \<Rightarrow> i64 \<Rightarrow> u64 \<Rightarrow> bool act" where
  "persist_progress inst rel clock done =
     bnd (get_world w_last_progress) (\<lambda>prev.
       if progress_step_bytes \<le> word_sat_sub done prev
       then seqn (set_last_progress done)
              (seqn (db_write (set_bytes_done inst rel done clock)) (ret True))
       else ret False)"

text \<open>\<open>percent_int\<close>, with the quotient rounded half away from zero.\<close>

definition percent_int :: "u64 \<Rightarrow> u64 \<Rightarrow> int" where
  "percent_int done fsize =
     (if fsize = 0 then (if done = 0 then 0 else 100)
      else min 100 (int ((200 * unat done + unat fsize) div (2 * unat fsize))))"

section \<open>One destination\<close>

datatype dest_outcome = OVerified | ORetry i64 string | OGiveUp string u32

definition verified_token :: "json \<Rightarrow> delivered option" where
  "verified_token j = Option.bind (jget ''verified'' j) delivered_from_json"

definition save_verified_checkpoint :: "string \<Rightarrow> string \<Rightarrow> string \<Rightarrow> delivered \<Rightarrow> unit act" where
  "save_verified_checkpoint inst rel label dl =
     (let checkpoint = \<lparr>rs_bytes_committed = dl_bytes dl,
                        rs_token = JObj [(''verified'', delivered_to_json dl)]\<rparr> in
      seqn (db_write (save_resume inst rel label checkpoint)) (ret ()))"

definition read_resume :: "string \<Rightarrow> string \<Rightarrow> string \<Rightarrow> resume_state option res act" where
  "read_resume inst rel label = db_read (\<lambda>d. Inr (load_resume inst rel label d))"

text \<open>Abort what a checkpoint records, then drop the checkpoint; both best effort.\<close>

definition abort_and_clear_resume :: "string \<Rightarrow> string \<Rightarrow> destination \<Rightarrow> work_item \<Rightarrow> unit act" where
  "abort_and_clear_resume inst label dest item =
     bnd (read_resume inst (wi_relpath item) label) (\<lambda>r.
       seqn (case r of
               Inr (Some resume) \<Rightarrow> seqn (d_abort dest item resume) (ret ())
             | _ \<Rightarrow> ret ())
         (seqn (db_write (clear_resume inst (wi_relpath item) label)) (ret ())))"

definition deliver_and_verify ::
  "destination \<Rightarrow> work_item \<Rightarrow> resume_state option \<Rightarrow> (u64 \<Rightarrow> unit act) \<Rightarrow> verify_policy
   \<Rightarrow> delivered res act" where
  "deliver_and_verify dest item resume progress pol =
     try_act (d_deliver dest item resume progress) (\<lambda>dl.
     try_act (d_verify dest item dl pol) (\<lambda>_. ok dl))"

definition dest_success ::
  "'h worker \<Rightarrow> string \<Rightarrow> work_item \<Rightarrow> i64 \<Rightarrow> delivered \<Rightarrow> (string \<times> dest_outcome) res act" where
  "dest_success W label item now dl =
     seqn (save_verified_checkpoint (wo_instance W) (wi_relpath item) label dl)
       (try_act (db_write (set_dest_phase (wo_instance W) (wi_relpath item) label DVerified now)) (\<lambda>_.
        seqn (emit_event (ReplicationCompleted (wi_relpath item) (wi_size item) label (dl_bytes dl)))
          (ok (label, OVerified))))"

definition report_denied :: "string \<Rightarrow> repl_error \<Rightarrow> i64 \<Rightarrow> unit act" where
  "report_denied label e now =
     (if is_permission_denied e
      then bnd (log_permission label PermissionDeniedKind now) (\<lambda>b.
             if b then emit_event (PermissionDeniedEvent label (role_as_str Egress) (error_text e)) else ret ())
      else ret ())"

definition dest_failure ::
  "'h worker \<Rightarrow> dest_slot \<Rightarrow> work_item \<Rightarrow> i64 \<Rightarrow> u32 \<Rightarrow> repl_error \<Rightarrow> (string \<times> dest_outcome) res act" where
  "dest_failure W slot item now attempts_so_far e =
     (let label = slot_label slot; rel = wi_relpath item; inst = wo_instance W;
          attempt = word_sat_add attempts_so_far 1; err_str = error_text e in
      seqn (report_denied label e now)
        (bnd draw_rng (\<lambda>draw.
         case decide (wo_retry W) (item\<lparr>wi_attempts := attempts_so_far\<rparr>) (is_permanent e) now draw of
           DRetry t \<Rightarrow>
             try_act (db_write (record_dest_attempt inst rel label err_str DPending t now)) (\<lambda>_.
             seqn (emit_event (ReplicationFailed rel label attempt err_str (Some t)))
               (ok (label, ORetry t err_str)))
         | DGiveUp \<Rightarrow>
             try_act (db_write (record_dest_attempt inst rel label err_str DExhausted now now)) (\<lambda>_.
             seqn (abort_and_clear_resume inst label (slot_dest slot) item)
               (seqn (emit_event (RetriesExhausted rel label attempt err_str))
                 (ok (label, OGiveUp err_str attempt)))))))"

definition run_one_dest ::
  "'h worker \<Rightarrow> dest_slot \<Rightarrow> work_item \<Rightarrow> i64 \<Rightarrow> u32 \<Rightarrow> (string \<times> dest_outcome) res act" where
  "run_one_dest W slot item now attempts_so_far =
     (let label = slot_label slot; rel = wi_relpath item; inst = wo_instance W in
      try_act (read_resume inst rel label) (\<lambda>resume.
      seqn (emit_event (ReplicationStarted rel (wi_size item) label (word_sat_add attempts_so_far 1)))
        (seqn (set_last_progress 0)
          (bnd (deliver_and_verify (slot_dest slot) item resume
                  (\<lambda>n. seqn (persist_progress inst rel now n) (ret ())) (co_verify (wo_completion W))) (\<lambda>out.
           case out of
             Inr dl \<Rightarrow> dest_success W label item now dl
           | Inl e \<Rightarrow> dest_failure W slot item now attempts_so_far e)))))"

section \<open>Completion\<close>

fun first_checksum :: "string \<Rightarrow> string \<Rightarrow> dest_slot list \<Rightarrow> checksum act" where
  "first_checksum inst rel [] = ret NoChecksum"
| "first_checksum inst rel (s # ss) =
     bnd (read_resume inst rel (slot_label s)) (\<lambda>r.
       case r of
         Inr (Some resume) \<Rightarrow>
           (case verified_token (rs_token resume) of
              Some d \<Rightarrow> if dl_checksum d \<noteq> NoChecksum then ret (dl_checksum d) else first_checksum inst rel ss
            | None \<Rightarrow> first_checksum inst rel ss)
       | _ \<Rightarrow> first_checksum inst rel ss)"

definition delivered_checksum :: "'h worker \<Rightarrow> string \<Rightarrow> checksum act" where
  "delivered_checksum W rel = first_checksum (wo_instance W) rel (wo_dests W)"

definition finish_completed :: "'h worker \<Rightarrow> work_item \<Rightarrow> cleanup_done \<Rightarrow> i64 \<Rightarrow> item_state res act" where
  "finish_completed W item done now =
     (let inst = wo_instance W; rel = wi_relpath item in
      try_act (db_write (set_state inst rel Completed now)) (\<lambda>_.
      seqn (db_write (clear_resume_all inst rel))
        (seqn (db_write (clear_dest_states inst rel))
          (try_act (db_write (bump_stats inst \<lparr>sd_replicated = 1, sd_failed = 0,
                                              sd_bytes = u64_as_i64 (wi_size item)\<rparr>)) (\<lambda>_.
           seqn (emit_event (case done of
                               Deleted \<Rightarrow> FileDeleted rel
                             | Archived t \<Rightarrow> FileArchived rel (map_option path_display t)))
             (ok Completed))))))"

definition record_cleanup_failure ::
  "'h worker \<Rightarrow> work_item \<Rightarrow> string \<Rightarrow> repl_error \<Rightarrow> i64 \<Rightarrow> item_state res act" where
  "record_cleanup_failure W item action e now =
     (let inst = wo_instance W; rel = wi_relpath item; err_str = error_text e;
          attempts = word_sat_add (wi_cleanup_attempts item) 1 in
      bnd draw_rng (\<lambda>draw.
      case decide_cleanup (wo_retry W) (is_permanent e) (wi_cleanup_attempts item) now draw of
        DRetry t \<Rightarrow>
          try_act (db_write (record_cleanup_attempt inst rel err_str CleanupFailed t now)) (\<lambda>_.
          ok CleanupFailed)
      | DGiveUp \<Rightarrow>
          try_act (db_write (record_cleanup_attempt inst rel err_str CleanupFailed cleanup_no_retry now)) (\<lambda>_.
          seqn (emit_event (FileCleanupFailed rel action attempts err_str)) (ok CleanupFailed))))"

definition cleanup_ctx_of :: "'h worker \<Rightarrow> work_item \<Rightarrow> checksum \<Rightarrow> cleanup_ctx" where
  "cleanup_ctx_of W item ck =
     (let co = wo_completion W in
      \<lparr>cx_on_success = co_on_success co, cx_src = abs_source W item,
       cx_archive_dir = co_archive_dir co, cx_relpath = wi_relpath item,
       cx_collision = co_on_collision co, cx_verify = co_verify co,
       cx_expected_size = wi_size item, cx_expected_checksum = ck\<rparr>)"

definition run_cleanup :: "'h worker \<Rightarrow> work_item \<Rightarrow> i64 \<Rightarrow> item_state res act" where
  "run_cleanup W item now =
     try_act (db_write (set_state (wo_instance W) (wi_relpath item) CleanupPending now)) (\<lambda>_.
     bnd (delivered_checksum W (wi_relpath item)) (\<lambda>ck.
     bnd (apply_success_action (wo_digests W) (wo_platform W) (cleanup_ctx_of W item ck)) (\<lambda>out.
       case out of
         Inr done \<Rightarrow> finish_completed W item done now
       | Inl e \<Rightarrow> record_cleanup_failure W item (cleanup_action (co_on_success (wo_completion W))) e now)))"

definition complete_verified :: "'h worker \<Rightarrow> work_item \<Rightarrow> i64 \<Rightarrow> item_state res act" where
  "complete_verified W item now = run_cleanup W item now"

definition drive_cleanup :: "'h worker \<Rightarrow> i64 \<Rightarrow> bool \<Rightarrow> unit res act" where
  "drive_cleanup W now redrive_all =
     try_act (db_read (list_by_state (wo_instance W) CleanupPending)) (\<lambda>pending.
     try_act (db_read (list_by_state (wo_instance W) CleanupFailed)) (\<lambda>failed.
     for_each (\<lambda>it. try_act (run_cleanup W (it\<lparr>wi_abs_source := abs_source W it\<rparr>) now) (\<lambda>_. ok ()))
       (pending @ filter (\<lambda>it. redrive_all \<or> wi_next_attempt_at it \<le> now) failed)))"

section \<open>Exhaustion\<close>

definition finish_exhausted ::
  "'h worker \<Rightarrow> work_item \<Rightarrow> string \<Rightarrow> u32 \<Rightarrow> i64 \<Rightarrow> item_state res act" where
  "finish_exhausted W item last_error attempts now =
     (let inst = wo_instance W; rel = wi_relpath item; co = wo_completion W in
      case co_on_exhausted co of
        RetainInPlace \<Rightarrow>
          try_act (db_write (set_state inst rel Retained now)) (\<lambda>_. ok Retained)
      | Quarantine \<Rightarrow>
          seqn (apply_quarantine_action (wo_serialize W) (co_failed_dir co) (abs_source W item)
                  (co_on_collision co)
                  \<lparr>qx_instance = inst, qx_relpath = rel, qx_last_error = last_error,
                   qx_attempts = attempts, qx_first_seen = wi_discovered_at item, qx_last_try = now,
                   qx_destination = dest_labels_joined W, qx_bytes_done = wi_bytes_done item\<rparr>)
            (try_act (db_write (set_state inst rel Quarantined now)) (\<lambda>_.
             seqn (emit_event (FileQuarantined rel attempts last_error
                     (map_option (\<lambda>d. path_display (join_rel d rel)) (co_failed_dir co))))
               (ok Quarantined))))"

section \<open>The pipeline\<close>

definition state_of_label :: "Domain.dest_state list \<Rightarrow> string \<Rightarrow> Domain.dest_state option" where
  "state_of_label existing label = List.find (\<lambda>d. ds_dest d = label) existing"

definition phase_of :: "Domain.dest_state list \<Rightarrow> string \<Rightarrow> dest_phase" where
  "phase_of existing label =
     (case state_of_label existing label of Some d \<Rightarrow> ds_phase d | None \<Rightarrow> DPending)"

definition attempts_of :: "Domain.dest_state list \<Rightarrow> string \<Rightarrow> u32" where
  "attempts_of existing label =
     (case state_of_label existing label of Some d \<Rightarrow> ds_attempts d | None \<Rightarrow> 0)"

definition next_attempt_of :: "Domain.dest_state list \<Rightarrow> string \<Rightarrow> i64" where
  "next_attempt_of existing label =
     (case state_of_label existing label of Some d \<Rightarrow> ds_next_attempt_at d | None \<Rightarrow> 0)"

record fan_out_result =
  fo_verified :: "string list"
  fo_giveups :: "(string \<times> string \<times> u32) list"
  fo_retries :: "(string \<times> i64 \<times> string) list"

definition fold_outcome :: "string \<times> dest_outcome \<Rightarrow> fan_out_result \<Rightarrow> fan_out_result" where
  "fold_outcome lo acc =
     (case lo of
        (label, OVerified) \<Rightarrow> acc\<lparr>fo_verified := fo_verified acc @ [label]\<rparr>
      | (label, ORetry t e) \<Rightarrow> acc\<lparr>fo_retries := fo_retries acc @ [(label, t, e)]\<rparr>
      | (label, OGiveUp e a) \<Rightarrow> acc\<lparr>fo_giveups := fo_giveups acc @ [(label, e, a)]\<rparr>)"

fun fan_out ::
  "'h worker \<Rightarrow> work_item \<Rightarrow> i64 \<Rightarrow> (string \<Rightarrow> u32) \<Rightarrow> dest_slot list \<Rightarrow> fan_out_result
   \<Rightarrow> fan_out_result res act" where
  "fan_out W item now att [] acc = ok acc"
| "fan_out W item now att (s # ss) acc =
     try_act (run_one_dest W s item now (att (slot_label s))) (\<lambda>lo.
     fan_out W item now att ss (fold_outcome lo acc))"

definition max_u32 :: "u32 list \<Rightarrow> u32 \<Rightarrow> u32" where
  "max_u32 xs d = (if xs = [] then d else foldl max (hd xs) (tl xs))"

definition min_i64 :: "i64 list \<Rightarrow> i64 \<Rightarrow> i64" where
  "min_i64 xs d = (if xs = [] then d else foldl min (hd xs) (tl xs))"

definition give_up_item ::
  "'h worker \<Rightarrow> work_item \<Rightarrow> i64 \<Rightarrow> Domain.dest_state list \<Rightarrow> dest_slot list \<Rightarrow> fan_out_result
   \<Rightarrow> item_state res act" where
  "give_up_item W item now existing not_due fo =
     (let inst = wo_instance W; rel = wi_relpath item;
          attempts = max_u32 (List.map (\<lambda>(_, _, a). a) (fo_giveups fo)) (word_sat_add (wi_attempts item) 1);
          err_str = str_join ''; '' (List.map (\<lambda>(l, e, _). l @ '': '' @ e) (fo_giveups fo));
          newly = (\<exists>g\<in>set (fo_giveups fo).
                     \<not> (\<exists>d\<in>set existing. ds_dest d = fst g \<and> ds_phase d = DExhausted)) in
      seqn (for_each_ignore (\<lambda>(label, _, _).
              case List.find (\<lambda>s. slot_label s = label) (wo_dests W) of
                Some slot \<Rightarrow> abort_and_clear_resume inst (slot_label slot) (slot_dest slot) item
              | None \<Rightarrow> ret ()) (fo_retries fo))
        (seqn (for_each_ignore (\<lambda>slot. abort_and_clear_resume inst (slot_label slot) (slot_dest slot) item) not_due)
          (try_act (db_write (roll_up_item inst rel Exhausted attempts now (Some err_str) now)) (\<lambda>_.
           try_act (if newly
                    then db_write (bump_stats inst \<lparr>sd_replicated = 0, sd_failed = 1, sd_bytes = 0\<rparr>)
                    else ok ()) (\<lambda>_.
           finish_exhausted W item err_str attempts now)))))"

definition wait_item ::
  "'h worker \<Rightarrow> work_item \<Rightarrow> i64 \<Rightarrow> Domain.dest_state list \<Rightarrow> dest_slot list \<Rightarrow> fan_out_result
   \<Rightarrow> item_state res act" where
  "wait_item W item now existing not_due fo =
     (let next = min_i64 (List.map (\<lambda>(_, t, _). t) (fo_retries fo)
                          @ List.map (\<lambda>s. next_attempt_of existing (slot_label s)) not_due) now;
          last_error = (if fo_retries fo = [] then wi_last_error item
                        else Some (snd (snd (last (fo_retries fo))))) in
      try_act (db_write (roll_up_item (wo_instance W) (wi_relpath item) Failed
                           (word_sat_add (wi_attempts item) 1) next last_error now)) (\<lambda>_.
      ok Failed))"

definition run_pipeline :: "'h worker \<Rightarrow> work_item \<Rightarrow> i64 \<Rightarrow> item_state res act" where
  "run_pipeline W item now =
     try_act (db_read (dest_states (wo_instance W) (wi_relpath item))) (\<lambda>existing.
       let is_verified = (\<lambda>s. phase_of existing (slot_label s) = DVerified);
           verified = List.map slot_label (filter is_verified (wo_dests W));
           pending = filter (\<lambda>s. slot_label s \<notin> set verified) (wo_dests W);
           due = filter (\<lambda>s. next_attempt_of existing (slot_label s) \<le> now) pending;
           not_due = filter (\<lambda>s. \<not> next_attempt_of existing (slot_label s) \<le> now) pending in
       try_act (fan_out W item now (attempts_of existing) (wo_order W due)
                  \<lparr>fo_verified = verified, fo_giveups = [], fo_retries = []\<rparr>) (\<lambda>fo.
       if fo_giveups fo \<noteq> [] then give_up_item W item now existing not_due fo
       else if length (remdups (fo_verified fo)) = length (wo_dests W)
       then try_act (db_write (set_state (wo_instance W) (wi_relpath item) Verified now)) (\<lambda>_.
            complete_verified W item now)
       else wait_item W item now existing not_due fo))"

definition process_item :: "'h worker \<Rightarrow> work_item \<Rightarrow> i64 \<Rightarrow> item_state act" where
  "process_item W item now =
     bnd (run_pipeline W (item\<lparr>wi_abs_source := abs_source W item\<rparr>) now) (\<lambda>r.
       ret (case r of Inr s \<Rightarrow> s | Inl _ \<Rightarrow> wi_state item))"

section \<open>Crash recovery\<close>

definition reverify_one_dest :: "'h worker \<Rightarrow> dest_slot \<Rightarrow> work_item \<Rightarrow> i64 \<Rightarrow> bool res act" where
  "reverify_one_dest W slot it now =
     (let inst = wo_instance W; rel = wi_relpath it; label = slot_label slot in
      try_act (read_resume inst rel label) (\<lambda>resume.
        let (expected, policy) =
              (case Option.bind resume (\<lambda>r. verified_token (rs_token r)) of
                 Some d \<Rightarrow> (d, VChecksum)
               | None \<Rightarrow> (\<lparr>dl_bytes = wi_size it, dl_checksum = NoChecksum, dl_handle = JNull\<rparr>, VSize)) in
        bnd (d_verify (slot_dest slot) it expected policy) (\<lambda>v.
          case v of
            Inr _ \<Rightarrow> try_act (db_write (set_dest_phase inst rel label DVerified now)) (\<lambda>_. ok True)
          | Inl _ \<Rightarrow> try_act (db_write (set_dest_phase inst rel label DPending now)) (\<lambda>_.
                      seqn (db_write (clear_resume inst rel label)) (ok False)))))"

fun reverify_all :: "'h worker \<Rightarrow> dest_slot list \<Rightarrow> work_item \<Rightarrow> i64 \<Rightarrow> bool \<Rightarrow> bool res act" where
  "reverify_all W [] it now all_ok = ok all_ok"
| "reverify_all W (s # ss) it now all_ok =
     try_act (reverify_one_dest W s it now) (\<lambda>b. reverify_all W ss it now (all_ok \<and> b))"

definition recover_verified :: "'h worker \<Rightarrow> work_item \<Rightarrow> i64 \<Rightarrow> unit res act" where
  "recover_verified W it now =
     try_act (reverify_all W (wo_dests W) it now True) (\<lambda>all_ok.
       if all_ok then try_act (complete_verified W it now) (\<lambda>_. ok ())
       else db_write (set_state (wo_instance W) (wi_relpath it) Ready now))"

definition reverify_persisted_verified :: "'h worker \<Rightarrow> work_item \<Rightarrow> i64 \<Rightarrow> unit res act" where
  "reverify_persisted_verified W it now =
     try_act (db_read (dest_states (wo_instance W) (wi_relpath it))) (\<lambda>existing.
     for_each (\<lambda>slot.
       if (\<exists>d\<in>set existing. ds_dest d = slot_label slot \<and> ds_phase d = DVerified)
       then try_act (reverify_one_dest W slot it now) (\<lambda>_. ok ())
       else ok ()) (wo_dests W))"

definition recover_item :: "'h worker \<Rightarrow> i64 \<Rightarrow> work_item \<Rightarrow> unit res act" where
  "recover_item W now it =
     (case wi_state it of
        Verified \<Rightarrow> recover_verified W it now
      | CleanupPending \<Rightarrow> try_act (run_cleanup W it now) (\<lambda>_. ok ())
      | InProgress \<Rightarrow>
          try_act (reverify_persisted_verified W it now) (\<lambda>_.
          db_write (set_state (wo_instance W) (wi_relpath it) Ready now))
      | _ \<Rightarrow> ok ())"

definition recover :: "'h worker \<Rightarrow> i64 \<Rightarrow> unit res act" where
  "recover W now =
     try_act (db_read (recover_incomplete (wo_instance W))) (\<lambda>items.
     try_act (for_each (recover_item W now) items) (\<lambda>_.
     try_act (db_read (list_by_state (wo_instance W) Exhausted)) (\<lambda>exhausted.
     for_each (\<lambda>it. try_act (finish_exhausted W it (unwrap_or (wi_last_error it) ''exhausted'')
                              (wi_attempts it) now) (\<lambda>_. ok ())) exhausted)))"

end
