(* ===== verification/Source_Laws.thy ===== *)
theory Source_Laws
  imports SourceFs
begin

text \<open>
  What the source-side file operations guarantee under every fault and at every
  crash point: a move never loses the source's content nor an unrelated file, and
  the completion action reports success only for a source that is proven released.
\<close>

section \<open>Effects on the file system\<close>

text \<open>\<open>w\<close> differs from \<open>w0\<close> only in its files, which are \<open>F\<close>, and in what is still to be drawn.\<close>

definition files_are :: "(path \<Rightarrow> bytes option) \<Rightarrow> world \<Rightarrow> world \<Rightarrow> bool" where
  "files_are F w0 w =
     (w_files w = F \<and> w_db w = w_db w0 \<and> w_remote w = w_remote w0 \<and> w_events w = w_events w0
      \<and> w_perm w = w_perm w0 \<and> w_last_progress w = w_last_progress w0)"

lemma files_are_refl: "files_are (w_files w) w w"
  by (simp add: files_are_def)

lemma files_are_upd:
  "files_are F w0 w \<Longrightarrow> files_are F w0 (w\<lparr>w_fate := fs\<rparr>)"
  "files_are F w0 w \<Longrightarrow> files_are (F(p := c)) w0 (set_file p c (w\<lparr>w_fate := fs\<rparr>))"
  by (simp_all add: files_are_def set_file_def)

lemma wp_fs_exists:
  "files_are F w0 w \<Longrightarrow> Q (F p \<noteq> None) w \<Longrightarrow> wp (fs_exists p) Q C w"
  by (simp add: fs_exists_def wp_get_world files_are_def)

lemma wp_fs_remove_file:
  assumes "files_are F w0 w"
    and "\<And>w'. F p \<noteq> None \<Longrightarrow> files_are (F(p := None)) w0 w' \<Longrightarrow> Q (Inr ()) w'"
    and "\<And>e w'. files_are F w0 w' \<Longrightarrow> Q (Inl e) w'"
    and "\<And>w'. files_are F w0 w' \<Longrightarrow> C w'"
  shows "wp (fs_remove_file p) Q C w"
  unfolding fs_remove_file_def
proof (rule wp_effect)
  fix fs
  show "case (case w_files (w\<lparr>w_fate := fs\<rparr>) p of None \<Rightarrow> (Inl enoent, w\<lparr>w_fate := fs\<rparr>)
      | Some _ \<Rightarrow> (Inr (), set_file p None (w\<lparr>w_fate := fs\<rparr>))) of (x, w') \<Rightarrow> Q x w'"
  proof (cases "F p")
    case None
    then show ?thesis using assms(1,3) files_are_upd(1) by (simp add: files_are_def)
  next
    case (Some c)
    then show ?thesis using assms(2) [OF _ files_are_upd(2) [OF assms(1)]] assms(1) by (simp add: files_are_def)
  qed
  show "C (w\<lparr>w_fate := fs\<rparr>)" by (rule assms(4)) (rule files_are_upd [OF assms(1)])
  show "case (Inl e, w\<lparr>w_fate := fs\<rparr>) of (x, w') \<Rightarrow> Q x w'" for e and n :: nat
    by (simp add: assms(3) files_are_upd [OF assms(1)])
qed

lemma wp_fs_create_dir_all:
  assumes "files_are F w0 w" "\<And>r w'. files_are F w0 w' \<Longrightarrow> Q r w'" "\<And>w'. files_are F w0 w' \<Longrightarrow> C w'"
  shows "wp (fs_create_dir_all p) Q C w"
  unfolding fs_create_dir_all_def by (rule wp_effect) (simp_all add: assms files_are_upd [OF assms(1)])

lemma wp_fs_rename:
  assumes "files_are F w0 w" "F a = Some c" "a \<noteq> b"
    and "\<And>w'. files_are (F(a := None, b := Some c)) w0 w' \<Longrightarrow> Q (Inr ()) w'"
    and "\<And>e w'. files_are F w0 w' \<Longrightarrow> Q (Inl e) w'"
    and "\<And>w'. files_are F w0 w' \<Longrightarrow> C w'"
  shows "wp (fs_rename a b) Q C w"
  unfolding fs_rename_def
proof (rule wp_effect)
  fix fs
  have "files_are (F(a := None, b := Some c)) w0 (set_file b (Some c) (set_file a None (w\<lparr>w_fate := fs\<rparr>)))"
    using assms(1) by (simp add: files_are_def set_file_def)
  then show "case (case w_files (w\<lparr>w_fate := fs\<rparr>) a of None \<Rightarrow> (Inl enoent, w\<lparr>w_fate := fs\<rparr>)
      | Some c \<Rightarrow> (Inr (), set_file b (Some c) (set_file a None (w\<lparr>w_fate := fs\<rparr>)))) of (x, w') \<Rightarrow> Q x w'"
    using assms(1,2,4) by (simp add: files_are_def)
  show "C (w\<lparr>w_fate := fs\<rparr>)" by (rule assms(6)) (rule files_are_upd [OF assms(1)])
  show "case (Inl e, w\<lparr>w_fate := fs\<rparr>) of (x, w') \<Rightarrow> Q x w'" for e and n :: nat
    by (simp add: assms(5) files_are_upd [OF assms(1)])
qed

lemma wp_fs_copy:
  assumes "files_are F w0 w" "F a = Some c"
    and "\<And>w'. files_are (F(b := Some c)) w0 w' \<Longrightarrow> Q (Inr (of_nat (length c))) w'"
    and "\<And>e x w'. files_are (F(b := x)) w0 w' \<Longrightarrow> Q (Inl e) w'"
    and "\<And>w'. files_are F w0 w' \<Longrightarrow> C w'"
  shows "wp (fs_copy a b) Q C w"
  unfolding fs_copy_def
proof (rule wp_effect)
  fix fs
  have f: "w_files w = F" using assms(1) by (simp add: files_are_def)
  show "case (case w_files (w\<lparr>w_fate := fs\<rparr>) a of None \<Rightarrow> (Inl enoent, w\<lparr>w_fate := fs\<rparr>)
      | Some c \<Rightarrow> (Inr (of_nat (length c)), set_file b (Some c) (w\<lparr>w_fate := fs\<rparr>))) of (x, w') \<Rightarrow> Q x w'"
    using f assms(2) assms(3) [OF files_are_upd(2) [OF assms(1)]] by simp
  show "C (w\<lparr>w_fate := fs\<rparr>)" by (rule assms(5)) (rule files_are_upd [OF assms(1)])
  show "case (case (w_files (w\<lparr>w_fate := fs\<rparr>) a, n) of
      (Some c, Suc k) \<Rightarrow> (Inl e, set_file b (Some (take k c)) (w\<lparr>w_fate := fs\<rparr>))
      | _ \<Rightarrow> (Inl e, w\<lparr>w_fate := fs\<rparr>)) of (x, w') \<Rightarrow> Q x w'" for e n
  proof (cases n)
    case 0
    have "files_are (F(b := F b)) w0 (w\<lparr>w_fate := fs\<rparr>)" using files_are_upd(1) [OF assms(1)] by simp
    from assms(4) [OF this] show ?thesis using 0 by (simp split: option.splits)
  next
    case (Suc k)
    show ?thesis using f assms(2) Suc assms(4) [OF files_are_upd(2) [OF assms(1)]] by simp
  qed
qed

lemma wp_next_nanos:
  assumes "files_are F w0 w" "\<And>tag w'. files_are F w0 w' \<Longrightarrow> Q tag w'"
  shows "wp next_nanos Q C w"
  using assms by (auto simp: wp_def next_nanos_def files_are_def split: list.splits)

lemma wp_map_err:
  "wp (map_err f m) Q C = wp m (\<lambda>r. Q (case r of Inl e \<Rightarrow> Inl (f e) | Inr x \<Rightarrow> Inr x)) C"
  by (simp add: map_err_def wp_bnd wp_ret)

lemma wp_ok_err [wp_rules]: "wp (ok x) Q C = Q (Inr x)" "wp (err e) Q C = Q (Inl e)"
  by (simp_all add: ok_def err_def wp_ret)

section \<open>Moving a file\<close>

definition targets :: "path \<Rightarrow> path set" where
  "targets dst = insert dst (range (suffixed dst))"

definition temps :: "path \<Rightarrow> path set" where
  "temps dst = (\<Union>t\<in>targets dst. range (move_temp_path t))"

definition keeps_files ::
  "path \<Rightarrow> path \<Rightarrow> collision \<Rightarrow> (path \<Rightarrow> bytes option) \<Rightarrow> (path \<Rightarrow> bytes option) \<Rightarrow> bool" where
  "keeps_files src dst col F F' =
     (\<forall>p. F p \<noteq> None \<longrightarrow> p \<noteq> src \<longrightarrow> p \<notin> temps dst \<longrightarrow> \<not> (p = dst \<and> col = Overwrite) \<longrightarrow> F' p = F p)"

lemma keeps_files_refl [intro, simp]: "keeps_files src dst col F F"
  by (simp add: keeps_files_def)

lemma keeps_files_upd:
  "keeps_files src dst col F F' \<Longrightarrow>
   p = src \<or> p \<in> temps dst \<or> (p = dst \<and> col = Overwrite) \<or> F p = None \<Longrightarrow>
   keeps_files src dst col F (F'(p := x))"
  by (auto simp: keeps_files_def)

lemma first_free_Some:
  "first_free taken dst i n = Some p \<Longrightarrow> \<not> taken p \<and> (\<exists>k. p = suffixed dst k)"
  by (induction n arbitrary: i) (auto split: if_splits)

lemma move_temp_not_target: "move_temp_path t tag \<noteq> t"
proof (cases "path_file_name t")
  case None
  then have "t = [] \<or> last t = ''..''" by (auto simp: path_file_name_def split: if_splits)
  moreover have "last (move_temp_path t tag) \<noteq> ''..''" using None by (simp add: move_temp_path_def)
  moreover have "move_temp_path t tag \<noteq> []" by (simp add: move_temp_path_def)
  ultimately show ?thesis by auto
next
  case (Some s)
  then have "last t = s" "t \<noteq> []" by (auto simp: path_file_name_def split: if_splits)
  moreover have "length s < length (last (move_temp_path t tag))" using Some by (simp add: move_temp_path_def)
  ultimately show ?thesis by auto
qed

lemma wp_resolve_collision:
  assumes "files_are F w0 w"
    and "\<And>t F' w'. files_are F' w0 w' \<Longrightarrow> t \<in> targets dst \<Longrightarrow> F' t = None \<Longrightarrow>
           F' = F \<and> F t = None \<or> col = Overwrite \<and> t = dst \<and> F' = F(dst := None) \<Longrightarrow> Q (Inr t) w'"
    and "\<And>e w'. files_are F w0 w' \<Longrightarrow> Q (Inl e) w'"
    and "\<And>w'. files_are F w0 w' \<Longrightarrow> C w'"
  shows "wp (resolve_collision classify dst col) Q C w"
proof -
  have d: "dst \<in> targets dst" by (simp add: targets_def)
  show ?thesis
    unfolding resolve_collision_def wp_bnd
  proof (rule wp_fs_exists [OF assms(1)])
    show "wp (if \<not> F dst \<noteq> None then ok dst
       else (case col of
          Overwrite \<Rightarrow> try_act (map_err classify (fs_remove_file dst)) (\<lambda>_. ok dst)
        | CFail \<Rightarrow> err (Permanent (''destination already exists: '' @ path_display dst))
        | Suffix \<Rightarrow>
            bnd (get_world (\<lambda>w. first_free (\<lambda>p. w_files w p \<noteq> None) dst 1 9999)) (\<lambda>r.
              case r of Some cand \<Rightarrow> ok cand
                      | None \<Rightarrow> err (Permanent (''no free suffixed name for '' @ path_display dst))))) Q C w"
    proof (cases "F dst = None")
      case True
      then show ?thesis using assms(2) [OF assms(1) d] by (simp add: wp_ok_err)
    next
      case False
      show ?thesis
      proof (cases col)
        case Suffix
        have f: "w_files w = F" using assms(1) by (simp add: files_are_def)
        show ?thesis
        proof (cases "first_free (\<lambda>p. F p \<noteq> None) dst 1 9999")
          case None
          then show ?thesis using False Suffix f assms(1,3) by (simp add: wp_rules)
        next
          case (Some t)
          from first_free_Some [OF this] have "F t = None" "t \<in> targets dst" by (auto simp: targets_def)
          then show ?thesis using False Suffix f Some assms(2) [OF assms(1), of t] by (simp add: wp_rules)
        qed
      next
        case Overwrite
        have "wp (fs_remove_file dst)
            (\<lambda>r. case (case r of Inl e \<Rightarrow> Inl (classify e) | Inr x \<Rightarrow> Inr x) of
                 Inl e \<Rightarrow> Q (Inl e) | Inr x \<Rightarrow> wp (ok dst) Q C) C w"
          by (rule wp_fs_remove_file [OF assms(1)]) (use Overwrite d in \<open>auto simp: wp_ok_err intro: assms\<close>)
        then show ?thesis using False Overwrite by (simp add: wp_try wp_map_err)
      next
        case CFail
        then show ?thesis using False assms(1,3) by (simp add: wp_ok_err)
      qed
    qed
  qed
qed

lemma wp_discard_temp:
  assumes "files_are F w0 w"
    and "\<And>u. r = Inr u \<Longrightarrow> Q (Inr ()) w"
    and "\<And>e x w'. files_are (F(tmp := x)) w0 w' \<Longrightarrow> Q (Inl e) w'"
    and "\<And>w'. files_are F w0 w' \<Longrightarrow> C w'"
  shows "wp (discard_temp classify tmp r) Q C w"
proof (cases r)
  case (Inl e)
  have "Q (Inl e') w'" if "files_are F w0 w'" for e' w'
    using assms(3) [of "F tmp" w' e'] that by simp
  then show ?thesis
    unfolding discard_temp_def Inl sum.case wp_seqn wp_ok_err
    by (intro wp_fs_remove_file [OF assms(1)]) (auto intro: assms(3,4))
qed (use assms(2) in \<open>simp add: discard_temp_def wp_ok_err\<close>)

lemma wp_publish_temp:
  assumes "files_are F w0 w" "F tmp = Some c" "F target = None" "tmp \<noteq> target"
    and "\<And>w'. files_are (F(tmp := None, target := Some c)) w0 w' \<Longrightarrow> Q (Inr ()) w'"
    and "\<And>e x w'. files_are (F(tmp := x)) w0 w' \<Longrightarrow> Q (Inl e) w'"
    and "\<And>x w'. files_are (F(tmp := x)) w0 w' \<Longrightarrow> C w'"
  shows "wp (publish_temp classify tmp target) Q C w"
proof -
  have c: "C w'" if "files_are F w0 w'" for w'
    using assms(7) [of "F tmp" w'] that by simp
  have again: "wp (fs_rename tmp target) (\<lambda>r. wp (discard_temp classify tmp r) Q C) C w'"
    if "files_are F w0 w'" for w'
  proof (rule wp_fs_rename [OF that assms(2,4)])
    fix w2 assume "files_are (F(tmp := None, target := Some c)) w0 w2"
    then show "wp (discard_temp classify tmp (Inr ())) Q C w2"
      by (simp add: discard_temp_def wp_ok_err assms(5))
  next
    fix e w2 assume "files_are F w0 w2"
    then show "wp (discard_temp classify tmp (Inl e)) Q C w2"
      by (rule wp_discard_temp) (auto intro: assms(6) c)
  qed (rule c)
  have "wp (free_target classify tmp target) (\<lambda>r. case r of Inl e \<Rightarrow> Q (Inl e) | Inr _ \<Rightarrow>
      wp (bnd (fs_rename tmp target) (discard_temp classify tmp)) Q C) C w'" if "files_are F w0 w'" for w'
    unfolding free_target_def wp_bnd
    by (rule wp_fs_exists [OF that]) (simp add: assms(3) wp_ok_err again [OF that])
  then show ?thesis
    unfolding publish_temp_def wp_bnd
    by (intro wp_fs_rename [OF assms(1,2,4)]) (auto simp: wp_ok_err wp_try wp_bnd intro: assms(5) c)
qed

definition src_safe :: "path \<Rightarrow> path \<Rightarrow> bool" where
  "src_safe src dst = (src \<notin> targets dst \<union> temps dst)"

lemma temps_targets: "t \<in> targets dst \<Longrightarrow> move_temp_path t tag \<in> temps dst"
  by (auto simp: temps_def)

lemma wp_copy_fallback:
  assumes "files_are F w0 w" "F src = Some c" "F t = None"
    and "\<And>tag. move_temp_path t tag \<noteq> src"
    and "\<And>tag w'. files_are (F(move_temp_path t tag := None, t := Some c, src := None)) w0 w' \<Longrightarrow> Q (Inr t) w'"
    and "\<And>e tag x y w'. files_are (F(move_temp_path t tag := x, t := y)) w0 w' \<Longrightarrow> Q (Inl e) w'"
    and "\<And>tag x y w'. files_are (F(move_temp_path t tag := x, t := y)) w0 w' \<Longrightarrow> C w'"
  shows "wp (copy_fallback classify src t) Q C w"
proof -
  have st: "src \<noteq> t" using assms(2,3) by auto
  show ?thesis
    unfolding copy_fallback_def wp_bnd
  proof (rule wp_next_nanos [OF assms(1)])
    fix tag w1 assume w1: "files_are F w0 w1"
    define tmp where "tmp = move_temp_path t tag"
    have tmp: "tmp \<noteq> t" "tmp \<noteq> src" using move_temp_not_target assms(4) by (auto simp: tmp_def)
    have stop: "Q (Inl e) w'" "C w'" if "files_are (F(tmp := x)) w0 w'" for e x w'
    proof -
      have "F(tmp := x) = F(move_temp_path t tag := x, t := F t)"
        using tmp(1) by (auto simp: tmp_def)
      then show "Q (Inl e) w'" "C w'" using assms(6,7) that by metis+
    qed
    have none: "C w'" if "files_are F w0 w'" for w' using stop(2) [of "F tmp" w'] that by simp
    have last: "wp (try_act (map_err classify (fs_remove_file src)) (\<lambda>_. ok t)) Q C w3"
      if w3: "files_are (F(tmp := None, t := Some c)) w0 w3" for w3
      unfolding wp_try wp_map_err
      by (rule wp_fs_remove_file [OF w3])
        (use assms(5,6,7) [of tag, folded tmp_def] in \<open>auto simp: wp_ok_err\<close>)
    have publish: "wp (publish_temp classify tmp t) (\<lambda>r. case r of Inl e \<Rightarrow> Q (Inl e) | Inr _ \<Rightarrow>
        wp (try_act (map_err classify (fs_remove_file src)) (\<lambda>_. ok t)) Q C) C w2"
      if w2: "files_are (F(tmp := Some c)) w0 w2" for w2
      by (rule wp_publish_temp [OF w2]) (use tmp assms(3) last stop in auto)
    show "wp (let tmp = move_temp_path t tag in
     bnd (fs_copy src tmp) (\<lambda>r.
     try_act (discard_temp classify tmp (map_res (\<lambda>_. ()) r)) (\<lambda>_.
     try_act (publish_temp classify tmp t) (\<lambda>_.
     try_act (map_err classify (fs_remove_file src)) (\<lambda>_. ok t))))) Q C w1"
      unfolding Let_def tmp_def [symmetric] wp_bnd
    proof (rule wp_fs_copy [OF w1 assms(2)])
      fix w2 assume w2: "files_are (F(tmp := Some c)) w0 w2"
      show "wp (try_act (discard_temp classify tmp (map_res (\<lambda>_. ()) (Inr (of_nat (length c))))) (\<lambda>_.
         try_act (publish_temp classify tmp t) (\<lambda>_.
         try_act (map_err classify (fs_remove_file src)) (\<lambda>_. ok t)))) Q C w2"
        using publish [OF w2] by (simp add: wp_try discard_temp_def wp_ok_err)
    next
      fix e x w2 assume w2: "files_are (F(tmp := x)) w0 w2"
      show "wp (try_act (discard_temp classify tmp (map_res (\<lambda>_. ()) (Inl e))) (\<lambda>_.
         try_act (publish_temp classify tmp t) (\<lambda>_.
         try_act (map_err classify (fs_remove_file src)) (\<lambda>_. ok t)))) Q C w2"
        unfolding wp_try by (rule wp_discard_temp [OF w2]) (auto intro: stop)
    qed (rule none)
  qed
qed

text \<open>A move that does not succeed leaves the source where it was; a move that succeeds put it on
  a path that was free (or, under \<open>overwrite\<close>, on the freed target).\<close>

lemma wp_move_file:
  assumes "files_are F w0 w" "F src = Some c" "src_safe src dst"
    and "\<And>t F' w'. files_are F' w0 w' \<Longrightarrow> t \<in> targets dst \<Longrightarrow> F' t = Some c \<Longrightarrow> F' src = None \<Longrightarrow>
           keeps_files src dst col F F' \<Longrightarrow> F t = None \<or> (t = dst \<and> col = Overwrite) \<Longrightarrow> Q (Inr t) w'"
    and "\<And>e F' w'. files_are F' w0 w' \<Longrightarrow> F' src = Some c \<Longrightarrow> keeps_files src dst col F F' \<Longrightarrow> Q (Inl e) w'"
    and "\<And>F' w'. files_are F' w0 w' \<Longrightarrow> F' src = Some c \<Longrightarrow> keeps_files src dst col F F' \<Longrightarrow> C w'"
  shows "wp (move_file classify src dst col) Q C w"
proof -
  have start: "Q (Inl e) w'" "C w'" if "files_are F w0 w'" for e w'
    using assms(2,5,6) that by auto
  have move: "wp (rename_or_copy classify src t) Q C w'"
    if w': "files_are F' w0 w'" and t: "t \<in> targets dst" "F' t = None"
      and F': "F' = F \<and> F t = None \<or> col = Overwrite \<and> t = dst \<and> F' = F(dst := None)" for t F' w'
  proof -
    have ne: "src \<noteq> t" "F' src = Some c"
      using assms(2,3) t F' by (auto simp: src_safe_def targets_def)
    have k: "keeps_files src dst col F F'" using F' by (auto intro: keeps_files_upd)
    have free: "F t = None \<or> (t = dst \<and> col = Overwrite)" using F' by auto
    have tmp: "move_temp_path t tag \<in> temps dst" "move_temp_path t tag \<noteq> src"
        "move_temp_path t tag \<noteq> t" for tag
      using temps_targets [OF t(1)] assms(3) move_temp_not_target by (auto simp: src_safe_def)
    have kt: "keeps_files src dst col F (G(t := x))" if "keeps_files src dst col F G" for G x
      using that free by (auto intro: keeps_files_upd)
    have km: "keeps_files src dst col F (G(move_temp_path t tag := x))" if "keeps_files src dst col F G" for G x tag
      using that tmp(1) by (auto intro: keeps_files_upd)
    have ks: "keeps_files src dst col F (G(src := x))" if "keeps_files src dst col F G" for G x
      using that by (auto intro: keeps_files_upd)
    have stop: "Q (Inl e) w2" "C w2" if "files_are F' w0 w2" for e w2
      using assms(5,6) that ne(2) k by auto
    have copy: "wp (copy_fallback classify src t) Q C w2" if "files_are F' w0 w2" for w2
    proof (rule wp_copy_fallback [OF that ne(2) t(2) tmp(2)], goal_cases)
      case (1 tag w3)
      show ?case
        by (rule assms(4) [OF 1 t(1) _ _ ks [OF kt [OF km [OF k]]] free]) (use ne(1) in auto)
    next
      case (2 e tag x y w3)
      show ?case by (rule assms(5) [OF 2 _ kt [OF km [OF k]]]) (use ne tmp(2) in auto)
    next
      case (3 tag x y w3)
      show ?case by (rule assms(6) [OF 3 _ kt [OF km [OF k]]]) (use ne tmp(2) in auto)
    qed
    show ?thesis
      unfolding rename_or_copy_def wp_bnd
    proof (rule wp_fs_rename [OF w' ne(2,1)], goal_cases)
      case (1 w2)
      have "Q (Inr t) w2"
        by (rule assms(4) [OF 1 t(1) _ _ kt [OF ks [OF k]] free]) (use ne(1) in auto)
      then show ?case by (simp add: wp_ok_err)
    next
      case (2 e w2)
      then show ?case using copy by simp
    qed (rule stop)
  qed
  have body: "wp (try_act (resolve_collision classify dst col) (rename_or_copy classify src)) Q C w1"
    if w1: "files_are F w0 w1" for w1
    unfolding wp_try by (rule wp_resolve_collision [OF w1]) (auto intro: start move)
  show ?thesis
  proof (cases "path_parent dst")
    case None
    then show ?thesis using body [OF assms(1)] by (simp add: move_file_def create_parent_def wp_try wp_ok_err)
  next
    case (Some parent)
    have "wp (fs_create_dir_all parent) (\<lambda>r. case (case r of Inl e \<Rightarrow> Inl (classify e) | Inr x \<Rightarrow> Inr x) of
        Inl e \<Rightarrow> Q (Inl e)
      | Inr _ \<Rightarrow> wp (try_act (resolve_collision classify dst col) (rename_or_copy classify src)) Q C) C w"
      by (rule wp_fs_create_dir_all [OF assms(1)]) (auto intro: start body split: sum.split)
    then show ?thesis by (simp add: move_file_def create_parent_def wp_try wp_map_err Some)
  qed
qed

section \<open>The completion action\<close>

lemma wp_read_effect:
  assumes "files_are F w0 w"
    and "\<And>w'. files_are F w0 w' \<Longrightarrow> Q (case F p of None \<Rightarrow> Inl enoent | Some c \<Rightarrow> Inr (f c)) w'"
    and "\<And>e w'. files_are F w0 w' \<Longrightarrow> Q (Inl e) w'"
    and "\<And>w'. files_are F w0 w' \<Longrightarrow> C w'"
  shows "wp (effect (\<lambda>w. case w_files w p of None \<Rightarrow> (Inl enoent, w) | Some c \<Rightarrow> (Inr (f c), w))
            (\<lambda>e _ w. (Inl e, w))) Q C w"
proof (rule wp_effect)
  fix fs
  have "files_are F w0 (w\<lparr>w_fate := fs\<rparr>)" by (rule files_are_upd [OF assms(1)])
  then show "case (case w_files (w\<lparr>w_fate := fs\<rparr>) p of None \<Rightarrow> (Inl enoent, w\<lparr>w_fate := fs\<rparr>)
      | Some c \<Rightarrow> (Inr (f c), w\<lparr>w_fate := fs\<rparr>)) of (x, w') \<Rightarrow> Q x w'"
    using assms(2) [of "w\<lparr>w_fate := fs\<rparr>"] by (auto simp: files_are_def split: option.splits)
  show "C (w\<lparr>w_fate := fs\<rparr>)" by (rule assms(4)) (rule files_are_upd [OF assms(1)])
  show "case (Inl e, w\<lparr>w_fate := fs\<rparr>) of (x, w') \<Rightarrow> Q x w'" for e and n :: nat
    by (simp add: assms(3) files_are_upd [OF assms(1)])
qed

lemmas wp_fs_metadata_len = wp_read_effect [where f = "\<lambda>c. of_nat (length c) :: u64", folded fs_metadata_len_def]
lemmas wp_fs_open = wp_read_effect [where f = "\<lambda>c. c", folded fs_open_def]

lemma wp_hash_open_file:
  assumes "files_are F w0 w"
    and "\<And>w'. files_are F w0 w' \<Longrightarrow> Q (hash_reader D (List.map Inr (read_chunks content)) a) w'"
    and "\<And>e n w'. files_are F w0 w' \<Longrightarrow>
           Q (hash_reader D (List.map Inr (take n (read_chunks content)) @ [Inl e]) a) w'"
    and "\<And>w'. files_are F w0 w' \<Longrightarrow> C w'"
  shows "wp (hash_open_file D content a) Q C w"
  unfolding hash_open_file_def by (rule wp_effect) (simp_all add: assms files_are_upd [OF assms(1)])

lemma read_chunks_no_empty: "[] \<notin> set (read_chunks bs)"
proof (induction bs rule: read_chunks.induct)
  case (1 bs)
  then show ?case by (subst read_chunks.simps) auto
qed

lemma hash_loop_error:
  "[] \<notin> set cs \<Longrightarrow> hash_loop D (List.map Inr cs @ [Inl e]) h t = Inl e"
  by (induction cs arbitrary: h t) auto

lemma hash_loop_Inr: "\<exists>n s. hash_loop D (List.map Inr cs) h t = Inr (n, s)"
  by (induction cs arbitrary: h t) auto

definition file_checksum :: "'h digests \<Rightarrow> algorithm \<Rightarrow> bytes \<Rightarrow> checksum" where
  "file_checksum D a c =
     (case hash_reader D (List.map Inr (read_chunks c)) a of Inr (_, s) \<Rightarrow> s | Inl _ \<Rightarrow> NoChecksum)"

lemma hash_file_result:
  "\<exists>n. hash_reader D (List.map Inr (read_chunks c)) a = Inr (n, file_checksum D a c)"
  using hash_loop_Inr [of D "read_chunks c" "hasher_new D a" 0]
  by (auto simp: file_checksum_def hash_reader_def)

lemma hash_file_error:
  "hash_reader D (List.map Inr (take n (read_chunks c)) @ [Inl e]) a = Inl e"
  unfolding hash_reader_def
  by (rule hash_loop_error) (use read_chunks_no_empty [of c] in \<open>auto dest: in_set_takeD\<close>)

text \<open>What it takes for an archived copy to count as the file.\<close>

definition archived_ok :: "'h digests \<Rightarrow> cleanup_ctx \<Rightarrow> bytes \<Rightarrow> bool" where
  "archived_ok D cx c =
     (of_nat (length c) = cx_expected_size cx
      \<and> (cx_verify cx = VChecksum \<longrightarrow>
          (case checksum_algo (cx_expected_checksum cx) of
             None \<Rightarrow> True | Some a \<Rightarrow> verify_checksum (cx_expected_checksum cx) (file_checksum D a c) = Inr ())))"

lemma lift_mismatch_ok [simp]: "lift_mismatch r = Inr u \<longleftrightarrow> r = Inr u"
  by (cases r) (auto simp: lift_mismatch_def)

lemma lift_mismatch_Inr [simp]: "lift_mismatch (Inr u) = Inr u"
  by (simp add: lift_mismatch_def)

lemma wp_verify_archived:
  assumes "files_are F w0 w"
    and "\<And>c w'. F target = Some c \<Longrightarrow> archived_ok D cx c \<Longrightarrow> files_are F w0 w' \<Longrightarrow> Q (Inr ()) w'"
    and "\<And>e w'. files_are F w0 w' \<Longrightarrow> Q (Inl e) w'"
    and "\<And>w'. files_are F w0 w' \<Longrightarrow> C w'"
  shows "wp (verify_archived D pf target cx) Q C w"
proof -
  let ?hash = "\<lambda>content algo. try_act (map_err (classify_cleanup_io pf) (hash_open_file D content algo)) (\<lambda>(_, actual).
               ret (lift_mismatch (verify_checksum (cx_expected_checksum cx) actual)))"
  have size_ok: "verify_size (cx_expected_size cx) n = Inr u \<longleftrightarrow> cx_expected_size cx = n" for n u
    by (simp add: verify_size_def)
  have hash: "wp (?hash c algo) Q C w1"
    if w1: "files_are F w0 w1" and c: "F target = Some c" "of_nat (length c) = cx_expected_size cx"
      and algo: "checksum_algo (cx_expected_checksum cx) = Some algo" for w1 c algo
    unfolding wp_try wp_map_err
  proof (rule wp_hash_open_file [OF w1])
    fix w2 assume w2: "files_are F w0 w2"
    obtain n where n: "hash_reader D (List.map Inr (read_chunks c)) algo = Inr (n, file_checksum D algo c)"
      using hash_file_result by blast
    show "(case (case hash_reader D (List.map Inr (read_chunks c)) algo of
             Inl e \<Rightarrow> Inl (classify_cleanup_io pf e) | Inr x \<Rightarrow> Inr x) of
           Inl e \<Rightarrow> Q (Inl e)
         | Inr x \<Rightarrow> wp (case x of (_, actual) \<Rightarrow>
             ret (lift_mismatch (verify_checksum (cx_expected_checksum cx) actual))) Q C) w2"
    proof (cases "lift_mismatch (verify_checksum (cx_expected_checksum cx) (file_checksum D algo c))")
      case (Inl e)
      then show ?thesis using n w2 by (simp add: wp_ret assms(3))
    next
      case (Inr u)
      then have "archived_ok D cx c" using c(2) algo by (simp add: archived_ok_def)
      then show ?thesis using n w2 c(1) Inr by (simp add: wp_ret assms(2))
    qed
  next
    fix e n w2 assume "files_are F w0 w2"
    then show "(case (case hash_reader D (List.map Inr (take n (read_chunks c)) @ [Inl e]) algo of
             Inl e \<Rightarrow> Inl (classify_cleanup_io pf e) | Inr x \<Rightarrow> Inr x) of
           Inl e \<Rightarrow> Q (Inl e)
         | Inr x \<Rightarrow> wp (case x of (_, actual) \<Rightarrow>
             ret (lift_mismatch (verify_checksum (cx_expected_checksum cx) actual))) Q C) w2"
      by (simp add: hash_file_error assms(3))
  qed (rule assms(4))
  show ?thesis
    unfolding verify_archived_def wp_try wp_map_err
  proof (rule wp_fs_metadata_len [OF assms(1), where p = target], goal_cases)
    case (1 w1)
    show ?case
    proof (cases "F target")
      case None
      then show ?thesis using 1 by (simp add: assms(3))
    next
      case (Some c)
      show ?thesis
      proof (cases "cx_expected_size cx = of_nat (length c)")
        case False
        then have "\<exists>e. lift_mismatch (verify_size (cx_expected_size cx) (of_nat (length c))) = Inl e"
          by (simp add: verify_size_def lift_mismatch_def)
        then show ?thesis using Some 1 by (auto simp: wp_ret assms(3))
      next
        case True
        then have sz: "lift_mismatch (verify_size (cx_expected_size cx) (of_nat (length c))) = Inr ()"
          by (simp add: verify_size_def)
        show ?thesis
        proof (cases "cx_verify cx = VChecksum \<and> checksum_algo (cx_expected_checksum cx) \<noteq> None")
          case False
          then have "archived_ok D cx c" using True by (auto simp: archived_ok_def)
          then show ?thesis using False Some sz 1 by (auto simp: wp_rules wp_ok_err assms(2))
        next
          case hashed: True
          then obtain algo where algo: "checksum_algo (cx_expected_checksum cx) = Some algo" by auto
          have "wp (try_act (map_err (classify_cleanup_io pf) (fs_open target)) (\<lambda>content. ?hash content algo)) Q C w1"
            unfolding wp_try [of "map_err (classify_cleanup_io pf) (fs_open target)"] wp_map_err [of _ "fs_open target"]
            by (rule wp_fs_open [OF 1, where p = target])
              (use Some True algo in \<open>auto intro: assms(3,4) hash\<close>)
          then show ?thesis using Some sz hashed algo by (simp add: wp_ret)
        qed
      qed
    qed
  next
    case (2 e w1)
    then show ?case by (simp add: assms(3))
  qed (rule assms(4))
qed

text \<open>What a reported success proves about the file system before (\<open>F\<close>) and after (\<open>F'\<close>).\<close>

definition proven_done ::
  "'h digests \<Rightarrow> cleanup_ctx \<Rightarrow> cleanup_done \<Rightarrow> (path \<Rightarrow> bytes option) \<Rightarrow> (path \<Rightarrow> bytes option) \<Rightarrow> bool" where
  "proven_done D cx d F F' =
     (F' (cx_src cx) = None
      \<and> (case d of
           Deleted \<Rightarrow> cx_on_success cx = OnDelete \<and> F' = F(cx_src cx := None)
         | Archived (Some t) \<Rightarrow>
             cx_on_success cx = OnArchive
             \<and> (\<exists>c. F' t = Some c \<and> archived_ok D cx c
                    \<and> (F (cx_src cx) = Some c \<or> (F (cx_src cx) = None \<and> F' = F)))
         | Archived None \<Rightarrow> cx_on_success cx = OnArchive \<and> F (cx_src cx) = None \<and> F' = F))"

definition archive_dst :: "cleanup_ctx \<Rightarrow> path" where
  "archive_dst cx = join_rel (the (cx_archive_dir cx)) (cx_relpath cx)"

definition ctx_safe :: "cleanup_ctx \<Rightarrow> bool" where
  "ctx_safe cx = (cx_on_success cx = OnDelete \<or> cx_archive_dir cx = None \<or> src_safe (cx_src cx) (archive_dst cx))"

text \<open>The content \<open>c\<close> is still at the source or at one of the names the archive may give it.\<close>

definition content_kept :: "cleanup_ctx \<Rightarrow> bytes \<Rightarrow> (path \<Rightarrow> bytes option) \<Rightarrow> bool" where
  "content_kept cx c F' =
     (F' (cx_src cx) = Some c
      \<or> (cx_on_success cx = OnArchive \<and> (\<exists>t\<in>targets (archive_dst cx). F' t = Some c)))"

lemma wp_delete_action:
  assumes "files_are F w0 w" "cx_on_success cx = OnDelete"
    and "\<And>w'. files_are (F(cx_src cx := None)) w0 w' \<Longrightarrow> Q (Inr Deleted) w'"
    and "\<And>e w'. files_are F w0 w' \<Longrightarrow> Q (Inl e) w'"
    and "\<And>w'. files_are F w0 w' \<Longrightarrow> C w'"
  shows "wp (apply_success_action D pf cx) Q C w"
proof -
  let ?rest = "bnd (fs_exists (cx_src cx)) (\<lambda>ex.
            if ex then err (Transient (''delete returned success but the source is still present: ''
                                       @ path_display (cx_src cx)))
            else ok Deleted)"
  have rest: "wp ?rest Q C w'" if "files_are G w0 w'" "G = F \<or> G = F(cx_src cx := None)" for G w'
  proof (cases "G (cx_src cx) = None")
    case True
    then have "G = F(cx_src cx := None)" using that(2) by auto
    then show ?thesis using that(1) True
      unfolding wp_bnd by (intro wp_fs_exists [OF that(1)]) (simp add: wp_ok_err assms(3))
  next
    case False
    then have "G = F" using that(2) by auto
    then show ?thesis using that(1) False
      unfolding wp_bnd by (intro wp_fs_exists [OF that(1)]) (simp add: wp_ok_err assms(4))
  qed
  show ?thesis
    unfolding apply_success_action_def assms(2) on_success.case wp_bnd [of "fs_remove_file (cx_src cx)"]
    by (rule wp_fs_remove_file [OF assms(1)]) (auto simp: wp_try wp_ok_err intro: rest assms(4,5))
qed

lemma wp_archive_action:
  assumes "files_are F w0 w" "cx_on_success cx = OnArchive" "ctx_safe cx"
    and "\<And>d F' w'. files_are F' w0 w' \<Longrightarrow> proven_done D cx d F F' \<Longrightarrow>
           (F (cx_src cx) \<noteq> None \<longrightarrow> keeps_files (cx_src cx) (archive_dst cx) (cx_collision cx) F F') \<Longrightarrow>
           (\<And>c. F (cx_src cx) = Some c \<Longrightarrow> content_kept cx c F') \<Longrightarrow> Q (Inr d) w'"
    and "\<And>e F' w'. files_are F' w0 w' \<Longrightarrow>
           (\<And>c. F (cx_src cx) = Some c \<Longrightarrow> content_kept cx c F'
              \<and> keeps_files (cx_src cx) (archive_dst cx) (cx_collision cx) F F') \<Longrightarrow>
           (F (cx_src cx) = None \<Longrightarrow> F' = F) \<Longrightarrow> Q (Inl e) w'"
    and "\<And>F' w'. files_are F' w0 w' \<Longrightarrow>
           (\<And>c. F (cx_src cx) = Some c \<Longrightarrow> content_kept cx c F'
              \<and> keeps_files (cx_src cx) (archive_dst cx) (cx_collision cx) F F') \<Longrightarrow>
           (F (cx_src cx) = None \<Longrightarrow> F' = F) \<Longrightarrow> C w'"
  shows "wp (apply_success_action D pf cx) Q C w"
proof -
  let ?src = "cx_src cx"
  have here: "content_kept cx c F" if "F ?src = Some c" for c
    using that by (simp add: content_kept_def)
  have stop: "Q (Inl e) w'" "C w'" if "files_are F w0 w'" for e w'
    by (rule assms(5) [OF that]; simp add: here)
      (rule assms(6) [OF that]; simp add: here)
  show ?thesis
  proof (cases "cx_archive_dir cx")
    case None
    then show ?thesis using assms(1,2) by (simp add: apply_success_action_def wp_ok_err stop)
  next
    case (Some dir)
    let ?dst = "join_rel dir (cx_relpath cx)"
    have dst: "archive_dst cx = ?dst" by (simp add: archive_dst_def Some)
    have safe: "src_safe ?src ?dst" using assms(2,3) Some dst by (simp add: ctx_safe_def)
    have absent: "wp (bnd (fs_exists ?dst) (\<lambda>dex.
        if dex then try_act (verify_archived D pf ?dst cx) (\<lambda>_. ok (Archived (Some ?dst)))
        else ok (Archived None))) Q C w" if none: "F ?src = None"
      unfolding wp_bnd
    proof (rule wp_fs_exists [OF assms(1)])
      have "wp (try_act (verify_archived D pf ?dst cx) (\<lambda>_. ok (Archived (Some ?dst)))) Q C w"
        unfolding wp_try
      proof (rule wp_verify_archived [OF assms(1)])
        fix c w' assume "F ?dst = Some c" "archived_ok D cx c" "files_are F w0 w'"
        then show "(case Inr () of Inl e \<Rightarrow> Q (Inl e) | Inr _ \<Rightarrow> wp (ok (Archived (Some ?dst))) Q C) w'"
          using none assms(2) by (simp add: wp_ok_err) (rule assms(4), auto simp: proven_done_def)
      qed (simp_all add: stop)
      moreover have "Q (Inr (Archived None)) w"
        by (rule assms(4) [OF assms(1)]) (use none assms(2) in \<open>simp_all add: proven_done_def\<close>)
      ultimately show "wp (if F ?dst \<noteq> None
          then try_act (verify_archived D pf ?dst cx) (\<lambda>_. ok (Archived (Some ?dst)))
          else ok (Archived None)) Q C w" by (simp add: wp_ok_err)
    qed
    have present: "wp (try_act (move_file (classify_cleanup_io pf) ?src ?dst (cx_collision cx)) (\<lambda>target.
        try_act (verify_archived D pf target cx) (\<lambda>_. ok (Archived (Some target))))) Q C w"
      if c: "F ?src = Some c" for c
      unfolding wp_try [of "move_file (classify_cleanup_io pf) ?src ?dst (cx_collision cx)"]
    proof (rule wp_move_file [OF assms(1) c safe])
      fix t F' w'
      assume m: "files_are F' w0 w'" "t \<in> targets ?dst" "F' t = Some c" "F' ?src = None"
        "keeps_files ?src ?dst (cx_collision cx) F F'"
      have kept: "content_kept cx c F'" using m assms(2) dst by (auto simp: content_kept_def)
      have prov: "proven_done D cx (Archived (Some t)) F F'" if "archived_ok D cx c"
        using that m c assms(2) by (simp add: proven_done_def)
      have "wp (try_act (verify_archived D pf t cx) (\<lambda>_. ok (Archived (Some t)))) Q C w'"
        unfolding wp_try
      proof (rule wp_verify_archived [OF m(1)])
        fix c' w2 assume v: "F' t = Some c'" "archived_ok D cx c'" "files_are F' w0 w2"
        then have "proven_done D cx (Archived (Some t)) F F'" using prov m(3) by simp
        then have "Q (Inr (Archived (Some t))) w2"
          by (rule assms(4) [OF v(3)]) (use m(5) kept c dst in auto)
        then show "(case Inr () of Inl e \<Rightarrow> Q (Inl e) | Inr _ \<Rightarrow> wp (ok (Archived (Some t))) Q C) w2"
          by (simp add: wp_ok_err)
      next
        fix e w2 assume "files_are F' w0 w2"
        then have "Q (Inl e) w2" by (rule assms(5)) (use m(5) kept c dst in auto)
        then show "(case Inl e of Inl e \<Rightarrow> Q (Inl e) | Inr _ \<Rightarrow> wp (ok (Archived (Some t))) Q C) w2" by simp
      next
        fix w2 assume "files_are F' w0 w2"
        then show "C w2" by (rule assms(6)) (use m(5) kept c dst in auto)
      qed
      then show "(case Inr t of Inl e \<Rightarrow> Q (Inl e) | Inr target \<Rightarrow>
          wp (try_act (verify_archived D pf target cx) (\<lambda>_. ok (Archived (Some target)))) Q C) w'" by simp
    next
      fix e F' w' assume "files_are F' w0 w'" "F' ?src = Some c" "keeps_files ?src ?dst (cx_collision cx) F F'"
      then have "Q (Inl e) w'" by (intro assms(5)) (use c dst in \<open>auto simp: content_kept_def\<close>)
      then show "(case Inl e of Inl e \<Rightarrow> Q (Inl e) | Inr target \<Rightarrow>
          wp (try_act (verify_archived D pf target cx) (\<lambda>_. ok (Archived (Some target)))) Q C) w'" by simp
    next
      fix F' w' assume "files_are F' w0 w'" "F' ?src = Some c" "keeps_files ?src ?dst (cx_collision cx) F F'"
      then show "C w'" by (intro assms(6)) (use c dst in \<open>auto simp: content_kept_def\<close>)
    qed
    have "wp (if F ?src = None
        then bnd (fs_exists ?dst) (\<lambda>dex.
          if dex then try_act (verify_archived D pf ?dst cx) (\<lambda>_. ok (Archived (Some ?dst)))
          else ok (Archived None))
        else try_act (move_file (classify_cleanup_io pf) ?src ?dst (cx_collision cx)) (\<lambda>target.
          try_act (verify_archived D pf target cx) (\<lambda>_. ok (Archived (Some target))))) Q C w"
      using absent present by (cases "F ?src") simp_all
    then show ?thesis
      unfolding apply_success_action_def assms(2) Some on_success.case option.case Let_def
        wp_bnd [of "fs_exists ?src"]
      by (intro wp_fs_exists [OF assms(1)]) (simp split: if_splits)
  qed
qed

section \<open>Properties\<close>

text \<open>
  C3. Moving a file is atomic for its content, whatever operation fails and wherever
  the process dies: a move that reports success left the content at a target that was
  free (or that the overwrite policy freed) and nothing at the source; any other
  outcome leaves the source as it was; and no other existing file is touched, the
  database and the events included.
\<close>

theorem move_file_atomic:
  assumes "move_file classify src dst col w = (r, w')" "w_files w src = Some c" "src_safe src dst"
  shows "(case r of
        Some (Inr t) \<Rightarrow> t \<in> targets dst \<and> w_files w' t = Some c \<and> w_files w' src = None
          \<and> (w_files w t = None \<or> (t = dst \<and> col = Overwrite))
      | _ \<Rightarrow> w_files w' src = Some c)
    \<and> keeps_files src dst col (w_files w) (w_files w')
    \<and> w_db w' = w_db w \<and> w_events w' = w_events w"
proof -
  let ?frame = "\<lambda>w'. keeps_files src dst col (w_files w) (w_files w')
    \<and> w_db w' = w_db w \<and> w_events w' = w_events w"
  have "wp (move_file classify src dst col)
      (\<lambda>x w'. (case x of Inr t \<Rightarrow> t \<in> targets dst \<and> w_files w' t = Some c \<and> w_files w' src = None
          \<and> (w_files w t = None \<or> (t = dst \<and> col = Overwrite))
        | Inl _ \<Rightarrow> w_files w' src = Some c) \<and> ?frame w')
      (\<lambda>w'. w_files w' src = Some c \<and> ?frame w') w"
    by (rule wp_move_file [OF files_are_refl assms(2,3)]) (auto simp: files_are_def)
  from wp_run [OF this assms(1)] show ?thesis by (cases r) (auto split: sum.splits)
qed

definition ex_world :: "fate list \<Rightarrow> world" where
  "ex_world fs =
     \<lparr>w_db = open_in_memory,
      w_files = (\<lambda>p. if p = [''in'', ''a.csv''] then Some [1, 2, 3]
                      else if p = [''arch'', ''a.csv''] then Some [9] else None),
      w_mtime = (\<lambda>_. 0), w_remote = (\<lambda>_ _. None), w_uploads = (\<lambda>_ _. None), w_events = [], w_perm = [],
      w_rng = [], w_nanos = [], w_last_progress = 0, w_sent = 0, w_session = None, w_fate = fs\<rparr>"

lemma targets_parent: "path_file_name dst = Some n \<Longrightarrow> t \<in> targets dst \<union> temps dst \<Longrightarrow> path_parent t = path_parent dst"
  by (auto simp: targets_def temps_def suffixed_def path_parent_def path_file_name_def move_temp_path_def
      split: if_splits option.splits)

text \<open>A source outside the target directory is safe.\<close>

lemma src_safe_other_dir:
  "path_file_name dst = Some n \<Longrightarrow> path_parent src \<noteq> path_parent dst \<Longrightarrow> src_safe src dst"
  using targets_parent [of dst n src] by (auto simp: src_safe_def)

lemma ex_safe: "src_safe [''in'', ''a.csv''] [''arch'', ''a.csv'']"
  by (rule src_safe_other_dir) (simp_all add: path_file_name_def path_parent_def)

theorem move_file_atomic_witness:
  "\<exists>r w'. move_file classify_io [''in'', ''a.csv''] [''arch'', ''a.csv''] Suffix
        (ex_world [Fine, Fault enoent 0, Fault enoent 2]) = (r, w')
     \<and> (case r of Some (Inr t) \<Rightarrow> w_files w' t = Some [1, 2, 3]
                 | _ \<Rightarrow> w_files w' [''in'', ''a.csv''] = Some [1, 2, 3])
     \<and> w_files w' [''arch'', ''a.csv''] = Some [9]"
proof -
  let ?w = "ex_world [Fine, Fault enoent 0, Fault enoent 2]"
  obtain r w' where m: "move_file classify_io [''in'', ''a.csv''] [''arch'', ''a.csv''] Suffix ?w = (r, w')"
    by force
  have src: "w_files ?w [''in'', ''a.csv''] = Some [1, 2, 3]" by (simp add: ex_world_def)
  have other: "w_files ?w [''arch'', ''a.csv''] = Some [9]" by (simp add: ex_world_def)
  have notmp: "[''arch'', ''a.csv''] \<notin> temps [''arch'', ''a.csv'']"
    by (auto simp: temps_def move_temp_path_def targets_def suffixed_def path_file_name_def path_parent_def
        suffixed_name_def)
  show ?thesis
    using move_file_atomic [OF m src ex_safe] other notmp m
    by (intro exI [of _ r] exI [of _ w']) (auto simp: keeps_files_def split: option.splits sum.splits)
qed


definition ex_ctx :: "on_success \<Rightarrow> cleanup_ctx" where
  "ex_ctx a = \<lparr>cx_on_success = a, cx_src = [''in'', ''a.csv''], cx_archive_dir = Some [''arch''],
     cx_relpath = ''a.csv'', cx_collision = Suffix, cx_verify = VSize, cx_expected_size = 3,
     cx_expected_checksum = NoChecksum\<rparr>"

lemma ex_join: "join_rel [''arch''] ''a.csv'' = [''arch'', ''a.csv'']"
  by (simp add: join_rel_def rel_segments_def)

lemma ex_ctx_safe: "ctx_safe (ex_ctx a)"
  using ex_safe by (simp add: ctx_safe_def ex_ctx_def archive_dst_def ex_join)


lemma fates [simp]: "next_fate (w\<lparr>w_fate := f # fs\<rparr>) = (f, w\<lparr>w_fate := fs\<rparr>)"
  "w_fate w = [] \<Longrightarrow> next_fate w = (Fine, w)"
  by (simp_all add: next_fate_def)

lemma first_free_now: "\<not> taken (suffixed dst i) \<Longrightarrow> 0 < n \<Longrightarrow> first_free taken dst i n = Some (suffixed dst i)"
  by (cases n) simp_all

lemma digit_char_1: "digit_char (Suc 0) = CHR ''1''"
  by (simp add: digit_char_def) code_simp

lemma ex_suffixed: "suffixed [''arch'', ''a.csv''] (Suc 0) = [''arch'', ''a.1.csv'']"
  by (simp add: suffixed_def path_file_name_def suffixed_name_def stem_ext_def show_nat.simps digit_char_1)

definition ex_crashed :: world where
  "ex_crashed = (ex_world [])\<lparr>w_files := (w_files (ex_world []))
     ([''in'', ''a.csv''] := None, [''arch'', ''a.1.csv''] := Some [1, 2, 3])\<rparr>"

lemma ex_archive_crash:
  "apply_success_action sum_digests PUnix (ex_ctx OnArchive) (ex_world [Fine, Fine, Crash]) = (None, ex_crashed)"
  by (simp add: apply_success_action_def ex_ctx_def ex_join bnd_def fs_exists_def get_world_def
      try_act_def move_file_def create_parent_def path_parent_def map_err_def fs_create_dir_all_def effect_def next_fate_def
      ex_world_def ret_def ok_def resolve_collision_def first_free_now ex_suffixed rename_or_copy_def fs_rename_def
      set_file_def verify_archived_def fs_metadata_len_def ex_crashed_def Let_def)

text \<open>
  Recovery under the suffix policy judges the wrong file. When a file of the same
  name is already archived, the move lands under a suffixed name; if the process dies
  between that move and the completion record, the recovery pass, finding the source
  gone and the unsuffixed name present, checks the older file: although the new
  content is safely archived, the action fails permanently and the item is parked.
\<close>

theorem archive_recovery_checks_older_file:
  "\<exists>w1 m w2. apply_success_action sum_digests PUnix (ex_ctx OnArchive) (ex_world [Fine, Fine, Crash]) = (None, w1)
     \<and> w_files w1 [''arch'', ''a.1.csv''] = Some [1, 2, 3]
     \<and> w_files w1 [''in'', ''a.csv''] = None
     \<and> apply_success_action sum_digests PUnix (ex_ctx OnArchive) w1 = (Some (Inl (Permanent m)), w2)"
proof -
  have "\<exists>m. apply_success_action sum_digests PUnix (ex_ctx OnArchive) ex_crashed
      = (Some (Inl (Permanent m)), ex_crashed)"
    by (simp add: apply_success_action_def ex_ctx_def ex_join bnd_def fs_exists_def get_world_def
        try_act_def map_err_def effect_def next_fate_def ex_world_def ret_def ok_def
        verify_archived_def fs_metadata_len_def ex_crashed_def verify_size_def lift_mismatch_def
        permanent_mismatch_def Let_def)
  then show ?thesis using ex_archive_crash
    by (intro exI [of _ ex_crashed]) (auto simp: ex_crashed_def ex_world_def)
qed

section \<open>Quarantine\<close>

lemma wp_fs_write:
  assumes "files_are F w0 w" "\<And>r x w'. files_are (F(p := x)) w0 w' \<Longrightarrow> Q r w'" "\<And>w'. files_are F w0 w' \<Longrightarrow> C w'"
  shows "wp (fs_write p c) Q C w"
proof -
  have same: "Q r w'" if "files_are F w0 w'" for r w' using assms(2) [of "F p" w' r] that by simp
  show ?thesis
    unfolding fs_write_def
  proof (rule wp_effect)
    fix fs
    have "Q (Inr ()) (set_file p (Some c) (w\<lparr>w_fate := fs\<rparr>))"
      by (rule assms(2)) (rule files_are_upd(2) [OF assms(1)])
    then show "case (Inr (), set_file p (Some c) (w\<lparr>w_fate := fs\<rparr>)) of (x, w') \<Rightarrow> Q x w'" by simp
    show "C (w\<lparr>w_fate := fs\<rparr>)" by (rule assms(3)) (rule files_are_upd(1) [OF assms(1)])
    show "case (Inl e, w\<lparr>w_fate := fs\<rparr>) of (x, w') \<Rightarrow> Q x w'" for e and n :: nat
      by (simp add: same files_are_upd(1) [OF assms(1)])
  qed
qed

lemma wp_write_error_sidecar:
  assumes "files_are F w0 w" "\<And>x w'. files_are (F(sidecar_path dst := x)) w0 w' \<Longrightarrow> Q () w'"
    "\<And>w'. files_are F w0 w' \<Longrightarrow> C w'"
  shows "wp (write_error_sidecar ser dst qx) Q C w"
proof -
  have w: "wp (seqn (fs_write (sidecar_path dst) (ser (sidecar_json qx))) (ret ())) Q C w'"
    if "files_are F w0 w'" for w'
    unfolding wp_seqn wp_ret by (rule wp_fs_write [OF that]) (auto intro: assms(2,3))
  show ?thesis
  proof (cases "path_parent (sidecar_path dst)")
    case None
    then show ?thesis using w [OF assms(1)] by (simp add: write_error_sidecar_def wp_seqn wp_ret)
  next
    case (Some p)
    have "wp (fs_create_dir_all p) (\<lambda>_. wp (seqn (fs_write (sidecar_path dst) (ser (sidecar_json qx))) (ret ())) Q C) C w"
      by (rule wp_fs_create_dir_all [OF assms(1)]) (auto intro: w assms(3))
    then show ?thesis by (simp add: write_error_sidecar_def wp_seqn Some)
  qed
qed

text \<open>Quarantine keeps the content at the source or at a name below \<open>failedDir\<close>.\<close>

definition quarantined_safe :: "path \<Rightarrow> string \<Rightarrow> path option \<Rightarrow> bool" where
  "quarantined_safe src rel failed_dir =
     (case failed_dir of None \<Rightarrow> True
      | Some dir \<Rightarrow> src_safe src (join_rel dir rel)
          \<and> sidecar_path (join_rel dir rel) \<notin> insert src (targets (join_rel dir rel)))"

definition quarantine_kept :: "path \<Rightarrow> string \<Rightarrow> path option \<Rightarrow> bytes \<Rightarrow> (path \<Rightarrow> bytes option) \<Rightarrow> bool" where
  "quarantine_kept src rel failed_dir c F =
     (F src = Some c
      \<or> (case failed_dir of None \<Rightarrow> False | Some dir \<Rightarrow> \<exists>t\<in>targets (join_rel dir rel). F t = Some c))"

lemma wp_quarantine:
  assumes "files_are F w0 w" "quarantined_safe src (qx_relpath qx) failed_dir"
    and "\<And>F' w'. files_are F' w0 w' \<Longrightarrow>
           (\<And>c. F src = Some c \<Longrightarrow> quarantine_kept src (qx_relpath qx) failed_dir c F') \<Longrightarrow>
           (F src = None \<Longrightarrow> F' src = None) \<Longrightarrow> Q () w'"
    and "\<And>F' w'. files_are F' w0 w' \<Longrightarrow>
           (\<And>c. F src = Some c \<Longrightarrow> quarantine_kept src (qx_relpath qx) failed_dir c F') \<Longrightarrow>
           (F src = None \<Longrightarrow> F' src = None) \<Longrightarrow> C w'"
  shows "wp (apply_quarantine_action ser failed_dir src col qx) Q C w"
proof (cases failed_dir)
  case None
  have "Q () w"
    by (rule assms(3) [OF assms(1)]) (auto simp: quarantine_kept_def)
  then show ?thesis by (simp add: apply_quarantine_action_def None wp_ret)
next
  case (Some dir)
  let ?dst = "join_rel dir (qx_relpath qx)"
  have safe: "src_safe src ?dst" "sidecar_path ?dst \<notin> insert src (targets ?dst)"
    using assms(2) Some by (simp_all add: quarantined_safe_def)
  have side: "wp (write_error_sidecar ser ?dst qx) Q C w'"
    if w': "files_are G w0 w'" and k: "\<And>c. F src = Some c \<Longrightarrow> quarantine_kept src (qx_relpath qx) failed_dir c G"
      and n: "F src = None \<Longrightarrow> G src = None" for G w'
  proof (rule wp_write_error_sidecar [OF w'])
    fix x w2 assume "files_are (G(sidecar_path ?dst := x)) w0 w2"
    then show "Q () w2"
    proof (rule assms(3))
      fix c assume "F src = Some c"
      from k [OF this] safe(2) show "quarantine_kept src (qx_relpath qx) failed_dir c (G(sidecar_path ?dst := x))"
        by (auto simp: quarantine_kept_def Some)
    qed (use n safe(2) in auto)
  next
    fix w2 assume "files_are G w0 w2"
    then show "C w2" by (rule assms(4)) (use k n in auto)
  qed
  show ?thesis
  proof (cases "F src")
    case None
    have "wp (seqn (ret (Inr src)) (write_error_sidecar ser ?dst qx)) Q C w"
      unfolding wp_seqn wp_ret by (rule side [OF assms(1)]) (simp_all add: None)
    then show ?thesis
      unfolding apply_quarantine_action_def Some option.case Let_def wp_bnd
      by (intro wp_fs_exists [OF assms(1)]) (simp add: None)
  next
    case c: (Some c)
    have "wp (seqn (move_file classify_io src ?dst col) (write_error_sidecar ser ?dst qx)) Q C w"
      unfolding wp_seqn
    proof (rule wp_move_file [OF assms(1) c safe(1)])
      fix t F' w' assume "files_are F' w0 w'" "t \<in> targets ?dst" "F' t = Some c"
      then show "wp (write_error_sidecar ser ?dst qx) Q C w'"
        by (intro side) (auto simp: quarantine_kept_def Some c)
    next
      fix F' w' assume "files_are F' w0 w'" "F' src = Some c"
      then show "wp (write_error_sidecar ser ?dst qx) Q C w'"
        by (intro side) (auto simp: quarantine_kept_def Some c)
    next
      fix F' w' assume "files_are F' w0 w'" "F' src = Some c"
      then show "C w'" by (intro assms(4)) (auto simp: quarantine_kept_def Some c)
    qed
    then show ?thesis
      unfolding apply_quarantine_action_def Some option.case Let_def wp_bnd
      by (intro wp_fs_exists [OF assms(1)]) (simp add: c)
  qed
qed

end
