(* ===== verification/Local_Dest.thy ===== *)
theory Local_Dest
  imports Worker
begin

text \<open>
  The local-directory destination (\<open>src/dest/local.rs\<close>): stream the source into a
  hidden temporary file beside the target, hash what is written, publish it by an atomic
  rename; verify by re-reading; abort by removing the temporary file.

  The bytes of the source are those at the time it was opened. Throttling and \<open>fsync\<close> of
  the directory have no effect here. The hash behind the temporary name
  (\<open>DefaultHasher\<close>) is the argument \<open>tag\<close>.
\<close>

record local_dest =
  ld_root :: path
  ld_fsync :: bool
  ld_algo :: algorithm

definition local_new :: "path \<Rightarrow> bool \<Rightarrow> algorithm \<Rightarrow> local_dest" where
  "local_new p fsync algo = \<lparr>ld_root = p, ld_fsync = fsync, ld_algo = algo\<rparr>"

definition final_path :: "local_dest \<Rightarrow> work_item \<Rightarrow> path" where
  "final_path L it = join_rel (ld_root L) (wi_relpath it)"

text \<open>\<open>PathBuf::from\<close> on an absolute path.\<close>

definition path_of_string :: "string \<Rightarrow> path" where
  "path_of_string s = filter (\<lambda>seg. seg \<noteq> [] \<and> seg \<noteq> ''.'') (str_split (CHR ''/'') s)"

definition resume_temp_path :: "resume_state \<Rightarrow> path option" where
  "resume_temp_path r =
     map_option path_of_string (Option.bind (jget ''temp'' (rs_token r)) jas_str)"

section \<open>Writing\<close>

definition fs_create :: "path \<Rightarrow> (io_error + unit) act" where
  "fs_create p = effect (\<lambda>w. (Inr (), set_file p (Some []) w)) (\<lambda>e _ w. (Inl e, w))"

text \<open>\<open>write_all\<close>: a failed write may leave a prefix of the chunk behind.\<close>

definition fs_append :: "path \<Rightarrow> bytes \<Rightarrow> (io_error + unit) act" where
  "fs_append p c =
     effect (\<lambda>w. (Inr (), set_file p (Some (unwrap_or (w_files w p) [] @ c)) w))
            (\<lambda>e n w. (Inl e, set_file p (Some (unwrap_or (w_files w p) [] @ take n c)) w))"

text \<open>A read of the opened source, a flush, a \<open>sync_all\<close>: they only succeed or fail.\<close>

definition fs_touch :: "(io_error + unit) act" where
  "fs_touch = effect (\<lambda>w. (Inr (), w)) (\<lambda>e _ w. (Inl e, w))"

fun copy_loop ::
  "'h digests \<Rightarrow> path \<Rightarrow> (u64 \<Rightarrow> unit act) \<Rightarrow> bytes list \<Rightarrow> 'h hasher \<Rightarrow> u64 \<Rightarrow> ('h hasher \<times> u64) res act" where
  "copy_loop D temp progress [] h count =
     try_act (map_err classify_io fs_touch) (\<lambda>_. ok (h, count))"
| "copy_loop D temp progress (c # cs) h count =
     try_act (map_err classify_io fs_touch) (\<lambda>_.
     try_act (map_err classify_io (fs_append temp c)) (\<lambda>_.
     let count' = count + of_nat (length c) in
     seqn (progress count') (copy_loop D temp progress cs (hasher_update D h c) count')))"

definition local_stream ::
  "'h digests \<Rightarrow> local_dest \<Rightarrow> path \<Rightarrow> (u64 \<Rightarrow> unit act) \<Rightarrow> bytes \<Rightarrow> ('h hasher \<times> u64) res act" where
  "local_stream D L temp progress content =
     try_act (copy_loop D temp progress (read_chunks content) (hasher_new D (ld_algo L)) 0) (\<lambda>out.
     try_act (map_err classify_io fs_touch) (\<lambda>_.
     try_act (if ld_fsync L then map_err classify_io fs_touch else ok ()) (\<lambda>_. ok out)))"

definition local_publish :: "path \<Rightarrow> path \<Rightarrow> unit res act" where
  "local_publish temp final =
     bnd (fs_rename temp final) (\<lambda>r.
       case r of
         Inr _ \<Rightarrow> ok ()
       | Inl e \<Rightarrow>
           bnd (fs_exists final) (\<lambda>ex.
             if ex
             then try_act (map_err classify_io (fs_remove_file final)) (\<lambda>_.
                  try_act (map_err classify_io (fs_rename temp final)) (\<lambda>_. ok ()))
             else seqn (fs_remove_file temp) (err (classify_io e))))"

definition local_deliver ::
  "'h digests \<Rightarrow> (work_item \<Rightarrow> u64) \<Rightarrow> local_dest \<Rightarrow> work_item \<Rightarrow> resume_state option
   \<Rightarrow> (u64 \<Rightarrow> unit act) \<Rightarrow> delivered res act" where
  "local_deliver D tag L it resume progress =
     (let final = final_path L it; temp = temp_path_for final (tag it) in
      try_act (create_parent classify_io final) (\<lambda>_.
      seqn (case Option.bind resume resume_temp_path of
              None \<Rightarrow> ret () | Some prev \<Rightarrow> seqn (fs_remove_file prev) (ret ()))
        (try_act (map_err classify_io (fs_open (wi_abs_source it))) (\<lambda>content.
         try_act (map_err classify_io (fs_create temp)) (\<lambda>_.
         bnd (local_stream D L temp progress content) (\<lambda>copied.
           case copied of
             Inl e \<Rightarrow> seqn (fs_remove_file temp) (err e)
           | Inr (h, count) \<Rightarrow>
               try_act (local_publish temp final) (\<lambda>_.
               ok \<lparr>dl_bytes = count, dl_checksum = hasher_finish D h,
                   dl_handle = JObj [(''path'', JStr (path_display final))]\<rparr>)))))))"

section \<open>Verifying and aborting\<close>

definition local_verify ::
  "'h digests \<Rightarrow> local_dest \<Rightarrow> work_item \<Rightarrow> delivered \<Rightarrow> verify_policy \<Rightarrow> unit res act" where
  "local_verify D L it dl pol =
     (let final = final_path L it in
      case pol of
        VNone \<Rightarrow> ok ()
      | VSize \<Rightarrow>
          try_act (map_err classify_io (fs_metadata_len final)) (\<lambda>len.
          ret (verify_size (dl_bytes dl) len))
      | VChecksum \<Rightarrow>
          (let algo = unwrap_or (checksum_algo (dl_checksum dl)) (ld_algo L) in
           try_act (map_err classify_io (fs_open final)) (\<lambda>content.
           try_act (map_err classify_io (hash_open_file D content algo)) (\<lambda>(_, actual).
           ret (verify_checksum (dl_checksum dl) actual)))))"

definition local_abort ::
  "(work_item \<Rightarrow> u64) \<Rightarrow> local_dest \<Rightarrow> work_item \<Rightarrow> resume_state \<Rightarrow> unit res act" where
  "local_abort tag L it resume =
     seqn (case resume_temp_path resume of
             None \<Rightarrow> ret () | Some prev \<Rightarrow> seqn (fs_remove_file prev) (ret ()))
       (seqn (fs_remove_file (temp_path_for (final_path L it) (tag it))) (ok ()))"

definition local_destination :: "'h digests \<Rightarrow> (work_item \<Rightarrow> u64) \<Rightarrow> local_dest \<Rightarrow> destination" where
  "local_destination D tag L =
     \<lparr>d_kind = ''local'', d_supports_resume = True,
      d_deliver = local_deliver D tag L, d_verify = local_verify D L, d_abort = local_abort tag L\<rparr>"

end
