(* ===== verification/Frames.thy ===== *)
theory Frames
  imports Worker Source_Laws Local_Dest
begin

text \<open>
  Frame reasoning for the worker: \<open>frames R m\<close> says that \<open>m\<close> relates its start to every
  point where it can stop by \<open>R\<close>. The relation \<open>kept S\<close> is what a destination may not
  change while it works: the files of \<open>S\<close>, the events, the item states, the phases and
  the statistics. The locale \<open>worker_env\<close> collects what the worker relies on.
\<close>

named_theorems framing "rules for frames"

definition frames :: "(world \<Rightarrow> world \<Rightarrow> bool) \<Rightarrow> 'a act \<Rightarrow> bool" where
  "frames R m = (\<forall>w. wp m (\<lambda>_. R w) (R w) w)"

lemma framesI: "(\<And>w. wp m (\<lambda>_. R w) (R w) w) \<Longrightarrow> frames R m"
  by (simp add: frames_def)

lemma framesD: "frames R m \<Longrightarrow> wp m (\<lambda>_. R w) (R w) w"
  by (simp add: frames_def)

section \<open>What a destination keeps\<close>

definition db_frame :: "db \<Rightarrow> db \<Rightarrow> bool" where
  "db_frame d d' =
     ((db_ok d \<longrightarrow> db_ok d') \<and> db_dests d' = db_dests d \<and> db_stats d' = db_stats d
      \<and> (\<forall>i r. state_at i r d' = state_at i r d)
      \<and> (\<forall>i r. (item_at i r d' = None) = (item_at i r d = None)))"

text \<open>A checkpoint may name a temporary file to remove; it must not be one of \<open>S\<close>.\<close>

definition token_safe :: "path set \<Rightarrow> json \<Rightarrow> bool" where
  "token_safe S j = (case Option.bind (jget ''temp'' j) jas_str of None \<Rightarrow> True | Some s \<Rightarrow> path_of_string s \<notin> S)"

definition tokens_safe :: "path set \<Rightarrow> db \<Rightarrow> bool" where
  "tokens_safe S d = (\<forall>r\<in>set (db_resume d). token_safe S (rs_token (rr_blob r)))"

definition kept :: "path set \<Rightarrow> world \<Rightarrow> world \<Rightarrow> bool" where
  "kept S w w' =
     (tokens_safe S (w_db w) \<longrightarrow>
        (\<forall>p\<in>S. w_files w' p = w_files w p) \<and> w_events w' = w_events w \<and> db_frame (w_db w) (w_db w')
        \<and> tokens_safe S (w_db w'))"

lemma db_frame_refl [simp]: "db_frame d d"
  by (simp add: db_frame_def)

lemma db_frame_trans: "db_frame a b \<Longrightarrow> db_frame b c \<Longrightarrow> db_frame a c"
  by (simp add: db_frame_def)

lemma kept_refl [simp]: "kept S w w"
  by (simp add: kept_def)

lemma kept_trans: "kept S a b \<Longrightarrow> kept S b c \<Longrightarrow> kept S a c"
  by (auto simp: kept_def intro: db_frame_trans)

lemma kept_upd [simp]:
  "kept S w (w'\<lparr>w_fate := fs\<rparr>) = kept S w w'" "kept S w (w'\<lparr>w_rng := x1\<rparr>) = kept S w w'"
  "kept S w (w'\<lparr>w_nanos := x2\<rparr>) = kept S w w'" "kept S w (w'\<lparr>w_perm := x3\<rparr>) = kept S w w'"
  "kept S w (w'\<lparr>w_last_progress := x4\<rparr>) = kept S w w'" "kept S w (w'\<lparr>w_remote := x5\<rparr>) = kept S w w'"
  "kept S w (w'\<lparr>w_mtime := x6\<rparr>) = kept S w w'" "kept S w (w'\<lparr>w_uploads := x7\<rparr>) = kept S w w'"
  "kept S w (w'\<lparr>w_sent := x8\<rparr>) = kept S w w'" "kept S w (w'\<lparr>w_session := x9\<rparr>) = kept S w w'"
  by (simp_all add: kept_def)

lemma kept_db:
  "db_frame (w_db w) d \<Longrightarrow> (tokens_safe S (w_db w) \<Longrightarrow> tokens_safe S d) \<Longrightarrow> kept S w (w\<lparr>w_db := d\<rparr>)"
  by (simp add: kept_def)

lemma kept_file: "p \<notin> S \<Longrightarrow> kept S w (set_file p c w)"
  by (auto simp: kept_def set_file_def)

text \<open>The store operations a transfer may issue.\<close>

lemma db_frame_ops [framing]:
  "db_frame d (save_resume i r t rs d)" "db_frame d (clear_resume i r t d)"
  "db_frame d (clear_resume_all i r d)" "db_frame d (set_bytes_done i r b now d)"
proof -
  have "db_dests (save_resume i r t rs d) = db_dests d" "db_stats (save_resume i r t rs d) = db_stats d"
    by (simp_all add: save_resume_def)
  then show "db_frame d (save_resume i r t rs d)"
    by (simp add: db_frame_def store_view db_ok_save_resume)
  have "db_dests (clear_resume i r t d) = db_dests d" "db_stats (clear_resume i r t d) = db_stats d"
    by (simp_all add: clear_resume_def)
  then show "db_frame d (clear_resume i r t d)"
    by (simp add: db_frame_def store_view db_ok_delete)
  have "db_dests (clear_resume_all i r d) = db_dests d" "db_stats (clear_resume_all i r d) = db_stats d"
    by (simp_all add: clear_resume_all_def)
  then show "db_frame d (clear_resume_all i r d)"
    by (simp add: db_frame_def store_view db_ok_delete)
  have "db_stats (set_bytes_done i r b now d) = db_stats d"
    by (simp add: set_bytes_done_def store_view)
  then show "db_frame d (set_bytes_done i r b now d)"
    by (simp add: db_frame_def store_view db_ok_item_ops)
qed

lemma tokens_safe_ops [framing]:
  "tokens_safe S d \<Longrightarrow> tokens_safe S (clear_resume i r t d)"
  "tokens_safe S d \<Longrightarrow> tokens_safe S (clear_resume_all i r d)"
  "tokens_safe S d \<Longrightarrow> tokens_safe S (set_bytes_done i r b now d)"
  by (auto simp: tokens_safe_def clear_resume_def clear_resume_all_def t_delete_def set_bytes_done_def update_item_def)

lemma tokens_safe_same [simp]:
  "tokens_safe S (set_state i r st now d) = tokens_safe S d"
  "tokens_safe S (roll_up_item i r st a n le now d) = tokens_safe S d"
  "tokens_safe S (set_dest_phase i r t ph now d) = tokens_safe S d"
  "tokens_safe S (record_dest_attempt i r t e ph n now d) = tokens_safe S d"
  "tokens_safe S (bump_stats i dl d) = tokens_safe S d"
  "tokens_safe S (d\<lparr>db_stats := x\<rparr>) = tokens_safe S d"
  by (simp_all add: tokens_safe_def store_view)
    (simp_all add: set_dest_phase_def record_dest_attempt_def bump_stats_def)

lemma tokens_safe_save:
  "tokens_safe S d \<Longrightarrow> token_safe S (rs_token rs) \<Longrightarrow> tokens_safe S (save_resume i r t rs d)"
  by (auto simp: tokens_safe_def save_resume_def dest!: set_t_upsert [THEN subsetD])

lemma tokens_safe_load:
  assumes "tokens_safe S d" "load_resume i r t d = Some rs"
  shows "token_safe S (rs_token rs)"
  using assms by (auto simp: tokens_safe_def load_resume_def t_find_def find_Some_iff)

section \<open>Rules\<close>

lemma frames_ret [framing]: "frames (kept S) (ret x)"
  by (simp add: frames_def wp_ret)

lemma frames_ok_err [framing]: "frames (kept S) (ok x)" "frames (kept S) (err e)"
  by (simp_all add: frames_def wp_ok_err)

lemma frames_get_world [framing]: "frames (kept S) (get_world f)"
  by (simp add: frames_def wp_get_world)

lemma frames_bnd [framing]:
  assumes "frames (kept S) m" "\<And>x. frames (kept S) (f x)"
  shows "frames (kept S) (bnd m f)"
proof (rule framesI, unfold wp_bnd, rule wp_conseq [OF framesD [OF assms(1)]])
  fix w x w' assume k: "kept S w w'"
  show "wp (f x) (\<lambda>_. kept S w) (kept S w) w'"
    by (rule wp_conseq [OF framesD [OF assms(2)]]) (rule kept_trans [OF k], assumption)+
qed

lemma frames_seqn [framing]: "frames (kept S) m \<Longrightarrow> frames (kept S) n \<Longrightarrow> frames (kept S) (seqn m n)"
  unfolding seqn_def by (rule frames_bnd)

lemma frames_try [framing]:
  "frames (kept S) m \<Longrightarrow> (\<And>x. frames (kept S) (f x)) \<Longrightarrow> frames (kept S) (try_act m f)"
  unfolding try_act_def by (rule frames_bnd) (auto split: sum.split intro: framing)

lemma frames_effect:
  assumes "\<And>w. kept S w (snd (run_ok w))" "\<And>e n w. kept S w (snd (run_fail e n w))"
  shows "frames (kept S) (effect run_ok run_fail)"
proof (rule framesI, rule wp_effect)
  fix w fs
  have k: "kept S w (w\<lparr>w_fate := fs\<rparr>)" by simp
  show "case run_ok (w\<lparr>w_fate := fs\<rparr>) of (x, w') \<Rightarrow> kept S w w'"
    using kept_trans [OF k assms(1)] by (simp add: split_beta)
  show "case run_fail e n (w\<lparr>w_fate := fs\<rparr>) of (x, w') \<Rightarrow> kept S w w'" for e n
    using kept_trans [OF k assms(2)] by (simp add: split_beta)
  show "kept S w (w\<lparr>w_fate := fs\<rparr>)" by (rule k)
qed

lemma frames_db_write [framing]:
  "(\<And>d. db_frame d (f d)) \<Longrightarrow> (\<And>d. tokens_safe S d \<Longrightarrow> tokens_safe S (f d)) \<Longrightarrow> frames (kept S) (db_write f)"
  unfolding db_write_def by (rule frames_effect) (simp_all add: kept_db)

lemma frames_db_read [framing]: "frames (kept S) (db_read f)"
  unfolding db_read_def by (rule frames_effect) simp_all

lemma frames_map_err [framing]: "frames (kept S) m \<Longrightarrow> frames (kept S) (map_err f m)"
  unfolding map_err_def by (intro framing)

lemma frames_draw [framing]: "frames (kept S) draw_rng"
  by (intro framesI wp_draw) simp

lemma frames_log_permission [framing]: "frames (kept S) (log_permission k kd now)"
  by (intro framesI wp_log_permission) simp

lemma frames_next_nanos [framing]: "frames (kept S) next_nanos"
  by (simp add: frames_def wp_def next_nanos_def split: list.splits)

lemma frames_if [framing]: "frames (kept S) m \<Longrightarrow> frames (kept S) n \<Longrightarrow> frames (kept S) (if b then m else n)"
  by simp

lemma frames_for_each: "(\<And>x. x \<in> set xs \<Longrightarrow> frames (kept S) (f x)) \<Longrightarrow> frames (kept S) (for_each f xs)"
  by (induction xs) (auto intro!: framing)

lemma frames_for_each_ignore:
  "(\<And>x. x \<in> set xs \<Longrightarrow> frames (kept S) (f x)) \<Longrightarrow> frames (kept S) (for_each_ignore f xs)"
  by (induction xs) (auto intro!: framing)

lemma frames_files:
  "p \<notin> S \<Longrightarrow> frames (kept S) (fs_remove_file p)" "p \<notin> S \<Longrightarrow> frames (kept S) (fs_write p c)"
  "frames (kept S) (fs_create_dir_all q)" "frames (kept S) (fs_metadata_len q)" "frames (kept S) (fs_open q)"
  "frames (kept S) (hash_open_file D bs a)"
  "p \<notin> S \<Longrightarrow> frames (kept S) (fs_copy q p)" "p \<notin> S \<Longrightarrow> q \<notin> S \<Longrightarrow> frames (kept S) (fs_rename q p)"
  unfolding fs_remove_file_def fs_write_def fs_create_dir_all_def fs_metadata_len_def fs_open_def
    hash_open_file_def fs_copy_def fs_rename_def
  by (rule frames_effect; auto simp: kept_file split: option.split nat.split intro: kept_trans [OF kept_file kept_file])+

text \<open>Chaining: an action that frames, started from a point already related to \<open>w0\<close>.\<close>

lemma wp_frames:
  assumes "frames (kept S) m" "\<And>x w'. kept S w w' \<Longrightarrow> Q x w'" "\<And>w'. kept S w w' \<Longrightarrow> C w'"
  shows "wp m Q C w"
  by (rule wp_conseq [OF framesD [OF assms(1)]]) (auto intro: assms(2,3))

text \<open>One step of a sequence at a time.\<close>

lemma wp_try_write:
  assumes "\<And>fs. wp (f ()) Q C (w\<lparr>w_fate := fs, w_db := g (w_db w)\<rparr>)"
    "\<And>e fs. Q (Inl (State e)) (w\<lparr>w_fate := fs\<rparr>)" "\<And>fs. C (w\<lparr>w_fate := fs\<rparr>)"
  shows "wp (try_act (db_write g) f) Q C w"
  unfolding wp_try by (rule wp_db_write) (simp_all add: assms)

lemma wp_seq_write:
  assumes "\<And>fs. wp n Q C (w\<lparr>w_fate := fs, w_db := g (w_db w)\<rparr>)"
    "\<And>fs. wp n Q C (w\<lparr>w_fate := fs\<rparr>)" "\<And>fs. C (w\<lparr>w_fate := fs\<rparr>)"
  shows "wp (seqn (db_write g) n) Q C w"
  unfolding wp_seqn by (rule wp_db_write) (simp_all add: assms)

lemma wp_try_read:
  assumes "\<And>x fs. g (w_db w) = Inr x \<Longrightarrow> wp (f x) Q C (w\<lparr>w_fate := fs\<rparr>)"
    "\<And>e fs. Q (Inl e) (w\<lparr>w_fate := fs\<rparr>)" "\<And>fs. C (w\<lparr>w_fate := fs\<rparr>)"
  shows "wp (try_act (db_read g) f) Q C w"
  unfolding wp_try by (rule wp_db_read) (use assms in \<open>auto split: sum.split\<close>)

lemma wp_seq_emit:
  "wp n Q C (w\<lparr>w_events := w_events w @ [e]\<rparr>) \<Longrightarrow> wp (seqn (emit_event e) n) Q C w"
  by (simp add: wp_seqn wp_emit)

lemma wp_bnd_frames:
  assumes "frames (kept S) m" "\<And>x w'. kept S w w' \<Longrightarrow> wp (f x) Q C w'" "\<And>w'. kept S w w' \<Longrightarrow> C w'"
  shows "wp (bnd m f) Q C w"
  unfolding wp_bnd by (rule wp_frames [OF assms])

lemma wp_seq_frames:
  assumes "frames (kept S) m" "\<And>w'. kept S w w' \<Longrightarrow> wp n Q C w'" "\<And>w'. kept S w w' \<Longrightarrow> C w'"
  shows "wp (seqn m n) Q C w"
  unfolding seqn_def by (rule wp_bnd_frames [OF assms])

lemma wp_try_frames:
  assumes "frames (kept S) m" "\<And>x w'. kept S w w' \<Longrightarrow> wp (f x) Q C w'"
    "\<And>e w'. kept S w w' \<Longrightarrow> Q (Inl e) w'" "\<And>w'. kept S w w' \<Longrightarrow> C w'"
  shows "wp (try_act m f) Q C w"
  unfolding wp_try by (rule wp_frames [OF assms(1)]) (use assms in \<open>auto split: sum.split\<close>)

section \<open>The contract of a destination\<close>

definition resume_safe :: "path set \<Rightarrow> resume_state option \<Rightarrow> bool" where
  "resume_safe S r = (case r of None \<Rightarrow> True | Some rs \<Rightarrow> token_safe S (rs_token rs))"

lemma resume_safe_simps [simp]: "resume_safe S None" "resume_safe S (Some rs) = token_safe S (rs_token rs)"
  by (simp_all add: resume_safe_def)

definition well_behaved :: "path set \<Rightarrow> work_item \<Rightarrow> destination \<Rightarrow> bool" where
  "well_behaved S it d =
     ((\<forall>r progress. resume_safe S r \<longrightarrow> (\<forall>n. frames (kept S) (progress n))
         \<longrightarrow> frames (kept S) (d_deliver d it r progress))
      \<and> (\<forall>dl pol. frames (kept S) (d_verify d it dl pol))
      \<and> (\<forall>rs. token_safe S (rs_token rs) \<longrightarrow> frames (kept S) (d_abort d it rs)))"

lemma well_behavedD:
  assumes "well_behaved S it d"
  shows "resume_safe S r \<Longrightarrow> (\<And>n. frames (kept S) (progress n)) \<Longrightarrow> frames (kept S) (d_deliver d it r progress)"
    "frames (kept S) (d_verify d it dl pol)"
    "token_safe S (rs_token rs) \<Longrightarrow> frames (kept S) (d_abort d it rs)"
  using assms by (simp_all add: well_behaved_def)

lemma frames_persist_progress: "frames (kept S) (persist_progress inst rel clock n)"
proof -
  have "frames (kept S) (set_last_progress n)"
    by (simp add: frames_def wp_def set_last_progress_def)
  then show ?thesis unfolding persist_progress_def by (intro framing)
qed

lemma frames_deliver_and_verify:
  "well_behaved S it d \<Longrightarrow> resume_safe S r \<Longrightarrow>
   frames (kept S) (deliver_and_verify d it r (\<lambda>n. seqn (persist_progress inst rel now n) (ret ())) pol)"
  unfolding deliver_and_verify_def
  by (intro framing well_behavedD frames_persist_progress)

lemma frames_read_resume [framing]: "frames (kept S) (read_resume inst rel label)"
  unfolding read_resume_def by (intro framing)

text \<open>A checkpoint that is read is safe; where the tokens are not, nothing is claimed.\<close>

lemma wp_read_resume:
  assumes "tokens_safe S (w_db w)" "\<And>r fs. resume_safe S r \<Longrightarrow> Q (Inr r) (w\<lparr>w_fate := fs\<rparr>)"
    "\<And>e fs. Q (Inl e) (w\<lparr>w_fate := fs\<rparr>)" "\<And>fs. C (w\<lparr>w_fate := fs\<rparr>)"
  shows "wp (read_resume inst rel label) Q C w"
  unfolding read_resume_def
proof (rule wp_db_read)
  fix fs
  have "resume_safe S (load_resume inst rel label (w_db w))"
    using tokens_safe_load [OF assms(1)] by (simp add: resume_safe_def split: option.split)
  then show "Q (Inr (load_resume inst rel label (w_db w))) (w\<lparr>w_fate := fs\<rparr>)" by (rule assms(2))
qed (rule assms)+

lemma frames_after_read:
  assumes "\<And>r. resume_safe S r \<Longrightarrow> frames (kept S) (f (Inr r))" "\<And>e. frames (kept S) (f (Inl e))"
  shows "frames (kept S) (bnd (read_resume inst rel label) f)"
proof (rule framesI)
  fix w
  show "wp (bnd (read_resume inst rel label) f) (\<lambda>_. kept S w) (kept S w) w"
  proof (cases "tokens_safe S (w_db w)")
    case True
    have step: "wp (f r) (\<lambda>_. kept S w) (kept S w) (w\<lparr>w_fate := fs\<rparr>)" if "frames (kept S) (f r)" for r fs
      by (rule wp_frames [OF that]) (auto intro: kept_trans [of S w "w\<lparr>w_fate := fs\<rparr>"])
    show ?thesis
      unfolding wp_bnd by (rule wp_read_resume [OF True]) (simp_all add: step assms)
  next
    case False
    then show ?thesis by (simp add: wp_def kept_def split: option.split prod.split)
  qed
qed

lemma frames_abort_and_clear:
  "well_behaved S it d \<Longrightarrow> frames (kept S) (abort_and_clear_resume inst label d it)"
  unfolding abort_and_clear_resume_def
  by (rule frames_after_read) (auto split: option.split intro!: framing well_behavedD(3))

lemma frames_save_checkpoint [framing]: "frames (kept S) (save_verified_checkpoint inst rel label dl)"
  unfolding save_verified_checkpoint_def Let_def
  by (intro framing tokens_safe_save) (simp_all add: token_safe_def)

lemma frames_first_checksum [framing]: "frames (kept S) (first_checksum inst rel ss)"
  by (induction ss) (auto intro!: framing split: sum.split option.split)

lemma frames_delivered_checksum [framing]: "frames (kept S) (delivered_checksum W rel)"
  unfolding delivered_checksum_def by (rule framing)

end
