(* ===== verification/Cleanup_Laws.thy ===== *)
theory Cleanup_Laws
  imports Frames
begin

text \<open>
  The completion of a verified item (\<open>run_cleanup\<close>, \<open>finish_completed\<close>,
  \<open>record_cleanup_failure\<close>, \<open>drive_cleanup\<close>): \<open>Completed\<close> is recorded, counted and
  announced only for a source that is proven released, whatever fails in between.
\<close>

section \<open>Observations\<close>

definition stat_at :: "(stats_row \<Rightarrow> int) \<Rightarrow> string \<Rightarrow> db \<Rightarrow> int" where
  "stat_at f inst d = (case t_find sr_instance inst (db_stats d) of None \<Rightarrow> 0 | Some r \<Rightarrow> f r)"

abbreviation replicated_at :: "string \<Rightarrow> db \<Rightarrow> int" where
  "replicated_at \<equiv> stat_at sr_replicated"

abbreviation failed_at :: "string \<Rightarrow> db \<Rightarrow> int" where
  "failed_at \<equiv> stat_at sr_failed"

lemma stat_at_bump:
  "replicated_at inst (bump_stats inst dl d) = replicated_at inst d + sd_replicated dl"
  "failed_at inst (bump_stats inst dl d) = failed_at inst d + sd_failed dl"
  by (auto simp: stat_at_def bump_stats_def counters.find_upsert split: option.split)

lemma db_stats_ops [store_view]:
  "db_stats (set_state i r st now d) = db_stats d"
  "db_stats (roll_up_item i r st a n e now d) = db_stats d"
  "db_stats (record_cleanup_attempt i r e' st n now d) = db_stats d"
  "db_stats (clear_resume_all i r d) = db_stats d"
  "db_stats (clear_resume i r t d) = db_stats d"
  "db_stats (clear_dest_states i r d) = db_stats d"
  "db_stats (set_dest_phase i r t ph now d) = db_stats d"
  "db_stats (record_dest_attempt i r t e' ph n now d) = db_stats d"
  "db_stats (save_resume i r t rs d) = db_stats d"
  by (simp_all add: set_state_def roll_up_item_def record_cleanup_attempt_def store_view clear_resume_all_def
      clear_resume_def clear_dest_states_def set_dest_phase_def record_dest_attempt_def save_resume_def)

lemma item_exists: "state_at i r d = Some st \<Longrightarrow> item_at i r d \<noteq> None"
  by (cases "item_at i r d") (simp_all add: state_at_def)

fun success_event :: "event \<Rightarrow> bool" where
  "success_event (FileDeleted _) = True"
| "success_event (FileArchived _ _) = True"
| "success_event _ = False"

definition new_events :: "world \<Rightarrow> world \<Rightarrow> event list" where
  "new_events w0 w = drop (length (w_events w0)) (w_events w)"

definition item_state_of :: "'h worker \<Rightarrow> work_item \<Rightarrow> world \<Rightarrow> item_state option" where
  "item_state_of W item w = state_at (wo_instance W) (wi_relpath item) (w_db w)"

section \<open>The specification of a cleanup\<close>

text \<open>The completion action was proven done on files \<open>F'\<close>, from files that had \<open>c\<close> at the source.\<close>

definition released :: "'h worker \<Rightarrow> work_item \<Rightarrow> bytes option \<Rightarrow> (path \<Rightarrow> bytes option) \<Rightarrow> bool" where
  "released W item c F' =
     (\<exists>ck d F. proven_done (wo_digests W) (cleanup_ctx_of W item ck) d F F' \<and> F (abs_source W item) = c)"

text \<open>\<open>c\<close> can still be found, at the source or under a name of the archive.\<close>

definition retained_content :: "'h worker \<Rightarrow> work_item \<Rightarrow> bytes option \<Rightarrow> (path \<Rightarrow> bytes option) \<Rightarrow> bool" where
  "retained_content W item c F' =
     (\<forall>b. c = Some b \<longrightarrow> content_kept (cleanup_ctx_of W item NoChecksum) b F')"

definition cleanup_spec ::
  "'h worker \<Rightarrow> work_item \<Rightarrow> bytes option \<Rightarrow> item_state option \<Rightarrow> world \<Rightarrow> item_state res option
   \<Rightarrow> world \<Rightarrow> bool" where
  "cleanup_spec W item c st0 w0 r w' =
     (let inst = wo_instance W; st = item_state_of W item w';
          count = replicated_at inst (w_db w') - replicated_at inst (w_db w0);
          succ = filter success_event (new_events w0 w') in
      db_ok (w_db w') \<and> failed_at inst (w_db w') = failed_at inst (w_db w0)
      \<and> (case r of
           Some (Inr s) \<Rightarrow>
             (s = Completed \<and> st = Some Completed \<and> released W item c (w_files w') \<and> count = 1
              \<and> (\<exists>e. succ = [e]))
             \<or> (s = CleanupFailed \<and> st = Some CleanupFailed \<and> retained_content W item c (w_files w')
                \<and> count = 0 \<and> succ = [])
         | _ \<Rightarrow>
             (st = Some Completed \<and> released W item c (w_files w') \<and> count \<in> {0, 1} \<and> succ = [])
             \<or> ((st = st0 \<or> st = Some CleanupPending) \<and> count = 0 \<and> succ = []
                \<and> (retained_content W item c (w_files w')
                   \<or> (st = Some CleanupPending \<and> released W item c (w_files w'))))))"

lemma cleanup_ctx_simps [simp]:
  "cx_src (cleanup_ctx_of W item ck) = abs_source W item"
  "cx_on_success (cleanup_ctx_of W item ck) = co_on_success (wo_completion W)"
  by (simp_all add: cleanup_ctx_of_def Let_def)

lemma ck_irrelevant:
  "archive_dst (cleanup_ctx_of W item ck) = archive_dst (cleanup_ctx_of W item NoChecksum)"
  "ctx_safe (cleanup_ctx_of W item ck) = ctx_safe (cleanup_ctx_of W item NoChecksum)"
  "content_kept (cleanup_ctx_of W item ck) = content_kept (cleanup_ctx_of W item NoChecksum)"
  by (simp_all add: cleanup_ctx_of_def Let_def archive_dst_def ctx_safe_def fun_eq_iff content_kept_def)

text \<open>The files may be anything from here on; the rest of the world is tracked exactly.\<close>

definition at_point :: "(path \<Rightarrow> bytes option) \<Rightarrow> item_state option \<Rightarrow> 'h worker \<Rightarrow> work_item \<Rightarrow> world \<Rightarrow> world \<Rightarrow> bool" where
  "at_point F st W item w0 w =
     (w_files w = F \<and> db_ok (w_db w) \<and> item_state_of W item w = st \<and> db_stats (w_db w) = db_stats (w_db w0)
      \<and> (\<exists>evs. w_events w = w_events w0 @ evs \<and> filter success_event evs = []))"

lemma at_point_upd [simp]:
  "at_point F st W item w0 (w\<lparr>w_fate := fs\<rparr>) = at_point F st W item w0 w"
  "at_point F st W item w0 (w\<lparr>w_rng := x1\<rparr>) = at_point F st W item w0 w"
  by (simp_all add: at_point_def item_state_of_def)

lemma at_point_files: "at_point F st W item w0 w \<Longrightarrow> files_are F' w w' \<Longrightarrow> at_point F' st W item w0 w'"
  by (auto simp: at_point_def files_are_def item_state_of_def)

lemma at_point_emit:
  "at_point F st W item w0 w \<Longrightarrow> \<not> success_event e \<Longrightarrow>
   at_point F st W item w0 (w\<lparr>w_events := w_events w @ [e]\<rparr>)"
  by (auto simp: at_point_def item_state_of_def)

lemma at_point_state:
  assumes "at_point F (Some st) W item w0 w"
  shows "at_point F (Some st') W item w0
      (w\<lparr>w_fate := fs, w_db := set_state (wo_instance W) (wi_relpath item) st' now (w_db w)\<rparr>)"
    "at_point F (Some st') W item w0
      (w\<lparr>w_fate := fs, w_db := record_cleanup_attempt (wo_instance W) (wi_relpath item) e st' n now (w_db w)\<rparr>)"
    "at_point F (Some st') W item w0
      (w\<lparr>w_fate := fs, w_db := roll_up_item (wo_instance W) (wi_relpath item) st' a n le now (w_db w)\<rparr>)"
proof -
  have "item_at (wo_instance W) (wi_relpath item) (w_db w) \<noteq> None"
    using assms by (auto simp: at_point_def item_state_of_def dest: item_exists)
  then show "at_point F (Some st') W item w0
      (w\<lparr>w_fate := fs, w_db := set_state (wo_instance W) (wi_relpath item) st' now (w_db w)\<rparr>)"
    "at_point F (Some st') W item w0
      (w\<lparr>w_fate := fs, w_db := record_cleanup_attempt (wo_instance W) (wi_relpath item) e st' n now (w_db w)\<rparr>)"
    "at_point F (Some st') W item w0
      (w\<lparr>w_fate := fs, w_db := roll_up_item (wo_instance W) (wi_relpath item) st' a n le now (w_db w)\<rparr>)"
    using assms by (auto simp: at_point_def item_state_of_def store_view db_ok_item_ops)
qed

text \<open>What a point means for the specification, when the run ends or dies there.\<close>

lemma at_point_counts:
  assumes "at_point F st W item w0 w"
  shows "replicated_at (wo_instance W) (w_db w) = replicated_at (wo_instance W) (w_db w0)"
    "failed_at (wo_instance W) (w_db w) = failed_at (wo_instance W) (w_db w0)"
    "filter success_event (new_events w0 w) = []" "db_ok (w_db w)" "item_state_of W item w = st" "w_files w = F"
  using assms by (auto simp: at_point_def stat_at_def new_events_def)

lemma spec_stopped:
  assumes "at_point F st W item w0 w" "st = st0 \<or> st = Some CleanupPending"
    "retained_content W item c F \<or> (st = Some CleanupPending \<and> released W item c F)"
    "\<And>s. r \<noteq> Some (Inr s)"
  shows "cleanup_spec W item c st0 w0 r w"
  using assms at_point_counts [OF assms(1)]
  by (auto simp: cleanup_spec_def Let_def split: option.split sum.split)

lemma spec_failed:
  assumes "at_point F (Some CleanupFailed) W item w0 w" "retained_content W item c F"
  shows "cleanup_spec W item c st0 w0 (Some (Inr CleanupFailed)) w"
  using assms at_point_counts [OF assms(1)] by (simp add: cleanup_spec_def Let_def)

lemma spec_completed_stopped:
  assumes "at_point F (Some Completed) W item w0 w" "released W item c F" "\<And>s. r \<noteq> Some (Inr s)"
  shows "cleanup_spec W item c st0 w0 r w"
  using assms at_point_counts [OF assms(1)]
  by (auto simp: cleanup_spec_def Let_def split: option.split sum.split)

section \<open>The branches\<close>

lemma wp_finish_completed:
  assumes "at_point F (Some CleanupPending) W item w0 w" "released W item c F"
  shows "wp (finish_completed W item d now) (\<lambda>r. cleanup_spec W item c st0 w0 (Some r)) (cleanup_spec W item c st0 w0 None) w"
proof -
  let ?inst = "wo_instance W" and ?rel = "wi_relpath item"
  let ?Q = "\<lambda>r. cleanup_spec W item c st0 w0 (Some r)" and ?C = "cleanup_spec W item c st0 w0 None"
  let ?bump = "bump_stats ?inst \<lparr>sd_replicated = 1, sd_failed = 0, sd_bytes = u64_as_i64 (wi_size item)\<rparr>"
  let ?ev = "case d of Deleted \<Rightarrow> FileDeleted ?rel | Archived t \<Rightarrow> FileArchived ?rel (map_option path_display t)"
  have ev: "success_event ?ev" by (cases d) simp_all
  have stop: "?Q (Inl e) w'" "?C w'" if "at_point F (Some Completed) W item w0 w'" for e w'
    by (rule spec_completed_stopped [OF that assms(2)], simp)+
  have start: "?Q (Inl e) w'" "?C w'" if "at_point F (Some CleanupPending) W item w0 w'" for e w'
    by (rule spec_stopped [OF that]; simp add: assms(2))+
  have bumped: "?Q (Inr Completed) (w'\<lparr>w_fate := fs, w_db := ?bump (w_db w'), w_events := w_events w' @ [?ev]\<rparr>)"
    if "at_point F (Some Completed) W item w0 w'" for w' fs
  proof -
    from that obtain evs where "w_events w' = w_events w0 @ evs" "filter success_event evs = []"
      by (auto simp: at_point_def)
    then show ?thesis
      using that at_point_counts [OF that] ev assms(2)
      by (simp add: cleanup_spec_def Let_def new_events_def stat_at_bump item_state_of_def store_view db_ok_bump_stats)
  qed
  have clear: "at_point F (Some Completed) W item w0 (w'\<lparr>w_fate := fs, w_db := g (w_db w')\<rparr>)"
    if "at_point F (Some Completed) W item w0 w'" "g = clear_resume_all ?inst ?rel \<or> g = clear_dest_states ?inst ?rel"
    for w' fs g
    using that by (auto simp: at_point_def item_state_of_def store_view db_ok_delete)
  have point: "at_point F (Some Completed) W item w0
      (w\<lparr>w_fate := fs, w_db := set_state ?inst ?rel Completed now (w_db w)\<rparr>)" for fs
    by (rule at_point_state(1) [OF assms(1)])
  have count: "wp (try_act (db_write ?bump) (\<lambda>_. seqn (emit_event ?ev) (ok Completed))) ?Q ?C w'"
    if "at_point F (Some Completed) W item w0 w'" for w'
    by (rule wp_try_write)
      (use that in \<open>auto simp: wp_seqn wp_emit wp_ok_err intro!: bumped [simplified] stop\<close>)
  have dests: "wp (seqn (db_write (clear_dest_states ?inst ?rel))
      (try_act (db_write ?bump) (\<lambda>_. seqn (emit_event ?ev) (ok Completed)))) ?Q ?C w'"
    if "at_point F (Some Completed) W item w0 w'" for w'
    by (rule wp_seq_write) (use that in \<open>auto intro!: count clear stop\<close>)
  have resumes: "wp (seqn (db_write (clear_resume_all ?inst ?rel)) (seqn (db_write (clear_dest_states ?inst ?rel))
      (try_act (db_write ?bump) (\<lambda>_. seqn (emit_event ?ev) (ok Completed))))) ?Q ?C w'"
    if "at_point F (Some Completed) W item w0 w'" for w'
    by (rule wp_seq_write) (use that in \<open>auto intro!: dests clear stop\<close>)
  show ?thesis
    unfolding finish_completed_def Let_def
    by (rule wp_try_write, rule resumes [OF point]) (use assms(1) in \<open>auto intro!: start\<close>)
qed

lemma wp_record_cleanup_failure:
  assumes "at_point F (Some CleanupPending) W item w0 w" "retained_content W item c F"
  shows "wp (record_cleanup_failure W item action e now) (\<lambda>r. cleanup_spec W item c st0 w0 (Some r))
    (cleanup_spec W item c st0 w0 None) w"
proof -
  let ?Q = "\<lambda>r. cleanup_spec W item c st0 w0 (Some r)" and ?C = "cleanup_spec W item c st0 w0 None"
  let ?P = "at_point F (Some CleanupPending) W item w0"
  have stop: "?Q (Inl x) w'" "?C w'" if "?P w'" for x w'
    by (rule spec_stopped [OF that]; simp add: assms(2))+
  have failed: "?Q (Inr CleanupFailed) w'" if "at_point F (Some CleanupFailed) W item w0 w'" for w'
    by (rule spec_failed [OF that assms(2)])
  have announce: "wp (seqn (emit_event (FileCleanupFailed r a n t)) (ok CleanupFailed)) ?Q ?C w'"
    if "at_point F (Some CleanupFailed) W item w0 w'" for w' r a n t
    by (rule wp_seq_emit) (simp add: wp_ok_err failed at_point_emit [OF that])
  have note_it: "wp (try_act (db_write (record_cleanup_attempt (wo_instance W) (wi_relpath item) t CleanupFailed n now)) g) ?Q ?C w'"
    if "?P w'" "\<And>w'. at_point F (Some CleanupFailed) W item w0 w' \<Longrightarrow> wp (g ()) ?Q ?C w'" for w' t n g
    by (rule wp_try_write) (use that in \<open>auto intro!: stop at_point_state [where st = CleanupPending]\<close>)
  show ?thesis
    unfolding record_cleanup_failure_def Let_def wp_bnd
    by (rule wp_draw) (use assms(1) in \<open>auto split: retry_decision.split intro!: note_it announce failed simp: wp_ok_err\<close>)
qed

section \<open>The cleanup\<close>

lemma wp_first_checksum:
  assumes "\<And>ck fs. Q ck (w\<lparr>w_fate := fs\<rparr>)" "\<And>fs. C (w\<lparr>w_fate := fs\<rparr>)"
  shows "wp (first_checksum i r ss) Q C w"
  using assms
proof (induction ss arbitrary: w)
  case Nil
  have "w\<lparr>w_fate := w_fate w\<rparr> = w" by simp
  then show ?case using Nil(1) by (metis first_checksum.simps(1) wp_ret)
next
  case (Cons s ss)
  have step: "wp (first_checksum i r ss) Q C (w\<lparr>w_fate := fs\<rparr>)" for fs
    by (rule Cons.IH) (simp_all add: Cons.prems)
  show ?case
    unfolding first_checksum.simps wp_bnd read_resume_def
    by (rule wp_db_read) (auto simp: wp_ret Cons.prems step split: option.split)
qed

lemma wp_delivered_checksum:
  "(\<And>ck fs. Q ck (w\<lparr>w_fate := fs\<rparr>)) \<Longrightarrow> (\<And>fs. C (w\<lparr>w_fate := fs\<rparr>)) \<Longrightarrow> wp (delivered_checksum W rel) Q C w"
  unfolding delivered_checksum_def by (rule wp_first_checksum)

lemma wp_run_cleanup:
  assumes "at_point F st W item w0 w" "st \<noteq> None"
    "ctx_safe (cleanup_ctx_of W item NoChecksum)"
  shows "wp (run_cleanup W item now) (\<lambda>r. cleanup_spec W item (F (abs_source W item)) st w0 (Some r))
    (cleanup_spec W item (F (abs_source W item)) st w0 None) w"
proof -
  let ?c = "F (abs_source W item)"
  let ?Q = "\<lambda>r. cleanup_spec W item ?c st w0 (Some r)" and ?C = "cleanup_spec W item ?c st w0 None"
  let ?P = "at_point F (Some CleanupPending) W item w0"
  have here: "retained_content W item ?c F" by (simp add: retained_content_def content_kept_def)
  have stop: "?Q (Inl x) w'" "?C w'" if "at_point F st W item w0 w'" for x w'
    by (rule spec_stopped [OF that]; simp add: here)+
  have action: "wp (bnd (apply_success_action (wo_digests W) (wo_platform W) (cleanup_ctx_of W item ck)) (\<lambda>out.
      case out of Inr done \<Rightarrow> finish_completed W item done now
      | Inl e \<Rightarrow> record_cleanup_failure W item (cleanup_action (co_on_success (wo_completion W))) e now)) ?Q ?C w1"
    if p: "?P w1" for ck w1
  proof -
    let ?cx = "cleanup_ctx_of W item ck"
    have safe: "ctx_safe ?cx" using assms(3) by (simp add: ck_irrelevant(2) [of W item ck])
    have "w_files w1 = F" using p by (simp add: at_point_def)
    then have f1: "files_are F w1 w1" using files_are_refl [of w1] by simp
    have good: "wp (finish_completed W item d now) ?Q ?C w'"
      if "files_are F' w1 w'" "proven_done (wo_digests W) ?cx d F F'" for d F' w'
      by (rule wp_finish_completed [OF at_point_files [OF p that(1)]]) (use that(2) in \<open>auto simp: released_def\<close>)
    have bad: "wp (record_cleanup_failure W item a e now) ?Q ?C w'" "?C w'"
      if "files_are F' w1 w'" "retained_content W item ?c F'" for F' w' a e
      using wp_record_cleanup_failure [OF at_point_files [OF p that(1)] that(2)]
        spec_stopped [OF at_point_files [OF p that(1)] disjI2 [OF refl] disjI1 [OF that(2)]] by simp_all
    show ?thesis
      unfolding wp_bnd
    proof (cases "cx_on_success ?cx")
      case OnDelete
      show "wp (apply_success_action (wo_digests W) (wo_platform W) ?cx) (\<lambda>x. wp (case x of Inr done \<Rightarrow> finish_completed W item done now
        | Inl e \<Rightarrow> record_cleanup_failure W item (cleanup_action (co_on_success (wo_completion W))) e now) ?Q ?C) ?C w1"
        by (rule wp_delete_action [OF f1 OnDelete])
          (use OnDelete in \<open>auto intro!: good bad here simp: proven_done_def\<close>)
    next
      case OnArchive
      show "wp (apply_success_action (wo_digests W) (wo_platform W) ?cx) (\<lambda>x. wp (case x of Inr done \<Rightarrow> finish_completed W item done now
        | Inl e \<Rightarrow> record_cleanup_failure W item (cleanup_action (co_on_success (wo_completion W))) e now) ?Q ?C) ?C w1"
        by (rule wp_archive_action [OF f1 OnArchive safe])
          (auto intro!: good bad here simp: retained_content_def ck_irrelevant(3) [of W item ck])
    qed
  qed
  have checksum: "wp (bnd (delivered_checksum W (wi_relpath item)) (\<lambda>ck.
      bnd (apply_success_action (wo_digests W) (wo_platform W) (cleanup_ctx_of W item ck)) (\<lambda>out.
      case out of Inr done \<Rightarrow> finish_completed W item done now
      | Inl e \<Rightarrow> record_cleanup_failure W item (cleanup_action (co_on_success (wo_completion W))) e now))) ?Q ?C w1"
    if p: "?P w1" for w1
    unfolding wp_bnd
    by (rule wp_delivered_checksum)
      (use p in \<open>auto intro!: action [unfolded wp_bnd] spec_stopped [OF _ disjI2 [OF refl] disjI1 [OF here]]\<close>)
  obtain s where s: "st = Some s" using assms(2) by auto
  show ?thesis
    unfolding run_cleanup_def
    by (rule wp_try_write, rule checksum [OF at_point_state(1) [OF assms(1) [unfolded s]]])
      (use assms(1) in \<open>auto intro!: stop\<close>)
qed

section \<open>Which items a cleanup pass touches\<close>

text \<open>A predicate of the database and the events is kept by every file operation.\<close>

lemma keeps_db_effect:
  "(\<And>w. w_db (snd (ok_run w)) = w_db w \<and> w_events (snd (ok_run w)) = w_events w) \<Longrightarrow>
   (\<And>e n w. w_db (snd (fail_run e n w)) = w_db w \<and> w_events (snd (fail_run e n w)) = w_events w) \<Longrightarrow>
   keeps (\<lambda>w. p (w_db w) (w_events w)) (effect ok_run fail_run)"
  by (rule keeps_effect) (simp_all add: blind_def)

lemma keeps_db_files:
  "keeps (\<lambda>w. p (w_db w) (w_events w)) (fs_remove_file a)" "keeps (\<lambda>w. p (w_db w) (w_events w)) (fs_create_dir_all a)"
  "keeps (\<lambda>w. p (w_db w) (w_events w)) (fs_rename a b)" "keeps (\<lambda>w. p (w_db w) (w_events w)) (fs_copy a b)"
  "keeps (\<lambda>w. p (w_db w) (w_events w)) (fs_metadata_len a)" "keeps (\<lambda>w. p (w_db w) (w_events w)) (fs_open a)"
  "keeps (\<lambda>w. p (w_db w) (w_events w)) (hash_open_file D bs alg)" "keeps (\<lambda>w. p (w_db w) (w_events w)) (fs_exists a)"
  "keeps (\<lambda>w. p (w_db w) (w_events w)) next_nanos"
  unfolding fs_remove_file_def fs_create_dir_all_def fs_rename_def fs_copy_def fs_metadata_len_def
    fs_open_def hash_open_file_def
  by (rule keeps_db_effect; auto simp: set_file_def split: option.split nat.split)+
    (auto simp: fs_exists_def keeps_def wp_get_world, auto simp: wp_def next_nanos_def split: list.splits)

lemma keeps_ok_err [intro]: "keeps P (ok x)" "keeps P (err e)"
  by (simp_all add: keeps_def wp_ok_err)

lemma keeps_map_err [intro]: "keeps P m \<Longrightarrow> keeps P (map_err f m)"
  unfolding map_err_def by (rule keeps_bnd) auto

lemma keeps_db_move: "keeps (\<lambda>w. p (w_db w) (w_events w)) (move_file cl src dst col)"
proof -
  have discard: "keeps (\<lambda>w. p (w_db w) (w_events w)) (discard_temp cl tmp r)" for tmp and r :: "io_error + unit"
    by (auto simp: discard_temp_def intro!: keeps_ok_err keeps_seqn keeps_db_files split: sum.split)
  have publish: "keeps (\<lambda>w. p (w_db w) (w_events w)) (publish_temp cl tmp t)" for tmp t
    unfolding publish_temp_def free_target_def
    by (intro keeps_bnd keeps_db_files) (auto intro!: keeps_ok_err keeps_bnd keeps_try keeps_db_files discard)
  have rename: "keeps (\<lambda>w. p (w_db w) (w_events w)) (rename_or_copy cl src t)" for t
    unfolding rename_or_copy_def copy_fallback_def Let_def
    by (intro keeps_bnd keeps_db_files)
      (auto intro!: keeps_ok_err keeps_bnd keeps_try keeps_db_files discard publish keeps_map_err)
  have resolve: "keeps (\<lambda>w. p (w_db w) (w_events w)) (resolve_collision cl dst col)"
    unfolding resolve_collision_def
    by (intro keeps_bnd keeps_db_files)
      (auto intro!: keeps_ok_err keeps_bnd keeps_try keeps_db_files keeps_map_err split: collision.split option.split)
  show ?thesis
    unfolding move_file_def create_parent_def
    by (intro keeps_try resolve rename) (auto intro!: keeps_ok_err keeps_map_err keeps_db_files split: option.split)
qed

lemma keeps_db_action: "keeps (\<lambda>w. p (w_db w) (w_events w)) (apply_success_action D pf cx)"
proof -
  have verify: "keeps (\<lambda>w. p (w_db w) (w_events w)) (verify_archived D pf t cx)" for t
    unfolding verify_archived_def
    by (intro keeps_try keeps_map_err keeps_db_files)
      (auto intro!: keeps_ok_err keeps_try keeps_map_err keeps_db_files split: option.split prod.split)
  show ?thesis
    unfolding apply_success_action_def Let_def
    by (cases "cx_on_success cx")
      (auto intro!: keeps_ok_err keeps_bnd keeps_try keeps_db_files keeps_db_move verify split: option.split sum.split)
qed

lemma item_at_store_ops:
  assumes "(i, r) \<noteq> (i', r')"
  shows "item_at i r (set_state i' r' st now d) = item_at i r d"
    "item_at i r (record_cleanup_attempt i' r' e st n now d) = item_at i r d"
    "item_at i r (roll_up_item i' r' st a n le now d) = item_at i r d"
  using assms by (auto simp: set_state_def record_cleanup_attempt_def roll_up_item_def item_at_update_item)

lemma keeps_db_cleanup:
  assumes "wi_relpath it \<noteq> rel"
  shows "keeps (\<lambda>w. item_at (wo_instance W) rel (w_db w) = x) (run_cleanup W it now)"
proof -
  let ?P = "\<lambda>w. item_at (wo_instance W) rel (w_db w) = x"
  have blind: "blind ?P" by (simp add: blind_def)
  note wr = keeps_db_write [OF blind] and rd = keeps_db_read [OF blind]
  have ne: "(wo_instance W, rel) \<noteq> (wo_instance W, wi_relpath it)" using assms by simp
  note upd = item_at_store_ops [OF ne] item_at_other_tables
  have finish: "keeps ?P (finish_completed W it d now)" for d
    unfolding finish_completed_def Let_def
    by (intro keeps_try keeps_seqn wr keeps_emit keeps_ok_err) (simp_all add: upd)
  have failure: "keeps ?P (record_cleanup_failure W it a e now)" for a e
    unfolding record_cleanup_failure_def Let_def
    by (intro keeps_bnd keeps_draw)
      (auto intro!: keeps_ok_err keeps_try keeps_seqn wr keeps_emit split: retry_decision.split simp: upd)
  have checksum: "keeps ?P (first_checksum i r ss)" for i r ss
    by (induction ss) (auto intro!: keeps_bnd keeps_ret rd simp: read_resume_def split: sum.split option.split)
  show ?thesis
    unfolding run_cleanup_def delivered_checksum_def
    by (intro keeps_try keeps_bnd wr checksum keeps_db_action [where p = "\<lambda>d _. item_at (wo_instance W) rel d = x"])
      (auto simp: upd intro: finish failure split: sum.split)
qed

text \<open>Events are only added.\<close>

lemma keeps_events_cleanup: "keeps (\<lambda>w. \<exists>evs. w_events w = evs0 @ evs) (run_cleanup W it now)"
proof -
  let ?P = "\<lambda>w. \<exists>evs. w_events w = evs0 @ evs"
  have blind: "blind ?P" by (simp add: blind_def)
  note wr = keeps_db_write [OF blind] and rd = keeps_db_read [OF blind]
  have finish: "keeps ?P (finish_completed W it d now)" for d
    unfolding finish_completed_def Let_def
    by (intro keeps_try keeps_seqn wr keeps_emit keeps_ok_err) auto
  have failure: "keeps ?P (record_cleanup_failure W it a e now)" for a e
    unfolding record_cleanup_failure_def Let_def
    by (intro keeps_bnd keeps_draw)
      (auto intro!: keeps_ok_err keeps_try keeps_seqn wr keeps_emit split: retry_decision.split)
  have checksum: "keeps ?P (first_checksum i r ss)" for i r ss
    by (induction ss) (auto intro!: keeps_bnd keeps_ret rd simp: read_resume_def split: sum.split option.split)
  show ?thesis
    unfolding run_cleanup_def delivered_checksum_def
    by (intro keeps_try keeps_bnd wr checksum keeps_db_action [where p = "\<lambda>_ es. \<exists>evs. es = evs0 @ evs"])
      (auto intro: finish failure split: sum.split)
qed

lemma list_by_state_mem:
  assumes "db_ok d" "list_by_state inst st d = Inr its" "it \<in> set its"
  shows "\<exists>x. item_at inst (wi_relpath it) d = Some x \<and> it = the_item x
    \<and> item_from_str (ir_state x) = Some st \<and> ir_next_attempt_at x = wi_next_attempt_at it"
proof -
  let ?rows = "sort_key ir_discovered_at
      (filter (\<lambda>r. ir_instance r = inst \<and> ir_state r = item_as_str st) (db_items d))"
  have ok: "item_from_str (ir_state r) \<noteq> None" if "r \<in> set ?rows" for r
    using that assms(1) by (auto simp: db_ok_def)
  have "collect_res (List.map row_to_item ?rows) = Inr (List.map the_item ?rows)"
    by (rule collect_items) (rule ok)
  then have "its = List.map the_item ?rows" using assms(2) by (simp only: list_by_state_def sum.inject)
  then obtain x where x: "x \<in> set ?rows" "it = the_item x" using assms(3) by auto
  have k: "t_ok item_key (db_items d)" using assms(1) by (simp add: db_ok_def)
  show ?thesis
    using x ok [OF x(1)] by (intro exI [of _ x]) (auto simp: item_at_mem [OF k])
qed

definition cleanup_due :: "i64 \<Rightarrow> bool \<Rightarrow> item_row \<Rightarrow> bool" where
  "cleanup_due now redrive_all x =
     (item_from_str (ir_state x) = Some CleanupPending
      \<or> (item_from_str (ir_state x) = Some CleanupFailed \<and> (redrive_all \<or> ir_next_attempt_at x \<le> now)))"

lemma wp_drive_cleanup:
  assumes "db_ok (w_db w)" "item_at (wo_instance W) rel (w_db w) = Some x" "\<not> cleanup_due now redrive_all x"
  shows "wp (drive_cleanup W now redrive_all)
    (\<lambda>_ w'. item_at (wo_instance W) rel (w_db w') = Some x) (\<lambda>w'. item_at (wo_instance W) rel (w_db w') = Some x) w"
proof -
  let ?P = "\<lambda>w'. item_at (wo_instance W) rel (w_db w') = Some x"
  have sel: "wi_relpath it \<noteq> rel"
    if l: "list_by_state (wo_instance W) st (w_db w) = Inr its" "it \<in> set its"
      and st: "st = CleanupPending \<or> (st = CleanupFailed \<and> (redrive_all \<or> wi_next_attempt_at it \<le> now))"
    for it its st
    using list_by_state_mem [OF assms(1) l] st assms(2,3) by (auto simp: cleanup_due_def)
  have loop: "keeps ?P (for_each (\<lambda>it. try_act (run_cleanup W (it\<lparr>wi_abs_source := abs_source W it\<rparr>) now) (\<lambda>_. ok ())) its)"
    if "\<And>it. it \<in> set its \<Longrightarrow> wi_relpath it \<noteq> rel" for its
    using that by (intro keeps_for_each keeps_try keeps_ok_err keeps_db_cleanup) simp
  show ?thesis
    unfolding drive_cleanup_def
  proof (rule wp_try_read, rule wp_try_read)
    fix pending failed fs fs'
    assume l: "list_by_state (wo_instance W) CleanupPending (w_db w) = Inr pending"
      "list_by_state (wo_instance W) CleanupFailed (w_db (w\<lparr>w_fate := fs\<rparr>)) = Inr failed"
    then have ne: "wi_relpath it \<noteq> rel"
      if "it \<in> set (pending @ filter (\<lambda>it. redrive_all \<or> wi_next_attempt_at it \<le> now) failed)" for it
      using that sel by auto
    show "wp (for_each (\<lambda>it. try_act (run_cleanup W (it\<lparr>wi_abs_source := abs_source W it\<rparr>) now) (\<lambda>_. ok ()))
        (pending @ filter (\<lambda>it. redrive_all \<or> wi_next_attempt_at it \<le> now) failed)) (\<lambda>_. ?P) ?P
        (w\<lparr>w_fate := fs, w_fate := fs'\<rparr>)"
      by (rule keepsD [OF loop]) (rule ne, assumption, simp add: assms(2))
  qed (simp_all add: assms(2))
qed

section \<open>Properties\<close>

text \<open>
  C5. Completing an item, under every fault and crash: \<open>Completed\<close> is returned only with the
  source proven released, the state recorded, the file counted once and one success
  event emitted; a failed action ends in \<open>CleanupFailed\<close> with the content still present, nothing
  counted and nothing announced; a crash or a store fault leaves the old state or
  \<open>CleanupPending\<close> with the content accounted for, or a recorded completion that is proven.
\<close>

theorem cleanup_outcome:
  assumes "run_cleanup W item now w = (r, w')" "db_ok (w_db w)" "item_state_of W item w \<noteq> None"
    "ctx_safe (cleanup_ctx_of W item NoChecksum)"
  shows "cleanup_spec W item (w_files w (abs_source W item)) (item_state_of W item w) w r w'"
proof -
  have "at_point (w_files w) (item_state_of W item w) W item w w"
    using assms(2) by (simp add: at_point_def)
  from wp_run [OF wp_run_cleanup [OF this assms(3,4)] assms(1)]
  show ?thesis by (cases r) simp_all
qed

text \<open>
  A cleanup pass touches only the items it should: one that waits for a later
  cleanup attempt, or is in any state but \<open>CleanupPending\<close> and \<open>CleanupFailed\<close>, keeps its row.
\<close>

theorem drive_cleanup_selects:
  assumes "drive_cleanup W now redrive_all w = (r, w')" "db_ok (w_db w)"
    "item_at (wo_instance W) rel (w_db w) = Some x"
    "\<not> (item_from_str (ir_state x) = Some CleanupPending
       \<or> (item_from_str (ir_state x) = Some CleanupFailed \<and> (redrive_all \<or> ir_next_attempt_at x \<le> now)))"
  shows "item_at (wo_instance W) rel (w_db w') = Some x"
  using wp_run [OF wp_drive_cleanup [OF assms(2,3)] assms(1)] assms(4)
  by (cases r) (simp_all add: cleanup_due_def)

end
