(* ===== verification/Pipeline_Laws.thy ===== *)
theory Pipeline_Laws
  imports Cleanup_Laws
begin

text \<open>
  The fan-out pipeline (\<open>run_pipeline\<close> and below): a source is released only after every
  destination verified its copy, whatever fails and wherever the process dies. The
  locale \<open>worker_env\<close> states what the proof needs of the destinations and paths.
\<close>

section \<open>What the worker relies on\<close>

locale worker_env =
  fixes W :: "'h worker" and item :: work_item
  assumes dests_behave: "s \<in> set (wo_dests W) \<Longrightarrow> well_behaved {abs_source W item} item (slot_dest s)"
    and order_set: "set (wo_order W ss) = set ss"
    and archive_safe: "ctx_safe (cleanup_ctx_of W item NoChecksum)"
    and quarantine_safe: "quarantined_safe (abs_source W item) (wi_relpath item) (co_failed_dir (wo_completion W))"

section \<open>Evidence of a verified copy\<close>

definition verified_by :: "'h worker \<Rightarrow> work_item \<Rightarrow> world \<Rightarrow> world \<Rightarrow> string \<Rightarrow> bool" where
  "verified_by W item w0 w l =
     (phase_at (wo_instance W) (wi_relpath item) l (w_db w0) = Some DVerified
      \<or> (\<exists>n b. ReplicationCompleted (wi_relpath item) n l b \<in> set (new_events w0 w)))"

text \<open>Transfers are going on; the labels \<open>L\<close> are known to be verified.\<close>

definition moving :: "'h worker \<Rightarrow> work_item \<Rightarrow> string set \<Rightarrow> item_state option \<Rightarrow> world \<Rightarrow> world \<Rightarrow> bool" where
  "moving W item L st w0 w =
     (w_files w (abs_source W item) = w_files w0 (abs_source W item) \<and> db_ok (w_db w)
      \<and> tokens_safe {abs_source W item} (w_db w)
      \<and> item_state_of W item w = st \<and> db_stats (w_db w) = db_stats (w_db w0)
      \<and> (\<exists>evs. w_events w = w_events w0 @ evs \<and> filter success_event evs = [])
      \<and> (\<forall>l\<in>L. verified_by W item w0 w l))"

lemma moving_upd [simp]:
  "moving W item L st w0 (w\<lparr>w_fate := fs\<rparr>) = moving W item L st w0 w"
  "moving W item L st w0 (w\<lparr>w_rng := x1\<rparr>) = moving W item L st w0 w"
  "moving W item L st w0 (w\<lparr>w_perm := x2\<rparr>) = moving W item L st w0 w"
  "moving W item L st w0 (w\<lparr>w_last_progress := x3\<rparr>) = moving W item L st w0 w"
  by (simp_all add: moving_def item_state_of_def verified_by_def new_events_def)

lemma moving_mono: "moving W item L st w0 w \<Longrightarrow> L' \<subseteq> L \<Longrightarrow> moving W item L' st w0 w"
  by (auto simp: moving_def)

lemma moving_kept:
  "moving W item L st w0 w \<Longrightarrow> kept {abs_source W item} w w' \<Longrightarrow> moving W item L st w0 w'"
  by (auto simp: moving_def kept_def db_frame_def item_state_of_def verified_by_def new_events_def)

lemma verified_by_emit:
  "w_events w = w_events w0 @ evs \<Longrightarrow> verified_by W item w0 w l \<Longrightarrow>
   verified_by W item w0 (w\<lparr>w_events := w_events w @ [e]\<rparr>) l"
  by (auto simp: verified_by_def new_events_def)

lemma moving_emit:
  assumes "moving W item L st w0 w" "\<not> success_event e"
  shows "moving W item L st w0 (w\<lparr>w_events := w_events w @ [e]\<rparr>)"
  using assms by (auto simp: moving_def item_state_of_def intro: verified_by_emit)

lemma moving_completed:
  assumes "moving W item L st w0 w"
  shows "moving W item (insert l L) st w0
    (w\<lparr>w_events := w_events w @ [ReplicationCompleted (wi_relpath item) n l b]\<rparr>)"
proof -
  have "moving W item L st w0 (w\<lparr>w_events := w_events w @ [ReplicationCompleted (wi_relpath item) n l b]\<rparr>)"
    by (rule moving_emit [OF assms]) simp
  moreover have "verified_by W item w0 (w\<lparr>w_events := w_events w @ [ReplicationCompleted (wi_relpath item) n l b]\<rparr>) l"
    using assms by (simp add: moving_def verified_by_def new_events_def) fastforce
  ultimately show ?thesis by (simp add: moving_def)
qed

lemma moving_phase:
  assumes "moving W item L st w0 w"
  shows "moving W item L st w0 (w\<lparr>w_fate := fs, w_db := set_dest_phase i r t ph now (w_db w)\<rparr>)"
    "moving W item L st w0 (w\<lparr>w_fate := fs, w_db := record_dest_attempt i r t e ph n now (w_db w)\<rparr>)"
  using assms
  by (auto simp: moving_def item_state_of_def store_view db_ok_set_dest_phase db_ok_record_dest_attempt
      verified_by_def new_events_def)

lemma moving_roll:
  assumes "moving W item L (Some st) w0 w"
  shows "moving W item L (Some st') w0
      (w\<lparr>w_fate := fs, w_db := set_state (wo_instance W) (wi_relpath item) st' now (w_db w)\<rparr>)"
    "moving W item L (Some st') w0
      (w\<lparr>w_fate := fs, w_db := roll_up_item (wo_instance W) (wi_relpath item) st' a n le now (w_db w)\<rparr>)"
proof -
  have "item_at (wo_instance W) (wi_relpath item) (w_db w) \<noteq> None"
    using assms by (auto simp: moving_def item_state_of_def dest: item_exists)
  then show "moving W item L (Some st') w0
      (w\<lparr>w_fate := fs, w_db := set_state (wo_instance W) (wi_relpath item) st' now (w_db w)\<rparr>)"
    "moving W item L (Some st') w0
      (w\<lparr>w_fate := fs, w_db := roll_up_item (wo_instance W) (wi_relpath item) st' a n le now (w_db w)\<rparr>)"
    using assms by (auto simp: moving_def item_state_of_def store_view db_ok_item_ops verified_by_def new_events_def)
qed

lemma moving_at_point:
  "moving W item L st w0 w \<Longrightarrow> at_point (w_files w) st W item w0 w"
  by (auto simp: moving_def at_point_def)

text \<open>The rows of the database and the phases the pipeline reads from them.\<close>

lemma collect_res_mem: "collect_res rs = Inr xs \<Longrightarrow> x \<in> set xs \<Longrightarrow> Inr x \<in> set rs"
proof (induction rs arbitrary: xs)
  case (Cons r rs)
  then show ?case by (cases r; cases "collect_res rs") auto
qed simp

lemma dest_states_rows:
  assumes "db_ok d" "dest_states inst rel d = Inr existing" "e \<in> set existing"
  shows "phase_at inst rel (ds_dest e) d = Some (ds_phase e)"
proof -
  let ?rows = "sort_key dr_dest (filter (\<lambda>r. dr_instance r = inst \<and> dr_relpath r = rel) (db_dests d))"
  have "Inr e \<in> set (List.map row_to_dest_state ?rows)"
    using assms(2,3) by (simp only: dest_states_def) (rule collect_res_mem)
  then obtain r where r: "r \<in> set ?rows" "row_to_dest_state r = Inr e" by auto
  have k: "t_ok dest_key (db_dests d)" using assms(1) by (simp add: db_ok_def)
  have "t_find dest_key (inst, rel, dr_dest r) (db_dests d) = Some r"
    using r(1) by (auto simp: t_find_Some [OF k] dest_key_def)
  then show ?thesis
    using r(2) by (auto simp: phase_at_def row_to_dest_state_def split: option.splits)
qed

lemma phase_of_at:
  assumes "db_ok d" "dest_states inst rel d = Inr existing" "phase_of existing l = DVerified"
  shows "phase_at inst rel l d = Some DVerified"
proof -
  obtain e where "state_of_label existing l = Some e" "ds_phase e = DVerified"
    using assms(3) by (auto simp: phase_of_def split: option.splits)
  then show ?thesis
    using dest_states_rows [OF assms(1,2), of e] by (auto simp: state_of_label_def find_Some_iff)
qed


section \<open>One destination\<close>

text \<open>After one destination: the labels known to be verified, and its own when it was verified.\<close>

definition outcome_moving ::
  "'h worker \<Rightarrow> work_item \<Rightarrow> string \<Rightarrow> string set \<Rightarrow> item_state option \<Rightarrow> world
   \<Rightarrow> (string \<times> dest_outcome) res \<Rightarrow> world \<Rightarrow> bool" where
  "outcome_moving W item label L st w0 r w =
     (case r of
        Inr (l, OVerified) \<Rightarrow> l = label \<and> moving W item (insert label L) st w0 w
      | _ \<Rightarrow> moving W item L st w0 w)"

text \<open>
  The three ways a pass can end for the source file that held \<open>c\<close>: untouched, cleaned up
  after every destination verified, or moved to quarantine by an exhausted item.
\<close>

definition untouched :: "'h worker \<Rightarrow> work_item \<Rightarrow> item_state option \<Rightarrow> world \<Rightarrow> item_state res option \<Rightarrow> world \<Rightarrow> bool" where
  "untouched W item st0 w0 r w' =
     (w_files w' (abs_source W item) = w_files w0 (abs_source W item)
      \<and> filter success_event (new_events w0 w') = []
      \<and> replicated_at (wo_instance W) (w_db w') = replicated_at (wo_instance W) (w_db w0)
      \<and> (case r of
           Some (Inr s) \<Rightarrow> item_state_of W item w' = Some s \<and> s \<in> {Failed, Retained}
         | _ \<Rightarrow> item_state_of W item w' \<in> {st0, Some Verified, Some Exhausted}))"

definition quarantined :: "'h worker \<Rightarrow> work_item \<Rightarrow> world \<Rightarrow> item_state res option \<Rightarrow> world \<Rightarrow> bool" where
  "quarantined W item w0 r w' =
     (co_on_exhausted (wo_completion W) = Quarantine
      \<and> (\<forall>c. w_files w0 (abs_source W item) = Some c \<longrightarrow>
            quarantine_kept (abs_source W item) (wi_relpath item) (co_failed_dir (wo_completion W)) c (w_files w'))
      \<and> filter success_event (new_events w0 w') = []
      \<and> replicated_at (wo_instance W) (w_db w') = replicated_at (wo_instance W) (w_db w0)
      \<and> (case r of
           Some (Inr s) \<Rightarrow> item_state_of W item w' = Some s \<and> s = Quarantined
         | _ \<Rightarrow> item_state_of W item w' \<in> {Some Exhausted, Some Quarantined}))"

definition exhausted_spec ::
  "'h worker \<Rightarrow> work_item \<Rightarrow> item_state option \<Rightarrow> world \<Rightarrow> item_state res option \<Rightarrow> world \<Rightarrow> bool" where
  "exhausted_spec W item st0 w0 r w' = (untouched W item st0 w0 r w' \<or> quarantined W item w0 r w')"

definition pipeline_spec ::
  "'h worker \<Rightarrow> work_item \<Rightarrow> item_state option \<Rightarrow> world \<Rightarrow> item_state res option \<Rightarrow> world \<Rightarrow> bool" where
  "pipeline_spec W item st0 w0 r w' =
     (exhausted_spec W item st0 w0 r w'
      \<or> ((\<forall>s\<in>set (wo_dests W). verified_by W item w0 w' (slot_label s))
         \<and> cleanup_spec W item (w_files w0 (abs_source W item)) (Some Verified) w0 r w'))"

context worker_env
begin

lemma wp_dest_success:
  assumes m: "moving W item L st w0 w"
  shows "wp (dest_success W label item now dl) (outcome_moving W item label L st w0) (moving W item L st w0) w"
proof -
  let ?Q = "outcome_moving W item label L st w0" and ?C = "moving W item L st w0"
  have announce: "wp (seqn (emit_event (ReplicationCompleted (wi_relpath item) (wi_size item) label (dl_bytes dl)))
      (ok (label, OVerified))) ?Q ?C w'" if "?C w'" for w'
    by (rule wp_seq_emit) (simp add: wp_ok_err outcome_moving_def moving_completed [OF that])
  show ?thesis
    unfolding dest_success_def
  proof (rule wp_seq_frames [OF frames_save_checkpoint])
    fix w' assume "kept {abs_source W item} w w'"
    then have m': "?C w'" by (rule moving_kept [OF m])
    then show "?C w'" .
    show "wp (try_act (db_write (set_dest_phase (wo_instance W) (wi_relpath item) label DVerified now)) (\<lambda>_.
        seqn (emit_event (ReplicationCompleted (wi_relpath item) (wi_size item) label (dl_bytes dl)))
          (ok (label, OVerified)))) ?Q ?C w'"
      by (rule wp_try_write, rule announce, rule moving_phase(1) [OF m'])
        (simp_all add: outcome_moving_def m')
  qed
qed

lemma wp_report_denied:
  assumes "moving W item L st w0 w" "\<And>w'. moving W item L st w0 w' \<Longrightarrow> Q () w'"
  shows "wp (report_denied label e now) Q C w"
proof -
  have "moving W item L st w0 (w\<lparr>w_perm := p, w_events := w_events w @ [PermissionDeniedEvent a b c]\<rparr>)" for p a b c
    using moving_emit [of W item L st w0 "w\<lparr>w_perm := p\<rparr>"] assms(1) by simp
  then show ?thesis
    unfolding report_denied_def
    using assms by (auto simp: wp_bnd wp_ret wp_emit intro!: wp_log_permission)
qed

lemma wp_dest_failure:
  assumes m: "moving W item L st w0 w" and s: "s \<in> set (wo_dests W)"
  shows "wp (dest_failure W s item now att e) (outcome_moving W item (slot_label s) L st w0) (moving W item L st w0) w"
proof -
  let ?Q = "outcome_moving W item (slot_label s) L st w0" and ?C = "moving W item L st w0"
  let ?row = "\<lambda>ph t. record_dest_attempt (wo_instance W) (wi_relpath item) (slot_label s) (error_text e) ph t now"
  have retry: "wp (seqn (emit_event ev) (ok (slot_label s, ORetry t x))) ?Q ?C w'"
    if "?C w'" "\<not> success_event ev" for w' ev t x
    by (rule wp_seq_emit) (simp add: wp_ok_err outcome_moving_def moving_emit [OF that])
  have gone: "wp (seqn (emit_event ev) (ok (slot_label s, OGiveUp x n))) ?Q ?C w'"
    if "?C w'" "\<not> success_event ev" for w' ev x n
    by (rule wp_seq_emit) (simp add: wp_ok_err outcome_moving_def moving_emit [OF that])
  have give_up: "wp (seqn (abort_and_clear_resume (wo_instance W) (slot_label s) (slot_dest s) item)
      (seqn (emit_event ev) (ok (slot_label s, OGiveUp x n)))) ?Q ?C w'"
    if "?C w'" "\<not> success_event ev" for w' ev x n
    by (rule wp_seq_frames [OF frames_abort_and_clear [OF dests_behave [OF s]]])
      (use that in \<open>auto intro: gone moving_kept\<close>)
  have rows: "wp (try_act (db_write (?row ph t)) f) ?Q ?C w'"
    if "?C w'" "\<And>w'. ?C w' \<Longrightarrow> wp (f ()) ?Q ?C w'" for w' ph t f
    by (rule wp_try_write) (use that in \<open>auto intro!: moving_phase simp: outcome_moving_def\<close>)
  have decided: "wp (case decide (wo_retry W) (item\<lparr>wi_attempts := att\<rparr>) (is_permanent e) now draw of
           DRetry t \<Rightarrow>
             try_act (db_write (?row DPending t)) (\<lambda>_.
             seqn (emit_event (ReplicationFailed (wi_relpath item) (slot_label s) (word_sat_add att 1) (error_text e) (Some t)))
               (ok (slot_label s, ORetry t (error_text e))))
         | DGiveUp \<Rightarrow>
             try_act (db_write (?row DExhausted now)) (\<lambda>_.
             seqn (abort_and_clear_resume (wo_instance W) (slot_label s) (slot_dest s) item)
               (seqn (emit_event (RetriesExhausted (wi_relpath item) (slot_label s) (word_sat_add att 1) (error_text e)))
                 (ok (slot_label s, OGiveUp (error_text e) (word_sat_add att 1)))))) ?Q ?C w'"
    if "?C w'" for draw w'
    by (simp split: retry_decision.split) (intro conjI allI impI rows that retry give_up; simp)
  show ?thesis
    unfolding dest_failure_def Let_def wp_seqn
    by (rule wp_report_denied [OF m]) (simp add: wp_bnd, rule wp_draw, rule decided, simp)
qed

lemma wp_run_one_dest:
  assumes m: "moving W item L st w0 w" and s: "s \<in> set (wo_dests W)"
  shows "wp (run_one_dest W s item now att) (outcome_moving W item (slot_label s) L st w0) (moving W item L st w0) w"
proof -
  let ?Q = "outcome_moving W item (slot_label s) L st w0" and ?C = "moving W item L st w0"
  let ?S = "{abs_source W item}"
  let ?deliver = "\<lambda>r. deliver_and_verify (slot_dest s) item r
      (\<lambda>n. seqn (persist_progress (wo_instance W) (wi_relpath item) now n) (ret ())) (co_verify (wo_completion W))"
  let ?next = "\<lambda>out. case out of Inr dl \<Rightarrow> dest_success W (slot_label s) item now dl
      | Inl e \<Rightarrow> dest_failure W s item now att e"
  have run: "wp (bnd (?deliver r) ?next) ?Q ?C w'" if c: "?C w'" and safe: "resume_safe ?S r" for r w'
  proof (rule wp_bnd_frames [OF frames_deliver_and_verify [OF dests_behave [OF s] safe]])
    fix out w2 assume "kept ?S w' w2"
    then have "?C w2" by (rule moving_kept [OF c])
    then show "wp (?next out) ?Q ?C w2"
      by (cases out) (simp_all add: wp_dest_success wp_dest_failure s)
  qed (rule moving_kept [OF c])
  have started: "wp (seqn (emit_event (ReplicationStarted a b c d)) (seqn (set_last_progress 0) (bnd (?deliver r) ?next))) ?Q ?C w'"
    if "?C w'" "resume_safe ?S r" for a b c d r w'
    by (rule wp_seq_emit, simp add: wp_seqn, simp add: wp_def set_last_progress_def, fold wp_def)
      (rule run, simp add: moving_emit that(1), rule that(2))
  have tok: "tokens_safe ?S (w_db w)" using m by (simp add: moving_def)
  show ?thesis
    unfolding run_one_dest_def Let_def wp_try
    by (rule wp_read_resume [OF tok])
      (use m in \<open>auto intro!: started [unfolded wp_try] simp: outcome_moving_def\<close>)
qed

lemma wp_fan_out:
  assumes "moving W item (set (fo_verified acc)) st w0 w" "set ss \<subseteq> set (wo_dests W)"
    "set (fo_verified acc) \<subseteq> slot_label ` set (wo_dests W)"
  shows "wp (fan_out W item now att ss acc)
    (\<lambda>r w'. case r of
       Inl _ \<Rightarrow> moving W item {} st w0 w'
     | Inr fo \<Rightarrow> moving W item (set (fo_verified fo)) st w0 w'
         \<and> set (fo_verified fo) \<subseteq> slot_label ` set (wo_dests W))
    (moving W item {} st w0) w"
  using assms
proof (induction ss arbitrary: acc w)
  case Nil
  then show ?case by (simp add: wp_ok_err)
next
  case (Cons s ss)
  let ?L = "set (fo_verified acc)"
  have s: "s \<in> set (wo_dests W)" using Cons.prems(2) by simp
  have step: "wp (fan_out W item now att ss (fold_outcome lo acc))
      (\<lambda>r w'. case r of
         Inl _ \<Rightarrow> moving W item {} st w0 w'
       | Inr fo \<Rightarrow> moving W item (set (fo_verified fo)) st w0 w'
           \<and> set (fo_verified fo) \<subseteq> slot_label ` set (wo_dests W))
      (moving W item {} st w0) w'"
    if "outcome_moving W item (slot_label s) ?L st w0 (Inr lo) w'" for lo w'
  proof (rule Cons.IH)
    show "set (fo_verified (fold_outcome lo acc)) \<subseteq> slot_label ` set (wo_dests W)"
      using that Cons.prems(3) s
      by (auto simp: fold_outcome_def outcome_moving_def split: prod.splits dest_outcome.splits)
    show "moving W item (set (fo_verified (fold_outcome lo acc))) st w0 w'"
      using that by (auto simp: fold_outcome_def outcome_moving_def split: prod.splits dest_outcome.splits)
  qed (use Cons.prems(2) in simp)
  show ?case
    unfolding fan_out.simps wp_try
  proof (rule wp_conseq [OF wp_run_one_dest [OF Cons.prems(1) s]])
    fix r w' assume "outcome_moving W item (slot_label s) ?L st w0 r w'"
    then show "(case r of
        Inl e \<Rightarrow> (\<lambda>w'. case Inl e of
           Inl _ \<Rightarrow> moving W item {} st w0 w'
         | Inr fo \<Rightarrow> moving W item (set (fo_verified fo)) st w0 w'
             \<and> set (fo_verified fo) \<subseteq> slot_label ` set (wo_dests W))
      | Inr lo \<Rightarrow> wp (fan_out W item now att ss (fold_outcome lo acc))
          (\<lambda>r w'. case r of
             Inl _ \<Rightarrow> moving W item {} st w0 w'
           | Inr fo \<Rightarrow> moving W item (set (fo_verified fo)) st w0 w'
               \<and> set (fo_verified fo) \<subseteq> slot_label ` set (wo_dests W))
          (moving W item {} st w0)) w'"
      by (cases r) (simp_all add: step, simp add: outcome_moving_def moving_mono)
  qed (simp add: moving_mono)
qed

text \<open>Ends that leave the source alone.\<close>

lemma moving_stopped:
  assumes "moving W item L st w0 w" "st \<in> {st0, Some Verified, Some Exhausted}" "\<And>s. r \<noteq> Some (Inr s)"
  shows "exhausted_spec W item st0 w0 r w" "pipeline_spec W item st0 w0 r w"
proof -
  have "untouched W item st0 w0 r w"
    using assms at_point_counts [OF moving_at_point [OF assms(1)]]
    by (auto simp: untouched_def moving_def split: option.split sum.split)
  then show "exhausted_spec W item st0 w0 r w" "pipeline_spec W item st0 w0 r w"
    by (simp_all add: pipeline_spec_def exhausted_spec_def)
qed

lemma moving_ended:
  assumes "moving W item L (Some s) w0 w" "s \<in> {Failed, Retained}"
  shows "exhausted_spec W item st0 w0 (Some (Inr s)) w" "pipeline_spec W item st0 w0 (Some (Inr s)) w"
proof -
  have "untouched W item st0 w0 (Some (Inr s)) w"
    using assms at_point_counts [OF moving_at_point [OF assms(1)]] by (auto simp: untouched_def moving_def)
  then show "exhausted_spec W item st0 w0 (Some (Inr s)) w" "pipeline_spec W item st0 w0 (Some (Inr s)) w"
    by (simp_all add: pipeline_spec_def exhausted_spec_def)
qed

lemma wp_wait_item:
  assumes m: "moving W item L (Some st) w0 w"
  shows "wp (wait_item W item now existing nd fo) (\<lambda>r. pipeline_spec W item (Some st) w0 (Some r))
    (pipeline_spec W item (Some st) w0 None) w"
  unfolding wait_item_def Let_def
  by (rule wp_try_write)
    (use m in \<open>auto intro!: moving_ended(2) moving_stopped(2) moving_roll(2) simp: wp_ok_err\<close>)

lemma wp_finish_exhausted:
  assumes m: "moving W item L (Some Exhausted) w0 w"
  shows "wp (finish_exhausted W item e n now) (\<lambda>r. exhausted_spec W item st0 w0 (Some r))
    (exhausted_spec W item st0 w0 None) w"
proof (cases "co_on_exhausted (wo_completion W)")
  case RetainInPlace
  show ?thesis
    unfolding finish_exhausted_def Let_def RetainInPlace on_exhausted.case
    by (rule wp_try_write)
      (use m in \<open>auto intro!: moving_ended(1) moving_stopped(1) moving_roll(1) simp: wp_ok_err\<close>)
next
  case Quarantine
  let ?Q = "\<lambda>r. exhausted_spec W item st0 w0 (Some r)" and ?C = "exhausted_spec W item st0 w0 None"
  let ?src = "abs_source W item"
  let ?kept = "\<lambda>F'. \<forall>c. w_files w0 ?src = Some c \<longrightarrow>
      quarantine_kept ?src (wi_relpath item) (co_failed_dir (wo_completion W)) c F'"
  have src: "w_files w ?src = w_files w0 ?src" using m by (simp add: moving_def)
  have stop: "?Q (Inl x) w'" "?C w'" if "at_point F' st W item w0 w'" "?kept F'" "st \<in> {Some Exhausted, Some Quarantined}" for x F' st w'
    using that at_point_counts [OF that(1)] by (auto simp: exhausted_spec_def quarantined_def Quarantine)
  have done': "?Q (Inr Quarantined) w'" if "at_point F' (Some Quarantined) W item w0 w'" "?kept F'" for F' w'
    using that at_point_counts [OF that(1)] by (auto simp: exhausted_spec_def quarantined_def Quarantine)
  have announce: "wp (seqn (emit_event (FileQuarantined a b c d)) (ok Quarantined)) ?Q ?C w'"
    if "at_point F' (Some Quarantined) W item w0 w'" "?kept F'" for F' w' a b c d
    by (rule wp_seq_emit) (simp add: wp_ok_err done' [OF at_point_emit [OF that(1)] that(2)])
  have settle: "wp (try_act (db_write (set_state (wo_instance W) (wi_relpath item) Quarantined now))
      (\<lambda>_. seqn (emit_event (FileQuarantined a b c d)) (ok Quarantined))) ?Q ?C w'"
    if p: "at_point F' (Some Exhausted) W item w0 w'" "?kept F'" for F' w' a b c d
    by (rule wp_try_write, rule announce [OF at_point_state(1) [OF p(1)] p(2)])
      (use p in \<open>auto intro!: stop\<close>)
  have point: "at_point (w_files w) (Some Exhausted) W item w0 w" by (rule moving_at_point [OF m])
  show ?thesis
    unfolding finish_exhausted_def Let_def Quarantine on_exhausted.case wp_seqn
    by (rule wp_quarantine [OF files_are_refl])
      (use quarantine_safe src in
        \<open>auto intro!: settle [unfolded wp_seqn] stop(2) at_point_files [OF point]\<close>)
qed

text \<open>The failure count moves the statistics, which the specification of the rest does not look at.\<close>

definition rebased :: "world \<Rightarrow> world \<Rightarrow> world" where
  "rebased w0 w = w0\<lparr>w_db := (w_db w0)\<lparr>db_stats := db_stats (w_db w)\<rparr>\<rparr>"

lemma rebased_spec:
  assumes "replicated_at (wo_instance W) (w_db w) = replicated_at (wo_instance W) (w_db w0)"
    "exhausted_spec W item st0 (rebased w0 w) r w'"
  shows "exhausted_spec W item st0 w0 r w'"
  using assms by (simp add: exhausted_spec_def untouched_def quarantined_def rebased_def new_events_def stat_at_def)

lemma moving_bumped:
  fixes fs :: "fate list" and b :: i64
  assumes "moving W item L st w0 w"
  defines "w' \<equiv> w\<lparr>w_fate := fs, w_db := bump_stats (wo_instance W) \<lparr>sd_replicated = 0, sd_failed = 1, sd_bytes = b\<rparr> (w_db w)\<rparr>"
  shows "moving W item {} st (rebased w0 w') w'"
    "replicated_at (wo_instance W) (w_db w') = replicated_at (wo_instance W) (w_db w0)"
proof -
  have "replicated_at (wo_instance W) (w_db w) = replicated_at (wo_instance W) (w_db w0)"
    using assms(1) by (simp add: moving_def stat_at_def)
  then show "moving W item {} st (rebased w0 w') w'"
    "replicated_at (wo_instance W) (w_db w') = replicated_at (wo_instance W) (w_db w0)"
    using assms(1) stat_at_bump(1)
    by (simp_all add: moving_def rebased_def w'_def item_state_of_def store_view db_ok_bump_stats)
qed

lemma wp_exhaust:
  assumes m: "moving W item L (Some Exhausted) w0 w"
  shows "wp (try_act (if newly then db_write (bump_stats (wo_instance W) \<lparr>sd_replicated = 0, sd_failed = 1, sd_bytes = 0\<rparr>)
                      else ok ()) (\<lambda>_. finish_exhausted W item e n now))
    (\<lambda>r. exhausted_spec W item st0 w0 (Some r)) (exhausted_spec W item st0 w0 None) w"
proof (cases newly)
  case True
  let ?dl = "\<lparr>sd_replicated = 0, sd_failed = 1, sd_bytes = 0\<rparr>"
  have "wp (try_act (db_write (bump_stats (wo_instance W) ?dl)) (\<lambda>_. finish_exhausted W item e n now))
      (\<lambda>r. exhausted_spec W item st0 w0 (Some r)) (exhausted_spec W item st0 w0 None) w"
  proof (rule wp_try_write)
    fix fs
    show "wp (finish_exhausted W item e n now) (\<lambda>r. exhausted_spec W item st0 w0 (Some r))
        (exhausted_spec W item st0 w0 None) (w\<lparr>w_fate := fs, w_db := bump_stats (wo_instance W) ?dl (w_db w)\<rparr>)"
      by (rule wp_conseq [OF wp_finish_exhausted [OF moving_bumped(1) [OF m]]])
        (erule rebased_spec [OF moving_bumped(2) [OF m]])+
  qed (use m in \<open>auto intro!: moving_stopped\<close>)
  then show ?thesis using True by simp
next
  case False
  then show ?thesis by (simp add: wp_try wp_ok_err wp_finish_exhausted [OF m])
qed

lemma wp_give_up_item:
  assumes m: "moving W item L (Some st) w0 w" and nd: "set nd \<subseteq> set (wo_dests W)"
  shows "wp (give_up_item W item now existing nd fo) (\<lambda>r. exhausted_spec W item (Some st) w0 (Some r))
    (exhausted_spec W item (Some st) w0 None) w"
proof -
  let ?S = "{abs_source W item}"
  let ?Q = "\<lambda>r. exhausted_spec W item (Some st) w0 (Some r)" and ?C = "exhausted_spec W item (Some st) w0 None"
  let ?abort = "\<lambda>s. abort_and_clear_resume (wo_instance W) (slot_label s) (slot_dest s) item"
  have rest: "wp (try_act (db_write (roll_up_item (wo_instance W) (wi_relpath item) Exhausted a now le now))
      (\<lambda>_. try_act (if newly then db_write (bump_stats (wo_instance W) \<lparr>sd_replicated = 0, sd_failed = 1, sd_bytes = 0\<rparr>)
                      else ok ()) (\<lambda>_. finish_exhausted W item e n now))) ?Q ?C w'"
    if "moving W item L (Some st) w0 w'" for w' a le newly e n
    by (rule wp_try_write, rule wp_exhaust [OF moving_roll(2) [OF that]]) (use that in \<open>auto intro!: moving_stopped\<close>)
  have fr: "frames (kept ?S) (?abort s)" if "s \<in> set (wo_dests W)" for s
    by (rule frames_abort_and_clear [OF dests_behave [OF that]])
  have f1: "frames (kept ?S) (for_each_ignore (\<lambda>(label, _, _).
              case List.find (\<lambda>s. slot_label s = label) (wo_dests W) of
                Some slot \<Rightarrow> ?abort slot | None \<Rightarrow> ret ()) (fo_retries fo))"
    by (rule frames_for_each_ignore) (auto split: option.split intro!: fr frames_ret simp: find_Some_iff)
  have f2: "frames (kept ?S) (for_each_ignore ?abort nd)"
    using nd by (intro frames_for_each_ignore fr) auto
  show ?thesis
    unfolding give_up_item_def Let_def
    by (rule wp_seq_frames [OF f1], rule wp_seq_frames [OF f2], rule rest)
      (blast intro: moving_kept m | rule moving_stopped(1), blast intro: moving_kept m, simp, simp)+
qed

section \<open>The pipeline\<close>

lemma all_verified:
  assumes "length (remdups xs) = length (wo_dests W)" "set xs \<subseteq> slot_label ` set (wo_dests W)"
  shows "set xs = slot_label ` set (wo_dests W)"
proof (rule card_subset_eq [OF _ assms(2)])
  have "card (slot_label ` set (wo_dests W)) \<le> length (wo_dests W)"
    using card_length [of "List.map slot_label (wo_dests W)"] by simp
  then show "card (set xs) = card (slot_label ` set (wo_dests W))"
    using assms(1) card_mono [OF _ assms(2)] by (simp add: length_remdups_card_conv)
qed simp

lemma wp_complete_pipeline:
  assumes m: "moving W item L (Some Verified) w0 w" and L: "slot_label ` set (wo_dests W) \<subseteq> L"
  shows "wp (complete_verified W item now) (\<lambda>r. pipeline_spec W item st0 w0 (Some r))
    (pipeline_spec W item st0 w0 None) w"
proof -
  let ?ext = "\<lambda>w'. \<exists>evs. w_events w' = w_events w @ evs"
  obtain e0 where e0: "w_events w = w_events w0 @ e0" using m by (auto simp: moving_def)
  have ver: "\<forall>s\<in>set (wo_dests W). verified_by W item w0 w' (slot_label s)" if "?ext w'" for w'
  proof
    fix s assume "s \<in> set (wo_dests W)"
    then have "verified_by W item w0 w (slot_label s)" using m L by (auto simp: moving_def)
    then show "verified_by W item w0 w' (slot_label s)"
      using that e0 by (auto simp: verified_by_def new_events_def)
  qed
  have src: "w_files w (abs_source W item) = w_files w0 (abs_source W item)" using m by (simp add: moving_def)
  show ?thesis
    unfolding complete_verified_def
    by (rule wp_conseq [OF wp_conj [OF wp_run_cleanup [OF moving_at_point [OF m] _ archive_safe]
          keepsD [OF keeps_events_cleanup [of "w_events w"]]]])
      (use ver src in \<open>auto simp: pipeline_spec_def\<close>)
qed

lemma wp_run_pipeline:
  assumes "db_ok (w_db w)" "item_state_of W item w = Some st" "tokens_safe {abs_source W item} (w_db w)"
  shows "wp (run_pipeline W item now) (\<lambda>r. pipeline_spec W item (Some st) w (Some r))
    (pipeline_spec W item (Some st) w None) w"
proof -
  let ?Q = "\<lambda>r. pipeline_spec W item (Some st) w (Some r)" and ?C = "pipeline_spec W item (Some st) w None"
  have m0: "moving W item {} (Some st) w w" using assms by (simp add: moving_def)
  have exh: "exhausted_spec W item (Some st) w r w' \<Longrightarrow> pipeline_spec W item (Some st) w r w'" for r w'
    by (simp add: pipeline_spec_def)
  have tail: "wp (if fo_giveups fo \<noteq> [] then give_up_item W item now existing nd fo
       else if length (remdups (fo_verified fo)) = length (wo_dests W)
       then try_act (db_write (set_state (wo_instance W) (wi_relpath item) Verified now)) (\<lambda>_.
            complete_verified W item now)
       else wait_item W item now existing nd fo) ?Q ?C w'"
    if m: "moving W item (set (fo_verified fo)) (Some st) w w'"
      and sub: "set (fo_verified fo) \<subseteq> slot_label ` set (wo_dests W)" and nd: "set nd \<subseteq> set (wo_dests W)"
    for fo existing nd w'
  proof -
    have a: "wp (give_up_item W item now existing nd fo) ?Q ?C w'"
      by (rule wp_conseq [OF wp_give_up_item [OF m nd]]) (simp_all add: exh)
    have b: "wp (try_act (db_write (set_state (wo_instance W) (wi_relpath item) Verified now)) (\<lambda>_.
            complete_verified W item now)) ?Q ?C w'" if "length (remdups (fo_verified fo)) = length (wo_dests W)"
      by (rule wp_try_write, rule wp_complete_pipeline [OF moving_roll(1) [OF m]])
        (use all_verified [OF that sub] m in \<open>auto intro!: moving_stopped\<close>)
    show ?thesis using a b wp_wait_item [OF m] by simp
  qed
  show ?thesis
    unfolding run_pipeline_def Let_def
  proof (rule wp_try_read)
    fix existing fs
    let ?ver = "List.map slot_label (filter (\<lambda>s. phase_of existing (slot_label s) = DVerified) (wo_dests W))"
    let ?pend = "filter (\<lambda>s. slot_label s \<notin> set ?ver) (wo_dests W)"
    let ?nd = "filter (\<lambda>s. \<not> next_attempt_of existing (slot_label s) \<le> now) ?pend"
    let ?due = "filter (\<lambda>s. next_attempt_of existing (slot_label s) \<le> now) ?pend"
    assume ex: "dest_states (wo_instance W) (wi_relpath item) (w_db w) = Inr existing"
    have m1: "moving W item (set ?ver) (Some st) w (w\<lparr>w_fate := fs\<rparr>)"
      using m0 phase_of_at [OF assms(1) ex] by (auto simp: moving_def verified_by_def item_state_of_def)
    show "wp (try_act (fan_out W item now (attempts_of existing) (wo_order W ?due)
          \<lparr>fo_verified = ?ver, fo_giveups = [], fo_retries = []\<rparr>) (\<lambda>fo.
        if fo_giveups fo \<noteq> [] then give_up_item W item now existing ?nd fo
        else if length (remdups (fo_verified fo)) = length (wo_dests W)
        then try_act (db_write (set_state (wo_instance W) (wi_relpath item) Verified now)) (\<lambda>_.
             complete_verified W item now)
        else wait_item W item now existing ?nd fo)) ?Q ?C (w\<lparr>w_fate := fs\<rparr>)"
      unfolding wp_try [of "fan_out W item now (attempts_of existing) (wo_order W ?due)
          \<lparr>fo_verified = ?ver, fo_giveups = [], fo_retries = []\<rparr>"]
    proof (rule wp_conseq [OF wp_fan_out])
      fix r :: "fan_out_result res" and w'
      assume r: "case r of
         Inl _ \<Rightarrow> moving W item {} (Some st) w w'
       | Inr fo \<Rightarrow> moving W item (set (fo_verified fo)) (Some st) w w'
           \<and> set (fo_verified fo) \<subseteq> slot_label ` set (wo_dests W)"
      show "(case r of Inl e \<Rightarrow> ?Q (Inl e) | Inr fo \<Rightarrow>
          wp (if fo_giveups fo \<noteq> [] then give_up_item W item now existing ?nd fo
        else if length (remdups (fo_verified fo)) = length (wo_dests W)
        then try_act (db_write (set_state (wo_instance W) (wi_relpath item) Verified now)) (\<lambda>_.
             complete_verified W item now)
        else wait_item W item now existing ?nd fo) ?Q ?C) w'"
      proof (cases r)
        case (Inl e)
        then show ?thesis using r moving_stopped(2) by simp
      next
        case (Inr fo)
        have "set ?nd \<subseteq> set (wo_dests W)" by auto
        with r Inr show ?thesis using tail [of fo w' ?nd existing] by (simp only: sum.case)
      qed
    qed (use m1 order_set moving_stopped(2) in auto)
  qed (rule moving_stopped(2) [where L = "{}" and st = "Some st"], simp_all add: m0)+
qed

end

end
