(* ===== verification/Local_Laws.thy ===== *)
theory Local_Laws
  imports Frames
begin

text \<open>
  What the local destination guarantees: it stays within the contract of a
  destination, a delivery is atomic at every fault and crash point, what it reports is
  what it wrote, and a verification accepts exactly the delivered content.
\<close>

section \<open>The contract\<close>

lemma frames_local_files:
  "p \<notin> S \<Longrightarrow> frames (kept S) (fs_create p)" "p \<notin> S \<Longrightarrow> frames (kept S) (fs_append p c)"
  "frames (kept S) fs_touch"
  unfolding fs_create_def fs_append_def fs_touch_def
  by (rule frames_effect; simp add: kept_file)+

lemma frames_exists: "frames (kept S) (fs_exists p)"
  unfolding fs_exists_def by (rule frames_get_world)

lemma frames_create_parent: "frames (kept S) (create_parent cl dst)"
  unfolding create_parent_def by (auto split: option.split intro!: framing frames_files)

lemma frames_copy_loop:
  assumes "temp \<notin> S" "\<And>n. frames (kept S) (progress n)"
  shows "frames (kept S) (copy_loop D temp progress cs h n)"
proof (induction cs arbitrary: h n)
  case Nil
  show ?case unfolding copy_loop.simps by (intro framing frames_local_files)
next
  case (Cons c cs)
  show ?case unfolding copy_loop.simps Let_def by (intro framing frames_local_files assms Cons.IH)
qed

lemma frames_local_stream:
  assumes "temp \<notin> S" "\<And>n. frames (kept S) (progress n)"
  shows "frames (kept S) (local_stream D L temp progress content)"
  unfolding local_stream_def by (intro framing frames_local_files frames_copy_loop assms)

lemma frames_local_publish: "temp \<notin> S \<Longrightarrow> final \<notin> S \<Longrightarrow> frames (kept S) (local_publish temp final)"
  unfolding local_publish_def
  by (rule frames_bnd) (auto split: sum.split intro!: framing frames_files frames_exists)

definition local_safe :: "path set \<Rightarrow> (work_item \<Rightarrow> u64) \<Rightarrow> local_dest \<Rightarrow> work_item \<Rightarrow> bool" where
  "local_safe S tag L it = (final_path L it \<notin> S \<and> temp_path_for (final_path L it) (tag it) \<notin> S)"

lemma resume_temp_safe:
  assumes "resume_safe S r" "Option.bind r resume_temp_path = Some prev"
  shows "prev \<notin> S"
  using assms by (auto simp: resume_safe_def resume_temp_path_def token_safe_def split: option.splits bind_splits)

lemma frames_local_deliver:
  assumes "local_safe S tag L it" "resume_safe S r" "\<And>n. frames (kept S) (progress n)"
  shows "frames (kept S) (local_deliver D tag L it r progress)"
proof -
  have safe: "final_path L it \<notin> S" "temp_path_for (final_path L it) (tag it) \<notin> S"
    using assms(1) by (simp_all add: local_safe_def)
  have prev: "frames (kept S) (case Option.bind r resume_temp_path of
      None \<Rightarrow> ret () | Some prev \<Rightarrow> seqn (fs_remove_file prev) (ret ()))"
    using resume_temp_safe [OF assms(2)] by (auto split: option.split intro!: framing frames_files)
  have tail: "frames (kept S) (case copied of
      Inl e \<Rightarrow> seqn (fs_remove_file (temp_path_for (final_path L it) (tag it))) (err e)
    | Inr (h, n) \<Rightarrow> try_act (local_publish (temp_path_for (final_path L it) (tag it)) (final_path L it)) (\<lambda>_. ok (f h n)))"
    for copied :: "('a hasher \<times> u64) res" and f :: "'a hasher \<Rightarrow> u64 \<Rightarrow> delivered"
    using safe by (auto split: sum.split prod.split intro!: framing frames_files frames_local_publish)
  show ?thesis
    unfolding local_deliver_def Let_def
    by (intro framing frames_create_parent prev frames_files frames_local_files frames_local_stream tail safe assms(3))
qed

lemma frames_local_verify: "frames (kept S) (local_verify D L it dl pol)"
  unfolding local_verify_def Let_def
  by (cases pol) (auto split: prod.split intro!: framing frames_files)

lemma frames_local_abort:
  assumes "local_safe S tag L it" "token_safe S (rs_token rs)"
  shows "frames (kept S) (local_abort tag L it rs)"
proof -
  have prev: "prev \<notin> S" if "resume_temp_path rs = Some prev" for prev
    using resume_temp_safe [of S "Some rs" prev] assms(2) that by simp
  show ?thesis
    unfolding local_abort_def
    using assms(1) prev by (auto simp: local_safe_def split: option.split intro!: framing frames_files)
qed

lemma local_well_behaved:
  assumes "local_safe S tag L it"
  shows "well_behaved S it (local_destination D tag L)"
  using assms
  by (simp add: well_behaved_def local_destination_def frames_local_deliver frames_local_verify frames_local_abort)

section \<open>The file system during a delivery\<close>

text \<open>A progress callback that touches no file.\<close>

definition quiet :: "'a act \<Rightarrow> bool" where
  "quiet m = (\<forall>w. wp m (\<lambda>_ w'. w_files w' = w_files w) (\<lambda>w'. w_files w' = w_files w) w)"

lemma wp_quiet:
  assumes "quiet m" "\<And>x w'. w_files w' = w_files w \<Longrightarrow> Q x w'" "\<And>w'. w_files w' = w_files w \<Longrightarrow> C w'"
  shows "wp m Q C w"
proof -
  have "wp m (\<lambda>_ w'. w_files w' = w_files w) (\<lambda>w'. w_files w' = w_files w) w"
    using assms(1) by (simp add: quiet_def)
  then show ?thesis by (rule wp_conseq) (erule assms(2), erule assms(3))
qed

lemma wp_fs_touch: "(\<And>r fs. Q r (w\<lparr>w_fate := fs\<rparr>)) \<Longrightarrow> (\<And>fs. C (w\<lparr>w_fate := fs\<rparr>)) \<Longrightarrow> wp fs_touch Q C w"
  unfolding fs_touch_def by (rule wp_effect) simp_all

lemma wp_touched:
  assumes "w_files w = G" "\<And>w'. w_files w' = G \<Longrightarrow> wp (f ()) Q C w'"
    "\<And>e w'. w_files w' = G \<Longrightarrow> Q (Inl e) w'" "\<And>w'. w_files w' = G \<Longrightarrow> C w'"
  shows "wp (try_act (map_err cl fs_touch) f) Q C w"
  unfolding wp_try wp_map_err by (rule wp_fs_touch) (simp_all add: assms split: sum.split)

text \<open>Only the temporary file may differ from \<open>F\<close>; or also a target that had to be freed.\<close>

definition only_temp :: "(path \<Rightarrow> bytes option) \<Rightarrow> path \<Rightarrow> world \<Rightarrow> bool" where
  "only_temp F temp w = (\<exists>x. w_files w = F(temp := x))"

lemma only_tempI: "w_files w = F(temp := x) \<Longrightarrow> only_temp F temp w"
  by (auto simp: only_temp_def)

definition unpublished :: "(path \<Rightarrow> bytes option) \<Rightarrow> path \<Rightarrow> path \<Rightarrow> world \<Rightarrow> bool" where
  "unpublished F temp final w =
     (\<exists>x y. w_files w = F(temp := x, final := y) \<and> y \<in> {F final, None})"

lemma unpublishedI:
  "temp \<noteq> final \<Longrightarrow> w_files w = F(temp := x) \<Longrightarrow> unpublished F temp final w"
  "w_files w = F(temp := x, final := None) \<Longrightarrow> unpublished F temp final w"
proof -
  assume "temp \<noteq> final" "w_files w = F(temp := x)"
  then have "w_files w = F(temp := x, final := F final)" by (simp add: fun_upd_idem)
  then show "unpublished F temp final w" unfolding unpublished_def by blast
qed (auto simp: unpublished_def)

text \<open>The copy loop fills the temporary file and hashes exactly what it wrote.\<close>

lemma wp_copy_loop:
  assumes "w_files w = F(temp := Some b)" "[] \<notin> set cs" "\<And>n. quiet (progress n)"
  shows "wp (copy_loop D temp progress cs h n)
    (\<lambda>r w'. case r of
       Inr (h', n') \<Rightarrow> w_files w' = F(temp := Some (b @ concat cs))
         \<and> hash_loop D (List.map Inr cs) h n = Inr (n', hasher_finish D h')
         \<and> n' = n + of_nat (length (concat cs))
     | Inl _ \<Rightarrow> only_temp F temp w')
    (\<lambda>w'. only_temp F temp w') w"
  using assms(1,2)
proof (induction cs arbitrary: w b h n)
  case Nil
  show ?case
    unfolding copy_loop.simps
    by (rule wp_touched [OF Nil(1)])
      (simp_all only: wp_ok_err sum.case prod.case only_tempI list.map concat.simps append_Nil2 hash_loop.simps
        list.size simp_thms semiring_1_class.of_nat_0 add.right_neutral)
next
  case (Cons c cs)
  let ?Q = "\<lambda>r w'. case r of
       Inr (h', n') \<Rightarrow> w_files w' = F(temp := Some (b @ concat (c # cs)))
         \<and> hash_loop D (List.map Inr (c # cs)) h n = Inr (n', hasher_finish D h')
         \<and> n' = n + of_nat (length (concat (c # cs)))
     | Inl _ \<Rightarrow> only_temp F temp w'"
  let ?C = "\<lambda>w'. only_temp F temp w'"
  let ?n = "n + of_nat (length c)"
  have rest: "wp (copy_loop D temp progress cs (hasher_update D h c) ?n) ?Q ?C w'"
    if "w_files w' = F(temp := Some (b @ c))" for w'
    by (rule wp_conseq [OF Cons.IH [OF that]])
      (use Cons.prems(2) in \<open>auto split: sum.splits prod.splits\<close>)
  have report: "wp (seqn (progress ?n) (copy_loop D temp progress cs (hasher_update D h c) ?n)) ?Q ?C w'"
    if "w_files w' = F(temp := Some (b @ c))" for w'
    unfolding wp_seqn by (rule wp_quiet [OF assms(3)]) (simp_all only: that rest only_tempI)
  have append': "wp (try_act (map_err classify_io (fs_append temp c)) (\<lambda>_.
      seqn (progress ?n) (copy_loop D temp progress cs (hasher_update D h c) ?n))) ?Q ?C w'"
    if "w_files w' = F(temp := Some b)" for w'
    unfolding wp_try wp_map_err fs_append_def
    by (rule wp_effect) (use that in \<open>auto simp: set_file_def unwrap_or_def intro!: report intro: only_tempI\<close>)
  show ?case
    unfolding copy_loop.simps Let_def
    by (rule wp_touched [OF Cons.prems(1)]) (simp_all only: append' only_tempI sum.case)
qed

lemma concat_read_chunks: "concat (read_chunks bs) = bs"
proof (induction bs rule: read_chunks.induct)
  case (1 bs)
  then show ?case by (subst read_chunks.simps) simp
qed

lemma wp_local_stream:
  assumes "w_files w = F(temp := Some [])" "\<And>n. quiet (progress n)"
  shows "wp (local_stream D L temp progress content)
    (\<lambda>r w'. case r of
       Inr (h, n) \<Rightarrow> w_files w' = F(temp := Some content)
         \<and> hasher_finish D h = file_checksum D (ld_algo L) content \<and> n = of_nat (length content)
     | Inl _ \<Rightarrow> only_temp F temp w')
    (\<lambda>w'. only_temp F temp w') w"
proof -
  let ?Q = "\<lambda>r w'. case r of
       Inr (h, n) \<Rightarrow> w_files w' = F(temp := Some content)
         \<and> hasher_finish D h = file_checksum D (ld_algo L) content \<and> n = of_nat (length content)
     | Inl _ \<Rightarrow> only_temp F temp w'"
  let ?C = "\<lambda>w'. only_temp F temp w'"
  have sync: "wp (try_act (if ld_fsync L then map_err classify_io fs_touch else ok ()) (\<lambda>_. ok out)) ?Q ?C w'"
    if o: "?Q (Inr out) w'" "w_files w' = F(temp := Some content)" for out :: "'a hasher \<times> u64" and w'
  proof (cases "ld_fsync L")
    case True
    have "wp (try_act (map_err classify_io fs_touch) (\<lambda>_. ok out)) ?Q ?C w'"
      by (rule wp_touched [OF o(2)]) (use o in \<open>simp_all add: wp_ok_err only_tempI split: prod.splits\<close>)
    then show ?thesis using True by simp
  qed (use o(1) in \<open>simp add: wp_try wp_ok_err\<close>)
  have flush: "wp (try_act (map_err classify_io fs_touch) (\<lambda>_.
      try_act (if ld_fsync L then map_err classify_io fs_touch else ok ()) (\<lambda>_. ok out))) ?Q ?C w'"
    if o: "?Q (Inr out) w'" for out :: "'a hasher \<times> u64" and w'
  proof -
    have f: "w_files w' = F(temp := Some content)" using o by (simp split: prod.splits)
    show ?thesis
      by (rule wp_touched [OF f], rule sync) (use o in \<open>simp_all add: only_tempI split: prod.splits\<close>)
  qed
  show ?thesis
    unfolding local_stream_def wp_try [of "copy_loop D temp progress (read_chunks content) (hasher_new D (ld_algo L)) 0"]
  proof (rule wp_conseq [OF wp_copy_loop [OF assms(1) read_chunks_no_empty assms(2)]])
    fix r :: "('a hasher \<times> u64) res" and w' :: world
    assume r: "case r of
       Inr (h', n') \<Rightarrow> w_files w' = F(temp := Some ([] @ concat (read_chunks content)))
         \<and> hash_loop D (List.map Inr (read_chunks content)) (hasher_new D (ld_algo L)) 0 = Inr (n', hasher_finish D h')
         \<and> n' = 0 + of_nat (length (concat (read_chunks content)))
     | Inl _ \<Rightarrow> only_temp F temp w'"
    show "(case r of Inl e \<Rightarrow> ?Q (Inl e) | Inr out \<Rightarrow> wp (try_act (map_err classify_io fs_touch) (\<lambda>_.
      try_act (if ld_fsync L then map_err classify_io fs_touch else ok ()) (\<lambda>_. ok out))) ?Q ?C) w'"
    proof (cases r)
      case (Inl e)
      then show ?thesis using r by simp
    next
      case (Inr out)
      then show ?thesis
        using r by (simp only: sum.case, intro flush)
          (auto simp: concat_read_chunks file_checksum_def hash_reader_def split: prod.splits)
    qed
  qed simp
qed

lemma wp_local_publish:
  assumes "w_files w = F(temp := Some c)" "temp \<noteq> final"
  shows "wp (local_publish temp final)
    (\<lambda>r w'. case r of
       Inr _ \<Rightarrow> w_files w' = F(temp := None, final := Some c)
     | Inl _ \<Rightarrow> unpublished F temp final w')
    (\<lambda>w'. unpublished F temp final w') w"
proof -
  let ?E = "unpublished F temp final"
  let ?Q = "\<lambda>r w'. case r of Inr _ \<Rightarrow> w_files w' = F(temp := None, final := Some c) | Inl _ \<Rightarrow> ?E w'"
  note here = unpublishedI(1) [OF assms(2)] and gone = unpublishedI(2)
  have rename: "wp (fs_rename temp final) (\<lambda>r w'. case r of
        Inr _ \<Rightarrow> w_files w' = F(temp := None, final := Some c) | Inl _ \<Rightarrow> w_files w' = G)
      (\<lambda>w'. w_files w' = G) w'"
    if "w_files w' = G" "G temp = Some c" "G(temp := None, final := Some c) = F(temp := None, final := Some c)" for G w'
    by (rule wp_fs_rename [OF files_are_refl _ assms(2), of w' c])
      (use that in \<open>auto simp: files_are_def\<close>)
  have again: "wp (try_act (map_err classify_io (fs_rename temp final)) (\<lambda>_. ok ())) ?Q ?E w'"
    if "w_files w' = F(temp := Some c, final := None)" for w'
    unfolding wp_try wp_map_err
    by (rule wp_conseq [OF rename [OF that]])
      (use assms(2) in \<open>auto simp: wp_ok_err fun_upd_twist split: sum.splits intro: gone\<close>)
  have free: "wp (try_act (map_err classify_io (fs_remove_file final)) (\<lambda>_.
      try_act (map_err classify_io (fs_rename temp final)) (\<lambda>_. ok ()))) ?Q ?E w'"
    if "w_files w' = F(temp := Some c)" for w'
    unfolding wp_try [of "map_err classify_io (fs_remove_file final)"] wp_map_err
  proof (rule wp_fs_remove_file [OF files_are_refl])
    fix w2 assume "files_are ((w_files w')(final := None)) w' w2"
    then have "w_files w2 = F(temp := Some c, final := None)" by (simp add: files_are_def that)
    then show "(case case Inr () of Inl e \<Rightarrow> Inl (classify_io e) | Inr x \<Rightarrow> Inr x of Inl e \<Rightarrow> ?Q (Inl e)
        | Inr x \<Rightarrow> wp (try_act (map_err classify_io (fs_rename temp final)) (\<lambda>_. ok ())) ?Q ?E) w2"
      by (simp only: sum.case) (rule again)
  qed (use that in \<open>auto simp: files_are_def intro!: here\<close>)
  have clean: "wp (seqn (fs_remove_file temp) (err e)) ?Q ?E w'"
    if "w_files w' = F(temp := Some c)" for w' e
    unfolding wp_seqn
    by (rule wp_fs_remove_file [OF files_are_refl])
      (use that in \<open>auto simp: files_are_def wp_ok_err intro!: here\<close>)
  have failed: "wp (bnd (fs_exists final) (\<lambda>ex.
             if ex then try_act (map_err classify_io (fs_remove_file final)) (\<lambda>_.
                  try_act (map_err classify_io (fs_rename temp final)) (\<lambda>_. ok ()))
             else seqn (fs_remove_file temp) (err (classify_io e)))) ?Q ?E w'"
    if "w_files w' = F(temp := Some c)" for w' e
    unfolding wp_bnd
  proof (rule wp_fs_exists [OF files_are_refl])
    show "wp (if w_files w' final \<noteq> None then try_act (map_err classify_io (fs_remove_file final)) (\<lambda>_.
                  try_act (map_err classify_io (fs_rename temp final)) (\<lambda>_. ok ()))
             else seqn (fs_remove_file temp) (err (classify_io e))) ?Q ?E w'"
      using free [OF that] clean [OF that, of "classify_io e"] by (cases "w_files w' final = None") simp_all
  qed
  show ?thesis
    unfolding local_publish_def wp_bnd [of "fs_rename temp final"]
  proof (rule wp_conseq [OF rename [OF assms(1)]])
    fix r :: "io_error + unit" and w' :: world
    assume r: "case r of Inr _ \<Rightarrow> w_files w' = F(temp := None, final := Some c) | Inl _ \<Rightarrow> w_files w' = F(temp := Some c)"
    show "wp (case r of Inr _ \<Rightarrow> ok () | Inl e \<Rightarrow> bnd (fs_exists final) (\<lambda>ex.
             if ex then try_act (map_err classify_io (fs_remove_file final)) (\<lambda>_.
                  try_act (map_err classify_io (fs_rename temp final)) (\<lambda>_. ok ()))
             else seqn (fs_remove_file temp) (err (classify_io e)))) ?Q ?E w'"
      using r by (cases r) (simp_all add: wp_ok_err failed)
  qed (simp_all add: here)
qed

section \<open>Properties\<close>

text \<open>What is at the target when a delivery did not report success.\<close>

definition target_intact :: "(path \<Rightarrow> bytes option) \<Rightarrow> path \<Rightarrow> path set \<Rightarrow> world \<Rightarrow> bool" where
  "target_intact F final aux w =
     (w_files w final \<in> {F final, None} \<and> (\<forall>p. p \<notin> insert final aux \<longrightarrow> w_files w p = F p))"

definition delivered_file ::
  "'h digests \<Rightarrow> local_dest \<Rightarrow> work_item \<Rightarrow> (path \<Rightarrow> bytes option) \<Rightarrow> path \<Rightarrow> path set \<Rightarrow> delivered \<Rightarrow> world \<Rightarrow> bool" where
  "delivered_file D L it F final aux dl w =
     (\<exists>c. F (wi_abs_source it) = Some c \<and> w_files w final = Some c
        \<and> dl_bytes dl = of_nat (length c) \<and> dl_checksum dl = file_checksum D (ld_algo L) c
        \<and> (\<forall>p. p \<notin> insert final aux \<longrightarrow> w_files w p = F p))"

lemma wp_local_deliver:
  fixes it :: work_item and r0 :: "resume_state option" and L :: local_dest and D :: "'a digests"
    and tag :: "work_item \<Rightarrow> u64"
  defines "final \<equiv> final_path L it" and "temp \<equiv> temp_path_for (final_path L it) (tag it)"
    and "aux \<equiv> insert (temp_path_for (final_path L it) (tag it)) (set_option (Option.bind r0 resume_temp_path))"
  assumes quiet: "\<And>n. quiet (progress n)"
    and apart: "wi_abs_source it \<notin> insert final aux" "final \<notin> aux"
  shows "wp (local_deliver D tag L it r0 progress)
    (\<lambda>r w'. case r of
        Inr dl \<Rightarrow> delivered_file D L it (w_files w) final aux dl w'
      | Inl _ \<Rightarrow> target_intact (w_files w) final aux w')
    (target_intact (w_files w) final aux) w"
proof -
  let ?src = "wi_abs_source it" and ?F = "w_files w"
  let ?Q = "\<lambda>r w'. case r of Inr dl \<Rightarrow> delivered_file D L it ?F final aux dl w'
      | Inl _ \<Rightarrow> target_intact ?F final aux w'"
  let ?C = "target_intact ?F final aux"
  have ta: "temp \<in> aux" by (simp add: aux_def temp_def)
  then have tf: "temp \<noteq> final" "temp \<noteq> ?src" using apart by auto
  define like where "like G = (\<forall>p. p \<notin> aux \<longrightarrow> G p = ?F p)" for G :: "path \<Rightarrow> bytes option"
  have intact: "?C w'" if "w_files w' = G" "like G" for w' G
    using that apart(2) by (simp add: target_intact_def like_def)
  have like_temp: "like (G(temp := x))" if "like G" for G x
    using that ta by (auto simp: like_def)
  have fail: "?C w'" if "like G" "unpublished G temp final w'" for G w'
    using that apart(2) ta by (auto simp: unpublished_def target_intact_def like_def)
  have succ: "delivered_file D L it ?F final aux \<lparr>dl_bytes = of_nat (length c), dl_checksum = file_checksum D (ld_algo L) c, dl_handle = j\<rparr> w'"
    if "like G" "?F ?src = Some c" "w_files w' = G(temp := None, final := Some c)" for G c j w'
    using that apart ta by (auto simp: delivered_file_def like_def)
  have publish: "wp (try_act (local_publish temp final) (\<lambda>_. ok \<lparr>dl_bytes = n, dl_checksum = hasher_finish D h, dl_handle = j\<rparr>)) ?Q ?C w'"
    if "like G" "?F ?src = Some c" "w_files w' = G(temp := Some c)" "n = of_nat (length c)"
      "hasher_finish D h = file_checksum D (ld_algo L) c" for G c n h j w'
    unfolding wp_try
    by (rule wp_conseq [OF wp_local_publish [OF that(3) tf(1)]])
      (auto simp: that(4,5) wp_ok_err succ [OF that(1,2)] fail [OF that(1)] split: sum.splits)
  have discard: "wp (seqn (fs_remove_file temp) (err e)) ?Q ?C w'" if g: "like G" "only_temp G temp w'" for G w' e
  proof -
    obtain x where x: "w_files w' = G(temp := x)" using g(2) by (auto simp: only_temp_def)
    show ?thesis
      unfolding wp_seqn
      by (rule wp_fs_remove_file [OF files_are_refl])
        (use intact [OF _ like_temp [OF g(1)]] x in \<open>auto simp: files_are_def wp_ok_err\<close>)
  qed
  let ?after = "\<lambda>copied. case copied of Inl e \<Rightarrow> seqn (fs_remove_file temp) (err e)
     | Inr (h, n) \<Rightarrow> try_act (local_publish temp final) (\<lambda>_. ok \<lparr>dl_bytes = n, dl_checksum = hasher_finish D h,
                   dl_handle = JObj [(''path'', JStr (path_display final))]\<rparr>)"
  have stream: "wp (bnd (local_stream D L temp progress c) ?after) ?Q ?C w'"
    if G: "like G" "?F ?src = Some c" "w_files w' = G(temp := Some [])" for G c w'
    unfolding wp_bnd
  proof (rule wp_conseq [OF wp_local_stream [OF G(3) quiet]])
    fix copied :: "('a hasher \<times> u64) res" and w2 :: world
    assume c: "case copied of
       Inr (h, n) \<Rightarrow> w_files w2 = G(temp := Some c)
         \<and> hasher_finish D h = file_checksum D (ld_algo L) c \<and> n = of_nat (length c)
     | Inl _ \<Rightarrow> only_temp G temp w2"
    show "wp (?after copied) ?Q ?C w2"
    proof (cases copied)
      case (Inl e)
      then show ?thesis using c discard [OF G(1)] by simp
    next
      case (Inr out)
      obtain h n where o: "out = (h, n)" by force
      then have p: "w_files w2 = G(temp := Some c)" "n = of_nat (length c)"
        "hasher_finish D h = file_checksum D (ld_algo L) c" using c Inr by simp_all
      show ?thesis unfolding Inr o sum.case prod.case by (rule publish [OF G(1,2) p])
    qed
  next
    fix w2 :: world assume "only_temp G temp w2"
    then show "?C w2" using intact like_temp [OF G(1)] by (auto simp: only_temp_def)
  qed
  have create: "wp (try_act (map_err classify_io (fs_create temp)) (\<lambda>_. bnd (local_stream D L temp progress c) ?after)) ?Q ?C w'"
    if G: "like G" "?F ?src = Some c" "w_files w' = G" for G c w'
    unfolding wp_try [of "map_err classify_io (fs_create temp)"] wp_map_err
    unfolding fs_create_def
  proof (rule wp_effect)
    fix fs
    have "w_files (set_file temp (Some []) (w'\<lparr>w_fate := fs\<rparr>)) = G(temp := Some [])" by (simp add: set_file_def G(3))
    from stream [OF G(1,2) this]
    show "case (Inr (), set_file temp (Some []) (w'\<lparr>w_fate := fs\<rparr>)) of (x, w'') \<Rightarrow>
        (case case x of Inl e \<Rightarrow> Inl (classify_io e) | Inr x \<Rightarrow> Inr x of Inl e \<Rightarrow> ?Q (Inl e)
         | Inr _ \<Rightarrow> wp (bnd (local_stream D L temp progress c) ?after) ?Q ?C) w''"
      by (simp only: prod.case sum.case)
  qed (simp_all add: intact [OF _ G(1)] G(3))
  have open': "wp (try_act (map_err classify_io (fs_open ?src)) (\<lambda>c. try_act (map_err classify_io (fs_create temp))
      (\<lambda>_. bnd (local_stream D L temp progress c) ?after))) ?Q ?C w'"
    if G: "like G" "w_files w' = G" for G w'
    unfolding wp_try [of "map_err classify_io (fs_open ?src)"] wp_map_err
  proof (cases "w_files w' ?src")
    case None
    show "wp (fs_open ?src) (\<lambda>r. case case r of Inl e \<Rightarrow> Inl (classify_io e) | Inr x \<Rightarrow> Inr x of Inl e \<Rightarrow> ?Q (Inl e)
       | Inr c \<Rightarrow> wp (try_act (map_err classify_io (fs_create temp))
           (\<lambda>_. bnd (local_stream D L temp progress c) ?after)) ?Q ?C) ?C w'"
      by (rule wp_fs_open [OF files_are_refl])
        (use intact [OF _ G(1)] G(2) None in \<open>auto simp: files_are_def\<close>)
  next
    case (Some c)
    have f: "?F ?src = Some c" using Some G apart(1) by (simp add: like_def)
    have go: "wp (try_act (map_err classify_io (fs_create temp)) (\<lambda>_. bnd (local_stream D L temp progress c) ?after)) ?Q ?C w2"
      if "files_are (w_files w') w' w2" for w2
      by (rule create [OF G(1) f]) (use that G(2) in \<open>simp add: files_are_def\<close>)
    show "wp (fs_open ?src) (\<lambda>r. case case r of Inl e \<Rightarrow> Inl (classify_io e) | Inr x \<Rightarrow> Inr x of Inl e \<Rightarrow> ?Q (Inl e)
       | Inr c \<Rightarrow> wp (try_act (map_err classify_io (fs_create temp))
           (\<lambda>_. bnd (local_stream D L temp progress c) ?after)) ?Q ?C) ?C w'"
      by (rule wp_fs_open [OF files_are_refl], simp only: Some option.case sum.case, rule go, assumption)
        (use intact [OF _ G(1)] G(2) in \<open>auto simp: files_are_def\<close>)
  qed
  have like0: "like ?F" by (simp add: like_def)
  have prev: "wp (seqn (case Option.bind r0 resume_temp_path of None \<Rightarrow> ret () | Some prev \<Rightarrow> seqn (fs_remove_file prev) (ret ()))
      (try_act (map_err classify_io (fs_open ?src)) (\<lambda>c. try_act (map_err classify_io (fs_create temp))
      (\<lambda>_. bnd (local_stream D L temp progress c) ?after)))) ?Q ?C w'"
    if "w_files w' = ?F" for w'
  proof (cases "Option.bind r0 resume_temp_path")
    case None
    then show ?thesis using open' [OF like0 that] by (simp only: wp_seqn wp_ret option.case)
  next
    case (Some prev)
    have lp: "like (?F(prev := x))" for x using Some by (auto simp: like_def aux_def)
    show ?thesis
      unfolding Some option.case wp_seqn wp_ret
      by (rule wp_fs_remove_file [OF files_are_refl]; rule open' [OF lp] open' [OF like0] intact [OF _ like0])
        (simp_all add: files_are_def that)
  qed
  show ?thesis
    unfolding local_deliver_def Let_def temp_def [symmetric] unfolding final_def [symmetric] wp_try [of "create_parent classify_io final"]
  proof (rule wp_conseq)
    show "wp (create_parent classify_io final) (\<lambda>_ w'. w_files w' = ?F) (\<lambda>w'. w_files w' = ?F) w"
    proof (cases "path_parent final")
      case (Some p)
      then show ?thesis
        unfolding create_parent_def option.case Some wp_map_err
        by (intro wp_fs_create_dir_all [OF files_are_refl]) (simp_all add: files_are_def)
    qed (simp add: create_parent_def wp_ok_err)
    fix r :: "unit res" and w' :: world assume w': "w_files w' = ?F"
    show "(case r of Inl e \<Rightarrow> ?Q (Inl e) | Inr _ \<Rightarrow> wp (seqn (case Option.bind r0 resume_temp_path of
          None \<Rightarrow> ret () | Some prev \<Rightarrow> seqn (fs_remove_file prev) (ret ()))
      (try_act (map_err classify_io (fs_open ?src)) (\<lambda>c. try_act (map_err classify_io (fs_create temp))
      (\<lambda>_. bnd (local_stream D L temp progress c) ?after)))) ?Q ?C) w'"
      by (cases r) (simp_all only: sum.case prev [OF w'] intact [OF w' like0])
  qed (rule intact [OF _ like0])
qed

lemma temp_path_other: "p \<noteq> temp_path_for p tag"
proof (cases "path_file_name p")
  case None
  then have "p = [] \<or> last p = ''..''" by (auto simp: path_file_name_def split: if_splits)
  moreover have "last (temp_path_for p tag) \<noteq> ''..''" "temp_path_for p tag \<noteq> []"
    using None by (simp_all add: temp_path_for_def)
  ultimately show ?thesis by metis
next
  case (Some s)
  then have "last p = s" by (auto simp: path_file_name_def split: if_splits)
  moreover have "length s < length (last (temp_path_for p tag))" using Some by (simp add: temp_path_for_def)
  ultimately show ?thesis by auto
qed


text \<open>What a verification accepts.\<close>

definition accepted :: "'h digests \<Rightarrow> local_dest \<Rightarrow> delivered \<Rightarrow> verify_policy \<Rightarrow> bytes option \<Rightarrow> bool" where
  "accepted D L dl pol content =
     (case pol of
        VNone \<Rightarrow> True
      | VSize \<Rightarrow> (\<exists>c. content = Some c \<and> dl_bytes dl = of_nat (length c))
      | VChecksum \<Rightarrow> (\<exists>c. content = Some c \<and> (dl_checksum dl = NoChecksum
            \<or> dl_checksum dl = file_checksum D (unwrap_or (checksum_algo (dl_checksum dl)) (ld_algo L)) c)))"

fun hasher_algo :: "'h hasher \<Rightarrow> algorithm" where
  "hasher_algo (HCrc32c _) = AlgCrc32c"
| "hasher_algo (HSha256 _) = AlgSha256"

lemma hash_loop_algo:
  "hash_loop D (List.map Inr cs) h n = Inr (m, s) \<Longrightarrow> checksum_algo s = Some (hasher_algo h)"
proof (induction cs arbitrary: h n)
  case Nil
  then show ?case by (cases h) (auto simp: hasher_finish_def checksum_algo_def)
next
  case (Cons c cs)
  have "hasher_algo (hasher_update D h c) = hasher_algo h" by (cases h) (simp_all add: hasher_update_def)
  moreover have "checksum_algo (hasher_finish D h) = Some (hasher_algo h)"
    by (cases h) (simp_all add: hasher_finish_def checksum_algo_def)
  ultimately show ?case using Cons by (auto split: if_splits)
qed

lemma file_checksum_algo [simp]: "checksum_algo (file_checksum D a c) = Some a"
proof -
  have "hasher_algo (hasher_new D a) = a" by (cases a) (simp_all add: hasher_new_def)
  then show ?thesis
    using hash_file_result [of D c a] hash_loop_algo [of D "read_chunks c" "hasher_new D a" 0]
    by (auto simp: hash_reader_def)
qed

lemma file_checksum_some: "file_checksum D a c \<noteq> NoChecksum"
  using file_checksum_algo [of D a c] by (auto simp: checksum_algo_def)

lemma wp_local_verify:
  "wp (local_verify D L it dl pol)
     (\<lambda>r w'. r = Inr () \<longrightarrow> accepted D L dl pol (w_files w (final_path L it))) (\<lambda>_. True) w"
proof (cases pol)
  case VChecksum
  let ?a = "unwrap_or (checksum_algo (dl_checksum dl)) (ld_algo L)" and ?f = "final_path L it"
  have hash: "wp (try_act (map_err classify_io (hash_open_file D c ?a)) (\<lambda>(_, actual).
      ret (verify_checksum (dl_checksum dl) actual)))
      (\<lambda>r w'. r = Inr () \<longrightarrow> accepted D L dl VChecksum (Some c)) (\<lambda>_. True) w'" for c w'
  proof -
    obtain n where n: "hash_reader D (List.map Inr (read_chunks c)) ?a = Inr (n, file_checksum D ?a c)"
      using hash_file_result by blast
    show ?thesis
      unfolding wp_try wp_map_err
      by (rule wp_hash_open_file [OF files_are_refl])
        (use n in \<open>auto simp: hash_file_error wp_ret verify_checksum_ok accepted_def file_checksum_some\<close>)
  qed
  show ?thesis
    unfolding local_verify_def Let_def VChecksum verify_policy.case wp_try [of "map_err classify_io (fs_open ?f)"] wp_map_err
    by (rule wp_fs_open [OF files_are_refl])
      (auto intro!: hash split: option.split)
next
  case VSize
  show ?thesis
    unfolding local_verify_def Let_def VSize verify_policy.case wp_try wp_map_err
    by (rule wp_fs_metadata_len [OF files_are_refl])
      (auto simp: wp_ret verify_size_ok accepted_def split: option.split)
qed (simp add: local_verify_def wp_ok_err accepted_def)

lemma quiet_effect: "w_fate w = [] \<Longrightarrow> effect f g w = (case f w of (x, w') \<Rightarrow> (Some x, w'))"
  by (simp add: effect_def next_fate_def)

text \<open>
  Verification at the local destination is sound and complete: it succeeds only on a
  target that has the delivered size or re-hashes to the delivered checksum, whichever the
  policy asks, and without an I/O fault it succeeds on every such target; so what
  a delivery reported, while nothing overwrites it, always verifies.
\<close>

theorem local_verify_exact:
  assumes "local_verify D L it dl pol w = (r, w')"
  shows "(r = Some (Inr ()) \<longrightarrow> accepted D L dl pol (w_files w (final_path L it)))
    \<and> (w_fate w = [] \<longrightarrow> accepted D L dl pol (w_files w (final_path L it)) \<longrightarrow> r = Some (Inr ()))
    \<and> (w_fate w = [] \<longrightarrow> delivered_file D L it F (final_path L it) aux dl w \<longrightarrow> r = Some (Inr ()))"
proof -
  have sound: "r = Some (Inr ()) \<longrightarrow> accepted D L dl pol (w_files w (final_path L it))"
    using wp_run [OF wp_local_verify assms] by (auto split: option.splits)
  note run = local_verify_def Let_def try_act_def bnd_def map_err_def ret_def ok_def
    fs_metadata_len_def fs_open_def hash_open_file_def quiet_effect
  have complete: "r = Some (Inr ())" if f: "w_fate w = []" and acc: "accepted D L dl pol (w_files w (final_path L it))"
  proof (cases pol)
    case VChecksum
    let ?a = "unwrap_or (checksum_algo (dl_checksum dl)) (ld_algo L)"
    obtain c where c: "w_files w (final_path L it) = Some c" "verify_checksum (dl_checksum dl) (file_checksum D ?a c) = Inr ()"
      using acc by (auto simp: accepted_def VChecksum verify_checksum_ok)
    obtain n where "hash_reader D (List.map Inr (read_chunks c)) ?a = Inr (n, file_checksum D ?a c)"
      using hash_file_result by blast
    then show ?thesis using assms f c by (simp add: VChecksum run)
  next
    case VSize
    then show ?thesis using assms f acc by (auto simp: accepted_def run verify_size_def)
  next
    case VNone
    then show ?thesis using assms by (simp add: local_verify_def ok_def ret_def)
  qed
  have "accepted D L dl pol (w_files w (final_path L it))" if "delivered_file D L it F (final_path L it) aux dl w"
    using that by (cases pol) (auto simp: accepted_def delivered_file_def unwrap_or_def)
  then show ?thesis using sound complete by blast
qed

end
