(* ===== verification/Deployment.thy ===== *)
theory Deployment
  imports Pipeline_Laws Local_Laws
begin

text \<open>
  A deployment of the worker on local directories: the watched tree, the target, the
  archive and the quarantine live under different top-level directories, the rest of the
  configuration is free. It satisfies the contract \<open>worker_env\<close> for every item,
  so the pipeline theorems hold for it with no assumption on paths left.
\<close>

record deployment =
  dp_instance :: string
  dp_in :: path
  dp_out :: path
  dp_archive :: path
  dp_failed :: path
  dp_fsync :: bool
  dp_on_success :: on_success
  dp_on_exhausted :: on_exhausted
  dp_collision :: collision
  dp_verify :: verify_policy
  dp_retry :: retry_policy

definition local_completion :: "deployment \<Rightarrow> completion_cfg" where
  "local_completion P =
     \<lparr>co_on_success = dp_on_success P, co_archive_dir = Some (''archive'' # dp_archive P),
      co_on_exhausted = dp_on_exhausted P, co_failed_dir = Some (''failed'' # dp_failed P),
      co_on_collision = dp_collision P, co_verify = dp_verify P\<rparr>"

definition local_worker ::
  "'h digests \<Rightarrow> (work_item \<Rightarrow> u64) \<Rightarrow> platform \<Rightarrow> (json \<Rightarrow> bytes) \<Rightarrow> deployment \<Rightarrow> 'h worker" where
  "local_worker D tag pf ser P =
     new_multi (dp_instance P) [local_destination D tag (local_new (''out'' # dp_out P) (dp_fsync P) AlgCrc32c)]
       (local_completion P) (''in'' # dp_in P) (dp_retry P) D pf ser (\<lambda>ss. ss)"

lemma local_worker_simps [simp]:
  "abs_source (local_worker D tag pf ser P) it = ''in'' # dp_in P @ rel_segments (wi_relpath it)"
  "wo_completion (local_worker D tag pf ser P) = local_completion P"
  "wo_instance (local_worker D tag pf ser P) = dp_instance P"
  "wo_order (local_worker D tag pf ser P) ss = ss"
  "List.map slot_dest (wo_dests (local_worker D tag pf ser P))
     = [local_destination D tag (local_new (''out'' # dp_out P) (dp_fsync P) AlgCrc32c)]"
  "wo_digests (local_worker D tag pf ser P) = D"
  by (simp_all add: local_worker_def new_multi_def abs_source_def join_rel_def label_destinations_def Let_def)

section \<open>Paths below different top-level directories\<close>

lemma hd_targets:
  assumes "p \<in> targets (d # xs)" "suffixed_name (Some d) = (\<lambda>n. d @ ''.'' @ show_nat n)"
  shows "p \<noteq> [] \<and> (\<exists>rest. hd p = d @ rest)"
proof (cases xs)
  case Nil
  then show ?thesis
    using assms by (auto simp: targets_def suffixed_def path_file_name_def split: if_splits)
next
  case (Cons y ys)
  then show ?thesis
    using assms by (auto simp: targets_def suffixed_def path_file_name_def split: if_splits)
qed

lemma hd_move_temp:
  assumes "t \<noteq> []"
  shows "move_temp_path t tag \<noteq> [] \<and> (hd (move_temp_path t tag) = hd t \<or> (\<exists>r. hd (move_temp_path t tag) = CHR ''.'' # r))"
  using assms by (cases t rule: rev_cases) (auto simp: move_temp_path_def path_parent_def hd_append)

lemma hd_temp_path:
  assumes "t \<noteq> []"
  shows "temp_path_for t tag \<noteq> [] \<and> (hd (temp_path_for t tag) = hd t \<or> (\<exists>r. hd (temp_path_for t tag) = CHR ''.'' # r))"
  using assms by (cases t rule: rev_cases) (auto simp: temp_path_for_def path_parent_def hd_append)

lemma src_safe_top:
  assumes "suffixed_name (Some d) = (\<lambda>n. d @ ''.'' @ show_nat n)" "d = c # cs" "e = a # es" "a \<noteq> c" "a \<noteq> CHR ''.''"
  shows "src_safe (e # ys) (d # xs)"
proof -
  have "e # ys \<noteq> p" if "p \<in> targets (d # xs) \<union> temps (d # xs)" for p
  proof -
    have t: "t \<noteq> [] \<and> (\<exists>rest. hd t = d @ rest)" if "t \<in> targets (d # xs)" for t
      by (rule hd_targets [OF that assms(1)])
    note in_p = that
    have "p \<noteq> [] \<and> (\<exists>r. hd p = c # r \<or> hd p = CHR ''.'' # r)"
    proof (cases "p \<in> targets (d # xs)")
      case True
      then show ?thesis using t [OF True] assms(2) by auto
    next
      case False
      then obtain t' tag where "t' \<in> targets (d # xs)" "p = move_temp_path t' tag"
        using in_p by (auto simp: temps_def)
      then show ?thesis using t [of t'] hd_move_temp [of t' tag] assms(2) by auto
    qed
    then show ?thesis using assms(3-5) by auto
  qed
  then show ?thesis by (auto simp: src_safe_def)
qed

text \<open>The error record never has a name the quarantined file may get.\<close>

lemma dots_show: "count_list (show_nat n) CHR ''.'' = 0"
proof -
  have "CHR ''.'' \<notin> set (show_nat n)" using show_nat_digits [of n] by (auto simp: is_digit_def)
  then show ?thesis by (simp add: count_list_0_iff)
qed

lemma rsplit_dot_ext: "rsplit_dot s = Some (a, b) \<Longrightarrow> count_list b CHR ''.'' = 0"
proof (induction s arbitrary: a)
  case (Cons c s)
  show ?case
  proof (cases "rsplit_dot s")
    case None
    have "CHR ''.'' \<notin> set s" using None
      by (induction s) (auto split: option.splits if_splits)
    then show ?thesis using Cons None by (auto split: if_splits simp: count_list_0_iff)
  qed (use Cons in \<open>auto split: option.splits\<close>)
qed simp

lemma sidecar_name: "suffixed_name (Some s) n \<noteq> s @ ''.error.json''"
proof
  assume eq: "suffixed_name (Some s) n = s @ ''.error.json''"
  obtain st e where se: "stem_ext s = (st, e)" by force
  have s: "s = st @ (case e of None \<Rightarrow> [] | Some x \<Rightarrow> ''.'' @ x)" by (rule stem_ext_join [OF se])
  show False
  proof (cases e)
    case None
    then have "''.'' @ show_nat n = ''.error.json''" using eq se s by (simp add: suffixed_name_def)
    then have "show_nat n = ''error.json''" by simp
    then have "count_list (show_nat n) CHR ''.'' = 1" by simp
    then show False by (simp add: dots_show)
  next
    case (Some x)
    have x: "count_list x CHR ''.'' = 0"
      using se Some rsplit_dot_ext by (auto simp: stem_ext_def split: option.splits prod.splits if_splits)
    have "''.'' @ show_nat n @ ''.'' @ x = ''.'' @ x @ ''.error.json''"
      using eq se s Some by (simp add: suffixed_name_def)
    then have "count_list (''.'' @ show_nat n @ ''.'' @ x) CHR ''.'' = count_list (''.'' @ x @ ''.error.json'') CHR ''.''"
      by simp
    then show False using x dots_show [of n] by (simp add: count_list_append)
  qed
qed

lemma sidecar_not_target: "p \<noteq> [] \<Longrightarrow> sidecar_path p \<notin> targets p"
proof -
  assume p: "p \<noteq> []"
  have "sidecar_path p \<noteq> p" using p by (cases p rule: rev_cases) (auto simp: sidecar_path_def)
  moreover have "sidecar_path p \<noteq> suffixed p n" for n
  proof (cases "path_file_name p")
    case None
    have "length (sidecar_path p) \<noteq> length (suffixed p n)" using None p by (simp add: suffixed_def sidecar_path_def)
    then show ?thesis by metis
  next
    case (Some s)
    then have "last p = s" by (auto simp: path_file_name_def split: if_splits)
    then show ?thesis using Some p sidecar_name [of s n] by (auto simp: suffixed_def sidecar_path_def)
  qed
  ultimately show ?thesis by (auto simp: targets_def)
qed

section \<open>The contract holds\<close>

lemma top_suffixes:
  "suffixed_name (Some ''archive'') = (\<lambda>n. ''archive'' @ ''.'' @ show_nat n)"
  "suffixed_name (Some ''failed'') = (\<lambda>n. ''failed'' @ ''.'' @ show_nat n)"
  by (simp_all add: suffixed_name_def stem_ext_def fun_eq_iff)

lemma local_worker_env: "worker_env (local_worker D tag pf ser P) it"
proof
  let ?W = "local_worker D tag pf ser P"
  let ?L = "local_new (''out'' # dp_out P) (dp_fsync P) AlgCrc32c"
  fix s assume "s \<in> set (wo_dests ?W)"
  then have "slot_dest s \<in> set (List.map slot_dest (wo_dests ?W))" by (simp only: set_map) (rule imageI)
  then have d: "slot_dest s = local_destination D tag ?L"
    unfolding local_worker_simps by (simp only: set_simps singleton_iff)
  have "local_safe {abs_source ?W it} tag ?L it"
    using hd_temp_path [of "final_path ?L it" "tag it"]
    by (auto simp: local_safe_def final_path_def local_new_def join_rel_def)
  then show "well_behaved {abs_source ?W it} it (slot_dest s)" unfolding d by (rule local_well_behaved)
next
  show "set (wo_order (local_worker D tag pf ser P) ss) = set ss" for ss by simp
next
  let ?W = "local_worker D tag pf ser P"
  have "src_safe (''in'' # dp_in P @ rel_segments (wi_relpath it)) (''archive'' # dp_archive P @ rel_segments (wi_relpath it))"
    by (rule src_safe_top [OF top_suffixes(1)], rule refl, rule refl) simp_all
  then show "ctx_safe (cleanup_ctx_of ?W it NoChecksum)"
    by (simp add: ctx_safe_def cleanup_ctx_of_def Let_def archive_dst_def local_completion_def join_rel_def)
next
  let ?W = "local_worker D tag pf ser P" and ?f = "''failed'' # dp_failed P @ rel_segments (wi_relpath it)"
  have "src_safe (''in'' # dp_in P @ rel_segments (wi_relpath it)) ?f"
    by (rule src_safe_top [OF top_suffixes(2)], rule refl, rule refl) simp_all
  moreover have "sidecar_path ?f \<notin> insert (abs_source ?W it) (targets ?f)"
  proof -
    have "sidecar_path ?f \<noteq> abs_source ?W it" by (simp add: sidecar_path_def)
    then show ?thesis using sidecar_not_target [of ?f] by simp
  qed
  ultimately show "quarantined_safe (abs_source ?W it) (wi_relpath it) (co_failed_dir (wo_completion ?W))"
    by (simp add: quarantined_safe_def local_completion_def join_rel_def)
qed

interpretation local_env: worker_env "local_worker D tag pf ser P" it
  by (rule local_worker_env)

end
