(* ===== verification/Fanout_Laws.thy ===== *)
theory Fanout_Laws
  imports Deployment
begin

text \<open>
  The independence of the destinations of a fan-out: which of them a pass attempts, and
  when the item is claimed again.
\<close>

section \<open>The rows a pass reads\<close>

definition dest_row_at :: "string \<Rightarrow> string \<Rightarrow> string \<Rightarrow> db \<Rightarrow> dest_row option" where
  "dest_row_at inst rel l d = t_find dest_key (inst, rel, l) (db_dests d)"

lemma collect_res_all: "collect_res rs = Inr xs \<Longrightarrow> rs = List.map Inr xs"
proof (induction rs arbitrary: xs)
  case (Cons r rs)
  then show ?case by (cases r; cases "collect_res rs") auto
qed simp

lemma state_of_label_row:
  assumes "db_ok d" "dest_states inst rel d = Inr existing"
  shows "case state_of_label existing l of
      None \<Rightarrow> dest_row_at inst rel l d = None
    | Some e \<Rightarrow> \<exists>r. dest_row_at inst rel l d = Some r \<and> row_to_dest_state r = Inr e"
proof -
  let ?rows = "sort_key dr_dest (filter (\<lambda>r. dr_instance r = inst \<and> dr_relpath r = rel) (db_dests d))"
  have k: "t_ok dest_key (db_dests d)" using assms(1) by (simp add: db_ok_def)
  have rows: "List.map row_to_dest_state ?rows = List.map Inr existing"
    using assms(2) by (simp only: dest_states_def) (rule collect_res_all)
  have find: "dest_row_at inst rel (dr_dest r) d = Some r" if "r \<in> set ?rows" for r
    using that by (auto simp: dest_row_at_def t_find_Some [OF k] dest_key_def)
  show ?thesis
  proof (cases "state_of_label existing l")
    case (Some e)
    then have e: "e \<in> set existing" "ds_dest e = l" by (auto simp: state_of_label_def find_Some_iff)
    then have "Inr e \<in> set (List.map row_to_dest_state ?rows)" by (simp only: rows) simp
    then obtain r where r: "r \<in> set ?rows" "row_to_dest_state r = Inr e" by auto
    moreover have "dr_dest r = l" using r(2) e(2) by (auto simp: row_to_dest_state_def split: option.splits)
    ultimately show ?thesis using Some find [OF r(1)] by auto
  next
    case None
    have "dest_row_at inst rel l d \<noteq> Some r" for r
    proof
      assume "dest_row_at inst rel l d = Some r"
      then have r: "r \<in> set ?rows" "dr_dest r = l"
        by (auto simp: dest_row_at_def t_find_Some [OF k] dest_key_def)
      then have "row_to_dest_state r \<in> set (List.map Inr existing)"
        by (simp only: rows [symmetric] set_map) (rule imageI)
      then obtain e where "e \<in> set existing" "row_to_dest_state r = Inr e" by auto
      then show False
        using None r(2) by (auto simp: state_of_label_def find_None_iff row_to_dest_state_def split: option.splits)
    qed
    then show ?thesis using None by (cases "dest_row_at inst rel l d") auto
  qed
qed

lemma due_row:
  assumes "db_ok d" "dest_states inst rel d = Inr existing"
  shows "next_attempt_of existing l = (case dest_row_at inst rel l d of None \<Rightarrow> 0 | Some r \<Rightarrow> dr_next_attempt_at r)"
    "(phase_of existing l = DVerified) = (phase_at inst rel l d = Some DVerified)"
  using state_of_label_row [OF assms, of l]
  by (auto simp: next_attempt_of_def phase_of_def phase_at_def dest_row_at_def row_to_dest_state_def
      split: option.splits bind_splits)

section \<open>Which destinations are attempted\<close>

text \<open>Every attempt announced since \<open>evs0\<close> is one of the labels \<open>A\<close>.\<close>

definition attempts_in :: "path set \<Rightarrow> string \<Rightarrow> string set \<Rightarrow> event list \<Rightarrow> db \<Rightarrow> event list \<Rightarrow> bool" where
  "attempts_in S rel A evs0 d es =
     (tokens_safe S d \<and> (\<exists>evs. es = evs0 @ evs \<and> (\<forall>n l a. ReplicationStarted rel n l a \<in> set evs \<longrightarrow> l \<in> A)))"

lemma attempts_inD:
  "attempts_in S rel A evs0 d es \<Longrightarrow> ReplicationStarted rel n l a \<in> set (drop (length evs0) es) \<Longrightarrow> l \<in> A"
  unfolding attempts_in_def by (elim conjE exE) (simp, blast)

lemma tokens_safe_rest:
  "tokens_safe S d \<Longrightarrow> tokens_safe S (clear_dest_states i r d)"
  "tokens_safe S d \<Longrightarrow> tokens_safe S (record_cleanup_attempt i r e st n now d)"
  by (simp_all add: tokens_safe_def clear_dest_states_def record_cleanup_attempt_def update_item_def)

context worker_env
begin

lemma keeps_attempts_frame:
  assumes "frames (kept {abs_source W item}) m"
  shows "keeps (\<lambda>w. attempts_in {abs_source W item} rel A evs0 (w_db w) (w_events w)) m"
proof (rule keepsI)
  fix w :: world assume "attempts_in {abs_source W item} rel A evs0 (w_db w) (w_events w)"
  then show "wp m (\<lambda>_ w. attempts_in {abs_source W item} rel A evs0 (w_db w) (w_events w))
      (\<lambda>w. attempts_in {abs_source W item} rel A evs0 (w_db w) (w_events w)) w"
    by (intro wp_frames [OF assms]) (auto simp: attempts_in_def kept_def)
qed

lemma keeps_attempts_write:
  "(\<And>d. tokens_safe {abs_source W item} d \<Longrightarrow> tokens_safe {abs_source W item} (f d)) \<Longrightarrow>
   keeps (\<lambda>w. attempts_in {abs_source W item} rel A evs0 (w_db w) (w_events w)) (db_write f)"
  by (rule keeps_db_write) (auto simp: blind_def attempts_in_def)

lemma keeps_attempts_read: "keeps (\<lambda>w. attempts_in S rel A evs0 (w_db w) (w_events w)) (db_read f)"
  by (rule keeps_db_read) (simp add: blind_def)

lemma keeps_attempts_emit:
  "(\<And>n l a. e = ReplicationStarted rel n l a \<Longrightarrow> l \<in> A) \<Longrightarrow>
   keeps (\<lambda>w. attempts_in S rel A evs0 (w_db w) (w_events w)) (emit_event e)"
  by (rule keeps_emit) (fastforce simp: attempts_in_def)

lemma keeps_attempts_misc:
  "keeps (\<lambda>w. attempts_in S rel A evs0 (w_db w) (w_events w)) draw_rng"
  "keeps (\<lambda>w. attempts_in S rel A evs0 (w_db w) (w_events w)) (log_permission k kd now)"
  "keeps (\<lambda>w. attempts_in S rel A evs0 (w_db w) (w_events w)) (set_last_progress n)"
  by (rule keeps_draw, simp, rule keeps_log_permission, simp) (simp add: keeps_def wp_def set_last_progress_def)

lemmas attempts_rules = keeps_try keeps_bnd keeps_seqn keeps_ret keeps_ok_err keeps_attempts_write
  keeps_attempts_read keeps_attempts_emit keeps_attempts_misc

lemma keeps_attempts_one_dest:
  assumes s: "s \<in> set (wo_dests W)" and A: "slot_label s \<in> A"
  shows "keeps (\<lambda>w. attempts_in {abs_source W item} rel A evs0 (w_db w) (w_events w)) (run_one_dest W s item now att)"
proof -
  let ?P = "\<lambda>w. attempts_in {abs_source W item} rel A evs0 (w_db w) (w_events w)"
  note wb = dests_behave [OF s]
  have success: "keeps ?P (dest_success W (slot_label s) item now dl)" for dl
    unfolding dest_success_def
    by (intro keeps_seqn keeps_attempts_frame [OF frames_save_checkpoint] attempts_rules) simp_all
  have denied: "keeps ?P (report_denied l e now)" for l e
    unfolding report_denied_def by (auto intro!: attempts_rules)
  have abort: "keeps ?P (abort_and_clear_resume i l (slot_dest s) item)" for i l
    by (rule keeps_attempts_frame [OF frames_abort_and_clear [OF wb]])
  have failure: "keeps ?P (dest_failure W s item now att e)" for e
    unfolding dest_failure_def Let_def
    by (intro keeps_seqn denied keeps_bnd keeps_attempts_misc)
      (auto split: retry_decision.split intro!: keeps_try keeps_seqn keeps_ok_err keeps_attempts_write
        keeps_attempts_emit abort)
  have deliver: "keeps ?P (bnd (deliver_and_verify (slot_dest s) item r
      (\<lambda>n. seqn (persist_progress (wo_instance W) (wi_relpath item) now n) (ret ())) (co_verify (wo_completion W)))
      (\<lambda>out. case out of Inr dl \<Rightarrow> dest_success W (slot_label s) item now dl | Inl e \<Rightarrow> dest_failure W s item now att e))"
    if "resume_safe {abs_source W item} r" for r
    by (intro keeps_bnd keeps_attempts_frame [OF frames_deliver_and_verify [OF wb that]])
      (auto split: sum.split intro: success failure)
  show ?thesis
  proof (rule keepsI)
    fix w :: world assume P: "?P w"
    then have tok: "tokens_safe {abs_source W item} (w_db w)" by (simp add: attempts_in_def)
    have step: "wp (seqn (emit_event (ReplicationStarted a b (slot_label s) c)) (seqn (set_last_progress 0)
      (bnd (deliver_and_verify (slot_dest s) item r
      (\<lambda>n. seqn (persist_progress (wo_instance W) (wi_relpath item) now n) (ret ())) (co_verify (wo_completion W)))
      (\<lambda>out. case out of Inr dl \<Rightarrow> dest_success W (slot_label s) item now dl | Inl e \<Rightarrow> dest_failure W s item now att e))))
      (\<lambda>_. ?P) ?P w'" if "?P w'" "resume_safe {abs_source W item} r" for a b c r w'
    proof (rule keepsD [where P = ?P])
      show "?P w'" by (rule that(1))
      show "keeps ?P (seqn (emit_event (ReplicationStarted a b (slot_label s) c)) (seqn (set_last_progress 0)
      (bnd (deliver_and_verify (slot_dest s) item r
      (\<lambda>n. seqn (persist_progress (wo_instance W) (wi_relpath item) now n) (ret ())) (co_verify (wo_completion W)))
      (\<lambda>out. case out of Inr dl \<Rightarrow> dest_success W (slot_label s) item now dl | Inl e \<Rightarrow> dest_failure W s item now att e))))"
        by (intro keeps_seqn deliver that(2) keeps_attempts_misc keeps_attempts_emit) (use A in simp)
    qed
    show "wp (run_one_dest W s item now att) (\<lambda>_. ?P) ?P w"
      unfolding run_one_dest_def Let_def wp_try
      by (rule wp_read_resume [OF tok]) (use P in \<open>auto intro!: step\<close>)
  qed
qed

lemma keeps_attempts_fan_out:
  assumes "set ss \<subseteq> set (wo_dests W)" "slot_label ` set ss \<subseteq> A"
  shows "keeps (\<lambda>w. attempts_in {abs_source W item} rel A evs0 (w_db w) (w_events w)) (fan_out W item now att ss acc)"
  using assms
proof (induction ss arbitrary: acc)
  case (Cons s ss)
  then show ?case
    unfolding fan_out.simps by (intro keeps_try keeps_attempts_one_dest Cons.IH) auto
qed (simp add: keeps_ok_err)

lemma keeps_attempts_exhausted:
  "keeps (\<lambda>w. attempts_in {abs_source W item} rel A evs0 (w_db w) (w_events w)) (finish_exhausted W item e n now)"
proof -
  let ?p = "attempts_in {abs_source W item} rel A evs0"
  have files: "keeps (\<lambda>w. ?p (w_db w) (w_events w)) (fs_write a c)" for a c
    unfolding fs_write_def by (rule keeps_db_effect) (simp_all add: set_file_def)
  have quarantine: "keeps (\<lambda>w. ?p (w_db w) (w_events w)) (apply_quarantine_action ser fd src col qx)" for ser fd src col qx
    unfolding apply_quarantine_action_def write_error_sidecar_def Let_def
    by (auto split: option.split intro!: keeps_bnd keeps_seqn keeps_ret keeps_db_files keeps_db_move files)
  show ?thesis
    unfolding finish_exhausted_def Let_def
    by (cases "co_on_exhausted (wo_completion W)") (auto intro!: attempts_rules quarantine)
qed

lemma keeps_attempts_give_up:
  assumes "set nd \<subseteq> set (wo_dests W)"
  shows "keeps (\<lambda>w. attempts_in {abs_source W item} rel A evs0 (w_db w) (w_events w))
    (give_up_item W item now existing nd fo)"
proof -
  have fr: "frames (kept {abs_source W item}) (abort_and_clear_resume i l (slot_dest s) item)"
    if "s \<in> set (wo_dests W)" for i l s
    by (rule frames_abort_and_clear [OF dests_behave [OF that]])
  show ?thesis
    unfolding give_up_item_def Let_def
  proof (intro keeps_seqn)
    show "keeps (\<lambda>w. attempts_in {abs_source W item} rel A evs0 (w_db w) (w_events w))
        (for_each_ignore (\<lambda>(label, _, _). case List.find (\<lambda>s. slot_label s = label) (wo_dests W) of
            Some slot \<Rightarrow> abort_and_clear_resume (wo_instance W) (slot_label slot) (slot_dest slot) item
          | None \<Rightarrow> ret ()) (fo_retries fo))"
      by (rule keeps_attempts_frame, rule frames_for_each_ignore)
        (auto split: option.split intro!: fr frames_ret simp: find_Some_iff)
    show "keeps (\<lambda>w. attempts_in {abs_source W item} rel A evs0 (w_db w) (w_events w))
        (for_each_ignore (\<lambda>slot. abort_and_clear_resume (wo_instance W) (slot_label slot) (slot_dest slot) item) nd)"
      by (rule keeps_attempts_frame, rule frames_for_each_ignore) (use assms in \<open>auto intro!: fr\<close>)
  qed (auto intro!: keeps_try keeps_attempts_write keeps_attempts_exhausted keeps_ok_err)
qed

lemma keeps_attempts_cleanup:
  "keeps (\<lambda>w. attempts_in {abs_source W item} rel A evs0 (w_db w) (w_events w)) (run_cleanup W item now)"
proof -
  let ?P = "\<lambda>w. attempts_in {abs_source W item} rel A evs0 (w_db w) (w_events w)"
  have finish: "keeps ?P (finish_completed W item d now)" for d
    unfolding finish_completed_def Let_def
    by (intro attempts_rules) (auto intro: tokens_safe_ops tokens_safe_rest split: cleanup_done.splits)
  have failure: "keeps ?P (record_cleanup_failure W item a e now)" for a e
    unfolding record_cleanup_failure_def Let_def
    by (intro keeps_bnd keeps_attempts_misc)
      (auto split: retry_decision.split intro!: attempts_rules tokens_safe_rest)
  show ?thesis
    unfolding run_cleanup_def
    by (intro keeps_try keeps_bnd keeps_attempts_write keeps_attempts_frame [OF frames_delivered_checksum]
        keeps_db_action [where p = "attempts_in {abs_source W item} rel A evs0"])
      (auto intro: finish failure split: sum.split)
qed

lemma wp_attempts_pipeline:
  fixes now :: i64
  assumes "db_ok (w_db w)" "tokens_safe {abs_source W item} (w_db w)"
  defines "A \<equiv> {l. phase_at (wo_instance W) (wi_relpath item) l (w_db w) \<noteq> Some DVerified
      \<and> (case dest_row_at (wo_instance W) (wi_relpath item) l (w_db w) of None \<Rightarrow> 0 | Some r \<Rightarrow> dr_next_attempt_at r) \<le> now}"
  shows "wp (run_pipeline W item now)
    (\<lambda>_ w'. attempts_in {abs_source W item} (wi_relpath item) A (w_events w) (w_db w') (w_events w'))
    (\<lambda>w'. attempts_in {abs_source W item} (wi_relpath item) A (w_events w) (w_db w') (w_events w')) w"
proof -
  let ?P = "\<lambda>w'. attempts_in {abs_source W item} (wi_relpath item) A (w_events w) (w_db w') (w_events w')"
  have P: "?P w" using assms(2) by (simp add: attempts_in_def)
  have step: "keeps ?P (try_act (fan_out W item now att (wo_order W due) acc) (\<lambda>fo.
        if fo_giveups fo \<noteq> [] then give_up_item W item now existing nd fo
        else if length (remdups (fo_verified fo)) = length (wo_dests W)
        then try_act (db_write (set_state (wo_instance W) (wi_relpath item) Verified now)) (\<lambda>_. complete_verified W item now)
        else wait_item W item now existing nd fo))"
    if "set due \<subseteq> set (wo_dests W)" "slot_label ` set due \<subseteq> A" "set nd \<subseteq> set (wo_dests W)" for att due acc existing nd
  proof -
    have wait: "keeps ?P (wait_item W item now existing nd fo)" for fo
      unfolding wait_item_def Let_def by (intro attempts_rules) simp
    have complete: "keeps ?P (try_act (db_write (set_state (wo_instance W) (wi_relpath item) Verified now)) (\<lambda>_. complete_verified W item now))"
      unfolding complete_verified_def by (intro keeps_try keeps_attempts_write keeps_attempts_cleanup) simp
    show ?thesis
      by (intro keeps_try keeps_attempts_fan_out)
        (use that order_set wait complete keeps_attempts_give_up in auto)
  qed
  show ?thesis
    unfolding run_pipeline_def Let_def
  proof (rule wp_try_read)
    fix existing fs
    assume ex: "dest_states (wo_instance W) (wi_relpath item) (w_db w) = Inr existing"
    let ?ver = "List.map slot_label (filter (\<lambda>s. phase_of existing (slot_label s) = DVerified) (wo_dests W))"
    let ?pend = "filter (\<lambda>s. slot_label s \<notin> set ?ver) (wo_dests W)"
    let ?due = "filter (\<lambda>s. next_attempt_of existing (slot_label s) \<le> now) ?pend"
    have "slot_label ` set ?due \<subseteq> A"
      by (auto simp: A_def due_row [OF assms(1) ex, symmetric] image_iff)
    then show "wp (try_act (fan_out W item now (attempts_of existing) (wo_order W ?due)
          \<lparr>fo_verified = ?ver, fo_giveups = [], fo_retries = []\<rparr>) (\<lambda>fo.
        if fo_giveups fo \<noteq> [] then give_up_item W item now existing
            (filter (\<lambda>s. \<not> next_attempt_of existing (slot_label s) \<le> now) ?pend) fo
        else if length (remdups (fo_verified fo)) = length (wo_dests W)
        then try_act (db_write (set_state (wo_instance W) (wi_relpath item) Verified now)) (\<lambda>_.
             complete_verified W item now)
        else wait_item W item now existing (filter (\<lambda>s. \<not> next_attempt_of existing (slot_label s) \<le> now) ?pend) fo))
        (\<lambda>_. ?P) ?P (w\<lparr>w_fate := fs\<rparr>)"
      by (intro keepsD [OF step]) (use P in auto)
  qed (use P in simp_all)
qed

end

end
