(* ===== verification/Worker_Properties.thy ===== *)
theory Worker_Properties
  imports Fanout_Laws
begin

text \<open>
  What the worker guarantees for a tracked file: the outcome of a pass, the order of
  verification and release, recovery, and the independence of the destinations of a
  fan-out. The witnesses run on the local deployment.
\<close>

section \<open>The pipeline\<close>

text \<open>
  C2. A pass over an item has only the outcomes of the specification, whatever fails and
  wherever the process dies: the source is untouched and the state returned is the state
  recorded (\<open>Failed\<close> or \<open>Retained\<close>); or every destination verified its copy and the completion
  went as specified; or the item was exhausted and its file is in quarantine or in place.
\<close>

theorem pipeline_outcome:
  assumes "run_pipeline W item now w = (r, w')" "worker_env W item" "db_ok (w_db w)"
    "item_state_of W item w = Some st" "tokens_safe {abs_source W item} (w_db w)"
  shows "pipeline_spec W item (Some st) w r w'"
  using wp_run [OF worker_env.wp_run_pipeline [OF assms(2-5)] assms(1)] by (cases r) simp_all

definition ex_deployment :: "on_success \<Rightarrow> deployment" where
  "ex_deployment a =
     \<lparr>dp_instance = ''i'', dp_in = [], dp_out = [], dp_archive = [], dp_failed = [], dp_fsync = True,
      dp_on_success = a, dp_on_exhausted = Quarantine, dp_collision = Suffix, dp_verify = VChecksum,
      dp_retry = retry_default\<rparr>"

definition ex_worker :: "on_success \<Rightarrow> u32 worker" where
  "ex_worker a = local_worker sum_digests (\<lambda>_. 7) PUnix (\<lambda>_. []) (ex_deployment a)"

definition ex_item :: work_item where
  "ex_item = \<lparr>wi_instance = ''i'', wi_relpath = ''a.csv'', wi_abs_source = [''in'', ''a.csv''], wi_state = InProgress,
     wi_size = 3, wi_discovered_at = 1, wi_attempts = 0, wi_cleanup_attempts = 0, wi_next_attempt_at = 0,
     wi_last_error = None, wi_bytes_done = 0, wi_updated_at = 1\<rparr>"

definition ex_tracked :: "fate list \<Rightarrow> world" where
  "ex_tracked fs = (ex_world fs)\<lparr>w_db := set_state ''i'' ''a.csv'' InProgress 5
     (upsert_ready ''i'' ''a.csv'' 3 1 1 open_in_memory)\<rparr>"

lemma ex_tracked_db:
  "db_ok (w_db (ex_tracked fs))" "item_state_of (ex_worker a) ex_item (ex_tracked fs) = Some InProgress"
  "tokens_safe S (w_db (ex_tracked fs))" "w_files (ex_tracked fs) [''in'', ''a.csv''] = Some [1, 2, 3]"
proof -
  have "db_ok open_in_memory" by (simp add: db_ok_def open_in_memory_def t_ok_def)
  then show "db_ok (w_db (ex_tracked fs))" by (simp add: ex_tracked_def db_ok_item_ops db_ok_upsert_ready)
  show "item_state_of (ex_worker a) ex_item (ex_tracked fs) = Some InProgress"
    by (simp add: item_state_of_def ex_worker_def ex_deployment_def ex_item_def ex_tracked_def store_view upsert_ready_items)
      (simp add: item_at_def t_find_def open_in_memory_def)
  show "tokens_safe S (w_db (ex_tracked fs))"
    by (simp add: ex_tracked_def tokens_safe_def store_view upsert_ready_def Let_def open_in_memory_def
        clear_resume_all_def clear_dest_states_def t_delete_def)
  show "w_files (ex_tracked fs) [''in'', ''a.csv''] = Some [1, 2, 3]"
    by (simp add: ex_tracked_def ex_world_def)
qed

lemma ex_env: "worker_env (ex_worker a) ex_item"
  unfolding ex_worker_def by (rule local_worker_env)

lemma ex_source: "abs_source (ex_worker a) ex_item = [''in'', ''a.csv'']"
  by (simp add: ex_worker_def ex_deployment_def ex_item_def rel_segments_def)

theorem pipeline_outcome_witness:
  "\<exists>r w'. run_pipeline (ex_worker OnArchive) ex_item 9 (ex_tracked [Fine, Fine, Fault enoent 1]) = (r, w')
     \<and> pipeline_spec (ex_worker OnArchive) ex_item (Some InProgress) (ex_tracked [Fine, Fine, Fault enoent 1]) r w'"
proof -
  obtain r w' where run: "run_pipeline (ex_worker OnArchive) ex_item 9 (ex_tracked [Fine, Fine, Fault enoent 1]) = (r, w')"
    by force
  from pipeline_outcome [OF run ex_env ex_tracked_db(1,2,3)] run show ?thesis by blast
qed

lemma proven_content:
  assumes "proven_done D cx d F F'" "F (cx_src cx) = Some c"
  shows "F' (cx_src cx) = None \<and> (cx_on_success cx = OnDelete \<or> (\<exists>p. F' p = Some c))"
proof (cases d)
  case Deleted
  then show ?thesis using assms by (simp add: proven_done_def)
next
  case (Archived t)
  then show ?thesis using assms by (cases t) (auto simp: proven_done_def)
qed

lemma release_after_verify:
  assumes "run_pipeline W item now w = (r, w')" "worker_env W item" "db_ok (w_db w)"
    "item_state_of W item w = Some st" "st \<noteq> Completed" "tokens_safe {abs_source W item} (w_db w)"
    "w_files w (abs_source W item) = Some c"
  defines "all_verified \<equiv> \<forall>s\<in>set (wo_dests W). verified_by W item w w' (slot_label s)"
  shows "(w_files w' (abs_source W item) \<noteq> Some c \<longrightarrow> all_verified
        \<or> (co_on_exhausted (wo_completion W) = Quarantine
           \<and> item_state_of W item w' \<in> {Some Exhausted, Some Quarantined}))
    \<and> ((\<forall>p. w_files w' p \<noteq> Some c) \<longrightarrow> all_verified \<and> co_on_success (wo_completion W) = OnDelete)
    \<and> (item_state_of W item w' = Some Completed \<longrightarrow> all_verified \<and> w_files w' (abs_source W item) = None)"
proof -
  let ?src = "abs_source W item" and ?del = "co_on_success (wo_completion W) = OnDelete"
  have spec: "pipeline_spec W item (Some st) w r w'"
    using wp_run [OF worker_env.wp_run_pipeline [OF assms(2,3,4,6)] assms(1)] by (cases r) simp_all
  have rel: "w_files w' ?src = None \<and> (?del \<or> (\<exists>p. w_files w' p = Some c))" if "released W item (Some c) (w_files w')"
    using that by (auto simp: released_def dest!: proven_content)
  have kept: "w_files w' ?src = Some c \<or> (\<exists>p. w_files w' p = Some c)" if "retained_content W item (Some c) (w_files w')"
    using that by (auto simp: retained_content_def content_kept_def)
  from spec consider (same) "untouched W item (Some st) w r w'"
    | (cleaned) "all_verified" "cleanup_spec W item (Some c) (Some Verified) w r w'"
    | (quar) "quarantined W item w r w'"
    by (auto simp: pipeline_spec_def exhausted_spec_def all_verified_def assms(7))
  then show ?thesis
  proof cases
    case same
    then show ?thesis using assms(5,7) by (auto simp: untouched_def split: option.splits sum.splits)
  next
    case cleaned
    then show ?thesis
      using rel kept by (auto simp: cleanup_spec_def Let_def split: option.splits sum.splits)
  next
    case quar
    then have "\<exists>p. w_files w' p = Some c"
      using assms(7) by (auto simp: quarantined_def quarantine_kept_def split: option.splits)
    then show ?thesis using quar by (auto simp: quarantined_def split: option.splits sum.splits)
  qed
qed



section \<open>Recovery\<close>

text \<open>A destination that never confirms its copy of the item.\<close>

definition refuses :: "destination \<Rightarrow> work_item \<Rightarrow> bool" where
  "refuses d it = (\<forall>dl pol w. fst (d_verify d it dl pol w) \<noteq> Some (Inr ()))"

lemma wp_verify_verdict:
  assumes "well_behaved S it d"
  shows "wp (d_verify d it dl pol) (\<lambda>v w'. kept S w w' \<and> (refuses d it \<longrightarrow> (\<exists>e. v = Inl e))) (kept S w) w"
proof -
  have "wp (d_verify d it dl pol) (\<lambda>v _. refuses d it \<longrightarrow> (\<exists>e. v = Inl e)) (\<lambda>_. True) w"
  proof -
    obtain v w' where v: "d_verify d it dl pol w = (v, w')" by force
    have "v \<noteq> Some (Inr ())" if "refuses d it" using that v by (auto simp: refuses_def) (metis fst_conv)
    then show ?thesis by (auto simp: wp_def v split: option.split sum.split) (metis old.sum.exhaust old.unit.exhaust)
  qed
  from wp_conj [OF framesD [OF well_behavedD(2) [OF assms]] this]
  show ?thesis by (rule wp_conseq) auto
qed

lemma wp_reverify:
  assumes m: "moving W item {} st w0 w" and env: "worker_env W item" and s: "s \<in> set (wo_dests W)"
  shows "wp (reverify_one_dest W s item now)
    (\<lambda>r w'. moving W item {} st w0 w' \<and> (refuses (slot_dest s) item \<longrightarrow> r \<noteq> Inr True)) (moving W item {} st w0) w"
proof -
  let ?C = "moving W item {} st w0" and ?ref = "refuses (slot_dest s) item"
  let ?Q = "\<lambda>r w'. ?C w' \<and> (?ref \<longrightarrow> r \<noteq> Inr True)"
  let ?set = "\<lambda>ph. set_dest_phase (wo_instance W) (wi_relpath item) (slot_label s) ph now"
  have wb: "well_behaved {abs_source W item} item (slot_dest s)" by (rule worker_env.dests_behave [OF env s])
  have good: "wp (try_act (db_write (?set DVerified)) (\<lambda>_. ok True)) ?Q ?C w'" if "?C w'" "\<not> ?ref" for w'
    by (rule wp_try_write) (use that in \<open>auto intro!: moving_phase simp: wp_ok_err\<close>)
  have clear: "wp (seqn (db_write (clear_resume (wo_instance W) (wi_relpath item) (slot_label s))) (ok False)) ?Q ?C w'"
    if "?C w'" for w'
    by (rule wp_seq_frames [where S = "{abs_source W item}"])
      (use that in \<open>auto intro!: framing intro: moving_kept simp: wp_ok_err\<close>)
  have bad: "wp (try_act (db_write (?set DPending)) (\<lambda>_. seqn (db_write (clear_resume (wo_instance W) (wi_relpath item) (slot_label s))) (ok False))) ?Q ?C w'"
    if "?C w'" for w'
    by (rule wp_try_write, rule clear) (use that in \<open>auto intro!: moving_phase\<close>)
  have verdict: "wp (bnd (d_verify (slot_dest s) item dl pol) (\<lambda>v. case v of
      Inr _ \<Rightarrow> try_act (db_write (?set DVerified)) (\<lambda>_. ok True)
    | Inl _ \<Rightarrow> try_act (db_write (?set DPending)) (\<lambda>_. seqn (db_write (clear_resume (wo_instance W) (wi_relpath item) (slot_label s))) (ok False)))) ?Q ?C w'"
    if "?C w'" for dl pol w'
    unfolding wp_bnd
    by (rule wp_conseq [OF wp_verify_verdict [OF wb]])
      (use that in \<open>auto split: sum.split intro!: good bad intro: moving_kept\<close>)
  show ?thesis
    unfolding reverify_one_dest_def Let_def
    by (rule wp_try_frames [OF frames_read_resume])
      (use m in \<open>auto split: prod.split intro!: verdict intro: moving_kept\<close>)
qed

lemma wp_reverify_all:
  assumes "moving W item {} st w0 w" "worker_env W item" "set ss \<subseteq> set (wo_dests W)"
  shows "wp (reverify_all W ss item now b)
    (\<lambda>r w'. moving W item {} st w0 w' \<and> (\<not> b \<or> (\<exists>s\<in>set ss. refuses (slot_dest s) item) \<longrightarrow> r \<noteq> Inr True))
    (moving W item {} st w0) w"
  using assms(1,3)
proof (induction ss arbitrary: b w)
  case Nil
  then show ?case by (simp add: wp_ok_err)
next
  case (Cons s ss)
  have s: "s \<in> set (wo_dests W)" "set ss \<subseteq> set (wo_dests W)" using Cons.prems by auto
  show ?case
    unfolding reverify_all.simps wp_try
  proof (rule wp_conseq [OF wp_reverify [OF Cons.prems(1) assms(2) s(1)]])
    fix r :: "bool res" and w'
    assume r: "moving W item {} st w0 w' \<and> (refuses (slot_dest s) item \<longrightarrow> r \<noteq> Inr True)"
    show "(case r of
        Inl e \<Rightarrow> \<lambda>w'. moving W item {} st w0 w'
          \<and> (\<not> b \<or> (\<exists>s\<in>set (s # ss). refuses (slot_dest s) item) \<longrightarrow> Inl e \<noteq> Inr True)
      | Inr v \<Rightarrow> wp (reverify_all W ss item now (b \<and> v))
          (\<lambda>r w'. moving W item {} st w0 w'
             \<and> (\<not> b \<or> (\<exists>s\<in>set (s # ss). refuses (slot_dest s) item) \<longrightarrow> r \<noteq> Inr True))
          (moving W item {} st w0)) w'"
    proof (cases r)
      case (Inr v)
      show ?thesis
        unfolding Inr sum.case
        by (rule wp_conseq [OF Cons.IH [OF conjunct1 [OF r] s(2)]]) (use r Inr in auto)
    qed (use r in simp)
  qed simp
qed

text \<open>
  C6. Recovery never trusts a copy it cannot confirm: when some destination does not
  verify its copy, the recovery of a \<open>Verified\<close> item leaves the source, the statistics and the
  success events alone and the item goes back to \<open>Ready\<close> at most.
\<close>

theorem recovery_needs_every_copy:
  assumes "recover_verified W item now w = (r, w')" "worker_env W item" "db_ok (w_db w)"
    "item_state_of W item w = Some st" "tokens_safe {abs_source W item} (w_db w)"
    "s \<in> set (wo_dests W)" "refuses (slot_dest s) item"
  shows "w_files w' (abs_source W item) = w_files w (abs_source W item)
    \<and> item_state_of W item w' \<in> {Some st, Some Ready}
    \<and> replicated_at (wo_instance W) (w_db w') = replicated_at (wo_instance W) (w_db w)
    \<and> filter success_event (new_events w w') = []"
proof -
  have m0: "moving W item {} (Some st) w w" using assms(3-5) by (simp add: moving_def)
  let ?Q = "\<lambda>w'. \<exists>st'\<in>{Some st, Some Ready}. moving W item {} st' w w'"
  have run: "wp (recover_verified W item now) (\<lambda>_. ?Q) ?Q w"
    unfolding recover_verified_def wp_try
  proof (rule wp_conseq [OF wp_reverify_all [OF m0 assms(2) subset_refl]])
    fix r :: "bool res" and w2
    assume r: "moving W item {} (Some st) w w2
      \<and> (\<not> True \<or> (\<exists>s\<in>set (wo_dests W). refuses (slot_dest s) item) \<longrightarrow> r \<noteq> Inr True)"
    then have ne: "r \<noteq> Inr True" and m: "moving W item {} (Some st) w w2" using assms(6,7) by auto
    have "wp (db_write (set_state (wo_instance W) (wi_relpath item) Ready now)) (\<lambda>_. ?Q) ?Q w2"
      by (rule wp_db_write) (use m moving_roll(1) [OF m] in \<open>auto simp: bex_simps\<close>)
    then show "(case r of Inl e \<Rightarrow> ?Q | Inr v \<Rightarrow> wp (if v then try_act (complete_verified W item now) (\<lambda>_. ok ())
        else db_write (set_state (wo_instance W) (wi_relpath item) Ready now)) (\<lambda>_. ?Q) ?Q) w2"
      using ne m by (cases r) auto
  qed auto
  have "?Q w'" using wp_run [OF run assms(1)] by (cases r) simp_all
  then obtain st' where st': "st' \<in> {Some st, Some Ready}" and m: "moving W item {} st' w w'" by blast
  have "w_files w' (abs_source W item) = w_files w (abs_source W item)" using m by (simp add: moving_def)
  with st' at_point_counts [OF moving_at_point [OF m]] show ?thesis by simp
qed

definition ex_offline :: destination where
  "ex_offline = \<lparr>d_kind = ''s3'', d_supports_resume = True, d_deliver = (\<lambda>_ _ _. err (Transient ''offline'')),
     d_verify = (\<lambda>_ _ _. err (Transient ''offline'')), d_abort = (\<lambda>_ _. ok ())\<rparr>"

definition ex_two :: "u32 worker" where
  "ex_two = (ex_worker OnDelete)\<lparr>wo_dests := wo_dests (ex_worker OnDelete)
     @ [\<lparr>slot_label = ''s3'', slot_dest = ex_offline\<rparr>]\<rparr>"

lemma ex_two_env: "worker_env ex_two ex_item"
proof -
  have wb: "well_behaved S it ex_offline" for S it
    by (simp add: well_behaved_def ex_offline_def frames_ok_err)
  have src: "abs_source ex_two it = abs_source (ex_worker OnDelete) it"
    "cleanup_ctx_of ex_two it = cleanup_ctx_of (ex_worker OnDelete) it" for it
    by (simp_all add: ex_two_def abs_source_def cleanup_ctx_of_def Let_def fun_eq_iff)
  note env = ex_env [of OnDelete, unfolded worker_env_def]
  show ?thesis
    using env wb by (auto simp: worker_env_def src) (auto simp: ex_two_def)
qed

theorem recovery_needs_every_copy_witness:
  "\<exists>r w'. recover_verified ex_two ex_item 9 (ex_tracked []) = (r, w')
     \<and> w_files w' [''in'', ''a.csv''] = Some [1, 2, 3]"
proof -
  obtain r w' where run: "recover_verified ex_two ex_item 9 (ex_tracked []) = (r, w')" by force
  let ?s = "\<lparr>slot_label = ''s3'', slot_dest = ex_offline\<rparr>"
  have s: "?s \<in> set (wo_dests ex_two)" "refuses (slot_dest ?s) ex_item"
    by (simp_all add: ex_two_def refuses_def ex_offline_def err_def ret_def)
  have st: "item_state_of ex_two ex_item (ex_tracked []) = Some InProgress"
    using ex_tracked_db(2) [of OnDelete "[]"] by (simp add: item_state_of_def ex_two_def)
  have "abs_source ex_two ex_item = [''in'', ''a.csv'']"
    using ex_source [of OnDelete] by (simp add: ex_two_def abs_source_def)
  then show ?thesis
    using recovery_needs_every_copy [OF run ex_two_env ex_tracked_db(1) st ex_tracked_db(3) s] run
    by (auto simp: ex_tracked_db)
qed

section \<open>Destination labels\<close>

lemma label_from_props:
  assumes "\<And>k. k \<in> set kinds \<Longrightarrow> CHR ''#'' \<notin> set k" "set ks \<subseteq> set kinds"
    "\<And>k. count_list kinds k = 1 \<Longrightarrow> count_list ks k \<le> 1"
  shows "length (label_from kinds seen ks) = length ks \<and> distinct (label_from kinds seen ks)
    \<and> (\<forall>l\<in>set (label_from kinds seen ks).
         (l \<in> set ks \<and> count_list kinds l = 1)
         \<or> (\<exists>k\<in>set ks. count_list kinds k \<noteq> 1 \<and> (\<exists>n>seen k. l = k @ ''#'' @ show_nat n)))"
  using assms(2,3)
proof (induction ks arbitrary: seen)
  case (Cons k ks)
  have k: "k \<in> set kinds" "set ks \<subseteq> set kinds" using Cons.prems(1) by auto
  have le: "count_list ks x \<le> 1" if "count_list kinds x = 1" for x
    using Cons.prems(2) [OF that] by (auto split: if_splits)
  have inj: "a = b \<and> m = n" if "a @ ''#'' @ show_nat m = b @ ''#'' @ show_nat n" "a \<in> set kinds" "b \<in> set kinds" for a b m n
  proof -
    have "takeWhile (\<lambda>c. c \<noteq> CHR ''#'') (a @ ''#'' @ show_nat m) = a" "takeWhile (\<lambda>c. c \<noteq> CHR ''#'') (b @ ''#'' @ show_nat n) = b"
      using assms(1) that(2,3) by (simp_all only: append_Cons append_Nil)
        (subst takeWhile_append2, auto)+
    then show ?thesis using that(1) by auto
  qed
  have plain: "a \<noteq> b @ ''#'' @ show_nat n" if "a \<in> set kinds" for a b n
    using assms(1) [OF that] by auto
  show ?case
  proof (cases "count_list kinds k = 1")
    case True
    have out: "k \<notin> set ks" using Cons.prems(2) [OF True] by (auto simp: count_list_0_iff [symmetric])
    note IH = Cons.IH [OF k(2) le, of seen]
    have "k \<notin> set (label_from kinds seen ks)"
    proof
      assume "k \<in> set (label_from kinds seen ks)"
      with IH consider "k \<in> set ks" | k' n where "k = k' @ ''#'' @ show_nat n" by blast
      then show False by cases (use out plain [OF k(1)] in blast)+
    qed
    then show ?thesis using IH True by auto
  next
    case False
    let ?n = "seen k + 1"
    note IH = Cons.IH [OF k(2) le, of "seen(k := ?n)"]
    have new: "k @ ''#'' @ show_nat ?n \<notin> set (label_from kinds (seen(k := ?n)) ks)"
    proof
      assume "k @ ''#'' @ show_nat ?n \<in> set (label_from kinds (seen(k := ?n)) ks)"
      with IH consider "k @ ''#'' @ show_nat ?n \<in> set ks"
        | k' n where "k' \<in> set ks" "(seen(k := ?n)) k' < n" "k @ ''#'' @ show_nat ?n = k' @ ''#'' @ show_nat n"
        by blast
      then show False
      proof cases
        case 1
        then show False using plain [of "k @ ''#'' @ show_nat ?n" k ?n] k(2) by auto
      next
        case 2
        then show False using inj [OF 2(3) k(1)] k(2) by auto
      qed
    qed
    let ?L = "label_from kinds (seen(k := ?n)) ks" and ?new = "k @ ''#'' @ show_nat ?n"
    have cons: "label_from kinds seen (k # ks) = ?new # ?L" using False by (simp add: Let_def)
    have "(l \<in> set (k # ks) \<and> count_list kinds l = 1)
         \<or> (\<exists>k'\<in>set (k # ks). count_list kinds k' \<noteq> 1 \<and> (\<exists>n>seen k'. l = k' @ ''#'' @ show_nat n))"
      if "l \<in> set (?new # ?L)" for l
    proof (cases "l = ?new")
      case True
      then show ?thesis using False by (intro disjI2 bexI [of _ k] conjI exI [of _ ?n]) simp_all
    next
      case ne: False
      then have "l \<in> set ?L" using that by simp
      with IH consider "l \<in> set ks" "count_list kinds l = 1"
        | k' n where "k' \<in> set ks" "count_list kinds k' \<noteq> 1" "(seen(k := ?n)) k' < n" "l = k' @ ''#'' @ show_nat n"
        by blast
      then show ?thesis
      proof cases
        case 2
        have "seen k' < n" using 2(3) by (auto split: if_splits)
        with 2 show ?thesis by (intro disjI2 bexI [of _ k'] conjI exI [of _ n]) simp_all
      qed simp
    qed
    then have "\<forall>l\<in>set (?new # ?L). (l \<in> set (k # ks) \<and> count_list kinds l = 1)
         \<or> (\<exists>k'\<in>set (k # ks). count_list kinds k' \<noteq> 1 \<and> (\<exists>n>seen k'. l = k' @ ''#'' @ show_nat n))" by blast
    moreover have "length (?new # ?L) = length (k # ks) \<and> distinct (?new # ?L)"
      using IH new by (simp only: list.size distinct.simps simp_thms)
    ultimately show ?thesis unfolding cons by blast
  qed
qed simp

text \<open>
  The labels that key the resume and phase rows are one per destination and never
  shared, also when several destinations are of the same kind; a kind that occurs once
  keeps its own name, so its rows survive from a single-destination configuration.
\<close>

theorem labels_distinct:
  assumes "\<And>d. d \<in> set ds \<Longrightarrow> CHR ''#'' \<notin> set (d_kind d)"
  shows "length (label_destinations ds) = length ds \<and> distinct (label_destinations ds)
    \<and> (\<forall>i<length ds. count_list (List.map d_kind ds) (d_kind (ds ! i)) = 1
          \<longrightarrow> label_destinations ds ! i = d_kind (ds ! i))"
proof -
  have nth: "i < length ks \<Longrightarrow> count_list kinds (ks ! i) = 1 \<Longrightarrow> label_from kinds seen ks ! i = ks ! i" for i kinds seen and ks :: "string list"
    by (induction ks arbitrary: i seen) (auto simp: Let_def nth_Cons split: nat.splits)
  have len: "length (label_destinations ds) = length ds \<and> distinct (label_destinations ds)"
    using label_from_props [of "List.map d_kind ds" "List.map d_kind ds" "\<lambda>_. 0"] assms
    by (auto simp: label_destinations_def Let_def)
  show ?thesis
    using len nth [of _ "List.map d_kind ds" "List.map d_kind ds" "\<lambda>_. 0"]
    by (auto simp: label_destinations_def Let_def)
qed

definition ex_kinds :: "destination list" where
  "ex_kinds = [ex_offline, ex_offline\<lparr>d_kind := ''local''\<rparr>, ex_offline]"

theorem labels_distinct_witness:
  "distinct (label_destinations ex_kinds) \<and> label_destinations ex_kinds ! 1 = ''local''"
proof -
  have h: "CHR ''#'' \<notin> set (d_kind d)" if "d \<in> set ex_kinds" for d
    using that by (auto simp: ex_kinds_def ex_offline_def)
  have n: "1 < length ex_kinds" "count_list (List.map d_kind ex_kinds) (d_kind (ex_kinds ! 1)) = 1"
    "d_kind (ex_kinds ! 1) = ''local''" by (simp_all add: ex_kinds_def ex_offline_def)
  from labels_distinct [OF h] n show ?thesis by metis
qed

section \<open>Independent destinations\<close>

text \<open>
  C36. Destinations of one file are retried independently: a pass starts an attempt only at
  a destination that is not verified yet and whose own backoff has elapsed, so a verified
  copy is never sent again and a destination in a long backoff is not tried early because
  a faster sibling brought the item back.
\<close>

theorem independent_retries:
  assumes "run_pipeline W item now w = (r, w')" "worker_env W item" "db_ok (w_db w)"
    "tokens_safe {abs_source W item} (w_db w)"
    "ReplicationStarted (wi_relpath item) n l a \<in> set (new_events w w')"
  shows "phase_at (wo_instance W) (wi_relpath item) l (w_db w) \<noteq> Some DVerified
    \<and> (case dest_row_at (wo_instance W) (wi_relpath item) l (w_db w) of
         None \<Rightarrow> 0 \<le> now | Some row \<Rightarrow> dr_next_attempt_at row \<le> now)"
proof -
  let ?A = "{l. phase_at (wo_instance W) (wi_relpath item) l (w_db w) \<noteq> Some DVerified
      \<and> (case dest_row_at (wo_instance W) (wi_relpath item) l (w_db w) of None \<Rightarrow> 0 | Some r \<Rightarrow> dr_next_attempt_at r) \<le> now}"
  have "attempts_in {abs_source W item} (wi_relpath item) ?A (w_events w) (w_db w') (w_events w')"
    using wp_run [OF worker_env.wp_attempts_pipeline [OF assms(2-4)] assms(1)] by (cases r) simp_all
  from attempts_inD [OF this assms(5) [unfolded new_events_def]]
  show ?thesis by (simp split: option.splits)
qed

definition ex_half_done :: world where
  "ex_half_done = (ex_tracked [])\<lparr>w_db := set_dest_phase ''i'' ''a.csv'' ''local'' DVerified 6 (w_db (ex_tracked []))\<rparr>"

theorem independent_retries_witness:
  "\<exists>r w'. run_pipeline ex_two ex_item 9 ex_half_done = (r, w')
     \<and> list_all (\<lambda>e. \<forall>n a. e \<noteq> ReplicationStarted ''a.csv'' n ''local'' a) (new_events ex_half_done w')"
proof -
  obtain r w' where run: "run_pipeline ex_two ex_item 9 ex_half_done = (r, w')" by force
  have db: "db_ok (w_db ex_half_done)" "tokens_safe {abs_source ex_two ex_item} (w_db ex_half_done)"
    using ex_tracked_db(1,3) by (simp_all add: ex_half_done_def db_ok_set_dest_phase)
  have rel: "wi_relpath ex_item = ''a.csv''" "wo_instance ex_two = ''i''"
    by (simp_all add: ex_item_def ex_two_def ex_worker_def ex_deployment_def)
  have ver: "phase_at ''i'' ''a.csv'' ''local'' (w_db ex_half_done) = Some DVerified"
    by (simp add: ex_half_done_def store_view)
  have "e \<noteq> ReplicationStarted ''a.csv'' n ''local'' a" if "e \<in> set (new_events ex_half_done w')" for e n a
    using independent_retries [OF run ex_two_env db, of n "''local''" a] that ver by (auto simp: rel)
  then show ?thesis using run by (auto simp: list_all_iff)
qed

lemma foldl_min: "foldl min (x :: int) xs = Min (insert x (set xs))"
proof -
  have "(\<lambda>x s. min s x) = (min :: int \<Rightarrow> int \<Rightarrow> int)" by (simp add: fun_eq_iff min.commute)
  then have "foldl min x xs = fold min xs x" by (simp add: foldl_conv_fold)
  then show ?thesis using Min.set_eq_fold [of x xs] by simp
qed

lemma min_i64_Min: "xs \<noteq> [] \<Longrightarrow> min_i64 xs d = Min (set xs)"
  by (cases xs) (simp_all add: min_i64_def foldl_min)

text \<open>
  An item that waits is claimed again exactly when its soonest destination is due: the
  next attempt stored for the item is the least over the destinations retried in this pass
  and those still in backoff, and the item is \<open>Failed\<close>.
\<close>

theorem reclaimed_at_soonest:
  assumes "wait_item W item now existing nd fo w = (Some (Inr s), w')"
    "item_at (wo_instance W) (wi_relpath item) (w_db w) = Some x" "fo_retries fo \<noteq> [] \<or> nd \<noteq> []"
  shows "s = Failed \<and> (\<exists>y. item_at (wo_instance W) (wi_relpath item) (w_db w') = Some y
      \<and> item_from_str (ir_state y) = Some Failed
      \<and> ir_next_attempt_at y = Min ((\<lambda>(_, t, _). t) ` set (fo_retries fo)
            \<union> (\<lambda>sl. next_attempt_of existing (slot_label sl)) ` set nd))"
proof -
  let ?ts = "List.map (\<lambda>(_, t, _). t) (fo_retries fo) @ List.map (\<lambda>sl. next_attempt_of existing (slot_label sl)) nd"
  let ?goal = "\<lambda>s w'. s = Failed \<and> (\<exists>y. item_at (wo_instance W) (wi_relpath item) (w_db w') = Some y
      \<and> item_from_str (ir_state y) = Some Failed \<and> ir_next_attempt_at y = Min (set ?ts))"
  have "?ts \<noteq> []" using assms(3) by auto
  then have m: "min_i64 ?ts now = Min (set ?ts)" by (rule min_i64_Min)
  have "wp (wait_item W item now existing nd fo) (\<lambda>r w'. \<forall>s. r = Inr s \<longrightarrow> ?goal s w') (\<lambda>_. True) w"
    unfolding wait_item_def Let_def m
    by (rule wp_try_write) (use assms(2) in \<open>simp_all add: wp_ok_err roll_up_item_def item_at_update_item del: item_str_literals\<close>)
  from wp_run [OF this assms(1)] show ?thesis by (simp add: image_Un)
qed

theorem reclaimed_at_soonest_witness:
  "\<exists>w' y. wait_item ex_two ex_item 9 [] [] \<lparr>fo_verified = [''local''], fo_giveups = [], fo_retries = [(''s3'', 77, ''e''), (''x'', 40, ''f'')]\<rparr>
        (ex_tracked []) = (Some (Inr Failed), w')
     \<and> item_at ''i'' ''a.csv'' (w_db w') = Some y \<and> ir_next_attempt_at y = 40"
proof -
  let ?fo = "\<lparr>fo_verified = [''local''], fo_giveups = [], fo_retries = [(''s3'', 77 :: int, ''e''), (''x'', 40, ''f'')]\<rparr>"
  have rel: "wi_relpath ex_item = ''a.csv''" "wo_instance ex_two = ''i''"
    by (simp_all add: ex_item_def ex_two_def ex_worker_def ex_deployment_def)
  have f: "w_fate (ex_tracked []) = []" by (simp add: ex_tracked_def ex_world_def)
  obtain w' where run: "wait_item ex_two ex_item 9 [] [] ?fo (ex_tracked []) = (Some (Inr Failed), w')"
    using f by (simp add: wait_item_def Let_def try_act_def bnd_def db_write_def effect_def next_fate_def ok_def ret_def)
  have "item_state_of (ex_worker OnDelete) ex_item (ex_tracked []) = Some InProgress" by (rule ex_tracked_db)
  then obtain x where "item_at ''i'' ''a.csv'' (w_db (ex_tracked [])) = Some x"
    using item_exists by (fastforce simp: item_state_of_def rel ex_worker_def ex_deployment_def)
  then have x: "item_at (wo_instance ex_two) (wi_relpath ex_item) (w_db (ex_tracked [])) = Some x" by (simp add: rel)
  have "fo_retries ?fo \<noteq> [] \<or> ([] :: dest_slot list) \<noteq> []" by simp
  from reclaimed_at_soonest [OF run x this] run show ?thesis by (auto simp: rel)
qed

section \<open>A source replaced while its cleanup is owed\<close>

text \<open>
  The item was replicated with three bytes, its cleanup failed; then the producer wrote a
  new version of two bytes under the same name, and the next scan rediscovered it.
\<close>

definition ex_replaced_db :: db where
  "ex_replaced_db =
     upsert_ready ''i'' ''a.csv'' 2 7 20
       (record_cleanup_attempt ''i'' ''a.csv'' ''locked'' CleanupFailed 100 10
         (upsert_ready ''i'' ''a.csv'' 3 1 1 open_in_memory))"

definition ex_replaced :: world where
  "ex_replaced =
     (ex_world [])\<lparr>w_files := (\<lambda>p. if p = [''in'', ''a.csv''] then Some [9, 9] else None), w_db := ex_replaced_db\<rparr>"

definition ex_stale_row :: item_row where
  "ex_stale_row =
     \<lparr>ir_instance = ''i'', ir_relpath = ''a.csv'', ir_state = ''cleanup_failed'', ir_size = 2, ir_mtime_ms = 7,
      ir_discovered_at = 1, ir_attempts = 0, ir_cleanup_attempts = 1, ir_next_attempt_at = 100,
      ir_last_error = Some ''locked'', ir_bytes_done = 0, ir_updated_at = 20\<rparr>"

definition ex_stale :: work_item where
  "ex_stale =
     \<lparr>wi_instance = ''i'', wi_relpath = ''a.csv'', wi_abs_source = [''a.csv''], wi_state = CleanupFailed,
      wi_size = 2, wi_discovered_at = 1, wi_attempts = 0, wi_cleanup_attempts = 1, wi_next_attempt_at = 100,
      wi_last_error = Some ''locked'', wi_bytes_done = 0, wi_updated_at = 20\<rparr>"

lemma ex_replaced_db: "ex_replaced_db = open_in_memory\<lparr>db_items := [ex_stale_row]\<rparr>"
  by (simp add: ex_replaced_db_def upsert_ready_def open_in_memory_def t_find_def t_upsert_def fresh_row_def
      record_cleanup_attempt_def update_item_def t_update_def upsert_resets_def upsert_conflict_def item_key_def
      Let_def sql_terminal_changed_def ex_stale_row_def u64_as_i64_def item_from_str_def)

lemma ex_replaced_lists:
  "list_by_state ''i'' CleanupPending ex_replaced_db = Inr []"
  "list_by_state ''i'' CleanupFailed ex_replaced_db = Inr [ex_stale]"
  by (simp_all add: ex_replaced_db list_by_state_def open_in_memory_def ex_stale_row_def row_to_item_def ex_stale_def
      item_from_str_def i64_as_u64_def i64_as_u32_def)

lemma ex_worker_simps:
  "wo_dests (ex_worker a) =
     [\<lparr>slot_label = ''local'', slot_dest = local_destination sum_digests (\<lambda>_. 7) (local_new [''out''] True AlgCrc32c)\<rparr>]"
  "wo_instance (ex_worker a) = ''i''" "wo_ingress_root (ex_worker a) = [''in'']"
  "wo_completion (ex_worker a) = local_completion (ex_deployment a)"
  by (simp_all add: ex_worker_def local_worker_def ex_deployment_def new_multi_def label_destinations_def Let_def
      local_destination_def)

lemmas run_effects = try_act_def bnd_def seqn_def ret_def ok_def db_read_def db_write_def effect_def next_fate_def
  get_world_def emit_event_def fs_remove_file_def fs_exists_def set_file_def Let_def

lemmas run_cleanup_defs = drive_cleanup_def run_cleanup_def delivered_checksum_def read_resume_def abs_source_def
  rel_segments_def join_rel_def local_completion_def ex_deployment_def cleanup_ctx_of_def apply_success_action_def
  finish_completed_def

lemmas run_store = open_in_memory_def load_resume_def set_state_def update_item_def t_update_def item_key_def
  item_at_def t_find_def clear_resume_all_def clear_dest_states_def t_delete_def bump_stats_def t_upsert_def stat_at_def

text \<open>
  C37. A new version of a file can be lost: rediscovery keeps the row of an item whose
  cleanup is owed, and under \<open>onSuccess=delete\<close> the cleanup removes whatever is at the source.
  The new content is deleted although no destination ever received it, and the item is
  recorded, counted and announced as a success.
\<close>

theorem replaced_source_is_deleted_unreplicated:
  "\<exists>w'. drive_cleanup (ex_worker OnDelete) 200 False ex_replaced = (Some (Inr ()), w')
     \<and> w_files ex_replaced [''in'', ''a.csv''] = Some [9, 9] \<and> w_files w' = (\<lambda>_. None)
     \<and> item_at ''i'' ''a.csv'' (w_db w') = Some (ex_stale_row\<lparr>ir_state := ''completed'', ir_updated_at := 200\<rparr>)
     \<and> replicated_at ''i'' (w_db w') = 1 \<and> w_events w' = [FileDeleted ''a.csv'']"
  by (simp add: ex_replaced_def ex_world_def ex_replaced_lists ex_stale_def ex_worker_simps run_effects run_cleanup_defs)
    (simp add: ex_replaced_db ex_stale_row_def ex_stale_def ex_worker_simps run_effects run_cleanup_defs run_store fun_eq_iff)

section \<open>Instances of the component properties\<close>

definition ex_local :: local_dest where
  "ex_local = local_new [''out''] True AlgCrc32c"

lemma ex_local_path: "final_path ex_local ex_item = [''out'', ''a.csv'']"
  by (simp add: final_path_def ex_local_def local_new_def ex_item_def join_rel_def rel_segments_def)


theorem local_verify_exact_witness:
  "\<exists>w'. local_verify sum_digests ex_local ex_item \<lparr>dl_bytes = 3, dl_checksum = NoChecksum, dl_handle = JNull\<rparr> VSize
      ((ex_tracked [])\<lparr>w_files := (\<lambda>_. Some [7, 8, 9])\<rparr>) = (Some (Inr ()), w')"
proof -
  let ?dl = "\<lparr>dl_bytes = 3, dl_checksum = NoChecksum, dl_handle = JNull\<rparr>"
    and ?w = "(ex_tracked [])\<lparr>w_files := (\<lambda>_. Some [7, 8, 9])\<rparr>"
  obtain r w' where run: "local_verify sum_digests ex_local ex_item ?dl VSize ?w = (r, w')" by force
  have "w_fate ?w = []" by (simp add: ex_tracked_def ex_world_def)
  moreover have "accepted sum_digests ex_local ?dl VSize (w_files ?w (final_path ex_local ex_item))"
    by (simp add: accepted_def)
  ultimately have "r = Some (Inr ())" using local_verify_exact [OF run] by blast
  then show ?thesis using run by blast
qed

lemma ex_ctx_cleanup: "ctx_safe (cleanup_ctx_of (ex_worker a) ex_item NoChecksum)"
  using ex_env [of a] by (simp add: worker_env_def)

theorem cleanup_outcome_witness:
  "\<exists>r w'. run_cleanup (ex_worker OnArchive) ex_item 9 (ex_tracked [Fine, Fault enoent 0]) = (r, w')
     \<and> cleanup_spec (ex_worker OnArchive) ex_item (Some [1, 2, 3]) (Some InProgress) (ex_tracked [Fine, Fault enoent 0]) r w'"
proof -
  let ?w = "ex_tracked [Fine, Fault enoent 0]"
  obtain r w' where run: "run_cleanup (ex_worker OnArchive) ex_item 9 ?w = (r, w')" by force
  have ne: "item_state_of (ex_worker OnArchive) ex_item ?w \<noteq> None" by (simp add: ex_tracked_db)
  from cleanup_outcome [OF run ex_tracked_db(1) ne ex_ctx_cleanup] run show ?thesis
    by (auto simp: ex_tracked_db ex_source)
qed

theorem drive_cleanup_selects_witness:
  "\<exists>x r w'. item_at ''i'' ''a.csv'' (w_db (ex_tracked [])) = Some x
     \<and> drive_cleanup (ex_worker OnDelete) 9 True (ex_tracked []) = (r, w')
     \<and> item_at ''i'' ''a.csv'' (w_db w') = Some x"
proof -
  obtain r w' where run: "drive_cleanup (ex_worker OnDelete) 9 True (ex_tracked []) = (r, w')" by force
  have "item_state_of (ex_worker OnDelete) ex_item (ex_tracked []) = Some InProgress" by (rule ex_tracked_db)
  then obtain x where x: "item_at ''i'' ''a.csv'' (w_db (ex_tracked [])) = Some x"
    "item_from_str (ir_state x) = Some InProgress"
    by (auto simp: item_state_of_def state_at_def ex_worker_def ex_deployment_def ex_item_def split: bind_splits)
  have i: "wo_instance (ex_worker OnDelete) = ''i''" by (simp add: ex_worker_def ex_deployment_def)
  have "item_at (wo_instance (ex_worker OnDelete)) ''a.csv'' (w_db w') = Some x"
    by (rule drive_cleanup_selects [OF run ex_tracked_db(1)]) (use x i in simp_all)
  then show ?thesis using x run i by auto
qed

end
