(* ===== verification/Readiness.thy ===== *)
theory Readiness
  imports Paths Errors
begin

text \<open>
  Readiness detection (\<open>src/readiness.rs\<close>): the four strategies that decide whether a
  scanned file is fully written, and the discovery filter. Instants and durations of the
  monotonic clock are natural numbers of nanoseconds. A compiled glob set is the predicate
  it matches with the number of its patterns; the compiler (\<open>globset\<close>) is the argument
  \<open>glob\<close>, which yields the predicate of a pattern or refuses it.
\<close>

record observation =
  ob_size :: u64
  ob_mtime_ms :: i64

record readiness_probe =
  rp_observe :: "path \<Rightarrow> io_error + observation"
  rp_marker_exists :: "path \<Rightarrow> bool"

section \<open>Stability\<close>

record seen_entry =
  se_last :: observation
  se_since :: nat

record tracker =
  tr_quiet :: nat
  tr_seen :: "(path \<times> seen_entry) list"

definition tracker_new :: "nat \<Rightarrow> tracker" where
  "tracker_new quiet = \<lparr>tr_quiet = quiet, tr_seen = []\<rparr>"

definition set_entry :: "path \<Rightarrow> seen_entry \<Rightarrow> (path \<times> seen_entry) list \<Rightarrow> (path \<times> seen_entry) list" where
  "set_entry p e l = (p, e) # filter (\<lambda>x. fst x \<noteq> p) l"

definition tr_observe :: "nat \<Rightarrow> path \<Rightarrow> observation \<Rightarrow> tracker \<Rightarrow> bool \<times> tracker" where
  "tr_observe now p obs t =
     (case map_of (tr_seen t) p of
        Some e \<Rightarrow>
          if se_last e \<noteq> obs
          then (False, t\<lparr>tr_seen := set_entry p \<lparr>se_last = obs, se_since = now\<rparr> (tr_seen t)\<rparr>)
          else (tr_quiet t \<le> now - se_since e, t)
      | None \<Rightarrow>
          (tr_quiet t = 0, t\<lparr>tr_seen := set_entry p \<lparr>se_last = obs, se_since = now\<rparr> (tr_seen t)\<rparr>))"

definition tr_forget :: "path \<Rightarrow> tracker \<Rightarrow> tracker" where
  "tr_forget p t = t\<lparr>tr_seen := filter (\<lambda>x. fst x \<noteq> p) (tr_seen t)\<rparr>"

definition tr_retain :: "path list \<Rightarrow> tracker \<Rightarrow> tracker" where
  "tr_retain present t = t\<lparr>tr_seen := filter (\<lambda>x. fst x \<in> set present) (tr_seen t)\<rparr>"

definition tr_tracked :: "tracker \<Rightarrow> nat" where
  "tr_tracked t = length (tr_seen t)"

definition tr_pending_recheck :: "nat \<Rightarrow> tracker \<Rightarrow> nat option" where
  "tr_pending_recheck now t =
     (let ds = List.map (\<lambda>x. se_since (snd x) + tr_quiet t - now)
                 (filter (\<lambda>x. now < se_since (snd x) + tr_quiet t) (tr_seen t)) in
      if ds = [] then None else Some (Min (set ds)))"

section \<open>Globs\<close>

record glob_matcher =
  gm_match :: "string \<Rightarrow> bool"
  gm_count :: nat

definition glob_new :: "(string \<Rightarrow> (string \<Rightarrow> bool) option) \<Rightarrow> string list \<Rightarrow> glob_matcher option" where
  "glob_new glob pats =
     (if \<exists>p\<in>set pats. glob p = None then None
      else Some \<lparr>gm_match = (\<lambda>s. \<exists>p\<in>set pats. the (glob p) s), gm_count = length pats\<rparr>)"

definition glob_empty :: glob_matcher where
  "glob_empty = \<lparr>gm_match = (\<lambda>_. False), gm_count = 0\<rparr>"

definition select :: "string \<Rightarrow> glob_matcher \<Rightarrow> glob_matcher \<Rightarrow> bool" where
  "select p include exclude =
     (if gm_match exclude p then False else gm_count include = 0 \<or> gm_match include p)"

definition glob_ready :: "string \<Rightarrow> glob_matcher \<Rightarrow> glob_matcher \<Rightarrow> bool" where
  "glob_ready p ready exclude =
     (if gm_match exclude p then False else gm_count ready = 0 \<or> gm_match ready p)"

section \<open>Strategies\<close>

text \<open>The companion marker: the suffix is appended to the last component.\<close>

definition marker_path :: "path \<Rightarrow> string \<Rightarrow> path" where
  "marker_path file suffix = (if file = [] then [suffix] else butlast file @ [last file @ suffix])"

definition rename_ready :: bool where
  "rename_ready = True"

datatype ready_strategy =
    RStability tracker
  | RMarker string
  | RRename
  | RGlob glob_matcher

datatype readiness_cfg = CfgStability u64 | CfgMarker string | CfgRename | CfgGlob "string list"

definition strategy_from_cfg ::
  "(string \<Rightarrow> (string \<Rightarrow> bool) option) \<Rightarrow> readiness_cfg \<Rightarrow> ready_strategy option" where
  "strategy_from_cfg glob cfg =
     (case cfg of
        CfgStability quiet_secs \<Rightarrow> Some (RStability (tracker_new (unat quiet_secs * 1000000000)))
      | CfgMarker suffix \<Rightarrow> Some (RMarker suffix)
      | CfgRename \<Rightarrow> Some RRename
      | CfgGlob pats \<Rightarrow> map_option RGlob (glob_new glob pats))"

definition retain_tracked :: "path list \<Rightarrow> ready_strategy \<Rightarrow> ready_strategy" where
  "retain_tracked present s = (case s of RStability t \<Rightarrow> RStability (tr_retain present t) | _ \<Rightarrow> s)"

definition strategy_pending_recheck :: "nat \<Rightarrow> ready_strategy \<Rightarrow> nat option" where
  "strategy_pending_recheck now s = (case s of RStability t \<Rightarrow> tr_pending_recheck now t | _ \<Rightarrow> None)"

definition is_ready ::
  "nat \<Rightarrow> readiness_probe \<Rightarrow> glob_matcher \<Rightarrow> path \<Rightarrow> ready_strategy \<Rightarrow> (io_error + bool) \<times> ready_strategy" where
  "is_ready now probe exclude p s =
     (case s of
        RStability t \<Rightarrow>
          (case rp_observe probe p of
             Inl e \<Rightarrow> (Inl e, s)
           | Inr obs \<Rightarrow> (case tr_observe now p obs t of (b, t') \<Rightarrow> (Inr b, RStability t')))
      | RMarker suffix \<Rightarrow> (Inr (rp_marker_exists probe (marker_path p suffix)), s)
      | RRename \<Rightarrow> (Inr rename_ready, s)
      | RGlob ready \<Rightarrow> (Inr (glob_ready (path_display p) ready exclude), s))"

section \<open>Stability is what was observed\<close>

datatype tracker_event = Observe path observation | Forget path | RetainOnly "path list"

fun tracker_step :: "nat \<times> tracker_event \<Rightarrow> tracker \<Rightarrow> tracker" where
  "tracker_step (now, Observe p obs) t = snd (tr_observe now p obs t)"
| "tracker_step (now, Forget p) t = tr_forget p t"
| "tracker_step (now, RetainOnly ps) t = tr_retain ps t"

definition tracker_run :: "nat \<Rightarrow> (nat \<times> tracker_event) list \<Rightarrow> tracker" where
  "tracker_run quiet h = fold tracker_step h (tracker_new quiet)"

text \<open>The event neither contradicts \<open>obs\<close> at \<open>p\<close> nor ends the tracking of \<open>p\<close>.\<close>

fun agrees :: "path \<Rightarrow> observation \<Rightarrow> nat \<times> tracker_event \<Rightarrow> bool" where
  "agrees p obs (_, Observe q o') = (q = p \<longrightarrow> o' = obs)"
| "agrees p obs (_, Forget q) = (q \<noteq> p)"
| "agrees p obs (_, RetainOnly ps) = (p \<in> set ps)"

lemma map_of_filter_key: "map_of (filter (\<lambda>x. P (fst x)) l) p = (if P p then map_of l p else None)"
  by (induction l) auto

lemma tr_quiet_step [simp]: "tr_quiet (tracker_step e t) = tr_quiet t"
  by (cases "(e, t)" rule: tracker_step.cases)
    (simp_all add: tr_observe_def tr_forget_def tr_retain_def split: option.split)

lemma tr_quiet_run: "tr_quiet (tracker_run quiet h) = quiet"
  by (induction h rule: rev_induct) (simp_all add: tracker_run_def tracker_new_def)

lemma tracker_entry:
  assumes "map_of (tr_seen (tracker_run quiet h)) p = Some e"
  shows "\<exists>h1 h2. h = h1 @ (se_since e, Observe p (se_last e)) # h2 \<and> list_all (agrees p (se_last e)) h2"
  using assms
proof (induction h arbitrary: e rule: rev_induct)
  case Nil
  then show ?case by (simp add: tracker_run_def tracker_new_def)
next
  case (snoc x h)
  let ?t = "tracker_run quiet h"
  have step: "map_of (tr_seen (tracker_step x ?t)) p = Some e" using snoc.prems by (simp add: tracker_run_def)
  have kept: ?case if k: "map_of (tr_seen ?t) p = Some e" "agrees p (se_last e) x"
  proof -
    obtain h1 h2 where "h = h1 @ (se_since e, Observe p (se_last e)) # h2" "list_all (agrees p (se_last e)) h2"
      using snoc.IH [OF k(1)] by blast
    then show ?thesis using k(2) by (intro exI [of _ h1] exI [of _ "h2 @ [x]"]) simp
  qed
  show ?case
  proof (cases "(x, ?t)" rule: tracker_step.cases)
    case (1 now q obs)
    show ?thesis
    proof (cases "q = p")
      case True
      show ?thesis
      proof (cases "map_of (tr_seen ?t) p = Some e \<and> se_last e = obs")
        case True
        then show ?thesis using kept 1 \<open>q = p\<close> by simp
      next
        case False
        then have "e = \<lparr>se_last = obs, se_since = now\<rparr>"
          using step 1 \<open>q = p\<close>
          by (auto simp: tr_observe_def set_entry_def split: option.splits if_splits)
        then show ?thesis using 1 \<open>q = p\<close> by (intro exI [of _ h] exI [of _ "[]"]) simp
      qed
    next
      case False
      then have "map_of (tr_seen ?t) p = Some e"
        using step 1
        by (auto simp: tr_observe_def set_entry_def map_of_filter_key [of "\<lambda>k. k \<noteq> q"] split: option.splits if_splits)
      then show ?thesis using kept 1 False by simp
    qed
  next
    case (2 now q)
    then show ?thesis
      using step kept by (auto simp: tr_forget_def map_of_filter_key [of "\<lambda>k. k \<noteq> q"] split: if_splits)
  next
    case (3 now ps)
    then show ?thesis
      using step kept by (auto simp: tr_retain_def map_of_filter_key [of "\<lambda>k. k \<in> set ps"] split: if_splits)
  qed
qed

text \<open>
  A file is reported stable only when it was: the observation that reports it agrees
  with one taken at least the quiet time before, every observation of the file in between
  agrees too, and the file was tracked all along, whatever was observed, forgotten or
  evicted before.
\<close>

theorem stable_means_observed_unchanged:
  assumes "tr_observe now p obs (tracker_run quiet h) = (True, t')" "0 < quiet"
  shows "\<exists>h1 t0 h2. h = h1 @ (t0, Observe p obs) # h2 \<and> t0 + quiet \<le> now \<and> list_all (agrees p obs) h2"
proof -
  obtain e where e: "map_of (tr_seen (tracker_run quiet h)) p = Some e" "se_last e = obs"
    "quiet \<le> now - se_since e"
    using assms tr_quiet_run [of quiet h] by (auto simp: tr_observe_def split: option.splits if_splits)
  then have "se_since e + quiet \<le> now" using assms(2) by simp
  then show ?thesis using tracker_entry [OF e(1)] e(2) by blast
qed

definition ex_obs :: observation where
  "ex_obs = \<lparr>ob_size = 3, ob_mtime_ms = 5\<rparr>"

theorem stable_means_observed_unchanged_witness:
  "fst (tr_observe 30 [''a''] ex_obs (tracker_run 10 [(0, Observe [''a''] (ex_obs\<lparr>ob_size := 1\<rparr>)), (15, Observe [''a''] ex_obs)]))
   \<and> (\<exists>h1 t0 h2. [(0, Observe [''a''] (ex_obs\<lparr>ob_size := 1\<rparr>)), (15, Observe [''a''] ex_obs)]
        = h1 @ (t0 :: nat, Observe [''a''] ex_obs) # h2 \<and> t0 + 10 \<le> 30)"
proof -
  let ?h = "[(0, Observe [''a''] (ex_obs\<lparr>ob_size := 1\<rparr>)), (15, Observe [''a''] ex_obs)]"
  have b: "fst (tr_observe 30 [''a''] ex_obs (tracker_run 10 ?h))"
    by (simp add: tracker_run_def tracker_new_def tr_observe_def set_entry_def ex_obs_def)
  then obtain t' where "tr_observe 30 [''a''] ex_obs (tracker_run 10 ?h) = (True, t')"
    by (cases "tr_observe 30 [''a''] ex_obs (tracker_run 10 ?h)") auto
  from stable_means_observed_unchanged [OF this] b show ?thesis by auto
qed

text \<open>
  The exclude globs are matched against the source-relative path when a file is selected,
  but against the absolute path by the glob strategy: an exclude meant for a subdirectory
  also matches the directories above the watched root, and then nothing is ever ready.
\<close>

lemma glob_exclude_matches_the_root:
  "\<exists>ex. select ''a.csv'' glob_empty ex
     \<and> fst (is_ready now probe ex [''var'', ''tmp'', ''in'', ''a.csv''] (RGlob glob_empty)) = Inr False"
proof (intro exI conjI)
  let ?ex = "\<lparr>gm_match = (\<lambda>s. ''tmp'' \<in> set (str_split (CHR ''/'') s)), gm_count = 1\<rparr>"
  show "select ''a.csv'' glob_empty ?ex" by (simp add: select_def glob_empty_def)
  show "fst (is_ready now probe ?ex [''var'', ''tmp'', ''in'', ''a.csv''] (RGlob glob_empty)) = Inr False"
    by (simp add: is_ready_def glob_ready_def path_display_def)
qed

end
