(* ===== verification/Watcher.thy ===== *)
theory Watcher
  imports Readiness "HOL-Library.List_Lexorder" "HOL-Library.Char_ord"
begin

text \<open>
  Discovery (\<open>src/instance/watcher.rs\<close>): the walk over the watched tree with its pruned
  directories and recorded failures, and the pass that takes every candidate through the
  readiness strategy. The tree does not change during one walk; a directory is unreadable
  or the list of its entries in the order they are enumerated, and a component of a path
  is a byte string.
\<close>

datatype fs_node = NFile "(u64 \<times> i64) option" | NDir fs_dir | NOther | NTypeErr io_kind
  and fs_dir = Unreadable io_kind | Entries "fs_entry list"
  and fs_entry = EntryErr io_kind | Entry string fs_node

record scan_issue =
  si_path :: path
  si_kind :: io_kind

record candidate =
  ca_relpath :: string
  ca_abs :: path
  ca_size :: u64
  ca_mtime_ms :: i64

record scan_cfg =
  sc_root :: path
  sc_recursive :: bool
  sc_include :: glob_matcher
  sc_exclude :: glob_matcher
  sc_skip :: "path list"

section \<open>The walk\<close>

text \<open>\<open>OsStr::to_str\<close> succeeds on well-formed UTF-8 only.\<close>

definition cont_byte :: "nat \<Rightarrow> bool" where
  "cont_byte b = (128 \<le> b \<and> b \<le> 191)"

fun utf8_bytes :: "nat list \<Rightarrow> bool" where
  "utf8_bytes [] = True"
| "utf8_bytes (b # bs) =
     (if b < 128 then utf8_bytes bs
      else if 194 \<le> b \<and> b \<le> 223 then
        (case bs of c # r \<Rightarrow> cont_byte c \<and> utf8_bytes r | _ \<Rightarrow> False)
      else if 224 \<le> b \<and> b \<le> 239 then
        (case bs of
           c # d # r \<Rightarrow> cont_byte c \<and> cont_byte d \<and> (b = 224 \<longrightarrow> 160 \<le> c) \<and> (b = 237 \<longrightarrow> c \<le> 159) \<and> utf8_bytes r
         | _ \<Rightarrow> False)
      else if 240 \<le> b \<and> b \<le> 244 then
        (case bs of
           c # d # e # r \<Rightarrow> cont_byte c \<and> cont_byte d \<and> cont_byte e \<and> (b = 240 \<longrightarrow> 144 \<le> c)
             \<and> (b = 244 \<longrightarrow> c \<le> 143) \<and> utf8_bytes r
         | _ \<Rightarrow> False)
      else False)"

definition to_str_ok :: "string \<Rightarrow> bool" where
  "to_str_ok s = utf8_bytes (List.map of_char s)"

definition path_starts_with :: "path \<Rightarrow> path \<Rightarrow> bool" where
  "path_starts_with p s = (take (length s) p = s)"

definition skipped :: "scan_cfg \<Rightarrow> path \<Rightarrow> bool" where
  "skipped cfg p = (\<exists>s\<in>set (sc_skip cfg). path_starts_with p s)"

definition rel_key :: "path \<Rightarrow> string" where
  "rel_key rel = str_join ''/'' (filter to_str_ok rel)"

definition mk_candidate :: "scan_cfg \<Rightarrow> path \<Rightarrow> (u64 \<times> i64) option \<Rightarrow> candidate" where
  "mk_candidate cfg rel md =
     (case md of
        Some (sz, mt) \<Rightarrow> \<lparr>ca_relpath = rel_key rel, ca_abs = sc_root cfg @ rel, ca_size = sz, ca_mtime_ms = mt\<rparr>
      | None \<Rightarrow> \<lparr>ca_relpath = rel_key rel, ca_abs = sc_root cfg @ rel, ca_size = 0, ca_mtime_ms = 0\<rparr>)"

text \<open>One directory entry: the candidates, the issues and the directories it adds.\<close>

definition scan_entry ::
  "scan_cfg \<Rightarrow> path \<Rightarrow> fs_entry \<Rightarrow> candidate list \<times> scan_issue list \<times> (path \<times> fs_dir) list" where
  "scan_entry cfg rel e =
     (case e of
        EntryErr k \<Rightarrow> ([], [\<lparr>si_path = sc_root cfg @ rel, si_kind = k\<rparr>], [])
      | Entry name node \<Rightarrow>
          (let r = rel @ [name]; p = sc_root cfg @ r in
           if skipped cfg p then ([], [], [])
           else (case node of
              NTypeErr k \<Rightarrow> ([], [\<lparr>si_path = p, si_kind = k\<rparr>], [])
            | NDir d \<Rightarrow> ([], [], if sc_recursive cfg then [(r, d)] else [])
            | NOther \<Rightarrow> ([], [], [])
            | NFile md \<Rightarrow>
                if rel_key r = [] then ([], [], [])
                else if \<not> select (rel_key r) (sc_include cfg) (sc_exclude cfg) then ([], [], [])
                else ([mk_candidate cfg r md], [], []))))"

abbreviation found :: "candidate list \<times> scan_issue list \<times> (path \<times> fs_dir) list \<Rightarrow> candidate list" where
  "found \<equiv> fst"

abbreviation failed :: "candidate list \<times> scan_issue list \<times> (path \<times> fs_dir) list \<Rightarrow> scan_issue list" where
  "failed x \<equiv> fst (snd x)"

abbreviation subdirs :: "candidate list \<times> scan_issue list \<times> (path \<times> fs_dir) list \<Rightarrow> (path \<times> fs_dir) list" where
  "subdirs x \<equiv> snd (snd x)"

lemma size_subdirs:
  "(\<Sum>(r, d)\<leftarrow>concat (List.map (\<lambda>e. subdirs (scan_entry cfg rel e)) es). Suc (size d)) \<le> size_list size es"
  by (induction es) (auto simp: scan_entry_def Let_def split: fs_entry.split fs_node.split)

text \<open>The loop over the stack of directories, its top first.\<close>

function scan_loop :: "scan_cfg \<Rightarrow> (path \<times> fs_dir) list \<Rightarrow> candidate list \<times> scan_issue list" where
  "scan_loop cfg [] = ([], [])"
| "scan_loop cfg ((rel, Unreadable k) # st) =
     (case scan_loop cfg st of
        (cs, iss) \<Rightarrow> (cs, \<lparr>si_path = sc_root cfg @ rel, si_kind = k\<rparr> # iss))"
| "scan_loop cfg ((rel, Entries es) # st) =
     (let xs = List.map (scan_entry cfg rel) es in
      case scan_loop cfg (rev (concat (List.map subdirs xs)) @ st) of
        (cs, iss) \<Rightarrow> (concat (List.map found xs) @ cs, concat (List.map failed xs) @ iss))"
  by pat_completeness auto
termination
proof (relation "measure (\<lambda>(cfg, st). \<Sum>(r, d)\<leftarrow>st. Suc (size d))")
  fix cfg :: scan_cfg and rel :: path and es :: "fs_entry list" and st xs
  assume "xs = List.map (scan_entry cfg rel) es"
  then have "(\<Sum>(r, d)\<leftarrow>rev (concat (List.map subdirs xs)). Suc (size d)) \<le> size_list size es"
    using size_subdirs [of cfg rel es] by (simp add: comp_def rev_map [symmetric])
  then show "((cfg, rev (concat (List.map subdirs xs)) @ st), cfg, (rel, Entries es) # st)
      \<in> measure (\<lambda>(cfg, st). \<Sum>(r, d)\<leftarrow>st. Suc (size d))"
    by simp
qed simp_all

definition scan :: "scan_cfg \<Rightarrow> fs_dir \<Rightarrow> candidate list \<times> scan_issue list" where
  "scan cfg d = (case scan_loop cfg [([], d)] of (cs, iss) \<Rightarrow> (sort_key ca_relpath cs, iss))"

section \<open>Discovery\<close>

record watcher =
  wa_scan :: scan_cfg
  wa_strategy :: ready_strategy

record scan_report =
  sr_ready :: "candidate list"
  sr_issues :: "scan_issue list"
  sr_discovered :: nat
  sr_ignored :: nat

fun judge ::
  "nat \<Rightarrow> readiness_probe \<Rightarrow> glob_matcher \<Rightarrow> candidate list \<Rightarrow> ready_strategy \<Rightarrow> scan_report
   \<Rightarrow> scan_report \<times> ready_strategy" where
  "judge now probe ex [] s rp = (rp, s)"
| "judge now probe ex (c # cs) s rp =
     (case is_ready now probe ex (ca_abs c) s of
        (Inr True, s') \<Rightarrow> judge now probe ex cs s' (rp\<lparr>sr_ready := sr_ready rp @ [c]\<rparr>)
      | (Inr False, s') \<Rightarrow> judge now probe ex cs s' (rp\<lparr>sr_ignored := sr_ignored rp + 1\<rparr>)
      | (Inl e, s') \<Rightarrow>
          if io_kind e = PermissionDeniedKind
          then judge now probe ex cs s'
                 (rp\<lparr>sr_issues := sr_issues rp @ [\<lparr>si_path = ca_abs c, si_kind = io_kind e\<rparr>]\<rparr>)
          else judge now probe ex cs s' (rp\<lparr>sr_ignored := sr_ignored rp + 1\<rparr>))"

definition discover_report :: "nat \<Rightarrow> readiness_probe \<Rightarrow> fs_dir \<Rightarrow> watcher \<Rightarrow> scan_report \<times> watcher" where
  "discover_report now probe d w =
     (case scan (wa_scan w) d of
        (cs, iss) \<Rightarrow>
          (case judge now probe (sc_exclude (wa_scan w)) cs (wa_strategy w)
                  \<lparr>sr_ready = [], sr_issues = iss, sr_discovered = length cs, sr_ignored = 0\<rparr> of
             (rp, s) \<Rightarrow> (rp, w\<lparr>wa_strategy := retain_tracked (List.map ca_abs cs) s\<rparr>)))"

definition watcher_pending_recheck :: "nat \<Rightarrow> watcher \<Rightarrow> nat option" where
  "watcher_pending_recheck now w = strategy_pending_recheck now (wa_strategy w)"

section \<open>The walk finds exactly the visible files\<close>

text \<open>The files and the failures under a directory, pruned and recursive as configured.\<close>

inductive file_at :: "scan_cfg \<Rightarrow> path \<Rightarrow> fs_dir \<Rightarrow> path \<Rightarrow> (u64 \<times> i64) option \<Rightarrow> bool" for cfg where
  file_here: "Entry n (NFile md) \<in> set es \<Longrightarrow> \<not> skipped cfg (sc_root cfg @ rel @ [n]) \<Longrightarrow>
    file_at cfg rel (Entries es) (rel @ [n]) md"
| file_below: "sc_recursive cfg \<Longrightarrow> Entry n (NDir d) \<in> set es \<Longrightarrow> \<not> skipped cfg (sc_root cfg @ rel @ [n]) \<Longrightarrow>
    file_at cfg (rel @ [n]) d r md \<Longrightarrow> file_at cfg rel (Entries es) r md"

inductive issue_at :: "scan_cfg \<Rightarrow> path \<Rightarrow> fs_dir \<Rightarrow> path \<Rightarrow> io_kind \<Rightarrow> bool" for cfg where
  issue_dir: "issue_at cfg rel (Unreadable k) rel k"
| issue_entry: "EntryErr k \<in> set es \<Longrightarrow> issue_at cfg rel (Entries es) rel k"
| issue_type: "Entry n (NTypeErr k) \<in> set es \<Longrightarrow> \<not> skipped cfg (sc_root cfg @ rel @ [n]) \<Longrightarrow>
    issue_at cfg rel (Entries es) (rel @ [n]) k"
| issue_below: "sc_recursive cfg \<Longrightarrow> Entry n (NDir d) \<in> set es \<Longrightarrow> \<not> skipped cfg (sc_root cfg @ rel @ [n]) \<Longrightarrow>
    issue_at cfg (rel @ [n]) d r k \<Longrightarrow> issue_at cfg rel (Entries es) r k"

inductive_simps file_at_simps: "file_at cfg rel (Unreadable k) r md" "file_at cfg rel (Entries es) r md"
inductive_simps issue_at_simps: "issue_at cfg rel (Unreadable k) r k'" "issue_at cfg rel (Entries es) r k'"

definition eligible :: "scan_cfg \<Rightarrow> path \<Rightarrow> bool" where
  "eligible cfg r = (rel_key r \<noteq> [] \<and> select (rel_key r) (sc_include cfg) (sc_exclude cfg))"

text \<open>What one entry adds.\<close>

lemma entry_adds:
  "(r, d) \<in> set (subdirs (scan_entry cfg rel e)) \<longleftrightarrow>
     sc_recursive cfg \<and> (\<exists>n. e = Entry n (NDir d) \<and> \<not> skipped cfg (sc_root cfg @ rel @ [n]) \<and> r = rel @ [n])"
  "c \<in> set (found (scan_entry cfg rel e)) \<longleftrightarrow>
     (\<exists>n md. e = Entry n (NFile md) \<and> \<not> skipped cfg (sc_root cfg @ rel @ [n]) \<and> eligible cfg (rel @ [n])
        \<and> c = mk_candidate cfg (rel @ [n]) md)"
  "i \<in> set (failed (scan_entry cfg rel e)) \<longleftrightarrow>
     (\<exists>k. e = EntryErr k \<and> i = \<lparr>si_path = sc_root cfg @ rel, si_kind = k\<rparr>)
     \<or> (\<exists>n k. e = Entry n (NTypeErr k) \<and> \<not> skipped cfg (sc_root cfg @ rel @ [n])
          \<and> i = \<lparr>si_path = sc_root cfg @ rel @ [n], si_kind = k\<rparr>)"
proof -
  show "(r, d) \<in> set (subdirs (scan_entry cfg rel e)) \<longleftrightarrow>
     sc_recursive cfg \<and> (\<exists>n. e = Entry n (NDir d) \<and> \<not> skipped cfg (sc_root cfg @ rel @ [n]) \<and> r = rel @ [n])"
    by (cases e) (auto simp: scan_entry_def Let_def split: fs_node.splits)
  show "c \<in> set (found (scan_entry cfg rel e)) \<longleftrightarrow>
     (\<exists>n md. e = Entry n (NFile md) \<and> \<not> skipped cfg (sc_root cfg @ rel @ [n]) \<and> eligible cfg (rel @ [n])
        \<and> c = mk_candidate cfg (rel @ [n]) md)"
    by (cases e) (auto simp: scan_entry_def Let_def eligible_def split: fs_node.splits)
  show "i \<in> set (failed (scan_entry cfg rel e)) \<longleftrightarrow>
     (\<exists>k. e = EntryErr k \<and> i = \<lparr>si_path = sc_root cfg @ rel, si_kind = k\<rparr>)
     \<or> (\<exists>n k. e = Entry n (NTypeErr k) \<and> \<not> skipped cfg (sc_root cfg @ rel @ [n])
          \<and> i = \<lparr>si_path = sc_root cfg @ rel @ [n], si_kind = k\<rparr>)"
    by (cases e) (auto simp: scan_entry_def Let_def split: fs_node.splits)
qed

lemma concat_map_mem: "x \<in> set (concat (List.map f (List.map g es))) \<longleftrightarrow> (\<exists>e\<in>set es. x \<in> set (f (g e)))"
  by simp

text \<open>Membership in the results of a directory's entries.\<close>

lemma entries_add:
  "(r, d) \<in> set (concat (List.map subdirs (List.map (scan_entry cfg rel) es))) \<longleftrightarrow>
     sc_recursive cfg \<and> (\<exists>n. Entry n (NDir d) \<in> set es \<and> \<not> skipped cfg (sc_root cfg @ rel @ [n]) \<and> r = rel @ [n])"
  "c \<in> set (concat (List.map found (List.map (scan_entry cfg rel) es))) \<longleftrightarrow>
     (\<exists>n md. Entry n (NFile md) \<in> set es \<and> \<not> skipped cfg (sc_root cfg @ rel @ [n]) \<and> eligible cfg (rel @ [n])
        \<and> c = mk_candidate cfg (rel @ [n]) md)"
  "i \<in> set (concat (List.map failed (List.map (scan_entry cfg rel) es))) \<longleftrightarrow>
     (\<exists>k. EntryErr k \<in> set es \<and> i = \<lparr>si_path = sc_root cfg @ rel, si_kind = k\<rparr>)
     \<or> (\<exists>n k. Entry n (NTypeErr k) \<in> set es \<and> \<not> skipped cfg (sc_root cfg @ rel @ [n])
          \<and> i = \<lparr>si_path = sc_root cfg @ rel @ [n], si_kind = k\<rparr>)"
  unfolding concat_map_mem entry_adds by blast+

lemma scan_loop_step:
  "scan_loop cfg ((rel, Entries es) # st) =
     (let xs = List.map (scan_entry cfg rel) es; r = scan_loop cfg (rev (concat (List.map subdirs xs)) @ st) in
      (concat (List.map found xs) @ fst r, concat (List.map failed xs) @ snd r))"
  by (simp add: Let_def split_beta)

text \<open>What a directory on the stack contributes.\<close>

definition dir_cand :: "scan_cfg \<Rightarrow> path \<times> fs_dir \<Rightarrow> candidate \<Rightarrow> bool" where
  "dir_cand cfg x c = (\<exists>r md. file_at cfg (fst x) (snd x) r md \<and> eligible cfg r \<and> c = mk_candidate cfg r md)"

definition dir_issue :: "scan_cfg \<Rightarrow> path \<times> fs_dir \<Rightarrow> scan_issue \<Rightarrow> bool" where
  "dir_issue cfg x i = (\<exists>r k. issue_at cfg (fst x) (snd x) r k \<and> i = \<lparr>si_path = sc_root cfg @ r, si_kind = k\<rparr>)"

lemma dir_cand_simps:
  "\<not> dir_cand cfg (rel, Unreadable k) c"
  "dir_cand cfg (rel, Entries es) c \<longleftrightarrow>
     c \<in> set (concat (List.map found (List.map (scan_entry cfg rel) es)))
     \<or> (\<exists>x\<in>set (concat (List.map subdirs (List.map (scan_entry cfg rel) es))). dir_cand cfg x c)"
proof -
  show "\<not> dir_cand cfg (rel, Unreadable k) c" by (simp add: dir_cand_def file_at_simps)
  have sub: "(\<exists>x\<in>set (concat (List.map subdirs (List.map (scan_entry cfg rel) es))). dir_cand cfg x c) \<longleftrightarrow>
      (\<exists>r d. (r, d) \<in> set (concat (List.map subdirs (List.map (scan_entry cfg rel) es))) \<and> dir_cand cfg (r, d) c)"
    by auto
  show "dir_cand cfg (rel, Entries es) c \<longleftrightarrow>
     c \<in> set (concat (List.map found (List.map (scan_entry cfg rel) es)))
     \<or> (\<exists>x\<in>set (concat (List.map subdirs (List.map (scan_entry cfg rel) es))). dir_cand cfg x c)"
    unfolding sub entries_add
    by (simp only: dir_cand_def fst_conv snd_conv file_at_simps) blast
qed

lemma dir_issue_simps:
  "dir_issue cfg (rel, Unreadable k) i \<longleftrightarrow> i = \<lparr>si_path = sc_root cfg @ rel, si_kind = k\<rparr>"
  "dir_issue cfg (rel, Entries es) i \<longleftrightarrow>
     i \<in> set (concat (List.map failed (List.map (scan_entry cfg rel) es)))
     \<or> (\<exists>x\<in>set (concat (List.map subdirs (List.map (scan_entry cfg rel) es))). dir_issue cfg x i)"
proof -
  show "dir_issue cfg (rel, Unreadable k) i \<longleftrightarrow> i = \<lparr>si_path = sc_root cfg @ rel, si_kind = k\<rparr>"
    by (simp add: dir_issue_def issue_at_simps)
  have sub: "(\<exists>x\<in>set (concat (List.map subdirs (List.map (scan_entry cfg rel) es))). dir_issue cfg x i) \<longleftrightarrow>
      (\<exists>r d. (r, d) \<in> set (concat (List.map subdirs (List.map (scan_entry cfg rel) es))) \<and> dir_issue cfg (r, d) i)"
    by auto
  show "dir_issue cfg (rel, Entries es) i \<longleftrightarrow>
     i \<in> set (concat (List.map failed (List.map (scan_entry cfg rel) es)))
     \<or> (\<exists>x\<in>set (concat (List.map subdirs (List.map (scan_entry cfg rel) es))). dir_issue cfg x i)"
    unfolding sub entries_add
    by (simp only: dir_issue_def fst_conv snd_conv issue_at_simps) blast
qed

lemma scan_loop_sets:
  "c \<in> set (fst (scan_loop cfg st)) \<longleftrightarrow> (\<exists>x\<in>set st. dir_cand cfg x c)"
  "i \<in> set (snd (scan_loop cfg st)) \<longleftrightarrow> (\<exists>x\<in>set st. dir_issue cfg x i)"
proof (induction cfg st rule: scan_loop.induct)
  case (2 cfg rel k st)
  { case 1 from 2 show ?case by (simp add: split_beta dir_cand_simps(1)) }
  { case 2 from \<open>i \<in> set (snd (scan_loop cfg st)) \<longleftrightarrow> (\<exists>x\<in>set st. dir_issue cfg x i)\<close>
    show ?case by (simp add: split_beta dir_issue_simps(1)) }
next
  case (3 cfg rel es st)
  { case 1 from 3(1) [OF refl] show ?case
      by (simp only: scan_loop_step Let_def fst_conv set_append set_rev Un_iff bex_Un list.set bex_simps dir_cand_simps) blast }
  { case 2 from 3(2) [OF refl] show ?case
      by (simp only: scan_loop_step Let_def snd_conv set_append set_rev Un_iff bex_Un list.set bex_simps dir_issue_simps) blast }
qed simp_all

lemma scan_found:
  "set (fst (scan cfg d)) = {mk_candidate cfg r md | r md. file_at cfg [] d r md \<and> eligible cfg r}"
  unfolding set_eq_iff by (simp add: scan_def split_beta scan_loop_sets dir_cand_def) blast

lemma scan_failed:
  "set (snd (scan cfg d)) = {\<lparr>si_path = sc_root cfg @ r, si_kind = k\<rparr> | r k. issue_at cfg [] d r k}"
  unfolding set_eq_iff by (simp add: scan_def split_beta scan_loop_sets dir_issue_def) blast

lemma candidate_abs [simp]: "ca_abs (mk_candidate cfg r md) = sc_root cfg @ r"
  by (simp add: mk_candidate_def split: option.split)

lemma scan_unskipped: "c \<in> set (fst (scan cfg d)) \<Longrightarrow> \<not> skipped cfg (ca_abs c)"
proof -
  have "\<not> skipped cfg (sc_root cfg @ r)" if "file_at cfg rel d r md" for rel d r md
    using that by (induction rule: file_at.induct) auto
  then show "c \<in> set (fst (scan cfg d)) \<Longrightarrow> \<not> skipped cfg (ca_abs c)" by (auto simp: scan_found)
qed

text \<open>
  C39. A scan finds exactly the eligible files that are visible under the root, in the
  order of their relative paths, none of them in a pruned directory, and loses no failure:
  every directory, entry or type that could not be read is reported and nothing else is.
\<close>

theorem scan_exact:
  "set (fst (scan cfg d)) = {mk_candidate cfg r md | r md. file_at cfg [] d r md \<and> eligible cfg r}
   \<and> set (snd (scan cfg d)) = {\<lparr>si_path = sc_root cfg @ r, si_kind = k\<rparr> | r k. issue_at cfg [] d r k}
   \<and> sorted (List.map ca_relpath (fst (scan cfg d)))
   \<and> list_all (\<lambda>c. \<not> skipped cfg (ca_abs c)) (fst (scan cfg d))"
  using scan_unskipped scan_found scan_failed by (simp add: list_all_iff) (simp add: scan_def split_beta)

text \<open>
  A component that is not UTF-8 is dropped from the key, so a file below such a directory
  takes the identity of another file of the tree.
\<close>

lemma non_utf8_names_collide:
  "rel_key [[CHR 0xFF], ''a.csv''] = rel_key [''a.csv'']
   \<and> ca_abs (mk_candidate cfg [[CHR 0xFF], ''a.csv''] md) \<noteq> ca_abs (mk_candidate cfg [''a.csv''] md)"
  by (simp add: rel_key_def to_str_ok_def mk_candidate_def split: option.split)

text \<open>A pruned directory at or above the root prunes everything.\<close>

lemma pruned_root_finds_nothing:
  assumes "s \<in> set (sc_skip cfg)" "path_starts_with (sc_root cfg) s"
  shows "fst (scan cfg d) = []"
proof -
  have len: "length s \<le> length (sc_root cfg)"
    using arg_cong [OF assms(2) [unfolded path_starts_with_def], of length] by simp
  have "skipped cfg (ca_abs c)" if "c \<in> set (fst (scan cfg d))" for c
    using that len assms by (auto simp: scan_found skipped_def path_starts_with_def intro!: bexI [of _ s])
  then show ?thesis using scan_unskipped [of _ cfg d] by (cases "fst (scan cfg d)") auto
qed

section \<open>What a discovery pass accounts for\<close>

lemma judge_counts:
  assumes "judge now probe ex cs s rp = (rp', s')"
  shows "\<exists>rs iss. sr_ready rp' = sr_ready rp @ rs \<and> sr_issues rp' = sr_issues rp @ iss \<and> set rs \<subseteq> set cs
    \<and> length rs + length iss + sr_ignored rp' = length cs + sr_ignored rp \<and> sr_discovered rp' = sr_discovered rp"
  using assms
proof (induction cs arbitrary: s rp)
  case (Cons c cs)
  obtain v s1 where v: "is_ready now probe ex (ca_abs c) s = (v, s1)" by force
  show ?case
  proof (cases v)
    case (Inl e)
    then show ?thesis
      using Cons.prems v Cons.IH [of s1] by (cases "io_kind e = PermissionDeniedKind") force+
  next
    case (Inr b)
    then show ?thesis using Cons.prems v Cons.IH [of s1] by (cases b) force+
  qed
qed simp

lemma tracked_retained: "retain_tracked ps s = RStability t \<Longrightarrow> fst ` set (tr_seen t) \<subseteq> set ps"
  by (auto simp: retain_tracked_def tr_retain_def split: ready_strategy.splits)

text \<open>
  A discovery pass accounts for every candidate once, as ready, ignored or denied; only
  files the scan saw are ready; and the tracker holds nothing that is no longer in the tree.
\<close>

theorem discovery_accounts:
  assumes "discover_report now probe d w = (rp, w')"
  shows "sr_discovered rp = length (sr_ready rp) + sr_ignored rp + (length (sr_issues rp) - length (snd (scan (wa_scan w) d)))
    \<and> set (sr_ready rp) \<subseteq> set (fst (scan (wa_scan w) d))
    \<and> (\<forall>t. wa_strategy w' = RStability t \<longrightarrow> fst ` set (tr_seen t) \<subseteq> ca_abs ` set (fst (scan (wa_scan w) d)))"
proof -
  let ?cs = "fst (scan (wa_scan w) d)" and ?iss = "snd (scan (wa_scan w) d)"
  obtain s' where j: "judge now probe (sc_exclude (wa_scan w)) ?cs (wa_strategy w)
      \<lparr>sr_ready = [], sr_issues = ?iss, sr_discovered = length ?cs, sr_ignored = 0\<rparr> = (rp, s')"
    and w': "w' = w\<lparr>wa_strategy := retain_tracked (List.map ca_abs ?cs) s'\<rparr>"
    using assms by (auto simp: discover_report_def split: prod.splits)
  have "fst ` set (tr_seen t) \<subseteq> ca_abs ` set ?cs" if "wa_strategy w' = RStability t" for t
    using tracked_retained [of "List.map ca_abs ?cs" s' t] that w' by simp
  then show ?thesis using judge_counts [OF j] by auto
qed

definition ex_scan :: scan_cfg where
  "ex_scan = \<lparr>sc_root = [''in''], sc_recursive = True, sc_include = glob_empty, sc_exclude = glob_empty,
     sc_skip = [[''in'', ''done'']]\<rparr>"

definition ex_tree :: fs_dir where
  "ex_tree = Entries [Entry ''b.csv'' (NFile (Some (3, 5))), Entry ''done'' (NDir (Entries [Entry ''x'' (NFile None)])),
     Entry ''a'' (NDir (Entries [Entry ''c.csv'' (NFile (Some (4, 6)))])), Entry ''z'' (NDir (Unreadable PermissionDeniedKind))]"

theorem discovery_accounts_witness:
  "\<exists>rp w'. discover_report 9 \<lparr>rp_observe = (\<lambda>_. Inr ex_obs), rp_marker_exists = (\<lambda>_. True)\<rparr> ex_tree
       \<lparr>wa_scan = ex_scan, wa_strategy = RMarker ''.done''\<rparr> = (rp, w')
     \<and> sr_discovered rp = length (sr_ready rp) + sr_ignored rp + (length (sr_issues rp) - length (snd (scan ex_scan ex_tree)))"
proof -
  let ?p = "\<lparr>rp_observe = (\<lambda>_. Inr ex_obs), rp_marker_exists = (\<lambda>_. True)\<rparr>"
    and ?w = "\<lparr>wa_scan = ex_scan, wa_strategy = RMarker ''.done''\<rparr>"
  obtain rp w' where run: "discover_report 9 ?p ex_tree ?w = (rp, w')" by force
  from discovery_accounts [OF run] run show ?thesis by auto
qed

end
