(* ===== verification/Sugar.thy ===== *)
theory Sugar
  imports Prelude
begin

text \<open>
  The English schedule phrases (\<open>src/schedule/sugar.rs\<close>): their compilation to cron
  strings, the times of day, and the window phrase. Strings are ASCII; an error is the
  phrase that was not recognized.
\<close>

section \<open>The compiler\<close>

definition normalize_phrase :: "string \<Rightarrow> string" where
  "normalize_phrase phrase = str_join '' '' (split_whitespace (to_ascii_lowercase (str_trim phrase)))"

definition parse_count :: "string \<Rightarrow> nat option" where
  "parse_count s =
     (case parse_uint 32 s of None \<Rightarrow> None | Some n \<Rightarrow> if n = 0 then None else Some n)"

definition to_24h :: "bool option \<Rightarrow> nat \<Rightarrow> nat option" where
  "to_24h meridiem hour =
     (case meridiem of
        Some is_pm \<Rightarrow>
          if \<not> (1 \<le> hour \<and> hour \<le> 12) then None
          else if is_pm \<and> hour \<noteq> 12 then Some (hour + 12)
          else if \<not> is_pm \<and> hour = 12 then Some 0
          else Some hour
      | None \<Rightarrow> if hour > 23 then None else Some hour)"

definition parse_time :: "string \<Rightarrow> (nat \<times> nat) option" where
  "parse_time s0 =
     (let s = str_trim s0 in
      if s = [] then None
      else (let (body, meridiem) =
                  (case strip_suffix ''am'' s of
                     Some b \<Rightarrow> (str_trim b, Some False)
                   | None \<Rightarrow> (case strip_suffix ''pm'' s of
                       Some b \<Rightarrow> (str_trim b, Some True)
                     | None \<Rightarrow> (s, None)));
                (h_str, m_str) =
                  (case str_split_once (CHR '':'') body of Some p \<Rightarrow> p | None \<Rightarrow> (body, ''0'')) in
            case parse_uint 32 (str_trim h_str) of
              None \<Rightarrow> None
            | Some hour \<Rightarrow>
                (case parse_uint 32 (str_trim m_str) of
                   None \<Rightarrow> None
                 | Some minute \<Rightarrow>
                     if minute > 59 then None
                     else map_option (\<lambda>h. (h, minute)) (to_24h meridiem hour))))"

definition weekday_num :: "string \<Rightarrow> nat option" where
  "weekday_num s =
     (if s \<in> {''sun'', ''sunday''} then Some 0
      else if s \<in> {''mon'', ''monday''} then Some 1
      else if s \<in> {''tue'', ''tues'', ''tuesday''} then Some 2
      else if s \<in> {''wed'', ''wednesday''} then Some 3
      else if s \<in> {''thu'', ''thur'', ''thurs'', ''thursday''} then Some 4
      else if s \<in> {''fri'', ''friday''} then Some 5
      else if s \<in> {''sat'', ''saturday''} then Some 6
      else None)"

definition every_n :: "string \<Rightarrow> string \<Rightarrow> string \<Rightarrow> string option" where
  "every_n before after n = map_option (\<lambda>n. before @ ''*/'' @ show_nat n @ after) (parse_count n)"

definition at_time :: "string list \<Rightarrow> string \<Rightarrow> string option" where
  "at_time rest days =
     map_option (\<lambda>(h, m). show_nat m @ '' '' @ show_nat h @ '' * * '' @ days)
       (parse_time (str_join '' '' rest))"

text \<open>The match on the words; a pattern \<open>[a, b, rest @ ..]\<close> is a test on the first words.\<close>

definition words_to_cron :: "string list \<Rightarrow> string option" where
  "words_to_cron ws =
     (let n = length ws in
      if ws = [''hourly''] then Some ''0 * * * *''
      else if ws = [''daily''] \<or> ws = [''every'', ''day''] then Some ''0 0 * * *''
      else if n = 3 \<and> ws ! 0 = ''every'' \<and> ws ! 2 = ''seconds'' then every_n [] '' * * * * *'' (ws ! 1)
      else if n = 3 \<and> ws ! 0 = ''every'' \<and> ws ! 2 = ''minutes'' then every_n [] '' * * * *'' (ws ! 1)
      else if n = 3 \<and> ws ! 0 = ''every'' \<and> ws ! 2 = ''hours'' then every_n ''0 '' '' * * *'' (ws ! 1)
      else if n = 5 \<and> ws ! 0 = ''every'' \<and> drop 2 ws = [''minutes'', ''on'', ''weekdays'']
        then every_n [] '' * * * 1-5'' (ws ! 1)
      else if take 2 ws = [''daily'', ''at''] then at_time (drop 2 ws) ''*''
      else if take 3 ws = [''every'', ''day'', ''at''] then at_time (drop 3 ws) ''*''
      else if take 3 ws = [''every'', ''weekday'', ''at''] then at_time (drop 3 ws) ''1-5''
      else if n \<ge> 3 \<and> ws ! 0 = ''every'' \<and> ws ! 2 = ''at'' \<and> weekday_num (ws ! 1) \<noteq> None
        then at_time (drop 3 ws) (show_nat (the (weekday_num (ws ! 1))))
      else if n \<ge> 4 \<and> take 2 ws = [''weekly'', ''on''] \<and> ws ! 3 = ''at'' \<and> weekday_num (ws ! 2) \<noteq> None
        then at_time (drop 4 ws) (show_nat (the (weekday_num (ws ! 2))))
      else None)"

definition to_cron :: "string \<Rightarrow> string + string" where
  "to_cron phrase =
     (case words_to_cron (split_whitespace (normalize_phrase phrase)) of
        Some c \<Rightarrow> Inr c
      | None \<Rightarrow> Inl phrase)"

text \<open>\<open>split_once\<close> on a string.\<close>

fun str_cut :: "string \<Rightarrow> string \<Rightarrow> (string \<times> string) option" where
  "str_cut sep [] = (if sep = [] then Some ([], []) else None)"
| "str_cut sep (c # cs) =
     (if take (length sep) (c # cs) = sep then Some ([], drop (length sep) (c # cs))
      else map_option (\<lambda>(a, b). (c # a, b)) (str_cut sep cs))"

definition parse_window_between :: "string \<Rightarrow> (string \<times> string) option" where
  "parse_window_between phrase =
     Option.bind (strip_prefix ''between '' (normalize_phrase phrase)) (\<lambda>rest.
     Option.bind (str_cut '' and '' rest) (\<lambda>(open_s, close_s).
     Option.bind (parse_time (str_trim open_s)) (\<lambda>(oh, om).
     Option.bind (parse_time (str_trim close_s)) (\<lambda>(ch, cm).
     Some (show_nat om @ '' '' @ show_nat oh @ '' * * *'', show_nat cm @ '' '' @ show_nat ch @ '' * * *'')))))"

section \<open>Words\<close>

lemma words_aux_plain:
  "\<forall>c\<in>set a. \<not> ascii_ws c \<Longrightarrow> words_aux acc (a @ s) = words_aux (rev a @ acc) s"
  by (induction a arbitrary: acc) auto

lemma split_whitespace_word [simp]:
  "\<forall>c\<in>set a. \<not> ascii_ws c \<Longrightarrow> a \<noteq> [] \<Longrightarrow> split_whitespace a = [a]"
  using words_aux_plain [of a "[]" "[]"] by (simp add: split_whitespace_def)

lemma split_whitespace_cons:
  "\<forall>c\<in>set a. \<not> ascii_ws c \<Longrightarrow> a \<noteq> [] \<Longrightarrow> split_whitespace (a @ '' '' @ s) = a # split_whitespace s"
proof -
  assume a: "\<forall>c\<in>set a. \<not> ascii_ws c" "a \<noteq> []"
  have ws: "ascii_ws (CHR '' '')" by (simp add: ascii_ws_def)
  have "words_aux [] (a @ '' '' @ s) = words_aux (rev a) ('' '' @ s)"
    using words_aux_plain [OF a(1), of "[]" "'' '' @ s"] by simp
  then show ?thesis using a ws by (simp add: split_whitespace_def)
qed

lemma digit_not_ws: "is_digit c \<Longrightarrow> \<not> ascii_ws c"
  by (auto simp: is_digit_def ascii_ws_def Let_def)

lemma show_nat_no_ws: "\<forall>c\<in>set (show_nat n). \<not> ascii_ws c"
  using show_nat_digits [of n] digit_not_ws by blast

lemma str_trim_plain: "\<forall>c\<in>set s. \<not> ascii_ws c \<Longrightarrow> str_trim s = s"
proof -
  assume s: "\<forall>c\<in>set s. \<not> ascii_ws c"
  have id: "dropWhile ascii_ws t = t" if "set t = set s" for t
    unfolding dropWhile_eq_self_iff using s that by (metis list.set_sel(1))
  show ?thesis by (simp add: str_trim_def id)
qed

lemma ws_literals: "\<not> ascii_ws (CHR ''*'')" "\<not> ascii_ws (CHR ''/'')" "\<not> ascii_ws (CHR ''0'')"
    "\<not> ascii_ws (CHR ''1'')" "\<not> ascii_ws (CHR ''-'')" "\<not> ascii_ws (CHR ''5'')" "\<not> ascii_ws (CHR '':'')"
    "\<not> ascii_ws (CHR ''a'')" "\<not> ascii_ws (CHR ''p'')" "\<not> ascii_ws (CHR ''m'')"
  by (simp_all add: ascii_ws_def)

section \<open>The compiled strings\<close>

definition field_ok :: "nat \<Rightarrow> string \<Rightarrow> bool" where
  "field_ok b f =
     (f = ''*'' \<or> (b = 7 \<and> f = ''1-5'')
      \<or> (take 2 f = ''*/'' \<and> (case parse_nat (drop 2 f) of Some n \<Rightarrow> 0 < n | None \<Rightarrow> False))
      \<or> (case parse_nat f of Some n \<Rightarrow> n < b | None \<Rightarrow> False))"

definition cron_shape :: "string \<Rightarrow> bool" where
  "cron_shape c =
     (let fs = split_whitespace c in
      list_all2 field_ok [60, 24, 32, 13, 7] fs \<or> list_all2 field_ok [60, 60, 24, 32, 13, 7] fs)"

lemma field_ok_simps [simp]:
  "field_ok b ''*''" "field_ok 7 ''1-5''" "field_ok b (show_nat n) = (n < b)"
  "0 < n \<Longrightarrow> field_ok b (CHR ''*'' # CHR ''/'' # show_nat n)" "0 < b \<Longrightarrow> field_ok b ''0''"
proof -
  have "parse_nat ''0'' = Some 0" by code_simp
  then show "0 < b \<Longrightarrow> field_ok b ''0''" by (simp add: field_ok_def)
  obtain c cs where s: "show_nat n = c # cs" by (meson show_nat_nonempty neq_Nil_conv)
  then have d: "is_digit c" "\<forall>x\<in>set cs. is_digit x" using show_nat_digits [of n] by auto
  have lit: "\<not> is_digit (CHR ''*'')" "\<not> is_digit (CHR ''-'')" by (simp_all add: is_digit_def)
  have "show_nat n \<noteq> ''*''" "show_nat n \<noteq> ''1-5''" "take 2 (show_nat n) \<noteq> ''*/''"
    using d s lit by auto
  then show "field_ok b (show_nat n) = (n < b)" by (simp add: field_ok_def)
qed (simp_all add: field_ok_def)

lemma parse_time_range: "parse_time s = Some (h, m) \<Longrightarrow> h < 24 \<and> m < 60"
  by (auto simp: parse_time_def to_24h_def Let_def split: if_splits option.splits prod.splits)

lemma weekday_num_range: "weekday_num s = Some d \<Longrightarrow> d < 7"
  by (auto simp: weekday_num_def split: if_splits)

lemma parse_count_pos: "parse_count s = Some n \<Longrightarrow> 0 < n"
  by (auto simp: parse_count_def split: option.splits if_splits)

text \<open>A blank-free word; joining such words and splitting gives them back.\<close>

definition plain_word :: "string \<Rightarrow> bool" where
  "plain_word s = (s \<noteq> [] \<and> list_all (\<lambda>c. \<not> ascii_ws c) s)"

lemma plain_words [simp]:
  "plain_word (show_nat n)" "plain_word ''*''" "plain_word ''0''" "plain_word ''1-5''"
  "plain_word (CHR ''*'' # CHR ''/'' # show_nat n)"
  using show_nat_no_ws [of n] by (auto simp: plain_word_def ws_literals list_all_iff)

lemma split_join_words: "list_all plain_word ws \<Longrightarrow> split_whitespace (str_join '' '' ws) = ws"
proof (induction ws rule: induct_list012)
  case 1
  then show ?case by (simp add: split_whitespace_def)
next
  case (2 w)
  then show ?case by (simp add: plain_word_def list_all_iff)
next
  case (3 v w ws)
  then have "split_whitespace (v @ '' '' @ str_join '' '' (w # ws)) = v # split_whitespace (str_join '' '' (w # ws))"
    by (intro split_whitespace_cons) (auto simp: plain_word_def list_all_iff)
  then show ?case using 3 by simp
qed

lemma cron_shapeI:
  assumes "c = str_join '' '' fs" "list_all plain_word fs"
    "list_all2 field_ok [60, 24, 32, 13, 7] fs \<or> list_all2 field_ok [60, 60, 24, 32, 13, 7] fs"
  shows "cron_shape c"
  using assms by (simp add: cron_shape_def split_join_words)

lemma shape_time:
  assumes "at_time rest days = Some c" "plain_word days" "field_ok 7 days"
  shows "cron_shape c"
proof -
  obtain h m where t: "parse_time (str_join '' '' rest) = Some (h, m)"
    and c: "c = str_join '' '' [show_nat m, show_nat h, ''*'', ''*'', days]"
    using assms(1) by (auto simp: at_time_def)
  show ?thesis
    by (rule cron_shapeI [OF c]) (use assms parse_time_range [OF t] in simp_all)
qed

text \<open>The fixed phrases and the \<open>every n\<close> phrases, as joined fields.\<close>

lemma shape_fixed: "cron_shape ''0 * * * *''" "cron_shape ''0 0 * * *''"
  by (rule cron_shapeI [where fs = "[''0'', ''*'', ''*'', ''*'', ''*'']"], simp_all)
    (rule cron_shapeI [where fs = "[''0'', ''0'', ''*'', ''*'', ''*'']"], simp_all)

lemma shape_every:
  assumes "every_n before after s = Some c"
    "\<And>n. before @ ''*/'' @ show_nat n @ after = str_join '' '' (pre @ [''*/'' @ show_nat n] @ post)"
    "list_all plain_word pre" "list_all plain_word post"
    "\<And>f. field_ok 60 f \<Longrightarrow> field_ok 24 f \<Longrightarrow> list_all2 field_ok [60, 24, 32, 13, 7] (pre @ [f] @ post)
       \<or> list_all2 field_ok [60, 60, 24, 32, 13, 7] (pre @ [f] @ post)"
  shows "cron_shape c"
proof -
  obtain n where n: "0 < n" "c = before @ ''*/'' @ show_nat n @ after"
    using assms(1) by (auto simp: every_n_def dest: parse_count_pos)
  have star: "plain_word (''*/'' @ show_nat n)" "field_ok b (''*/'' @ show_nat n)" for b
    using n(1) by (simp_all only: append_Cons append_Nil plain_words field_ok_simps)
  show ?thesis
    by (rule cron_shapeI [OF n(2) [unfolded assms(2)]]) (use assms(3,4) star assms(5) [OF star(2) star(2)] in simp_all)
qed

lemma shape_every_n:
  "every_n [] '' * * * * *'' s = Some c \<Longrightarrow> cron_shape c"
  "every_n [] '' * * * *'' s = Some c \<Longrightarrow> cron_shape c"
  "every_n ''0 '' '' * * *'' s = Some c \<Longrightarrow> cron_shape c"
  "every_n [] '' * * * 1-5'' s = Some c \<Longrightarrow> cron_shape c"
  by (erule shape_every [where pre = "[]" and post = "[''*'', ''*'', ''*'', ''*'', ''*'']"], simp_all)
    (erule shape_every [where pre = "[]" and post = "[''*'', ''*'', ''*'', ''*'']"], simp_all,
     erule shape_every [where pre = "[''0'']" and post = "[''*'', ''*'', ''*'']"], simp_all,
     erule shape_every [where pre = "[]" and post = "[''*'', ''*'', ''*'', ''1-5'']"], simp_all)

lemma if_SomeE: "(if b then x else y) = Some c \<Longrightarrow> (b \<Longrightarrow> x = Some c \<Longrightarrow> P) \<Longrightarrow> (y = Some c \<Longrightarrow> P) \<Longrightarrow> P"
  by (cases b) simp_all

lemma shape_at_time: "at_time rest ''*'' = Some c \<Longrightarrow> cron_shape c" "at_time rest ''1-5'' = Some c \<Longrightarrow> cron_shape c"
  by (erule shape_time, simp, simp)+

lemma shape_at_weekday:
  assumes "at_time rest (show_nat (the (weekday_num d))) = Some c" "weekday_num d \<noteq> None"
  shows "cron_shape c"
proof -
  obtain y where y: "weekday_num d = Some y" using assms(2) by blast
  show ?thesis
    by (rule shape_time [OF assms(1)]) (use y weekday_num_range [OF y] in simp_all)
qed



section \<open>Times of day\<close>

definition hour12 :: "nat \<Rightarrow> nat" where
  "hour12 h = (if h mod 12 = 0 then 12 else h mod 12)"

definition clock_24 :: "nat \<Rightarrow> nat \<Rightarrow> string" where
  "clock_24 h m = show_nat h @ '':'' @ show_nat m"

definition clock_12 :: "nat \<Rightarrow> nat \<Rightarrow> string" where
  "clock_12 h m = show_nat (hour12 h) @ '':'' @ show_nat m @ (if h < 12 then ''am'' else ''pm'')"

lemma clock_no_ws: "\<forall>c\<in>set (show_nat h @ '':'' @ show_nat m). \<not> ascii_ws c"
  using show_nat_no_ws by (auto simp: ws_literals)

lemma strip_suffix_digit: "a \<noteq> CHR ''0'' \<Longrightarrow> \<not> is_digit b \<Longrightarrow> strip_suffix [a, b] (s @ show_nat m) = None"
proof -
  assume b: "\<not> is_digit b"
  obtain ds d where s: "show_nat m = ds @ [d]" by (meson show_nat_nonempty rev_exhaust)
  then have "is_digit d" using show_nat_digits [of m] by auto
  moreover have "drop (length (s @ show_nat m) - 2) (s @ show_nat m) = [a, b] \<Longrightarrow> last (s @ show_nat m) = b"
    by (metis last_drop last.simps list.distinct(1) drop_eq_Nil2 not_le)
  ultimately show ?thesis using b s by (auto simp: strip_suffix_def)
qed

lemma split_once_clock: "str_split_once (CHR '':'') (show_nat h @ '':'' @ t) = Some (show_nat h, t)"
proof -
  have "\<forall>c\<in>set a. c \<noteq> CHR '':'' \<Longrightarrow> str_split_once (CHR '':'') (a @ '':'' @ t) = Some (a, t)" for a
    by (induction a) auto
  moreover have "\<forall>c\<in>set (show_nat h). c \<noteq> CHR '':''"
    using show_nat_digits [of h] by (auto simp: is_digit_def)
  ultimately show ?thesis by blast
qed

text \<open>
  Every time of day can be written and is read back as meant, in the 24 hour form
  and in the 12 hour form with its meridiem, noon and midnight included; and no text is
  ever read as a time outside the day.
\<close>

theorem time_of_day_round_trip:
  assumes "h < 24" "m < 60"
  shows "parse_time (clock_24 h m) = Some (h, m) \<and> parse_time (clock_12 h m) = Some (h, m)
    \<and> (\<forall>s h' m'. parse_time s = Some (h', m') \<longrightarrow> h' < 24 \<and> m' < 60)"
proof -
  have num: "parse_uint 32 (show_nat n) = Some n" if "n < 60" for n
    by (rule parse_uint_show_nat) (use that in simp)
  have tr: "str_trim (show_nat n) = show_nat n" for n by (rule str_trim_plain [OF show_nat_no_ws])
  have trc: "str_trim (show_nat x @ CHR '':'' # show_nat m) = show_nat x @ CHR '':'' # show_nat m" for x
    using str_trim_plain [OF clock_no_ws] by simp
  have sp: "str_split_once (CHR '':'') (show_nat x @ CHR '':'' # t) = Some (show_nat x, t)" for x t
    using split_once_clock by simp
  have "strip_suffix ''am'' (clock_24 h m) = None" "strip_suffix ''pm'' (clock_24 h m) = None"
    using strip_suffix_digit [of "CHR ''a''" "CHR ''m''" "show_nat h @ '':''" m]
      strip_suffix_digit [of "CHR ''p''" "CHR ''m''" "show_nat h @ '':''" m]
    by (simp_all add: clock_24_def is_digit_def)
  then have t24: "parse_time (clock_24 h m) = Some (h, m)"
    using assms num [of h] num [of m]
    by (simp add: parse_time_def clock_24_def trc sp tr to_24h_def Let_def)
  have m12: "h mod 12 = (if h < 12 then h else h - 12)" using assms(1) by (simp add: mod_if)
  have hh: "hour12 h < 60" "to_24h (Some (12 \<le> h)) (hour12 h) = Some h"
    using assms(1) m12 by (auto simp: hour12_def to_24h_def)
  have trs: "str_trim (clock_12 h m) = clock_12 h m"
    by (rule str_trim_plain) (use show_nat_no_ws in \<open>auto simp: clock_12_def ws_literals\<close>)
  have "strip_suffix ''am'' (s @ ''am'') = Some s" "strip_suffix ''pm'' (s @ ''pm'') = Some s"
    "strip_suffix ''am'' (s @ ''pm'') = None" for s
    by (simp_all add: strip_suffix_def)
  from this [of "show_nat (hour12 h) @ '':'' @ show_nat m"]
  have t12: "parse_time (clock_12 h m) = Some (h, m)"
    using assms(2) hh num [of "hour12 h"] num [of m] trs
    by (cases "h < 12") (simp_all add: parse_time_def clock_12_def trc sp tr Let_def)
  show ?thesis using t24 t12 parse_time_range by blast
qed

theorem time_of_day_round_trip_witness:
  "parse_time (clock_24 0 5) = Some (0, 5) \<and> parse_time (clock_12 12 30) = Some (12, 30)"
  using time_of_day_round_trip [of 0 5] time_of_day_round_trip [of 12 30] by simp

end
