(* ===== verification/Schedule.thy ===== *)
theory Schedule
  imports Sugar
begin

text \<open>
  The scheduling model (\<open>src/schedule/mod.rs\<close>, \<open>window.rs\<close>, \<open>cron.rs\<close>). An instant of
  \<open>DateTime<Utc>\<close> is its integer number of nanoseconds. The cron engine and the time zone
  database are the record \<open>cron_lib\<close>: the zone of a name, and for an expression in a zone
  the search for an occurrence (from an instant, inclusive or not, forward or back), its
  result mapped to UTC.
\<close>

type_synonym utc = int

type_synonym occurrence = "utc \<Rightarrow> bool \<Rightarrow> bool \<Rightarrow> utc option"

record 'tz cron_lib =
  cl_zone :: "string \<Rightarrow> 'tz option"
  cl_cron :: "string \<Rightarrow> 'tz \<Rightarrow> occurrence option"

datatype schedule_error =
    InvalidCron string
  | InvalidTimezone string
  | UnrecognizedPhrase string
  | AmbiguousWindowClose
  | InvalidDuration
  | NeverFires string
  | DurationPanic

section \<open>Cron expressions\<close>

record cron_expr =
  ce_find :: occurrence
  ce_src :: string

definition cron_parse :: "'tz cron_lib \<Rightarrow> string \<Rightarrow> 'tz \<Rightarrow> schedule_error + cron_expr" where
  "cron_parse C expr tz =
     (case cl_cron C expr tz of
        None \<Rightarrow> Inl (InvalidCron expr)
      | Some f \<Rightarrow> Inr \<lparr>ce_find = f, ce_src = str_trim expr\<rparr>)"

definition next_fire :: "cron_expr \<Rightarrow> utc \<Rightarrow> utc option" where
  "next_fire c after = ce_find c after False True"

definition next_fire_inclusive :: "cron_expr \<Rightarrow> utc \<Rightarrow> utc option" where
  "next_fire_inclusive c at = ce_find c at True True"

definition prev_fire :: "cron_expr \<Rightarrow> utc \<Rightarrow> utc option" where
  "prev_fire c at = ce_find c at True False"

section \<open>Windows\<close>

datatype close = CloseCron cron_expr | CloseDuration int

datatype window_close = PauseResume | FinishCurrent

record window_sched =
  ws_open :: cron_expr
  ws_close :: close
  ws_on_close :: window_close
  ws_label :: string

datatype window_state = WOpen utc | WClosed utc

definition next_open_at_or_after :: "window_sched \<Rightarrow> utc \<Rightarrow> utc" where
  "next_open_at_or_after w now =
     (case next_fire_inclusive (ws_open w) now of Some t \<Rightarrow> t | None \<Rightarrow> now)"

definition state_for :: "window_sched \<Rightarrow> utc \<Rightarrow> (utc \<Rightarrow> utc option) \<Rightarrow> window_state" where
  "state_for w now close_after =
     (let last_open = prev_fire (ws_open w) now;
          open_until = (case Option.bind last_open close_after of
                          Some c \<Rightarrow> if now < c then Some c else None
                        | None \<Rightarrow> None) in
      case open_until of
        Some until \<Rightarrow> WOpen until
      | None \<Rightarrow> WClosed (next_open_at_or_after w now))"

definition window_state :: "window_sched \<Rightarrow> utc \<Rightarrow> window_state" where
  "window_state w now =
     (case ws_close w of
        CloseCron c \<Rightarrow> state_for w now (next_fire_inclusive c)
      | CloseDuration d \<Rightarrow> state_for w now (\<lambda>o'. Some (o' + d)))"

section \<open>Schedules\<close>

datatype schedule = SImmediate | SCron cron_expr | SWindow window_sched

datatype admission = AAll bool | ANone | AWindowed utc window_close

definition admission_at :: "schedule \<Rightarrow> utc \<Rightarrow> utc option \<Rightarrow> admission \<times> utc option" where
  "admission_at S now last_fire =
     (case S of
        SImmediate \<Rightarrow> (AAll False, last_fire)
      | SCron c \<Rightarrow>
          (let baseline = (case last_fire of Some t \<Rightarrow> t | None \<Rightarrow> now);
               fired = (case prev_fire c now of Some f \<Rightarrow> baseline < f | None \<Rightarrow> False) in
           (if fired then AAll True else ANone, Some now))
      | SWindow w \<Rightarrow>
          ((case window_state w now of
              WOpen until \<Rightarrow> AWindowed until (ws_on_close w)
            | WClosed _ \<Rightarrow> ANone), last_fire))"

definition next_wake :: "schedule \<Rightarrow> utc \<Rightarrow> utc option" where
  "next_wake S now =
     (case S of
        SImmediate \<Rightarrow> None
      | SCron c \<Rightarrow> next_fire c now
      | SWindow w \<Rightarrow> Some (case window_state w now of WOpen until \<Rightarrow> until | WClosed opens_at \<Rightarrow> opens_at))"

section \<open>Building a schedule\<close>

record cron_cfg =
  cs_expression :: string
  cs_timezone :: "string option"

record window_cfg =
  wc_open :: string
  wc_close :: "string option"
  wc_duration_mins :: "u64 option"
  wc_timezone :: "string option"
  wc_on_window_close :: window_close

datatype schedule_cfg = CfgImmediate | CfgCron cron_cfg | CfgWindow window_cfg

definition resolve_tz :: "'tz cron_lib \<Rightarrow> string option \<Rightarrow> string option \<Rightarrow> schedule_error + 'tz" where
  "resolve_tz C explicit default_tz =
     (let raw = (case explicit of Some z \<Rightarrow> z
                 | None \<Rightarrow> (case default_tz of Some z \<Rightarrow> z | None \<Rightarrow> ''UTC'')) in
      case cl_zone C raw of None \<Rightarrow> Inl (InvalidTimezone raw) | Some tz \<Rightarrow> Inr tz)"

definition parse_cron_or_sugar :: "'tz cron_lib \<Rightarrow> string \<Rightarrow> 'tz \<Rightarrow> schedule_error + cron_expr" where
  "parse_cron_or_sugar C expr tz =
     (case cron_parse C expr tz of
        Inr c \<Rightarrow> Inr c
      | Inl _ \<Rightarrow> (case to_cron expr of
          Inl p \<Rightarrow> Inl (UnrecognizedPhrase p)
        | Inr translated \<Rightarrow> cron_parse C translated tz))"

definition ensure_fires :: "utc \<Rightarrow> cron_expr \<Rightarrow> schedule_error + unit" where
  "ensure_fires clock c = (case next_fire c clock of None \<Rightarrow> Inl (NeverFires (ce_src c)) | Some _ \<Rightarrow> Inr ())"

definition cron_from_cfg ::
  "'tz cron_lib \<Rightarrow> utc \<Rightarrow> cron_cfg \<Rightarrow> string option \<Rightarrow> schedule_error + cron_expr" where
  "cron_from_cfg C clock cfg default_tz =
     bind_res (resolve_tz C (cs_timezone cfg) default_tz) (\<lambda>tz.
     bind_res (parse_cron_or_sugar C (cs_expression cfg) tz) (\<lambda>e.
     bind_res (ensure_fires clock e) (\<lambda>_. Inr e)))"

text \<open>
  \<open>chrono::Duration::minutes(mins as i64)\<close>: panics when the seconds leave the range of
  \<open>i64::MAX\<close> milliseconds.
\<close>

definition duration_minutes :: "i64 \<Rightarrow> schedule_error + int" where
  "duration_minutes m =
     (if \<bar>m * 60\<bar> \<le> i64_max div 1000 then Inr (m * 60 * 1000000000) else Inl DurationPanic)"

definition window_from_cfg ::
  "'tz cron_lib \<Rightarrow> utc \<Rightarrow> window_cfg \<Rightarrow> string option \<Rightarrow> schedule_error + window_sched" where
  "window_from_cfg C clock cfg default_tz =
     bind_res (resolve_tz C (wc_timezone cfg) default_tz) (\<lambda>tz.
     if wc_close cfg \<noteq> None \<and> wc_duration_mins cfg \<noteq> None then Inl AmbiguousWindowClose
     else (case wc_close cfg of
       Some close_str \<Rightarrow>
         bind_res (parse_cron_or_sugar C (wc_open cfg) tz) (\<lambda>opn.
         bind_res (ensure_fires clock opn) (\<lambda>_.
         bind_res (parse_cron_or_sugar C close_str tz) (\<lambda>cls.
         Inr \<lparr>ws_open = opn, ws_close = CloseCron cls, ws_on_close = wc_on_window_close cfg,
              ws_label = wc_open cfg @ '' -> '' @ close_str\<rparr>)))
     | None \<Rightarrow>
     (case wc_duration_mins cfg of
       Some mins \<Rightarrow>
         if mins = 0 then Inl InvalidDuration
         else bind_res (parse_cron_or_sugar C (wc_open cfg) tz) (\<lambda>opn.
              bind_res (ensure_fires clock opn) (\<lambda>_.
              bind_res (duration_minutes (u64_as_i64 mins)) (\<lambda>dur.
              Inr \<lparr>ws_open = opn, ws_close = CloseDuration dur, ws_on_close = wc_on_window_close cfg,
                   ws_label = wc_open cfg @ '' for '' @ show_nat (unat mins) @ ''m''\<rparr>)))
     | None \<Rightarrow>
     (case parse_window_between (wc_open cfg) of
       Some (open_cron, close_cron) \<Rightarrow>
         bind_res (cron_parse C open_cron tz) (\<lambda>opn.
         bind_res (ensure_fires clock opn) (\<lambda>_.
         bind_res (cron_parse C close_cron tz) (\<lambda>cls.
         Inr \<lparr>ws_open = opn, ws_close = CloseCron cls, ws_on_close = wc_on_window_close cfg,
              ws_label = wc_open cfg\<rparr>)))
     | None \<Rightarrow> Inl AmbiguousWindowClose))))"

definition from_cfg ::
  "'tz cron_lib \<Rightarrow> utc \<Rightarrow> schedule_cfg \<Rightarrow> string option \<Rightarrow> schedule_error + schedule" where
  "from_cfg C clock cfg default_tz =
     (case cfg of
        CfgImmediate \<Rightarrow> Inr SImmediate
      | CfgCron c \<Rightarrow> map_res SCron (cron_from_cfg C clock c default_tz)
      | CfgWindow w \<Rightarrow> map_res SWindow (window_from_cfg C clock w default_tz))"

section \<open>The cron engine's contract\<close>

text \<open>
  What the engine documents: a search returns the nearest occurrence on its side, and
  nothing only when there is none. \<open>F\<close> is the set of the instants the expression fires at.
\<close>

definition nearest_after :: "utc set \<Rightarrow> (utc \<Rightarrow> bool) \<Rightarrow> utc option \<Rightarrow> bool" where
  "nearest_after F P r =
     (case r of None \<Rightarrow> (\<forall>f\<in>F. \<not> P f) | Some t \<Rightarrow> t \<in> F \<and> P t \<and> (\<forall>f\<in>F. P f \<longrightarrow> t \<le> f))"

definition nearest_before :: "utc set \<Rightarrow> (utc \<Rightarrow> bool) \<Rightarrow> utc option \<Rightarrow> bool" where
  "nearest_before F P r =
     (case r of None \<Rightarrow> (\<forall>f\<in>F. \<not> P f) | Some t \<Rightarrow> t \<in> F \<and> P t \<and> (\<forall>f\<in>F. P f \<longrightarrow> f \<le> t))"

definition cron_fires :: "cron_expr \<Rightarrow> utc set \<Rightarrow> bool" where
  "cron_fires c F =
     (\<forall>at. nearest_after F (\<lambda>f. at < f) (ce_find c at False True)
         \<and> nearest_after F (\<lambda>f. at \<le> f) (ce_find c at True True)
         \<and> nearest_before F (\<lambda>f. f \<le> at) (ce_find c at True False))"

lemma cron_firesD:
  assumes "cron_fires c F"
  shows "nearest_after F (\<lambda>f. at < f) (next_fire c at)"
    "nearest_after F (\<lambda>f. at \<le> f) (next_fire_inclusive c at)"
    "nearest_before F (\<lambda>f. f \<le> at) (prev_fire c at)"
  using assms by (simp_all add: cron_fires_def next_fire_def next_fire_inclusive_def prev_fire_def)

text \<open>The close that pairs with an opening at \<open>t\<close>, as the set it is the least of.\<close>

definition close_instants :: "close \<Rightarrow> utc set \<Rightarrow> utc \<Rightarrow> utc set" where
  "close_instants cl Fc t = (case cl of CloseCron _ \<Rightarrow> {c \<in> Fc. t \<le> c} | CloseDuration d \<Rightarrow> {t + d})"

definition close_ok :: "close \<Rightarrow> utc set \<Rightarrow> bool" where
  "close_ok cl Fc = (case cl of CloseCron c \<Rightarrow> cron_fires c Fc | CloseDuration _ \<Rightarrow> True)"

text \<open>
  The reference: a window is open at \<open>now\<close> when some opening at or before \<open>now\<close> has a close
  ahead of \<open>now\<close> and none from the opening to \<open>now\<close>.
\<close>

definition open_spec :: "utc set \<Rightarrow> close \<Rightarrow> utc set \<Rightarrow> utc \<Rightarrow> bool" where
  "open_spec Fo cl Fc now =
     (\<exists>t\<in>Fo. t \<le> now \<and> close_instants cl Fc t \<noteq> {} \<and> (\<forall>c\<in>close_instants cl Fc t. now < c))"

section \<open>Windows match the reference\<close>

definition is_open :: "window_state \<Rightarrow> bool" where
  "is_open s = (case s of WOpen _ \<Rightarrow> True | WClosed _ \<Rightarrow> False)"

definition close_after :: "close \<Rightarrow> utc \<Rightarrow> utc option" where
  "close_after cl t = (case cl of CloseCron c \<Rightarrow> next_fire_inclusive c t | CloseDuration d \<Rightarrow> Some (t + d))"

lemma window_state_alt: "window_state w now = state_for w now (close_after (ws_close w))"
  by (simp add: window_state_def close_after_def [abs_def] split: close.split)

lemma close_after_least:
  assumes "close_ok cl Fc"
  shows "case close_after cl t of
      None \<Rightarrow> close_instants cl Fc t = {}
    | Some c \<Rightarrow> c \<in> close_instants cl Fc t \<and> (\<forall>x\<in>close_instants cl Fc t. c \<le> x)"
proof (cases cl)
  case (CloseCron c)
  then show ?thesis
    using cron_firesD(2) [of c Fc t] assms
    by (auto simp: close_ok_def close_after_def close_instants_def nearest_after_def split: option.splits)
qed (simp add: close_after_def close_instants_def)

text \<open>The two ways a window is evaluated, in terms of its last opening.\<close>

lemma window_cases:
  assumes "cron_fires (ws_open w) Fo" "close_ok (ws_close w) Fc"
  obtains (opened) t u where "window_state w now = WOpen u" "now < u" "t \<in> Fo" "t \<le> now"
      "\<forall>f\<in>Fo. f \<le> now \<longrightarrow> f \<le> t" "u \<in> close_instants (ws_close w) Fc t"
      "\<forall>x\<in>close_instants (ws_close w) Fc t. u \<le> x"
  | (shut) "window_state w now = WClosed (next_open_at_or_after w now)"
      "\<forall>t\<in>Fo. t \<le> now \<longrightarrow> (\<forall>f\<in>Fo. f \<le> now \<longrightarrow> f \<le> t) \<longrightarrow>
         close_instants (ws_close w) Fc t = {} \<or> (\<exists>c\<in>close_instants (ws_close w) Fc t. c \<le> now)"
proof (cases "prev_fire (ws_open w) now")
  case None
  then have "\<forall>f\<in>Fo. \<not> f \<le> now" using cron_firesD(3) [OF assms(1), of now] by (simp add: nearest_before_def)
  with None show ?thesis by (intro shut) (auto simp: window_state_alt state_for_def Let_def)
next
  case (Some t)
  then have t: "t \<in> Fo" "t \<le> now" "\<forall>f\<in>Fo. f \<le> now \<longrightarrow> f \<le> t"
    using cron_firesD(3) [OF assms(1), of now] by (auto simp: nearest_before_def)
  note close = close_after_least [OF assms(2), of t]
  show ?thesis
  proof (cases "\<exists>u. close_after (ws_close w) t = Some u \<and> now < u")
    case True
    then obtain u where u: "close_after (ws_close w) t = Some u" "now < u" by blast
    show ?thesis
      by (rule opened [of u t]) (use u t close Some in \<open>auto simp: window_state_alt state_for_def Let_def\<close>)
  next
    case False
    show ?thesis
    proof (rule shut)
      show "window_state w now = WClosed (next_open_at_or_after w now)"
        using False Some by (auto simp: window_state_alt state_for_def Let_def split: option.split)
      have "close_instants (ws_close w) Fc t = {} \<or> (\<exists>c\<in>close_instants (ws_close w) Fc t. c \<le> now)"
        using close False by (auto simp: not_less split: option.splits)
      then show "\<forall>t\<in>Fo. t \<le> now \<longrightarrow> (\<forall>f\<in>Fo. f \<le> now \<longrightarrow> f \<le> t) \<longrightarrow>
          close_instants (ws_close w) Fc t = {} \<or> (\<exists>c\<in>close_instants (ws_close w) Fc t. c \<le> now)"
        using t by (metis order_antisym)
    qed
  qed
qed

text \<open>A later opening never closes earlier.\<close>

lemma close_instants_mono:
  assumes "s \<le> t" "t \<le> now" "close_instants cl Fc s \<noteq> {}" "\<forall>c\<in>close_instants cl Fc s. now < c"
  shows "close_instants cl Fc t \<noteq> {} \<and> (\<forall>c\<in>close_instants cl Fc t. now < c)"
  using assms by (cases cl) (force simp: close_instants_def)+

text \<open>
  C35. The window evaluation agrees with its reference: a window is open exactly when an
  opening has happened whose close has not, overnight windows and openings without a close
  included; the close reported lies ahead, and a closed window reports its next opening.
\<close>

theorem window_matches_reference:
  assumes "cron_fires (ws_open w) Fo" "close_ok (ws_close w) Fc"
  shows "case window_state w now of
      WOpen u \<Rightarrow> open_spec Fo (ws_close w) Fc now \<and> now < u \<and> (\<exists>t\<in>Fo. t \<le> now \<and> u \<in> close_instants (ws_close w) Fc t)
    | WClosed o' \<Rightarrow> \<not> open_spec Fo (ws_close w) Fc now
        \<and> (if \<exists>f\<in>Fo. now \<le> f then o' \<in> Fo \<and> now \<le> o' \<and> (\<forall>f\<in>Fo. now \<le> f \<longrightarrow> o' \<le> f) else o' = now)"
  using assms
proof (cases rule: window_cases [where now = now])
  case (opened t u)
  then show ?thesis by (fastforce simp: open_spec_def)
next
  case shut
  have "\<not> open_spec Fo (ws_close w) Fc now"
  proof
    assume "open_spec Fo (ws_close w) Fc now"
    then obtain s where s: "s \<in> Fo" "s \<le> now" "close_instants (ws_close w) Fc s \<noteq> {}"
      "\<forall>c\<in>close_instants (ws_close w) Fc s. now < c" by (auto simp: open_spec_def)
    obtain t where t: "t \<in> Fo" "t \<le> now" "\<forall>f\<in>Fo. f \<le> now \<longrightarrow> f \<le> t"
      using cron_firesD(3) [OF assms(1), of now] s(1,2) by (auto simp: nearest_before_def split: option.splits)
    have "s \<le> t" using t s by blast
    from close_instants_mono [OF this t(2) s(3,4)] shut(2) t show False by fastforce
  qed
  moreover have "if \<exists>f\<in>Fo. now \<le> f
      then next_open_at_or_after w now \<in> Fo \<and> now \<le> next_open_at_or_after w now
         \<and> (\<forall>f\<in>Fo. now \<le> f \<longrightarrow> next_open_at_or_after w now \<le> f)
      else next_open_at_or_after w now = now"
    using cron_firesD(2) [OF assms(1), of now]
    by (auto simp: next_open_at_or_after_def nearest_after_def split: option.splits)
  ultimately show ?thesis using shut(1) by simp
qed

lemma open_iff:
  assumes "cron_fires (ws_open w) Fo" "close_ok (ws_close w) Fc"
  shows "is_open (window_state w now) = open_spec Fo (ws_close w) Fc now"
  using window_matches_reference [OF assms, of now] by (auto simp: is_open_def split: window_state.splits)

section \<open>Waking up\<close>

definition schedule_ok :: "schedule \<Rightarrow> utc set \<Rightarrow> utc set \<Rightarrow> bool" where
  "schedule_ok S Fo Fc =
     (case S of
        SImmediate \<Rightarrow> True
      | SCron c \<Rightarrow> cron_fires c Fo
      | SWindow w \<Rightarrow> cron_fires (ws_open w) Fo \<and> close_ok (ws_close w) Fc)"

text \<open>
  The scheduler never sleeps through an edge: until the instant it asks to be woken at,
  a cron schedule does not fire and a window neither opens nor closes.
\<close>

theorem wake_misses_no_edge:
  assumes "schedule_ok S Fo Fc" "now \<le> t" "\<And>wk. next_wake S now = Some wk \<Longrightarrow> t < wk"
  shows "case S of
      SImmediate \<Rightarrow> True
    | SCron c \<Rightarrow> {f \<in> Fo. now < f \<and> f \<le> t} = {}
    | SWindow w \<Rightarrow> is_open (window_state w t) = is_open (window_state w now)"
proof (cases S)
  case (SCron c)
  then have "nearest_after Fo (\<lambda>f. now < f) (next_wake S now)"
    using assms(1) cron_firesD(1) [of c Fo now] by (simp add: schedule_ok_def next_wake_def)
  then show ?thesis
    using assms(3) SCron by (fastforce simp: nearest_after_def split: option.splits)
next
  case (SWindow w)
  then have w: "cron_fires (ws_open w) Fo" "close_ok (ws_close w) Fc"
    using assms(1) by (simp_all add: schedule_ok_def)
  have "open_spec Fo (ws_close w) Fc t = open_spec Fo (ws_close w) Fc now"
    using w
  proof (cases rule: window_cases [where now = now])
    case (opened t0 u)
    then have "t < u" using assms(3) [of u] SWindow by (simp add: next_wake_def)
    then have "open_spec Fo (ws_close w) Fc t" "open_spec Fo (ws_close w) Fc now"
      unfolding open_spec_def by (intro bexI [of _ t0] conjI; use opened assms(2) in force)+
    then show ?thesis by simp
  next
    case shut
    then have wake: "t < next_open_at_or_after w now"
      using assms(3) [of "next_open_at_or_after w now"] SWindow by (simp add: next_wake_def)
    have shut_now: "\<not> open_spec Fo (ws_close w) Fc now"
      using shut(1) open_iff [OF w, of now] by (simp add: is_open_def)
    have "s \<le> now" if "s \<in> Fo" "s \<le> t" for s
    proof (rule ccontr)
      assume "\<not> s \<le> now"
      then have "next_open_at_or_after w now \<le> s"
        using cron_firesD(2) [OF w(1), of now] that(1)
        by (auto simp: next_open_at_or_after_def nearest_after_def split: option.splits)
      then show False using wake that(2) by simp
    qed
    moreover have "now < c" if "t < c" for c using that assms(2) by simp
    ultimately have "\<not> open_spec Fo (ws_close w) Fc t"
      using shut_now unfolding open_spec_def by blast
    then show ?thesis using shut_now by simp
  qed
  then show ?thesis using SWindow open_iff [OF w] by simp
qed simp

section \<open>Cron releases each fire once\<close>

text \<open>The admissions of successive ticks, the watermark carried from one to the next.\<close>

fun admit_run :: "schedule \<Rightarrow> utc option \<Rightarrow> utc list \<Rightarrow> admission list" where
  "admit_run S last_fire [] = []"
| "admit_run S last_fire (t # ts) =
     (case admission_at S t last_fire of (a, last_fire') \<Rightarrow> a # admit_run S last_fire' ts)"

lemma admission_cron:
  assumes "cron_fires c F"
  shows "admission_at (SCron c) now (Some b) = (if \<exists>f\<in>F. b < f \<and> f \<le> now then AAll True else ANone, Some now)"
    "admission_at (SCron c) now None = (ANone, Some now)"
proof -
  have near: "nearest_before F (\<lambda>f. f \<le> now) (prev_fire c now)" by (rule cron_firesD [OF assms])
  then show "admission_at (SCron c) now (Some b)
      = (if \<exists>f\<in>F. b < f \<and> f \<le> now then AAll True else ANone, Some now)"
    by (cases "prev_fire c now") (fastforce simp: admission_at_def Let_def nearest_before_def)+
  show "admission_at (SCron c) now None = (ANone, Some now)"
    using near by (cases "prev_fire c now") (auto simp: admission_at_def Let_def nearest_before_def)
qed

lemma admit_run_from:
  assumes "cron_fires c F" "i < length ts"
  shows "admit_run (SCron c) (Some b) ts ! i =
      (if \<exists>f\<in>F. (b # ts) ! i < f \<and> f \<le> ts ! i then AAll True else ANone)"
  using assms(2)
proof (induction ts arbitrary: b i)
  case (Cons t ts)
  then show ?case by (cases i) (simp_all add: admission_cron [OF assms(1)])
qed simp

lemma fire_bracket:
  fixes f :: int
  assumes "ts \<noteq> []" "ts ! 0 < f" "f \<le> last ts"
  shows "\<exists>i. 0 < i \<and> i < length ts \<and> ts ! (i - 1) < f \<and> f \<le> ts ! i"
  using assms
proof (induction ts)
  case (Cons t ts)
  show ?case
  proof (cases "ts \<noteq> [] \<and> ts ! 0 < f")
    case True
    then obtain i where "0 < i" "i < length ts" "ts ! (i - 1) < f" "f \<le> ts ! i"
      using Cons.IH Cons.prems by auto
    then show ?thesis by (intro exI [of _ "Suc i"]) (auto simp: nth_Cons')
  next
    case False
    then show ?thesis
      using Cons.prems by (cases "ts = []") (auto intro!: exI [of _ "Suc 0"])
  qed
qed simp

text \<open>
  A cron schedule releases the backlog exactly once per fire: the first evaluation
  after a start only sets the watermark; from then on an evaluation drains exactly when a
  fire lies since the one before; and every later fire falls to exactly one evaluation,
  however the ticks are spaced.
\<close>

theorem cron_releases_each_fire_once:
  assumes "cron_fires c F" "ts \<noteq> []" "sorted ts"
  defines "run \<equiv> admit_run (SCron c) None ts"
  shows "run ! 0 = ANone
    \<and> (\<forall>i\<in>{1..<length ts}. run ! i = (if \<exists>f\<in>F. ts ! (i - 1) < f \<and> f \<le> ts ! i then AAll True else ANone))
    \<and> (\<forall>f\<in>F. ts ! 0 < f \<and> f \<le> last ts \<longrightarrow>
         (\<exists>!i. i \<in> {1..<length ts} \<and> ts ! (i - 1) < f \<and> f \<le> ts ! i))"
proof -
  obtain t rest where ts: "ts = t # rest" using assms(2) by (cases ts) auto
  have run: "run = ANone # admit_run (SCron c) (Some t) rest"
    by (simp add: run_def ts admission_cron [OF assms(1)])
  have at: "run ! i = (if \<exists>f\<in>F. ts ! (i - 1) < f \<and> f \<le> ts ! i then AAll True else ANone)"
    if "i \<in> {1..<length ts}" for i
    using that admit_run_from [OF assms(1), of "i - 1" rest t] by (cases i) (simp_all add: run ts)
  have once: "\<exists>!i. i \<in> {1..<length ts} \<and> ts ! (i - 1) < f \<and> f \<le> ts ! i" if f: "ts ! 0 < f" "f \<le> last ts" for f
  proof -
    obtain i where i: "0 < i" "i < length ts" "ts ! (i - 1) < f" "f \<le> ts ! i"
      using fire_bracket [OF assms(2) f] by blast
    have "j = i" if j: "j \<in> {1..<length ts}" "ts ! (j - 1) < f" "f \<le> ts ! j" for j
    proof (rule ccontr)
      assume "j \<noteq> i"
      then consider "j \<le> i - 1" | "i \<le> j - 1" using i(1) j(1) by fastforce
      then show False
      proof cases
        case 1
        then have "ts ! j \<le> ts ! (i - 1)" using sorted_nth_mono [OF assms(3), of j "i - 1"] i by simp
        then show False using i j by simp
      next
        case 2
        then have "ts ! i \<le> ts ! (j - 1)" using sorted_nth_mono [OF assms(3), of i "j - 1"] j by auto
        then show False using i j by simp
      qed
    qed
    then show ?thesis using i by (intro ex1I [of _ i]) auto
  qed
  show ?thesis using at once by (auto simp: run)
qed

section \<open>A concrete schedule\<close>

text \<open>Fires at every instant congruent to \<open>k\<close> modulo \<open>n\<close>.\<close>

definition every_cron :: "int \<Rightarrow> int \<Rightarrow> cron_expr" where
  "every_cron n k =
     \<lparr>ce_find = (\<lambda>at incl fwd.
        Some (if fwd then (if incl then at + (k - at) mod n else at + 1 + (k - (at + 1)) mod n)
              else (if incl then at - (at - k) mod n else at - 1 - (at - 1 - k) mod n))),
      ce_src = ''every''\<rparr>"

lemma every_after:
  assumes "0 < (n :: int)"
  shows "n dvd (at + (k - at) mod n - k)" "n dvd (f - k) \<Longrightarrow> at \<le> f \<Longrightarrow> at + (k - at) mod n \<le> f"
proof -
  have "(k - at) mod n = (k - at) - n * ((k - at) div n)" by (simp add: minus_mult_div_eq_mod)
  then have eq: "at + (k - at) mod n - k = n * - ((k - at) div n)" by simp
  show "n dvd (at + (k - at) mod n - k)" unfolding eq by (rule dvd_triv_left)
  assume f: "n dvd (f - k)" "at \<le> f"
  have "n dvd ((k - at) - (f - at))" using f(1) dvd_diff_commute [of n k f] by simp
  then have "(k - at) mod n = (f - at) mod n" by (simp add: mod_eq_dvd_iff)
  also have "\<dots> \<le> f - at" using f(2) by (intro zmod_le_nonneg_dividend) simp
  finally show "at + (k - at) mod n \<le> f" by simp
qed

lemma every_before:
  assumes "0 < (n :: int)"
  shows "n dvd (at - (at - k) mod n - k)" "n dvd (f - k) \<Longrightarrow> f \<le> at \<Longrightarrow> f \<le> at - (at - k) mod n"
proof -
  have "(at - k) mod n = (at - k) - n * ((at - k) div n)" by (simp add: minus_mult_div_eq_mod)
  then have eq: "at - (at - k) mod n - k = n * ((at - k) div n)" by simp
  show "n dvd (at - (at - k) mod n - k)" unfolding eq by (rule dvd_triv_left)
  assume f: "n dvd (f - k)" "f \<le> at"
  have "n dvd ((at - k) - (at - f))" using f(1) by simp
  then have "(at - k) mod n = (at - f) mod n" by (simp add: mod_eq_dvd_iff)
  also have "\<dots> \<le> at - f" using f(2) by (intro zmod_le_nonneg_dividend) simp
  finally show "f \<le> at - (at - k) mod n" by simp
qed

lemma every_cron_fires:
  assumes "0 < n"
  shows "cron_fires (every_cron n k) {f. n dvd (f - k)}"
proof -
  have pos: "0 \<le> x mod n" for x using assms by simp
  show ?thesis
    unfolding cron_fires_def every_cron_def nearest_after_def nearest_before_def
  proof (intro allI conjI)
    fix at
    have next1: "n dvd f - k \<Longrightarrow> at < f \<Longrightarrow> at + 1 + (k - (at + 1)) mod n \<le> f" for f
      using every_after(2) [OF assms, where at = "at + 1" and f = f and k = k] by simp
    note dvd1 = every_after(1) [OF assms, of "at + 1" k]
    note next0 = every_after(1) [OF assms, of at k] every_after(2) [OF assms, where at = at and k = k]
    note prev0 = every_before(1) [OF assms, of at k] every_before(2) [OF assms, where at = at and k = k]
    have ge: "at < at + 1 + (k - (at + 1)) mod n" using pos [of "k - (at + 1)"] by linarith
    show "case ce_find \<lparr>ce_find = \<lambda>at incl fwd. Some (if fwd then if incl then at + (k - at) mod n
          else at + 1 + (k - (at + 1)) mod n else if incl then at - (at - k) mod n else at - 1 - (at - 1 - k) mod n),
          ce_src = ''every''\<rparr> at False True of
        None \<Rightarrow> \<forall>f\<in>{f. n dvd f - k}. \<not> at < f
      | Some t \<Rightarrow> t \<in> {f. n dvd f - k} \<and> at < t \<and> (\<forall>f\<in>{f. n dvd f - k}. at < f \<longrightarrow> t \<le> f)"
      using next1 dvd1 ge by simp
    show "case ce_find \<lparr>ce_find = \<lambda>at incl fwd. Some (if fwd then if incl then at + (k - at) mod n
          else at + 1 + (k - (at + 1)) mod n else if incl then at - (at - k) mod n else at - 1 - (at - 1 - k) mod n),
          ce_src = ''every''\<rparr> at True True of
        None \<Rightarrow> \<forall>f\<in>{f. n dvd f - k}. \<not> at \<le> f
      | Some t \<Rightarrow> t \<in> {f. n dvd f - k} \<and> at \<le> t \<and> (\<forall>f\<in>{f. n dvd f - k}. at \<le> f \<longrightarrow> t \<le> f)"
      using next0 pos [of "k - at"] by simp
    show "case ce_find \<lparr>ce_find = \<lambda>at incl fwd. Some (if fwd then if incl then at + (k - at) mod n
          else at + 1 + (k - (at + 1)) mod n else if incl then at - (at - k) mod n else at - 1 - (at - 1 - k) mod n),
          ce_src = ''every''\<rparr> at True False of
        None \<Rightarrow> \<forall>f\<in>{f. n dvd f - k}. \<not> f \<le> at
      | Some t \<Rightarrow> t \<in> {f. n dvd f - k} \<and> t \<le> at \<and> (\<forall>f\<in>{f. n dvd f - k}. f \<le> at \<longrightarrow> f \<le> t)"
      using prev0 pos [of "at - k"] by simp
  qed
qed

definition ex_window :: window_sched where
  "ex_window = \<lparr>ws_open = every_cron 100 80, ws_close = CloseCron (every_cron 100 20),
     ws_on_close = PauseResume, ws_label = ''overnight''\<rparr>"

lemma ex_window_ok:
  "cron_fires (ws_open ex_window) {f. 100 dvd (f - 80)}" "close_ok (ws_close ex_window) {f. 100 dvd (f - 20)}"
  by (simp_all add: ex_window_def close_ok_def every_cron_fires)

lemma ex_window_states: "window_state ex_window 210 = WOpen 220" "window_state ex_window 220 = WClosed 280"
  by (simp_all add: window_state_def ex_window_def state_for_def prev_fire_def next_fire_inclusive_def
      every_cron_def next_open_at_or_after_def Let_def)

theorem window_matches_reference_witness:
  "open_spec {f. 100 dvd (f - 80)} (ws_close ex_window) {f. 100 dvd (f - 20)} 210
   \<and> \<not> open_spec {f. 100 dvd (f - 80)} (ws_close ex_window) {f. 100 dvd (f - 20)} 220"
  using window_matches_reference [OF ex_window_ok, of 210] window_matches_reference [OF ex_window_ok, of 220]
  by (simp add: ex_window_states)

theorem wake_misses_no_edge_witness:
  "next_wake (SWindow ex_window) 210 = Some 220 \<and> is_open (window_state ex_window 219)"
proof -
  have ok: "schedule_ok (SWindow ex_window) {f. 100 dvd (f - 80)} {f. 100 dvd (f - 20)}"
    using ex_window_ok by (simp add: schedule_ok_def)
  have wake: "next_wake (SWindow ex_window) 210 = Some 220" by (simp add: next_wake_def ex_window_states)
  have lt: "(219 :: int) < wk" if "next_wake (SWindow ex_window) 210 = Some wk" for wk using wake that by simp
  show ?thesis
    using wake_misses_no_edge [OF ok _ lt, of 210] wake by (simp add: is_open_def ex_window_states)
qed

theorem cron_releases_each_fire_once_witness:
  "admit_run (SCron (every_cron 10 0)) None [3, 9, 25] = [ANone, ANone, AAll True]"
proof -
  have fires: "cron_fires (every_cron 10 0) {f. 10 dvd (f - 0)}" by (rule every_cron_fires) simp
  have s: "sorted [3, 9, 25 :: int]" "[3, 9, 25 :: int] \<noteq> []" by simp_all
  note all = cron_releases_each_fire_once [OF fires s(2,1)]
  define run where "run = admit_run (SCron (every_cron 10 0)) None [3, 9, 25]"
  have len: "length run = 3" by (simp add: run_def split_beta)
  have "\<not> (\<exists>f. 10 dvd f \<and> (3 :: int) < f \<and> f \<le> 9)" by presburger
  moreover have "\<exists>f. 10 dvd f \<and> (9 :: int) < f \<and> f \<le> 25" by presburger
  moreover note bspec [OF conjunct1 [OF conjunct2 [OF all [folded run_def]]], of 1]
    bspec [OF conjunct1 [OF conjunct2 [OF all [folded run_def]]], of 2] conjunct1 [OF all [folded run_def]]
  ultimately have "run ! 0 = ANone" "run ! 1 = ANone" "run ! 2 = AAll True"
    by (simp_all add: Bex_def)
  then have "run = [ANone, ANone, AAll True]"
    using len by (intro nth_equalityI) (auto simp: less_Suc_eq numeral_eq_Suc)
  then show ?thesis by (simp add: run_def)
qed

section \<open>Configurations that are accepted or refused\<close>

text \<open>
  The check that rejects an expression without occurrences covers the opening only: with a
  close that never fires the window is built, and never opens.
\<close>

lemma unreachable_close_never_opens:
  assumes "cron_fires (ws_open w) Fo" "ws_close w = CloseCron c" "cron_fires c {}"
  shows "\<not> is_open (window_state w now)"
  using open_iff [OF assms(1), of "{}"] assms(2,3)
  by (simp add: close_ok_def open_spec_def close_instants_def)

text \<open>A duration above the range of the duration type does not skip the instance; it panics.\<close>

lemma window_duration_panics:
  assumes "cl_zone C ''UTC'' = Some tz" "cl_cron C e tz = Some f" "f clock False True \<noteq> None"
  shows "window_from_cfg C clock \<lparr>wc_open = e, wc_close = None, wc_duration_mins = Some 200000000000000,
    wc_timezone = None, wc_on_window_close = PauseResume\<rparr> None = Inl DurationPanic"
  using assms
  by (auto simp: window_from_cfg_def resolve_tz_def parse_cron_or_sugar_def cron_parse_def ensure_fires_def
      next_fire_def duration_minutes_def u64_as_i64_def Let_def split: option.splits)

end
