(* ===== verification/Instance.thy ===== *)
theory Instance
  imports Worker Watcher Schedule
begin

text \<open>
  The instance runtime (\<open>src/instance/mod.rs\<close>) and its queue front
  (\<open>src/instance/queue.rs\<close>): activation, the tick with its discovery, retry and cleanup
  managers and the schedule gate, the batches, and what a closing window does to a
  batch. The configuration is \<open>inst_cfg\<close>; what an instance keeps in memory is
  \<open>inst_state\<close>; the store, the files and the events are the world.

  The items of a batch are processed one after the other in the order \<open>ic_batch_order\<close>
  gives them. The tree the walk sees, the clocks, and when the deadline of a window falls
  are arguments. Metrics and log lines are left out.
\<close>

record 'h inst_cfg =
  ic_worker :: "'h worker"
  ic_per_limit :: u64
  ic_schedule :: schedule
  ic_config_enabled :: bool
  ic_supports_resume :: bool
  ic_watch :: scan_cfg
  ic_batch_order :: "work_item list \<Rightarrow> work_item list"

record inst_state =
  is_active :: bool
  is_strategy :: ready_strategy
  is_last_fire :: "utc option"
  is_window_open :: bool
  is_perm :: perm_log

abbreviation ic_id :: "'h inst_cfg \<Rightarrow> string" where
  "ic_id I \<equiv> wo_instance (ic_worker I)"

section \<open>The queue front\<close>

definition queue_enqueue :: "'h inst_cfg \<Rightarrow> string \<Rightarrow> u64 \<Rightarrow> i64 \<Rightarrow> i64 \<Rightarrow> unit res act" where
  "queue_enqueue I rel fsize mtime_ms now = db_write (upsert_ready (ic_id I) rel fsize mtime_ms now)"

fun promote_each :: "'h inst_cfg \<Rightarrow> i64 \<Rightarrow> work_item list \<Rightarrow> nat \<Rightarrow> nat res act" where
  "promote_each I now [] n = ok n"
| "promote_each I now (it # its) n =
     (if wi_next_attempt_at it \<le> now
      then try_act (db_write (set_state (ic_id I) (wi_relpath it) Ready now)) (\<lambda>_. promote_each I now its (n + 1))
      else promote_each I now its n)"

definition promote_due :: "'h inst_cfg \<Rightarrow> i64 \<Rightarrow> nat res act" where
  "promote_due I now =
     try_act (db_read (list_by_state (ic_id I) Failed)) (\<lambda>its. promote_each I now its 0)"

definition queue_claim :: "'h inst_cfg \<Rightarrow> u64 \<Rightarrow> i64 \<Rightarrow> work_item list res act" where
  "queue_claim I limit now =
     effect (\<lambda>w. case claim_ready (ic_id I) limit now (w_db w) of (r, d) \<Rightarrow> (r, w\<lparr>w_db := d\<rparr>))
            (\<lambda>e _ w. (Inl (State (io_text e)), w))"

section \<open>Activation\<close>

text \<open>The precedence at build time: the persisted override, then the configuration.\<close>

definition effective_activation :: "'h inst_cfg \<Rightarrow> db \<Rightarrow> bool" where
  "effective_activation I d =
     (case load_activation (ic_id I) d of Some a \<Rightarrow> av_active a | None \<Rightarrow> ic_config_enabled I)"

definition inst_set_activation ::
  "'h inst_cfg \<Rightarrow> bool \<Rightarrow> string \<Rightarrow> i64 \<Rightarrow> inst_state \<Rightarrow> (unit res \<times> inst_state) act" where
  "inst_set_activation I active source now st =
     bnd (db_write (set_activation (ic_id I) active source now)) (\<lambda>r.
       ret (case r of Inl e \<Rightarrow> (Inl e, st) | Inr _ \<Rightarrow> (Inr (), st\<lparr>is_active := active\<rparr>)))"

definition inst_clear_activation :: "'h inst_cfg \<Rightarrow> inst_state \<Rightarrow> (unit res \<times> inst_state) act" where
  "inst_clear_activation I st =
     bnd (db_write (clear_activation (ic_id I))) (\<lambda>r.
       ret (case r of Inl e \<Rightarrow> (Inl e, st) | Inr _ \<Rightarrow> (Inr (), st\<lparr>is_active := ic_config_enabled I\<rparr>)))"

definition apply_activation ::
  "'h inst_cfg \<Rightarrow> bool \<Rightarrow> bool \<Rightarrow> string \<Rightarrow> i64 \<Rightarrow> inst_state \<Rightarrow> (bool res \<times> inst_state) act" where
  "apply_activation I active persist source now st =
     (if persist
      then bnd (inst_set_activation I active source now st) (\<lambda>(r, st'). ret (map_res (\<lambda>_. active) r, st'))
      else ret (Inr active, st\<lparr>is_active := active\<rparr>))"

definition reset_activation :: "'h inst_cfg \<Rightarrow> inst_state \<Rightarrow> (bool res \<times> inst_state) act" where
  "reset_activation I st =
     bnd (inst_clear_activation I st) (\<lambda>(r, st'). ret (map_res (\<lambda>_. is_active st') r, st'))"

section \<open>Ingress permission reports\<close>

definition seed_permission_log :: "violation list \<Rightarrow> i64 \<Rightarrow> inst_state \<Rightarrow> inst_state" where
  "seed_permission_log vs now st =
     st\<lparr>is_perm := fold (\<lambda>v l. if vi_role v = Ingress then snd (should_log (vi_path v) (vi_kind v) now l) else l)
                    vs (is_perm st)\<rparr>"

fun report_each :: "scan_issue list \<Rightarrow> i64 \<Rightarrow> perm_log \<Rightarrow> perm_log act" where
  "report_each [] now l = ret l"
| "report_each (i # is) now l =
     (case should_log (path_display (si_path i)) (si_kind i) now l of
        (b, l') \<Rightarrow>
          seqn (if b \<and> si_kind i = PermissionDeniedKind
                then emit_event (PermissionDeniedEvent (path_display (si_path i)) (role_as_str Ingress)
                       (io_kind_debug (si_kind i)))
                else ret ())
            (report_each is now l'))"

definition report_scan_issues :: "scan_issue list \<Rightarrow> i64 \<Rightarrow> inst_state \<Rightarrow> inst_state act" where
  "report_scan_issues issues now st =
     bnd (report_each issues now (is_perm st)) (\<lambda>l.
     ret (st\<lparr>is_perm := snd (recovered (List.map (\<lambda>i. path_display (si_path i)) issues) l)\<rparr>))"

section \<open>The schedule gate\<close>

record transition =
  tn_triggered :: bool
  tn_window_opened :: bool
  tn_window_closed :: bool

definition no_transition :: transition where
  "no_transition = \<lparr>tn_triggered = False, tn_window_opened = False, tn_window_closed = False\<rparr>"

definition evaluate_schedule :: "'h inst_cfg \<Rightarrow> utc \<Rightarrow> inst_state \<Rightarrow> (admission \<times> transition) \<times> inst_state" where
  "evaluate_schedule I now_utc st =
     (case admission_at (ic_schedule I) now_utc (is_last_fire st) of
        (a, lf) \<Rightarrow>
          (let st' = st\<lparr>is_last_fire := lf\<rparr> in
           case a of
             AAll True \<Rightarrow> ((a, no_transition\<lparr>tn_triggered := True\<rparr>), st')
           | AWindowed _ _ \<Rightarrow>
               ((a, no_transition\<lparr>tn_window_opened := \<not> is_window_open st\<rparr>), st'\<lparr>is_window_open := True\<rparr>)
           | _ \<Rightarrow>
               ((a, no_transition\<lparr>tn_window_closed := is_window_open st\<rparr>), st'\<lparr>is_window_open := False\<rparr>)))"

definition window_label :: "'h inst_cfg \<Rightarrow> string" where
  "window_label I = (case ic_schedule I of SWindow w \<Rightarrow> ws_label w | _ \<Rightarrow> [])"

section \<open>Batches\<close>

fun process_all :: "'h worker \<Rightarrow> i64 \<Rightarrow> work_item list \<Rightarrow> unit act" where
  "process_all W now [] = ret ()"
| "process_all W now (it # its) = bnd (process_item W it now) (\<lambda>_. process_all W now its)"

definition run_batch :: "'h inst_cfg \<Rightarrow> work_item list \<Rightarrow> i64 \<Rightarrow> unit act" where
  "run_batch I batch now = process_all (ic_worker I) now (ic_batch_order I batch)"

text \<open>
  The claim loop, for at most \<open>fuel\<close> rounds; \<open>None\<close> is the value of a loop that is not done by
  then. The result is the number of items processed.
\<close>

fun run_admitted :: "nat \<Rightarrow> 'h inst_cfg \<Rightarrow> bool \<Rightarrow> i64 \<Rightarrow> nat \<Rightarrow> nat option act" where
  "run_admitted 0 I drain now n = ret None"
| "run_admitted (Suc fuel) I drain now n =
     bnd (queue_claim I (ic_per_limit I) now) (\<lambda>r.
       case r of
         Inl _ \<Rightarrow> ret (Some n)
       | Inr batch \<Rightarrow>
           if batch = [] then ret (Some n)
           else seqn (run_batch I batch now)
                  (if drain then run_admitted fuel I drain now (n + length batch)
                   else ret (Some (n + length batch))))"

section \<open>A closing window\<close>

text \<open>
  \<open>abort_after n m\<close>: the task \<open>m\<close> is dropped after \<open>n\<close> of its effects, unless it ends before.
  Its remaining effects do not happen, the rest of the program goes on.
\<close>

definition abort_after :: "nat \<Rightarrow> 'a act \<Rightarrow> unit act" where
  "abort_after n m w =
     (let fs = w_fate w @ replicate n Fine in
      case m (w\<lparr>w_fate := take n fs @ [Crash]\<rparr>) of
        (Some _, w') \<Rightarrow> (Some (), w'\<lparr>w_fate := butlast (w_fate w') @ drop n fs\<rparr>)
      | (None, w') \<Rightarrow>
          if w_fate w' = [] then (Some (), w'\<lparr>w_fate := drop n fs\<rparr>)
          else (None, w'\<lparr>w_fate := butlast (w_fate w') @ drop n fs\<rparr>))"

definition revert_one :: "'h inst_cfg \<Rightarrow> i64 \<Rightarrow> string \<Rightarrow> unit act" where
  "revert_one I now rp =
     bnd (db_read (get_item (ic_id I) rp)) (\<lambda>r.
       case r of
         Inr (Some row) \<Rightarrow>
           (case wi_state row of
              InProgress \<Rightarrow> seqn (db_write (set_state (ic_id I) rp Ready now)) (ret ())
            | Verified \<Rightarrow> seqn (recover_verified (ic_worker I) row now) (ret ())
            | CleanupPending \<Rightarrow> seqn (run_cleanup (ic_worker I) row now) (ret ())
            | _ \<Rightarrow> ret ())
       | _ \<Rightarrow> ret ())"

definition pause_revert :: "'h inst_cfg \<Rightarrow> string list \<Rightarrow> i64 \<Rightarrow> unit act" where
  "pause_revert I rels now = for_each_ignore (revert_one I now) rels"

text \<open>
  When the deadline of the window falls with respect to one round of the loop: before the
  claim, while the batch runs (after how many effects of each item), or after the batch.
\<close>

datatype deadline = BeforeClaim | MidBatch "work_item \<Rightarrow> nat" | AfterBatch

definition run_batch_windowed ::
  "'h inst_cfg \<Rightarrow> work_item list \<Rightarrow> i64 \<Rightarrow> deadline \<Rightarrow> window_close \<Rightarrow> inst_state \<Rightarrow> (bool \<times> inst_state) act" where
  "run_batch_windowed I batch now dl on_close st =
     (case dl of
        MidBatch stop \<Rightarrow>
          (let st' = st\<lparr>is_window_open := False\<rparr> in
           if on_close = PauseResume \<and> ic_supports_resume I
           then seqn (emit_event (WindowClosed (window_label I)))
                  (seqn (for_each_ignore (\<lambda>it. abort_after (stop it) (process_item (ic_worker I) it now))
                          (ic_batch_order I batch))
                  (seqn (pause_revert I (List.map wi_relpath batch) now)
                  (seqn (emit_event (ScheduleComplete ''window'')) (ret (True, st')))))
           else seqn (emit_event (WindowClosed (window_label I)))
                  (seqn (run_batch I batch now)
                  (seqn (emit_event (ScheduleComplete ''window'')) (ret (True, st')))))
      | _ \<Rightarrow> seqn (run_batch I batch now) (ret (False, st)))"

fun run_windowed ::
  "deadline list \<Rightarrow> 'h inst_cfg \<Rightarrow> window_close \<Rightarrow> i64 \<Rightarrow> inst_state \<Rightarrow> nat \<Rightarrow> (nat \<times> inst_state) act" where
  "run_windowed [] I on_close now st n = ret (n, st)"
| "run_windowed (dl # dls) I on_close now st n =
     (case dl of BeforeClaim \<Rightarrow> ret (n, st)
      | _ \<Rightarrow> bnd (queue_claim I (ic_per_limit I) now) (\<lambda>r.
        case r of
          Inl _ \<Rightarrow> ret (n, st)
        | Inr batch \<Rightarrow>
            if batch = [] then ret (n, st)
            else bnd (run_batch_windowed I batch now dl on_close st) (\<lambda>(closed, st').
                   if closed then ret (n + length batch, st')
                   else run_windowed dls I on_close now st' (n + length batch))))"

section \<open>The tick\<close>

record tick_force =
  tf_ignore_window :: bool
  tf_redrive_cleanup :: bool

definition tick_default :: tick_force where
  "tick_default = \<lparr>tf_ignore_window = False, tf_redrive_cleanup = False\<rparr>"

text \<open>What the environment supplies to one tick.\<close>

record tick_env =
  te_mono :: nat
  te_probe :: readiness_probe
  te_tree :: fs_dir
  te_utc :: utc
  te_deadlines :: "deadline list"
  te_fuel :: nat

fun enqueue_ready :: "'h inst_cfg \<Rightarrow> i64 \<Rightarrow> candidate list \<Rightarrow> nat \<Rightarrow> nat act" where
  "enqueue_ready I now [] n = ret n"
| "enqueue_ready I now (c # cs) n =
     bnd (db_read (get_item (ic_id I) (ca_relpath c))) (\<lambda>g.
     bnd (queue_enqueue I (ca_relpath c) (ca_size c) (ca_mtime_ms c) now) (\<lambda>r.
       case r of
         Inl _ \<Rightarrow> enqueue_ready I now cs n
       | Inr _ \<Rightarrow>
           if g = Inr None
           then seqn (emit_event (FileReady (ca_relpath c) (ca_size c))) (enqueue_ready I now cs (n + 1))
           else enqueue_ready I now cs n))"

definition announce_scan :: "'h inst_cfg \<Rightarrow> nat \<Rightarrow> unit act" where
  "announce_scan I discovered =
     (if discovered = 0 then ret ()
      else bnd (db_read (list_by_state (ic_id I) Ready)) (\<lambda>r.
           emit_event (ScanComplete (of_nat discovered)
             (case r of Inr its \<Rightarrow> of_nat (length its) | Inl _ \<Rightarrow> 0))))"

definition announce_transition :: "'h inst_cfg \<Rightarrow> transition \<Rightarrow> unit act" where
  "announce_transition I tn =
     seqn (if tn_triggered tn then emit_event (ScheduleTriggered (ic_id I)) else ret ())
       (seqn (if tn_window_opened tn then emit_event (WindowOpened (window_label I)) else ret ())
         (if tn_window_closed tn
          then seqn (emit_event (WindowClosed (window_label I))) (emit_event (ScheduleComplete ''window''))
          else ret ()))"

definition discovery_phase :: "'h inst_cfg \<Rightarrow> i64 \<Rightarrow> tick_env \<Rightarrow> inst_state \<Rightarrow> inst_state act" where
  "discovery_phase I now env st =
     (case discover_report (te_mono env) (te_probe env) (te_tree env)
             \<lparr>wa_scan = ic_watch I, wa_strategy = is_strategy st\<rparr> of
        (rp, wt) \<Rightarrow>
          bnd (report_scan_issues (sr_issues rp) now (st\<lparr>is_strategy := wa_strategy wt\<rparr>)) (\<lambda>st'.
          bnd (enqueue_ready I now (sr_ready rp) 0) (\<lambda>n.
          seqn (announce_scan I n) (ret st'))))"

definition managers_phase :: "'h inst_cfg \<Rightarrow> i64 \<Rightarrow> tick_force \<Rightarrow> unit act" where
  "managers_phase I now force =
     seqn (promote_due I now) (seqn (drive_cleanup (ic_worker I) now (tf_redrive_cleanup force)) (ret ()))"

definition admission_phase ::
  "'h inst_cfg \<Rightarrow> i64 \<Rightarrow> tick_force \<Rightarrow> tick_env \<Rightarrow> inst_state \<Rightarrow> inst_state option act" where
  "admission_phase I now force env st =
     (case (if tf_ignore_window force then ((AAll True, no_transition), st)
            else evaluate_schedule I (te_utc env) st) of
        ((a, tn), st1) \<Rightarrow>
          seqn (announce_transition I tn)
            (bnd (case a of
                    AAll drain \<Rightarrow>
                      bnd (run_admitted (te_fuel env) I drain now 0) (\<lambda>r. ret (map_option (\<lambda>_. st1) r))
                  | ANone \<Rightarrow> ret (Some st1)
                  | AWindowed _ on_close \<Rightarrow>
                      bnd (run_windowed (te_deadlines env) I on_close now st1 0) (\<lambda>(_, st2). ret (Some st2))) (\<lambda>out.
             seqn (if tn_triggered tn then emit_event (ScheduleComplete ''cron'') else ret ()) (ret out))))"

definition run_tick :: "'h inst_cfg \<Rightarrow> i64 \<Rightarrow> tick_force \<Rightarrow> tick_env \<Rightarrow> inst_state \<Rightarrow> inst_state option act" where
  "run_tick I now force env st =
     (if \<not> is_active st then ret (Some st)
      else bnd (discovery_phase I now env st) (\<lambda>st1.
           seqn (managers_phase I now force) (admission_phase I now force env st1)))"

definition trigger_scan :: "'h inst_cfg \<Rightarrow> i64 \<Rightarrow> bool \<Rightarrow> tick_env \<Rightarrow> inst_state \<Rightarrow> inst_state option act" where
  "trigger_scan I now ignore_window env st =
     run_tick I now \<lparr>tf_ignore_window = ignore_window, tf_redrive_cleanup = True\<rparr> env st"

section \<open>Wake-ups\<close>

definition clamp_nat :: "nat \<Rightarrow> nat \<Rightarrow> nat \<Rightarrow> nat" where
  "clamp_nat lo hi x = (if x < lo then lo else if hi < x then hi else x)"

text \<open>The delay to the schedule's next edge, in nanoseconds: at least 1 ms, at most 24 h.\<close>

definition sched_wake_delay :: "'h inst_cfg \<Rightarrow> utc \<Rightarrow> nat" where
  "sched_wake_delay I now =
     (let fallback = 24 * 60 * 60 * 1000000000 in
      case next_wake (ic_schedule I) now of
        None \<Rightarrow> fallback
      | Some at \<Rightarrow> clamp_nat 1000000 fallback (if at < now then 1000000 else nat (at - now)))"

end
