(* ===== verification/Views.thy ===== *)
theory Views
  imports Worker_Properties Instance
begin

text \<open>
  What the worker keeps of the store, once and for all: the locale \<open>item_view\<close> states when
  a predicate of the database and the events survives the states \<open>A\<close> being recorded and the
  events \<open>E\<close> being emitted; \<open>worker_view\<close> adds a worker whose destinations keep to their
  contract. The instance's proofs instantiate it with the view they need.
\<close>

section \<open>The interface\<close>

definition records :: "item_state set \<Rightarrow> db \<Rightarrow> db \<Rightarrow> bool" where
  "records A d d' =
     ((db_ok d \<longrightarrow> db_ok d') \<and> (\<forall>i r. state_at i r d' = state_at i r d \<or> state_at i r d' \<in> Some ` A))"

lemma records_refl [simp]: "records A d d"
  by (simp add: records_def)

lemma records_frame: "db_frame d d' \<Longrightarrow> records A d d'"
  by (simp add: records_def db_frame_def)

lemma records_states:
  "st \<in> A \<Longrightarrow> records A d (set_state i r st now d)"
  "st \<in> A \<Longrightarrow> records A d (roll_up_item i r st a n le now d)"
  "st \<in> A \<Longrightarrow> records A d (record_cleanup_attempt i r e st n now d)"
proof -
  have "map_option (\<lambda>_. st) (item_at j q d) = state_at j q d \<or> map_option (\<lambda>_. st) (item_at j q d) \<in> Some ` A"
    if "st \<in> A" for j q
    using that by (cases "item_at j q d") (simp_all add: state_at_def)
  then show "st \<in> A \<Longrightarrow> records A d (set_state i r st now d)"
    "st \<in> A \<Longrightarrow> records A d (roll_up_item i r st a n le now d)"
    "st \<in> A \<Longrightarrow> records A d (record_cleanup_attempt i r e st n now d)"
    by (simp_all add: records_def store_view db_ok_item_ops)
qed

lemma records_rest [simp]:
  "records A d (set_dest_phase i r t ph now d)" "records A d (record_dest_attempt i r t e ph n now d)"
  "records A d (clear_dest_states i r d)" "records A d (bump_stats i dl d)"
  "records A d (clear_resume i r t d)" "records A d (clear_resume_all i r d)" "records A d (save_resume i r t rs d)"
  by (simp_all add: records_def store_view db_ok_set_dest_phase db_ok_record_dest_attempt db_ok_bump_stats
      db_ok_delete db_ok_save_resume)

locale item_view =
  fixes p :: "db \<Rightarrow> event list \<Rightarrow> bool" and A :: "item_state set" and E :: "event set"
  assumes recorded: "p d es \<Longrightarrow> records A d d' \<Longrightarrow> p d' es"
    and emitted: "p d es \<Longrightarrow> e \<in> E \<Longrightarrow> p d (es @ [e])"
begin

abbreviation view :: "world \<Rightarrow> bool" where
  "view w \<equiv> p (w_db w) (w_events w)"

lemma keeps_write: "(\<And>d. records A d (f d)) \<Longrightarrow> keeps view (db_write f)"
  by (rule keeps_db_write) (auto simp: blind_def intro: recorded)

lemma keeps_read: "keeps view (db_read f)"
  by (rule keeps_db_read) (simp add: blind_def)

lemma keeps_event: "e \<in> E \<Longrightarrow> keeps view (emit_event e)"
  by (rule keeps_emit) (simp add: emitted)

lemma keeps_frame:
  assumes "frames (kept {}) m"
  shows "keeps view m"
proof (rule keepsI)
  fix w assume "view w"
  then show "wp m (\<lambda>_. view) view w"
    by (intro wp_frames [OF assms]) (auto simp: kept_def tokens_safe_def token_safe_def split: option.splits
        intro: recorded records_frame)
qed

lemma keeps_misc: "keeps view draw_rng" "keeps view (log_permission k kd now)" "keeps view (set_last_progress n)"
  by (rule keeps_draw, simp, rule keeps_log_permission, simp) (simp add: keeps_def wp_def set_last_progress_def)

lemmas view_rules = keeps_try keeps_bnd keeps_seqn keeps_ret keeps_ok_err keeps_read keeps_event keeps_misc

lemma keeps_cleanup:
  assumes "{CleanupPending, Completed, CleanupFailed} \<subseteq> A"
    "\<And>e. success_event e \<Longrightarrow> e \<in> E" "\<And>r a n e. FileCleanupFailed r a n e \<in> E"
  shows "keeps view (run_cleanup W item now)"
proof -
  have st: "CleanupPending \<in> A" "Completed \<in> A" "CleanupFailed \<in> A" using assms(1) by auto
  note wr = keeps_write [OF records_states(1)] keeps_write [OF records_states(3)]
  have finish: "keeps view (finish_completed W item d now)" for d
    unfolding finish_completed_def Let_def
    by (intro view_rules wr keeps_write) (auto simp: st intro: assms(2) records_frame framing split: cleanup_done.splits)
  have failure: "keeps view (record_cleanup_failure W item a e now)" for a e
    unfolding record_cleanup_failure_def Let_def
    by (intro keeps_bnd keeps_misc) (auto split: retry_decision.split intro!: view_rules wr st assms(3))
  show ?thesis
    unfolding run_cleanup_def
    by (intro keeps_try keeps_bnd wr st keeps_frame [OF frames_delivered_checksum] keeps_db_action [where p = p])
      (auto intro: finish failure split: sum.split)
qed

lemma keeps_drive_cleanup:
  assumes "{CleanupPending, Completed, CleanupFailed} \<subseteq> A"
    "\<And>e. success_event e \<Longrightarrow> e \<in> E" "\<And>r a n e. FileCleanupFailed r a n e \<in> E"
  shows "keeps view (drive_cleanup W now redrive)"
  unfolding drive_cleanup_def
  by (intro keeps_try keeps_read keeps_for_each keeps_cleanup [OF assms] keeps_ok_err)

end

section \<open>The worker\<close>

text \<open>The states a pass records, and a worker whose destinations touch nothing of the items.\<close>

locale worker_view = item_view +
  fixes W :: "'h worker"
  assumes pass_states: "- {Ready} \<subseteq> A"
    and pass_events: "(\<And>r n. e \<noteq> FileReady r n) \<Longrightarrow> e \<in> E"
    and dests_behave: "s \<in> set (wo_dests W) \<Longrightarrow> well_behaved {} it (slot_dest s)"
    and order_set: "set (wo_order W ss) = set ss"
begin

lemma resume_safe_empty: "resume_safe {} r"
  by (simp add: resume_safe_def token_safe_def split: option.split)

lemma pass_state: "st \<noteq> Ready \<Longrightarrow> st \<in> A"
  using pass_states by auto

lemma keeps_dest_failure:
  assumes "s \<in> set (wo_dests W)"
  shows "keeps view (dest_failure W s it now att e)"
proof -
  have denied: "keeps view (report_denied l e now)" for l e
    unfolding report_denied_def by (auto intro!: view_rules pass_events)
  have abort: "keeps view (abort_and_clear_resume i l (slot_dest s) it)" for i l
    by (rule keeps_frame [OF frames_abort_and_clear [OF dests_behave [OF assms]]])
  show ?thesis
    unfolding dest_failure_def Let_def
    by (intro keeps_seqn denied keeps_bnd keeps_misc)
      (auto split: retry_decision.split intro!: view_rules keeps_write pass_events abort)
qed

lemma keeps_one_dest:
  assumes "s \<in> set (wo_dests W)"
  shows "keeps view (run_one_dest W s it now att)"
proof -
  note wb = dests_behave [OF assms]
  have success: "keeps view (dest_success W (slot_label s) it now dl)" for dl
    unfolding dest_success_def
    by (intro keeps_seqn keeps_frame [OF frames_save_checkpoint] view_rules keeps_write pass_events) simp_all
  show ?thesis
    unfolding run_one_dest_def Let_def read_resume_def
    by (intro keeps_try keeps_read keeps_seqn keeps_event pass_events keeps_misc keeps_bnd
        keeps_frame [OF frames_deliver_and_verify [OF wb resume_safe_empty]])
      (auto split: sum.split intro: success keeps_dest_failure [OF assms])
qed

lemma keeps_fan_out: "set ss \<subseteq> set (wo_dests W) \<Longrightarrow> keeps view (fan_out W it now att ss acc)"
proof (induction ss arbitrary: acc)
  case (Cons s ss)
  then show ?case
    unfolding fan_out.simps by (intro keeps_try keeps_one_dest Cons.IH) auto
qed (simp add: keeps_ok_err)

lemma keeps_finish_exhausted: "keeps view (finish_exhausted W it e n now)"
proof -
  have files: "keeps view (fs_write a c)" for a c
    unfolding fs_write_def by (rule keeps_db_effect) (simp_all add: set_file_def)
  have quarantine: "keeps view (apply_quarantine_action ser fd src col qx)" for ser fd src col qx
    unfolding apply_quarantine_action_def write_error_sidecar_def Let_def
    by (auto split: option.split intro!: keeps_bnd keeps_seqn keeps_ret keeps_db_files keeps_db_move files)
  show ?thesis
    unfolding finish_exhausted_def Let_def
    by (cases "co_on_exhausted (wo_completion W)")
      (auto intro!: view_rules keeps_write records_states pass_state pass_events quarantine)
qed

lemma keeps_give_up:
  assumes "set nd \<subseteq> set (wo_dests W)"
  shows "keeps view (give_up_item W it now existing nd fo)"
proof -
  have fr: "frames (kept {}) (abort_and_clear_resume i l (slot_dest s) it)" if "s \<in> set (wo_dests W)" for i l s
    by (rule frames_abort_and_clear [OF dests_behave [OF that]])
  show ?thesis
    unfolding give_up_item_def Let_def
  proof (intro keeps_seqn)
    show "keeps view (for_each_ignore (\<lambda>(label, _, _). case List.find (\<lambda>s. slot_label s = label) (wo_dests W) of
            Some slot \<Rightarrow> abort_and_clear_resume (wo_instance W) (slot_label slot) (slot_dest slot) it
          | None \<Rightarrow> ret ()) (fo_retries fo))"
      by (rule keeps_frame, rule frames_for_each_ignore)
        (auto split: option.split intro!: fr frames_ret simp: find_Some_iff)
    show "keeps view (for_each_ignore (\<lambda>slot. abort_and_clear_resume (wo_instance W) (slot_label slot) (slot_dest slot) it) nd)"
      by (rule keeps_frame, rule frames_for_each_ignore) (use assms in \<open>auto intro!: fr\<close>)
  qed (auto intro!: keeps_try keeps_write records_states pass_state keeps_finish_exhausted keeps_ok_err)
qed

lemma keeps_pipeline: "keeps view (run_pipeline W it now)"
proof -
  have wait: "keeps view (wait_item W it now existing nd fo)" for existing nd fo
    unfolding wait_item_def Let_def by (intro view_rules keeps_write records_states pass_state) simp
  have complete: "keeps view (try_act (db_write (set_state (wo_instance W) (wi_relpath it) Verified now))
      (\<lambda>_. complete_verified W it now))"
    unfolding complete_verified_def
    by (intro keeps_try keeps_write records_states pass_state keeps_cleanup) (auto intro!: pass_state pass_events elim: success_event.elims)
  show ?thesis
    unfolding run_pipeline_def Let_def
    by (intro keeps_try keeps_read keeps_fan_out) (auto simp: order_set intro: wait complete keeps_give_up)
qed

lemma keeps_process_item: "keeps view (process_item W it now)"
  unfolding process_item_def by (intro keeps_bnd keeps_pipeline keeps_ret)

lemma keeps_recover_verified:
  assumes "Ready \<in> A"
  shows "keeps view (recover_verified W it now)"
proof -
  have one: "keeps view (reverify_one_dest W s it now)" if "s \<in> set (wo_dests W)" for s
    unfolding reverify_one_dest_def Let_def read_resume_def
    by (auto split: prod.split sum.split option.split
        intro!: keeps_try keeps_bnd keeps_seqn keeps_read keeps_write keeps_ok_err
          keeps_frame [OF well_behavedD(2) [OF dests_behave [OF that]]])
  have all: "keeps view (reverify_all W ss it now b)" if "set ss \<subseteq> set (wo_dests W)" for ss b
    using that by (induction ss arbitrary: b) (auto intro!: keeps_try keeps_ok_err one)
  show ?thesis
    unfolding recover_verified_def complete_verified_def
    by (intro keeps_try all)
      (auto intro!: keeps_try keeps_ok_err keeps_cleanup keeps_write records_states assms pass_state pass_events
        elim: success_event.elims)
qed

text \<open>A task that is dropped half-way keeps what it keeps at every point.\<close>

lemma keeps_abort_after:
  assumes "keeps view m"
  shows "keeps view (abort_after n m)"
proof (rule keepsI)
  fix w assume "view w"
  then have "wp m (\<lambda>_. view) view (w\<lparr>w_fate := take n (w_fate w @ replicate n Fine) @ [Crash]\<rparr>)"
    by (intro keepsD [OF assms]) simp
  then show "wp (abort_after n m) (\<lambda>_. view) view w"
    by (cases "m (w\<lparr>w_fate := take n (w_fate w @ replicate n Fine) @ [Crash]\<rparr>)")
      (auto simp: wp_def abort_after_def Let_def split: option.splits)
qed

end

end
