(* ===== verification/Instance_Laws.thy ===== *)
theory Instance_Laws
  imports Views
begin

text \<open>
  The instance runtime: the drain of an admitted backlog ends, a closed gate starts
  nothing, a scan announces each new file once and loses none.
\<close>

section \<open>Draining\<close>

definition ready_set :: "string \<Rightarrow> db \<Rightarrow> string set" where
  "ready_set inst d = {r. state_at inst r d = Some Ready}"

lemma finite_ready: "finite (ready_set inst d)"
proof (rule finite_subset)
  show "ready_set inst d \<subseteq> ir_relpath ` set (db_items d)"
    by (auto simp: ready_set_def state_at_def item_at_def t_find_def find_Some_iff item_key_def split: bind_splits)
qed simp

definition drained :: "string \<Rightarrow> string set \<Rightarrow> db \<Rightarrow> event list \<Rightarrow> bool" where
  "drained inst R d es = (db_ok d \<and> ready_set inst d \<subseteq> R)"

lemma records_reached:
  assumes "records (- {st}) d d'" "state_at i r d' = Some st"
  shows "state_at i r d = Some st"
proof -
  have "state_at i r d' = state_at i r d \<or> state_at i r d' \<in> Some ` (- {st})"
    using assms(1) by (simp add: records_def)
  then show ?thesis using assms(2) by auto
qed

interpretation drained: item_view "drained inst R" "- {Ready}" UNIV
  by unfold_locales (auto simp: drained_def ready_set_def dest: records_reached, simp add: records_def)

text \<open>A claim moves its batch out of the ready set.\<close>

lemma state_claim_mark: "item_from_str (ir_state (claim_mark now x)) = Some InProgress"
  by (simp add: claim_mark_def item_from_str_def)

lemma ready_after_claim:
  assumes "db_ok d"
  shows "\<exists>items d'. claim_ready inst limit now d = (Inr items, d') \<and> db_ok d' \<and> records {InProgress} d d'
    \<and> ready_set inst d' = ready_set inst d - wi_relpath ` set items
    \<and> wi_relpath ` set items \<subseteq> ready_set inst d"
proof -
  let ?rows = "claim_rows inst limit now d"
  let ?items = "List.map (\<lambda>r. (the_item r)\<lparr>wi_state := InProgress, wi_updated_at := now\<rparr>) ?rows"
  let ?d = "foldl (\<lambda>d it. update_item inst (wi_relpath it) (claim_mark now) d) d (List.map the_item ?rows)"
  have k: "t_ok item_key (db_items d)" using assms by (simp add: db_ok_def)
  have sel: "wi_relpath (the_item r) = ir_relpath r" if "r \<in> set ?rows" for r
    using that claim_rows_subset [of inst limit now d] by auto
  have rel: "wi_relpath ` set ?items = ir_relpath ` set ?rows" "wi_relpath ` set (List.map the_item ?rows) = ir_relpath ` set ?rows"
    using sel by (auto simp: image_iff)
  have row: "item_at inst (ir_relpath r) d = Some r \<and> ir_state r = ''ready''" if "r \<in> set ?rows" for r
    using that claim_rows_subset [of inst limit now d] item_at_mem [OF k] by auto
  have upd: "state_at i r ?d = (if i = inst \<and> r \<in> ir_relpath ` set ?rows then map_option (\<lambda>_. InProgress) (item_at i r d)
      else state_at i r d)" for i r
    unfolding state_at_def item_at_claim_marks rel(2)
    by (cases "i = inst \<and> r \<in> ir_relpath ` set ?rows"; cases "item_at i r d") (auto simp: state_claim_mark)
  have st: "state_at inst r ?d = (if r \<in> ir_relpath ` set ?rows then map_option (\<lambda>_. InProgress) (item_at inst r d)
      else state_at inst r d)" for r
    unfolding upd by simp
  have a: "ready_set inst ?d = ready_set inst d - wi_relpath ` set ?items"
    unfolding rel(1) ready_set_def st by auto
  have b: "wi_relpath ` set ?items \<subseteq> ready_set inst d"
    unfolding rel(1) using row by (auto simp: ready_set_def state_at_def)
  have c: "claim_ready inst limit now d = (Inr ?items, ?d)" by (rule claim_ready_result [OF assms])
  have e: "db_ok ?d" using db_ok_claim_ready [OF assms, of inst limit now] by (simp only: c snd_conv)
  have "state_at i r ?d = state_at i r d \<or> state_at i r ?d = Some InProgress" for i r
    unfolding upd by (cases "i = inst"; cases "item_at i r d") (simp_all add: state_at_def)
  then have f: "records {InProgress} d ?d" using e by (simp add: records_def)
  show ?thesis by (intro exI conjI) (rule c, rule e, rule f, rule a, rule b)
qed

lemma wp_queue_claim:
  assumes "db_ok (w_db w)"
    "\<And>items d fs. db_ok d \<Longrightarrow> ready_set (ic_id I) d = ready_set (ic_id I) (w_db w) - wi_relpath ` set items \<Longrightarrow>
       wi_relpath ` set items \<subseteq> ready_set (ic_id I) (w_db w) \<Longrightarrow> Q (Inr items) (w\<lparr>w_fate := fs, w_db := d\<rparr>)"
    "\<And>e fs. Q (Inl e) (w\<lparr>w_fate := fs\<rparr>)" "\<And>fs. C (w\<lparr>w_fate := fs\<rparr>)"
  shows "wp (queue_claim I limit now) Q C w"
proof -
  obtain items d where c: "claim_ready (ic_id I) limit now (w_db w) = (Inr items, d)" "db_ok d"
    "ready_set (ic_id I) d = ready_set (ic_id I) (w_db w) - wi_relpath ` set items"
    "wi_relpath ` set items \<subseteq> ready_set (ic_id I) (w_db w)"
    using ready_after_claim [OF assms(1), of "ic_id I" limit now] by auto
  show ?thesis
    unfolding queue_claim_def by (rule wp_effect) (simp_all add: c assms)
qed

text \<open>An instance whose destinations touch nothing of the items.\<close>

locale instance_env =
  fixes I :: "'h inst_cfg"
  assumes dests_behave: "s \<in> set (wo_dests (ic_worker I)) \<Longrightarrow> well_behaved {} it (slot_dest s)"
    and order_set: "set (wo_order (ic_worker I) ss) = set ss"
begin

lemma drained_worker: "worker_view (drained inst R) (- {Ready}) UNIV (ic_worker I)"
  by unfold_locales (use dests_behave order_set in auto)

lemma drained_batch: "keeps (\<lambda>w. drained inst R (w_db w) (w_events w)) (run_batch I batch now)"
proof -
  have "keeps (\<lambda>w. drained inst R (w_db w) (w_events w)) (process_all (ic_worker I) now its)" for its
    by (induction its) (auto intro: worker_view.keeps_process_item [OF drained_worker])
  then show ?thesis by (simp add: run_batch_def)
qed

lemma wp_run_admitted:
  "db_ok (w_db w) \<Longrightarrow> card (ready_set (ic_id I) (w_db w)) < fuel \<Longrightarrow>
   wp (run_admitted fuel I drain now n) (\<lambda>r _. r \<noteq> None) (\<lambda>_. True) w"
proof (induction fuel arbitrary: n w)
  case (Suc fuel)
  let ?R = "ready_set (ic_id I)"
  have batch: "wp (seqn (run_batch I items now)
        (if drain then run_admitted fuel I drain now (n + length items) else ret (Some (n + length items))))
      (\<lambda>r _. r \<noteq> None) (\<lambda>_. True) (w\<lparr>w_fate := fs, w_db := d\<rparr>)"
    if d: "db_ok d" "?R d = ?R (w_db w) - wi_relpath ` set items" "wi_relpath ` set items \<subseteq> ?R (w_db w)" "items \<noteq> []"
    for items d fs
  proof -
    have "?R d \<subset> ?R (w_db w)" using d by (cases items) auto
    then have "card (?R d) < card (?R (w_db w))" by (rule psubset_card_mono [OF finite_ready])
    then have less: "card (?R d) < fuel" using Suc.prems(2) by simp
    show ?thesis
      unfolding wp_seqn
    proof (rule wp_conseq [OF keepsD [OF drained_batch [of "ic_id I" "?R d"]]])
      fix u and w' :: world assume "drained (ic_id I) (?R d) (w_db w') (w_events w')"
      then have "db_ok (w_db w')" "card (?R (w_db w')) < fuel"
        using less card_mono [OF finite_ready, of "?R (w_db w')" "ic_id I" d] by (auto simp: drained_def)
      then show "wp (if drain then run_admitted fuel I drain now (n + length items) else ret (Some (n + length items)))
          (\<lambda>r _. r \<noteq> None) (\<lambda>_. True) w'"
        using Suc.IH by (cases drain) (auto simp: wp_ret)
    qed (use d(1) in \<open>simp_all add: drained_def\<close>)
  qed
  show ?case
    unfolding run_admitted.simps wp_bnd
    by (rule wp_queue_claim [OF Suc.prems(1)], use batch in \<open>cases drain\<close>) (auto simp: wp_ret)
qed simp

end

section \<open>A closed gate\<close>

text \<open>No transfer was announced since \<open>es0\<close>, and only the items of \<open>P\<close> are in progress.\<close>

definition gated :: "string \<Rightarrow> string set \<Rightarrow> event list \<Rightarrow> db \<Rightarrow> event list \<Rightarrow> bool" where
  "gated inst P es0 d es =
     ({r. state_at inst r d = Some InProgress} \<subseteq> P
      \<and> (\<exists>evs. es = es0 @ evs \<and> (\<forall>r n l a. ReplicationStarted r n l a \<notin> set evs)))"

interpretation gated: item_view "gated inst P es0" "- {InProgress}" "{e. \<forall>r n l a. e \<noteq> ReplicationStarted r n l a}"
proof
  fix d d' es
  assume g: "gated inst P es0 d es" and r: "records (- {InProgress}) d d'"
  show "gated inst P es0 d' es" using g records_reached [OF r] by (auto simp: gated_def)
next
  fix d es and e :: event
  assume "gated inst P es0 d es" "e \<in> {e. \<forall>r n l a. e \<noteq> ReplicationStarted r n l a}"
  then show "gated inst P es0 d (es @ [e])" by (auto simp: gated_def)
qed

lemma gated_upsert: "gated inst P es0 d es \<Longrightarrow> gated inst P es0 (upsert_ready i r fsize mtime now d) es"
proof -
  have "state_at inst q (upsert_ready i r fsize mtime now d) = Some InProgress \<Longrightarrow> state_at inst q d = Some InProgress" for q
    by (auto simp: state_at_def upsert_ready_items upsert_conflict_def fresh_row_def Let_def item_from_str_def
        split: if_splits option.splits bind_splits)
  then show "gated inst P es0 d es \<Longrightarrow> gated inst P es0 (upsert_ready i r fsize mtime now d) es"
    by (auto simp: gated_def)
qed

abbreviation gated_at :: "string \<Rightarrow> string set \<Rightarrow> event list \<Rightarrow> world \<Rightarrow> bool" where
  "gated_at inst P es0 w \<equiv> gated inst P es0 (w_db w) (w_events w)"

lemma gated_discovery: "keeps (gated_at inst P es0) (discovery_phase I now env st)"
proof -
  let ?P = "gated_at inst P es0"
  have emit: "keeps ?P (emit_event e)" if "\<And>r n l a. e \<noteq> ReplicationStarted r n l a" for e
    by (rule gated.keeps_event) (simp add: that)
  have report: "keeps ?P (report_each is now l)" for "is" l
    by (induction "is" arbitrary: l) (auto split: prod.split intro!: keeps_seqn emit)
  have upsert: "keeps ?P (queue_enqueue I r n m now)" for r n m
    unfolding queue_enqueue_def by (rule keeps_db_write) (auto simp: blind_def intro: gated_upsert)
  have enq: "keeps ?P (enqueue_ready I now cs n)" for cs n
    by (induction cs arbitrary: n)
      (auto split: sum.split intro!: keeps_bnd keeps_seqn gated.keeps_read upsert emit)
  show ?thesis
    unfolding discovery_phase_def report_scan_issues_def announce_scan_def
    by (auto split: prod.split sum.split intro!: keeps_bnd keeps_seqn report enq gated.keeps_read emit)
qed

lemma gated_promote: "keeps (gated_at inst P es0) (promote_each I now its n)"
  by (induction its arbitrary: n) (auto intro!: keeps_try keeps_ok_err gated.keeps_write records_states)

lemma gated_managers: "keeps (gated_at inst P es0) (managers_phase I now force)"
  unfolding managers_phase_def promote_due_def
  by (intro keeps_seqn keeps_try gated.keeps_read gated_promote keeps_ret gated.keeps_drive_cleanup)
    (auto elim: success_event.elims)

lemma gated_admission:
  assumes "\<not> tf_ignore_window force" "fst (admission_at (ic_schedule I) (te_utc env) (is_last_fire st)) = ANone"
  shows "keeps (gated_at inst P es0) (admission_phase I now force env st)"
proof -
  have emit: "keeps (gated_at inst P es0) (emit_event e)" if "\<And>r n l a. e \<noteq> ReplicationStarted r n l a" for e
    by (rule gated.keeps_event) (simp add: that)
  obtain tn st1 where "evaluate_schedule I (te_utc env) st = ((ANone, tn), st1)"
    using assms(2)
    by (cases "admission_at (ic_schedule I) (te_utc env) (is_last_fire st)") (simp add: evaluate_schedule_def Let_def)
  then show ?thesis
    using assms(1) unfolding admission_phase_def announce_transition_def
    by (auto intro!: keeps_seqn keeps_bnd emit)
qed

lemma discovery_keeps_schedule:
  "wp (discovery_phase I now env st) (\<lambda>st1 _. is_last_fire st1 = is_last_fire st) (\<lambda>_. True) w"
proof -
  have any: "wp m (\<lambda>_ _. True) (\<lambda>_. True) w'" for m :: "'b act" and w'
    by (simp add: wp_def split: option.split prod.split)
  show ?thesis
    unfolding discovery_phase_def report_scan_issues_def
    by (auto simp: wp_bnd wp_seqn wp_ret split: prod.split intro!: wp_conseq [OF any])
qed

lemma gated_tick:
  assumes "\<not> tf_ignore_window force" "fst (admission_at (ic_schedule I) (te_utc env) (is_last_fire st)) = ANone"
    "gated_at inst P es0 w"
  shows "wp (run_tick I now force env st) (\<lambda>_. gated_at inst P es0) (gated_at inst P es0) w"
proof (cases "is_active st")
  case True
  have "wp (discovery_phase I now env st)
      (\<lambda>st1 w'. wp (seqn (managers_phase I now force) (admission_phase I now force env st1))
         (\<lambda>_. gated_at inst P es0) (gated_at inst P es0) w') (gated_at inst P es0) w"
  proof (rule wp_conseq [OF wp_conj [OF discovery_keeps_schedule keepsD [OF gated_discovery assms(3)]]])
    fix st1 :: inst_state and w' assume s: "is_last_fire st1 = is_last_fire st \<and> gated_at inst P es0 w'"
    show "wp (seqn (managers_phase I now force) (admission_phase I now force env st1))
        (\<lambda>_. gated_at inst P es0) (gated_at inst P es0) w'"
      by (rule keepsD, intro keeps_seqn gated_managers gated_admission) (use s assms in simp_all)
  qed simp
  then show ?thesis using True by (simp add: run_tick_def wp_bnd)
next
  case False
  then show ?thesis using assms(3) by (simp add: run_tick_def wp_ret)
qed

section \<open>Announcing new files\<close>

fun ready_paths :: "event list \<Rightarrow> string list" where
  "ready_paths [] = []"
| "ready_paths (FileReady r n # es) = r # ready_paths es"
| "ready_paths (e # es) = ready_paths es"

lemma ready_paths_append [simp]: "ready_paths (a @ b) = ready_paths a @ ready_paths b"
  by (induction a rule: ready_paths.induct) simp_all

lemma ready_paths_other: "(\<And>r n. e \<noteq> FileReady r n) \<Longrightarrow> ready_paths [e] = []"
  by (cases e) auto

text \<open>Since \<open>d0\<close>, \<open>es0\<close>: nothing was forgotten, and only new files were announced, each once.\<close>

definition announced :: "string \<Rightarrow> db \<Rightarrow> event list \<Rightarrow> db \<Rightarrow> event list \<Rightarrow> bool" where
  "announced inst d0 es0 d es =
     (db_ok d \<and> (\<forall>r. state_at inst r d0 \<noteq> None \<longrightarrow> state_at inst r d \<noteq> None)
      \<and> (\<exists>evs. es = es0 @ evs \<and> distinct (ready_paths evs)
          \<and> (\<forall>r\<in>set (ready_paths evs). state_at inst r d0 = None \<and> state_at inst r d \<noteq> None)))"

interpretation announced: item_view "announced inst d0 es0" UNIV "{e. \<forall>r n. e \<noteq> FileReady r n}"
proof
  fix d d' es
  assume a: "announced inst d0 es0 d es" and r: "records UNIV d d'"
  have keep: "state_at inst q d' \<noteq> None" if "state_at inst q d \<noteq> None" for q
  proof -
    have "state_at inst q d' = state_at inst q d \<or> state_at inst q d' \<in> range Some"
      using r by (simp add: records_def)
    then show ?thesis using that by auto
  qed
  have "db_ok d'" using a r by (simp add: announced_def records_def)
  moreover obtain evs where "es = es0 @ evs" "distinct (ready_paths evs)"
    "\<forall>r\<in>set (ready_paths evs). state_at inst r d0 = None \<and> state_at inst r d \<noteq> None"
    using a by (auto simp: announced_def)
  ultimately show "announced inst d0 es0 d' es"
    using a keep by (simp add: announced_def)
next
  fix d es and e :: event
  assume a: "announced inst d0 es0 d es" "e \<in> {e. \<forall>r n. e \<noteq> FileReady r n}"
  then obtain evs where "es = es0 @ evs" "distinct (ready_paths evs)"
    "\<forall>r\<in>set (ready_paths evs). state_at inst r d0 = None \<and> state_at inst r d \<noteq> None"
    by (auto simp: announced_def)
  moreover have "ready_paths [e] = []" using a(2) by (intro ready_paths_other) auto
  ultimately show "announced inst d0 es0 d (es @ [e])"
    using a(1) by (simp add: announced_def)
qed

lemma state_None: "db_ok d \<Longrightarrow> (state_at i r d = None) = (item_at i r d = None)"
proof (cases "item_at i r d")
  case (Some x)
  moreover assume ok: "db_ok d"
  ultimately have "x \<in> set (db_items d)" using item_at_mem [of d i r x] by (auto simp: db_ok_def)
  then show ?thesis using Some ok by (auto simp: state_at_def db_ok_def)
qed (simp add: state_at_def)

lemma records_upsert:
  assumes "db_ok d"
  shows "records UNIV d (upsert_ready i r fsize mtime now d)"
    "state_at i r (upsert_ready i r fsize mtime now d) \<noteq> None"
proof -
  let ?d = "upsert_ready i r fsize mtime now d"
  have ok: "db_ok ?d" using assms by (rule db_ok_upsert_ready)
  have "item_at i r ?d \<noteq> None" by (simp add: upsert_ready_items split: option.split)
  then show s: "state_at i r ?d \<noteq> None" using state_None [OF ok] by simp
  have "state_at j q ?d = state_at j q d" if "(j, q) \<noteq> (i, r)" for j q
    using that by (auto simp: state_at_def upsert_ready_items)
  then have "state_at j q ?d = state_at j q d \<or> state_at j q ?d \<in> range Some" for j q
    using s by (cases "(j, q) = (i, r)") auto
  then show "records UNIV d ?d"
    using ok by (simp add: records_def)
qed

text \<open>The announcement of one file.\<close>

lemma announced_new:
  assumes "announced inst d0 es0 d es" "state_at inst r d = None"
  shows "announced inst d0 es0 (upsert_ready inst r fsize mtime now d) (es @ [FileReady r n])"
proof -
  let ?d = "upsert_ready inst r fsize mtime now d"
  have ok: "db_ok d" using assms(1) by (simp add: announced_def)
  have up: "announced inst d0 es0 ?d es"
    by (rule announced.recorded [OF assms(1) records_upsert(1) [OF ok]])
  obtain evs where evs: "es = es0 @ evs" "distinct (ready_paths evs)"
    "\<forall>q\<in>set (ready_paths evs). state_at inst q d0 = None \<and> state_at inst q d \<noteq> None"
    using assms(1) by (auto simp: announced_def)
  have "state_at inst r d0 = None" using assms by (auto simp: announced_def)
  moreover have "r \<notin> set (ready_paths evs)" using evs(3) assms(2) by auto
  moreover have "\<forall>q\<in>set (ready_paths evs). state_at inst q d0 = None \<and> state_at inst q ?d \<noteq> None"
    using evs up by (auto simp: announced_def)
  ultimately show ?thesis
    using up evs(1,2) records_upsert(2) [OF ok, of inst r fsize mtime now]
    by (simp add: announced_def)
qed

abbreviation announced_at :: "string \<Rightarrow> db \<Rightarrow> event list \<Rightarrow> world \<Rightarrow> bool" where
  "announced_at inst d0 es0 w \<equiv> announced inst d0 es0 (w_db w) (w_events w)"

lemma announced_enqueue: "keeps (announced_at (ic_id I) d0 es0) (enqueue_ready I now cs n)"
proof (induction cs arbitrary: n)
  case (Cons c cs)
  let ?P = "announced_at (ic_id I) d0 es0"
  let ?r = "ca_relpath c"
  have blind: "?P (w\<lparr>w_fate := fs\<rparr>) = ?P w" for w fs by simp
  have rest: "wp (enqueue_ready I now cs k) (\<lambda>_. ?P) ?P w" if "?P w" for k w by (rule keepsD [OF Cons.IH that])
  show ?case
  proof (rule keepsI)
    fix w assume P: "?P w"
    have ok: "db_ok (w_db w)" using P by (simp add: announced_def)
    have up: "?P (w\<lparr>w_fate := fs, w_db := upsert_ready (ic_id I) ?r (ca_size c) (ca_mtime_ms c) now (w_db w)\<rparr>)" for fs
      using announced.recorded [OF P records_upsert(1) [OF ok]] by simp
    have new: "?P (w\<lparr>w_fate := fs, w_db := upsert_ready (ic_id I) ?r (ca_size c) (ca_mtime_ms c) now (w_db w),
        w_events := w_events w @ [FileReady ?r (ca_size c)]\<rparr>)" if "get_item (ic_id I) ?r (w_db w) = Inr None" for fs
    proof -
      have "item_at (ic_id I) ?r (w_db w) = None"
        using that by (auto simp: get_item_def item_at_def split: option.splits) (simp add: map_res_def split: sum.splits)
      then show ?thesis using announced_new [OF P] state_None [OF ok] by simp
    qed
    have step: "wp (bnd (queue_enqueue I ?r (ca_size c) (ca_mtime_ms c) now) (\<lambda>r. case r of
             Inl _ \<Rightarrow> enqueue_ready I now cs n
           | Inr _ \<Rightarrow> if g = Inr None
               then seqn (emit_event (FileReady ?r (ca_size c))) (enqueue_ready I now cs (n + 1))
               else enqueue_ready I now cs n)) (\<lambda>_. ?P) ?P (w\<lparr>w_fate := fs\<rparr>)"
      if g: "g = Inr None \<Longrightarrow> get_item (ic_id I) ?r (w_db w) = Inr None" for g fs
    proof -
      have fresh: "wp (seqn (emit_event (FileReady ?r (ca_size c))) (enqueue_ready I now cs k)) (\<lambda>_. ?P) ?P
          (w\<lparr>w_fate := fs', w_db := upsert_ready (ic_id I) ?r (ca_size c) (ca_mtime_ms c) now (w_db w)\<rparr>)"
        if "g = Inr None" for k fs'
        by (rule wp_seq_emit, rule rest) (use new [OF g [OF that]] in simp)
      show ?thesis
        unfolding wp_bnd queue_enqueue_def
        by (rule wp_db_write) (use P in \<open>auto intro!: rest fresh up [simplified] split: if_splits\<close>)
    qed
    show "wp (enqueue_ready I now (c # cs) n) (\<lambda>_. ?P) ?P w"
      unfolding enqueue_ready.simps wp_bnd [of "db_read (get_item (ic_id I) ?r)"]
      by (rule wp_db_read) (rule step, assumption, rule step, use P in simp_all)
  qed
qed (auto simp: keeps_ret)


lemma announced_claim: "keeps (announced_at inst d0 es0) (queue_claim I limit now)"
proof (rule keepsI)
  fix w assume P: "announced_at inst d0 es0 w"
  then have "db_ok (w_db w)" by (simp add: announced_def)
  then obtain items d where c: "claim_ready (ic_id I) limit now (w_db w) = (Inr items, d)" "records {InProgress} (w_db w) d"
    using ready_after_claim by blast
  have "records UNIV (w_db w) d" using c(2) by (fastforce simp: records_def)
  then have "announced_at inst d0 es0 (w\<lparr>w_fate := fs, w_db := d\<rparr>)" for fs
    using announced.recorded [OF P] by simp
  then show "wp (queue_claim I limit now) (\<lambda>_. announced_at inst d0 es0) (announced_at inst d0 es0) w"
    unfolding queue_claim_def by (intro wp_effect) (use P c in simp_all)
qed

context instance_env
begin

lemma announced_worker: "worker_view (announced inst d0 es0) UNIV {e. \<forall>r n. e \<noteq> FileReady r n} (ic_worker I)"
  by unfold_locales (use dests_behave order_set in auto)

lemmas announced_item = worker_view.keeps_process_item [OF announced_worker]
  worker_view.keeps_recover_verified [OF announced_worker UNIV_I] worker_view.keeps_abort_after [OF announced_worker]

lemma announced_emit: "(\<And>r n. e \<noteq> FileReady r n) \<Longrightarrow> keeps (announced_at inst d0 es0) (emit_event e)"
  by (rule announced.keeps_event) simp

lemma announced_cleanup:
  "keeps (announced_at inst d0 es0) (run_cleanup W it now)" "keeps (announced_at inst d0 es0) (drive_cleanup W now redrive)"
  by (rule announced.keeps_cleanup announced.keeps_drive_cleanup; auto elim: success_event.elims)+

lemma announced_batch: "keeps (announced_at inst d0 es0) (run_batch I batch now)"
proof -
  have "keeps (announced_at inst d0 es0) (process_all (ic_worker I) now its)" for its
    by (induction its) (auto intro: announced_item)
  then show ?thesis by (simp add: run_batch_def)
qed

lemma announced_admitted: "keeps (announced_at inst d0 es0) (run_admitted fuel I drain now n)"
  by (induction fuel arbitrary: n)
    (auto split: sum.split intro!: keeps_bnd keeps_seqn announced_claim announced_batch)

lemma announced_revert: "keeps (announced_at inst d0 es0) (pause_revert I rels now)"
proof -
  have "keeps (announced_at inst d0 es0) (revert_one I now rp)" for rp
    unfolding revert_one_def
    by (auto split: sum.split option.split item_state.split
        intro!: keeps_bnd keeps_seqn announced.keeps_read announced.keeps_write records_states announced_item announced_cleanup)
  then show ?thesis unfolding pause_revert_def by (intro keeps_for_each_ignore)
qed

lemma announced_windowed_batch: "keeps (announced_at inst d0 es0) (run_batch_windowed I batch now dl oc st)"
  unfolding run_batch_windowed_def Let_def
  by (auto split: deadline.split
      intro!: keeps_seqn keeps_for_each_ignore announced_emit announced_batch announced_revert announced_item)

lemma announced_windowed: "keeps (announced_at inst d0 es0) (run_windowed dls I oc now st n)"
  by (induction dls arbitrary: st n)
    (auto split: sum.split deadline.split prod.split intro!: keeps_ret keeps_bnd announced_claim announced_windowed_batch)

lemma announced_promote: "keeps (announced_at inst d0 es0) (promote_each I now its n)"
  by (induction its arbitrary: n) (auto intro!: keeps_try keeps_ok_err announced.keeps_write records_states)

lemma announced_managers: "keeps (announced_at inst d0 es0) (managers_phase I now force)"
  unfolding managers_phase_def promote_due_def
  by (intro keeps_seqn keeps_try announced.keeps_read announced_promote keeps_ret announced_cleanup)

lemma announced_discovery: "keeps (announced_at (ic_id I) d0 es0) (discovery_phase I now env st)"
proof -
  have "keeps (announced_at inst d0 es0) (report_each is now l)" for inst "is" l
    by (induction "is" arbitrary: l) (auto split: prod.split intro!: keeps_seqn announced_emit)
  then show ?thesis
    unfolding discovery_phase_def report_scan_issues_def announce_scan_def
    by (auto split: prod.split sum.split
        intro!: keeps_bnd keeps_seqn announced_enqueue announced.keeps_read announced_emit)
qed

lemma announced_tick: "keeps (announced_at (ic_id I) d0 es0) (run_tick I now force env st)"
proof -
  have "keeps (announced_at inst d0 es0) (admission_phase I now force env st1)" for inst st1
  proof -
    obtain a tn st2 where e: "(if tf_ignore_window force then ((AAll True, no_transition), st1)
        else evaluate_schedule I (te_utc env) st1) = ((a, tn), st2)"
      by (metis surj_pair)
    have emit: "keeps (announced_at inst d0 es0) (if b then emit_event e else ret ())"
      if "\<And>r n. e \<noteq> FileReady r n" for b e
      using that by (simp add: announced_emit keeps_ret)
    have announce: "keeps (announced_at inst d0 es0) (announce_transition I tn)"
      unfolding announce_transition_def
      by (intro keeps_seqn emit) (auto intro!: keeps_seqn announced_emit)
    have windowed: "keeps (announced_at inst d0 es0) (bnd (run_windowed dls I oc now st2 0) (\<lambda>(_, st2). ret (Some st2)))" for dls oc
      by (intro keeps_bnd announced_windowed) (simp add: keeps_ret split: prod.split)
    show ?thesis
      unfolding admission_phase_def e prod.case
      by (intro keeps_seqn keeps_bnd announce emit)
        (auto split: admission.split intro!: keeps_ret keeps_bnd announced_admitted windowed)
  qed
  then show ?thesis
    unfolding run_tick_def
    by (auto intro!: keeps_bnd keeps_seqn announced_discovery announced_managers)
qed

end

text \<open>The contract holds for a local deployment, whatever the rest of its configuration.\<close>

lemma local_instance_env: "instance_env (I\<lparr>ic_worker := local_worker D tag pf ser P\<rparr>)"
proof
  let ?L = "local_new (''out'' # dp_out P) (dp_fsync P) AlgCrc32c"
  have w: "ic_worker (I\<lparr>ic_worker := local_worker D tag pf ser P\<rparr>) = local_worker D tag pf ser P" by simp
  fix s it assume "s \<in> set (wo_dests (ic_worker (I\<lparr>ic_worker := local_worker D tag pf ser P\<rparr>)))"
  then have "slot_dest s \<in> set (List.map slot_dest (wo_dests (local_worker D tag pf ser P)))"
    by (simp only: set_map w) (rule imageI)
  then have d: "slot_dest s = local_destination D tag ?L"
    unfolding local_worker_simps by (simp only: set_simps singleton_iff)
  show "well_behaved {} it (slot_dest s)"
    unfolding d by (rule local_well_behaved) (simp add: local_safe_def)
qed simp

interpretation local_instance: instance_env "I\<lparr>ic_worker := local_worker D tag pf ser P\<rparr>"
  by (rule local_instance_env)

end
