(* ===== verification/Instance_Properties.thy ===== *)
theory Instance_Properties
  imports Instance_Laws
begin

text \<open>
  The guarantees of an instance over one tick, and their witnesses on the local deployment
  with a cron or a window schedule.
\<close>

text \<open>
  C29. Draining an admitted backlog ends: with more rounds than the instance has ready items
  the claim loop is done, whatever fails, because a round takes its batch out of the ready
  items and no transfer puts one back.
\<close>

theorem drain_terminates:
  assumes "instance_env I" "db_ok (w_db w)" "card {rel. state_at (ic_id I) rel (w_db w) = Some Ready} < fuel"
    "run_admitted fuel I drain now n w = (r, w')"
  shows "r \<noteq> Some None"
proof -
  have "card (ready_set (ic_id I) (w_db w)) < fuel" using assms(3) by (simp add: ready_set_def)
  from wp_run [OF instance_env.wp_run_admitted [OF assms(1,2) this] assms(4)] show ?thesis by (cases r) auto
qed

text \<open>
  C30. While the schedule admits nothing, a tick starts no transfer: no attempt is announced and
  no item becomes \<open>InProgress\<close>, in every run with faults and crashes; discovery, promotion
  and cleanup go on.
\<close>

theorem closed_gate_starts_nothing:
  assumes "fst (admission_at (ic_schedule I) (te_utc env) (is_last_fire st)) = ANone" "\<not> tf_ignore_window force"
    "run_tick I now force env st w = (r, w')"
  shows "\<exists>evs. w_events w' = w_events w @ evs \<and> (\<forall>rel n l a. ReplicationStarted rel n l a \<notin> set evs)
    \<and> {rel. state_at inst rel (w_db w') = Some InProgress} \<subseteq> {rel. state_at inst rel (w_db w) = Some InProgress}"
proof -
  have "gated_at inst {rel. state_at inst rel (w_db w) = Some InProgress} (w_events w) w" by (simp add: gated_def)
  from wp_run [OF gated_tick [OF assms(2,1) this] assms(3)] show ?thesis by (cases r) (auto simp: gated_def)
qed

text \<open>
  C28. A tick announces only new files, each once, after they are tracked, and forgets none:
  a file it announces had no row before and has one after, and every row there was is kept.
  This holds for every schedule, window close, fault and crash point, so over any number
  of ticks a path is announced at most once.
\<close>

theorem tick_announces_new_files_once:
  assumes "instance_env I" "db_ok (w_db w)" "run_tick I now force env st w = (r, w')"
  shows "\<exists>evs. w_events w' = w_events w @ evs \<and> distinct (ready_paths evs)
    \<and> set (ready_paths evs) \<inter> {rel. item_at (ic_id I) rel (w_db w) \<noteq> None} = {}
    \<and> set (ready_paths evs) \<union> {rel. item_at (ic_id I) rel (w_db w) \<noteq> None}
        \<subseteq> {rel. item_at (ic_id I) rel (w_db w') \<noteq> None}"
proof -
  have "announced_at (ic_id I) (w_db w) (w_events w) w" using assms(2) by (simp add: announced_def)
  from wp_run [OF keepsD [OF instance_env.announced_tick [OF assms(1)] this] assms(3)]
  have a: "announced_at (ic_id I) (w_db w) (w_events w) w'" by (cases r) auto
  then have "db_ok (w_db w')" by (simp add: announced_def)
  then show ?thesis
    using a assms(2) by (auto simp: announced_def state_None)
qed

section \<open>Witnesses\<close>

definition ex_inst :: "schedule \<Rightarrow> u32 inst_cfg" where
  "ex_inst S = \<lparr>ic_worker = ex_worker OnArchive, ic_per_limit = 4, ic_schedule = S, ic_config_enabled = True,
     ic_supports_resume = True, ic_watch = ex_scan, ic_batch_order = (\<lambda>its. its)\<rparr>"

lemma ex_inst_env: "instance_env (ex_inst S)"
proof -
  have "instance_env ((ex_inst S)\<lparr>ic_worker := ex_worker OnArchive\<rparr>)"
    unfolding ex_worker_def by (rule local_instance_env)
  then show ?thesis by (simp add: ex_inst_def)
qed

definition ex_state :: inst_state where
  "ex_state = \<lparr>is_active = True, is_strategy = RRename, is_last_fire = Some 90, is_window_open = False, is_perm = []\<rparr>"

definition ex_env_at :: "utc \<Rightarrow> tick_env" where
  "ex_env_at t = \<lparr>te_mono = 9, te_probe = \<lparr>rp_observe = (\<lambda>_. Inr ex_obs), rp_marker_exists = (\<lambda>_. True)\<rparr>,
     te_tree = ex_tree, te_utc = t, te_deadlines = [], te_fuel = 5\<rparr>"

definition ex_ready_world :: "fate list \<Rightarrow> world" where
  "ex_ready_world fs = (ex_world fs)\<lparr>w_db := two_files_db\<rparr>"

lemma two_files_view:
  "item_at ''i'' rel two_files_db =
     (if rel = ''b'' then Some (fresh_row ''i'' ''b'' (u64_as_i64 7) 1 20) else if rel = ''a'' then Some (fresh_row ''i'' ''a'' (u64_as_i64 5) 1 10) else None)"
  by (simp add: two_files_db_def upsert_ready_items)
    (simp add: item_at_def t_find_def open_in_memory_def)

lemma two_files_ready: "{rel. state_at ''i'' rel two_files_db = Some Ready} = {''a'', ''b''}"
  by (auto simp: state_at_def two_files_view fresh_row_def)

theorem drain_terminates_witness:
  "fst (run_admitted 3 (ex_inst SImmediate) True 30 0 (ex_ready_world [Fine, Fault enoent 0, Fine])) \<noteq> Some None"
proof -
  obtain r w' where run: "run_admitted 3 (ex_inst SImmediate) True 30 0 (ex_ready_world [Fine, Fault enoent 0, Fine]) = (r, w')"
    by force
  have "card {rel. state_at (ic_id (ex_inst SImmediate)) rel (w_db (ex_ready_world [Fine, Fault enoent 0, Fine])) = Some Ready} < 3"
    by (simp add: ex_inst_def ex_worker_def ex_deployment_def ex_ready_world_def two_files_ready)
  then show ?thesis
    using drain_terminates [OF ex_inst_env _ _ run] run by (simp add: ex_ready_world_def two_files_db_ok)
qed

theorem closed_gate_starts_nothing_witness:
  "\<exists>r w' evs. run_tick (ex_inst (SWindow ex_window)) 30 tick_default (ex_env_at 220) ex_state (ex_ready_world []) = (r, w')
     \<and> w_events w' = w_events (ex_ready_world []) @ evs \<and> ReplicationStarted ''a'' 5 ''local'' 1 \<notin> set evs"
proof -
  obtain r w' where run: "run_tick (ex_inst (SWindow ex_window)) 30 tick_default (ex_env_at 220) ex_state (ex_ready_world []) = (r, w')"
    by force
  have "fst (admission_at (ic_schedule (ex_inst (SWindow ex_window))) (te_utc (ex_env_at 220)) (is_last_fire ex_state)) = ANone"
    by (simp add: ex_inst_def ex_env_at_def ex_state_def admission_at_def ex_window_states)
  from closed_gate_starts_nothing [OF this _ run] run show ?thesis
    by (fastforce simp: tick_default_def)
qed

theorem tick_announces_new_files_once_witness:
  "\<exists>r w' evs. run_tick (ex_inst SImmediate) 30 tick_default (ex_env_at 220) ex_state (ex_ready_world [Fine, Fine, Crash]) = (r, w')
     \<and> w_events w' = w_events (ex_ready_world []) @ evs \<and> distinct (ready_paths evs)"
proof -
  let ?w = "ex_ready_world [Fine, Fine, Crash]"
  obtain r w' where run: "run_tick (ex_inst SImmediate) 30 tick_default (ex_env_at 220) ex_state ?w = (r, w')"
    by force
  have "db_ok (w_db ?w)" "w_events ?w = w_events (ex_ready_world [])"
    by (simp_all add: ex_ready_world_def two_files_db_ok ex_world_def)
  from tick_announces_new_files_once [OF ex_inst_env this(1) run] run this(2) show ?thesis by metis
qed

end
