(* ===== verification/S3_Plan.thy ===== *)
theory S3_Plan
  imports Json Errors Domain Integrity_Check
begin

text \<open>
  The decisions of the S3 destination (\<open>src/dest/s3/mod.rs\<close>): multipart parameters and
  plan, object keys, the resume token and its reuse guard, and the classification of
  service errors. The uploads themselves are in theory \<open>S3_Client\<close>.
\<close>

section \<open>The upload plan\<close>

definition mib :: u64 where "mib = 1024 * 1024"
definition s3_default_threshold :: u64 where "s3_default_threshold = 16 * mib"
definition s3_default_part :: u64 where "s3_default_part = 16 * mib"
definition s3_min_part :: u64 where "s3_min_part = 5 * mib"
definition s3_max_parts :: u64 where "s3_max_parts = 10000"
definition s3_max_part :: u64 where "s3_max_part = 5 * 1024 * mib"

record multipart_cfg =
  mc_threshold_bytes :: "u64 option"
  mc_part_size_bytes :: "u64 option"
  mc_max_concurrent_parts :: "u64 option"

record multipart_params =
  mp_threshold :: u64
  mp_part_size :: u64
  mp_max_concurrent :: u64

definition word_clamp :: "u64 \<Rightarrow> u64 \<Rightarrow> u64 \<Rightarrow> u64" where
  "word_clamp lo hi x = (if x < lo then lo else if hi < x then hi else x)"

definition word_div_ceil :: "u64 \<Rightarrow> u64 \<Rightarrow> u64" where
  "word_div_ceil a b = (if a mod b \<noteq> 0 then a div b + 1 else a div b)"

definition multipart_resolve :: "multipart_cfg \<Rightarrow> multipart_params" where
  "multipart_resolve cfg =
     \<lparr>mp_threshold = (case mc_threshold_bytes cfg of Some t \<Rightarrow> t | None \<Rightarrow> s3_default_threshold),
      mp_part_size = word_clamp s3_min_part s3_max_part
        (case mc_part_size_bytes cfg of Some p \<Rightarrow> p | None \<Rightarrow> s3_default_part),
      mp_max_concurrent = max 1 (case mc_max_concurrent_parts cfg of Some m \<Rightarrow> m | None \<Rightarrow> 4)\<rparr>"

datatype upload_plan = USingle | UMultipart u64 u32

definition plan_upload :: "u64 \<Rightarrow> multipart_params \<Rightarrow> upload_plan" where
  "plan_upload fsize p =
     (if fsize \<le> mp_threshold p then USingle
      else (let min_by_count = word_div_ceil fsize s3_max_parts;
                effective = word_clamp s3_min_part s3_max_part (max (mp_part_size p) min_by_count)
            in UMultipart effective (ucast (word_div_ceil fsize effective))))"

definition part_len :: "u32 \<Rightarrow> u64 \<Rightarrow> u32 \<Rightarrow> u64 \<Rightarrow> u64" where
  "part_len n part_size num_parts tot =
     (if num_parts \<le> n then tot - (ucast num_parts - 1) * part_size else part_size)"

definition part_offset :: "u32 \<Rightarrow> u64 \<Rightarrow> u64" where
  "part_offset n part_size = (ucast n - 1) * part_size"

definition part_numbers :: "u32 \<Rightarrow> u32 list" where
  "part_numbers num_parts = List.map of_nat [1..<Suc (unat num_parts)]"

text \<open>The bytes of the source a part carries.\<close>

definition part_bytes :: "bytes \<Rightarrow> u64 \<Rightarrow> u32 \<Rightarrow> u32 \<Rightarrow> bytes" where
  "part_bytes c part_size num_parts n =
     take (unat (part_len n part_size num_parts (of_nat (length c)))) (drop (unat (part_offset n part_size)) c)"

section \<open>Object keys\<close>

definition trim_slashes :: "string \<Rightarrow> string" where
  "trim_slashes s = rev (dropWhile (\<lambda>c. c = CHR ''/'') (rev (dropWhile (\<lambda>c. c = CHR ''/'') s)))"

definition object_key :: "string \<Rightarrow> string \<Rightarrow> string" where
  "object_key prefix relpath =
     (let joined = str_join ''/'' (filter (\<lambda>s. s \<noteq> [] \<and> s \<noteq> ''.'' \<and> s \<noteq> ''..'') (str_split (CHR ''/'') relpath));
          p = trim_slashes prefix in
      if p = [] then joined else if joined = [] then p else p @ ''/'' @ joined)"

section \<open>The resume token\<close>

record s3_completed_part =
  cp_number :: u32
  cp_e_tag :: string
  cp_checksum :: "string option"

record s3_resume_token =
  tk_upload_id :: string
  tk_key :: string
  tk_part_size :: u64
  tk_total_size :: u64
  tk_mtime_ms :: i64
  tk_completed :: "s3_completed_part list"

definition jopt_str :: "string option \<Rightarrow> json" where
  "jopt_str s = (case s of None \<Rightarrow> JNull | Some t \<Rightarrow> JStr t)"

definition part_to_json :: "s3_completed_part \<Rightarrow> json" where
  "part_to_json p = JObj [(''partNumber'', JNum (uint (cp_number p))), (''eTag'', JStr (cp_e_tag p)),
     (''checksum'', jopt_str (cp_checksum p))]"

definition token_to_json :: "s3_resume_token \<Rightarrow> json" where
  "token_to_json t = JObj [(''uploadId'', JStr (tk_upload_id t)), (''key'', JStr (tk_key t)),
     (''partSize'', ju64 (tk_part_size t)), (''totalSize'', ju64 (tk_total_size t)), (''mtimeMs'', JNum (tk_mtime_ms t)),
     (''completed'', JArr (List.map part_to_json (tk_completed t)))]"

text \<open>The derived readers: a field with a default may be absent, an unknown field is ignored.\<close>

definition opt_str_from :: "json option \<Rightarrow> string option option" where
  "opt_str_from v = (case v of None \<Rightarrow> Some None | Some JNull \<Rightarrow> Some None | Some j \<Rightarrow> map_option Some (jas_str j))"

definition part_from_json :: "json \<Rightarrow> s3_completed_part option" where
  "part_from_json j =
     Option.bind (Option.bind (jget ''partNumber'' j) jas_u32) (\<lambda>n.
     Option.bind (Option.bind (jget ''eTag'' j) jas_str) (\<lambda>e.
     Option.bind (opt_str_from (jget ''checksum'' j)) (\<lambda>c.
     Some \<lparr>cp_number = n, cp_e_tag = e, cp_checksum = c\<rparr>)))"

fun jas_i64 :: "json \<Rightarrow> i64 option" where
  "jas_i64 (JNum n) = (if in_i64 n then Some n else None)"
| "jas_i64 _ = None"

fun parts_from_json :: "json \<Rightarrow> s3_completed_part list option" where
  "parts_from_json (JArr js) = collect_opt (List.map part_from_json js)"
| "parts_from_json _ = None"

definition or_default :: "'a \<Rightarrow> (json \<Rightarrow> 'a option) \<Rightarrow> json option \<Rightarrow> 'a option" where
  "or_default d f v = (case v of None \<Rightarrow> Some d | Some j \<Rightarrow> f j)"

definition token_from_json :: "json \<Rightarrow> s3_resume_token option" where
  "token_from_json j =
     Option.bind (Option.bind (jget ''uploadId'' j) jas_str) (\<lambda>u.
     Option.bind (Option.bind (jget ''key'' j) jas_str) (\<lambda>k.
     Option.bind (Option.bind (jget ''partSize'' j) jas_u64) (\<lambda>ps.
     Option.bind (or_default 0 jas_u64 (jget ''totalSize'' j)) (\<lambda>ts.
     Option.bind (or_default 0 jas_i64 (jget ''mtimeMs'' j)) (\<lambda>mt.
     Option.bind (or_default [] parts_from_json (jget ''completed'' j)) (\<lambda>cs.
     Some \<lparr>tk_upload_id = u, tk_key = k, tk_part_size = ps, tk_total_size = ts, tk_mtime_ms = mt,
           tk_completed = cs\<rparr>))))))"

definition token_from_resume :: "resume_state \<Rightarrow> s3_resume_token option" where
  "token_from_resume r = Option.bind (jget ''s3'' (rs_token r)) token_from_json"

definition token_bytes_committed :: "s3_resume_token \<Rightarrow> u32 \<Rightarrow> u64 \<Rightarrow> u64" where
  "token_bytes_committed t num_parts tot =
     sum_list (List.map (\<lambda>p. part_len (cp_number p) (tk_part_size t) num_parts tot) (tk_completed t))"

definition token_to_resume :: "s3_resume_token \<Rightarrow> u32 \<Rightarrow> u64 \<Rightarrow> resume_state" where
  "token_to_resume t num_parts tot =
     \<lparr>rs_bytes_committed = token_bytes_committed t num_parts tot, rs_token = JObj [(''s3'', token_to_json t)]\<rparr>"

definition token_matches :: "s3_resume_token \<Rightarrow> string \<Rightarrow> u64 \<Rightarrow> u64 \<Rightarrow> i64 \<Rightarrow> bool" where
  "token_matches t key part_size total_size mtime_ms =
     (tk_key t = key \<and> tk_part_size t = part_size \<and> tk_total_size t = total_size \<and> tk_mtime_ms t = mtime_ms)"

definition missing_parts :: "u32 \<Rightarrow> s3_completed_part list \<Rightarrow> u32 list" where
  "missing_parts num_parts completed =
     filter (\<lambda>n. n \<notin> cp_number ` set completed) (part_numbers num_parts)"

section \<open>Delivery handles\<close>

definition algo_name :: "algorithm \<Rightarrow> string" where
  "algo_name a = (case a of AlgCrc32c \<Rightarrow> ''CRC32C'' | AlgSha256 \<Rightarrow> ''SHA256'')"

definition build_handle :: "string \<Rightarrow> string option \<Rightarrow> algorithm \<Rightarrow> bool \<Rightarrow> json" where
  "build_handle key ck algo multipart =
     JObj [(''key'', JStr key), (''s3Checksum'', jopt_str ck), (''algo'', JStr (algo_name algo)),
           (''multipart'', JBool multipart)]"

definition handle_key :: "json \<Rightarrow> string option" where
  "handle_key h = Option.bind (jget ''key'' h) jas_str"

definition handle_s3_checksum :: "json \<Rightarrow> string option" where
  "handle_s3_checksum h = Option.bind (jget ''s3Checksum'' h) jas_str"

definition compare_object_checksum :: "string \<Rightarrow> string \<Rightarrow> unit res" where
  "compare_object_checksum expected actual =
     (if expected = actual then Inr ()
      else Inl (Integrity (''s3 object checksum mismatch: expected '' @ expected @ '', got '' @ actual)))"

definition source_changed :: "u64 \<Rightarrow> i64 \<Rightarrow> u64 \<Rightarrow> i64 \<Rightarrow> bool" where
  "source_changed orig_size orig_mtime now_size now_mtime = (orig_size \<noteq> now_size \<or> orig_mtime \<noteq> now_mtime)"

section \<open>Credentials and client parameters\<close>

text \<open>A name in single quotes, and the reference form the configuration must have.\<close>

definition quoted :: "string \<Rightarrow> string" where
  "quoted s = [CHR 0x27] @ s @ [CHR 0x27]"

definition secret_form :: string where
  "secret_form = ''{'' @ [CHR 0x22] @ ''$secret'' @ [CHR 0x22] @ '':'' @ [CHR 0x22] @ ''name'' @ [CHR 0x22] @ ''}''"

datatype cred_mode = Ambient | Static string string "string option"

text \<open>
  The vault (the credential service) is a function from a secret's name to its AWS
  credentials: an error text, no such secret, or access key, secret key and session token.
\<close>

type_synonym vault = "string \<Rightarrow> string + (string \<times> string \<times> string option) option"

definition resolve_credentials :: "json option \<Rightarrow> vault option \<Rightarrow> cred_mode res" where
  "resolve_credentials cfg creds =
     (case cfg of
        None \<Rightarrow> Inr Ambient
      | Some v \<Rightarrow>
        (case Option.bind (jget ''$secret'' v) jas_str of
           None \<Rightarrow> Inl (Permanent (''egress.credentials must be absent (ambient) or '' @ secret_form))
         | Some name \<Rightarrow>
           (case creds of
              None \<Rightarrow> Inl (Permanent (''egress.credentials references secret '' @ quoted name
                             @ '' but no credentials subsystem is configured''))
            | Some svc \<Rightarrow>
              (case svc name of
                 Inl e \<Rightarrow> Inl (Permanent (''resolve secret '' @ quoted name @ '': '' @ e))
               | Inr None \<Rightarrow> Inl (Permanent (''secret '' @ quoted name @ '' not found in the vault''))
               | Inr (Some (k, s, t)) \<Rightarrow> Inr (Static k s t)))))"

record s3_egress =
  eg_bucket :: string
  eg_prefix :: string
  eg_region :: "string option"
  eg_endpoint_url :: "string option"
  eg_credentials :: "json option"
  eg_storage_class :: "string option"
  eg_sse :: "string option"
  eg_kms_key_id :: "string option"
  eg_accelerate :: bool
  eg_unsigned_payload :: bool
  eg_checksum_algorithm :: "string option"
  eg_multipart :: multipart_cfg

record s3_client_params =
  sp_region :: "string option"
  sp_endpoint_url :: "string option"
  sp_force_path_style :: bool
  sp_accelerate :: bool

definition client_params :: "s3_egress \<Rightarrow> s3_client_params" where
  "client_params cfg =
     (let has_endpoint = (eg_endpoint_url cfg \<noteq> None) in
      \<lparr>sp_region = (case eg_region cfg of Some r \<Rightarrow> Some r
                     | None \<Rightarrow> if has_endpoint then Some ''us-east-1'' else None),
       sp_endpoint_url = eg_endpoint_url cfg,
       sp_force_path_style = has_endpoint,
       sp_accelerate = (eg_accelerate cfg \<and> \<not> has_endpoint)\<rparr>)"

section \<open>Service errors\<close>

definition is_permanent_code :: "string \<Rightarrow> bool" where
  "is_permanent_code c =
     (c \<in> set [''NoSuchBucket'', ''NoSuchKey'', ''AccessDenied'', ''AccessDeniedException'', ''AllAccessDisabled'',
        ''InvalidAccessKeyId'', ''SignatureDoesNotMatch'', ''InvalidRequest'', ''InvalidArgument'', ''InvalidBucketName'',
        ''EntityTooLarge'', ''EntityTooSmall'', ''MethodNotAllowed'', ''PreconditionFailed'', ''KMS.DisabledException'',
        ''KMSInvalidStateException''])"

definition is_transient_code :: "string \<Rightarrow> bool" where
  "is_transient_code c =
     (c \<in> set [''SlowDown'', ''RequestTimeout'', ''RequestTimeTooSkewed'', ''Throttling'', ''ThrottlingException'',
        ''RequestLimitExceeded'', ''TooManyRequests'', ''ServiceUnavailable'', ''InternalError'', ''BadDigest'',
        ''XAmzContentChecksumMismatch'', ''XAmzContentSHA256Mismatch''])"

definition code_suffix :: "string option \<Rightarrow> string" where
  "code_suffix code = (case code of None \<Rightarrow> [] | Some c \<Rightarrow> '' ('' @ c @ '')'')"

definition classify_s3 :: "string option \<Rightarrow> nat option \<Rightarrow> bool \<Rightarrow> repl_error" where
  "classify_s3 code status transport =
     (if transport then Transient (''s3 transport failure'' @ code_suffix code)
      else if (case code of Some c \<Rightarrow> is_permanent_code c | None \<Rightarrow> False)
      then Permanent (''s3 error: '' @ the code)
      else if (case code of Some c \<Rightarrow> is_transient_code c | None \<Rightarrow> False)
      then Transient (''s3 error: '' @ the code)
      else (case status of
         Some s \<Rightarrow>
           if 500 \<le> s \<or> s = 429 then Transient (''s3 http '' @ show_nat s @ code_suffix code)
           else if 400 \<le> s then Permanent (''s3 http '' @ show_nat s @ code_suffix code)
           else (case code of Some c \<Rightarrow> Permanent (''s3 error: '' @ c) | None \<Rightarrow> Transient ''s3 error (unclassified)'')
       | None \<Rightarrow> (case code of Some c \<Rightarrow> Permanent (''s3 error: '' @ c) | None \<Rightarrow> Transient ''s3 error (unclassified)'')))"

section \<open>The plan covers the object\<close>

lemma unat_consts [simp]:
  "unat s3_min_part = 5242880" "unat s3_max_part = 5368709120" "unat s3_max_parts = 10000"
  by (simp_all add: s3_min_part_def s3_max_part_def s3_max_parts_def mib_def)

lemma unat_clamp: "unat lo \<le> unat hi \<Longrightarrow> unat (word_clamp lo hi x) = max (unat lo) (min (unat hi) (unat x))"
  by (auto simp: word_clamp_def word_less_nat_alt)

lemma nat_div_ceil:
  fixes a b :: nat
  assumes "0 < b"
  shows "(a + b - 1) div b = (if a mod b \<noteq> 0 then a div b + 1 else a div b)"
proof -
  let ?q = "a div b" and ?r = "a mod b"
  have a: "a = ?q * b + ?r" by simp
  show ?thesis
  proof (cases "?r = 0")
    case True
    then have "a + b - 1 = (b - 1) + ?q * b" using a assms by linarith
    then have "(a + b - 1) div b = ?q + (b - 1) div b" using div_mult_self1 [of b "b - 1" ?q] assms by simp
    then show ?thesis using True assms by simp
  next
    case False
    then have "a + b - 1 = (?r - 1) + (?q + 1) * b" using a assms by (simp only: add_mult_distrib)
    then have "(a + b - 1) div b = (?q + 1) + (?r - 1) div b"
      using div_mult_self1 [of b "?r - 1" "?q + 1"] assms by simp
    moreover have "?r - 1 < b" using mod_less_divisor [OF assms, of a] by linarith
    ultimately show ?thesis using False by simp
  qed
qed

lemma unat_div_ceil:
  assumes "b \<noteq> 0"
  shows "unat (word_div_ceil a b) = (unat a + unat b - 1) div unat b"
proof -
  have b: "0 < unat b" using assms by (simp add: unat_gt_0)
  have r: "a mod b \<noteq> 0 \<longleftrightarrow> unat a mod unat b \<noteq> 0" by (metis unat_0 unat_eq_zero unat_mod)
  have "unat (a div b + 1) = Suc (unat a div unat b)" if "unat a mod unat b \<noteq> 0"
  proof -
    have "unat b \<noteq> 1" using that by auto
    then have "unat a div unat b \<le> unat a div 2" using b by (intro div_le_mono2) auto
    moreover have "unat a < 18446744073709551616" using unsigned_less [of a] by simp
    ultimately have "Suc (unat a div unat b) < 18446744073709551616" by linarith
    then show ?thesis by (simp add: unat_word_ariths unat_div)
  qed
  then show ?thesis unfolding nat_div_ceil [OF b] by (simp add: word_div_ceil_def r unat_div)
qed

lemma unat_of_nat_small:
  assumes "k \<le> 10000"
  shows "unat (of_nat k :: u32) = k" "unat (of_nat k :: u64) = k" "(ucast (of_nat k :: u32) :: u64) = of_nat k"
proof -
  show a: "unat (of_nat k :: u32) = k" and b: "unat (of_nat k :: u64) = k"
    using assms by (simp_all add: unat_of_nat take_bit_nat_eq_self)
  have "unat (ucast (of_nat k :: u32) :: u64) = k"
    unfolding unsigned_ucast_eq a using assms by (simp add: take_bit_nat_eq_self)
  then show "(ucast (of_nat k :: u32) :: u64) = of_nat k" by (simp only: word_unat_eq_iff b)
qed

lemma take_pieces: "concat (List.map (\<lambda>i. take P (drop (i * P) c)) [0..<N]) = take (N * P) c"
proof (induction N)
  case (Suc N)
  have "take (Suc N * P) c = take (N * P) c @ take P (drop (N * P) c)"
    by (simp only: mult_Suc add.commute [of P] take_add)
  then show ?case using Suc.IH by simp
qed simp

lemma plan_numbers:
  assumes plan: "plan_upload (of_nat (length c)) (multipart_resolve cfg) = UMultipart ps np"
    and small: "length c \<le> 10000 * 5368709120"
  shows "5242880 \<le> unat ps" "unat ps \<le> 5368709120" "1 \<le> unat np" "unat np \<le> 10000"
    "(unat np - 1) * unat ps < length c" "length c \<le> unat np * unat ps"
proof -
  let ?s = "of_nat (length c) :: u64" and ?p = "multipart_resolve cfg"
  have L: "unat ?s = length c" using small by (simp add: unat_of_nat take_bit_nat_eq_self)
  have big: "\<not> ?s \<le> mp_threshold ?p"
    and ps: "ps = word_clamp s3_min_part s3_max_part (max (mp_part_size ?p) (word_div_ceil ?s s3_max_parts))"
    and np: "np = ucast (word_div_ceil ?s ps)"
    using plan by (auto simp: plan_upload_def Let_def split: if_splits)
  have pos: "0 < length c" using big L by (metis gr0I unat_eq_zero word_zero_le)
  have nz: "s3_max_parts \<noteq> 0" using unat_consts(3) by force
  have U: "unat ps = max 5242880 (min 5368709120 (unat (max (mp_part_size ?p) (word_div_ceil ?s s3_max_parts))))"
    unfolding ps by (subst unat_clamp) simp_all
  then show lo: "5242880 \<le> unat ps" and hi: "unat ps \<le> 5368709120" by simp_all
  have C: "unat (word_div_ceil ?s s3_max_parts) = (length c + 9999) div 10000"
    unfolding unat_div_ceil [OF nz] L by simp
  then have "unat (word_div_ceil ?s s3_max_parts) \<le> unat (max (mp_part_size ?p) (word_div_ceil ?s s3_max_parts))"
    by (simp add: max_def word_le_nat_alt)
  with U C small have cap: "length c \<le> 10000 * unat ps" by linarith
  have pnz: "ps \<noteq> 0" using lo by auto
  let ?P = "unat ps" and ?N = "(length c + unat ps - 1) div unat ps"
  have N: "unat (word_div_ceil ?s ps) = ?N" unfolding unat_div_ceil [OF pnz] L ..
  have le: "length c \<le> ?N * ?P"
    using div_mult_mod_eq [of "length c + ?P - 1" ?P] mod_less_divisor [of ?P "length c + ?P - 1"] lo by linarith
  have ge: "?N * ?P \<le> length c + ?P - 1" by (rule div_times_less_eq_dividend)
  have "length c + ?P - 1 < 10001 * ?P" using cap lo by linarith
  then have "?N < 10001" by (rule less_mult_imp_div_less)
  then have N2: "?N \<le> 10000" by linarith
  have "?N < 2 ^ 32" by (rule le_less_trans [OF N2]) simp
  then have "take_bit 32 ?N = ?N" by (rule take_bit_nat_eq_self)
  then have "unat np = ?N" unfolding np unsigned_ucast_eq N by simp
  moreover have "0 < ?N" using le pos by (metis gr0I mult_0 not_le)
  ultimately show "1 \<le> unat np" "unat np \<le> 10000" "length c \<le> unat np * ?P" using N2 le by simp_all
  have eq: "(?N - 1) * ?P = ?N * ?P - ?P" by (simp only: diff_mult_distrib mult_1)
  show "(unat np - 1) * ?P < length c" unfolding \<open>unat np = ?N\<close> eq using ge lo pos by linarith
qed

lemma part_numbers_upt: "part_numbers np = List.map (\<lambda>i. of_nat (Suc i)) [0..<unat np]"
  by (simp add: part_numbers_def map_Suc_upt [symmetric] del: map_Suc_upt upt_Suc)

lemma part_geometry:
  assumes plan: "plan_upload (of_nat (length c)) (multipart_resolve cfg) = UMultipart ps np"
    and small: "length c \<le> 10000 * 5368709120" and i: "i < unat np"
  shows "unat (part_offset (of_nat (Suc i)) ps) = i * unat ps"
    "unat (part_len (of_nat (Suc i)) ps np (of_nat (length c))) =
       (if Suc i = unat np then length c - i * unat ps else unat ps)"
proof -
  note n = plan_numbers [OF plan small]
  have i4: "i \<le> 9999" "Suc i \<le> 10000" "unat np - 1 \<le> 9999" using i n by simp_all
  have off: "unat (of_nat k * ps) = k * unat ps" if "k \<le> 9999" for k
  proof -
    have "k * unat ps \<le> 9999 * 5368709120" using that n(2) by (rule mult_le_mono)
    then show ?thesis by (simp add: unat_word_ariths unat_of_nat take_bit_nat_eq_self mod_less that le_less_trans [OF that])
  qed
  have ii: "ucast (of_nat (Suc i) :: u32) - 1 = (of_nat i :: u64)"
    unfolding unat_of_nat_small(3) [OF i4(2)] by simp
  show "unat (part_offset (of_nat (Suc i)) ps) = i * unat ps"
    unfolding part_offset_def ii using off [OF i4(1)] .
  show "unat (part_len (of_nat (Suc i)) ps np (of_nat (length c))) =
       (if Suc i = unat np then length c - i * unat ps else unat ps)"
  proof (cases "Suc i = unat np")
    case True
    have "ucast np - 1 = (of_nat i :: u64)"
      using ii True by (metis unat_of_nat_small(1) [OF i4(2)] word_unat_eq_iff)
    moreover have "np \<le> of_nat (Suc i)" using True unat_of_nat_small(1) [OF i4(2)] by (simp add: word_le_nat_alt)
    ultimately have "part_len (of_nat (Suc i)) ps np (of_nat (length c)) = of_nat (length c) - of_nat i * ps"
      by (simp add: part_len_def)
    moreover have "unat (of_nat (length c) :: u64) = length c"
      using small by (simp add: unat_of_nat take_bit_nat_eq_self)
    moreover have "i * unat ps < length c" using n(5) by (simp add: True [symmetric])
    ultimately show ?thesis using off [OF i4(1)] True by (simp add: unat_sub word_le_nat_alt)
  next
    case False
    then have "\<not> np \<le> of_nat (Suc i)" using i unat_of_nat_small(1) [OF i4(2)] by (simp add: word_le_nat_alt)
    then show ?thesis using False by (simp add: part_len_def)
  qed
qed

lemma part_bytes_take:
  assumes plan: "plan_upload (of_nat (length c)) (multipart_resolve cfg) = UMultipart ps np"
    and small: "length c \<le> 10000 * 5368709120" and i: "i < unat np"
  shows "part_bytes c ps np (of_nat (Suc i)) = take (unat ps) (drop (i * unat ps) c)"
proof -
  note g = part_geometry [OF plan small i] and n = plan_numbers [OF plan small]
  show ?thesis
  proof (cases "Suc i = unat np")
    case True
    then have "length c - i * unat ps \<le> unat ps" using n(6) by (simp add: True [symmetric])
    then show ?thesis unfolding part_bytes_def g using True by simp
  next
    case False
    then show ?thesis unfolding part_bytes_def g by simp
  qed
qed

lemma part_bytes_all:
  assumes "plan_upload (of_nat (length c)) (multipart_resolve cfg) = UMultipart ps np"
    "length c \<le> 10000 * 5368709120"
  shows "concat (List.map (part_bytes c ps np) (part_numbers np)) = c"
proof -
  have "List.map (part_bytes c ps np) (part_numbers np)
      = List.map (\<lambda>i. take (unat ps) (drop (i * unat ps) c)) [0..<unat np]"
    unfolding part_numbers_upt by (simp add: part_bytes_take [OF assms] del: of_nat_Suc)
  then show ?thesis using plan_numbers(6) [OF assms] by (simp add: take_pieces)
qed

text \<open>
  C38. The multipart plan covers the object: for every configuration and every file of at most
  10,000 parts of 5 GiB that is not sent in one request, the part size is within S3's limits
  [5 MiB, 5 GiB], there are between 1 and 10,000 parts, every part but the last is full, the last
  is not empty and not larger, no arithmetic wraps around, and the ranges the parts are read
  from, concatenated in part order, are the file.
\<close>

theorem plan_covers_object:
  assumes "plan_upload (of_nat (length c)) (multipart_resolve cfg) = UMultipart ps np"
    "length c \<le> 10000 * 5368709120"
  shows "5242880 \<le> unat ps \<and> unat ps \<le> 5368709120 \<and> 1 \<le> unat np \<and> unat np \<le> 10000
    \<and> (\<forall>i<unat np. unat (part_offset (of_nat (Suc i)) ps) = i * unat ps
         \<and> unat (part_len (of_nat (Suc i)) ps np (of_nat (length c))) =
             (if Suc i = unat np then length c - i * unat ps else unat ps))
    \<and> (unat np - 1) * unat ps < length c \<and> length c \<le> unat np * unat ps
    \<and> concat (List.map (part_bytes c ps np) (part_numbers np)) = c"
  using plan_numbers [OF assms] part_geometry [OF assms] part_bytes_all [OF assms] by blast

theorem plan_covers_object_witness:
  "plan_upload (of_nat (length (replicate 16777217 (0::8 word)))) (multipart_resolve \<lparr>mc_threshold_bytes = None,
      mc_part_size_bytes = Some 8388608, mc_max_concurrent_parts = None\<rparr>) = UMultipart 8388608 3
   \<and> concat (List.map (part_bytes (replicate 16777217 0) 8388608 3) (part_numbers 3)) = replicate 16777217 0"
proof
  show plan: "plan_upload (of_nat (length (replicate 16777217 (0::8 word)))) (multipart_resolve \<lparr>mc_threshold_bytes = None,
      mc_part_size_bytes = Some 8388608, mc_max_concurrent_parts = None\<rparr>) = UMultipart 8388608 3"
    by (simp add: plan_upload_def multipart_resolve_def word_clamp_def word_div_ceil_def s3_default_threshold_def
        s3_min_part_def s3_max_part_def s3_max_parts_def mib_def Let_def)
  show "concat (List.map (part_bytes (replicate 16777217 0) 8388608 3) (part_numbers 3)) = replicate 16777217 0"
    using plan_covers_object [OF plan] by simp
qed

end
