(* ===== verification/S3_Client.thy ===== *)
theory S3_Client
  imports S3_Plan Frames
begin

text \<open>
  The S3 transfers (\<open>src/dest/s3/client.rs\<close> and the streaming body of
  \<open>src/dest/s3/mod.rs\<close>): a small object goes in one \<open>PutObject\<close>, a large one in
  multipart with a checkpoint after every part; a checkpoint is taken up again only when it
  fits the plan and the source; after a transfer the source's size and modification time are
  compared with those it started from.

  The SDK and the service are a record of actions, \<open>s3_api\<close>: a request that sends a body
  gets the action that reads it and may run it any number of times. The part tasks run in the
  order \<open>sd_order\<close> gives them, each to its end; throttling has no effect on the state.
\<close>

section \<open>The service\<close>

record s3_error =
  se_code :: "string option"
  se_status :: "nat option"
  se_transport :: bool

text \<open>The options of an upload: storage class, encryption and its key.\<close>

type_synonym s3_options = "string option \<times> string option \<times> string option"

text \<open>The CRC32C and the SHA-256 checksum a response may carry.\<close>

type_synonym s3_checksums = "string option \<times> string option"

type_synonym s3_body = "(io_error + bytes) act"

record s3_api =
  sa_put :: "string \<Rightarrow> string \<Rightarrow> algorithm \<Rightarrow> s3_options \<Rightarrow> bool \<Rightarrow> s3_body \<Rightarrow> (s3_error + s3_checksums) act"
  sa_create :: "string \<Rightarrow> string \<Rightarrow> algorithm \<Rightarrow> s3_options \<Rightarrow> (s3_error + string option) act"
  sa_upload_part ::
    "string \<Rightarrow> string \<Rightarrow> string \<Rightarrow> u32 \<Rightarrow> algorithm \<Rightarrow> s3_body \<Rightarrow> (s3_error + string option \<times> s3_checksums) act"
  sa_complete :: "string \<Rightarrow> string \<Rightarrow> string \<Rightarrow> s3_completed_part list \<Rightarrow> (s3_error + s3_checksums) act"
  sa_abort :: "string \<Rightarrow> string \<Rightarrow> string \<Rightarrow> (s3_error + unit) act"
  sa_head :: "string \<Rightarrow> string \<Rightarrow> bool \<Rightarrow> (s3_error + i64 option \<times> s3_checksums) act"

definition map_sdk :: "s3_error \<Rightarrow> repl_error" where
  "map_sdk e = classify_s3 (se_code e) (se_status e) (se_transport e)"

definition is_no_such_upload :: "s3_error \<Rightarrow> bool" where
  "is_no_such_upload e = (se_code e = Some ''NoSuchUpload'')"

definition is_not_found :: "s3_error \<Rightarrow> bool" where
  "is_not_found e = (se_code e \<in> {Some ''NoSuchKey'', Some ''NotFound''} \<or> se_status e = Some 404)"

definition response_checksum :: "algorithm \<Rightarrow> s3_checksums \<Rightarrow> string option" where
  "response_checksum a cks = (case a of AlgCrc32c \<Rightarrow> fst cks | AlgSha256 \<Rightarrow> snd cks)"

definition sdk :: "(s3_error + 'a) act \<Rightarrow> 'a res act" where
  "sdk m = bnd m (\<lambda>r. ret (case r of Inl e \<Rightarrow> Inl (map_sdk e) | Inr x \<Rightarrow> Inr x))"

section \<open>The destination\<close>

record s3_dest =
  sd_bucket :: string
  sd_prefix :: string
  sd_algo :: algorithm
  sd_storage_class :: "string option"
  sd_sse :: "string option"
  sd_kms_key_id :: "string option"
  sd_unsigned_payload :: bool
  sd_multipart :: multipart_params
  sd_client_params :: s3_client_params
  sd_creds :: cred_mode
  sd_store :: bool
  sd_client :: s3_api
  sd_order :: "u32 list \<Rightarrow> u32 list"

definition s3_build ::
  "s3_egress \<Rightarrow> vault option \<Rightarrow> bool \<Rightarrow> s3_api \<Rightarrow> (u32 list \<Rightarrow> u32 list) \<Rightarrow> s3_dest res" where
  "s3_build cfg creds store client order =
     (case (case eg_checksum_algorithm cfg of
              Some name \<Rightarrow> (case algorithm_from_name name of
                  Some a \<Rightarrow> Inr a
                | None \<Rightarrow> Inl (Permanent (''unknown egress.checksumAlgorithm '' @ quoted name)))
            | None \<Rightarrow> Inr AlgCrc32c) of
        Inl e \<Rightarrow> Inl e
      | Inr algo \<Rightarrow>
        (case resolve_credentials (eg_credentials cfg) creds of
           Inl e \<Rightarrow> Inl e
         | Inr mode \<Rightarrow>
             Inr \<lparr>sd_bucket = eg_bucket cfg, sd_prefix = eg_prefix cfg, sd_algo = algo,
                  sd_storage_class = eg_storage_class cfg, sd_sse = eg_sse cfg, sd_kms_key_id = eg_kms_key_id cfg,
                  sd_unsigned_payload = eg_unsigned_payload cfg, sd_multipart = multipart_resolve (eg_multipart cfg),
                  sd_client_params = client_params cfg, sd_creds = mode, sd_store = store,
                  sd_client = client, sd_order = order\<rparr>))"

definition s3_options_of :: "s3_dest \<Rightarrow> s3_options" where
  "s3_options_of S = (sd_storage_class S, sd_sse S, sd_kms_key_id S)"

section \<open>The streaming body\<close>

definition unexpected_eof :: "path \<Rightarrow> u64 \<Rightarrow> u64 \<Rightarrow> nat \<Rightarrow> io_error" where
  "unexpected_eof p offset len read =
     \<lparr>io_kind = OtherKind ''UnexpectedEof'', io_raw_os = None,
      io_text = ''source truncated: read '' @ show_nat read @ '' of '' @ show_nat (unat len)
        @ '' bytes at offset '' @ show_nat (unat offset) @ '' from '' @ path_display p\<rparr>"

text \<open>The reads of the range, each reported; \<open>eof\<close> is the error of a range that is cut short.\<close>

fun body_loop :: "(u64 \<Rightarrow> unit act) \<Rightarrow> io_error option \<Rightarrow> bytes \<Rightarrow> bytes list \<Rightarrow> s3_body" where
  "body_loop on_progress eof sent [] =
     (case eof of None \<Rightarrow> ret (Inr sent)
      | Some e \<Rightarrow> bnd fs_touch (\<lambda>r. ret (Inl (case r of Inl e' \<Rightarrow> e' | Inr _ \<Rightarrow> e))))"
| "body_loop on_progress eof sent (c # cs) =
     bnd fs_touch (\<lambda>r. case r of
       Inl e \<Rightarrow> ret (Inl e)
     | Inr _ \<Rightarrow> seqn (on_progress (of_nat (length c))) (body_loop on_progress eof (sent @ c) cs))"

definition range_body :: "path \<Rightarrow> u64 \<Rightarrow> u64 \<Rightarrow> (u64 \<Rightarrow> unit act) \<Rightarrow> s3_body" where
  "range_body p offset len on_progress =
     bnd (fs_open p) (\<lambda>r. case r of
       Inl e \<Rightarrow> ret (Inl e)
     | Inr content \<Rightarrow>
       bnd (if 0 < offset then fs_touch else ret (Inr ())) (\<lambda>r. case r of
         Inl e \<Rightarrow> ret (Inl e)
       | Inr _ \<Rightarrow>
         (let range = take (unat len) (drop (unat offset) content);
              eof = (if length range < unat len then Some (unexpected_eof p offset len (length range)) else None) in
          body_loop on_progress eof [] (read_chunks range))))"

text \<open>The shared counter of the bytes sent; what is reported is capped at the object's size.\<close>

definition set_sent :: "u64 \<Rightarrow> unit act" where
  "set_sent n w = (Some (), w\<lparr>w_sent := n\<rparr>)"

definition report_sent :: "(u64 \<Rightarrow> unit act) \<Rightarrow> u64 \<Rightarrow> u64 \<Rightarrow> unit act" where
  "report_sent progress fsize d =
     bnd (get_world w_sent) (\<lambda>n. seqn (set_sent (n + d)) (progress (min (n + d) fsize)))"

section \<open>One request\<close>

definition fs_metadata :: "path \<Rightarrow> (io_error + u64 \<times> i64) act" where
  "fs_metadata p =
     effect (\<lambda>w. case w_files w p of
               None \<Rightarrow> (Inl enoent, w) | Some c \<Rightarrow> (Inr (of_nat (length c), w_mtime w p), w))
            (\<lambda>e _ w. (Inl e, w))"

definition put_single ::
  "s3_dest \<Rightarrow> work_item \<Rightarrow> string \<Rightarrow> u64 \<Rightarrow> i64 \<Rightarrow> (u64 \<Rightarrow> unit act) \<Rightarrow> delivered res act" where
  "put_single S it key fsize mtime_ms progress =
     seqn (set_sent 0)
       (try_act (sdk (sa_put (sd_client S) (sd_bucket S) key (sd_algo S) (s3_options_of S) (sd_unsigned_payload S)
                   (range_body (wi_abs_source it) 0 fsize (report_sent progress fsize)))) (\<lambda>cks.
        try_act (map_err classify_io (fs_metadata (wi_abs_source it))) (\<lambda>(now_size, now_mtime).
        if source_changed fsize mtime_ms now_size now_mtime
        then err (Transient (''s3 source changed during upload of '' @ key
                    @ ''; re-planning against the current bytes''))
        else ok \<lparr>dl_bytes = fsize, dl_checksum = NoChecksum,
                 dl_handle = build_handle key (response_checksum (sd_algo S) cks) (sd_algo S) False\<rparr>)))"

section \<open>Multipart\<close>

datatype mpu_error = Gone | Fatal repl_error

definition try_mpu :: "(mpu_error + 'a) act \<Rightarrow> ('a \<Rightarrow> (mpu_error + 'b) act) \<Rightarrow> (mpu_error + 'b) act" where
  "try_mpu m f = bnd m (\<lambda>r. case r of Inl e \<Rightarrow> ret (Inl e) | Inr x \<Rightarrow> f x)"

definition gone_or_fatal :: "(s3_error + 'a) act \<Rightarrow> (mpu_error + 'a) act" where
  "gone_or_fatal m =
     bnd m (\<lambda>r. ret (case r of Inr x \<Rightarrow> Inr x
       | Inl e \<Rightarrow> Inl (if is_no_such_upload e then Gone else Fatal (map_sdk e))))"

definition fatal_io :: "(io_error + 'a) act \<Rightarrow> (mpu_error + 'a) act" where
  "fatal_io m = bnd m (\<lambda>r. ret (case r of Inr x \<Rightarrow> Inr x | Inl e \<Rightarrow> Inl (Fatal (classify_io e))))"

definition save_token :: "s3_dest \<Rightarrow> work_item \<Rightarrow> s3_resume_token \<Rightarrow> u32 \<Rightarrow> u64 \<Rightarrow> unit act" where
  "save_token S it token num_parts fsize =
     (if sd_store S
      then seqn (db_write (save_resume (wi_instance it) (wi_relpath it) ''s3'' (token_to_resume token num_parts fsize)))
             (ret ())
      else ret ())"

definition clear_token :: "s3_dest \<Rightarrow> work_item \<Rightarrow> unit act" where
  "clear_token S it =
     (if sd_store S then seqn (db_write (clear_resume (wi_instance it) (wi_relpath it) ''s3'')) (ret ()) else ret ())"

definition create_mpu ::
  "s3_dest \<Rightarrow> work_item \<Rightarrow> string \<Rightarrow> u64 \<Rightarrow> u32 \<Rightarrow> u64 \<Rightarrow> i64 \<Rightarrow> s3_resume_token res act" where
  "create_mpu S it key part_size num_parts fsize mtime_ms =
     try_act (sdk (sa_create (sd_client S) (sd_bucket S) key (sd_algo S) (s3_options_of S))) (\<lambda>uid.
     case uid of
       None \<Rightarrow> err (Transient ''s3 CreateMultipartUpload: no uploadId'')
     | Some u \<Rightarrow>
       (let token = \<lparr>tk_upload_id = u, tk_key = key, tk_part_size = part_size, tk_total_size = fsize,
                     tk_mtime_ms = mtime_ms, tk_completed = []\<rparr> in
        seqn (save_token S it token num_parts fsize) (ok token)))"

text \<open>One part task: upload the range, record the part under the lock, save the checkpoint.\<close>

definition upload_one ::
  "s3_dest \<Rightarrow> work_item \<Rightarrow> u32 \<Rightarrow> (u64 \<Rightarrow> unit act) \<Rightarrow> u32 \<Rightarrow> s3_resume_token \<Rightarrow> (mpu_error + s3_resume_token) act" where
  "upload_one S it num_parts progress n token =
     (let fsize = tk_total_size token; part_size = tk_part_size token in
      try_mpu (gone_or_fatal (sa_upload_part (sd_client S) (sd_bucket S) (tk_key token) (tk_upload_id token) n (sd_algo S)
                 (range_body (wi_abs_source it) (part_offset n part_size) (part_len n part_size num_parts fsize)
                   (report_sent progress fsize)))) (\<lambda>(etag, cks).
      case etag of
        Some t \<Rightarrow>
          if t = [] then ret (Inl (Fatal (Transient (''s3 UploadPart '' @ show_nat (unat n) @ '': response had no ETag''))))
          else (let part = \<lparr>cp_number = n, cp_e_tag = t, cp_checksum = response_checksum (sd_algo S) cks\<rparr>;
                    token' = token\<lparr>tk_completed := sort_key cp_number (tk_completed token @ [part])\<rparr> in
                seqn (save_token S it token' num_parts fsize) (ret (Inr token')))
      | None \<Rightarrow> ret (Inl (Fatal (Transient (''s3 UploadPart '' @ show_nat (unat n) @ '': response had no ETag''))))))"

fun upload_parts ::
  "s3_dest \<Rightarrow> work_item \<Rightarrow> u32 \<Rightarrow> (u64 \<Rightarrow> unit act) \<Rightarrow> u32 list \<Rightarrow> s3_resume_token \<Rightarrow> (mpu_error + s3_resume_token) act" where
  "upload_parts S it num_parts progress [] token = ret (Inr token)"
| "upload_parts S it num_parts progress (n # ns) token =
     try_mpu (upload_one S it num_parts progress n token) (upload_parts S it num_parts progress ns)"

definition run_multipart_attempt ::
  "s3_dest \<Rightarrow> work_item \<Rightarrow> string \<Rightarrow> u64 \<Rightarrow> u32 \<Rightarrow> i64 \<Rightarrow> s3_resume_token \<Rightarrow> (u64 \<Rightarrow> unit act)
   \<Rightarrow> (mpu_error + delivered) act" where
  "run_multipart_attempt S it key fsize num_parts mtime_ms token progress =
     seqn (set_sent (token_bytes_committed token num_parts fsize))
       (try_mpu (upload_parts S it num_parts progress (sd_order S (missing_parts num_parts (tk_completed token))) token)
         (\<lambda>done.
        try_mpu (gone_or_fatal (sa_complete (sd_client S) (sd_bucket S) key (tk_upload_id token) (tk_completed done)))
         (\<lambda>cks.
        try_mpu (fatal_io (fs_metadata (wi_abs_source it))) (\<lambda>(now_size, now_mtime).
        if source_changed fsize mtime_ms now_size now_mtime
        then ret (Inl (Fatal (Transient (''s3 source changed during multipart upload of '' @ key @ ''; re-planning''))))
        else ret (Inr \<lparr>dl_bytes = fsize, dl_checksum = NoChecksum,
                       dl_handle = build_handle key (response_checksum (sd_algo S) cks) (sd_algo S) True\<rparr>)))))"

text \<open>The upload id is gone: was the object completed by an attempt whose answer was lost?\<close>

definition recover_completed_object :: "s3_dest \<Rightarrow> string \<Rightarrow> u64 \<Rightarrow> delivered option res act" where
  "recover_completed_object S key fsize =
     bnd (sa_head (sd_client S) (sd_bucket S) key True) (\<lambda>r.
       case r of
         Inr (len, cks) \<Rightarrow>
           (let cl = (case len of Some n \<Rightarrow> n | None \<Rightarrow> - 1) in
            if cl < 0 \<or> i64_as_u64 cl \<noteq> fsize then ok None
            else ok (Some \<lparr>dl_bytes = fsize, dl_checksum = NoChecksum,
                           dl_handle = build_handle key (response_checksum (sd_algo S) cks) (sd_algo S) True\<rparr>))
       | Inl e \<Rightarrow> if is_not_found e then ok None else err (map_sdk e))"

definition reusable_token :: "resume_state option \<Rightarrow> string \<Rightarrow> u64 \<Rightarrow> u64 \<Rightarrow> i64 \<Rightarrow> s3_resume_token option" where
  "reusable_token resume key part_size fsize mtime_ms =
     (case Option.bind resume token_from_resume of
        Some t \<Rightarrow> if token_matches t key part_size fsize mtime_ms then Some t else None
      | None \<Rightarrow> None)"

definition fresh_multipart ::
  "s3_dest \<Rightarrow> work_item \<Rightarrow> string \<Rightarrow> u64 \<Rightarrow> u64 \<Rightarrow> u32 \<Rightarrow> i64 \<Rightarrow> (u64 \<Rightarrow> unit act) \<Rightarrow> delivered res act" where
  "fresh_multipart S it key fsize part_size num_parts mtime_ms progress =
     try_act (create_mpu S it key part_size num_parts fsize mtime_ms) (\<lambda>token.
     bnd (run_multipart_attempt S it key fsize num_parts mtime_ms token progress) (\<lambda>r.
       case r of
         Inr d \<Rightarrow> ok d
       | Inl (Fatal e) \<Rightarrow> err e
       | Inl Gone \<Rightarrow> err (Transient ''s3 multipart uploadId disappeared during a fresh upload'')))"

definition put_multipart ::
  "s3_dest \<Rightarrow> work_item \<Rightarrow> string \<Rightarrow> u64 \<Rightarrow> u64 \<Rightarrow> u32 \<Rightarrow> i64 \<Rightarrow> resume_state option \<Rightarrow> (u64 \<Rightarrow> unit act)
   \<Rightarrow> delivered res act" where
  "put_multipart S it key fsize part_size num_parts mtime_ms resume progress =
     (case reusable_token resume key part_size fsize mtime_ms of
        None \<Rightarrow> fresh_multipart S it key fsize part_size num_parts mtime_ms progress
      | Some token \<Rightarrow>
          bnd (run_multipart_attempt S it key fsize num_parts mtime_ms token progress) (\<lambda>r.
            case r of
              Inr d \<Rightarrow> ok d
            | Inl (Fatal e) \<Rightarrow> err e
            | Inl Gone \<Rightarrow>
                try_act (recover_completed_object S key fsize) (\<lambda>live.
                case live of
                  Some d \<Rightarrow> ok d
                | None \<Rightarrow> seqn (clear_token S it)
                            (fresh_multipart S it key fsize part_size num_parts mtime_ms progress))))"

section \<open>The destination's operations\<close>

definition s3_deliver ::
  "s3_dest \<Rightarrow> work_item \<Rightarrow> resume_state option \<Rightarrow> (u64 \<Rightarrow> unit act) \<Rightarrow> delivered res act" where
  "s3_deliver S it resume progress =
     try_act (map_err classify_io (fs_metadata (wi_abs_source it))) (\<lambda>(fsize, mtime_ms).
     let key = object_key (sd_prefix S) (wi_relpath it) in
     case plan_upload fsize (sd_multipart S) of
       USingle \<Rightarrow> put_single S it key fsize mtime_ms progress
     | UMultipart part_size num_parts \<Rightarrow>
         put_multipart S it key fsize part_size num_parts mtime_ms resume progress)"

definition s3_verify :: "s3_dest \<Rightarrow> work_item \<Rightarrow> delivered \<Rightarrow> verify_policy \<Rightarrow> unit res act" where
  "s3_verify S it dl pol =
     (let key = (case handle_key (dl_handle dl) of Some k \<Rightarrow> k | None \<Rightarrow> object_key (sd_prefix S) (wi_relpath it)) in
      try_act (sdk (sa_head (sd_client S) (sd_bucket S) key (pol = VChecksum))) (\<lambda>(len, cks).
      case pol of
        VNone \<Rightarrow> ok ()
      | VSize \<Rightarrow> ret (verify_size (dl_bytes dl) (i64_as_u64 (max 0 (case len of Some n \<Rightarrow> n | None \<Rightarrow> - 1))))
      | VChecksum \<Rightarrow>
          try_act (ret (case len of None \<Rightarrow> Inr () | Some n \<Rightarrow> verify_size (dl_bytes dl) (i64_as_u64 (max 0 n)))) (\<lambda>_.
          ret (case handle_s3_checksum (dl_handle dl) of
                 None \<Rightarrow> Inr ()
               | Some expected \<Rightarrow>
                   (case response_checksum (sd_algo S) cks of
                      Some actual \<Rightarrow> compare_object_checksum expected actual
                    | None \<Rightarrow> Inr ())))))"

definition s3_abort :: "s3_dest \<Rightarrow> work_item \<Rightarrow> resume_state \<Rightarrow> unit res act" where
  "s3_abort S it resume =
     (case token_from_resume resume of
        None \<Rightarrow> ok ()
      | Some token \<Rightarrow>
          bnd (sa_abort (sd_client S) (sd_bucket S) (tk_key token) (tk_upload_id token)) (\<lambda>r.
            case r of
              Inr _ \<Rightarrow> ok ()
            | Inl e \<Rightarrow> if is_no_such_upload e then ok () else err (map_sdk e)))"

definition s3_destination :: "s3_dest \<Rightarrow> destination" where
  "s3_destination S =
     \<lparr>d_kind = ''s3'', d_supports_resume = True,
      d_deliver = s3_deliver S, d_verify = s3_verify S, d_abort = s3_abort S\<rparr>"

end
