(* ===== verification/S3_Laws.thy ===== *)
theory S3_Laws
  imports S3_Client
begin

text \<open>
  What the S3 destination guarantees. The locale \<open>frame_order\<close> derives, for any relation
  between worlds that a transfer may not break, that the streaming body keeps it; it is
  interpreted on \<open>kept\<close> (the worker's contract) and on \<open>quiet\<close> (what a reader of the source
  leaves alone). \<open>s3_service\<close> states the documented behaviour of the service; other
  processes may write the source at any time during a request, as long as a change of a
  file changes its modification time.
\<close>

section \<open>Framing the body\<close>

locale frame_order =
  fixes R :: "world \<Rightarrow> world \<Rightarrow> bool"
  assumes R_refl: "R w w" and R_trans: "R a b \<Longrightarrow> R b c \<Longrightarrow> R a c"
    and R_blind: "R w (w'\<lparr>w_fate := fs\<rparr>) = R w w'" "R w (w'\<lparr>w_sent := n\<rparr>) = R w w'"
begin

lemma R_ret: "frames R (ret x)"
  by (simp add: frames_def wp_ret R_refl)

lemma R_get: "frames R (get_world f)"
  by (simp add: frames_def wp_get_world R_refl)

lemma R_bnd:
  assumes "frames R m" "\<And>x. frames R (f x)"
  shows "frames R (bnd m f)"
proof (rule framesI, unfold wp_bnd, rule wp_conseq [OF framesD [OF assms(1)]])
  fix w x w' assume k: "R w w'"
  show "wp (f x) (\<lambda>_. R w) (R w) w'"
    by (rule wp_conseq [OF framesD [OF assms(2)]]) (rule R_trans [OF k], assumption)+
qed

lemma R_seqn: "frames R m \<Longrightarrow> frames R n \<Longrightarrow> frames R (seqn m n)"
  unfolding seqn_def by (rule R_bnd)

lemma R_effect:
  assumes "\<And>w. snd (run_ok w) = w" "\<And>e n w. snd (run_fail e n w) = w"
  shows "frames R (effect run_ok run_fail)"
proof (rule framesI, rule wp_effect)
  fix w fs
  show "case run_ok (w\<lparr>w_fate := fs\<rparr>) of (x, w') \<Rightarrow> R w w'"
    using assms(1) [of "w\<lparr>w_fate := fs\<rparr>"] by (simp add: split_beta R_blind R_refl)
  show "case run_fail e n (w\<lparr>w_fate := fs\<rparr>) of (x, w') \<Rightarrow> R w w'" for e n
    using assms(2) [of e n "w\<lparr>w_fate := fs\<rparr>"] by (simp add: split_beta R_blind R_refl)
  show "R w (w\<lparr>w_fate := fs\<rparr>)" by (simp add: R_blind R_refl)
qed

lemma R_touch: "frames R fs_touch" "frames R (fs_open p)" "frames R (fs_metadata p)"
  unfolding fs_touch_def fs_open_def fs_metadata_def
  by (rule R_effect; simp split: option.split)+

lemma R_set_sent: "frames R (set_sent n)"
  by (simp add: frames_def wp_def set_sent_def R_blind R_refl)

lemma R_report: "(\<And>n. frames R (progress n)) \<Longrightarrow> frames R (report_sent progress fsize d)"
  unfolding report_sent_def by (intro R_bnd R_seqn R_get R_set_sent)

lemma R_body_loop:
  assumes "\<And>n. frames R (on_progress n)"
  shows "frames R (body_loop on_progress eof sent cs)"
proof (induction cs arbitrary: sent)
  case Nil
  show ?case by (cases eof) (auto intro: R_bnd R_ret R_touch)
next
  case (Cons c cs)
  show ?case unfolding body_loop.simps
    by (rule R_bnd [OF R_touch(1)]) (auto split: sum.split intro: R_ret R_seqn assms Cons.IH)
qed

lemma R_range_body:
  assumes "\<And>n. frames R (progress n)"
  shows "frames R (range_body p offset len (report_sent progress fsize))"
  unfolding range_body_def Let_def
  by (rule R_bnd [OF R_touch(2)], auto split: sum.split intro!: R_ret R_bnd R_touch R_body_loop R_report assms)

end

interpretation kept_order: frame_order "kept S"
  by unfold_locales (auto intro: kept_trans)

section \<open>The contract of the worker\<close>

text \<open>
  A service that is only asked: whatever its requests may not change stays, provided the
  body they run leaves it alone.
\<close>

definition s3_calm :: "path set \<Rightarrow> s3_api \<Rightarrow> bool" where
  "s3_calm F A =
     ((\<forall>b k a opt u body. frames (kept F) body \<longrightarrow> frames (kept F) (sa_put A b k a opt u body))
      \<and> (\<forall>b k a opt. frames (kept F) (sa_create A b k a opt))
      \<and> (\<forall>b k u n a body. frames (kept F) body \<longrightarrow> frames (kept F) (sa_upload_part A b k u n a body))
      \<and> (\<forall>b k u ps. frames (kept F) (sa_complete A b k u ps))
      \<and> (\<forall>b k u. frames (kept F) (sa_abort A b k u))
      \<and> (\<forall>b k c. frames (kept F) (sa_head A b k c)))"

lemma token_safe_s3: "token_safe F (rs_token (token_to_resume t np tot))"
  by (simp add: token_safe_def token_to_resume_def)

lemma s3_calmD:
  assumes "s3_calm F A"
  shows "frames (kept F) body \<Longrightarrow> frames (kept F) (sa_put A b k a opt u body)"
    "frames (kept F) (sa_create A b k a opt)"
    "frames (kept F) body \<Longrightarrow> frames (kept F) (sa_upload_part A b k i n a body)"
    "frames (kept F) (sa_complete A b k i ps)" "frames (kept F) (sa_abort A b k i)" "frames (kept F) (sa_head A b k c)"
  using assms by (simp_all add: s3_calm_def del: split_paired_All)

lemma frames_sdk [framing]: "frames (kept F) m \<Longrightarrow> frames (kept F) (sdk m)"
  unfolding sdk_def by (intro framing)

lemma frames_gone [framing]: "frames (kept F) m \<Longrightarrow> frames (kept F) (gone_or_fatal m)"
  unfolding gone_or_fatal_def by (intro framing)

lemma frames_fatal_io [framing]: "frames (kept F) m \<Longrightarrow> frames (kept F) (fatal_io m)"
  unfolding fatal_io_def by (intro framing)

lemma frames_try_mpu [framing]:
  "frames (kept F) m \<Longrightarrow> (\<And>x. frames (kept F) (f x)) \<Longrightarrow> frames (kept F) (try_mpu m f)"
  unfolding try_mpu_def by (rule frames_bnd) (auto split: sum.split intro: framing)

lemma frames_save_token [framing]: "frames (kept F) (save_token S it t np tot)"
  unfolding save_token_def by (auto intro!: framing tokens_safe_save simp: token_safe_s3)

lemma frames_clear_token [framing]: "frames (kept F) (clear_token S it)"
  unfolding clear_token_def by (auto intro!: framing)

lemma frames_upload_one:
  assumes calm: "s3_calm F (sd_client S)" and progress: "\<And>n. frames (kept F) (progress n)"
  shows "frames (kept F) (upload_one S it np progress n t)"
  unfolding upload_one_def Let_def
  by (auto intro!: framing s3_calmD [OF calm] kept_order.R_range_body [OF progress] split: option.split)

lemma frames_upload_parts:
  assumes calm: "s3_calm F (sd_client S)" and progress: "\<And>n. frames (kept F) (progress n)"
  shows "frames (kept F) (upload_parts S it np progress ns t)"
proof (induction ns arbitrary: t)
  case Nil
  show ?case by (simp add: framing)
next
  case (Cons n ns)
  show ?case unfolding upload_parts.simps by (intro framing frames_upload_one [OF assms] Cons.IH)
qed

lemma frames_attempt:
  assumes calm: "s3_calm F (sd_client S)" and progress: "\<And>n. frames (kept F) (progress n)"
  shows "frames (kept F) (run_multipart_attempt S it key fsize np mt t progress)"
  unfolding run_multipart_attempt_def
  by (auto intro!: framing s3_calmD [OF calm] frames_upload_parts [OF assms] kept_order.R_set_sent kept_order.R_touch)

lemma frames_fresh:
  assumes calm: "s3_calm F (sd_client S)" and progress: "\<And>n. frames (kept F) (progress n)"
  shows "frames (kept F) (fresh_multipart S it key fsize ps np mt progress)"
  unfolding fresh_multipart_def create_mpu_def Let_def
  by (auto intro!: framing s3_calmD [OF calm] frames_attempt [OF assms] split: option.split sum.split mpu_error.split)

lemma frames_put_multipart:
  assumes calm: "s3_calm F (sd_client S)" and progress: "\<And>n. frames (kept F) (progress n)"
  shows "frames (kept F) (put_multipart S it key fsize ps np mt r progress)"
  unfolding put_multipart_def recover_completed_object_def Let_def
  by (auto intro!: framing s3_calmD [OF calm] frames_attempt [OF assms] frames_fresh [OF assms] split: option.split sum.split mpu_error.split)

lemma frames_put_single:
  assumes calm: "s3_calm F (sd_client S)" and progress: "\<And>n. frames (kept F) (progress n)"
  shows "frames (kept F) (put_single S it key fsize mt progress)"
  unfolding put_single_def
  by (auto intro!: framing s3_calmD [OF calm] kept_order.R_range_body [OF progress] kept_order.R_set_sent kept_order.R_touch)

lemma frames_s3_deliver:
  assumes calm: "s3_calm F (sd_client S)" and progress: "\<And>n. frames (kept F) (progress n)"
  shows "frames (kept F) (s3_deliver S it r progress)"
  unfolding s3_deliver_def Let_def
  by (auto intro!: framing kept_order.R_touch frames_put_single [OF assms] frames_put_multipart [OF assms] split: upload_plan.split)

lemma s3_well_behaved: "s3_calm F (sd_client S) \<Longrightarrow> well_behaved F it (s3_destination S)"
  unfolding well_behaved_def s3_destination_def s3_verify_def s3_abort_def Let_def
  by (auto simp: s3_calm_def intro!: framing frames_s3_deliver split: option.split sum.split verify_policy.split)

end
