(* ===== verification/S3_Delivery.thy ===== *)
theory S3_Delivery
  imports S3_Laws Local_Laws
begin

text \<open>
  The delivery theorem of the S3 destination: under the documented behaviour of the service
  (\<open>s3_service\<close>) and with other processes writing the source at any time, what a delivery
  reports as delivered is what the source holds, and every checkpoint it leaves behind, at
  whatever point it stops, describes parts of that content.
\<close>

section \<open>A source that others may write\<close>

text \<open>The checkpoint row of an item, under the label the code uses.\<close>

definition s3_row :: "work_item \<Rightarrow> world \<Rightarrow> resume_state option" where
  "s3_row it w = load_resume (wi_instance it) (wi_relpath it) ''s3'' (w_db w)"

text \<open>Time passes: modification times never go back, and a file that changed shows it.\<close>

definition advances :: "world \<Rightarrow> world \<Rightarrow> bool" where
  "advances w w' =
     (\<forall>p. w_mtime w p \<le> w_mtime w' p \<and> (w_mtime w' p = w_mtime w p \<longrightarrow> w_files w' p = w_files w p))"

definition moved :: "work_item \<Rightarrow> world \<Rightarrow> world \<Rightarrow> bool" where
  "moved it w w' = (advances w w' \<and> s3_row it w' = s3_row it w)"

definition quiet_reader :: "work_item \<Rightarrow> world \<Rightarrow> world \<Rightarrow> bool" where
  "quiet_reader it w w' = (moved it w w' \<and> w_remote w' = w_remote w \<and> w_uploads w' = w_uploads w)"

lemma advances_refl [simp]: "advances w w"
  by (simp add: advances_def)

lemma advances_trans: "advances a b \<Longrightarrow> advances b c \<Longrightarrow> advances a c"
  unfolding advances_def by (metis order_trans antisym)

lemma advances_same: "advances w w' \<Longrightarrow> w_mtime w' p = w_mtime w p \<Longrightarrow> w_files w' p = w_files w p"
  by (simp add: advances_def)

lemma advances_le: "advances w w' \<Longrightarrow> w_mtime w p \<le> w_mtime w' p"
  by (simp add: advances_def)

lemma advances_between:
  assumes "advances a b" "advances b c" "w_mtime c p = w_mtime a p"
  shows "w_mtime b p = w_mtime a p" "w_files b p = w_files a p" "w_files c p = w_files a p"
proof -
  show m: "w_mtime b p = w_mtime a p"
    using advances_le [OF assms(1), of p] advances_le [OF assms(2), of p] assms(3) by linarith
  show "w_files b p = w_files a p" by (rule advances_same [OF assms(1) m])
  show "w_files c p = w_files a p" by (rule advances_same [OF advances_trans [OF assms(1,2)] assms(3)])
qed

lemma advances_upd [simp]:
  "advances w (w'\<lparr>w_fate := fs\<rparr>) = advances w w'" "advances w (w'\<lparr>w_sent := n\<rparr>) = advances w w'"
  "advances w (w'\<lparr>w_db := d\<rparr>) = advances w w'" "advances w (w'\<lparr>w_remote := x\<rparr>) = advances w w'"
  "advances w (w'\<lparr>w_uploads := y\<rparr>) = advances w w'" "advances (w\<lparr>w_sent := n\<rparr>) w' = advances w w'"
  "advances (w\<lparr>w_fate := fs\<rparr>) w' = advances w w'"
  by (simp_all add: advances_def)

lemma s3_row_upd [simp]:
  "s3_row it (w\<lparr>w_fate := fs\<rparr>) = s3_row it w" "s3_row it (w\<lparr>w_sent := n\<rparr>) = s3_row it w"
  "s3_row it (w\<lparr>w_remote := x\<rparr>) = s3_row it w" "s3_row it (w\<lparr>w_uploads := y\<rparr>) = s3_row it w"
  by (simp_all add: s3_row_def)

interpretation reader_order: frame_order "quiet_reader it"
  by unfold_locales (auto simp: quiet_reader_def moved_def intro: advances_trans)

lemma moved_refl [simp]: "moved it w w"
  by (simp add: moved_def)

lemma moved_trans: "moved it a b \<Longrightarrow> moved it b c \<Longrightarrow> moved it a c"
  by (auto simp: moved_def intro: advances_trans)

section \<open>The documented behaviour of the service\<close>

text \<open>A run of the body during a request, at some time between its start and its end.\<close>

definition body_ran :: "s3_body \<Rightarrow> world \<Rightarrow> bytes \<Rightarrow> world \<Rightarrow> bool" where
  "body_ran body w sent w' =
     (\<exists>v v'. advances w v \<and> body v = (Some (Inr sent), v') \<and> advances v w')"

text \<open>Stored parts may disappear at any time, none appears.\<close>

definition parts_le :: "world \<Rightarrow> world \<Rightarrow> bool" where
  "parts_le w w' = (\<forall>u n x. w_uploads w' u n = Some x \<longrightarrow> w_uploads w u n = Some x)"

text \<open>
  The laws. A request leaves the checkpoint alone while others may write the source. A
  successful \<open>PutObject\<close> has stored what a run of the body read; a new upload has no part
  and an id the checkpoint does not name; \<open>UploadPart\<close> changes that part only and reports
  the tag of what it stored; \<open>CompleteMultipartUpload\<close> succeeds only when every listed part
  is stored with the listed tag, and the object is their concatenation; \<open>HeadObject\<close>
  reports the length of the object and writes none.
\<close>

definition put_law :: "work_item \<Rightarrow> s3_api \<Rightarrow> bool" where
  "put_law it A = (\<forall>b k a opt u body w. frames (quiet_reader it) body \<longrightarrow>
     wp (sa_put A b k a opt u body)
       (\<lambda>r w'. moved it w w' \<and> parts_le w w'
          \<and> (\<forall>x. r = Inr x \<longrightarrow> (\<exists>sent. body_ran body w sent w' \<and> w_remote w' b k = Some sent)))
       (\<lambda>w'. moved it w w' \<and> parts_le w w') w)"

definition create_law :: "work_item \<Rightarrow> s3_api \<Rightarrow> bool" where
  "create_law it A = (\<forall>b k a opt w.
     wp (sa_create A b k a opt)
       (\<lambda>r w'. moved it w w' \<and> parts_le w w'
          \<and> (\<forall>u. r = Inr (Some u) \<longrightarrow>
               (\<forall>rs t. s3_row it w = Some rs \<longrightarrow> token_from_resume rs = Some t \<longrightarrow> tk_upload_id t \<noteq> u)))
       (\<lambda>w'. moved it w w' \<and> parts_le w w') w)"

definition part_law :: "work_item \<Rightarrow> s3_api \<Rightarrow> bool" where
  "part_law it A = (\<forall>b k u n a body w. frames (quiet_reader it) body \<longrightarrow>
     (let others = (\<lambda>w'. moved it w w'
          \<and> (\<forall>u' n' x. (u', n') \<noteq> (u, n) \<longrightarrow> w_uploads w' u' n' = Some x \<longrightarrow> w_uploads w u' n' = Some x)) in
      wp (sa_upload_part A b k u n a body)
        (\<lambda>r w'. others w' \<and> (\<forall>tag cks e x. r = Inr (tag, cks) \<longrightarrow> w_uploads w' u n = Some (e, x) \<longrightarrow>
             tag = Some e \<and> body_ran body w x w'))
        others w))"

definition complete_law :: "work_item \<Rightarrow> s3_api \<Rightarrow> bool" where
  "complete_law it A = (\<forall>b k u ps w.
     wp (sa_complete A b k u ps)
       (\<lambda>r w'. moved it w w' \<and> parts_le w w'
          \<and> (\<forall>x. r = Inr x \<longrightarrow> (\<exists>bs. list_all2 (\<lambda>p y. w_uploads w u (cp_number p) = Some (cp_e_tag p, y)) ps bs
               \<and> w_remote w' b k = Some (concat bs))))
       (\<lambda>w'. moved it w w' \<and> parts_le w w') w)"

definition head_law :: "work_item \<Rightarrow> s3_api \<Rightarrow> bool" where
  "head_law it A = (\<forall>b k c w.
     wp (sa_head A b k c)
       (\<lambda>r w'. moved it w w' \<and> parts_le w w' \<and> w_remote w' = w_remote w
          \<and> (\<forall>n cks. r = Inr (Some n, cks) \<longrightarrow> (\<exists>ob. w_remote w' b k = Some ob \<and> n = int (length ob))))
       (\<lambda>w'. moved it w w' \<and> parts_le w w') w)"

definition abort_law :: "work_item \<Rightarrow> s3_api \<Rightarrow> bool" where
  "abort_law it A = (\<forall>b k u w.
     wp (sa_abort A b k u) (\<lambda>r w'. moved it w w' \<and> parts_le w w') (\<lambda>w'. moved it w w' \<and> parts_le w w') w)"

definition s3_service :: "work_item \<Rightarrow> s3_api \<Rightarrow> bool" where
  "s3_service it A = (put_law it A \<and> create_law it A \<and> part_law it A \<and> complete_law it A
     \<and> head_law it A \<and> abort_law it A)"

section \<open>Sound checkpoints\<close>

definition token_parts :: "s3_resume_token \<Rightarrow> u32" where
  "token_parts t = ucast (word_div_ceil (tk_total_size t) (tk_part_size t))"

definition part_set :: "s3_resume_token \<Rightarrow> u32 set" where
  "part_set t = cp_number ` set (tk_completed t)"

text \<open>
  A token is sound when its parts are listed once each in order, and as long as the source
  still has the recorded modification time and size, each part the service holds under
  the recorded tag has the bytes of its range.
\<close>

definition token_listed :: "s3_resume_token \<Rightarrow> bool" where
  "token_listed t =
     (sorted (List.map cp_number (tk_completed t)) \<and> distinct (List.map cp_number (tk_completed t))
      \<and> part_set t \<subseteq> set (part_numbers (token_parts t)))"

definition token_content :: "work_item \<Rightarrow> s3_resume_token \<Rightarrow> world \<Rightarrow> bool" where
  "token_content it t w =
     (w_mtime w (wi_abs_source it) = tk_mtime_ms t \<longrightarrow>
        (\<forall>c p x. w_files w (wi_abs_source it) = Some c \<longrightarrow> of_nat (length c) = tk_total_size t
           \<longrightarrow> p \<in> set (tk_completed t) \<longrightarrow> w_uploads w (tk_upload_id t) (cp_number p) = Some (cp_e_tag p, x)
           \<longrightarrow> x = part_bytes c (tk_part_size t) (token_parts t) (cp_number p)))"

definition token_sound :: "work_item \<Rightarrow> s3_resume_token \<Rightarrow> world \<Rightarrow> bool" where
  "token_sound it t w =
     (tk_mtime_ms t \<le> w_mtime w (wi_abs_source it) \<and> token_listed t \<and> token_content it t w)"

definition checkpoint_sound :: "work_item \<Rightarrow> world \<Rightarrow> bool" where
  "checkpoint_sound it w =
     (\<forall>rs t. s3_row it w = Some rs \<longrightarrow> token_from_resume rs = Some t \<longrightarrow> token_sound it t w)"

lemma token_sound_moves:
  assumes sound: "token_sound it t w" and adv: "advances w w'"
    and parts: "\<And>n x. n \<in> part_set t \<Longrightarrow> w_uploads w' (tk_upload_id t) n = Some x \<Longrightarrow> w_uploads w (tk_upload_id t) n = Some x"
  shows "token_sound it t w'"
proof -
  let ?p = "wi_abs_source it"
  have le: "tk_mtime_ms t \<le> w_mtime w ?p" using sound by (simp add: token_sound_def)
  also have "\<dots> \<le> w_mtime w' ?p" by (rule advances_le [OF adv])
  finally have le': "tk_mtime_ms t \<le> w_mtime w' ?p" .
  have "token_content it t w'"
  proof (cases "w_mtime w' ?p = tk_mtime_ms t")
    case True
    then have "w_mtime w ?p = tk_mtime_ms t" using le advances_le [OF adv, of ?p] by linarith
    then have f: "w_files w' ?p = w_files w ?p" using True advances_same [OF adv, of ?p] by simp
    have "x = part_bytes c (tk_part_size t) (token_parts t) (cp_number p)"
      if "w_files w' ?p = Some c" "of_nat (length c) = tk_total_size t" "p \<in> set (tk_completed t)"
        "w_uploads w' (tk_upload_id t) (cp_number p) = Some (cp_e_tag p, x)" for c p x
    proof -
      have "w_uploads w (tk_upload_id t) (cp_number p) = Some (cp_e_tag p, x)"
        by (rule parts [OF _ that(4)]) (simp add: part_set_def that(3))
      then show ?thesis
        using sound \<open>w_mtime w ?p = tk_mtime_ms t\<close> that(1-3) f by (simp add: token_sound_def token_content_def)
    qed
    then show ?thesis by (simp add: token_content_def)
  qed (simp add: token_content_def)
  then show ?thesis using sound le' by (simp add: token_sound_def)
qed

section \<open>What a body reads\<close>

lemma body_loop_sent:
  "body_loop on_progress eof sent cs w = (Some (Inr s), w') \<Longrightarrow> eof = None \<and> s = sent @ concat cs"
proof (induction cs arbitrary: sent w)
  case Nil
  then show ?case by (cases eof) (auto simp: ret_def bnd_def split: prod.splits option.splits)
next
  case (Cons c cs)
  from Cons.prems obtain w1 where "body_loop on_progress eof (sent @ c) cs w1 = (Some (Inr s), w')"
    by (auto simp: ret_def bnd_def seqn_def split: prod.splits option.splits sum.splits)
  from Cons.IH [OF this] show ?case by simp
qed

lemma fs_open_content: "fs_open p v = (Some (Inr c), v1) \<Longrightarrow> w_files v p = Some c"
  by (auto simp: fs_open_def effect_def next_fate_def split: list.splits fate.splits option.splits prod.splits)

lemma range_body_sent:
  assumes "range_body p offset len on_progress v = (Some (Inr sent), v')"
  shows "\<exists>c. w_files v p = Some c \<and> sent = take (unat len) (drop (unat offset) c) \<and> length sent = unat len"
proof -
  obtain c v1 where o: "fs_open p v = (Some (Inr c), v1)"
    using assms by (auto simp: range_body_def bnd_def ret_def split: prod.splits option.splits sum.splits)
  let ?r = "take (unat len) (drop (unat offset) c)"
  obtain v2 where b: "body_loop on_progress
       (if length ?r < unat len then Some (unexpected_eof p offset len (length ?r)) else None) [] (read_chunks ?r) v2
       = (Some (Inr sent), v')"
    using assms o
    by (auto simp: range_body_def bnd_def ret_def Let_def simp del: length_take length_drop split: prod.splits option.splits sum.splits)
  have "sent = ?r" "\<not> length ?r < unat len"
    using body_loop_sent [OF b] by (auto simp: concat_read_chunks split: if_splits)
  then show ?thesis using fs_open_content [OF o] by auto
qed

section \<open>One part\<close>

definition attempt_inv :: "work_item \<Rightarrow> s3_resume_token \<Rightarrow> world \<Rightarrow> bool" where
  "attempt_inv it t w =
     (checkpoint_sound it w \<and> token_sound it t w
      \<and> (\<forall>rs t'. s3_row it w = Some rs \<longrightarrow> token_from_resume rs = Some t' \<longrightarrow> tk_upload_id t' = tk_upload_id t
           \<longrightarrow> part_set t' \<subseteq> part_set t))"

lemma token_round_trip: "in_i64 (tk_mtime_ms t) \<Longrightarrow> token_from_resume (token_to_resume t np tot) = Some t"
proof -
  assume m: "in_i64 (tk_mtime_ms t)"
  have part: "part_from_json (part_to_json p) = Some p" for p
    by (cases "cp_checksum p") (simp_all add: part_from_json_def part_to_json_def jopt_str_def opt_str_from_def)
  have "collect_opt (List.map (part_from_json \<circ> part_to_json) ps) = Some ps" for ps
    by (induction ps) (simp_all add: part)
  then show ?thesis
    by (simp add: token_from_resume_def token_to_resume_def token_from_json_def token_to_json_def or_default_def m)
qed

definition same_upload :: "s3_resume_token \<Rightarrow> s3_resume_token \<Rightarrow> bool" where
  "same_upload t t' = (\<exists>cs. t' = t\<lparr>tk_completed := cs\<rparr>)"

lemma same_upload_simps:
  assumes "same_upload t t'"
  shows "tk_upload_id t' = tk_upload_id t" "tk_key t' = tk_key t" "tk_part_size t' = tk_part_size t"
    "tk_total_size t' = tk_total_size t" "tk_mtime_ms t' = tk_mtime_ms t" "token_parts t' = token_parts t"
  using assms by (auto simp: same_upload_def token_parts_def)

lemma same_upload_trans: "same_upload a b \<Longrightarrow> same_upload b c \<Longrightarrow> same_upload a c"
  by (auto simp: same_upload_def)

text \<open>Recording a part.\<close>

definition record_part :: "s3_completed_part \<Rightarrow> s3_resume_token \<Rightarrow> s3_resume_token" where
  "record_part p t = t\<lparr>tk_completed := sort_key cp_number (tk_completed t @ [p])\<rparr>"

lemma part_set_record: "part_set (record_part p t) = insert (cp_number p) (part_set t)"
  by (simp add: part_set_def record_part_def)

lemma record_part_listed:
  assumes "token_listed t" "cp_number p \<notin> part_set t" "cp_number p \<in> set (part_numbers (token_parts t))"
  shows "token_listed (record_part p t)"
proof -
  have s: "sorted (List.map cp_number (sort_key cp_number (tk_completed t @ [p])))" by (rule sorted_sort_key)
  have "distinct (List.map cp_number (tk_completed t @ [p]))"
    using assms by (auto simp: token_listed_def part_set_def)
  then have "distinct (List.map cp_number (sort_key cp_number (tk_completed t @ [p])))"
    by (metis distinct_map distinct_sort set_sort)
  then show ?thesis
    using assms s part_set_record [of p t] by (auto simp: token_listed_def record_part_def token_parts_def)
qed

text \<open>The request for part \<open>n\<close> keeps the checkpoint sound, and what it stored is the part's range.\<close>

lemma after_part:
  assumes inv: "attempt_inv it t w" and n: "n \<notin> part_set t" and m: "moved it w w'"
    and others: "\<And>u' n' x. (u', n') \<noteq> (tk_upload_id t, n) \<Longrightarrow> w_uploads w' u' n' = Some x \<Longrightarrow> w_uploads w u' n' = Some x"
  shows "attempt_inv it t w'"
proof -
  have adv: "advances w w'" and row: "s3_row it w' = s3_row it w" using m by (auto simp: moved_def)
  have "token_sound it t' w'" if "s3_row it w = Some rs" "token_from_resume rs = Some t'" for rs t'
  proof (rule token_sound_moves [OF _ adv])
    show "token_sound it t' w" using inv that by (auto simp: attempt_inv_def checkpoint_sound_def)
    fix k x assume k: "k \<in> part_set t'" and up: "w_uploads w' (tk_upload_id t') k = Some x"
    have "(tk_upload_id t', k) \<noteq> (tk_upload_id t, n)"
      using inv that k n by (auto simp: attempt_inv_def)
    then show "w_uploads w (tk_upload_id t') k = Some x" using others up by blast
  qed
  moreover have "token_sound it t w'"
  proof (rule token_sound_moves [OF _ adv])
    show "token_sound it t w" using inv by (simp add: attempt_inv_def)
    fix k x assume "k \<in> part_set t" and up: "w_uploads w' (tk_upload_id t) k = Some x"
    then have "(tk_upload_id t, k) \<noteq> (tk_upload_id t, n)" using n by auto
    then show "w_uploads w (tk_upload_id t) k = Some x" by (rule others [OF _ up])
  qed
  ultimately show ?thesis using inv row by (auto simp: attempt_inv_def checkpoint_sound_def)
qed

lemma stored_range:
  assumes ran: "body_ran (range_body p (part_offset n ps) (part_len n ps np tot) rep) w x w'"
    and m: "w_mtime w' p = w_mtime w p" and c: "w_files w' p = Some c" "of_nat (length c) = tot"
  shows "x = part_bytes c ps np n"
proof -
  obtain v v' where v: "advances w v" "advances v w'"
    and b: "range_body p (part_offset n ps) (part_len n ps np tot) rep v = (Some (Inr x), v')"
    using ran by (auto simp: body_ran_def)
  have "w_files v p = Some c" using advances_between [OF v m] c(1) by simp
  then show ?thesis using range_body_sent [OF b] c(2) by (auto simp: part_bytes_def)
qed

lemma record_part_sound:
  assumes sound: "token_sound it t w" and sound': "token_sound it t w'" and adv: "advances w w'"
    and n: "cp_number p \<notin> part_set t" "cp_number p \<in> set (part_numbers (token_parts t))"
    and stored: "\<And>x. w_uploads w' (tk_upload_id t) (cp_number p) = Some (cp_e_tag p, x) \<Longrightarrow>
      body_ran (range_body (wi_abs_source it) (part_offset (cp_number p) (tk_part_size t))
        (part_len (cp_number p) (tk_part_size t) (token_parts t) (tk_total_size t)) rep) w x w'"
  shows "token_sound it (record_part p t) w'"
proof -
  let ?src = "wi_abs_source it" and ?t = "record_part p t"
  have "token_content it ?t w'"
    unfolding token_content_def
  proof (intro impI allI)
    fix c q x
    assume mt: "w_mtime w' ?src = tk_mtime_ms ?t" and c: "w_files w' ?src = Some c" "of_nat (length c) = tk_total_size ?t"
      and q: "q \<in> set (tk_completed ?t)" and up: "w_uploads w' (tk_upload_id ?t) (cp_number q) = Some (cp_e_tag q, x)"
    show "x = part_bytes c (tk_part_size ?t) (token_parts ?t) (cp_number q)"
    proof (cases "q = p")
      case True
      have "tk_mtime_ms t \<le> w_mtime w ?src" using sound by (simp add: token_sound_def)
      then have "w_mtime w' ?src = w_mtime w ?src" using mt advances_le [OF adv, of ?src] by (simp add: record_part_def)
      then show ?thesis
        using stored_range [OF stored _ c(1)] True up c(2) by (simp add: record_part_def token_parts_def)
    next
      case False
      then have "q \<in> set (tk_completed t)" using q by (simp add: record_part_def)
      then show ?thesis
        using sound' mt c up by (simp add: token_sound_def token_content_def record_part_def token_parts_def)
    qed
  qed
  moreover have "token_listed ?t"
    by (rule record_part_listed [OF _ n]) (use sound in \<open>simp add: token_sound_def\<close>)
  ultimately show ?thesis using sound' by (simp add: token_sound_def record_part_def)
qed

section \<open>Program rules\<close>

lemma wp_try_mpu [wp_rules]:
  "wp (try_mpu m f) Q C = wp m (\<lambda>r. case r of Inl e \<Rightarrow> Q (Inl e) | Inr x \<Rightarrow> wp (f x) Q C) C"
proof -
  have "(\<lambda>r. wp (case r of Inl e \<Rightarrow> ret (Inl e) | Inr x \<Rightarrow> f x) Q C)
      = (\<lambda>r. case r of Inl e \<Rightarrow> Q (Inl e) | Inr x \<Rightarrow> wp (f x) Q C)"
    by (rule ext) (simp add: wp_ret split: sum.split)
  then show ?thesis by (simp add: try_mpu_def wp_bnd)
qed

lemma wp_requests [wp_rules]:
  "wp (sdk m) Q C = wp m (\<lambda>r. Q (case r of Inl e \<Rightarrow> Inl (map_sdk e) | Inr x \<Rightarrow> Inr x)) C"
  "wp (gone_or_fatal m) Q' C =
     wp m (\<lambda>r. Q' (case r of Inr x \<Rightarrow> Inr x
       | Inl e \<Rightarrow> Inl (if is_no_such_upload e then Gone else Fatal (map_sdk e)))) C"
  "wp (fatal_io m') Q'' C =
     wp m' (\<lambda>r. Q'' (case r of Inr x \<Rightarrow> Inr x | Inl e \<Rightarrow> Inl (Fatal (classify_io e)))) C"
  by (simp_all add: sdk_def gone_or_fatal_def fatal_io_def wp_bnd wp_ret)

lemma wp_set_sent [wp_rules]: "wp (set_sent n) Q C w = Q () (w\<lparr>w_sent := n\<rparr>)"
  by (simp add: wp_def set_sent_def)

lemma wp_metadata:
  assumes "\<And>fs c. w_files w p = Some c \<Longrightarrow> Q (Inr (of_nat (length c), w_mtime w p)) (w\<lparr>w_fate := fs\<rparr>)"
    "\<And>fs e. Q (Inl e) (w\<lparr>w_fate := fs\<rparr>)" "\<And>fs. C (w\<lparr>w_fate := fs\<rparr>)"
  shows "wp (fs_metadata p) Q C w"
  unfolding fs_metadata_def by (rule wp_effect) (use assms in \<open>auto split: option.split\<close>)

lemma fate_id: "w = w\<lparr>w_fate := w_fate w\<rparr>"
  by simp

lemma wp_save_token:
  assumes saved: "\<And>fs. Q () (w\<lparr>w_fate := fs, w_db := save_resume (wi_instance it) (wi_relpath it) ''s3'' (token_to_resume t np tot) (w_db w)\<rparr>)"
    and skipped: "\<And>fs. Q () (w\<lparr>w_fate := fs\<rparr>)" and crashed: "\<And>fs. C (w\<lparr>w_fate := fs\<rparr>)"
  shows "wp (save_token S it t np tot) Q C w"
proof (cases "sd_store S")
  case True
  then show ?thesis
    unfolding save_token_def using assms by (simp add: wp_seqn wp_ret) (rule wp_db_write, simp_all)
next
  case False
  then show ?thesis using skipped [of "w_fate w"] by (simp add: save_token_def wp_ret)
qed

lemma wp_clear_token:
  assumes "\<And>fs. Q () (w\<lparr>w_fate := fs, w_db := clear_resume (wi_instance it) (wi_relpath it) ''s3'' (w_db w)\<rparr>)"
    and "\<And>fs. Q () (w\<lparr>w_fate := fs\<rparr>)" and "\<And>fs. C (w\<lparr>w_fate := fs\<rparr>)"
  shows "wp (clear_token S it) Q C w"
proof (cases "sd_store S")
  case True
  then show ?thesis
    unfolding clear_token_def using assms by (simp add: wp_seqn wp_ret) (rule wp_db_write, simp_all)
next
  case False
  then show ?thesis using assms(2) [of "w_fate w"] by (simp add: clear_token_def wp_ret)
qed

section \<open>The invariant of an attempt\<close>

lemma token_sound_upd [simp]:
  "token_sound it t (w\<lparr>w_fate := fs\<rparr>) = token_sound it t w" "token_sound it t (w\<lparr>w_sent := n\<rparr>) = token_sound it t w"
  "token_sound it t (w\<lparr>w_db := d\<rparr>) = token_sound it t w" "token_sound it t (w\<lparr>w_remote := x\<rparr>) = token_sound it t w"
  by (simp_all add: token_sound_def token_content_def)

lemma checkpoint_sound_upd [simp]:
  "checkpoint_sound it (w\<lparr>w_fate := fs\<rparr>) = checkpoint_sound it w"
  "checkpoint_sound it (w\<lparr>w_sent := n\<rparr>) = checkpoint_sound it w"
  by (simp_all add: checkpoint_sound_def)

lemma attempt_inv_upd [simp]:
  "attempt_inv it t (w\<lparr>w_fate := fs\<rparr>) = attempt_inv it t w" "attempt_inv it t (w\<lparr>w_sent := n\<rparr>) = attempt_inv it t w"
  by (simp_all add: attempt_inv_def)

lemma row_saved:
  "s3_row it (w\<lparr>w_fate := fs, w_db := save_resume (wi_instance it) (wi_relpath it) ''s3'' rs (w_db w)\<rparr>) = Some rs"
  by (simp add: s3_row_def load_save_resume)

lemma attempt_inv_saved:
  assumes "token_sound it t w" "in_i64 (tk_mtime_ms t)"
  shows "attempt_inv it t (w\<lparr>w_fate := fs,
    w_db := save_resume (wi_instance it) (wi_relpath it) ''s3'' (token_to_resume t np tot) (w_db w)\<rparr>)"
  using assms by (auto simp: attempt_inv_def checkpoint_sound_def row_saved token_round_trip)

lemma attempt_inv_checkpoint: "attempt_inv it t w \<Longrightarrow> checkpoint_sound it w"
  by (simp add: attempt_inv_def)

lemma upload_one_wp:
  assumes law: "part_law it (sd_client S)" and prog: "\<And>n. frames (quiet_reader it) (progress n)"
    and inv: "attempt_inv it t w" and n: "n \<notin> part_set t" "n \<in> set (part_numbers (token_parts t))"
    and i64: "in_i64 (tk_mtime_ms t)"
  shows "wp (upload_one S it (token_parts t) progress n t)
    (\<lambda>r w'. advances w w' \<and> checkpoint_sound it w'
       \<and> (\<forall>t'. r = Inr t' \<longrightarrow> same_upload t t' \<and> part_set t' = insert n (part_set t) \<and> attempt_inv it t' w'))
    (\<lambda>w'. advances w w' \<and> checkpoint_sound it w') w"
proof -
  let ?body = "range_body (wi_abs_source it) (part_offset n (tk_part_size t))
    (part_len n (tk_part_size t) (token_parts t) (tk_total_size t)) (report_sent progress (tk_total_size t))"
  have body: "frames (quiet_reader it) ?body" by (rule reader_order.R_range_body [OF prog])
  have stop: "advances w w' \<and> attempt_inv it t w'"
    if "moved it w w'" "\<forall>u' n' x. (u', n') \<noteq> (tk_upload_id t, n) \<longrightarrow> w_uploads w' u' n' = Some x \<longrightarrow> w_uploads w u' n' = Some x"
    for w'
    using that after_part [OF inv n(1) that(1)] by (auto simp: moved_def)
  have rec: "wp (save_token S it (record_part p t) (token_parts t) (tk_total_size t))
      (\<lambda>_ w''. advances w w'' \<and> checkpoint_sound it w'' \<and> attempt_inv it (record_part p t) w'')
      (\<lambda>w''. advances w w'' \<and> checkpoint_sound it w'') w'"
    if s: "advances w w'" "attempt_inv it t w'" and p: "cp_number p = n"
      and st: "\<And>x. w_uploads w' (tk_upload_id t) (cp_number p) = Some (cp_e_tag p, x) \<Longrightarrow> body_ran ?body w x w'" for w' p
  proof (rule wp_save_token)
    have sound: "token_sound it (record_part p t) w'"
      by (rule record_part_sound [where rep = "report_sent progress (tk_total_size t)", OF _ _ s(1)])
        (use inv s(2) n st p in \<open>simp_all add: attempt_inv_def\<close>)
    let ?w = "\<lambda>fs. w'\<lparr>w_fate := fs, w_db := save_resume (wi_instance it) (wi_relpath it) ''s3''
        (token_to_resume (record_part p t) (token_parts t) (tk_total_size t)) (w_db w')\<rparr>"
    have "attempt_inv it (record_part p t) (?w fs)" for fs
      by (rule attempt_inv_saved [OF sound]) (use i64 in \<open>simp add: record_part_def\<close>)
    then show "advances w (?w fs) \<and> checkpoint_sound it (?w fs) \<and> attempt_inv it (record_part p t) (?w fs)" for fs
      using s(1) attempt_inv_checkpoint by auto
    have "attempt_inv it (record_part p t) w'"
      using s(2) sound part_set_record [of p t] by (auto simp: attempt_inv_def record_part_def)
    then show "advances w (w'\<lparr>w_fate := fs\<rparr>) \<and> checkpoint_sound it (w'\<lparr>w_fate := fs\<rparr>)
        \<and> attempt_inv it (record_part p t) (w'\<lparr>w_fate := fs\<rparr>)" for fs
      using s by (simp add: attempt_inv_checkpoint)
    show "advances w (w'\<lparr>w_fate := fs\<rparr>) \<and> checkpoint_sound it (w'\<lparr>w_fate := fs\<rparr>)" for fs
      using s by (simp add: attempt_inv_checkpoint)
  qed
  note put = law [unfolded part_law_def Let_def, rule_format, OF body, of "sd_bucket S" "tk_key t" "tk_upload_id t" n "sd_algo S" w]
  show ?thesis
    unfolding upload_one_def Let_def wp_rules
  proof (rule wp_conseq [OF put], goal_cases)
    case (1 r w')
    then have s: "advances w w'" "attempt_inv it t w'" using stop by blast+
    show ?case
    proof (cases r)
      case (Inl e)
      then show ?thesis using s by (simp add: attempt_inv_checkpoint)
    next
      case (Inr y)
      obtain tag cks where y: "y = (tag, cks)" by (rule prod.exhaust)
      show ?thesis
      proof (cases "tag = None \<or> tag = Some []")
        case True
        then show ?thesis using s Inr y by (auto simp: wp_ret attempt_inv_checkpoint)
      next
        case False
        then obtain tg where tg: "tag = Some tg" "tg \<noteq> []" by auto
        let ?p = "\<lparr>cp_number = n, cp_e_tag = tg, cp_checksum = response_checksum (sd_algo S) cks\<rparr>"
        have "body_ran ?body w x w'" if "w_uploads w' (tk_upload_id t) (cp_number ?p) = Some (cp_e_tag ?p, x)" for x
          using 1 that Inr y by simp
        from rec [OF s _ this] have "wp (save_token S it (record_part ?p t) (token_parts t) (tk_total_size t))
            (\<lambda>_ w''. advances w w'' \<and> checkpoint_sound it w'' \<and> attempt_inv it (record_part ?p t) w'')
            (\<lambda>w''. advances w w'' \<and> checkpoint_sound it w'') w'" by simp
        then show ?thesis
          using tg part_set_record [of ?p t]
          by (auto simp: Inr y wp_rules record_part_def same_upload_def elim!: wp_conseq)
      qed
    qed
  qed (use stop attempt_inv_checkpoint in blast)
qed

lemma upload_parts_wp:
  assumes law: "part_law it (sd_client S)" and prog: "\<And>n. frames (quiet_reader it) (progress n)"
    and i64: "in_i64 (tk_mtime_ms t)" and inv: "attempt_inv it t w" and np: "np = token_parts t"
    and ns: "distinct ns" "set ns \<inter> part_set t = {}" "set ns \<subseteq> set (part_numbers np)"
  shows "wp (upload_parts S it np progress ns t)
    (\<lambda>r w'. advances w w' \<and> checkpoint_sound it w'
       \<and> (\<forall>t'. r = Inr t' \<longrightarrow> same_upload t t' \<and> part_set t' = part_set t \<union> set ns \<and> attempt_inv it t' w'))
    (\<lambda>w'. advances w w' \<and> checkpoint_sound it w') w"
  using i64 inv np ns
proof (induction ns arbitrary: t w)
  case Nil
  then show ?case by (simp add: wp_ret attempt_inv_checkpoint same_upload_def) (metis s3_resume_token.surjective s3_resume_token.update_convs(6))
next
  case (Cons n ns)
  have "n \<notin> part_set t" "n \<in> set (part_numbers (token_parts t))" using Cons.prems by auto
  note one = upload_one_wp [OF law prog Cons.prems(2) this Cons.prems(1), folded Cons.prems(3)]
  show ?case unfolding upload_parts.simps wp_try_mpu
  proof (rule wp_conseq [OF one], goal_cases)
    case (1 r w1)
    show ?case
    proof (cases r)
      case (Inr t1)
      then have t1: "same_upload t t1" "part_set t1 = insert n (part_set t)" "attempt_inv it t1 w1" "advances w w1"
        using 1 by auto
      note s = same_upload_simps [OF t1(1)]
      have "wp (upload_parts S it np progress ns t1)
        (\<lambda>r w'. advances w1 w' \<and> checkpoint_sound it w'
           \<and> (\<forall>t'. r = Inr t' \<longrightarrow> same_upload t1 t' \<and> part_set t' = part_set t1 \<union> set ns \<and> attempt_inv it t' w'))
        (\<lambda>w'. advances w1 w' \<and> checkpoint_sound it w') w1"
        by (rule Cons.IH) (use Cons.prems t1 s in auto)
      then show ?thesis
        unfolding Inr sum.case
        by (rule wp_conseq) (use t1 in \<open>auto intro: advances_trans same_upload_trans\<close>)
    qed (use 1 in auto)
  qed auto
qed

lemma checkpoint_after:
  assumes "checkpoint_sound it w" "moved it w w'" "parts_le w w'"
  shows "advances w w' \<and> checkpoint_sound it w'"
proof -
  have adv: "advances w w'" and row: "s3_row it w' = s3_row it w" using assms(2) by (auto simp: moved_def)
  have "token_sound it t w'" if "s3_row it w = Some rs" "token_from_resume rs = Some t" for rs t
    by (rule token_sound_moves [OF _ adv]) (use assms that in \<open>auto simp: checkpoint_sound_def parts_le_def\<close>)
  then show ?thesis using adv row by (simp add: checkpoint_sound_def)
qed

section \<open>A multipart attempt\<close>

lemma part_numbers_sorted:
  assumes "unat np \<le> 10000"
  shows "sorted (part_numbers np)" "distinct (part_numbers np)"
proof -
  have u: "unat (of_nat i :: u32) = i" if "i \<in> set [1..<Suc (unat np)]" for i
    using that assms by (intro unat_of_nat_small(1)) auto
  have "sorted_wrt (\<lambda>i j. (of_nat i :: u32) \<le> of_nat j) [1..<Suc (unat np)]"
    by (rule sorted_wrt_mono_rel [OF _ sorted_upt]) (simp add: word_le_nat_alt u del: upt_Suc)
  then show "sorted (part_numbers np)" by (simp add: part_numbers_def sorted_wrt_map)
  show "distinct (part_numbers np)"
    unfolding part_numbers_def distinct_map
  proof (intro conjI inj_onI)
    fix i j assume "i \<in> set [1..<Suc (unat np)]" "j \<in> set [1..<Suc (unat np)]" and eq: "(of_nat i :: u32) = of_nat j"
    then have "unat (of_nat i :: u32) = i" "unat (of_nat j :: u32) = j" using u by blast+
    then show "i = j" unfolding eq by simp
  qed (rule distinct_upt)
qed

lemma all_parts_listed:
  assumes "token_listed t" "part_set t = set (part_numbers (token_parts t))" "unat (token_parts t) \<le> 10000"
  shows "List.map cp_number (tk_completed t) = part_numbers (token_parts t)"
  by (rule sorted_distinct_set_unique) (use assms part_numbers_sorted in \<open>auto simp: token_listed_def part_set_def\<close>)

lemma stored_parts_concat:
  assumes content: "token_content it t w" and mt: "w_mtime w (wi_abs_source it) = tk_mtime_ms t"
    and c: "w_files w (wi_abs_source it) = Some c" "of_nat (length c) = tk_total_size t"
    and bs: "list_all2 (\<lambda>p y. w_uploads w (tk_upload_id t) (cp_number p) = Some (cp_e_tag p, y)) (tk_completed t) bs"
  shows "bs = List.map (part_bytes c (tk_part_size t) (token_parts t)) (List.map cp_number (tk_completed t))"
proof -
  have "list_all2 (\<lambda>p y. y = part_bytes c (tk_part_size t) (token_parts t) (cp_number p)) (tk_completed t) bs"
    using bs by (rule list.rel_mono_strong) (use content mt c in \<open>auto simp: token_content_def\<close>)
  then show ?thesis by (induction rule: list_all2_induct) auto
qed

definition fair_order :: "s3_dest \<Rightarrow> bool" where
  "fair_order S = (\<forall>xs. set (sd_order S xs) = set xs \<and> distinct (sd_order S xs) = distinct xs)"

lemma missing_order:
  assumes "fair_order S" "unat np \<le> 10000"
  shows "distinct (sd_order S (missing_parts np ps))"
    "set (sd_order S (missing_parts np ps)) = set (part_numbers np) - cp_number ` set ps"
  using assms part_numbers_sorted(2) [OF assms(2)] by (auto simp: fair_order_def missing_parts_def)

lemma plan_token_parts:
  "plan_upload fsize p = UMultipart ps np \<Longrightarrow> tk_part_size t = ps \<Longrightarrow> tk_total_size t = fsize \<Longrightarrow> token_parts t = np"
  by (auto simp: plan_upload_def token_parts_def Let_def split: if_splits)

text \<open>A source of content \<open>c\<close> and modification time \<open>m\<close>, and the plan to upload it in parts.\<close>

definition multipart_start ::
  "s3_dest \<Rightarrow> work_item \<Rightarrow> bytes \<Rightarrow> i64 \<Rightarrow> u64 \<Rightarrow> u32 \<Rightarrow> world \<Rightarrow> bool" where
  "multipart_start S it c m ps np w0 =
     (w_files w0 (wi_abs_source it) = Some c \<and> w_mtime w0 (wi_abs_source it) = m \<and> in_i64 m
      \<and> length c \<le> 10000 * 5368709120 \<and> plan_upload (of_nat (length c)) (sd_multipart S) = UMultipart ps np
      \<and> (\<exists>cfg. sd_multipart S = multipart_resolve cfg))"

definition token_for :: "s3_resume_token \<Rightarrow> bytes \<Rightarrow> i64 \<Rightarrow> u64 \<Rightarrow> bool" where
  "token_for t c m ps = (tk_part_size t = ps \<and> tk_total_size t = of_nat (length c) \<and> tk_mtime_ms t = m)"

text \<open>What a delivery of content \<open>c\<close> to \<open>key\<close> has achieved.\<close>

definition delivered_exactly :: "s3_dest \<Rightarrow> work_item \<Rightarrow> string \<Rightarrow> bytes \<Rightarrow> delivered \<Rightarrow> world \<Rightarrow> bool" where
  "delivered_exactly S it key c d w =
     (dl_bytes d = of_nat (length c) \<and> w_files w (wi_abs_source it) = Some c
      \<and> w_remote w (sd_bucket S) key = Some c)"

text \<open>The source after a transfer is the source before it when size and time are unchanged.\<close>

lemma unchanged_source:
  assumes "advances w0 w" "w_files w0 p = Some c" "w_mtime w0 p = m"
    "\<not> source_changed fsize m n (w_mtime w p)"
  shows "w_files w p = Some c" "w_mtime w p = w_mtime w0 p"
  using assms advances_same [of w0 w p] by (simp_all add: source_changed_def)

lemma attempt_wp:
  assumes service: "s3_service it (sd_client S)" and prog: "\<And>n. frames (quiet_reader it) (progress n)"
    and order: "fair_order S" and start: "multipart_start S it c m ps np w0" and adv0: "advances w0 w"
    and tok: "token_for t c m ps" and inv: "attempt_inv it t w"
  shows "wp (run_multipart_attempt S it key (of_nat (length c)) np m t progress)
    (\<lambda>r w'. advances w w' \<and> checkpoint_sound it w' \<and> (\<forall>d. r = Inr d \<longrightarrow> delivered_exactly S it key c d w'))
    (\<lambda>w'. advances w w' \<and> checkpoint_sound it w') w"
proof -
  let ?src = "wi_abs_source it"
  obtain cfg where cfg: "sd_multipart S = multipart_resolve cfg" using start by (auto simp: multipart_start_def)
  have plan: "plan_upload (of_nat (length c)) (multipart_resolve cfg) = UMultipart ps np"
    and small: "length c \<le> 10000 * 5368709120" and m0: "w_mtime w0 ?src = m" "in_i64 m" "w_files w0 ?src = Some c"
    using start cfg by (auto simp: multipart_start_def)
  have np: "unat np \<le> 10000" by (rule plan_numbers(4) [OF plan small])
  have tnp: "token_parts t = np" using tok by (intro plan_token_parts [OF plan]) (auto simp: token_for_def)
  have listed: "token_listed t" using inv by (auto simp: attempt_inv_def token_sound_def)
  let ?ns = "sd_order S (missing_parts np (tk_completed t))"
  note ms = missing_order [OF order np, of "tk_completed t", folded part_set_def]
  have all: "part_set t \<union> set ?ns = set (part_numbers np)"
    using listed ms(2) tnp by (auto simp: token_listed_def)
  have parts: "wp (upload_parts S it np progress ?ns t)
    (\<lambda>r w'. advances w w' \<and> checkpoint_sound it w'
       \<and> (\<forall>t'. r = Inr t' \<longrightarrow> same_upload t t' \<and> part_set t' = part_set t \<union> set ?ns \<and> attempt_inv it t' w'))
    (\<lambda>w'. advances w w' \<and> checkpoint_sound it w') (w\<lparr>w_sent := n\<rparr>)" for n
  proof -
    have "part_law it (sd_client S)" using service by (simp add: s3_service_def)
    moreover have "in_i64 (tk_mtime_ms t)" using tok m0(2) by (simp add: token_for_def)
    moreover have "attempt_inv it t (w\<lparr>w_sent := n\<rparr>)" using inv by simp
    moreover have "set ?ns \<inter> part_set t = {}" "set ?ns \<subseteq> set (part_numbers np)" using ms(2) by auto
    ultimately show ?thesis
      using upload_parts_wp [OF _ prog _ _ tnp [symmetric] ms(1), where S = S and w = "w\<lparr>w_sent := n\<rparr>"] by simp
  qed
  show ?thesis
    unfolding run_multipart_attempt_def wp_seqn wp_set_sent wp_try_mpu
  proof (rule wp_conseq [OF parts], goal_cases)
    case (1 r w1)
    show ?case
    proof (cases r)
      case (Inr t')
      have t': "same_upload t t'" "part_set t' = set (part_numbers np)" "attempt_inv it t' w1" "advances w w1"
        using 1 Inr all by auto
      note s = same_upload_simps [OF t'(1)]
      note complete = service [unfolded s3_service_def complete_law_def, THEN conjunct2, THEN conjunct2, THEN conjunct2,
          THEN conjunct1, rule_format, of "sd_bucket S" key "tk_upload_id t" "tk_completed t'" w1]
      show ?thesis
        unfolding Inr sum.case wp_requests
      proof (rule wp_conseq [OF complete], goal_cases)
        case (1 r w2)
        then have w2: "advances w1 w2" "checkpoint_sound it w2"
          using checkpoint_after [OF attempt_inv_checkpoint [OF t'(3)]] by blast+
        have adv: "advances w w2" by (rule advances_trans [OF t'(4) w2(1)])
        show ?case
        proof (cases r)
          case (Inl e)
          then show ?thesis using adv w2 by simp
        next
          case (Inr cks)
          obtain bs where bs: "list_all2 (\<lambda>p y. w_uploads w1 (tk_upload_id t') (cp_number p) = Some (cp_e_tag p, y)) (tk_completed t') bs"
            and ob: "w_remote w2 (sd_bucket S) key = Some (concat bs)"
            using 1 Inr s by auto
          have exact: "concat bs = c \<and> w_files w2 ?src = Some c"
            if same: "\<not> source_changed (of_nat (length c)) m n (w_mtime w2 ?src)" for n
          proof -
            have m2: "w_mtime w2 ?src = w_mtime w0 ?src" and c2: "w_files w2 ?src = Some c"
              using unchanged_source [OF advances_trans [OF adv0 adv] m0(3) m0(1) same] by simp_all
            note b = advances_between [OF advances_trans [OF adv0 t'(4)] w2(1) m2]
            have "bs = List.map (part_bytes c (tk_part_size t') (token_parts t')) (List.map cp_number (tk_completed t'))"
              by (rule stored_parts_concat [where w = w1 and it = it])
                (use t'(3) b bs m0 tok s in \<open>auto simp: attempt_inv_def token_sound_def token_for_def\<close>)
            also have "List.map cp_number (tk_completed t') = part_numbers (token_parts t')"
              by (rule all_parts_listed) (use t' s tnp np in \<open>auto simp: attempt_inv_def token_sound_def\<close>)
            finally have "concat bs = c"
              using part_bytes_all [OF plan small] s tnp tok by (simp add: token_for_def)
            then show ?thesis using c2 by simp
          qed
          show ?thesis
            unfolding Inr sum.case wp_try_mpu wp_requests
            by (rule wp_metadata) (use adv w2 exact ob in \<open>auto simp: wp_ret delivered_exactly_def\<close>)
        qed
      next
        case (2 w2)
        then show ?case
          using checkpoint_after [OF attempt_inv_checkpoint [OF t'(3)]] advances_trans [OF t'(4)] by blast
      qed
    qed (use 1 in auto)
  qed auto
qed

section \<open>A fresh upload, and taking one up again\<close>

lemma fresh_token_sound:
  assumes "m \<le> w_mtime w (wi_abs_source it)"
  shows "token_sound it \<lparr>tk_upload_id = u, tk_key = key, tk_part_size = ps, tk_total_size = n, tk_mtime_ms = m,
    tk_completed = []\<rparr> w"
  using assms by (simp add: token_sound_def token_listed_def part_set_def token_content_def)

lemma fresh_wp:
  assumes service: "s3_service it (sd_client S)" and prog: "\<And>n. frames (quiet_reader it) (progress n)"
    and order: "fair_order S" and start: "multipart_start S it c m ps np w0" and adv0: "advances w0 w"
    and sound: "checkpoint_sound it w"
  shows "wp (fresh_multipart S it key (of_nat (length c)) ps np m progress)
    (\<lambda>r w'. advances w w' \<and> checkpoint_sound it w' \<and> (\<forall>d. r = Inr d \<longrightarrow> delivered_exactly S it key c d w'))
    (\<lambda>w'. advances w w' \<and> checkpoint_sound it w') w"
proof -
  let ?t = "\<lambda>u. \<lparr>tk_upload_id = u, tk_key = key, tk_part_size = ps, tk_total_size = of_nat (length c),
     tk_mtime_ms = m, tk_completed = []\<rparr>"
  let ?Q = "\<lambda>r w'. advances w w' \<and> checkpoint_sound it w' \<and> (\<forall>d. r = Inr d \<longrightarrow> delivered_exactly S it key c d w')"
  let ?C = "\<lambda>w'. advances w w' \<and> checkpoint_sound it w'"
  have m: "in_i64 m" "w_mtime w0 (wi_abs_source it) = m" using start by (simp_all add: multipart_start_def)
  note create = service [unfolded s3_service_def create_law_def, THEN conjunct2, THEN conjunct1, rule_format,
      of "sd_bucket S" key "sd_algo S" "s3_options_of S" w]
  have attempt: "wp (run_multipart_attempt S it key (of_nat (length c)) np m (?t u) progress)
      (\<lambda>r. ?Q (case r of Inr d \<Rightarrow> Inr d | Inl (Fatal e) \<Rightarrow> Inl e
          | Inl Gone \<Rightarrow> Inl (Transient ''s3 multipart uploadId disappeared during a fresh upload''))) ?C w1"
    if w1: "advances w w1" "attempt_inv it (?t u) w1" for u w1
  proof (rule wp_conseq [OF attempt_wp [OF service prog order start advances_trans [OF adv0 w1(1)] _ w1(2)]], goal_cases)
    case (2 r w')
    then show ?case using advances_trans [OF w1(1)] by (auto split: sum.splits mpu_error.splits)
  next
    case (3 w')
    then show ?case using advances_trans [OF w1(1)] by auto
  qed (simp add: token_for_def)
  have go: "wp (save_token S it (?t u) np (of_nat (length c)))
      (\<lambda>_. wp (run_multipart_attempt S it key (of_nat (length c)) np m (?t u) progress)
        (\<lambda>r. ?Q (case r of Inr d \<Rightarrow> Inr d | Inl (Fatal e) \<Rightarrow> Inl e
          | Inl Gone \<Rightarrow> Inl (Transient ''s3 multipart uploadId disappeared during a fresh upload''))) ?C) ?C w1"
    if w1: "advances w w1" "checkpoint_sound it w1"
      and new: "\<And>rs t. s3_row it w1 = Some rs \<Longrightarrow> token_from_resume rs = Some t \<Longrightarrow> tk_upload_id t \<noteq> u" for u w1
  proof -
    have ts: "token_sound it (?t u) w1"
      by (rule fresh_token_sound) (use advances_le [OF advances_trans [OF adv0 w1(1)], of "wi_abs_source it"] m in simp)
    then have inv: "attempt_inv it (?t u) w1" using w1 new by (auto simp: attempt_inv_def)
    show ?thesis
    proof (rule wp_save_token)
      fix fs
      show "wp (run_multipart_attempt S it key (of_nat (length c)) np m (?t u) progress)
        (\<lambda>r. ?Q (case r of Inr d \<Rightarrow> Inr d | Inl (Fatal e) \<Rightarrow> Inl e
          | Inl Gone \<Rightarrow> Inl (Transient ''s3 multipart uploadId disappeared during a fresh upload''))) ?C (w1\<lparr>w_fate := fs\<rparr>)"
        by (rule attempt) (use w1 inv in simp_all)
      show "wp (run_multipart_attempt S it key (of_nat (length c)) np m (?t u) progress)
        (\<lambda>r. ?Q (case r of Inr d \<Rightarrow> Inr d | Inl (Fatal e) \<Rightarrow> Inl e
          | Inl Gone \<Rightarrow> Inl (Transient ''s3 multipart uploadId disappeared during a fresh upload''))) ?C
        (w1\<lparr>w_fate := fs, w_db := save_resume (wi_instance it) (wi_relpath it) ''s3''
           (token_to_resume (?t u) np (of_nat (length c))) (w_db w1)\<rparr>)"
        by (rule attempt) (use w1 attempt_inv_saved [OF ts] m(1) in simp_all)
      show "advances w (w1\<lparr>w_fate := fs\<rparr>) \<and> checkpoint_sound it (w1\<lparr>w_fate := fs\<rparr>)" using w1 by simp
    qed
  qed
  have ends: "(\<lambda>r. wp (case r of Inl Gone \<Rightarrow> err (Transient ''s3 multipart uploadId disappeared during a fresh upload'')
        | Inl (Fatal e) \<Rightarrow> err e | Inr d \<Rightarrow> ok d) ?Q ?C)
      = (\<lambda>r. ?Q (case r of Inr d \<Rightarrow> Inr d | Inl (Fatal e) \<Rightarrow> Inl e
          | Inl Gone \<Rightarrow> Inl (Transient ''s3 multipart uploadId disappeared during a fresh upload'')))"
    by (intro ext) (simp add: wp_ok_err split: sum.split mpu_error.split)
  show ?thesis
    unfolding fresh_multipart_def create_mpu_def Let_def wp_try wp_bnd wp_requests ends
  proof (rule wp_conseq [OF create], goal_cases)
    case (1 r w1)
    then have w1: "advances w w1" "checkpoint_sound it w1" "s3_row it w1 = s3_row it w"
      using checkpoint_after [OF sound] by (auto simp: moved_def)
    show ?case
    proof (cases "\<exists>u. r = Inr (Some u)")
      case True
      then obtain u where u: "r = Inr (Some u)" by auto
      show ?thesis
        unfolding u sum.case option.case wp_seqn wp_ok_err
        by (rule go [OF w1(1,2)]) (use 1 u w1(3) in auto)
    next
      case False
      then show ?thesis using w1 by (auto simp: wp_ok_err split: sum.split option.split)
    qed
  next
    case (2 w1)
    then show ?case using checkpoint_after [OF sound] by blast
  qed
qed

text \<open>
  The one case in which a delivery is not proved exact: a checkpoint was taken up, its upload
  was gone, and an object of the right size already was at the key.
\<close>

definition taken_for_delivered :: "s3_dest \<Rightarrow> string \<Rightarrow> bytes \<Rightarrow> delivered \<Rightarrow> world \<Rightarrow> bool" where
  "taken_for_delivered S key c d w =
     (dl_bytes d = of_nat (length c)
      \<and> (\<exists>ob. w_remote w (sd_bucket S) key = Some ob \<and> (of_nat (length ob) :: u64) = of_nat (length c)))"

definition multipart_outcome ::
  "s3_dest \<Rightarrow> work_item \<Rightarrow> string \<Rightarrow> bytes \<Rightarrow> bool \<Rightarrow> delivered res \<Rightarrow> world \<Rightarrow> bool" where
  "multipart_outcome S it key c resumed r w =
     (\<forall>d. r = Inr d \<longrightarrow> delivered_exactly S it key c d w \<or> resumed \<and> taken_for_delivered S key c d w)"

lemma token_matches_for: "token_matches t key ps (of_nat (length c)) m \<Longrightarrow> token_for t c m ps"
  by (simp add: token_matches_def token_for_def)

lemma reusable_inv:
  assumes "reusable_token resume key ps n m = Some t" "checkpoint_sound it w" "resume = s3_row it w \<or> resume = None"
  shows "attempt_inv it t w" "token_matches t key ps n m" "resume \<noteq> None"
proof -
  obtain rs where rs: "resume = Some rs" "token_from_resume rs = Some t" and m: "token_matches t key ps n m"
    using assms(1) by (cases resume) (auto simp: reusable_token_def split: option.splits if_splits)
  then have "s3_row it w = Some rs" using assms(3) by simp
  then show "attempt_inv it t w" using assms(2) rs(2) by (simp add: attempt_inv_def checkpoint_sound_def)
  show "token_matches t key ps n m" "resume \<noteq> None" using rs m by simp_all
qed

lemma row_cleared: "load_resume i r t (clear_resume i r t d) = None"
  by (auto simp: load_resume_def clear_resume_def t_find_def t_delete_def resume_key_def find_None_iff)

lemma put_multipart_wp:
  assumes service: "s3_service it (sd_client S)" and prog: "\<And>n. frames (quiet_reader it) (progress n)"
    and order: "fair_order S" and start: "multipart_start S it c m ps np w0" and adv0: "advances w0 w"
    and sound: "checkpoint_sound it w" and resume: "resume = s3_row it w \<or> resume = None"
  shows "wp (put_multipart S it key (of_nat (length c)) ps np m resume progress)
    (\<lambda>r w'. advances w w' \<and> checkpoint_sound it w' \<and> multipart_outcome S it key c (resume \<noteq> None) r w')
    (\<lambda>w'. advances w w' \<and> checkpoint_sound it w') w"
proof (cases "reusable_token resume key ps (of_nat (length c)) m")
  case None
  show ?thesis
    unfolding put_multipart_def None option.case
    by (rule wp_conseq [OF fresh_wp [OF service prog order start adv0 sound]]) (auto simp: multipart_outcome_def)
next
  case (Some t)
  note t = reusable_inv [OF Some sound resume]
  let ?Q = "\<lambda>r w'. advances w w' \<and> checkpoint_sound it w' \<and> multipart_outcome S it key c (resume \<noteq> None) r w'"
  let ?C = "\<lambda>w'. advances w w' \<and> checkpoint_sound it w'"
  note resumed = t(3)
  have fresh: "wp (fresh_multipart S it key (of_nat (length c)) ps np m progress) ?Q ?C w2"
    if w2: "advances w w2" "checkpoint_sound it w2" for w2
    by (rule wp_conseq [OF fresh_wp [OF service prog order start advances_trans [OF adv0 w2(1)] w2(2)]])
      (auto simp: multipart_outcome_def intro: advances_trans [OF w2(1)])
  have gone: "wp (recover_completed_object S key (of_nat (length c)))
      (\<lambda>r. case r of Inl e \<Rightarrow> ?Q (Inl e)
        | Inr live \<Rightarrow> wp (case live of None \<Rightarrow> seqn (clear_token S it) (fresh_multipart S it key (of_nat (length c)) ps np m progress)
            | Some d \<Rightarrow> ok d) ?Q ?C) ?C w1"
    if w1: "advances w w1" "checkpoint_sound it w1" for w1
  proof -
    note head = service [unfolded s3_service_def head_law_def, THEN conjunct2, THEN conjunct2, THEN conjunct2,
        THEN conjunct2, THEN conjunct1, rule_format, of "sd_bucket S" key True w1]
    have clear: "wp (clear_token S it) (\<lambda>_. wp (fresh_multipart S it key (of_nat (length c)) ps np m progress) ?Q ?C) ?C w2"
      if w2: "advances w w2" "checkpoint_sound it w2" for w2
    proof (rule wp_clear_token)
      let ?w = "\<lambda>fs. w2\<lparr>w_fate := fs, w_db := clear_resume (wi_instance it) (wi_relpath it) ''s3'' (w_db w2)\<rparr>"
      have "s3_row it (?w fs) = None" for fs by (simp add: s3_row_def row_cleared)
      then show "wp (fresh_multipart S it key (of_nat (length c)) ps np m progress) ?Q ?C (?w fs)" for fs
        by (intro fresh) (use w2 in \<open>auto simp: checkpoint_sound_def\<close>)
      show "wp (fresh_multipart S it key (of_nat (length c)) ps np m progress) ?Q ?C (w2\<lparr>w_fate := fs\<rparr>)" for fs
        by (rule fresh) (use w2 in simp_all)
      show "advances w (w2\<lparr>w_fate := fs\<rparr>) \<and> checkpoint_sound it (w2\<lparr>w_fate := fs\<rparr>)" for fs using w2 by simp
    qed
    show ?thesis
      unfolding recover_completed_object_def Let_def wp_bnd
    proof (rule wp_conseq [OF head], goal_cases)
      case (1 r w2)
      then have w2: "advances w w2" "checkpoint_sound it w2"
        using checkpoint_after [OF w1(2)] advances_trans [OF w1(1)] by blast+
      have live: "taken_for_delivered S key c d w2"
        if "r = Inr (Some n, cks)" "0 \<le> n" "i64_as_u64 n = of_nat (length c)" "dl_bytes d = of_nat (length c)" for n cks d
      proof -
        note r = that(1)
        obtain ob where "w_remote w2 (sd_bucket S) key = Some ob" "n = int (length ob)"
          using 1 r by blast
        then show ?thesis using that by (simp add: taken_for_delivered_def i64_as_u64_def)
      qed
      show ?case
        using w2 clear [OF w2] live resumed
        by (auto simp: wp_ok_err wp_seqn multipart_outcome_def split: sum.split option.split)
    next
      case (2 w2)
      then show ?case using checkpoint_after [OF w1(2)] advances_trans [OF w1(1)] by blast
    qed
  qed
  show ?thesis
    unfolding put_multipart_def Some option.case wp_bnd
  proof (rule wp_conseq [OF attempt_wp [OF service prog order start adv0 token_matches_for [OF t(2)] t(1)]], goal_cases)
    case (1 r w1)
    show ?case
    proof (cases "r = Inl Gone")
      case True
      show ?thesis
        unfolding True sum.case mpu_error.case wp_try by (rule gone) (use 1 in auto)
    next
      case False
      then show ?thesis
        using 1 by (auto simp: wp_ok_err multipart_outcome_def split: sum.split mpu_error.split)
    qed
  qed
qed

section \<open>The whole delivery\<close>

lemma put_single_wp:
  assumes service: "s3_service it (sd_client S)" and prog: "\<And>n. frames (quiet_reader it) (progress n)"
    and w0: "w_files w0 (wi_abs_source it) = Some c" "w_mtime w0 (wi_abs_source it) = m" "length c < 2 ^ 64"
    and adv0: "advances w0 w" and sound: "checkpoint_sound it w"
  shows "wp (put_single S it key (of_nat (length c)) m progress)
    (\<lambda>r w'. advances w w' \<and> checkpoint_sound it w' \<and> (\<forall>d. r = Inr d \<longrightarrow> delivered_exactly S it key c d w'))
    (\<lambda>w'. advances w w' \<and> checkpoint_sound it w') w"
proof -
  let ?src = "wi_abs_source it" and ?n = "of_nat (length c) :: u64"
  let ?body = "range_body ?src 0 ?n (report_sent progress ?n)"
  have body: "frames (quiet_reader it) ?body" by (rule reader_order.R_range_body [OF prog])
  note put = service [unfolded s3_service_def put_law_def, THEN conjunct1, rule_format, OF body, of "sd_bucket S" key
      "sd_algo S" "s3_options_of S" "sd_unsigned_payload S" "w\<lparr>w_sent := 0\<rparr>"]
  have len: "unat ?n = length c" using w0(3) by (simp add: unat_of_nat take_bit_nat_eq_self)
  show ?thesis
    unfolding put_single_def wp_seqn wp_set_sent wp_try wp_requests
  proof (rule wp_conseq [OF put], goal_cases)
    case (1 r w1)
    then have w1: "advances w w1" "checkpoint_sound it w1"
      using checkpoint_after [of it "w\<lparr>w_sent := 0\<rparr>" w1] sound by auto
    show ?case
    proof (cases r)
      case (Inr cks)
      obtain sent where sent: "body_ran ?body (w\<lparr>w_sent := 0\<rparr>) sent w1" "w_remote w1 (sd_bucket S) key = Some sent"
        using 1 Inr by auto
      have exact: "sent = c \<and> w_files w1 ?src = Some c" if same: "\<not> source_changed ?n m n (w_mtime w1 ?src)" for n
      proof -
        have c1: "w_files w1 ?src = Some c" and m1: "w_mtime w1 ?src = w_mtime w0 ?src"
          using unchanged_source [OF advances_trans [OF adv0 w1(1)] w0(1,2) same] by simp_all
        obtain v v' where v: "advances w v" "advances v w1" "?body v = (Some (Inr sent), v')"
          using sent(1) by (auto simp: body_ran_def)
        have "w_files v ?src = Some c"
          using advances_between(2) [OF advances_trans [OF adv0 v(1)] v(2) m1] w0(1) by simp
        then show ?thesis using range_body_sent [OF v(3)] len c1 by auto
      qed
      show ?thesis
        unfolding Inr sum.case wp_try wp_map_err
        by (rule wp_metadata) (use w1 exact sent(2) in \<open>auto simp: wp_ok_err delivered_exactly_def\<close>)
    qed (use w1 in auto)
  next
    case (2 w1)
    then show ?case using checkpoint_after [of it "w\<lparr>w_sent := 0\<rparr>" w1] sound by auto
  qed
qed

lemma s3_deliver_wp:
  assumes service: "s3_service it (sd_client S)" and prog: "\<And>n. frames (quiet_reader it) (progress n)"
    and order: "fair_order S" and params: "sd_multipart S = multipart_resolve cfg"
    and c: "w_files w (wi_abs_source it) = Some c" "length c \<le> 10000 * 5368709120"
    and i64: "in_i64 (w_mtime w (wi_abs_source it))"
    and sound: "checkpoint_sound it w" and resume: "resume = s3_row it w \<or> resume = None"
  shows "wp (s3_deliver S it resume progress)
    (\<lambda>r w'. advances w w' \<and> checkpoint_sound it w'
       \<and> multipart_outcome S it (object_key (sd_prefix S) (wi_relpath it)) c (resume \<noteq> None) r w')
    (\<lambda>w'. advances w w' \<and> checkpoint_sound it w') w"
  unfolding s3_deliver_def Let_def wp_try wp_map_err
proof (rule wp_metadata, goal_cases)
  case (1 fs c')
  let ?m = "w_mtime w (wi_abs_source it)" and ?key = "object_key (sd_prefix S) (wi_relpath it)" and ?w = "w\<lparr>w_fate := fs\<rparr>"
  have c': "c' = c" using 1 c(1) by simp
  have w0: "advances w ?w" "checkpoint_sound it ?w" "s3_row it ?w = s3_row it w" using sound by simp_all
  show ?case
  proof (cases "plan_upload (of_nat (length c)) (sd_multipart S)")
    case USingle
    then show ?thesis
      unfolding c' sum.case prod.case USingle upload_plan.case
      by (intro wp_conseq [OF put_single_wp [OF service prog c(1) refl _ w0(1,2)]])
        (use c(2) in \<open>auto simp: multipart_outcome_def\<close>)
  next
    case (UMultipart ps np)
    then have start: "multipart_start S it c ?m ps np w" using c i64 params by (auto simp: multipart_start_def)
    show ?thesis
      unfolding c' sum.case prod.case UMultipart upload_plan.case
      by (rule wp_conseq [OF put_multipart_wp [OF service prog order start w0(1,2)]]) (use resume in auto)
  qed
qed (use sound in \<open>auto simp: multipart_outcome_def\<close>)

end
