(* ===== verification/S3_Properties.thy ===== *)
theory S3_Properties
  imports S3_Delivery Worker_Properties
begin

text \<open>
  The properties of the S3 destination: the delivery theorem, its composition with the
  worker's step for one destination, and the concrete runs that show where the recovery of a
  lost answer and the label of the checkpoint go wrong. An in-memory service instantiates the
  laws of the service.
\<close>

section \<open>An in-memory service\<close>

definition no_such_upload :: s3_error where
  "no_such_upload = \<lparr>se_code = Some ''NoSuchUpload'', se_status = Some 404, se_transport = False\<rparr>"

definition mem_store :: "string \<Rightarrow> string \<Rightarrow> bytes \<Rightarrow> world \<Rightarrow> world" where
  "mem_store b k x w = w\<lparr>w_remote := (w_remote w)(b := (w_remote w b)(k := Some x))\<rparr>"

definition mem_part :: "string \<Rightarrow> u32 \<Rightarrow> (string \<times> bytes) option \<Rightarrow> world \<Rightarrow> world" where
  "mem_part u n x w = w\<lparr>w_uploads := (w_uploads w)(u := (w_uploads w u)(n := x))\<rparr>"

definition mem_drop :: "string \<Rightarrow> world \<Rightarrow> world" where
  "mem_drop u w = w\<lparr>w_uploads := (w_uploads w)(u := (\<lambda>_. None))\<rparr>"

definition new_id :: "work_item \<Rightarrow> world \<Rightarrow> string" where
  "new_id it w = (case Option.bind (s3_row it w) token_from_resume of
     None \<Rightarrow> ''u'' | Some t \<Rightarrow> CHR ''u'' # tk_upload_id t)"

definition run_body :: "s3_body \<Rightarrow> (bytes \<Rightarrow> world \<Rightarrow> 'a \<times> world) \<Rightarrow> (s3_error + 'a) act" where
  "run_body body f w = (case body w of
     (None, w') \<Rightarrow> (None, w')
   | (Some (Inl e), w') \<Rightarrow> (Some (Inl \<lparr>se_code = None, se_status = None, se_transport = True\<rparr>), w')
   | (Some (Inr sent), w') \<Rightarrow> (case f sent w' of (x, w'') \<Rightarrow> (Some (Inr x), w'')))"

definition mem_s3 :: "work_item \<Rightarrow> s3_api" where
  "mem_s3 it =
     \<lparr>sa_put = (\<lambda>b k a opt u body. run_body body (\<lambda>x w. ((None, None), mem_store b k x w))),
      sa_create = (\<lambda>b k a opt w. (Some (Inr (Some (new_id it w))), mem_drop (new_id it w) w)),
      sa_upload_part = (\<lambda>b k u n a body. run_body body (\<lambda>x w. ((Some ''e'', None, None), mem_part u n (Some (''e'', x)) w))),
      sa_complete = (\<lambda>b k u ps w.
        if \<forall>p\<in>set ps. \<exists>x. w_uploads w u (cp_number p) = Some (cp_e_tag p, x)
        then (Some (Inr (None, None)),
              mem_drop u (mem_store b k (concat (List.map (\<lambda>p. snd (the (w_uploads w u (cp_number p)))) ps)) w))
        else (Some (Inl no_such_upload), w)),
      sa_abort = (\<lambda>b k u w. (Some (Inr ()), mem_drop u w)),
      sa_head = (\<lambda>b k c w. (Some (case w_remote w b k of
          None \<Rightarrow> Inl \<lparr>se_code = None, se_status = Some 404, se_transport = False\<rparr>
        | Some ob \<Rightarrow> Inr (Some (int (length ob)), Some (List.map (\<lambda>x. char_of (unat x)) ob), None)), w))\<rparr>"

lemma mem_upd [simp]:
  "moved it w (mem_store b k x w') = moved it w w'" "moved it w (mem_part u n y w') = moved it w w'"
  "moved it w (mem_drop u w') = moved it w w'" "parts_le w (mem_store b k x w') = parts_le w w'"
  "s3_row it (mem_drop u w) = s3_row it w" "w_remote (mem_drop u w) = w_remote w"
  "w_remote (mem_store b k x w) b k = Some x" "w_uploads (mem_store b k x w) = w_uploads w"
  "body_ran body w a (mem_store b k x w') = body_ran body w a w'"
  "body_ran body w a (mem_part u n z w') = body_ran body w a w'"
  "w_uploads (mem_part u n z w) = (w_uploads w)(u := (w_uploads w u)(n := z))"
  by (simp_all add: mem_store_def mem_part_def mem_drop_def moved_def parts_le_def body_ran_def advances_def)

lemma parts_le_refl [simp]: "parts_le w w"
  by (simp add: parts_le_def)

lemma parts_le_drop: "parts_le w w' \<Longrightarrow> parts_le w (mem_drop u w')"
  by (auto simp: parts_le_def mem_drop_def)

lemma wp_run_body:
  assumes body: "frames (quiet_reader it) body"
    and stop: "\<And>w'. quiet_reader it w w' \<Longrightarrow> C w'"
    and fail: "\<And>e w'. quiet_reader it w w' \<Longrightarrow> Q (Inl e) w'"
    and ran: "\<And>x w'. quiet_reader it w w' \<Longrightarrow> body_ran body w x w' \<Longrightarrow> (case f x w' of (y, w'') \<Rightarrow> Q (Inr y) w'')"
  shows "wp (run_body body f) Q C w"
proof -
  note q = framesD [OF body, of w, unfolded wp_def]
  show ?thesis
  proof (cases "body w")
    case (Pair r w')
    have m: "quiet_reader it w w'" using q Pair by (cases r) auto
    show ?thesis
    proof (cases r)
      case None
      then show ?thesis using Pair stop [OF m] by (simp add: wp_def run_body_def)
    next
      case (Some y)
      show ?thesis
      proof (cases y)
        case (Inl e)
        then show ?thesis using Pair Some fail [OF m] by (simp add: wp_def run_body_def)
      next
        case (Inr x)
        have "body_ran body w x w'"
          unfolding body_ran_def
          by (rule exI [of _ w], rule exI [of _ w']) (use Pair Some Inr m in \<open>simp add: quiet_reader_def moved_def\<close>)
        from ran [OF m this] show ?thesis
          using Pair Some Inr by (simp add: wp_def run_body_def split_beta)
      qed
    qed
  qed
qed

lemma mem_s3_service: "s3_service it (mem_s3 it)"
proof -
  have quiet: "moved it w w' \<and> parts_le w w' \<and> w_uploads w' = w_uploads w" if "quiet_reader it w w'" for w w'
    using that by (auto simp: quiet_reader_def parts_le_def)
  have "put_law it (mem_s3 it)"
    unfolding put_law_def mem_s3_def s3_api.simps
    by (intro allI impI wp_run_body) (auto dest: quiet)
  moreover have "part_law it (mem_s3 it)"
    unfolding part_law_def mem_s3_def s3_api.simps Let_def
    by (intro allI impI wp_run_body) (auto dest: quiet split: if_splits)
  moreover have "create_law it (mem_s3 it)"
    unfolding create_law_def mem_s3_def s3_api.simps wp_def
    by (auto simp: new_id_def intro: parts_le_drop split: option.splits)
  moreover have "complete_law it (mem_s3 it)"
  proof -
    have bs: "list_all2 (\<lambda>p y. w_uploads w u (cp_number p) = Some (cp_e_tag p, y)) ps
        (List.map (\<lambda>p. snd (the (w_uploads w u (cp_number p)))) ps)"
      if "\<forall>p\<in>set ps. \<exists>x. w_uploads w u (cp_number p) = Some (cp_e_tag p, x)" for w u ps
      using that by (auto simp: list_all2_map2 list.rel_refl_strong intro!: list.rel_refl_strong)
    show ?thesis
      unfolding complete_law_def mem_s3_def s3_api.simps wp_def
      by (auto intro: parts_le_drop bs simp: parts_le_refl)
  qed
  moreover have "head_law it (mem_s3 it)"
    unfolding head_law_def mem_s3_def s3_api.simps wp_def
    by (auto simp: parts_le_def split: option.splits)
  moreover have "abort_law it (mem_s3 it)"
    unfolding abort_law_def mem_s3_def s3_api.simps wp_def
    by (auto intro: parts_le_drop)
  ultimately show ?thesis by (simp add: s3_service_def)
qed

section \<open>A delivery is exact\<close>

lemma quiet_persist: "frames (quiet_reader it) (persist_progress inst rel now n)"
proof -
  have row: "s3_row it (w\<lparr>w_db := set_bytes_done inst rel n now d\<rparr>) = s3_row it (w\<lparr>w_db := d\<rparr>)" for w d n
    by (simp add: s3_row_def load_resume_def set_bytes_done_def update_item_def)
  have dbw: "frames (quiet_reader it) (db_write (set_bytes_done inst rel n now))"
    unfolding db_write_def
    by (rule framesI, rule wp_effect)
      (use row in \<open>auto simp: quiet_reader_def moved_def\<close>)
  have "frames (quiet_reader it) (set_last_progress n)" for n
    by (rule framesI) (auto simp: wp_def set_last_progress_def quiet_reader_def moved_def advances_def s3_row_def)
  then show ?thesis
    unfolding persist_progress_def
    by (intro reader_order.R_bnd reader_order.R_get)
      (auto intro!: reader_order.R_seqn reader_order.R_ret dbw)
qed


definition ex_s3 :: "s3_api \<Rightarrow> s3_dest" where
  "ex_s3 A =
     \<lparr>sd_bucket = ''b'', sd_prefix = ''p'', sd_algo = AlgCrc32c, sd_storage_class = None, sd_sse = None,
      sd_kms_key_id = None, sd_unsigned_payload = False,
      sd_multipart = multipart_resolve \<lparr>mc_threshold_bytes = Some 0, mc_part_size_bytes = None, mc_max_concurrent_parts = None\<rparr>,
      sd_client_params = \<lparr>sp_region = None, sp_endpoint_url = None, sp_force_path_style = False, sp_accelerate = False\<rparr>,
      sd_creds = Ambient, sd_store = True, sd_client = A, sd_order = (\<lambda>ns. ns)\<rparr>"

definition ex_s3_item :: work_item where
  "ex_s3_item = ex_item"

text \<open>The parts of the example: one part of three bytes, under the 16 MiB part size.\<close>

lemma ex_plan: "plan_upload 3 (sd_multipart (ex_s3 A)) = UMultipart 16777216 1"
  by (simp add: ex_s3_def plan_upload_def multipart_resolve_def word_clamp_def word_div_ceil_def s3_default_part_def
      s3_min_part_def s3_max_part_def s3_max_parts_def mib_def Let_def)


lemma ex_read_chunks: "read_chunks [a, b, c] = [[a, b, c]]"
  by (subst read_chunks.simps, simp, subst read_chunks.simps, simp)

lemma ex_key: "object_key (sd_prefix (ex_s3 A)) (wi_relpath ex_item) = ''p/a.csv''"
  by (simp add: ex_s3_def ex_item_def object_key_def trim_slashes_def)

lemma ex_body:
  "range_body [''in'', ''a.csv''] (part_offset 1 16777216) (part_len 1 16777216 1 3) (report_sent (\<lambda>_. ret ()) 3) w
    = (case w_files w [''in'', ''a.csv''] of
        Some [x, y, z] \<Rightarrow> (Some (Inr [x, y, z]), w\<lparr>w_sent := w_sent w + 3\<rparr>) | _ \<Rightarrow> undefined)"
  if "w_fate w = []" "w_files w [''in'', ''a.csv''] = Some [x, y, z]"
  using that
  by (simp add: range_body_def bnd_def fs_open_def effect_def next_fate_def part_offset_def part_len_def Let_def
      ex_read_chunks report_sent_def fs_touch_def ret_def seqn_def get_world_def set_sent_def)


lemma ex_metadata: "w_fate w = [] \<Longrightarrow> w_files w p = Some c \<Longrightarrow> fs_metadata p w = (Some (Inr (of_nat (length c), w_mtime w p)), w)"
  by (simp add: fs_metadata_def effect_def next_fate_def)

lemma ex_save: "w_fate w = [] \<Longrightarrow> save_token (ex_s3 A) it t np n w
    = (Some (), w\<lparr>w_db := save_resume (wi_instance it) (wi_relpath it) ''s3'' (token_to_resume t np n) (w_db w)\<rparr>)"
  by (simp add: save_token_def ex_s3_def seqn_def bnd_def db_write_def effect_def next_fate_def ret_def)

lemma ex_no_row: "s3_row ex_item (ex_tracked fs) = None"
  by (simp add: s3_row_def ex_item_def ex_tracked_def store_view upsert_ready_def Let_def open_in_memory_def
      clear_resume_all_def clear_dest_states_def t_delete_def load_resume_def t_find_def set_state_def update_item_def)

lemma ex_missing: "missing_parts 1 [] = [1]"
  by (simp add: missing_parts_def part_numbers_def)

lemma ex_world_simps [simp]: "w_fate (ex_tracked fs) = fs" "w_mtime (ex_tracked fs) p = 0"
  by (simp_all add: ex_tracked_def ex_world_def)

lemma ex_s3_simps [simp]:
  "sd_client (ex_s3 A) = A" "sd_order (ex_s3 A) = (\<lambda>ns. ns)" "sd_algo (ex_s3 A) = AlgCrc32c" "sd_bucket (ex_s3 A) = ''b''"
  "wi_abs_source ex_item = [''in'', ''a.csv'']"
  by (simp_all add: ex_s3_def ex_item_def)

lemma mem_s3_simps:
  "sa_create (mem_s3 it) b k a opt w = (Some (Inr (Some (new_id it w))), mem_drop (new_id it w) w)"
  "sa_upload_part (mem_s3 it) b k u n a body = run_body body (\<lambda>x w. ((Some ''e'', None, None), mem_part u n (Some (''e'', x)) w))"
  "sa_head (mem_s3 it) b k c w = (Some (case w_remote w b k of
          None \<Rightarrow> Inl \<lparr>se_code = None, se_status = Some 404, se_transport = False\<rparr>
        | Some ob \<Rightarrow> Inr (Some (int (length ob)), Some (List.map (\<lambda>x. char_of (unat x)) ob), None)), w)"
  by (simp_all add: mem_s3_def)

lemma mem_s3_complete:
  assumes "w_uploads w u 1 = Some (''e'', x)"
  shows "sa_complete (mem_s3 it) b k u [\<lparr>cp_number = 1, cp_e_tag = ''e'', cp_checksum = c\<rparr>] w
    = (Some (Inr (None, None)), mem_drop u (mem_store b k x w))"
  using assms by (simp add: mem_s3_def)

text \<open>One part of the example, uploaded and completed.\<close>

abbreviation ex_token :: "string \<Rightarrow> i64 \<Rightarrow> s3_resume_token" where
  "ex_token u m \<equiv> \<lparr>tk_upload_id = u, tk_key = ''p/a.csv'', tk_part_size = 16777216, tk_total_size = 3, tk_mtime_ms = m,
     tk_completed = []\<rparr>"

lemma ex_upload:
  assumes w: "w_fate w = []" "w_files w [''in'', ''a.csv''] = Some [x, y, z]"
  shows "\<exists>d. upload_one (ex_s3 (mem_s3 it)) ex_item 1 (\<lambda>_. ret ()) 1 (ex_token u m) w
    = (Some (Inr ((ex_token u m)\<lparr>tk_completed := [\<lparr>cp_number = 1, cp_e_tag = ''e'', cp_checksum = None\<rparr>]\<rparr>)),
       (mem_part u 1 (Some (''e'', [x, y, z])) (w\<lparr>w_sent := w_sent w + 3\<rparr>))\<lparr>w_db := d\<rparr>)"
  using w
  by (simp add: upload_one_def try_mpu_def gone_or_fatal_def bnd_def mem_s3_simps run_body_def ex_body [OF w]
      response_checksum_def seqn_def ret_def ex_save Let_def mem_part_def)
    (rule exI, rule refl)

lemma ex_attempt:
  assumes w: "w_fate w = []" "w_files w [''in'', ''a.csv''] = Some [x, y, z]" "w_mtime w [''in'', ''a.csv''] = m"
  shows "\<exists>d w'. run_multipart_attempt (ex_s3 (mem_s3 it)) ex_item ''p/a.csv'' 3 1 m (ex_token u m) (\<lambda>_. ret ()) w
    = (Some (Inr d), w')"
proof -
  let ?w = "w\<lparr>w_sent := 0\<rparr>"
  have "w_fate ?w = []" "w_files ?w [''in'', ''a.csv''] = Some [x, y, z]" using w by simp_all
  from ex_upload [OF this, of it u m] obtain db where up:
    "upload_one (ex_s3 (mem_s3 it)) ex_item 1 (\<lambda>_. ret ()) 1 (ex_token u m) ?w
    = (Some (Inr ((ex_token u m)\<lparr>tk_completed := [\<lparr>cp_number = 1, cp_e_tag = ''e'', cp_checksum = None\<rparr>]\<rparr>)),
       (mem_part u 1 (Some (''e'', [x, y, z])) (?w\<lparr>w_sent := w_sent ?w + 3\<rparr>))\<lparr>w_db := db\<rparr>)" by blast
  show ?thesis
    using w
    by (simp add: run_multipart_attempt_def seqn_def bnd_def set_sent_def token_bytes_committed_def try_mpu_def ex_missing
        up gone_or_fatal_def ret_def)
      (subst mem_s3_complete [where x = "[x, y, z]"], simp add: mem_part_def,
       simp add: ret_def fatal_io_def bnd_def ex_metadata mem_part_def mem_drop_def mem_store_def source_changed_def)
qed

lemma ex_run:
  "\<exists>d w'. s3_deliver (ex_s3 (mem_s3 ex_item)) ex_item None (\<lambda>_. ret ()) (ex_tracked []) = (Some (Inr d), w')"
proof -
  obtain w1 where create: "create_mpu (ex_s3 (mem_s3 ex_item)) ex_item ''p/a.csv'' 16777216 1 3 0 (ex_tracked [])
      = (Some (Inr (ex_token ''u'' 0)), w1)"
    and w1: "w_fate w1 = []" "w_files w1 [''in'', ''a.csv''] = Some [1, 2, 3]" "w_mtime w1 [''in'', ''a.csv''] = 0"
    by (simp add: create_mpu_def try_act_def sdk_def bnd_def ret_def mem_s3_simps new_id_def ex_no_row seqn_def ex_save
        mem_drop_def ok_def ex_tracked_db Let_def)
  obtain d w' where run: "run_multipart_attempt (ex_s3 (mem_s3 ex_item)) ex_item ''p/a.csv'' 3 1 0 (ex_token ''u'' 0)
      (\<lambda>_. ret ()) w1 = (Some (Inr d), w')"
    using ex_attempt [OF w1] by blast
  show ?thesis
    by (simp add: s3_deliver_def try_act_def map_err_def bnd_def ret_def ex_metadata ex_tracked_db Let_def ex_plan ex_key
        put_multipart_def reusable_token_def fresh_multipart_def create run ok_def)
qed


section \<open>A lost upload and an older object\<close>

definition swept_s3 :: "work_item \<Rightarrow> s3_api" where
  "swept_s3 it = (mem_s3 it)\<lparr>sa_upload_part := (\<lambda>b k u n a body w. (Some (Inl no_such_upload), w))\<rparr>"

text \<open>An older object of the same length is at the key; the checkpoint is that of the current content.\<close>

definition ex_stale :: world where
  "ex_stale = mem_store ''b'' ''p/a.csv'' [9, 9, 9]
     ((ex_tracked [])\<lparr>w_db := save_resume ''i'' ''a.csv'' ''s3'' (token_to_resume (ex_token ''old'' 0) 1 3) (w_db (ex_tracked []))\<rparr>)"

lemma ex_stale_row: "s3_row ex_item ex_stale = Some (token_to_resume (ex_token ''old'' 0) 1 3)"
  by (simp add: ex_stale_def mem_store_def s3_row_def ex_item_def load_save_resume)

text \<open>
  C10. A rewritten file can be reported as delivered although only an older version of it is at
  the destination: the upload of the current content was interrupted and its id has been
  swept, an object of the same length, from an earlier delivery of the file, is at the key. The
  retry takes that object for its own completed upload; even the checksum verification
  accepts it, since the expected checksum is read from the object itself.
\<close>

theorem s3_recovery_accepts_older_object:
  "\<exists>d w'. deliver_and_verify (s3_destination (ex_s3 (swept_s3 ex_item))) ex_item (s3_row ex_item ex_stale) (\<lambda>_. ret ())
        VChecksum ex_stale = (Some (Inr d), w')
     \<and> w_files w' [''in'', ''a.csv''] = Some [1, 2, 3] \<and> w_remote w' ''b'' ''p/a.csv'' = Some [9, 9, 9]"
proof -
  let ?S = "ex_s3 (swept_s3 ex_item)"
  have w: "w_fate ex_stale = []" "w_files ex_stale [''in'', ''a.csv''] = Some [1, 2, 3]"
    "w_mtime ex_stale [''in'', ''a.csv''] = 0" "w_remote ex_stale ''b'' ''p/a.csv'' = Some [9, 9, 9]"
    by (simp_all add: ex_stale_def ex_tracked_db) (simp_all add: mem_store_def ex_tracked_db)
  have head: "sa_head (swept_s3 it) b k c w' = sa_head (mem_s3 it) b k c w'" for it b k c w'
    by (simp add: swept_s3_def)
  have reuse: "reusable_token (s3_row ex_item ex_stale) ''p/a.csv'' 16777216 3 0 = Some (ex_token ''old'' 0)"
    by (simp add: ex_stale_row reusable_token_def token_round_trip token_matches_def in_i64_def)
  have attempt: "run_multipart_attempt ?S ex_item ''p/a.csv'' 3 1 0 (ex_token ''old'' 0) (\<lambda>_. ret ()) ex_stale
      = (Some (Inl Gone), ex_stale\<lparr>w_sent := 0\<rparr>)"
    by (simp add: run_multipart_attempt_def seqn_def bnd_def set_sent_def token_bytes_committed_def try_mpu_def ex_missing
        upload_one_def Let_def gone_or_fatal_def swept_s3_def is_no_such_upload_def no_such_upload_def ret_def)
  have deliver: "s3_deliver ?S ex_item (s3_row ex_item ex_stale) (\<lambda>_. ret ()) ex_stale
      = (Some (Inr \<lparr>dl_bytes = 3, dl_checksum = NoChecksum, dl_handle = build_handle ''p/a.csv'' (Some (List.map (\<lambda>x. char_of (unat x)) [9, 9, 9 :: 8 word])) AlgCrc32c True\<rparr>),
         ex_stale\<lparr>w_sent := 0\<rparr>)"
    using w(4)
    by (simp add: s3_deliver_def try_act_def map_err_def bnd_def ret_def ex_metadata w Let_def ex_plan ex_key put_multipart_def
        reuse attempt recover_completed_object_def head mem_s3_simps i64_as_u64_def ok_def response_checksum_def)
  show ?thesis
    using w(2,4)
    by (simp add: deliver_and_verify_def s3_destination_def try_act_def bnd_def deliver s3_verify_def handle_key_def
        build_handle_def Let_def sdk_def head mem_s3_simps ret_def verify_size_def i64_as_u64_def handle_s3_checksum_def
        jopt_str_def ok_def response_checksum_def compare_object_checksum_def)
qed

section \<open>The worker's step on an S3 destination\<close>

definition held :: "work_item \<Rightarrow> ((string \<Rightarrow> string \<Rightarrow> bytes option) \<Rightarrow> bool) \<Rightarrow> world \<Rightarrow> bool" where
  "held it R w = (checkpoint_sound it w \<and> R (w_remote w))"

lemma held_upd [simp]:
  "held it R (w\<lparr>w_fate := x0\<rparr>) = held it R w" "held it R (w\<lparr>w_events := x1\<rparr>) = held it R w"
  "held it R (w\<lparr>w_rng := x2\<rparr>) = held it R w" "held it R (w\<lparr>w_perm := x3\<rparr>) = held it R w"
  "held it R (w\<lparr>w_last_progress := x4\<rparr>) = held it R w"
  by (simp_all add: held_def checkpoint_sound_def s3_row_def token_sound_def token_content_def)

lemma held_blind [simp]: "blind (held it R)"
  by (simp add: blind_def)

text \<open>A write to the database is harmless when the row stays, goes or is no upload's checkpoint.\<close>

lemma held_write:
  assumes "held it R w"
    and "\<And>rs. s3_row it (w\<lparr>w_db := d\<rparr>) = Some rs \<Longrightarrow> s3_row it w = Some rs \<or> token_from_resume rs = None"
  shows "held it R (w\<lparr>w_db := d\<rparr>)"
proof -
  have "token_sound it t w" if "s3_row it (w\<lparr>w_db := d\<rparr>) = Some rs" "token_from_resume rs = Some t" for rs t
    using assms(1) assms(2) [OF that(1)] that(2) by (auto simp: held_def checkpoint_sound_def)
  then show ?thesis using assms(1) by (simp add: held_def checkpoint_sound_def)
qed

lemma s3_row_ops:
  "s3_row it (w\<lparr>w_db := set_dest_phase i r t ph now d\<rparr>) = s3_row it (w\<lparr>w_db := d\<rparr>)"
  "s3_row it (w\<lparr>w_db := record_dest_attempt i r t e ph n now d\<rparr>) = s3_row it (w\<lparr>w_db := d\<rparr>)"
  by (simp_all add: s3_row_def load_resume_def set_dest_phase_def record_dest_attempt_def)

lemma find_filter_all: "(\<And>x. P x \<Longrightarrow> Q x) \<Longrightarrow> List.find P (filter Q xs) = List.find P xs"
  by (induction xs) auto

lemma load_after_clear:
  "load_resume i r t (clear_resume i' r' t' d) = (if (i, r, t) = (i', r', t') then None else load_resume i r t d)"
proof (cases "(i, r, t) = (i', r', t')")
  case False
  then have "List.find (\<lambda>x. resume_key x = (i, r, t)) (filter (\<lambda>x. \<not> (rr_instance x = i' \<and> rr_relpath x = r' \<and> rr_dest x = t')) (db_resume d))
      = List.find (\<lambda>x. resume_key x = (i, r, t)) (db_resume d)"
    by (intro find_filter_all) (auto simp: resume_key_def)
  then show ?thesis using False by (auto simp: load_resume_def clear_resume_def t_find_def t_delete_def)
qed (simp add: row_cleared)

lemma held_clear: "held it R w \<Longrightarrow> held it R (w\<lparr>w_db := clear_resume i r t (w_db w)\<rparr>)"
  by (rule held_write) (auto simp: s3_row_def load_after_clear split: if_splits)

lemma verified_is_no_token: "token_from_resume \<lparr>rs_bytes_committed = n, rs_token = JObj [(''verified'', j)]\<rparr> = None"
  by (simp add: token_from_resume_def)

lemma held_save:
  "held it R w \<Longrightarrow> held it R (w\<lparr>w_db := save_resume i r t \<lparr>rs_bytes_committed = n, rs_token = JObj [(''verified'', j)]\<rparr> (w_db w)\<rparr>)"
  by (rule held_write) (auto simp: s3_row_def load_save_resume verified_is_no_token split: if_splits)

lemma held_dest_ops:
  "held it R w \<Longrightarrow> held it R (w\<lparr>w_db := set_dest_phase i r t ph now (w_db w)\<rparr>)"
  "held it R w \<Longrightarrow> held it R (w\<lparr>w_db := record_dest_attempt i r t e ph n now (w_db w)\<rparr>)"
  by (rule held_write; simp add: s3_row_ops)+

lemmas held_keeps = keeps_seqn keeps_try keeps_bnd keeps_ret keeps_ok_err keeps_emit keeps_draw keeps_log_permission
  keeps_db_write [OF held_blind] keeps_db_read [OF held_blind] held_save held_dest_ops held_clear

lemma keeps_s3_success: "keeps (held it R) (dest_success W label item now dl)"
  unfolding dest_success_def save_verified_checkpoint_def Let_def by (intro held_keeps) simp_all

lemma keeps_s3_abort:
  assumes "s3_service it (sd_client S)"
  shows "keeps (held it (\<lambda>_. True)) (s3_abort S item rs)"
proof -
  have "keeps (held it (\<lambda>_. True)) (sa_abort (sd_client S) b k u)" for b k u
  proof (rule keepsI)
    fix w assume "held it (\<lambda>_. True) w"
    then have c: "checkpoint_sound it w" by (simp add: held_def)
    have "abort_law it (sd_client S)" using assms by (simp add: s3_service_def)
    from this [unfolded abort_law_def, rule_format, of b k u w]
    show "wp (sa_abort (sd_client S) b k u) (\<lambda>_. held it (\<lambda>_. True)) (held it (\<lambda>_. True)) w"
      by (rule wp_conseq) (use checkpoint_after [OF c] in \<open>auto simp: held_def\<close>)
  qed
  then show ?thesis
    unfolding s3_abort_def by (auto intro!: held_keeps split: option.split sum.split)
qed

lemma keeps_s3_failure:
  assumes "s3_service it (sd_client S)" "slot_dest s = s3_destination S"
  shows "keeps (held it (\<lambda>_. True)) (dest_failure W s item now n e)"
proof -
  have "keeps (held it (\<lambda>_. True)) (abort_and_clear_resume i l (slot_dest s) item)" for i l
    unfolding abort_and_clear_resume_def read_resume_def assms(2)
    by (auto intro!: held_keeps keeps_s3_abort [OF assms(1)] simp: s3_destination_def split: sum.split option.split)
  moreover have "keeps (held it (\<lambda>_. True)) (report_denied l e' now)" for l e'
    unfolding report_denied_def by (auto intro!: held_keeps)
  ultimately show ?thesis
    unfolding dest_failure_def Let_def
    by (intro held_keeps) (auto split: retry_decision.split intro!: held_keeps)
qed

text \<open>What the destination holds for the item once its step has verified it.\<close>

definition s3_holds :: "s3_dest \<Rightarrow> work_item \<Rightarrow> bytes \<Rightarrow> bool \<Rightarrow> (string \<Rightarrow> string \<Rightarrow> bytes option) \<Rightarrow> bool" where
  "s3_holds S it c resumed remote =
     (let key = object_key (sd_prefix S) (wi_relpath it) in
      remote (sd_bucket S) key = Some c
      \<or> resumed \<and> (\<exists>ob. remote (sd_bucket S) key = Some ob \<and> (of_nat (length ob) :: u64) = of_nat (length c)))"

lemma s3_verify_wp:
  assumes service: "s3_service it (sd_client S)" and w: "held it R w"
  shows "wp (s3_verify S item dl pol) (\<lambda>_. held it R) (checkpoint_sound it) w"
proof -
  have law: "head_law it (sd_client S)" using service by (simp add: s3_service_def)
  have "wp (sa_head (sd_client S) (sd_bucket S) k c) (\<lambda>_. held it R) (checkpoint_sound it) w" for k c
    by (rule wp_conseq [OF law [unfolded head_law_def, rule_format, of "sd_bucket S" k c w]])
      (use w checkpoint_after [of it w] in \<open>auto simp: held_def\<close>)
  then show ?thesis
    unfolding s3_verify_def Let_def wp_try wp_requests
    by (rule wp_conseq) (auto simp: wp_rules split: sum.split verify_policy.split)
qed

lemma wp_any: "(\<And>x w'. Q x w') \<Longrightarrow> (\<And>w'. C w') \<Longrightarrow> wp m Q C w"
  by (simp add: wp_def split: option.split prod.split)

lemma failure_not_verified:
  "wp (dest_failure W s it now n e) (\<lambda>r _. \<forall>l. r \<noteq> Inr (l, OVerified)) (\<lambda>_. True) w"
  unfolding dest_failure_def Let_def wp_seqn wp_bnd
  by (rule wp_any, rule wp_any)
    (auto simp: wp_try wp_seqn wp_ok_err split: retry_decision.split sum.split intro!: wp_any)

lemma run_one_s3_wp:
  assumes slot: "slot_label s = ''s3''" "slot_dest s = s3_destination S" and inst: "wi_instance it = wo_instance W"
    and service: "s3_service it (sd_client S)" and order: "fair_order S" and params: "sd_multipart S = multipart_resolve cfg"
    and c: "w_files w (wi_abs_source it) = Some c" "length c \<le> 10000 * 5368709120"
    and i64: "in_i64 (w_mtime w (wi_abs_source it))" and sound: "checkpoint_sound it w"
  shows "wp (run_one_dest W s it now n)
    (\<lambda>r w'. checkpoint_sound it w' \<and> (\<forall>l. r = Inr (l, OVerified) \<longrightarrow> s3_holds S it c (s3_row it w \<noteq> None) (w_remote w')))
    (checkpoint_sound it) w"
proof -
  obtain b where b: "(s3_row it w \<noteq> None) = b" by blast
  let ?Q = "\<lambda>r w'. checkpoint_sound it w' \<and> (\<forall>l. r = Inr (l, OVerified) \<longrightarrow> s3_holds S it c b (w_remote w'))"
  let ?C = "checkpoint_sound it" and ?R = "s3_holds S it c b"
  let ?progress = "\<lambda>m. seqn (persist_progress (wo_instance W) (wi_relpath it) now m) (ret ())"
  let ?w = "\<lambda>fs. w\<lparr>w_fate := fs, w_events := w_events w @ [ReplicationStarted (wi_relpath it) (wi_size it) ''s3'' (word_sat_add n 1)],
      w_last_progress := 0\<rparr>"
  have prog: "frames (quiet_reader it) (?progress m)" for m
    by (intro reader_order.R_seqn quiet_persist reader_order.R_ret)
  have row: "s3_row it (?w fs) = s3_row it w" for fs by (simp add: s3_row_def)
  have held0: "held it (\<lambda>_. True) (?w fs)" for fs using sound by (simp add: held_def [of it _ w])
  then have sound0: "checkpoint_sound it (?w fs)" for fs by (simp add: held_def)
  have success: "wp (dest_success W ''s3'' it now dl) ?Q ?C w1" if "held it ?R w1" for w1 dl
    by (rule wp_conseq [OF keepsD [OF keeps_s3_success that]]) (auto simp: held_def)
  have failure: "wp (dest_failure W s it now n e) ?Q ?C w1" if "checkpoint_sound it w1" for w1 e
  proof (rule wp_conj [THEN wp_conseq])
    show "wp (dest_failure W s it now n e) (\<lambda>_. held it (\<lambda>_. True)) (held it (\<lambda>_. True)) w1"
      by (rule keepsD [OF keeps_s3_failure [OF service slot(2)]]) (use that in \<open>simp add: held_def\<close>)
    show "wp (dest_failure W s it now n e) (\<lambda>r _. \<forall>l. r \<noteq> Inr (l, OVerified)) (\<lambda>_. True) w1"
      by (rule failure_not_verified)
  qed (auto simp: held_def)
  have deliver: "wp (deliver_and_verify (s3_destination S) it (s3_row it w) ?progress (co_verify (wo_completion W)))
      (\<lambda>out. wp (case out of Inl e \<Rightarrow> dest_failure W s it now n e | Inr dl \<Rightarrow> dest_success W ''s3'' it now dl) ?Q ?C) ?C (?w fs)" for fs
    unfolding deliver_and_verify_def wp_try s3_destination_def destination.simps
  proof (rule wp_conseq [OF s3_deliver_wp [OF service prog order params _ c(2) _ sound0]], goal_cases)
    case (4 r w1)
    show ?case
    proof (cases r)
      case (Inr dl)
      then have h: "held it ?R w1"
        using 4 b by (auto simp: held_def multipart_outcome_def s3_holds_def Let_def delivered_exactly_def taken_for_delivered_def)
      show ?thesis
        unfolding Inr sum.case
      proof (rule wp_conseq [OF s3_verify_wp [OF service h]], goal_cases)
        case (1 v w2)
        then have "checkpoint_sound it w2" by (simp add: held_def)
        then show ?case
          using failure success [OF 1] by (cases v) (simp_all add: wp_ok_err)
      qed
    qed (use 4 failure in auto)
  qed (use c i64 row in auto)
  show ?thesis
    unfolding run_one_dest_def Let_def slot wp_try b read_resume_def
    by (rule wp_db_read)
      (use deliver sound in \<open>auto simp: wp_seqn wp_emit wp_bnd wp_def [of "set_last_progress 0"] set_last_progress_def
         inst [symmetric] s3_row_def [symmetric]\<close>)
qed

text \<open>
  C9. The worker's step on its S3 destination: when it reports the item verified, the object at
  the item's key has the content the source had when the step began (or, when the step took
  up a checkpoint, at least its length), whatever faults, rewrites of the source and
  crashes happened on the way; and at every point the step can stop, also after the give-up
  that aborts an upload, the checkpoint left in the database is sound.
\<close>

theorem s3_step_holds:
  assumes "slot_label s = ''s3''" "slot_dest s = s3_destination S" "wi_instance it = wo_instance W"
    and "s3_service it (sd_client S)" "fair_order S" "sd_multipart S = multipart_resolve cfg"
    and "w_files w (wi_abs_source it) = Some c" "length c \<le> 10000 * 5368709120"
    and "in_i64 (w_mtime w (wi_abs_source it))" "checkpoint_sound it w"
    and "run_one_dest W s it now n w = (r, w')"
  shows "checkpoint_sound it w'
    \<and> (\<forall>l. r = Some (Inr (l, OVerified)) \<longrightarrow> s3_holds S it c (s3_row it w \<noteq> None) (w_remote w'))"
  using wp_run [OF run_one_s3_wp [OF assms(1-10)] assms(11)] by (cases r) auto

theorem s3_step_holds_witness:
  "\<exists>r w'. run_one_dest (ex_worker OnDelete) \<lparr>slot_label = ''s3'', slot_dest = s3_destination (ex_s3 (mem_s3 ex_item))\<rparr>
        ex_item 7 0 (ex_tracked [Fine, Fault enoent 0]) = (r, w')
     \<and> checkpoint_sound ex_item w'
     \<and> (\<forall>l. r = Some (Inr (l, OVerified)) \<longrightarrow> w_remote w' ''b'' ''p/a.csv'' = Some [1, 2, 3])"
proof -
  let ?S = "ex_s3 (mem_s3 ex_item)" and ?w = "ex_tracked [Fine, Fault enoent 0]"
  let ?s = "\<lparr>slot_label = ''s3'', slot_dest = s3_destination ?S\<rparr>"
  obtain r w' where run: "run_one_dest (ex_worker OnDelete) ?s ex_item 7 0 ?w = (r, w')" by force
  have "s3_service ex_item (sd_client ?S)" using mem_s3_service by simp
  moreover have "fair_order ?S" by (simp add: fair_order_def)
  moreover have "sd_multipart ?S = multipart_resolve
      \<lparr>mc_threshold_bytes = Some 0, mc_part_size_bytes = None, mc_max_concurrent_parts = None\<rparr>" by (simp add: ex_s3_def)
  moreover have "w_files ?w (wi_abs_source ex_item) = Some [1, 2, 3]" by (simp add: ex_tracked_db)
  moreover have "checkpoint_sound ex_item ?w" by (simp add: checkpoint_sound_def ex_no_row)
  moreover have "wi_instance ex_item = wo_instance (ex_worker OnDelete)"
    by (simp add: ex_item_def ex_worker_def ex_deployment_def)
  ultimately have "checkpoint_sound ex_item w' \<and> (\<forall>l. r = Some (Inr (l, OVerified)) \<longrightarrow>
      s3_holds ?S ex_item [1, 2, 3] (s3_row ex_item ?w \<noteq> None) (w_remote w'))"
    using s3_step_holds [OF _ _ _ _ _ _ _ _ _ _ run] by (simp add: in_i64_def)
  then show ?thesis using run ex_key by (auto simp: s3_holds_def Let_def ex_no_row)
qed

section \<open>The label of the checkpoint\<close>

lemma save_token_other_label:
  "l \<noteq> ''s3'' \<Longrightarrow> load_resume i r l (w_db (snd (save_token S it t np n w))) = load_resume i r l (w_db w)"
  by (auto simp: save_token_def seqn_def bnd_def ret_def db_write_def effect_def next_fate_def load_save_resume
      split: list.split fate.split prod.split)

text \<open>
  An instance with two S3 destinations never resumes or aborts a multipart upload of theirs:
  their slots are labelled s3#1 and s3#2, the worker reads and clears checkpoints under
  these labels, but the destination saves its own under the bare kind, so what the worker
  reads for the slot is the same before and after a checkpoint is saved, whatever it was.
\<close>

theorem s3_checkpoint_never_found:
  "label_destinations [s3_destination A, s3_destination B] = [''s3#1'', ''s3#2'']
   \<and> load_resume i r ''s3#1'' (w_db (snd (save_token A it t np n w))) = load_resume i r ''s3#1'' (w_db w)
   \<and> load_resume i r ''s3#2'' (w_db (snd (save_token B it t np n w))) = load_resume i r ''s3#2'' (w_db w)"
proof (intro conjI save_token_other_label)
  show "label_destinations [s3_destination A, s3_destination B] = [''s3#1'', ''s3#2'']"
    by (simp add: label_destinations_def Let_def s3_destination_def show_nat.simps digit_char_def) code_simp
qed simp_all

section \<open>Object keys\<close>

lemma str_join_nil: "[] \<notin> set xs \<Longrightarrow> str_join sep xs = [] \<longleftrightarrow> xs = []"
  by (induction sep xs rule: str_join.induct) auto

text \<open>
  Object keys preserve the source tree: a file found below the ingress root is stored under
  the normalised prefix followed by its relative path, so no two files share an object, and
  no relative path, whatever it contains, leads out of the prefix.
\<close>

theorem object_key_exact:
  assumes "normal_rel a" "normal_rel b"
  shows "object_key p a = (if trim_slashes p = [] then a else trim_slashes p @ ''/'' @ a)
    \<and> (object_key p a = object_key p b \<longleftrightarrow> a = b)
    \<and> (\<exists>segs. object_key p rel = (if trim_slashes p = [] then str_join ''/'' segs
          else if segs = [] then trim_slashes p else trim_slashes p @ ''/'' @ str_join ''/'' segs)
        \<and> list_all (\<lambda>s. s \<noteq> [] \<and> s \<noteq> ''.'' \<and> s \<noteq> ''..'' \<and> CHR ''/'' \<notin> set s) segs)"
proof -
  have key: "object_key p x = (if trim_slashes p = [] then x else trim_slashes p @ ''/'' @ x)" if "normal_rel x" for x
  proof -
    have "filter (\<lambda>s. s \<noteq> [] \<and> s \<noteq> ''.'' \<and> s \<noteq> ''..'') (str_split (CHR ''/'') x) = str_split (CHR ''/'') x"
      by (rule filter_True) (rule that [unfolded normal_rel_def])
    moreover have "x \<noteq> []" using that by (cases x) (simp_all add: normal_rel_def)
    ultimately show ?thesis by (simp only: object_key_def Let_def str_split_join) simp
  qed
  let ?segs = "filter (\<lambda>s. s \<noteq> [] \<and> s \<noteq> ''.'' \<and> s \<noteq> ''..'') (str_split (CHR ''/'') rel)"
  have "str_join ''/'' ?segs = [] \<longleftrightarrow> ?segs = []" by (rule str_join_nil) simp
  then have "object_key p rel = (if trim_slashes p = [] then str_join ''/'' ?segs
      else if ?segs = [] then trim_slashes p else trim_slashes p @ ''/'' @ str_join ''/'' ?segs)"
    by (simp add: object_key_def Let_def)
  moreover have "list_all (\<lambda>s. s \<noteq> [] \<and> s \<noteq> ''.'' \<and> s \<noteq> ''..'' \<and> CHR ''/'' \<notin> set s) ?segs"
    using str_split_no_sep by (auto simp: list_all_iff)
  moreover have "object_key p a = object_key p b \<longleftrightarrow> a = b"
    unfolding key [OF assms(1)] key [OF assms(2)] by simp
  ultimately show ?thesis using key [OF assms(1)] by blast
qed

theorem object_key_exact_witness:
  "object_key ''/p/'' ''a/b.txt'' = ''p/a/b.txt'' \<and> object_key ''/p/'' ''a/b.txt'' \<noteq> object_key ''/p/'' ''c''"
proof -
  have n: "normal_rel ''a/b.txt''" "normal_rel ''c''" by (simp_all add: normal_rel_def)
  have t: "trim_slashes ''/p/'' = ''p''" by (simp add: trim_slashes_def)
  have "object_key ''/p/'' ''a/b.txt'' = ''p/a/b.txt''"
    using object_key_exact [OF n, THEN conjunct1, of "''/p/''"] by (simp add: t)
  moreover have "object_key ''/p/'' ''c'' = ''p/c''"
    using object_key_exact [OF n(2,1), THEN conjunct1, of "''/p/''"] by (simp add: t)
  ultimately show ?thesis by simp
qed

section \<open>The worker on S3\<close>

text \<open>A worker that delivers to S3: its pipeline is the one of theory \<open>Pipeline_Laws\<close>.\<close>

definition s3_worker :: "'h digests \<Rightarrow> platform \<Rightarrow> (json \<Rightarrow> bytes) \<Rightarrow> deployment \<Rightarrow> s3_dest \<Rightarrow> 'h worker" where
  "s3_worker D pf ser P S =
     new_multi (dp_instance P) [s3_destination S] (local_completion P) (''in'' # dp_in P) (dp_retry P) D pf ser (\<lambda>ss. ss)"

lemma s3_worker_env:
  assumes "s3_calm {abs_source (s3_worker D pf ser P S) it} (sd_client S)"
  shows "worker_env (s3_worker D pf ser P S) it"
proof
  let ?L = "local_worker D (\<lambda>_. 0) pf ser P" and ?W = "s3_worker D pf ser P S"
  note local = worker_env.archive_safe [OF local_worker_env [of D "\<lambda>_. 0" pf ser P it]]
    worker_env.quarantine_safe [OF local_worker_env [of D "\<lambda>_. 0" pf ser P it]]
  have same: "wo_completion ?W = wo_completion ?L" "abs_source ?W it = abs_source ?L it"
    by (simp_all add: s3_worker_def local_worker_def new_multi_def abs_source_def)
  show "well_behaved {abs_source ?W it} it (slot_dest s)" if "s \<in> set (wo_dests ?W)" for s
    using that assms by (auto simp: s3_worker_def new_multi_def label_destinations_def Let_def intro: s3_well_behaved)
  show "set (wo_order ?W ss) = set ss" for ss by (simp add: s3_worker_def new_multi_def)
  show "ctx_safe (cleanup_ctx_of ?W it NoChecksum)"
    using local(1) same by (simp add: cleanup_ctx_of_def)
  show "quarantined_safe (abs_source ?W it) (wi_relpath it) (co_failed_dir (wo_completion ?W))"
    using local(2) same by simp
qed

end
