(* ===== verification/Ranged.thy ===== *)
theory Ranged
  imports S3_Client
begin

text \<open>
  What the HTTP, Azure, GCS, SFTP and FTPS destinations share (each file of \<open>src/dest/\<close> has
  its own copy): secrets of the vault, the offset checkpoint, the read of a range of the
  source, the local hash of a prefix that is already at the destination, the loop over
  the chunks of a file, and the HTTP client.

  The client of \<open>reqwest\<close> with the service behind it is an action from a request to a
  response, \<open>http_client\<close>; its URL type is the record \<open>url_api\<close> on the canonical texts. As in
  \<open>S3_Client\<close> the bytes a read sees are those at the time it opened the source, and throttling
  has no effect on the state.
\<close>

section \<open>Requests\<close>

datatype http_verb = GetV | HeadV | PutV | PostV | DeleteV

datatype http_auth = NoAuth | Bearer string | Basic string string

record http_request =
  rq_verb :: http_verb
  rq_url :: string
  rq_headers :: "(string \<times> string) list"
  rq_auth :: http_auth
  rq_body :: bytes

text \<open>A response: its body arrives in chunks, \<open>rp_cut\<close> when the connection breaks before its end.\<close>

record http_response =
  rp_status :: nat
  rp_headers :: "string \<Rightarrow> string option"
  rp_body :: "bytes list"
  rp_cut :: bool

text \<open>\<open>Inl ()\<close>: no response at all.\<close>

type_synonym http_client = "http_request \<Rightarrow> (unit + http_response) act"

record url_api =
  ua_parse :: "string \<Rightarrow> string + string"
  ua_extend :: "string \<Rightarrow> string list \<Rightarrow> string option"
  ua_query :: "string \<Rightarrow> (string \<times> string) list \<Rightarrow> string"

definition is_success :: "nat \<Rightarrow> bool" where
  "is_success s = (200 \<le> s \<and> s < 300)"

text \<open>The status bands of the three HTTP backends; \<open>tag\<close> is the backend's name.\<close>

definition status_suffix :: "nat option \<Rightarrow> string" where
  "status_suffix status = (case status of None \<Rightarrow> [] | Some s \<Rightarrow> '' ('' @ show_nat s @ '')'')"

definition classify_status :: "string \<Rightarrow> nat option \<Rightarrow> bool \<Rightarrow> repl_error" where
  "classify_status tag status transport =
     (if transport then Transient (tag @ '' transport failure'' @ status_suffix status)
      else (case status of
         Some s \<Rightarrow>
           if 500 \<le> s \<or> s = 429 \<or> s = 408 then Transient (tag @ '' status '' @ show_nat s)
           else if 400 \<le> s \<and> s < 500 then Permanent (tag @ '' status '' @ show_nat s)
           else Transient (tag @ '' status '' @ show_nat s @ '' (unclassified)'')
       | None \<Rightarrow> Transient (tag @ '' error (unclassified)'')))"

section \<open>Secrets\<close>

text \<open>
  The credential service as a function from a secret's name to its JSON (an error text, no
  such secret, or the value), and the text of a failed conversion into the backend's type.
\<close>

record secret_store =
  ss_get_json :: "string \<Rightarrow> string + json option"
  ss_shape_error :: "json \<Rightarrow> string"

definition secret_reference :: "string \<Rightarrow> json \<Rightarrow> string res" where
  "secret_reference kind v =
     (case Option.bind (jget ''$secret'' v) jas_str of
        Some name \<Rightarrow> Inr name
      | None \<Rightarrow> Inl (Permanent (''egress.credentials must be '' @ secret_form @ '' for the '' @ kind @ '' backend'')))"

definition secret_json :: "string \<Rightarrow> json \<Rightarrow> secret_store option \<Rightarrow> (string \<times> json) res" where
  "secret_json kind v creds =
     bind_res (secret_reference kind v) (\<lambda>name.
     case creds of
       None \<Rightarrow> Inl (Permanent (''egress.credentials references secret '' @ quoted name
                     @ '' but no credentials subsystem is configured''))
     | Some svc \<Rightarrow>
       (case ss_get_json svc name of
          Inl e \<Rightarrow> Inl (Permanent (''resolve secret '' @ quoted name @ '': '' @ e))
        | Inr None \<Rightarrow> Inl (Permanent (''secret '' @ quoted name @ '' not found in the vault''))
        | Inr (Some j) \<Rightarrow> Inr (name, j)))"

text \<open>The optional string fields of a secret: an object whose fields are absent, null or strings.\<close>

definition is_object :: "json \<Rightarrow> bool" where
  "is_object j = (case j of JObj _ \<Rightarrow> True | _ \<Rightarrow> False)"

definition secret_fields :: "string list \<Rightarrow> json \<Rightarrow> string option list option" where
  "secret_fields ks j =
     (if is_object j then collect_opt (List.map (\<lambda>k. opt_str_from (jget k j)) ks) else None)"

definition secret_shape :: "string \<Rightarrow> secret_store option \<Rightarrow> string \<Rightarrow> json \<Rightarrow> repl_error" where
  "secret_shape kind creds name j =
     Permanent (''secret '' @ quoted name @ '' is not a valid '' @ kind @ '' credentials JSON: ''
       @ (case creds of Some svc \<Rightarrow> ss_shape_error svc j | None \<Rightarrow> []))"

definition checksum_algorithm :: "string option \<Rightarrow> algorithm res" where
  "checksum_algorithm cfg =
     (case cfg of
        Some name \<Rightarrow> (case algorithm_from_name name of
            Some a \<Rightarrow> Inr a
          | None \<Rightarrow> Inl (Permanent (''unknown egress.checksumAlgorithm '' @ quoted name)))
      | None \<Rightarrow> Inr AlgCrc32c)"

section \<open>The offset checkpoint\<close>

text \<open>
  The checkpoint of a transfer whose committed part is a prefix: the URL or temporary path it
  writes to, the source's size and modification time, the committed bytes. \<open>label\<close> is the key
  under which the token holds it, \<open>field\<close> the name of its target.
\<close>

record offset_token =
  ot_target :: string
  ot_size :: u64
  ot_mtime_ms :: i64
  ot_committed :: u64

definition offset_to_json :: "string \<Rightarrow> offset_token \<Rightarrow> json" where
  "offset_to_json field t =
     JObj [(field, JStr (ot_target t)), (''size'', ju64 (ot_size t)), (''mtimeMs'', JNum (ot_mtime_ms t)),
           (''bytesCommitted'', ju64 (ot_committed t))]"

definition offset_from_json :: "string \<Rightarrow> json \<Rightarrow> offset_token option" where
  "offset_from_json field j =
     Option.bind (Option.bind (jget field j) jas_str) (\<lambda>p.
     Option.bind (Option.bind (jget ''size'' j) jas_u64) (\<lambda>s.
     Option.bind (Option.bind (jget ''mtimeMs'' j) jas_i64) (\<lambda>m.
     Option.bind (or_default 0 jas_u64 (jget ''bytesCommitted'' j)) (\<lambda>b.
     Some \<lparr>ot_target = p, ot_size = s, ot_mtime_ms = m, ot_committed = b\<rparr>))))"

definition offset_from_resume :: "string \<Rightarrow> string \<Rightarrow> resume_state \<Rightarrow> offset_token option" where
  "offset_from_resume label field r = Option.bind (jget label (rs_token r)) (offset_from_json field)"

definition offset_to_resume :: "string \<Rightarrow> string \<Rightarrow> offset_token \<Rightarrow> resume_state" where
  "offset_to_resume label field t =
     \<lparr>rs_bytes_committed = ot_committed t, rs_token = JObj [(label, offset_to_json field t)]\<rparr>"

definition offset_matches :: "offset_token \<Rightarrow> string \<Rightarrow> u64 \<Rightarrow> i64 \<Rightarrow> bool" where
  "offset_matches t target fsize mtime_ms =
     (ot_target t = target \<and> ot_size t = fsize \<and> ot_mtime_ms t = mtime_ms)"

text \<open>The token of the checkpoint, when it still fits the target and the source.\<close>

definition offset_reusable ::
  "string \<Rightarrow> string \<Rightarrow> resume_state option \<Rightarrow> string \<Rightarrow> u64 \<Rightarrow> i64 \<Rightarrow> offset_token option" where
  "offset_reusable label field resume target fsize mtime_ms =
     (case Option.bind resume (offset_from_resume label field) of
        Some t \<Rightarrow> if offset_matches t target fsize mtime_ms then Some t else None
      | None \<Rightarrow> None)"

text \<open>A write of the checkpoint row; a failure is logged and forgotten.\<close>

definition save_row :: "bool \<Rightarrow> work_item \<Rightarrow> string \<Rightarrow> resume_state \<Rightarrow> unit act" where
  "save_row store it label rs =
     (if store then seqn (db_write (save_resume (wi_instance it) (wi_relpath it) label rs)) (ret ()) else ret ())"

definition clear_row :: "bool \<Rightarrow> work_item \<Rightarrow> string \<Rightarrow> unit act" where
  "clear_row store it label =
     (if store then seqn (db_write (clear_resume (wi_instance it) (wi_relpath it) label)) (ret ()) else ret ())"

definition save_offset ::
  "bool \<Rightarrow> work_item \<Rightarrow> string \<Rightarrow> string \<Rightarrow> string \<Rightarrow> u64 \<Rightarrow> i64 \<Rightarrow> u64 \<Rightarrow> unit act" where
  "save_offset store it label field target fsize mtime_ms committed =
     save_row store it label (offset_to_resume label field
       \<lparr>ot_target = target, ot_size = fsize, ot_mtime_ms = mtime_ms, ot_committed = committed\<rparr>)"

section \<open>Chunks\<close>

definition chunk_bounds :: "u64 \<Rightarrow> u64 \<Rightarrow> u64 \<Rightarrow> u64 \<times> u64" where
  "chunk_bounds committed chunk_bytes tot = (committed, min (committed + max 1 chunk_bytes) tot - 1)"

definition content_range_header :: "u64 \<Rightarrow> u64 \<Rightarrow> u64 \<Rightarrow> string" where
  "content_range_header s e tot =
     ''bytes '' @ show_nat (unat s) @ ''-'' @ show_nat (unat e) @ ''/'' @ show_nat (unat tot)"

definition source_truncated :: "path \<Rightarrow> u64 \<Rightarrow> u64 \<Rightarrow> nat \<Rightarrow> repl_error" where
  "source_truncated p offset len read =
     Transient (''source truncated: read '' @ show_nat read @ '' of '' @ show_nat (unat len)
        @ '' bytes at offset '' @ show_nat (unat offset) @ '' from '' @ path_display p)"

text \<open>The reads of the range, each reported; \<open>eof\<close> is the error of a range that is cut short.\<close>

fun range_loop :: "(u64 \<Rightarrow> unit act) \<Rightarrow> repl_error option \<Rightarrow> bytes \<Rightarrow> bytes list \<Rightarrow> bytes res act" where
  "range_loop on_progress eof buf [] =
     (case eof of None \<Rightarrow> ok buf | Some e \<Rightarrow> try_act (map_err classify_io fs_touch) (\<lambda>_. err e))"
| "range_loop on_progress eof buf (c # cs) =
     try_act (map_err classify_io fs_touch) (\<lambda>_.
     seqn (on_progress (of_nat (length c))) (range_loop on_progress eof (buf @ c) cs))"

definition read_source_range :: "path \<Rightarrow> u64 \<Rightarrow> u64 \<Rightarrow> (u64 \<Rightarrow> unit act) \<Rightarrow> bytes res act" where
  "read_source_range p offset len on_progress =
     try_act (map_err classify_io (fs_open p)) (\<lambda>content.
     try_act (if 0 < offset then map_err classify_io fs_touch else ok ()) (\<lambda>_.
     let range = take (unat len) (drop (unat offset) content);
         eof = (if length range < unat len then Some (source_truncated p offset len (length range)) else None) in
     range_loop on_progress eof [] (read_chunks range)))"

text \<open>The bytes before the resumed offset, hashed again; a file that got shorter ends it early.\<close>

fun prefix_loop :: "'h digests \<Rightarrow> bool \<Rightarrow> bytes list \<Rightarrow> 'h hasher \<Rightarrow> 'h hasher res act" where
  "prefix_loop D short [] h = (if short then try_act (map_err classify_io fs_touch) (\<lambda>_. ok h) else ok h)"
| "prefix_loop D short (c # cs) h =
     try_act (map_err classify_io fs_touch) (\<lambda>_. prefix_loop D short cs (hasher_update D h c))"

definition hash_local_prefix :: "'h digests \<Rightarrow> path \<Rightarrow> u64 \<Rightarrow> 'h hasher \<Rightarrow> 'h hasher res act" where
  "hash_local_prefix D p len h =
     try_act (map_err classify_io (fs_open p)) (\<lambda>content.
     prefix_loop D (length content < unat len) (read_chunks (take (unat len) content)) h)"

definition hash_committed :: "'h digests \<Rightarrow> path \<Rightarrow> u64 \<Rightarrow> 'h hasher \<Rightarrow> 'h hasher res act" where
  "hash_committed D p committed h =
     (if 0 < committed then hash_local_prefix D p committed h else ok h)"

text \<open>The shared counter: the bytes each read adds are reported as the total so far.\<close>

definition report_total :: "(u64 \<Rightarrow> unit act) \<Rightarrow> u64 \<Rightarrow> unit act" where
  "report_total progress d =
     bnd (get_world w_sent) (\<lambda>n. seqn (set_sent (n + d)) (progress (n + d)))"

text \<open>
  The loop over the chunks. \<open>send\<close> transfers the chunk of the given bounds, \<open>persist\<close> writes
  the checkpoint; \<open>fatal\<close> embeds the errors of the local read into those of \<open>send\<close>. The fuel
  bounds the rounds: with \<open>chunk_fuel\<close> it never runs out while the offsets do not overflow.
\<close>

definition fatal_err :: "(repl_error \<Rightarrow> 'e) \<Rightarrow> 'a res act \<Rightarrow> ('e + 'a) act" where
  "fatal_err fatal m = bnd m (\<lambda>r. ret (case r of Inl e \<Rightarrow> Inl (fatal e) | Inr x \<Rightarrow> Inr x))"

definition try_with :: "('e + 'a) act \<Rightarrow> ('a \<Rightarrow> ('e + 'b) act) \<Rightarrow> ('e + 'b) act" where
  "try_with m f = bnd m (\<lambda>r. case r of Inl e \<Rightarrow> ret (Inl e) | Inr x \<Rightarrow> f x)"

fun chunk_loop ::
  "nat \<Rightarrow> 'h digests \<Rightarrow> (repl_error \<Rightarrow> 'e) \<Rightarrow> path \<Rightarrow> u64 \<Rightarrow> u64 \<Rightarrow> (u64 \<Rightarrow> unit act)
   \<Rightarrow> (u64 \<Rightarrow> u64 \<Rightarrow> bytes \<Rightarrow> ('e + unit) act) \<Rightarrow> (u64 \<Rightarrow> unit act) \<Rightarrow> u64 \<Rightarrow> 'h hasher \<Rightarrow> ('e + 'h hasher) act" where
  "chunk_loop 0 D fatal p chunk fsize progress send persist committed h = (\<lambda>w. (None, w))"
| "chunk_loop (Suc n) D fatal p chunk fsize progress send persist committed h =
     (if committed < fsize
      then (case chunk_bounds committed chunk fsize of (s, e) \<Rightarrow>
        try_with (fatal_err fatal (read_source_range p s (e - s + 1) (report_total progress))) (\<lambda>buf.
        try_with (send s e buf) (\<lambda>_.
        seqn (persist (e + 1))
          (chunk_loop n D fatal p chunk fsize progress send persist (e + 1) (hasher_update D h buf)))))
      else ret (Inr h))"

definition chunk_fuel :: "u64 \<Rightarrow> nat" where
  "chunk_fuel fsize = Suc (unat fsize)"

section \<open>Reading a delivered object back\<close>

definition verify_digest :: "'h digests \<Rightarrow> algorithm \<Rightarrow> delivered \<Rightarrow> bytes list \<Rightarrow> unit res" where
  "verify_digest D algo dl cs =
     bind_res (verify_size (dl_bytes dl) (of_nat (length (concat cs)))) (\<lambda>_.
     verify_checksum (dl_checksum dl) (hasher_finish D (foldl (hasher_update D) (hasher_new D algo) cs)))"

end
