(* ===== verification/Http_Dest.thy ===== *)
theory Http_Dest
  imports Ranged
begin

text \<open>
  The HTTP destination (\<open>src/dest/http/mod.rs\<close>, \<open>src/dest/http/client.rs\<close>): ranged \<open>PUT\<close>s with
  a checkpoint after each, or one request for the whole body; on a resume the offset is
  reconciled with the length the server reports; verification reads the object back.
\<close>

section \<open>Decisions\<close>

definition http_default_chunk :: u64 where
  "http_default_chunk = 8 * 1024 * 1024"

definition http_build_url :: "url_api \<Rightarrow> string \<Rightarrow> string \<Rightarrow> string res" where
  "http_build_url U base relpath =
     (case ua_parse U base of
        Inl e \<Rightarrow> Inl (Permanent (''invalid egress.url '' @ quoted base @ '': '' @ e))
      | Inr url \<Rightarrow>
        (let rel = filter (\<lambda>s. s \<noteq> [] \<and> s \<noteq> ''.'' \<and> s \<noteq> ''..'') (str_split (CHR ''/'') relpath) in
         case ua_extend U url rel of
           None \<Rightarrow> Inl (Permanent (''egress.url '' @ quoted base
                      @ '' cannot be a base for a relative path (missing scheme/host?)''))
         | Some joined \<Rightarrow> Inr joined))"

datatype http_method = MPut | MPost

definition http_method_parse :: "string option \<Rightarrow> http_method res" where
  "http_method_parse name =
     (case name of
        None \<Rightarrow> Inr MPut
      | Some s \<Rightarrow>
          if to_ascii_uppercase s = ''PUT'' then Inr MPut
          else if to_ascii_uppercase s = ''POST'' then Inr MPost
          else Inl (Permanent (''unsupported egress.method '' @ quoted s @ '' (expected PUT or POST)'')))"

record http_egress =
  he_url :: string
  he_method :: "string option"
  he_headers :: "(string \<times> string) list"
  he_resumable :: "bool option"
  he_chunk_bytes :: "u64 option"
  he_checksum_algorithm :: "string option"
  he_credentials :: "json option"
  he_bearer_token :: "string option"
  he_username :: "string option"
  he_password :: "string option"

definition need :: "string \<Rightarrow> 'a option \<Rightarrow> 'a res" where
  "need msg v = (case v of Some x \<Rightarrow> Inr x | None \<Rightarrow> Inl (Permanent msg))"

definition first_some :: "'a option \<Rightarrow> 'a option \<Rightarrow> 'a option" where
  "first_some a b = (case a of Some x \<Rightarrow> Some x | None \<Rightarrow> b)"

definition resolve_http_auth :: "http_egress \<Rightarrow> secret_store option \<Rightarrow> http_auth res" where
  "resolve_http_auth cfg creds =
     (case he_credentials cfg of
        Some v \<Rightarrow>
          bind_res (secret_json ''http'' v creds) (\<lambda>(name, j).
          case secret_fields [''bearerToken'', ''username'', ''password''] j of
            Some [bearer, username, password] \<Rightarrow>
              (case (bearer, password) of
                 (Some token, _) \<Rightarrow> Inr (Bearer token)
               | (None, Some pw) \<Rightarrow>
                   map_res (\<lambda>u. Basic u pw) (need (''secret '' @ quoted name
                     @ '' has no '' @ quoted ''username'' @ '' and egress.username is not set'')
                     (first_some username (he_username cfg)))
               | (None, None) \<Rightarrow> Inl (Permanent (''secret '' @ quoted name @ '' must contain '' @ quoted ''bearerToken''
                     @ '' or '' @ quoted ''username'' @ ''+'' @ quoted ''password'')))
          | _ \<Rightarrow> Inl (secret_shape ''http'' creds name j))
      | None \<Rightarrow>
        (case he_bearer_token cfg of
           Some token \<Rightarrow> Inr (Bearer token)
         | None \<Rightarrow>
           (case he_password cfg of
              Some pw \<Rightarrow>
                map_res (\<lambda>u. Basic u pw) (need ''egress.username is required when egress.password is set'' (he_username cfg))
            | None \<Rightarrow> Inr NoAuth)))"

definition http_handle :: "string \<Rightarrow> algorithm \<Rightarrow> json" where
  "http_handle url algo = JObj [(''url'', JStr url), (''algo'', JStr (algo_name algo))]"

definition handle_url :: "json \<Rightarrow> string option" where
  "handle_url h = Option.bind (jget ''url'' h) jas_str"

definition classify_http :: "nat option \<Rightarrow> bool \<Rightarrow> repl_error" where
  "classify_http status transport = classify_status ''http'' status transport"

section \<open>The destination\<close>

record http_dest =
  hd_base_url :: string
  hd_method :: http_method
  hd_headers :: "(string \<times> string) list"
  hd_auth :: http_auth
  hd_resumable :: bool
  hd_chunk_bytes :: u64
  hd_algo :: algorithm
  hd_store :: bool
  hd_client :: http_client
  hd_urls :: url_api

definition http_build :: "http_egress \<Rightarrow> secret_store option \<Rightarrow> bool \<Rightarrow> http_client \<Rightarrow> url_api \<Rightarrow> http_dest res" where
  "http_build cfg creds store client U =
     bind_res (checksum_algorithm (he_checksum_algorithm cfg)) (\<lambda>algo.
     bind_res (http_method_parse (he_method cfg)) (\<lambda>meth.
     bind_res (resolve_http_auth cfg creds) (\<lambda>auth.
     bind_res (http_build_url U (he_url cfg) []) (\<lambda>_.
     Inr \<lparr>hd_base_url = he_url cfg, hd_method = meth, hd_headers = he_headers cfg, hd_auth = auth,
          hd_resumable = (unwrap_or (he_resumable cfg) True \<and> meth \<noteq> MPost),
          hd_chunk_bytes = max 1 (unwrap_or (he_chunk_bytes cfg) http_default_chunk),
          hd_algo = algo, hd_store = store, hd_client = client, hd_urls = U\<rparr>))))"

section \<open>Requests\<close>

definition http_answer :: "(unit + http_response) act \<Rightarrow> http_response res act" where
  "http_answer m = bnd m (\<lambda>r. ret (case r of Inl _ \<Rightarrow> Inl (classify_http None True) | Inr p \<Rightarrow> Inr p))"

definition http_verb_of :: "http_method \<Rightarrow> http_verb" where
  "http_verb_of m = (case m of MPut \<Rightarrow> PutV | MPost \<Rightarrow> PostV)"

definition http_send_chunk :: "http_dest \<Rightarrow> string \<Rightarrow> string option \<Rightarrow> bytes \<Rightarrow> unit res act" where
  "http_send_chunk H url rng body =
     try_act (http_answer (hd_client H
       \<lparr>rq_verb = http_verb_of (hd_method H), rq_url = url,
        rq_headers = hd_headers H @ (case rng of Some r \<Rightarrow> [(''content-range'', r)] | None \<Rightarrow> []),
        rq_auth = hd_auth H, rq_body = body\<rparr>)) (\<lambda>p.
     if is_success (rp_status p) then ok () else err (classify_http (Some (rp_status p)) False))"

definition http_bare :: "http_dest \<Rightarrow> http_verb \<Rightarrow> string \<Rightarrow> http_response res act" where
  "http_bare H v url =
     http_answer (hd_client H \<lparr>rq_verb = v, rq_url = url, rq_headers = [], rq_auth = hd_auth H, rq_body = []\<rparr>)"

datatype remote_len = RLen u64 | RGone | RUnknown

definition content_length :: "http_response \<Rightarrow> u64 option" where
  "content_length p = map_option of_nat (Option.bind (rp_headers p ''content-length'') (parse_uint 64))"

definition reconcile_remote_len :: "http_dest \<Rightarrow> string \<Rightarrow> remote_len res act" where
  "reconcile_remote_len H url =
     try_act (http_bare H HeadV url) (\<lambda>p.
     if rp_status p = 404 then ok RGone
     else if \<not> is_success (rp_status p) then ok RUnknown
     else ok (case content_length p of Some n \<Rightarrow> RLen n | None \<Rightarrow> RUnknown))"

section \<open>Deliver\<close>

definition http_persist :: "http_dest \<Rightarrow> work_item \<Rightarrow> string \<Rightarrow> u64 \<Rightarrow> i64 \<Rightarrow> u64 \<Rightarrow> unit act" where
  "http_persist H it url fsize mtime_ms committed =
     save_offset (hd_store H) it ''http'' ''url'' url fsize mtime_ms committed"

definition http_clear :: "http_dest \<Rightarrow> work_item \<Rightarrow> unit act" where
  "http_clear H it = clear_row (hd_store H) it ''http''"

definition http_delivered :: "'h digests \<Rightarrow> http_dest \<Rightarrow> work_item \<Rightarrow> string \<Rightarrow> u64 \<Rightarrow> 'h hasher \<Rightarrow> delivered res act" where
  "http_delivered D H it url n h =
     seqn (http_clear H it)
       (ok \<lparr>dl_bytes = n, dl_checksum = hasher_finish D h, dl_handle = http_handle url (hd_algo H)\<rparr>)"

text \<open>One request for the whole body.\<close>

definition http_single ::
  "'h digests \<Rightarrow> http_dest \<Rightarrow> work_item \<Rightarrow> string \<Rightarrow> u64 \<Rightarrow> (u64 \<Rightarrow> unit act) \<Rightarrow> delivered res act" where
  "http_single D H it url fsize progress =
     seqn (set_sent 0)
       (try_act (read_source_range (wi_abs_source it) 0 fsize (report_total progress)) (\<lambda>buf.
        try_act (http_send_chunk H url None buf) (\<lambda>_.
        http_delivered D H it url fsize (hasher_update D (hasher_new D (hd_algo H)) buf))))"

text \<open>The offset to go on from: that of the checkpoint, cut to what the server still has.\<close>

definition http_committed :: "http_dest \<Rightarrow> string \<Rightarrow> u64 \<Rightarrow> offset_token option \<Rightarrow> u64 res act" where
  "http_committed H url fsize reusable =
     (let committed = (case reusable of Some t \<Rightarrow> min (ot_committed t) fsize | None \<Rightarrow> 0) in
      if 0 < committed
      then try_act (reconcile_remote_len H url) (\<lambda>r.
             ok (case r of RLen n \<Rightarrow> min committed n | RGone \<Rightarrow> 0 | RUnknown \<Rightarrow> committed))
      else ok committed)"

definition http_ranged ::
  "'h digests \<Rightarrow> http_dest \<Rightarrow> work_item \<Rightarrow> string \<Rightarrow> u64 \<Rightarrow> i64 \<Rightarrow> u64 \<Rightarrow> 'h hasher \<Rightarrow> (u64 \<Rightarrow> unit act)
   \<Rightarrow> delivered res act" where
  "http_ranged D H it url fsize mtime_ms committed h progress =
     seqn (http_persist H it url fsize mtime_ms committed)
       (seqn (set_sent committed)
         (try_act (chunk_loop (chunk_fuel fsize) D (\<lambda>e. e) (wi_abs_source it) (hd_chunk_bytes H) fsize progress
             (\<lambda>s e buf. http_send_chunk H url (Some (content_range_header s e fsize)) buf)
             (http_persist H it url fsize mtime_ms) committed h)
           (http_delivered D H it url fsize)))"

definition http_deliver ::
  "'h digests \<Rightarrow> http_dest \<Rightarrow> work_item \<Rightarrow> resume_state option \<Rightarrow> (u64 \<Rightarrow> unit act) \<Rightarrow> delivered res act" where
  "http_deliver D H it resume progress =
     try_act (map_err classify_io (fs_metadata (wi_abs_source it))) (\<lambda>(fsize, mtime_ms).
     try_act (ret (http_build_url (hd_urls H) (hd_base_url H) (wi_relpath it))) (\<lambda>url.
     if \<not> hd_resumable H then http_single D H it url fsize progress
     else
       try_act (http_committed H url fsize (offset_reusable ''http'' ''url'' resume url fsize mtime_ms)) (\<lambda>committed.
       try_act (hash_committed D (wi_abs_source it) committed (hasher_new D (hd_algo H))) (\<lambda>h.
       if fsize = 0
       then try_act (http_send_chunk H url (Some (content_range_header 0 0 0)) []) (\<lambda>_.
              http_delivered D H it url 0 h)
       else http_ranged D H it url fsize mtime_ms committed h progress))))"

section \<open>Verify and abort\<close>

definition need_success :: "(nat option \<Rightarrow> bool \<Rightarrow> repl_error) \<Rightarrow> http_response \<Rightarrow> unit res" where
  "need_success classify p =
     (if is_success (rp_status p) then Inr () else Inl (classify (Some (rp_status p)) False))"

text \<open>The body in its chunks, unless the connection breaks on the way.\<close>

definition whole_body :: "(nat option \<Rightarrow> bool \<Rightarrow> repl_error) \<Rightarrow> http_response \<Rightarrow> bytes list res" where
  "whole_body classify p = (if rp_cut p then Inl (classify None True) else Inr (rp_body p))"

definition verify_target :: "url_api \<Rightarrow> http_dest \<Rightarrow> work_item \<Rightarrow> delivered \<Rightarrow> string res" where
  "verify_target U H it dl =
     bind_res (need ''no url recorded on the delivered handle''
       (first_some (handle_url (dl_handle dl))
         (case http_build_url U (hd_base_url H) (wi_relpath it) of Inr u \<Rightarrow> Some u | Inl _ \<Rightarrow> None))) (\<lambda>url_str.
     case ua_parse U url_str of
       Inr url \<Rightarrow> Inr url
     | Inl e \<Rightarrow> Inl (Permanent (''invalid delivered url '' @ quoted url_str @ '': '' @ e)))"

definition http_verify ::
  "'h digests \<Rightarrow> http_dest \<Rightarrow> work_item \<Rightarrow> delivered \<Rightarrow> verify_policy \<Rightarrow> unit res act" where
  "http_verify D H it dl pol =
     (if pol = VNone then ok ()
      else
        try_act (ret (verify_target (hd_urls H) H it dl)) (\<lambda>url.
        if pol = VSize
        then try_act (http_bare H HeadV url) (\<lambda>p.
               ret (bind_res (need_success classify_http p) (\<lambda>_.
                    case content_length p of
                      None \<Rightarrow> Inl (Transient ''http HEAD response missing Content-Length'')
                    | Some len \<Rightarrow> verify_size (dl_bytes dl) len)))
        else try_act (http_bare H GetV url) (\<lambda>p.
               ret (bind_res (need_success classify_http p) (\<lambda>_.
                    bind_res (whole_body classify_http p) (verify_digest D (hd_algo H) dl))))))"

definition http_abort :: "http_dest \<Rightarrow> work_item \<Rightarrow> resume_state \<Rightarrow> unit res act" where
  "http_abort H it resume =
     (case offset_from_resume ''http'' ''url'' resume of
        None \<Rightarrow> ok ()
      | Some t \<Rightarrow>
          if ot_committed t = 0 then ok ()
          else (case ua_parse (hd_urls H) (ot_target t) of
                  Inl e \<Rightarrow> err (Permanent (''invalid resume url '' @ quoted (ot_target t) @ '': '' @ e))
                | Inr url \<Rightarrow>
                    try_act (http_bare H DeleteV url) (\<lambda>p.
                    if is_success (rp_status p) \<or> rp_status p = 404 \<or> rp_status p = 405 then ok ()
                    else err (classify_http (Some (rp_status p)) False))))"

definition http_destination :: "'h digests \<Rightarrow> http_dest \<Rightarrow> destination" where
  "http_destination D H =
     \<lparr>d_kind = ''http'', d_supports_resume = hd_resumable H,
      d_deliver = http_deliver D H, d_verify = http_verify D H, d_abort = http_abort H\<rparr>"

end
