(* ===== verification/Gcs_Dest.thy ===== *)
theory Gcs_Dest
  imports Http_Dest
begin

text \<open>
  The Google Cloud Storage destination (\<open>src/dest/gcs/mod.rs\<close>, \<open>src/dest/gcs/client.rs\<close>): the
  file goes to a resumable session in aligned chunks, each followed by a checkpoint that
  names the session; a session that is gone is started again once.

  The JSON and base64 codecs are fields of the destination (\<open>gd_name_json\<close>, \<open>gd_meta\<close>, \<open>gd_b64\<close>).
\<close>

section \<open>Decisions\<close>

definition gcs_default_chunk :: u64 where "gcs_default_chunk = 8 * mib"
definition gcs_align :: u64 where "gcs_align = 256 * 1024"

definition gcs_default_endpoint :: string where
  "gcs_default_endpoint = ''https://storage.googleapis.com''"

definition gcs_object_path :: "string \<Rightarrow> string \<Rightarrow> string" where
  "gcs_object_path prefix relpath = object_key prefix relpath"

definition resolve_chunk_bytes :: "u64 option \<Rightarrow> u64" where
  "resolve_chunk_bytes cfg =
     (let raw = max (unwrap_or cfg gcs_default_chunk) gcs_align in (raw div gcs_align) * gcs_align)"

text \<open>The upper bound in a \<open>Range: bytes=0-n\<close> header, plus one.\<close>

definition committed_from_range_header :: "string \<Rightarrow> u64 option" where
  "committed_from_range_header v =
     Option.bind (strip_prefix ''bytes='' v) (\<lambda>rest.
     Option.bind (str_split_once (CHR ''-'') rest) (\<lambda>(s, e).
     if str_trim s \<noteq> ''0'' then None
     else map_option (\<lambda>n. of_nat n + 1) (parse_uint 64 (str_trim e))))"

definition be_bytes_u32 :: "bytes \<Rightarrow> u32" where
  "be_bytes_u32 bs = foldl (\<lambda>x b. x * 256 + ucast b) 0 bs"

definition b64_to_crc32c :: "(string \<Rightarrow> bytes option) \<Rightarrow> string \<Rightarrow> u32 option" where
  "b64_to_crc32c b64 s = Option.bind (b64 s) (\<lambda>bs. if length bs = 4 then Some (be_bytes_u32 bs) else None)"

datatype gcs_cred_mode = Anonymous | AccessToken string

record gcs_egress =
  ge_bucket :: string
  ge_prefix :: string
  ge_endpoint_url :: "string option"
  ge_chunk_bytes :: "u64 option"
  ge_checksum_algorithm :: "string option"
  ge_credentials :: "json option"
  ge_access_token :: "string option"
  ge_anonymous :: bool

definition resolve_gcs_credentials :: "gcs_egress \<Rightarrow> secret_store option \<Rightarrow> gcs_cred_mode res" where
  "resolve_gcs_credentials cfg creds =
     (case ge_credentials cfg of
        Some v \<Rightarrow>
          bind_res (secret_json ''gcs'' v creds) (\<lambda>(name, j).
          case secret_fields [''accessToken''] j of
            Some [Some token] \<Rightarrow> Inr (AccessToken token)
          | Some _ \<Rightarrow> Inl (Permanent (''secret '' @ quoted name @ '' must contain '' @ quoted ''accessToken''))
          | None \<Rightarrow> Inl (secret_shape ''gcs'' creds name j))
      | None \<Rightarrow>
        (case ge_access_token cfg of
           Some token \<Rightarrow> Inr (AccessToken token)
         | None \<Rightarrow>
             if ge_anonymous cfg then Inr Anonymous
             else Inl (Permanent (''gcs egress has no credentials: set accessToken, anonymous:true, or ''
               @ ''credentials.$secret (service-account/ADC signing is not implemented ''
               @ ''-- see dest/gcs/mod.rs'' @ [CHR 0x27] @ ''s module doc)''))))"

record gcs_token =
  gt_bucket :: string
  gt_object :: string
  gt_session_uri :: string
  gt_size :: u64
  gt_mtime_ms :: i64
  gt_committed :: u64

definition gcs_token_to_json :: "gcs_token \<Rightarrow> json" where
  "gcs_token_to_json t =
     JObj [(''bucket'', JStr (gt_bucket t)), (''object'', JStr (gt_object t)), (''sessionUri'', JStr (gt_session_uri t)),
       (''size'', ju64 (gt_size t)), (''mtimeMs'', JNum (gt_mtime_ms t)), (''bytesCommitted'', ju64 (gt_committed t))]"

definition gcs_token_from_json :: "json \<Rightarrow> gcs_token option" where
  "gcs_token_from_json j =
     Option.bind (Option.bind (jget ''bucket'' j) jas_str) (\<lambda>b.
     Option.bind (Option.bind (jget ''object'' j) jas_str) (\<lambda>ob.
     Option.bind (Option.bind (jget ''sessionUri'' j) jas_str) (\<lambda>u.
     Option.bind (Option.bind (jget ''size'' j) jas_u64) (\<lambda>s.
     Option.bind (Option.bind (jget ''mtimeMs'' j) jas_i64) (\<lambda>m.
     Option.bind (or_default 0 jas_u64 (jget ''bytesCommitted'' j)) (\<lambda>c.
     Some \<lparr>gt_bucket = b, gt_object = ob, gt_session_uri = u, gt_size = s, gt_mtime_ms = m, gt_committed = c\<rparr>))))))"

definition gcs_from_resume :: "resume_state \<Rightarrow> gcs_token option" where
  "gcs_from_resume r = Option.bind (jget ''gcs'' (rs_token r)) gcs_token_from_json"

definition gcs_to_resume :: "gcs_token \<Rightarrow> resume_state" where
  "gcs_to_resume t = \<lparr>rs_bytes_committed = gt_committed t, rs_token = JObj [(''gcs'', gcs_token_to_json t)]\<rparr>"

definition gcs_matches :: "gcs_token \<Rightarrow> string \<Rightarrow> string \<Rightarrow> u64 \<Rightarrow> i64 \<Rightarrow> bool" where
  "gcs_matches t bucket object fsize mtime_ms =
     (gt_bucket t = bucket \<and> gt_object t = object \<and> gt_size t = fsize \<and> gt_mtime_ms t = mtime_ms)"

definition gcs_handle :: "string \<Rightarrow> string \<Rightarrow> algorithm \<Rightarrow> json" where
  "gcs_handle bucket object algo =
     JObj [(''bucket'', JStr bucket), (''object'', JStr object), (''algo'', JStr (algo_name algo))]"

definition handle_object :: "json \<Rightarrow> (string \<times> string) option" where
  "handle_object h =
     Option.bind (Option.bind (jget ''bucket'' h) jas_str) (\<lambda>b.
     Option.bind (Option.bind (jget ''object'' h) jas_str) (\<lambda>ob. Some (b, ob)))"

definition classify_gcs :: "nat option \<Rightarrow> bool \<Rightarrow> repl_error" where
  "classify_gcs status transport = classify_status ''gcs'' status transport"

section \<open>The destination\<close>

record gcs_dest =
  gd_bucket :: string
  gd_prefix :: string
  gd_endpoint :: string
  gd_creds :: gcs_cred_mode
  gd_chunk_bytes :: u64
  gd_algo :: algorithm
  gd_store :: bool
  gd_client :: http_client
  gd_urls :: url_api
  gd_name_json :: "string \<Rightarrow> bytes"
  gd_meta :: "bytes \<Rightarrow> (string \<times> string option) option"
  gd_b64 :: "string \<Rightarrow> bytes option"

definition gcs_build ::
  "gcs_egress \<Rightarrow> secret_store option \<Rightarrow> bool \<Rightarrow> http_client \<Rightarrow> url_api \<Rightarrow> (string \<Rightarrow> bytes)
   \<Rightarrow> (bytes \<Rightarrow> (string \<times> string option) option) \<Rightarrow> (string \<Rightarrow> bytes option) \<Rightarrow> gcs_dest res" where
  "gcs_build cfg creds store client U name_json meta b64 =
     bind_res (checksum_algorithm (ge_checksum_algorithm cfg)) (\<lambda>algo.
     bind_res (resolve_gcs_credentials cfg creds) (\<lambda>mode.
     let endpoint = unwrap_or (ge_endpoint_url cfg) gcs_default_endpoint in
     case ua_parse U endpoint of
       Inl e \<Rightarrow> Inl (Permanent (''invalid egress.endpointUrl '' @ quoted endpoint @ '': '' @ e))
     | Inr _ \<Rightarrow>
         Inr \<lparr>gd_bucket = ge_bucket cfg, gd_prefix = ge_prefix cfg, gd_endpoint = endpoint, gd_creds = mode,
              gd_chunk_bytes = resolve_chunk_bytes (ge_chunk_bytes cfg), gd_algo = algo, gd_store = store,
              gd_client = client, gd_urls = U, gd_name_json = name_json, gd_meta = meta, gd_b64 = b64\<rparr>))"

section \<open>URLs and requests\<close>

definition gcs_url :: "gcs_dest \<Rightarrow> string list \<Rightarrow> string res" where
  "gcs_url G segments =
     (case ua_parse (gd_urls G) (gd_endpoint G) of
        Inl e \<Rightarrow> Inl (Permanent (''invalid gcs endpoint '' @ quoted (gd_endpoint G) @ '': '' @ e))
      | Inr url \<Rightarrow> need (''gcs endpoint '' @ quoted (gd_endpoint G) @ '' cannot be a base'')
                    (ua_extend (gd_urls G) url segments))"

definition upload_base_url :: "gcs_dest \<Rightarrow> string res" where
  "upload_base_url G = gcs_url G [''upload'', ''storage'', ''v1'', ''b'', gd_bucket G, ''o'']"

definition object_url :: "gcs_dest \<Rightarrow> string \<Rightarrow> string \<Rightarrow> string res" where
  "object_url G bucket object = gcs_url G [''storage'', ''v1'', ''b'', bucket, ''o'', object]"

definition gcs_auth :: "gcs_cred_mode \<Rightarrow> http_auth" where
  "gcs_auth m = (case m of Anonymous \<Rightarrow> NoAuth | AccessToken t \<Rightarrow> Bearer t)"

definition gcs_request :: "gcs_dest \<Rightarrow> http_request \<Rightarrow> http_response res act" where
  "gcs_request G rq = bnd (gd_client G rq) (\<lambda>r. ret (case r of Inl _ \<Rightarrow> Inl (classify_gcs None True) | Inr p \<Rightarrow> Inr p))"

definition gcs_get :: "gcs_dest \<Rightarrow> string \<Rightarrow> http_response res act" where
  "gcs_get G url =
     try_act (gcs_request G \<lparr>rq_verb = GetV, rq_url = url, rq_headers = [], rq_auth = gcs_auth (gd_creds G), rq_body = []\<rparr>)
       (\<lambda>p. if is_success (rp_status p) then ok p else err (classify_gcs (Some (rp_status p)) False))"

definition init_session :: "gcs_dest \<Rightarrow> string \<Rightarrow> string res act" where
  "init_session G object =
     try_act (ret (upload_base_url G)) (\<lambda>base.
     try_act (gcs_request G
       \<lparr>rq_verb = PostV, rq_url = ua_query (gd_urls G) base [(''uploadType'', ''resumable''), (''name'', object)],
        rq_headers = [(''content-type'', ''application/json; charset=UTF-8'')], rq_auth = gcs_auth (gd_creds G),
        rq_body = gd_name_json G object\<rparr>) (\<lambda>p.
     if \<not> is_success (rp_status p) then err (classify_gcs (Some (rp_status p)) False)
     else (case rp_headers p ''location'' of
             Some u \<Rightarrow> ok u
           | None \<Rightarrow> err (Transient ''gcs resumable session response missing Location header''))))"

datatype session_err = SessionGone | SessionFatal repl_error

text \<open>
  A chunk of the session. The range a \<open>308\<close> reports is compared with the expected count only
  for the log, so it does not show here.
\<close>

definition gcs_send_chunk :: "gcs_dest \<Rightarrow> string \<Rightarrow> string \<Rightarrow> bytes \<Rightarrow> (session_err + unit) act" where
  "gcs_send_chunk G uri rng body =
     bnd (gd_client G \<lparr>rq_verb = PutV, rq_url = uri, rq_headers = [(''content-range'', rng)], rq_auth = NoAuth, rq_body = body\<rparr>)
       (\<lambda>r. ret (case r of
          Inl _ \<Rightarrow> Inl (SessionFatal (classify_gcs None True))
        | Inr p \<Rightarrow>
            if rp_status p = 308 \<or> is_success (rp_status p) then Inr ()
            else if rp_status p = 404 \<or> rp_status p = 410 then Inl SessionGone
            else Inl (SessionFatal (classify_gcs (Some (rp_status p)) False))))"

section \<open>Deliver\<close>

definition gcs_persist :: "gcs_dest \<Rightarrow> work_item \<Rightarrow> string \<Rightarrow> string \<Rightarrow> u64 \<Rightarrow> i64 \<Rightarrow> u64 \<Rightarrow> unit act" where
  "gcs_persist G it object uri fsize mtime_ms committed =
     save_row (gd_store G) it ''gcs'' (gcs_to_resume
       \<lparr>gt_bucket = gd_bucket G, gt_object = object, gt_session_uri = uri, gt_size = fsize, gt_mtime_ms = mtime_ms,
        gt_committed = committed\<rparr>)"

definition gcs_clear :: "gcs_dest \<Rightarrow> work_item \<Rightarrow> unit act" where
  "gcs_clear G it = clear_row (gd_store G) it ''gcs''"

definition gcs_delivered :: "'h digests \<Rightarrow> gcs_dest \<Rightarrow> string \<Rightarrow> u64 \<Rightarrow> 'h hasher \<Rightarrow> delivered" where
  "gcs_delivered D G object n h =
     \<lparr>dl_bytes = n, dl_checksum = hasher_finish D h, dl_handle = gcs_handle (gd_bucket G) object (gd_algo G)\<rparr>"

definition run_session ::
  "'h digests \<Rightarrow> gcs_dest \<Rightarrow> work_item \<Rightarrow> string \<Rightarrow> u64 \<Rightarrow> i64 \<Rightarrow> string \<Rightarrow> u64 \<Rightarrow> (u64 \<Rightarrow> unit act)
   \<Rightarrow> (session_err + delivered) act" where
  "run_session D G it object fsize mtime_ms uri committed progress =
     try_with (fatal_err SessionFatal (hash_committed D (wi_abs_source it) committed (hasher_new D (gd_algo G)))) (\<lambda>h.
     seqn (gcs_persist G it object uri fsize mtime_ms committed)
       (seqn (set_sent committed)
         (try_with (chunk_loop (chunk_fuel fsize) D SessionFatal (wi_abs_source it) (gd_chunk_bytes G) fsize progress
             (\<lambda>s e buf. gcs_send_chunk G uri (content_range_header s e fsize) buf)
             (gcs_persist G it object uri fsize mtime_ms) committed h) (\<lambda>h'.
          seqn (gcs_clear G it) (ret (Inr (gcs_delivered D G object fsize h')))))))"

text \<open>An empty object needs no session.\<close>

definition gcs_empty :: "'h digests \<Rightarrow> gcs_dest \<Rightarrow> work_item \<Rightarrow> string \<Rightarrow> delivered res act" where
  "gcs_empty D G it object =
     try_act (ret (upload_base_url G)) (\<lambda>base.
     try_act (gcs_request G
       \<lparr>rq_verb = PostV, rq_url = ua_query (gd_urls G) base [(''uploadType'', ''media''), (''name'', object)],
        rq_headers = [], rq_auth = gcs_auth (gd_creds G), rq_body = []\<rparr>) (\<lambda>p.
     if \<not> is_success (rp_status p) then err (classify_gcs (Some (rp_status p)) False)
     else seqn (gcs_clear G it) (ok (gcs_delivered D G object 0 (hasher_new D (gd_algo G))))))"

definition gcs_reusable :: "gcs_dest \<Rightarrow> resume_state option \<Rightarrow> string \<Rightarrow> u64 \<Rightarrow> i64 \<Rightarrow> gcs_token option" where
  "gcs_reusable G resume object fsize mtime_ms =
     (case Option.bind resume gcs_from_resume of
        Some t \<Rightarrow> if gcs_matches t (gd_bucket G) object fsize mtime_ms then Some t else None
      | None \<Rightarrow> None)"

definition session_disappeared :: repl_error where
  "session_disappeared = Transient ''gcs resumable session disappeared during a fresh upload''"

definition fresh_session ::
  "'h digests \<Rightarrow> gcs_dest \<Rightarrow> work_item \<Rightarrow> string \<Rightarrow> u64 \<Rightarrow> i64 \<Rightarrow> (u64 \<Rightarrow> unit act) \<Rightarrow> delivered res act" where
  "fresh_session D G it object fsize mtime_ms progress =
     try_act (init_session G object) (\<lambda>uri.
     bnd (run_session D G it object fsize mtime_ms uri 0 progress) (\<lambda>r.
       case r of
         Inr d \<Rightarrow> ok d
       | Inl (SessionFatal e) \<Rightarrow> err e
       | Inl SessionGone \<Rightarrow> err session_disappeared))"

definition gcs_deliver ::
  "'h digests \<Rightarrow> gcs_dest \<Rightarrow> work_item \<Rightarrow> resume_state option \<Rightarrow> (u64 \<Rightarrow> unit act) \<Rightarrow> delivered res act" where
  "gcs_deliver D G it resume progress =
     try_act (map_err classify_io (fs_metadata (wi_abs_source it))) (\<lambda>(fsize, mtime_ms).
     let object = gcs_object_path (gd_prefix G) (wi_relpath it) in
     if fsize = 0 then gcs_empty D G it object
     else (case gcs_reusable G resume object fsize mtime_ms of
       None \<Rightarrow> fresh_session D G it object fsize mtime_ms progress
     | Some t \<Rightarrow>
         bnd (run_session D G it object fsize mtime_ms (gt_session_uri t) (min (gt_committed t) fsize) progress) (\<lambda>r.
           case r of
             Inr d \<Rightarrow> ok d
           | Inl (SessionFatal e) \<Rightarrow> err e
           | Inl SessionGone \<Rightarrow>
               seqn (gcs_clear G it) (fresh_session D G it object fsize mtime_ms progress))))"

section \<open>Verify and abort\<close>

definition fetch_metadata :: "gcs_dest \<Rightarrow> string \<Rightarrow> string \<Rightarrow> (string \<times> string option) res act" where
  "fetch_metadata G bucket object =
     try_act (ret (object_url G bucket object)) (\<lambda>url.
     try_act (gcs_get G url) (\<lambda>p.
     ret (case (if rp_cut p then None else gd_meta G (concat (rp_body p))) of
            Some m \<Rightarrow> Inr m
          | None \<Rightarrow> Inl (Transient ''gcs metadata response was not valid JSON''))))"

definition metadata_size :: "string \<times> string option \<Rightarrow> u64 res" where
  "metadata_size m =
     (case parse_uint 64 (fst m) of
        Some n \<Rightarrow> Inr (of_nat n)
      | None \<Rightarrow> Inl (Transient (''gcs metadata '' @ quoted ''size'' @ '' was not numeric'')))"

definition metadata_crc :: "gcs_dest \<Rightarrow> string \<times> string option \<Rightarrow> checksum res" where
  "metadata_crc G m =
     (case Option.bind (snd m) (b64_to_crc32c (gd_b64 G)) of
        Some c \<Rightarrow> Inr (Crc32c c)
      | None \<Rightarrow> Inl (Transient (''gcs metadata missing a valid '' @ quoted ''crc32c'' @ '' field'')))"

definition download_and_hash :: "gcs_dest \<Rightarrow> string \<Rightarrow> string \<Rightarrow> bytes list res act" where
  "download_and_hash G bucket object =
     try_act (ret (object_url G bucket object)) (\<lambda>url.
     try_act (gcs_get G (ua_query (gd_urls G) url [(''alt'', ''media'')])) (\<lambda>p.
     ret (whole_body classify_gcs p)))"

definition gcs_verify ::
  "'h digests \<Rightarrow> gcs_dest \<Rightarrow> work_item \<Rightarrow> delivered \<Rightarrow> verify_policy \<Rightarrow> unit res act" where
  "gcs_verify D G it dl pol =
     (if pol = VNone then ok ()
      else (case unwrap_or (handle_object (dl_handle dl)) (gd_bucket G, gcs_object_path (gd_prefix G) (wi_relpath it)) of
        (bucket, object) \<Rightarrow>
          if pol = VSize
          then try_act (fetch_metadata G bucket object) (\<lambda>m. ret (bind_res (metadata_size m) (verify_size (dl_bytes dl))))
          else if gd_algo G = AlgCrc32c
          then try_act (fetch_metadata G bucket object) (\<lambda>m. ret (
                 bind_res (metadata_size m) (\<lambda>n.
                 bind_res (verify_size (dl_bytes dl) n) (\<lambda>_.
                 bind_res (metadata_crc G m) (verify_checksum (dl_checksum dl))))))
          else try_act (download_and_hash G bucket object) (\<lambda>cs. ret (verify_digest D (gd_algo G) dl cs))))"

definition gcs_abort :: "gcs_dest \<Rightarrow> work_item \<Rightarrow> resume_state \<Rightarrow> unit res act" where
  "gcs_abort G it resume =
     (case gcs_from_resume resume of
        None \<Rightarrow> ok ()
      | Some t \<Rightarrow>
          if gt_committed t = 0 \<and> gt_session_uri t = [] then ok ()
          else try_act (gcs_request G
                 \<lparr>rq_verb = DeleteV, rq_url = gt_session_uri t, rq_headers = [], rq_auth = gcs_auth (gd_creds G), rq_body = []\<rparr>)
                 (\<lambda>p. if rp_status p = 499 \<or> is_success (rp_status p) \<or> rp_status p = 404 \<or> rp_status p = 410 then ok ()
                      else err (classify_gcs (Some (rp_status p)) False)))"

definition gcs_destination :: "'h digests \<Rightarrow> gcs_dest \<Rightarrow> destination" where
  "gcs_destination D G =
     \<lparr>d_kind = ''gcs'', d_supports_resume = True,
      d_deliver = gcs_deliver D G, d_verify = gcs_verify D G, d_abort = gcs_abort G\<rparr>"

end
