(* ===== verification/Azure_Dest.thy ===== *)
theory Azure_Dest
  imports Http_Dest
begin

text \<open>
  The Azure Blob destination (\<open>src/dest/azure/mod.rs\<close>, \<open>src/dest/azure/client.rs\<close>): a small
  file in one \<open>Put Blob\<close>, a large one in blocks staged one after the other, each followed by
  a checkpoint, and committed by one \<open>Put Block List\<close>. The SDK with the service is the record
  of actions \<open>azure_api\<close>; an error is the HTTP status it carries, if any.
\<close>

section \<open>Block planning\<close>

definition azure_default_threshold :: u64 where "azure_default_threshold = 16 * mib"
definition azure_default_block :: u64 where "azure_default_block = 16 * mib"
definition azure_max_block :: u64 where "azure_max_block = 4000 * mib"
definition azure_max_blocks :: u64 where "azure_max_blocks = 50000"

definition blob_path :: "string \<Rightarrow> string \<Rightarrow> string" where
  "blob_path prefix relpath = object_key prefix relpath"

record azure_block_cfg =
  bc_threshold_bytes :: "u64 option"
  bc_block_size_bytes :: "u64 option"

record azure_block_params =
  bp_threshold :: u64
  bp_block_size :: u64

definition block_resolve :: "azure_block_cfg \<Rightarrow> azure_block_params" where
  "block_resolve cfg =
     \<lparr>bp_threshold = unwrap_or (bc_threshold_bytes cfg) azure_default_threshold,
      bp_block_size = word_clamp 1 azure_max_block (unwrap_or (bc_block_size_bytes cfg) azure_default_block)\<rparr>"

datatype azure_plan = ASingle | ABlocks u64 u32

definition azure_plan_upload :: "u64 \<Rightarrow> azure_block_params \<Rightarrow> azure_plan" where
  "azure_plan_upload fsize p =
     (if fsize \<le> bp_threshold p then ASingle
      else (let min_by_count = word_div_ceil fsize azure_max_blocks;
                effective = word_clamp 1 azure_max_block (max (bp_block_size p) min_by_count)
            in ABlocks effective (ucast (word_div_ceil fsize effective))))"

definition pad_left :: "nat \<Rightarrow> string \<Rightarrow> string" where
  "pad_left n s = replicate (n - length s) (CHR ''0'') @ s"

definition block_id_bytes :: "u32 \<Rightarrow> bytes" where
  "block_id_bytes n = List.map of_char (''block-'' @ pad_left 10 (show_nat (unat n)))"

section \<open>Credentials\<close>

datatype azure_cred_mode = AccountKey string

record azure_egress =
  ae_account :: string
  ae_container :: string
  ae_prefix :: string
  ae_endpoint_url :: "string option"
  ae_credentials :: "json option"
  ae_account_key :: "string option"
  ae_connection_string :: "string option"
  ae_checksum_algorithm :: "string option"
  ae_blocks :: azure_block_cfg

definition key_entry :: "string \<Rightarrow> string option" where
  "key_entry pair =
     (case strip_prefix ''AccountKey='' (str_trim pair) of
        Some v \<Rightarrow> if v = [] then None else Some v
      | None \<Rightarrow> None)"

definition account_key_from_connection_string :: "string \<Rightarrow> string res" where
  "account_key_from_connection_string cs =
     (case List.map_filter key_entry (str_split (CHR '';'') cs) of
        k # _ \<Rightarrow> Inr k
      | [] \<Rightarrow> Inl (Permanent (''connection string has no '' @ quoted ''AccountKey='' @ '' entry'')))"

definition resolve_azure_credentials :: "azure_egress \<Rightarrow> secret_store option \<Rightarrow> azure_cred_mode res" where
  "resolve_azure_credentials cfg creds =
     (case ae_credentials cfg of
        Some v \<Rightarrow>
          bind_res (secret_json ''azure'' v creds) (\<lambda>(name, j).
          case secret_fields [''accountKey'', ''connectionString''] j of
            Some [Some key, _] \<Rightarrow> Inr (AccountKey key)
          | Some [None, Some cs] \<Rightarrow> map_res AccountKey (account_key_from_connection_string cs)
          | Some _ \<Rightarrow> Inl (Permanent (''secret '' @ quoted name @ '' must contain '' @ quoted ''accountKey''
                        @ '' or '' @ quoted ''connectionString''))
          | None \<Rightarrow> Inl (secret_shape ''azure'' creds name j))
      | None \<Rightarrow>
        (case ae_account_key cfg of
           Some key \<Rightarrow> Inr (AccountKey key)
         | None \<Rightarrow>
           (case ae_connection_string cfg of
              Some cs \<Rightarrow> map_res AccountKey (account_key_from_connection_string cs)
            | None \<Rightarrow> Inl (Permanent (''azure egress has no credentials: set accountKey, connectionString, ''
                        @ ''or credentials.$secret'')))))"

section \<open>Checkpoint and handle\<close>

record azure_token =
  at_blob :: string
  at_block_size :: u64
  at_size :: u64
  at_mtime_ms :: i64
  at_committed :: u64

definition azure_token_to_json :: "azure_token \<Rightarrow> json" where
  "azure_token_to_json t =
     JObj [(''blob'', JStr (at_blob t)), (''blockSize'', ju64 (at_block_size t)), (''size'', ju64 (at_size t)),
       (''mtimeMs'', JNum (at_mtime_ms t)), (''bytesCommitted'', ju64 (at_committed t))]"

definition azure_token_from_json :: "json \<Rightarrow> azure_token option" where
  "azure_token_from_json j =
     Option.bind (Option.bind (jget ''blob'' j) jas_str) (\<lambda>b.
     Option.bind (Option.bind (jget ''blockSize'' j) jas_u64) (\<lambda>bs.
     Option.bind (Option.bind (jget ''size'' j) jas_u64) (\<lambda>s.
     Option.bind (Option.bind (jget ''mtimeMs'' j) jas_i64) (\<lambda>m.
     Option.bind (or_default 0 jas_u64 (jget ''bytesCommitted'' j)) (\<lambda>c.
     Some \<lparr>at_blob = b, at_block_size = bs, at_size = s, at_mtime_ms = m, at_committed = c\<rparr>)))))"

definition azure_from_resume :: "resume_state \<Rightarrow> azure_token option" where
  "azure_from_resume r = Option.bind (jget ''azure'' (rs_token r)) azure_token_from_json"

definition azure_to_resume :: "azure_token \<Rightarrow> resume_state" where
  "azure_to_resume t = \<lparr>rs_bytes_committed = at_committed t, rs_token = JObj [(''azure'', azure_token_to_json t)]\<rparr>"

definition azure_matches :: "azure_token \<Rightarrow> string \<Rightarrow> u64 \<Rightarrow> u64 \<Rightarrow> i64 \<Rightarrow> bool" where
  "azure_matches t blob block_size fsize mtime_ms =
     (at_blob t = blob \<and> at_block_size t = block_size \<and> at_size t = fsize \<and> at_mtime_ms t = mtime_ms)"

definition azure_handle :: "string \<Rightarrow> algorithm \<Rightarrow> json" where
  "azure_handle blob algo = JObj [(''blob'', JStr blob), (''algo'', JStr (algo_name algo))]"

definition handle_blob_path :: "json \<Rightarrow> string option" where
  "handle_blob_path h = Option.bind (jget ''blob'' h) jas_str"

definition classify_azure :: "nat option \<Rightarrow> bool \<Rightarrow> repl_error" where
  "classify_azure status transport = classify_status ''azure'' status transport"

section \<open>The destination\<close>

type_synonym azure_error = "nat option"

record azure_api =
  aa_put_blob :: "string \<Rightarrow> bytes \<Rightarrow> (azure_error + unit) act"
  aa_put_block :: "string \<Rightarrow> bytes \<Rightarrow> bytes \<Rightarrow> (azure_error + unit) act"
  aa_put_block_list :: "string \<Rightarrow> bytes list \<Rightarrow> (azure_error + unit) act"
  aa_properties :: "string \<Rightarrow> (azure_error + u64) act"
  aa_get :: "string \<Rightarrow> (bytes list \<times> azure_error option) act"

record azure_dest =
  zd_account :: string
  zd_container :: string
  zd_prefix :: string
  zd_endpoint_url :: "string option"
  zd_creds :: azure_cred_mode
  zd_blocks :: azure_block_params
  zd_algo :: algorithm
  zd_store :: bool
  zd_client :: azure_api

definition azure_build :: "azure_egress \<Rightarrow> secret_store option \<Rightarrow> bool \<Rightarrow> azure_api \<Rightarrow> azure_dest res" where
  "azure_build cfg creds store client =
     bind_res (checksum_algorithm (ae_checksum_algorithm cfg)) (\<lambda>algo.
     bind_res (resolve_azure_credentials cfg creds) (\<lambda>mode.
     Inr \<lparr>zd_account = ae_account cfg, zd_container = ae_container cfg, zd_prefix = ae_prefix cfg,
          zd_endpoint_url = ae_endpoint_url cfg, zd_creds = mode, zd_blocks = block_resolve (ae_blocks cfg),
          zd_algo = algo, zd_store = store, zd_client = client\<rparr>))"

definition map_azure :: "azure_error \<Rightarrow> repl_error" where
  "map_azure e = (case e of Some s \<Rightarrow> classify_azure (Some s) False | None \<Rightarrow> classify_azure None True)"

definition azure_call :: "(azure_error + 'a) act \<Rightarrow> 'a res act" where
  "azure_call m = bnd m (\<lambda>r. ret (case r of Inl e \<Rightarrow> Inl (map_azure e) | Inr x \<Rightarrow> Inr x))"

section \<open>Deliver\<close>

definition azure_persist :: "azure_dest \<Rightarrow> work_item \<Rightarrow> string \<Rightarrow> u64 \<Rightarrow> u64 \<Rightarrow> i64 \<Rightarrow> u64 \<Rightarrow> unit act" where
  "azure_persist Z it blob block_size fsize mtime_ms committed =
     save_row (zd_store Z) it ''azure'' (azure_to_resume
       \<lparr>at_blob = blob, at_block_size = block_size, at_size = fsize, at_mtime_ms = mtime_ms, at_committed = committed\<rparr>)"

definition azure_clear :: "azure_dest \<Rightarrow> work_item \<Rightarrow> unit act" where
  "azure_clear Z it = clear_row (zd_store Z) it ''azure''"

definition azure_delivered :: "'h digests \<Rightarrow> azure_dest \<Rightarrow> work_item \<Rightarrow> string \<Rightarrow> u64 \<Rightarrow> 'h hasher \<Rightarrow> delivered res act" where
  "azure_delivered D Z it blob n h =
     seqn (azure_clear Z it)
       (ok \<lparr>dl_bytes = n, dl_checksum = hasher_finish D h, dl_handle = azure_handle blob (zd_algo Z)\<rparr>)"

definition azure_reusable :: "resume_state option \<Rightarrow> string \<Rightarrow> u64 \<Rightarrow> u64 \<Rightarrow> i64 \<Rightarrow> azure_token option" where
  "azure_reusable resume blob block_size fsize mtime_ms =
     (case Option.bind resume azure_from_resume of
        Some t \<Rightarrow> if azure_matches t blob block_size fsize mtime_ms then Some t else None
      | None \<Rightarrow> None)"

definition block_ids :: "u32 \<Rightarrow> bytes list" where
  "block_ids num_blocks = List.map block_id_bytes (part_numbers num_blocks)"

text \<open>Is the blob live at this size already? Then an earlier commit went through.\<close>

definition blob_committed_at_size :: "azure_dest \<Rightarrow> string \<Rightarrow> u64 \<Rightarrow> bool res act" where
  "blob_committed_at_size Z blob fsize =
     bnd (aa_properties (zd_client Z) blob) (\<lambda>r.
       case r of
         Inr n \<Rightarrow> ok (n = fsize)
       | Inl e \<Rightarrow> if e = Some 404 then ok False else err (map_azure e))"

definition commit_blocks ::
  "'h digests \<Rightarrow> azure_dest \<Rightarrow> work_item \<Rightarrow> string \<Rightarrow> u64 \<Rightarrow> u32 \<Rightarrow> 'h hasher \<Rightarrow> delivered res act" where
  "commit_blocks D Z it blob fsize num_blocks h =
     bnd (aa_put_block_list (zd_client Z) blob (block_ids num_blocks)) (\<lambda>r.
       case r of
         Inr _ \<Rightarrow> azure_delivered D Z it blob fsize h
       | Inl e \<Rightarrow>
           try_act (blob_committed_at_size Z blob fsize) (\<lambda>live.
           if live then azure_delivered D Z it blob fsize h else err (map_azure e)))"

definition deliver_blocks ::
  "'h digests \<Rightarrow> azure_dest \<Rightarrow> work_item \<Rightarrow> string \<Rightarrow> u64 \<Rightarrow> u64 \<Rightarrow> u32 \<Rightarrow> i64 \<Rightarrow> resume_state option
   \<Rightarrow> (u64 \<Rightarrow> unit act) \<Rightarrow> delivered res act" where
  "deliver_blocks D Z it blob fsize block_size num_blocks mtime_ms resume progress =
     (let committed = (case azure_reusable resume blob block_size fsize mtime_ms of
                         Some t \<Rightarrow> min (at_committed t) fsize | None \<Rightarrow> 0) in
      try_act (hash_committed D (wi_abs_source it) committed (hasher_new D (zd_algo Z))) (\<lambda>h.
      seqn (azure_persist Z it blob block_size fsize mtime_ms committed)
        (seqn (set_sent committed)
          (try_act (chunk_loop (chunk_fuel fsize) D (\<lambda>e. e) (wi_abs_source it) block_size fsize progress
              (\<lambda>s e buf. azure_call (aa_put_block (zd_client Z) blob (block_id_bytes (ucast (s div block_size) + 1)) buf))
              (azure_persist Z it blob block_size fsize mtime_ms) committed h)
            (commit_blocks D Z it blob fsize num_blocks)))))"

definition azure_deliver ::
  "'h digests \<Rightarrow> azure_dest \<Rightarrow> work_item \<Rightarrow> resume_state option \<Rightarrow> (u64 \<Rightarrow> unit act) \<Rightarrow> delivered res act" where
  "azure_deliver D Z it resume progress =
     try_act (map_err classify_io (fs_metadata (wi_abs_source it))) (\<lambda>(fsize, mtime_ms).
     let blob = blob_path (zd_prefix Z) (wi_relpath it) in
     case azure_plan_upload fsize (zd_blocks Z) of
       ASingle \<Rightarrow>
         seqn (set_sent 0)
           (try_act (read_source_range (wi_abs_source it) 0 fsize (report_total progress)) (\<lambda>buf.
            try_act (azure_call (aa_put_blob (zd_client Z) blob buf)) (\<lambda>_.
            azure_delivered D Z it blob fsize (hasher_update D (hasher_new D (zd_algo Z)) buf))))
     | ABlocks block_size num_blocks \<Rightarrow>
         deliver_blocks D Z it blob fsize block_size num_blocks mtime_ms resume progress)"

section \<open>Verify and abort\<close>

definition azure_verify ::
  "'h digests \<Rightarrow> azure_dest \<Rightarrow> work_item \<Rightarrow> delivered \<Rightarrow> verify_policy \<Rightarrow> unit res act" where
  "azure_verify D Z it dl pol =
     (if pol = VNone then ok ()
      else (let blob = unwrap_or (handle_blob_path (dl_handle dl)) (blob_path (zd_prefix Z) (wi_relpath it)) in
        if pol = VSize
        then try_act (azure_call (aa_properties (zd_client Z) blob)) (\<lambda>n. ret (verify_size (dl_bytes dl) n))
        else bnd (aa_get (zd_client Z) blob) (\<lambda>(cs, e). ret (
               case e of Some x \<Rightarrow> Inl (map_azure x) | None \<Rightarrow> verify_digest D (zd_algo Z) dl cs))))"

definition azure_abort :: "work_item \<Rightarrow> resume_state \<Rightarrow> unit res act" where
  "azure_abort it resume = ok ()"

definition azure_destination :: "'h digests \<Rightarrow> azure_dest \<Rightarrow> destination" where
  "azure_destination D Z =
     \<lparr>d_kind = ''azure'', d_supports_resume = True,
      d_deliver = azure_deliver D Z, d_verify = azure_verify D Z, d_abort = azure_abort\<rparr>"

end
