(* ===== verification/Sftp_Dest.thy ===== *)
theory Sftp_Dest
  imports Http_Dest
begin

text \<open>
  The SFTP destination (\<open>src/dest/sftp/mod.rs\<close>, \<open>src/dest/sftp/client.rs\<close>): the source is
  streamed into a hidden temporary file, from the offset that checkpoint and file agree on,
  and published by a rename; one session is kept until an operation fails for a reason that
  may be its death.

  The SSH and SFTP libraries with the server are the record \<open>sftp_api\<close>: the steps of the
  handshake, and the operations of a session, named by the number it was given.
\<close>

section \<open>Paths\<close>

definition sftp_remote_path :: "string \<Rightarrow> string \<Rightarrow> string" where
  "sftp_remote_path base_dir relpath = object_key base_dir relpath"

text \<open>The directory before the last slash, and the name after it.\<close>

definition split_last :: "string \<Rightarrow> string \<times> string" where
  "split_last s =
     (let name = rev (takeWhile (\<lambda>c. c \<noteq> CHR ''/'') (rev s)) in
      (take (length s - length name - 1) s, name))"

definition hidden_name :: "string \<Rightarrow> string \<Rightarrow> string" where
  "hidden_name remote suffix =
     (case split_last remote of (dir, filename) \<Rightarrow>
        let name = ''.'' @ filename @ suffix in if dir = [] then name else dir @ ''/'' @ name)"

fun dir_chain :: "string \<Rightarrow> string list \<Rightarrow> string list" where
  "dir_chain acc [] = []"
| "dir_chain acc (seg # segs) =
     (if seg = [] then dir_chain acc segs
      else (let acc' = (if acc = [] then seg else acc @ ''/'' @ seg) in acc' # dir_chain acc' segs))"

definition parent_dir_chain :: "string \<Rightarrow> string list" where
  "parent_dir_chain remote = dir_chain [] (butlast (str_split (CHR ''/'') remote))"

section \<open>Credentials and the host key\<close>

datatype sftp_key_source = KeyPath string | KeyInline string

datatype sftp_auth = SftpPassword string string | SftpPrivateKey string sftp_key_source "string option"

record sftp_egress =
  fe_host :: string
  fe_port :: "nat option"
  fe_base_dir :: string
  fe_credentials :: "json option"
  fe_username :: "string option"
  fe_password :: "string option"
  fe_private_key :: "string option"
  fe_passphrase :: "string option"
  fe_host_key :: "string option"
  fe_insecure_accept_any_host_key :: bool
  fe_temp_suffix :: "string option"
  fe_fsync :: bool
  fe_checksum_algorithm :: "string option"

definition secret_username :: "string \<Rightarrow> string option \<Rightarrow> string option \<Rightarrow> string res" where
  "secret_username name in_secret in_config =
     need (''secret '' @ quoted name @ '' has no '' @ quoted ''username'' @ '' and egress.username is not set'')
       (first_some in_secret in_config)"

definition resolve_sftp_credentials :: "sftp_egress \<Rightarrow> secret_store option \<Rightarrow> sftp_auth res" where
  "resolve_sftp_credentials cfg creds =
     (case fe_credentials cfg of
        Some v \<Rightarrow>
          bind_res (secret_json ''sftp'' v creds) (\<lambda>(name, j).
          case secret_fields [''username'', ''password'', ''privateKey'', ''passphrase''] j of
            Some [user, password, key, passphrase] \<Rightarrow>
              bind_res (secret_username name user (fe_username cfg)) (\<lambda>u.
              case (password, key) of
                (Some pw, _) \<Rightarrow> Inr (SftpPassword u pw)
              | (None, Some k) \<Rightarrow> Inr (SftpPrivateKey u (KeyInline k) passphrase)
              | (None, None) \<Rightarrow> Inl (Permanent (''secret '' @ quoted name @ '' has neither '' @ quoted ''password''
                    @ '' nor '' @ quoted ''privateKey'')))
          | _ \<Rightarrow> Inl (secret_shape ''sftp'' creds name j))
      | None \<Rightarrow>
        (case fe_password cfg of
           Some pw \<Rightarrow>
             map_res (\<lambda>u. SftpPassword u pw)
               (need ''egress.username is required when egress.password is set'' (fe_username cfg))
         | None \<Rightarrow>
           (case fe_private_key cfg of
              Some path \<Rightarrow>
                map_res (\<lambda>u. SftpPrivateKey u (KeyPath path) (fe_passphrase cfg))
                  (need ''egress.username is required when egress.privateKey is set'' (fe_username cfg))
            | None \<Rightarrow> Inl (Permanent (''sftp egress has no credentials: set password, privateKey, ''
                        @ ''or credentials.$secret'')))))"

definition key_fields :: "string \<Rightarrow> (string \<times> string) option" where
  "key_fields s = (case split_whitespace s of a # b # _ \<Rightarrow> Some (a, b) | _ \<Rightarrow> None)"

definition host_key_matches :: "string \<Rightarrow> string \<Rightarrow> bool" where
  "host_key_matches pinned actual =
     (case (key_fields (str_trim pinned), key_fields (str_trim actual)) of
        (Some a, Some b) \<Rightarrow> a = b
      | _ \<Rightarrow> False)"

datatype host_key_check = Accept | RejectUnpinned | RejectMismatch

definition check_host_key :: "string option \<Rightarrow> string \<Rightarrow> bool \<Rightarrow> host_key_check" where
  "check_host_key pinned presented insecure =
     (case pinned of
        Some want \<Rightarrow> if host_key_matches want presented then Accept else RejectMismatch
      | None \<Rightarrow> if insecure then Accept else RejectUnpinned)"

section \<open>Errors\<close>

datatype sftp_status =
    StOk | StEof | StNoSuchFile | StPermissionDenied | StFailure | StBadMessage | StNoConnection
  | StConnectionLost | StOpUnsupported

datatype sftp_error = SfStatus sftp_status | SfTimeout | SfIo | SfLimited | SfUnexpectedPacket | SfUnexpectedBehavior

datatype ssh_error =
    ShUnknownKey | ShKeyChanged | ShNotAuthenticated | ShUnsupportedAuthMethod | ShNoAuthMethod | ShWrongServerSig
  | ShHup | ShDisconnect | ShIo | ShConnectionTimeout | ShKeepaliveTimeout | ShInactivityTimeout | ShOther

fun sftp_error_kind :: "sftp_error \<Rightarrow> string" where
  "sftp_error_kind (SfStatus s) =
     (case s of
        StPermissionDenied \<Rightarrow> ''permission_denied'' | StNoSuchFile \<Rightarrow> ''no_such_file''
      | StBadMessage \<Rightarrow> ''bad_message'' | StOpUnsupported \<Rightarrow> ''op_unsupported''
      | StNoConnection \<Rightarrow> ''no_connection'' | StConnectionLost \<Rightarrow> ''connection_lost''
      | _ \<Rightarrow> ''failure'')"
| "sftp_error_kind SfTimeout = ''timeout''"
| "sftp_error_kind SfIo = ''connection_lost''"
| "sftp_error_kind _ = ''failure''"

definition is_permanent_kind :: "string \<Rightarrow> bool" where
  "is_permanent_kind k =
     (k \<in> set [''auth'', ''permission_denied'', ''host_key_mismatch'', ''no_such_file'', ''bad_message'', ''op_unsupported''])"

definition is_transient_kind :: "string \<Rightarrow> bool" where
  "is_transient_kind k = (k \<in> set [''no_connection'', ''connection_lost'', ''timeout'', ''failure''])"

definition classify_sftp :: "string \<Rightarrow> bool \<Rightarrow> repl_error" where
  "classify_sftp kind transport =
     (if transport then Transient (''sftp transport failure ('' @ kind @ '')'')
      else if kind = ''permission_denied'' then PermissionDenied (''sftp error: '' @ kind)
      else if is_permanent_kind kind then Permanent (''sftp error: '' @ kind)
      else if is_transient_kind kind then Transient (''sftp error: '' @ kind)
      else Transient (''sftp error (unclassified): '' @ kind))"

definition map_sftp :: "sftp_error \<Rightarrow> repl_error" where
  "map_sftp e = classify_sftp (sftp_error_kind e) False"

definition ssh_error_kind :: "ssh_error \<Rightarrow> string" where
  "ssh_error_kind e =
     (if e \<in> {ShUnknownKey, ShKeyChanged} then ''host_key_mismatch''
      else if e \<in> {ShNotAuthenticated, ShUnsupportedAuthMethod, ShNoAuthMethod, ShWrongServerSig} then ''auth''
      else if e = ShOther then ''failure'' else ''connection_lost'')"

definition is_ssh_transport :: "ssh_error \<Rightarrow> bool" where
  "is_ssh_transport e =
     (e \<in> {ShHup, ShDisconnect, ShIo, ShConnectionTimeout, ShKeepaliveTimeout, ShInactivityTimeout})"

definition map_ssh :: "ssh_error \<Rightarrow> repl_error" where
  "map_ssh e = classify_sftp (ssh_error_kind e) (is_ssh_transport e)"

section \<open>The libraries\<close>

text \<open>The handshake asks the callback about the key the server presents.\<close>

datatype sftp_login = LoginPassword string string | LoginKey string string

record sftp_api =
  sf_handshake :: "string \<Rightarrow> nat \<Rightarrow> (string \<Rightarrow> bool) \<Rightarrow> (ssh_error + nat) act"
  sf_load_key :: "sftp_key_source \<Rightarrow> string option \<Rightarrow> string + string"
  sf_login :: "nat \<Rightarrow> sftp_login \<Rightarrow> (ssh_error + bool) act"
  sf_subsystem :: "nat \<Rightarrow> (ssh_error + unit) act"
  sf_start :: "nat \<Rightarrow> (sftp_error + unit) act"
  sf_mkdir :: "nat \<Rightarrow> string \<Rightarrow> (sftp_error + unit) act"
  sf_size :: "nat \<Rightarrow> string \<Rightarrow> (sftp_error + u64 option) act"
  sf_open :: "nat \<Rightarrow> string \<Rightarrow> bool \<Rightarrow> (sftp_error + unit) act"
  sf_write :: "nat \<Rightarrow> string \<Rightarrow> u64 \<Rightarrow> bytes \<Rightarrow> (io_error + unit) act"
  sf_flush :: "nat \<Rightarrow> string \<Rightarrow> (io_error + unit) act"
  sf_sync :: "nat \<Rightarrow> string \<Rightarrow> (string + unit) act"
  sf_close :: "nat \<Rightarrow> string \<Rightarrow> (io_error + unit) act"
  sf_rename :: "nat \<Rightarrow> string \<Rightarrow> string \<Rightarrow> (sftp_error + unit) act"
  sf_remove :: "nat \<Rightarrow> string \<Rightarrow> (sftp_error + unit) act"
  sf_read :: "nat \<Rightarrow> string \<Rightarrow> (sftp_error + bytes list \<times> io_error option) act"

record sftp_dest =
  fd_host :: string
  fd_port :: nat
  fd_base_dir :: string
  fd_auth :: sftp_auth
  fd_host_key :: "string option"
  fd_insecure :: bool
  fd_temp_suffix :: string
  fd_fsync :: bool
  fd_algo :: algorithm
  fd_store :: bool
  fd_api :: sftp_api

definition sftp_build :: "sftp_egress \<Rightarrow> secret_store option \<Rightarrow> bool \<Rightarrow> sftp_api \<Rightarrow> sftp_dest res" where
  "sftp_build cfg creds store api =
     bind_res (checksum_algorithm (fe_checksum_algorithm cfg)) (\<lambda>algo.
     bind_res (resolve_sftp_credentials cfg creds) (\<lambda>auth.
     Inr \<lparr>fd_host = fe_host cfg, fd_port = unwrap_or (fe_port cfg) 22, fd_base_dir = fe_base_dir cfg, fd_auth = auth,
          fd_host_key = fe_host_key cfg, fd_insecure = fe_insecure_accept_any_host_key cfg,
          fd_temp_suffix = unwrap_or (fe_temp_suffix cfg) ''.part'', fd_fsync = fe_fsync cfg, fd_algo = algo,
          fd_store = store, fd_api = api\<rparr>))"

definition via_ssh :: "(ssh_error + 'a) act \<Rightarrow> 'a res act" where
  "via_ssh m = bnd m (\<lambda>r. ret (case r of Inl e \<Rightarrow> Inl (map_ssh e) | Inr x \<Rightarrow> Inr x))"

definition via_sftp :: "(sftp_error + 'a) act \<Rightarrow> 'a res act" where
  "via_sftp m = bnd m (\<lambda>r. ret (case r of Inl e \<Rightarrow> Inl (map_sftp e) | Inr x \<Rightarrow> Inr x))"

section \<open>The session\<close>

definition check_server_key :: "sftp_dest \<Rightarrow> string \<Rightarrow> bool" where
  "check_server_key F presented = (check_host_key (fd_host_key F) presented (fd_insecure F) = Accept)"

definition load_private_key :: "sftp_dest \<Rightarrow> sftp_key_source \<Rightarrow> string option \<Rightarrow> string res" where
  "load_private_key F src passphrase =
     (case sf_load_key (fd_api F) src passphrase of
        Inr k \<Rightarrow> Inr k
      | Inl e \<Rightarrow> Inl (Permanent (case src of
            KeyPath p \<Rightarrow> ''sftp private key '' @ quoted p @ '': '' @ e
          | KeyInline _ \<Rightarrow> ''sftp private key (inline): '' @ e)))"

definition sftp_login_of :: "sftp_dest \<Rightarrow> sftp_login res" where
  "sftp_login_of F =
     (case fd_auth F of
        SftpPassword u pw \<Rightarrow> Inr (LoginPassword u pw)
      | SftpPrivateKey u src passphrase \<Rightarrow> map_res (LoginKey u) (load_private_key F src passphrase))"

definition sftp_connect :: "sftp_dest \<Rightarrow> nat res act" where
  "sftp_connect F =
     try_act (via_ssh (sf_handshake (fd_api F) (fd_host F) (fd_port F) (check_server_key F))) (\<lambda>c.
     try_act (ret (sftp_login_of F)) (\<lambda>login.
     try_act (via_ssh (sf_login (fd_api F) c login)) (\<lambda>success.
     if \<not> success then err (Permanent ''sftp authentication failed'')
     else
       try_act (via_ssh (sf_subsystem (fd_api F) c)) (\<lambda>_.
       try_act (via_sftp (sf_start (fd_api F) c)) (\<lambda>_. ok c)))))"

definition set_session :: "nat option \<Rightarrow> unit act" where
  "set_session s w = (Some (), w\<lparr>w_session := s\<rparr>)"

definition sftp_conn :: "sftp_dest \<Rightarrow> nat res act" where
  "sftp_conn F =
     bnd (get_world w_session) (\<lambda>s.
       case s of
         Some c \<Rightarrow> ok c
       | None \<Rightarrow> try_act (sftp_connect F) (\<lambda>c. seqn (set_session (Some c)) (ok c)))"

definition reset_conn :: "nat \<Rightarrow> unit act" where
  "reset_conn failed = bnd (get_world w_session) (\<lambda>s. if s = Some failed then set_session None else ret ())"

definition invalidate_on_transient :: "nat \<Rightarrow> 'a res \<Rightarrow> unit act" where
  "invalidate_on_transient c r =
     (case r of Inl e \<Rightarrow> if is_transient e then reset_conn c else ret () | Inr _ \<Rightarrow> ret ())"

definition with_session :: "sftp_dest \<Rightarrow> (nat \<Rightarrow> 'a res act) \<Rightarrow> 'a res act" where
  "with_session F f =
     try_act (sftp_conn F) (\<lambda>c. bnd (f c) (\<lambda>r. seqn (invalidate_on_transient c r) (ret r)))"

section \<open>Deliver\<close>

definition checkpoint_every :: u64 where
  "checkpoint_every = 1024 * 1024"

definition sftp_persist :: "sftp_dest \<Rightarrow> work_item \<Rightarrow> string \<Rightarrow> u64 \<Rightarrow> i64 \<Rightarrow> u64 \<Rightarrow> unit act" where
  "sftp_persist F it temp fsize mtime_ms committed =
     save_offset (fd_store F) it ''sftp'' ''tempPath'' temp fsize mtime_ms committed"

definition sftp_clear :: "sftp_dest \<Rightarrow> work_item \<Rightarrow> unit act" where
  "sftp_clear F it = clear_row (fd_store F) it ''sftp''"

text \<open>
  The copy loop: \<open>put\<close> writes a buffer at an offset, \<open>persist\<close> saves the checkpoint once a
  mebibyte has gone since the last one.
\<close>

fun stream_loop ::
  "'h digests \<Rightarrow> (u64 \<Rightarrow> bytes \<Rightarrow> unit res act) \<Rightarrow> (u64 \<Rightarrow> unit act) \<Rightarrow> (u64 \<Rightarrow> unit act) \<Rightarrow> bytes list
   \<Rightarrow> 'h hasher \<Rightarrow> u64 \<Rightarrow> u64 \<Rightarrow> ('h hasher \<times> u64) res act" where
  "stream_loop D put persist progress [] h tot since =
     try_act (map_err classify_io fs_touch) (\<lambda>_. ok (h, tot))"
| "stream_loop D put persist progress (c # cs) h tot since =
     try_act (map_err classify_io fs_touch) (\<lambda>_.
     try_act (put tot c) (\<lambda>_.
     let tot' = tot + of_nat (length c); since' = since + of_nat (length c); h' = hasher_update D h c in
     seqn (progress tot')
       (if checkpoint_every \<le> since'
        then seqn (persist tot') (stream_loop D put persist progress cs h' tot' 0)
        else stream_loop D put persist progress cs h' tot' since')))"

fun ignore_all :: "('a \<Rightarrow> ('e + unit) act) \<Rightarrow> 'a list \<Rightarrow> unit act" where
  "ignore_all f [] = ret ()"
| "ignore_all f (x # xs) = seqn (f x) (ignore_all f xs)"

definition sftp_publish :: "sftp_api \<Rightarrow> nat \<Rightarrow> string \<Rightarrow> string \<Rightarrow> unit res act" where
  "sftp_publish A c temp remote =
     bnd (sf_rename A c temp remote) (\<lambda>r.
       case r of
         Inr _ \<Rightarrow> ok ()
       | Inl _ \<Rightarrow> seqn (sf_remove A c remote) (via_sftp (sf_rename A c temp remote)))"

definition sftp_committed :: "sftp_api \<Rightarrow> nat \<Rightarrow> string \<Rightarrow> u64 \<Rightarrow> offset_token option \<Rightarrow> u64 act" where
  "sftp_committed A c temp fsize reusable =
     (case reusable of
        None \<Rightarrow> ret 0
      | Some t \<Rightarrow>
          bnd (sf_size A c temp) (\<lambda>r. ret (case r of
            Inr n \<Rightarrow> min (min (unwrap_or n 0) (ot_committed t)) fsize
          | Inl _ \<Rightarrow> 0)))"

definition size_changed :: "string \<Rightarrow> u64 \<Rightarrow> u64 \<Rightarrow> repl_error" where
  "size_changed kind expected streamed =
     Transient (kind @ '' source size changed during transfer: expected '' @ show_nat (unat expected)
       @ '', streamed '' @ show_nat (unat streamed))"

definition sftp_finish :: "sftp_dest \<Rightarrow> nat \<Rightarrow> string \<Rightarrow> string \<Rightarrow> unit res act" where
  "sftp_finish F c temp remote =
     (let A = fd_api F in
      try_act (map_err classify_io (sf_flush A c temp)) (\<lambda>_.
      try_act (if fd_fsync F
               then bnd (sf_sync A c temp) (\<lambda>r. ret (case r of
                      Inr _ \<Rightarrow> Inr () | Inl e \<Rightarrow> Inl (Transient (''sftp fsync: '' @ e))))
               else ok ()) (\<lambda>_.
      try_act (map_err classify_io (sf_close A c temp)) (\<lambda>_. sftp_publish A c temp remote))))"

definition seek_to :: "u64 \<Rightarrow> unit res act" where
  "seek_to n = (if 0 < n then map_err classify_io fs_touch else ok ())"

text \<open>Re-hash what is there, open the source, and copy it from the offset on.\<close>

definition sftp_copy ::
  "'h digests \<Rightarrow> sftp_dest \<Rightarrow> nat \<Rightarrow> work_item \<Rightarrow> string \<Rightarrow> u64 \<Rightarrow> i64 \<Rightarrow> u64 \<Rightarrow> (u64 \<Rightarrow> unit act)
   \<Rightarrow> ('h hasher \<times> u64) res act" where
  "sftp_copy D F c it temp fsize mtime_ms committed progress =
     try_act (hash_committed D (wi_abs_source it) committed (hasher_new D (fd_algo F))) (\<lambda>h.
     try_act (seek_to committed) (\<lambda>_.
     try_act (map_err classify_io (fs_open (wi_abs_source it))) (\<lambda>content.
     try_act (seek_to committed) (\<lambda>_.
     stream_loop D (\<lambda>off buf. map_err classify_io (sf_write (fd_api F) c temp off buf))
       (sftp_persist F it temp fsize mtime_ms) progress
       (read_chunks (drop (unat committed) content)) h committed 0))))"

definition sftp_deliver_on ::
  "'h digests \<Rightarrow> sftp_dest \<Rightarrow> work_item \<Rightarrow> resume_state option \<Rightarrow> (u64 \<Rightarrow> unit act) \<Rightarrow> nat \<Rightarrow> delivered res act" where
  "sftp_deliver_on D F it resume progress c =
     try_act (map_err classify_io (fs_metadata (wi_abs_source it))) (\<lambda>(fsize, mtime_ms).
     let remote = sftp_remote_path (fd_base_dir F) (wi_relpath it);
         temp = hidden_name remote (fd_temp_suffix F); A = fd_api F in
     seqn (ignore_all (sf_mkdir A c) (parent_dir_chain remote))
       (bnd (sftp_committed A c temp fsize (offset_reusable ''sftp'' ''tempPath'' resume temp fsize mtime_ms)) (\<lambda>committed.
        try_act (via_sftp (sf_open A c temp (committed = 0))) (\<lambda>_.
        seqn (sftp_persist F it temp fsize mtime_ms committed)
          (try_act (sftp_copy D F c it temp fsize mtime_ms committed progress) (\<lambda>(h, tot).
           if tot \<noteq> fsize then err (size_changed ''sftp'' fsize tot)
           else
             try_act (sftp_finish F c temp remote) (\<lambda>_.
             seqn (sftp_clear F it)
               (ok \<lparr>dl_bytes = fsize, dl_checksum = hasher_finish D h,
                    dl_handle = JObj [(''remotePath'', JStr remote), (''algo'', JStr (algo_name (fd_algo F)))]\<rparr>))))))))"

section \<open>Verify and abort\<close>

definition handle_remote_path :: "json \<Rightarrow> string option" where
  "handle_remote_path h = Option.bind (jget ''remotePath'' h) jas_str"

definition sftp_verify_on ::
  "'h digests \<Rightarrow> sftp_dest \<Rightarrow> work_item \<Rightarrow> delivered \<Rightarrow> verify_policy \<Rightarrow> nat \<Rightarrow> unit res act" where
  "sftp_verify_on D F it dl pol c =
     (let remote = unwrap_or (handle_remote_path (dl_handle dl)) (sftp_remote_path (fd_base_dir F) (wi_relpath it)) in
      try_act (via_sftp (sf_size (fd_api F) c remote)) (\<lambda>n.
      case pol of
        VNone \<Rightarrow> ok ()
      | VSize \<Rightarrow> ret (verify_size (dl_bytes dl) (unwrap_or n 0))
      | VChecksum \<Rightarrow>
          try_act (ret (verify_size (dl_bytes dl) (unwrap_or n 0))) (\<lambda>_.
          try_act (via_sftp (sf_read (fd_api F) c remote)) (\<lambda>(cs, e).
          ret (case e of
                 Some x \<Rightarrow> Inl (classify_io x)
               | None \<Rightarrow> verify_checksum (dl_checksum dl)
                   (hasher_finish D (foldl (hasher_update D) (hasher_new D (fd_algo F)) cs)))))))"

definition sftp_abort_on :: "sftp_dest \<Rightarrow> resume_state \<Rightarrow> nat \<Rightarrow> unit res act" where
  "sftp_abort_on F resume c =
     (case offset_from_resume ''sftp'' ''tempPath'' resume of
        None \<Rightarrow> ok ()
      | Some t \<Rightarrow>
          bnd (sf_remove (fd_api F) c (ot_target t)) (\<lambda>r. ret (case r of
            Inr _ \<Rightarrow> Inr ()
          | Inl e \<Rightarrow> if e = SfStatus StNoSuchFile then Inr () else Inl (map_sftp e))))"

definition sftp_destination :: "'h digests \<Rightarrow> sftp_dest \<Rightarrow> destination" where
  "sftp_destination D F =
     \<lparr>d_kind = ''sftp'', d_supports_resume = True,
      d_deliver = (\<lambda>it r progress. with_session F (sftp_deliver_on D F it r progress)),
      d_verify = (\<lambda>it dl pol. with_session F (sftp_verify_on D F it dl pol)),
      d_abort = (\<lambda>it rs. with_session F (sftp_abort_on F rs))\<rparr>"

end
