(* ===== verification/Ftps_Dest.thy ===== *)
theory Ftps_Dest
  imports Sftp_Dest
begin

text \<open>
  The FTPS destination (\<open>src/dest/ftps/mod.rs\<close>, \<open>src/dest/ftps/client.rs\<close>): every operation logs
  in on a connection of its own; the upload streams into a hidden temporary file from the
  offset checkpoint and server agree on, and is published by a rename. The upload runs in a
  blocking task that looks at a cancellation flag before each read: \<open>cancel\<close> counts the reads
  until the flag is set.

  The FTP library with the server is the record \<open>ftps_api\<close>; TLS and the transfer mode have no
  effect on the state. The path functions are copies of those of the SFTP destination.
\<close>

section \<open>Decisions\<close>

definition ftps_remote_path :: "string \<Rightarrow> string \<Rightarrow> string" where
  "ftps_remote_path base_dir relpath = object_key base_dir relpath"

definition ftps_temp_path :: "string \<Rightarrow> string \<Rightarrow> string" where
  "ftps_temp_path remote suffix = hidden_name remote suffix"

definition ftps_dir_chain :: "string \<Rightarrow> string list" where
  "ftps_dir_chain remote = dir_chain [] (butlast (str_split (CHR ''/'') remote))"

record ftps_auth =
  pa_username :: string
  pa_password :: string

record ftps_egress =
  pe_host :: string
  pe_port :: "nat option"
  pe_base_dir :: string
  pe_credentials :: "json option"
  pe_username :: "string option"
  pe_password :: "string option"
  pe_explicit_tls :: "bool option"
  pe_passive :: "bool option"
  pe_temp_suffix :: "string option"
  pe_checksum_algorithm :: "string option"

definition resolve_ftps_credentials :: "ftps_egress \<Rightarrow> secret_store option \<Rightarrow> ftps_auth res" where
  "resolve_ftps_credentials cfg creds =
     (case pe_credentials cfg of
        Some v \<Rightarrow>
          bind_res (secret_json ''ftps'' v creds) (\<lambda>(name, j).
          case (secret_fields [''username''] j, Option.bind (jget ''password'' j) jas_str) of
            (Some [user], Some pw) \<Rightarrow>
              map_res (\<lambda>u. \<lparr>pa_username = u, pa_password = pw\<rparr>) (secret_username name user (pe_username cfg))
          | _ \<Rightarrow> Inl (secret_shape ''ftps'' creds name j))
      | None \<Rightarrow>
        (case pe_password cfg of
           Some pw \<Rightarrow>
             map_res (\<lambda>u. \<lparr>pa_username = u, pa_password = pw\<rparr>)
               (need ''egress.username is required when egress.password is set'' (pe_username cfg))
         | None \<Rightarrow> Inl (Permanent ''ftps egress has no credentials: set password or credentials.$secret'')))"

definition is_permanent_ftp_code :: "nat \<Rightarrow> bool" where
  "is_permanent_ftp_code c = (c \<in> set [530, 532, 550, 551, 552, 553])"

definition is_transient_ftp_code :: "nat \<Rightarrow> bool" where
  "is_transient_ftp_code c = (c \<in> set [421, 425, 426, 450, 451, 452])"

definition classify_ftps :: "nat option \<Rightarrow> bool \<Rightarrow> repl_error" where
  "classify_ftps code transport =
     (if transport then Transient (''ftps transport failure'' @ status_suffix code)
      else (case code of
         Some c \<Rightarrow>
           if is_permanent_ftp_code c then Permanent (''ftps error: '' @ show_nat c)
           else if is_transient_ftp_code c then Transient (''ftps error: '' @ show_nat c)
           else Transient (''ftps error (unclassified): '' @ show_nat c)
       | None \<Rightarrow> Transient ''ftps error (unclassified)''))"

text \<open>An error of the library: a reply with its code, a lost connection, anything else.\<close>

datatype ftps_error = FtReply nat | FtConnection | FtOther

definition ftp_reply_code :: "ftps_error \<Rightarrow> nat option" where
  "ftp_reply_code e = (case e of FtReply c \<Rightarrow> Some c | _ \<Rightarrow> None)"

definition map_ftp :: "ftps_error \<Rightarrow> bool \<Rightarrow> repl_error" where
  "map_ftp e transport = classify_ftps (ftp_reply_code e) (transport \<or> e = FtConnection)"

section \<open>The destination\<close>

record ftps_api =
  ft_connect :: "string \<Rightarrow> (ftps_error + unit) act"
  ft_secure :: "string \<Rightarrow> (ftps_error + unit) act"
  ft_login :: "string \<Rightarrow> string \<Rightarrow> (ftps_error + unit) act"
  ft_binary :: "(ftps_error + unit) act"
  ft_mkdir :: "string \<Rightarrow> (ftps_error + unit) act"
  ft_size :: "string \<Rightarrow> (ftps_error + u64) act"
  ft_rest :: "u64 \<Rightarrow> (ftps_error + unit) act"
  ft_stor :: "string \<Rightarrow> u64 \<Rightarrow> (ftps_error + unit) act"
  ft_write :: "string \<Rightarrow> u64 \<Rightarrow> bytes \<Rightarrow> (io_error + unit) act"
  ft_finalize :: "string \<Rightarrow> (ftps_error + unit) act"
  ft_rename :: "string \<Rightarrow> string \<Rightarrow> (ftps_error + unit) act"
  ft_rm :: "string \<Rightarrow> (ftps_error + unit) act"
  ft_retr :: "string \<Rightarrow> (ftps_error + bytes list) act"

record ftps_dest =
  pd_host :: string
  pd_port :: nat
  pd_base_dir :: string
  pd_auth :: ftps_auth
  pd_explicit_tls :: bool
  pd_passive :: bool
  pd_temp_suffix :: string
  pd_algo :: algorithm
  pd_store :: bool
  pd_api :: ftps_api

definition ftps_build :: "ftps_egress \<Rightarrow> secret_store option \<Rightarrow> bool \<Rightarrow> ftps_api \<Rightarrow> ftps_dest res" where
  "ftps_build cfg creds store api =
     bind_res (checksum_algorithm (pe_checksum_algorithm cfg)) (\<lambda>algo.
     if \<not> unwrap_or (pe_explicit_tls cfg) True
     then Inl (Permanent (''ftps implicit TLS (egress.explicitTls: false) is not supported in this build; ''
            @ ''use explicit AUTH TLS (the default)''))
     else
       bind_res (resolve_ftps_credentials cfg creds) (\<lambda>auth.
       Inr \<lparr>pd_host = pe_host cfg, pd_port = unwrap_or (pe_port cfg) 21, pd_base_dir = pe_base_dir cfg, pd_auth = auth,
            pd_explicit_tls = True, pd_passive = unwrap_or (pe_passive cfg) True,
            pd_temp_suffix = unwrap_or (pe_temp_suffix cfg) ''.part'', pd_algo = algo, pd_store = store, pd_api = api\<rparr>))"

definition via_ftp :: "bool \<Rightarrow> (ftps_error + 'a) act \<Rightarrow> 'a res act" where
  "via_ftp transport m = bnd m (\<lambda>r. ret (case r of Inl e \<Rightarrow> Inl (map_ftp e transport) | Inr x \<Rightarrow> Inr x))"

definition connect_and_login :: "ftps_dest \<Rightarrow> unit res act" where
  "connect_and_login P =
     (let A = pd_api P in
      try_act (via_ftp True (ft_connect A (pd_host P @ '':'' @ show_nat (pd_port P)))) (\<lambda>_.
      try_act (via_ftp False (ft_secure A (pd_host P))) (\<lambda>_.
      try_act (via_ftp False (ft_login A (pa_username (pd_auth P)) (pa_password (pd_auth P)))) (\<lambda>_.
      via_ftp False (ft_binary A)))))"

section \<open>Deliver\<close>

definition ftps_persist :: "ftps_dest \<Rightarrow> work_item \<Rightarrow> string \<Rightarrow> u64 \<Rightarrow> i64 \<Rightarrow> u64 \<Rightarrow> unit act" where
  "ftps_persist P it temp fsize mtime_ms committed =
     save_offset (pd_store P) it ''ftps'' ''tempPath'' temp fsize mtime_ms committed"

definition ftps_cancelled :: repl_error where
  "ftps_cancelled = Transient ''ftps upload cancelled mid-transfer (window close / shutdown)''"

fun ftps_loop ::
  "nat option \<Rightarrow> 'h digests \<Rightarrow> (u64 \<Rightarrow> bytes \<Rightarrow> unit res act) \<Rightarrow> (u64 \<Rightarrow> unit act) \<Rightarrow> (u64 \<Rightarrow> unit act) \<Rightarrow> bytes list
   \<Rightarrow> 'h hasher \<Rightarrow> u64 \<Rightarrow> u64 \<Rightarrow> ('h hasher \<times> u64) res act" where
  "ftps_loop (Some 0) D put persist progress cs h tot since = err ftps_cancelled"
| "ftps_loop k D put persist progress [] h tot since =
     try_act (map_err classify_io fs_touch) (\<lambda>_. ok (h, tot))"
| "ftps_loop k D put persist progress (c # cs) h tot since =
     try_act (map_err classify_io fs_touch) (\<lambda>_.
     try_act (put tot c) (\<lambda>_.
     let tot' = tot + of_nat (length c); since' = since + of_nat (length c); h' = hasher_update D h c;
         k' = map_option (\<lambda>n. n - 1) k in
     seqn (progress tot')
       (if checkpoint_every \<le> since'
        then seqn (persist tot') (ftps_loop k' D put persist progress cs h' tot' 0)
        else ftps_loop k' D put persist progress cs h' tot' since')))"

definition ftps_publish :: "ftps_api \<Rightarrow> string \<Rightarrow> string \<Rightarrow> unit res act" where
  "ftps_publish A temp remote =
     bnd (ft_rename A temp remote) (\<lambda>r.
       case r of
         Inr _ \<Rightarrow> ok ()
       | Inl _ \<Rightarrow> seqn (ft_rm A remote) (via_ftp False (ft_rename A temp remote)))"

definition ftps_committed :: "ftps_api \<Rightarrow> string \<Rightarrow> u64 \<Rightarrow> offset_token option \<Rightarrow> u64 act" where
  "ftps_committed A temp fsize reusable =
     (case reusable of
        None \<Rightarrow> ret 0
      | Some t \<Rightarrow>
          bnd (ft_size A temp) (\<lambda>r. ret (case r of
            Inr n \<Rightarrow> min (min n (ot_committed t)) fsize
          | Inl _ \<Rightarrow> 0)))"

text \<open>Open the source, hash what is there, move both ends to the offset.\<close>

definition ftps_position ::
  "'h digests \<Rightarrow> ftps_dest \<Rightarrow> path \<Rightarrow> u64 \<Rightarrow> (bytes \<times> 'h hasher) res act" where
  "ftps_position D P p committed =
     try_act (map_err classify_io (fs_open p)) (\<lambda>content.
     try_act (hash_committed D p committed (hasher_new D (pd_algo P))) (\<lambda>h.
     try_act (seek_to committed) (\<lambda>_.
     try_act (if 0 < committed then via_ftp False (ft_rest (pd_api P) committed) else ok ()) (\<lambda>_.
     ok (content, h)))))"

definition ftps_copy ::
  "nat option \<Rightarrow> 'h digests \<Rightarrow> ftps_dest \<Rightarrow> work_item \<Rightarrow> string \<Rightarrow> u64 \<Rightarrow> i64 \<Rightarrow> u64 \<Rightarrow> (u64 \<Rightarrow> unit act)
   \<Rightarrow> ('h hasher \<times> u64) res act" where
  "ftps_copy cancel D P it temp fsize mtime_ms committed progress =
     try_act (ftps_position D P (wi_abs_source it) committed) (\<lambda>(content, h).
     seqn (ftps_persist P it temp fsize mtime_ms committed)
       (try_act (via_ftp False (ft_stor (pd_api P) temp committed)) (\<lambda>_.
        try_act (ftps_loop cancel D (\<lambda>off buf. map_err classify_io (ft_write (pd_api P) temp off buf))
            (ftps_persist P it temp fsize mtime_ms) progress (read_chunks (drop (unat committed) content)) h committed 0)
          (\<lambda>out. try_act (via_ftp False (ft_finalize (pd_api P) temp)) (\<lambda>_. ok out)))))"

definition ftps_deliver ::
  "nat option \<Rightarrow> 'h digests \<Rightarrow> ftps_dest \<Rightarrow> work_item \<Rightarrow> resume_state option \<Rightarrow> (u64 \<Rightarrow> unit act) \<Rightarrow> delivered res act" where
  "ftps_deliver cancel D P it resume progress =
     try_act (map_err classify_io (fs_metadata (wi_abs_source it))) (\<lambda>(fsize, mtime_ms).
     let remote = ftps_remote_path (pd_base_dir P) (wi_relpath it);
         temp = ftps_temp_path remote (pd_temp_suffix P); A = pd_api P in
     try_act (connect_and_login P) (\<lambda>_.
     seqn (ignore_all (ft_mkdir A) (ftps_dir_chain remote))
       (bnd (ftps_committed A temp fsize (offset_reusable ''ftps'' ''tempPath'' resume temp fsize mtime_ms)) (\<lambda>committed.
        try_act (ftps_copy cancel D P it temp fsize mtime_ms committed progress) (\<lambda>(h, tot).
        if tot \<noteq> fsize then err (size_changed ''ftps'' fsize tot)
        else
          try_act (ftps_publish A temp remote) (\<lambda>_.
          seqn (clear_row (pd_store P) it ''ftps'')
            (ok \<lparr>dl_bytes = tot, dl_checksum = hasher_finish D h,
                 dl_handle = JObj [(''remotePath'', JStr remote), (''algo'', JStr (algo_name (pd_algo P)))]\<rparr>)))))))"

section \<open>Verify and abort\<close>

definition ftps_verify ::
  "'h digests \<Rightarrow> ftps_dest \<Rightarrow> work_item \<Rightarrow> delivered \<Rightarrow> verify_policy \<Rightarrow> unit res act" where
  "ftps_verify D P it dl pol =
     (let remote = unwrap_or (handle_remote_path (dl_handle dl)) (ftps_remote_path (pd_base_dir P) (wi_relpath it)) in
      try_act (connect_and_login P) (\<lambda>_.
      try_act (via_ftp False (ft_size (pd_api P) remote)) (\<lambda>n.
      case pol of
        VNone \<Rightarrow> ok ()
      | VSize \<Rightarrow> ret (verify_size (dl_bytes dl) n)
      | VChecksum \<Rightarrow>
          try_act (ret (verify_size (dl_bytes dl) n)) (\<lambda>_.
          try_act (via_ftp False (ft_retr (pd_api P) remote)) (\<lambda>cs.
          ret (verify_checksum (dl_checksum dl)
                 (hasher_finish D (foldl (hasher_update D) (hasher_new D (pd_algo P)) cs))))))))"

definition ftps_abort :: "ftps_dest \<Rightarrow> work_item \<Rightarrow> resume_state \<Rightarrow> unit res act" where
  "ftps_abort P it resume =
     (case offset_from_resume ''ftps'' ''tempPath'' resume of
        None \<Rightarrow> ok ()
      | Some t \<Rightarrow>
          try_act (connect_and_login P) (\<lambda>_.
          bnd (ft_rm (pd_api P) (ot_target t)) (\<lambda>r. ret (case r of
            Inr _ \<Rightarrow> Inr ()
          | Inl e \<Rightarrow> if ftp_reply_code e = Some 550 then Inr () else Inl (map_ftp e False)))))"

definition ftps_destination :: "nat option \<Rightarrow> 'h digests \<Rightarrow> ftps_dest \<Rightarrow> destination" where
  "ftps_destination cancel D P =
     \<lparr>d_kind = ''ftps'', d_supports_resume = True,
      d_deliver = ftps_deliver cancel D P, d_verify = ftps_verify D P, d_abort = ftps_abort P\<rparr>"

end
