(* ===== verification/Remote_Laws.thy ===== *)
theory Remote_Laws
  imports Gcs_Dest Azure_Dest Ftps_Dest S3_Laws
begin

text \<open>
  The HTTP, GCS, Azure, SFTP and FTPS destinations stay within the worker's contract: a
  transfer, a verification or an abort leaves the tracked files, the events, the item states
  and the phases alone, whatever the service does and wherever it stops. The rules are derived
  once for any relation a transfer may not break (\<open>frame_order\<close>).
\<close>

context frame_order begin

lemma R_ok_err: "frames R (ok x)" "frames R (err e)"
  by (simp_all add: frames_def ok_def err_def wp_ret R_refl)

lemma R_case_sum: "(\<And>e. frames R (f e)) \<Longrightarrow> (\<And>x. frames R (g x)) \<Longrightarrow> frames R (case r of Inl e \<Rightarrow> f e | Inr x \<Rightarrow> g x)"
  by (simp split: sum.split)

lemma R_case_option: "frames R f \<Longrightarrow> (\<And>x. frames R (g x)) \<Longrightarrow> frames R (case r of None \<Rightarrow> f | Some x \<Rightarrow> g x)"
  by (simp split: option.split)

lemma R_case_prod: "(\<And>a b. frames R (f a b)) \<Longrightarrow> frames R (case p of (a, b) \<Rightarrow> f a b)"
  by (simp split: prod.split)

lemma R_if: "(b \<Longrightarrow> frames R m) \<Longrightarrow> (\<not> b \<Longrightarrow> frames R n) \<Longrightarrow> frames R (if b then m else n)"
  by simp

lemma R_try: "frames R m \<Longrightarrow> (\<And>x. frames R (f x)) \<Longrightarrow> frames R (try_act m f)"
  unfolding try_act_def by (intro R_bnd R_case_sum R_ret)

lemma R_with: "frames R m \<Longrightarrow> (\<And>x. frames R (f x)) \<Longrightarrow> frames R (try_with m f)"
  unfolding try_with_def by (intro R_bnd R_case_sum R_ret)

lemma R_map_err: "frames R m \<Longrightarrow> frames R (map_err f m)"
  unfolding map_err_def by (intro R_bnd R_ret)

lemma R_fatal: "frames R m \<Longrightarrow> frames R (fatal_err f m)"
  unfolding fatal_err_def by (intro R_bnd R_ret)

lemmas R_rules = R_ok_err R_ret R_get R_seqn R_bnd R_try R_with R_map_err R_fatal R_touch R_set_sent
  R_case_sum R_case_option R_case_prod R_if

lemma R_total: "(\<And>n. frames R (progress n)) \<Longrightarrow> frames R (report_total progress d)"
  unfolding report_total_def by (intro R_rules)

lemma R_range_loop:
  assumes "\<And>n. frames R (on_progress n)"
  shows "frames R (range_loop on_progress eof buf cs)"
  by (induction cs arbitrary: buf) (auto intro!: R_rules assms)

lemma R_read_source_range:
  assumes "\<And>n. frames R (progress n)"
  shows "frames R (read_source_range p offset len (report_total progress))"
  unfolding read_source_range_def Let_def by (intro R_rules R_range_loop R_total assms)

lemma R_prefix_loop: "frames R (prefix_loop D short cs h)"
  by (induction cs arbitrary: h) (auto intro!: R_rules)

lemma R_hash_committed: "frames R (hash_committed D p n h)"
  unfolding hash_committed_def hash_local_prefix_def by (intro R_rules R_prefix_loop)

lemma R_chunk_loop:
  assumes "\<And>n. frames R (progress n)" "\<And>s e buf. frames R (send s e buf)" "\<And>n. frames R (persist n)"
  shows "frames R (chunk_loop k D fatal p chunk fsize progress send persist committed h)"
proof (induction k arbitrary: committed h)
  case 0
  show ?case by (simp add: frames_def wp_def R_refl)
next
  case (Suc k)
  show ?case unfolding chunk_loop.simps by (intro R_rules R_read_source_range assms Suc.IH)
qed

lemma R_stream_loop:
  assumes "\<And>n. frames R (progress n)" "\<And>s buf. frames R (put s buf)" "\<And>n. frames R (persist n)"
  shows "frames R (stream_loop D put persist progress cs h tot since)"
  by (induction cs arbitrary: h tot since) (auto simp: Let_def intro!: R_rules assms)

lemma R_ftps_loop:
  assumes "\<And>n. frames R (progress n)" "\<And>s buf. frames R (put s buf)" "\<And>n. frames R (persist n)"
  shows "frames R (ftps_loop k D put persist progress cs h tot since)"
proof (induction cs arbitrary: k h tot since)
  case Nil
  show ?case by (cases "k = Some 0"; cases k rule: option.exhaust; auto intro!: R_rules elim: nat.exhaust simp: gr0_conv_Suc dest!: gr0_implies_Suc)
next
  case (Cons c cs)
  have "frames R (ftps_loop (Some 0) D put persist progress (c # cs) h tot since)"
    by (simp add: R_rules)
  moreover have "frames R (ftps_loop k D put persist progress (c # cs) h tot since)" if "k \<noteq> Some 0"
  proof -
    consider "k = None" | n where "k = Some (Suc n)" using \<open>k \<noteq> Some 0\<close> by (metis not0_implies_Suc option.exhaust)
    then show ?thesis by cases (auto simp: Let_def intro!: R_rules assms Cons.IH)
  qed
  ultimately show ?case by blast
qed

lemma R_ignore_all: "(\<And>x. frames R (f x)) \<Longrightarrow> frames R (ignore_all f xs)"
  by (induction xs) (auto intro!: R_rules)

end

text \<open>Saving and clearing a checkpoint.\<close>

lemma kept_rows [framing]:
  "token_safe F (rs_token rs) \<Longrightarrow> frames (kept F) (save_row store it label rs)" "frames (kept F) (clear_row store it label)"
  unfolding save_row_def clear_row_def by (auto intro!: framing tokens_safe_save)

lemma kept_offset [framing]:
  "label \<noteq> ''temp'' \<Longrightarrow> frames (kept F) (save_offset store it label field target n m k)"
  unfolding save_offset_def by (rule kept_rows) (simp add: token_safe_def offset_to_resume_def)

lemmas kept_rules = kept_order.R_rules kept_rows kept_offset kept_order.R_read_source_range
  kept_order.R_hash_committed kept_order.R_chunk_loop kept_order.R_total kept_order.R_stream_loop
  kept_order.R_ftps_loop kept_order.R_ignore_all

section \<open>The contract\<close>

definition calm_client :: "path set \<Rightarrow> http_client \<Rightarrow> bool" where
  "calm_client F C = (\<forall>rq. frames (kept F) (C rq))"

lemma http_well_behaved: "calm_client F (hd_client H) \<Longrightarrow> well_behaved F it (http_destination D H)"
  unfolding well_behaved_def http_destination_def http_deliver_def http_single_def http_ranged_def http_delivered_def
    http_committed_def reconcile_remote_len_def http_bare_def http_send_chunk_def http_answer_def http_persist_def
    http_clear_def http_verify_def http_abort_def Let_def calm_client_def destination.simps
  by (intro conjI allI impI) (intro kept_rules; simp)+

lemma gcs_well_behaved: "calm_client F (gd_client G) \<Longrightarrow> well_behaved F it (gcs_destination D G)"
  unfolding well_behaved_def gcs_destination_def gcs_deliver_def gcs_empty_def fresh_session_def run_session_def init_session_def
    gcs_send_chunk_def gcs_request_def gcs_get_def gcs_persist_def gcs_clear_def gcs_verify_def fetch_metadata_def
    download_and_hash_def gcs_abort_def Let_def calm_client_def destination.simps
  by (intro conjI allI impI)
    (intro kept_rules; auto split: session_err.split intro!: kept_rules simp: token_safe_def gcs_to_resume_def)+

definition calm_azure :: "path set \<Rightarrow> azure_api \<Rightarrow> bool" where
  "calm_azure F A =
     ((\<forall>b x. frames (kept F) (aa_put_blob A b x)) \<and> (\<forall>b i x. frames (kept F) (aa_put_block A b i x))
      \<and> (\<forall>b ids. frames (kept F) (aa_put_block_list A b ids)) \<and> (\<forall>b. frames (kept F) (aa_properties A b))
      \<and> (\<forall>b. frames (kept F) (aa_get A b)))"

lemma azure_well_behaved: "calm_azure F (zd_client Z) \<Longrightarrow> well_behaved F it (azure_destination D Z)"
  unfolding well_behaved_def azure_destination_def azure_deliver_def deliver_blocks_def commit_blocks_def
    blob_committed_at_size_def azure_delivered_def azure_call_def azure_persist_def azure_clear_def azure_verify_def
    azure_abort_def Let_def calm_azure_def destination.simps
  by (intro conjI allI impI)
    (auto split: azure_plan.split intro!: kept_rules simp: token_safe_def azure_to_resume_def)+

definition calm_sftp :: "path set \<Rightarrow> sftp_api \<Rightarrow> bool" where
  "calm_sftp F A =
     ((\<forall>h p k. frames (kept F) (sf_handshake A h p k)) \<and> (\<forall>c l. frames (kept F) (sf_login A c l))
      \<and> (\<forall>c. frames (kept F) (sf_subsystem A c)) \<and> (\<forall>c. frames (kept F) (sf_start A c))
      \<and> (\<forall>c p. frames (kept F) (sf_mkdir A c p)) \<and> (\<forall>c p. frames (kept F) (sf_size A c p))
      \<and> (\<forall>c p b. frames (kept F) (sf_open A c p b)) \<and> (\<forall>c p n x. frames (kept F) (sf_write A c p n x))
      \<and> (\<forall>c p. frames (kept F) (sf_flush A c p)) \<and> (\<forall>c p. frames (kept F) (sf_sync A c p))
      \<and> (\<forall>c p. frames (kept F) (sf_close A c p)) \<and> (\<forall>c p q. frames (kept F) (sf_rename A c p q))
      \<and> (\<forall>c p. frames (kept F) (sf_remove A c p)) \<and> (\<forall>c p. frames (kept F) (sf_read A c p)))"

lemma kept_set_session: "frames (kept F) (set_session s)"
  by (simp add: frames_def wp_def set_session_def)

lemma sftp_well_behaved: "calm_sftp F (fd_api S) \<Longrightarrow> well_behaved F it (sftp_destination D S)"
  unfolding well_behaved_def sftp_destination_def with_session_def sftp_conn_def sftp_connect_def invalidate_on_transient_def
    reset_conn_def sftp_deliver_on_def sftp_committed_def sftp_copy_def sftp_finish_def sftp_publish_def seek_to_def via_ssh_def
    via_sftp_def sftp_persist_def sftp_clear_def sftp_verify_on_def sftp_abort_on_def Let_def calm_sftp_def destination.simps
  by (intro conjI allI impI)
    (auto split: verify_policy.split intro!: kept_rules kept_set_session)+

definition calm_ftps :: "path set \<Rightarrow> ftps_api \<Rightarrow> bool" where
  "calm_ftps F A =
     ((\<forall>a. frames (kept F) (ft_connect A a)) \<and> (\<forall>h. frames (kept F) (ft_secure A h))
      \<and> (\<forall>u p. frames (kept F) (ft_login A u p)) \<and> frames (kept F) (ft_binary A)
      \<and> (\<forall>p. frames (kept F) (ft_mkdir A p)) \<and> (\<forall>p. frames (kept F) (ft_size A p))
      \<and> (\<forall>n. frames (kept F) (ft_rest A n)) \<and> (\<forall>p n. frames (kept F) (ft_stor A p n))
      \<and> (\<forall>p n x. frames (kept F) (ft_write A p n x)) \<and> (\<forall>p. frames (kept F) (ft_finalize A p))
      \<and> (\<forall>p q. frames (kept F) (ft_rename A p q)) \<and> (\<forall>p. frames (kept F) (ft_rm A p))
      \<and> (\<forall>p. frames (kept F) (ft_retr A p)))"

lemma ftps_well_behaved: "calm_ftps F (pd_api P) \<Longrightarrow> well_behaved F it (ftps_destination cancel D P)"
  unfolding well_behaved_def ftps_destination_def ftps_deliver_def ftps_copy_def ftps_position_def ftps_committed_def
    ftps_publish_def connect_and_login_def via_ftp_def ftps_persist_def seek_to_def ftps_verify_def ftps_abort_def Let_def
    calm_ftps_def destination.simps
  by (intro conjI allI impI)
    (auto split: verify_policy.split intro!: kept_rules)+

end
