(* ===== verification/Ranged_Delivery.thy ===== *)
theory Ranged_Delivery
  imports Remote_Laws S3_Delivery
begin

text \<open>
  What the delivery theorems of the HTTP, GCS, Azure and SFTP destinations share: the relation
  a local read keeps, the rules of the reads, of the prefix hash and of the checkpoint row,
  and the loop over the chunks, for any invariant on the bytes the destination holds. Other
  processes may write the source at any time; a change shows in its modification time.
\<close>

section \<open>Checkpoint rows and local reads\<close>

definition ckpt :: "string \<Rightarrow> work_item \<Rightarrow> world \<Rightarrow> resume_state option" where
  "ckpt label it w = load_resume (wi_instance it) (wi_relpath it) label (w_db w)"

definition local_read :: "string \<Rightarrow> work_item \<Rightarrow> world \<Rightarrow> world \<Rightarrow> bool" where
  "local_read label it w w' =
     (advances w w' \<and> ckpt label it w' = ckpt label it w \<and> w_remote w' = w_remote w \<and> w_uploads w' = w_uploads w)"

lemma ckpt_upd [simp]:
  "ckpt label it (w\<lparr>w_fate := fs\<rparr>) = ckpt label it w" "ckpt label it (w\<lparr>w_sent := n\<rparr>) = ckpt label it w"
  "ckpt label it (w\<lparr>w_remote := x\<rparr>) = ckpt label it w" "ckpt label it (w\<lparr>w_uploads := y\<rparr>) = ckpt label it w"
  "ckpt label it (w\<lparr>w_session := z\<rparr>) = ckpt label it w"
  by (simp_all add: ckpt_def)

interpretation ranged_order: frame_order "local_read label it"
  by unfold_locales (auto simp: local_read_def intro: advances_trans)

lemma unat_length: "k < 2 ^ 64 \<Longrightarrow> unat (of_nat k :: u64) = k"
  by (simp add: unat_of_nat take_bit_nat_eq_self)

section \<open>Digests\<close>

definition lawful_digests :: "'h digests \<Rightarrow> bool" where
  "lawful_digests D = (incremental_digests D \<and> (\<forall>h. hasher_update D h [] = h))"

definition digest :: "'h digests \<Rightarrow> algorithm \<Rightarrow> bytes \<Rightarrow> checksum" where
  "digest D a c = hasher_finish D (hasher_update D (hasher_new D a) c)"

lemma hasher_foldl: "lawful_digests D \<Longrightarrow> foldl (hasher_update D) h cs = hasher_update D h (concat cs)"
  by (induction cs arbitrary: h) (simp_all add: lawful_digests_def hasher_update_append)

lemma sum_digests_lawful: "lawful_digests sum_digests"
proof -
  have "hasher_update sum_digests h [] = h" for h by (cases h) (simp_all add: hasher_update_def sum_digests_def)
  then show ?thesis by (simp add: lawful_digests_def sum_digests_incremental)
qed

lemma verify_digest_ok:
  assumes "lawful_digests D" "verify_digest D a dl cs = Inr ()"
  shows "of_nat (length (concat cs)) = dl_bytes dl" "dl_checksum dl = NoChecksum \<or> dl_checksum dl = digest D a (concat cs)"
proof -
  have fin: "hasher_finish D h \<noteq> NoChecksum" for h by (cases h) (simp_all add: hasher_finish_def)
  have "verify_size (dl_bytes dl) (of_nat (length (concat cs))) = Inr ()
      \<and> verify_checksum (dl_checksum dl) (hasher_finish D (foldl (hasher_update D) (hasher_new D a) cs)) = Inr ()"
    using assms(2) by (auto simp: verify_digest_def bind_res_def split: sum.splits)
  then show "of_nat (length (concat cs)) = dl_bytes dl" "dl_checksum dl = NoChecksum \<or> dl_checksum dl = digest D a (concat cs)"
    using fin by (auto simp: verify_size_ok verify_checksum_ok digest_def hasher_foldl [OF assms(1)])
qed

section \<open>Results of the reads\<close>

lemma map_err_Inr: "map_err f m w = (Some (Inr x), w') \<longleftrightarrow> m w = (Some (Inr x), w')"
  by (auto simp: map_err_def bnd_def ret_def split: prod.splits option.splits sum.splits)

lemma try_act_Inr: "try_act m f w = (Some (Inr y), w') \<longleftrightarrow> (\<exists>x v. m w = (Some (Inr x), v) \<and> f x v = (Some (Inr y), w'))"
  by (auto simp: try_act_def bnd_def ret_def split: prod.splits option.splits sum.splits)

lemma seqn_Some: "seqn m n w = (Some y, w') \<longleftrightarrow> (\<exists>x v. m w = (Some x, v) \<and> n v = (Some y, w'))"
  by (auto simp: seqn_def bnd_def split: prod.splits option.splits)

lemma range_loop_Inr:
  "range_loop on_progress eof buf cs w = (Some (Inr s), w') \<Longrightarrow> eof = None \<and> s = buf @ concat cs"
proof (induction cs arbitrary: buf w)
  case Nil
  then show ?case by (cases eof) (auto simp: ok_def err_def ret_def try_act_Inr)
next
  case (Cons c cs)
  from Cons.prems obtain v where "range_loop on_progress eof (buf @ c) cs v = (Some (Inr s), w')"
    by (auto simp: try_act_Inr seqn_Some)
  from Cons.IH [OF this] show ?case by simp
qed

lemma read_source_range_Inr:
  assumes "read_source_range p offset len on_progress w = (Some (Inr buf), w')"
  shows "\<exists>c. w_files w p = Some c \<and> buf = take (unat len) (drop (unat offset) c) \<and> length buf = unat len"
proof -
  from assms obtain c v where o: "fs_open p w = (Some (Inr c), v)"
    and l: "\<exists>u. range_loop on_progress
       (if length (take (unat len) (drop (unat offset) c)) < unat len
        then Some (source_truncated p offset len (length (take (unat len) (drop (unat offset) c)))) else None) []
       (read_chunks (take (unat len) (drop (unat offset) c))) u = (Some (Inr buf), w')"
    by (auto simp: read_source_range_def try_act_Inr map_err_Inr Let_def simp del: length_take length_drop)
  from l obtain u where u: "range_loop on_progress
       (if length (take (unat len) (drop (unat offset) c)) < unat len
        then Some (source_truncated p offset len (length (take (unat len) (drop (unat offset) c)))) else None) []
       (read_chunks (take (unat len) (drop (unat offset) c))) u = (Some (Inr buf), w')" by blast
  have "buf = take (unat len) (drop (unat offset) c)" "\<not> length (take (unat len) (drop (unat offset) c)) < unat len"
    using range_loop_Inr [OF u] by (auto simp: concat_read_chunks split: if_splits)
  then show ?thesis using fs_open_content [OF o] by auto
qed

lemma prefix_loop_Inr:
  "prefix_loop D short cs h w = (Some (Inr h'), w') \<Longrightarrow> h' = foldl (hasher_update D) h cs"
proof (induction cs arbitrary: h w)
  case Nil
  then show ?case by (auto simp: ok_def ret_def try_act_Inr split: if_splits)
next
  case (Cons c cs)
  from Cons.prems obtain v where "prefix_loop D short cs (hasher_update D h c) v = (Some (Inr h'), w')"
    by (auto simp: try_act_Inr)
  from Cons.IH [OF this] show ?case by simp
qed

lemma hash_committed_Inr:
  assumes "hash_committed D p k h w = (Some (Inr h'), w')" "lawful_digests D" "w_files w p = Some c"
  shows "h' = hasher_update D h (take (unat k) c)"
proof (cases "0 < k")
  case True
  then obtain c' v where "fs_open p w = (Some (Inr c'), v)"
    and l: "prefix_loop D (length c' < unat k) (read_chunks (take (unat k) c')) h v = (Some (Inr h'), w')"
    using assms(1) by (auto simp: hash_committed_def hash_local_prefix_def try_act_Inr map_err_Inr)
  then have "c' = c" using fs_open_content assms(3) by fastforce
  then show ?thesis using prefix_loop_Inr [OF l] by (simp add: hasher_foldl [OF assms(2)] concat_read_chunks)
next
  case False
  then have "k = 0" by (simp add: word_gt_0)
  then show ?thesis using assms by (simp add: hash_committed_def ok_def ret_def lawful_digests_def)
qed

lemma wp_result:
  assumes "wp m Q C w" "\<And>x w'. m w = (Some x, w') \<Longrightarrow> Q x w' \<Longrightarrow> Q' x w'" "\<And>w'. C w' \<Longrightarrow> C' w'"
  shows "wp m Q' C' w"
  using assms by (auto simp: wp_def split: option.splits prod.splits)

lemma wp_read_source_range:
  assumes progress: "\<And>n. frames (local_read label it) (progress n)"
    and got: "\<And>w' buf c. local_read label it w w' \<Longrightarrow> w_files w p = Some c \<Longrightarrow>
      buf = take (unat len) (drop (unat offset) c) \<Longrightarrow> length buf = unat len \<Longrightarrow> Q (Inr buf) w'"
    and failed: "\<And>w' e. local_read label it w w' \<Longrightarrow> Q (Inl e) w'"
    and died: "\<And>w'. local_read label it w w' \<Longrightarrow> C w'"
  shows "wp (read_source_range p offset len (report_total progress)) Q C w"
proof (rule wp_result [OF framesD [OF ranged_order.R_read_source_range [OF progress]]])
  fix x w' assume m: "read_source_range p offset len (report_total progress) w = (Some x, w')"
    and l: "local_read label it w w'"
  show "Q x w'"
  proof (cases x)
    case (Inl e)
    then show ?thesis using failed [OF l] by simp
  next
    case (Inr buf)
    then show ?thesis using read_source_range_Inr [of p offset len "report_total progress" w buf w'] m got [OF l] by auto
  qed
qed (rule died)

lemma wp_hash_committed:
  assumes D: "lawful_digests D"
    and got: "\<And>w' h'. local_read label it w w' \<Longrightarrow>
      (\<And>c. w_files w p = Some c \<Longrightarrow> h' = hasher_update D h (take (unat k) c)) \<Longrightarrow> Q (Inr h') w'"
    and failed: "\<And>w' e. local_read label it w w' \<Longrightarrow> Q (Inl e) w'"
    and died: "\<And>w'. local_read label it w w' \<Longrightarrow> C w'"
  shows "wp (hash_committed D p k h) Q C w"
proof (rule wp_result [OF framesD [OF ranged_order.R_hash_committed]])
  fix x w' assume m: "hash_committed D p k h w = (Some x, w')" and l: "local_read label it w w'"
  show "Q x w'"
    using m got [OF l] failed [OF l] hash_committed_Inr [OF _ D] by (cases x) auto
qed (rule died)

lemma wp_try_with [wp_rules]:
  "wp (try_with m f) Q C = wp m (\<lambda>r. case r of Inl e \<Rightarrow> Q (Inl e) | Inr x \<Rightarrow> wp (f x) Q C) C"
proof -
  have "(\<lambda>r. wp (case r of Inl e \<Rightarrow> ret (Inl e) | Inr x \<Rightarrow> f x) Q C)
      = (\<lambda>r. case r of Inl e \<Rightarrow> Q (Inl e) | Inr x \<Rightarrow> wp (f x) Q C)"
    by (rule ext) (simp add: wp_ret split: sum.split)
  then show ?thesis by (simp add: try_with_def wp_bnd)
qed

lemma wp_fatal_err [wp_rules]:
  "wp (fatal_err f m) Q C = wp m (\<lambda>r. Q (case r of Inl e \<Rightarrow> Inl (f e) | Inr x \<Rightarrow> Inr x)) C"
  by (simp add: fatal_err_def wp_bnd wp_ret)

lemma wp_save_row:
  assumes "\<And>fs. Q () (w\<lparr>w_fate := fs, w_db := save_resume (wi_instance it) (wi_relpath it) label rs (w_db w)\<rparr>)"
    "\<And>fs. Q () (w\<lparr>w_fate := fs\<rparr>)" "\<And>fs. C (w\<lparr>w_fate := fs\<rparr>)"
  shows "wp (save_row store it label rs) Q C w"
proof (cases store)
  case True
  then show ?thesis
    unfolding save_row_def using assms by (simp add: wp_seqn wp_ret) (rule wp_db_write, simp_all)
next
  case False
  then show ?thesis using assms(2) [of "w_fate w"] by (simp add: save_row_def wp_ret)
qed

lemma wp_clear_row:
  assumes "\<And>fs. Q () (w\<lparr>w_fate := fs, w_db := clear_resume (wi_instance it) (wi_relpath it) label (w_db w)\<rparr>)"
    "\<And>fs. Q () (w\<lparr>w_fate := fs\<rparr>)" "\<And>fs. C (w\<lparr>w_fate := fs\<rparr>)"
  shows "wp (clear_row store it label) Q C w"
proof (cases store)
  case True
  then show ?thesis
    unfolding clear_row_def using assms by (simp add: wp_seqn wp_ret) (rule wp_db_write, simp_all)
next
  case False
  then show ?thesis using assms(2) [of "w_fate w"] by (simp add: clear_row_def wp_ret)
qed

lemma ckpt_saved:
  "ckpt label it (w\<lparr>w_fate := fs, w_db := save_resume (wi_instance it) (wi_relpath it) label rs (w_db w)\<rparr>) = Some rs"
  "ckpt label it (w\<lparr>w_fate := fs, w_db := clear_resume (wi_instance it) (wi_relpath it) label (w_db w)\<rparr>) = None"
  by (simp_all add: ckpt_def load_save_resume row_cleared)

lemma offset_round_trip:
  "in_i64 (ot_mtime_ms t) \<Longrightarrow> field \<notin> {''size'', ''mtimeMs'', ''bytesCommitted''} \<Longrightarrow>
   offset_from_resume label field (offset_to_resume label field t) = Some t"
  by (auto simp: offset_from_resume_def offset_to_resume_def offset_from_json_def offset_to_json_def or_default_def)

section \<open>The source\<close>

text \<open>As long as the modification time is \<open>m\<close>, the source is \<open>c\<close>; it never goes back.\<close>

definition src_is :: "work_item \<Rightarrow> i64 \<Rightarrow> bytes \<Rightarrow> world \<Rightarrow> bool" where
  "src_is it m c w =
     (m \<le> w_mtime w (wi_abs_source it)
      \<and> (w_mtime w (wi_abs_source it) = m \<longrightarrow> w_files w (wi_abs_source it) = Some c))"

definition unmodified :: "work_item \<Rightarrow> i64 \<Rightarrow> world \<Rightarrow> bool" where
  "unmodified it m w = (w_mtime w (wi_abs_source it) = m)"

lemma src_is_step:
  assumes "src_is it m c w" "advances w w'"
  shows "src_is it m c w'" "unmodified it m w' \<Longrightarrow> unmodified it m w"
proof -
  let ?p = "wi_abs_source it"
  have le: "m \<le> w_mtime w ?p" "w_mtime w ?p \<le> w_mtime w' ?p"
    using assms(1) advances_le [OF assms(2)] by (simp_all add: src_is_def)
  show "unmodified it m w" if "unmodified it m w'" using that le by (simp add: unmodified_def)
  have "w_files w' ?p = Some c" if "w_mtime w' ?p = m"
  proof -
    have "w_mtime w ?p = m" using le that by linarith
    then show ?thesis using assms(1) advances_same [OF assms(2), of ?p] that by (simp add: src_is_def)
  qed
  then show "src_is it m c w'" using le by (simp add: src_is_def)
qed

lemma src_is_now: "w_files w (wi_abs_source it) = Some c \<Longrightarrow> src_is it (w_mtime w (wi_abs_source it)) c w"
  by (simp add: src_is_def)

lemma src_untouched: "src_is it m c w \<Longrightarrow> unmodified it m w \<Longrightarrow> w_files w (wi_abs_source it) = Some c"
  by (simp add: src_is_def unmodified_def)

lemma src_upd [simp]:
  "src_is it m c (w\<lparr>w_fate := fs\<rparr>) = src_is it m c w" "src_is it m c (w\<lparr>w_sent := n\<rparr>) = src_is it m c w"
  "src_is it m c (w\<lparr>w_db := d\<rparr>) = src_is it m c w" "unmodified it m (w\<lparr>w_fate := fs\<rparr>) = unmodified it m w"
  "unmodified it m (w\<lparr>w_sent := n\<rparr>) = unmodified it m w" "unmodified it m (w\<lparr>w_db := d\<rparr>) = unmodified it m w"
  by (simp_all add: src_is_def unmodified_def)

section \<open>Chunks\<close>

lemma chunk_geometry:
  assumes b: "chunk_bounds k chunk n = (s, e)" and k: "k < n" and small: "unat n + unat (max 1 chunk) < 2 ^ 64"
  shows "s = k" "unat (e + 1) = min (unat k + unat (max 1 chunk)) (unat n)" "unat (e - s + 1) = unat (e + 1) - unat k"
    "k < e + 1" "e + 1 \<le> n" "e < n"
proof -
  let ?m = "min (k + max 1 chunk) n"
  have e: "s = k" "e = ?m - 1" using b by (auto simp: chunk_bounds_def)
  have kn: "unat k < unat n" using k by (simp add: word_less_nat_alt)
  have "1 \<le> max 1 chunk" by simp
  then have mp: "0 < unat (max 1 chunk)" unfolding word_le_nat_alt by simp
  have add: "unat (k + max 1 chunk) = unat k + unat (max 1 chunk)"
    by (rule unat_add_lem [THEN iffD1]) (use kn small in simp)
  have um: "unat ?m = min (unat k + unat (max 1 chunk)) (unat n)"
    by (simp add: min_def word_le_nat_alt add)
  have pos: "unat k < unat ?m" using um kn mp by simp
  then have lt: "k < ?m" by (simp add: word_less_nat_alt)
  have e1: "e + 1 = ?m" using e by simp
  show "s = k" by (rule e)
  show "unat (e + 1) = min (unat k + unat (max 1 chunk)) (unat n)" using e1 um by simp
  show "k < e + 1" using lt e1 by simp
  show "e + 1 \<le> n" using e1 by simp
  have "e - s + 1 = (e + 1) - k" using e by simp
  then show "unat (e - s + 1) = unat (e + 1) - unat k"
    using unat_sub [OF less_imp_le [OF lt]] e1 by simp
  have "1 \<le> ?m" unfolding word_le_nat_alt using pos by simp
  then have "unat (?m - 1) = unat ?m - unat (1 :: u64)" by (rule unat_sub)
  then have "unat e = unat ?m - 1" using e by simp
  moreover have "unat ?m \<le> unat n" using um by simp
  ultimately show "e < n" using pos unfolding word_less_nat_alt by linarith
qed

lemma take_chunk: "i \<le> j \<Longrightarrow> take i c @ take (j - i) (drop i c) = take j c"
  by (metis le_add_diff_inverse take_add)

text \<open>
  The loop delivers: \<open>J k\<close> is what the destination holds once \<open>k\<close> bytes are confirmed. A
  round reads the chunk, sends it and persists the new offset; time may pass at each step.
\<close>

definition fed :: "'h digests \<Rightarrow> algorithm \<Rightarrow> work_item \<Rightarrow> i64 \<Rightarrow> bytes \<Rightarrow> 'h hasher \<Rightarrow> world \<Rightarrow> bool" where
  "fed D a it m x h w = (unmodified it m w \<longrightarrow> h = hasher_update D (hasher_new D a) x)"

definition round_ok ::
  "work_item \<Rightarrow> i64 \<Rightarrow> bytes \<Rightarrow> u64 \<Rightarrow> u64 \<Rightarrow> (u64 \<Rightarrow> u64 \<Rightarrow> bytes \<Rightarrow> ('e + unit) act) \<Rightarrow> (u64 \<Rightarrow> unit act)
   \<Rightarrow> (u64 \<Rightarrow> world \<Rightarrow> bool) \<Rightarrow> ('e \<Rightarrow> world \<Rightarrow> bool) \<Rightarrow> (world \<Rightarrow> bool) \<Rightarrow> bool" where
  "round_ok it m c chunk n send persist J E C =
     (\<forall>k s e buf w. J k w \<longrightarrow> src_is it m c w \<longrightarrow> k < n \<longrightarrow> chunk_bounds k chunk n = (s, e)
        \<longrightarrow> length buf = unat (e - s + 1) \<longrightarrow> (unmodified it m w \<longrightarrow> buf = take (length buf) (drop (unat s) c))
        \<longrightarrow> wp (send s e buf)
              (\<lambda>r w'. advances w w' \<and> (case r of Inl x \<Rightarrow> E x w'
                 | Inr _ \<Rightarrow> wp (persist (e + 1)) (\<lambda>_ w''. advances w' w'' \<and> J (e + 1) w'') C w')) C w)"

lemma chunk_loop_wp:
  assumes D: "lawful_digests D" and progress: "\<And>j. frames (local_read label it) (progress j)"
    and n: "unat n = length c" and small: "unat n + unat (max 1 chunk) < 2 ^ 64"
    and round: "round_ok it m c chunk n send persist J E C"
    and stable: "\<And>k w w'. J k w \<Longrightarrow> src_is it m c w \<Longrightarrow> local_read label it w w' \<Longrightarrow> J k w'"
    and fails: "\<And>k w x. J k w \<Longrightarrow> E (fatal x) w" and dies: "\<And>k w. J k w \<Longrightarrow> C w"
    and start: "J k w" "src_is it m c w" "k \<le> n" "fed D a it m (take (unat k) c) h w"
  shows "wp (chunk_loop fuel D fatal (wi_abs_source it) chunk n progress send persist k h)
    (\<lambda>r w'. case r of Inl x \<Rightarrow> E x w'
       | Inr h' \<Rightarrow> advances w w' \<and> src_is it m c w' \<and> J n w' \<and> fed D a it m c h' w') C w"
  using start
proof (induction fuel arbitrary: k h w)
  case 0
  then show ?case by (simp add: wp_def dies)
next
  case (Suc fuel)
  show ?case
  proof (cases "k < n")
    case False
    then have "k = n" using Suc.prems(3) by simp
    then show ?thesis using Suc.prems n by (simp add: wp_ret)
  next
    case True
    obtain s e where b: "chunk_bounds k chunk n = (s, e)" by (rule prod.exhaust)
    note g = chunk_geometry [OF b True small]
    let ?p = "wi_abs_source it"
    have next_round: "wp (chunk_loop fuel D fatal ?p chunk n progress send persist (e + 1) (hasher_update D h buf))
          (\<lambda>r w'. case r of Inl x \<Rightarrow> E x w'
             | Inr h' \<Rightarrow> advances w w' \<and> src_is it m c w' \<and> J n w' \<and> fed D a it m c h' w') C w3"
      if l: "local_read label it w w1" "advances w1 w2" "advances w2 w3" and j: "J (e + 1) w3"
        and buf: "w_files w ?p = Some c'" "buf = take (unat (e - s + 1)) (drop (unat s) c')" for w1 w2 w3 buf c'
    proof -
      have adv: "advances w w3" using l advances_trans unfolding local_read_def by blast
      have src: "src_is it m c w3" by (rule src_is_step [OF Suc.prems(2) adv])
      have fed: "fed D a it m (take (unat (e + 1)) c) (hasher_update D h buf) w3"
        unfolding fed_def
      proof
        assume "unmodified it m w3"
        then have u: "unmodified it m w" by (rule src_is_step(2) [OF Suc.prems(2) adv])
        then have "c' = c" using src_untouched [OF Suc.prems(2)] buf(1) by simp
        moreover have "h = hasher_update D (hasher_new D a) (take (unat k) c)"
          using Suc.prems(4) u by (simp add: fed_def)
        moreover have "take (unat k) c @ take (unat (e + 1) - unat k) (drop (unat k) c) = take (unat (e + 1)) c"
          by (rule take_chunk) (use g(4) in \<open>simp add: word_less_nat_alt\<close>)
        ultimately show "hasher_update D h buf = hasher_update D (hasher_new D a) (take (unat (e + 1)) c)"
          using D g(1,3) buf(2) by (simp add: lawful_digests_def hasher_update_append)
      qed
      show ?thesis
        by (rule wp_conseq [OF Suc.IH [OF j src g(5) fed]]) (auto split: sum.splits intro: advances_trans [OF adv])
    qed
    show ?thesis
      unfolding chunk_loop.simps if_P [OF True] b prod.case wp_rules
    proof (rule wp_read_source_range [OF progress], goal_cases)
      case (1 w1 buf c')
      note l = 1(1) and c' = 1(2) and buf = 1(3,4)
      have adv: "advances w w1" using l by (simp add: local_read_def)
      have J1: "J k w1" by (rule stable [OF Suc.prems(1,2) l])
      have src: "src_is it m c w1" by (rule src_is_step [OF Suc.prems(2) adv])
      have "unmodified it m w1 \<longrightarrow> buf = take (length buf) (drop (unat s) c)"
        using src_is_step(2) [OF Suc.prems(2) adv] src_untouched [OF Suc.prems(2)] c' buf by auto
      then have "wp (send s e buf)
              (\<lambda>r w'. advances w1 w' \<and> (case r of Inl x \<Rightarrow> E x w'
                 | Inr _ \<Rightarrow> wp (persist (e + 1)) (\<lambda>_ w''. advances w' w'' \<and> J (e + 1) w'') C w')) C w1"
        by (intro round [unfolded round_ok_def, rule_format, OF J1 src True b buf(2)]) simp
      then show ?case
        unfolding sum.case
      proof (rule wp_conseq, goal_cases)
        case (1 r w2)
        show ?case
        proof (cases r)
          case (Inl x)
          then show ?thesis using 1 by simp
        next
          case (Inr y)
          then have p: "wp (persist (e + 1)) (\<lambda>_ w''. advances w2 w'' \<and> J (e + 1) w'') C w2" and a: "advances w1 w2"
            using 1 by simp_all
          show ?thesis
            unfolding Inr sum.case
            by (rule wp_conseq [OF p]) (blast intro: next_round [OF l a _ _ c' buf(1)])+
        qed
      qed
    qed (use stable [OF Suc.prems(1,2)] fails dies in \<open>auto intro: dies [OF stable [OF Suc.prems(1,2)]]\<close>)
  qed
qed

text \<open>The fuel is enough: more of it changes nothing.\<close>

lemma chunk_loop_fuel:
  assumes "unat n + unat (max 1 chunk) < 2 ^ 64" "unat n - unat k < fuel"
  shows "chunk_loop (fuel + j) D fatal p chunk n progress send persist k h = chunk_loop fuel D fatal p chunk n progress send persist k h"
  using assms(2)
proof (induction fuel arbitrary: k h)
  case (Suc fuel)
  show ?case
  proof (cases "k < n")
    case True
    obtain s e where b: "chunk_bounds k chunk n = (s, e)" by (rule prod.exhaust)
    have "k < e + 1" "e + 1 \<le> n" by (rule chunk_geometry [OF b True assms(1)])+
    then have "unat n - unat (e + 1) < fuel" using Suc.prems True by (simp add: word_less_nat_alt word_le_nat_alt)
    then have "chunk_loop (fuel + j) D fatal p chunk n progress send persist (e + 1) h'
        = chunk_loop fuel D fatal p chunk n progress send persist (e + 1) h'" for h'
      by (rule Suc.IH)
    then show ?thesis using b True by simp
  qed simp
qed simp

end
