(* ===== verification/Offset_Delivery.thy ===== *)
theory Offset_Delivery
  imports Ranged_Delivery
begin

text \<open>
  Transfers that write a target at an offset (HTTP ranges, SFTP files): patches of an object,
  and the soundness of an offset checkpoint. Objects are compared byte by byte: a write of a
  range changes no other byte, whatever becomes of it, and the end of an object may get lost.
\<close>

section \<open>Patches\<close>

definition obj :: "string \<Rightarrow> string \<Rightarrow> world \<Rightarrow> bytes" where
  "obj b k w = unwrap_or (w_remote w b k) []"

text \<open>Each byte of the new object is an old one, or one of the body at its place.\<close>

definition patched :: "nat \<Rightarrow> bytes \<Rightarrow> bytes \<Rightarrow> bytes \<Rightarrow> bool" where
  "patched s body ob ob' =
     (\<forall>i<length ob'. (i < length ob \<and> ob' ! i = ob ! i)
        \<or> (s \<le> i \<and> i < s + length body \<and> ob' ! i = body ! (i - s)))"

definition written :: "nat \<Rightarrow> bytes \<Rightarrow> bytes \<Rightarrow> bytes \<Rightarrow> bool" where
  "written s body ob ob' =
     (patched s body ob ob' \<and> s + length body \<le> length ob' \<and> (\<forall>i<length body. ob' ! (s + i) = body ! i))"

definition agrees :: "nat \<Rightarrow> bytes \<Rightarrow> bytes \<Rightarrow> bool" where
  "agrees k ob c = (\<forall>i<length ob. i < k \<longrightarrow> i < length c \<and> ob ! i = c ! i)"

text \<open>The body is the part of \<open>c\<close> that belongs at \<open>s\<close>.\<close>

definition range_of :: "nat \<Rightarrow> bytes \<Rightarrow> bytes \<Rightarrow> bool" where
  "range_of s body c = (body = take (length body) (drop s c))"

lemma range_ofD:
  assumes "range_of s body c" "i < length body"
  shows "s + i < length c" "body ! i = c ! (s + i)"
proof -
  have "length body = length (take (length body) (drop s c))" using assms(1) by (simp add: range_of_def)
  then have l: "length body \<le> length c - s" by simp
  then show "s + i < length c" using assms(2) by simp
  have "body ! i = take (length body) (drop s c) ! i" using assms(1) by (simp add: range_of_def)
  also have "\<dots> = c ! (s + i)" using assms(2) l by simp
  finally show "body ! i = c ! (s + i)" .
qed

lemma patched_refl [simp]: "patched s body ob ob"
  by (simp add: patched_def)

lemma written_patched: "written s body ob ob' \<Longrightarrow> patched s body ob ob'"
  by (simp add: written_def)

lemma agrees_patched:
  assumes a: "agrees k ob c" and p: "patched s body ob ob'" and r: "range_of s body c"
  shows "agrees k ob' c"
  unfolding agrees_def
proof (intro allI impI)
  fix i assume i: "i < length ob'" "i < k"
  from p i(1) consider "i < length ob" "ob' ! i = ob ! i"
    | "s \<le> i" "i < s + length body" "ob' ! i = body ! (i - s)"
    unfolding patched_def by blast
  then show "i < length c \<and> ob' ! i = c ! i"
  proof cases
    case 1
    then show ?thesis using a i(2) by (simp add: agrees_def)
  next
    case 2
    then have "i - s < length body" by simp
    from range_ofD [OF r this] show ?thesis using 2 by simp
  qed
qed

lemma agrees_written:
  assumes a: "agrees s ob c" and wr: "written s body ob ob'" and r: "range_of s body c"
  shows "agrees (s + length body) ob' c"
  unfolding agrees_def
proof (intro allI impI)
  fix i assume i: "i < length ob'" "i < s + length body"
  show "i < length c \<and> ob' ! i = c ! i"
  proof (cases "i < s")
    case True
    then show ?thesis
      using agrees_patched [OF a written_patched [OF wr] r] i(1) by (simp add: agrees_def)
  next
    case False
    then have j: "i - s < length body" using i(2) by simp
    then have "ob' ! (s + (i - s)) = body ! (i - s)" using wr by (simp add: written_def)
    then show ?thesis using range_ofD [OF r j] False by simp
  qed
qed

lemma agrees_less: "agrees k ob c \<Longrightarrow> j \<le> k \<Longrightarrow> agrees j ob c"
  by (simp add: agrees_def)

lemma agrees_0 [simp]: "agrees 0 ob c"
  by (simp add: agrees_def)

lemma agrees_full: "agrees (length c) ob c \<Longrightarrow> length c \<le> length ob \<Longrightarrow> take (length c) ob = c"
  by (rule nth_equalityI) (auto simp: agrees_def)

section \<open>Offset checkpoints\<close>

text \<open>
  A checkpoint is sound when, as long as the source has the recorded modification time and
  size, what the target holds below the recorded offset is the source's. \<open>bound\<close> is the latest
  modification time a checkpoint may name.
\<close>

definition offset_sound :: "string \<Rightarrow> string \<Rightarrow> string \<Rightarrow> work_item \<Rightarrow> i64 \<Rightarrow> world \<Rightarrow> bool" where
  "offset_sound b label field it bound w =
     (\<forall>rs t. ckpt label it w = Some rs \<longrightarrow> offset_from_resume label field rs = Some t \<longrightarrow>
        ot_mtime_ms t \<le> bound
        \<and> (\<forall>c. unmodified it (ot_mtime_ms t) w \<longrightarrow> w_files w (wi_abs_source it) = Some c
             \<longrightarrow> of_nat (length c) = ot_size t \<longrightarrow> agrees (unat (ot_committed t)) (obj b (ot_target t) w) c))"

lemma offset_soundD:
  assumes "offset_sound b label field it bound w" "ckpt label it w = Some rs" "offset_from_resume label field rs = Some t"
  shows "ot_mtime_ms t \<le> bound"
    "unmodified it (ot_mtime_ms t) w \<Longrightarrow> w_files w (wi_abs_source it) = Some c \<Longrightarrow> of_nat (length c) = ot_size t
       \<Longrightarrow> agrees (unat (ot_committed t)) (obj b (ot_target t) w) c"
  using assms by (auto simp: offset_sound_def)

lemma offset_sound_later: "offset_sound b label field it bound w \<Longrightarrow> bound \<le> bound' \<Longrightarrow> offset_sound b label field it bound' w"
  unfolding offset_sound_def by (meson order_trans)

text \<open>One step of the world: the row stays, and only \<open>url\<close> may get bytes of the source.\<close>

definition touches :: "string \<Rightarrow> string \<Rightarrow> work_item \<Rightarrow> string \<Rightarrow> nat \<Rightarrow> bytes \<Rightarrow> world \<Rightarrow> world \<Rightarrow> bool" where
  "touches b label it url s body w w' =
     (advances w w' \<and> ckpt label it w' = ckpt label it w
      \<and> (\<forall>u. u \<noteq> url \<longrightarrow> obj b u w' = obj b u w) \<and> patched s body (obj b url w) (obj b url w'))"

lemma touches_sound:
  assumes sound: "offset_sound b label field it m w" and src: "src_is it m c w"
    and t: "touches b label it url s body w w'" and body: "unmodified it m w \<Longrightarrow> range_of s body c"
  shows "offset_sound b label field it m w'"
  unfolding offset_sound_def
proof (intro allI impI)
  fix rs tk assume row: "ckpt label it w' = Some rs" and tk: "offset_from_resume label field rs = Some tk"
  let ?p = "wi_abs_source it"
  have adv: "advances w w'" and row': "ckpt label it w = Some rs" using t row by (auto simp: touches_def)
  note old = offset_soundD [OF sound row' tk]
  have "agrees (unat (ot_committed tk)) (obj b (ot_target tk) w') c'"
    if u: "unmodified it (ot_mtime_ms tk) w'" and c': "w_files w' ?p = Some c'" "of_nat (length c') = ot_size tk" for c'
  proof -
    have "ot_mtime_ms tk \<le> m" "m \<le> w_mtime w ?p" "w_mtime w ?p \<le> w_mtime w' ?p"
      using old(1) src advances_le [OF adv] by (simp_all add: src_is_def)
    then have same: "w_mtime w ?p = m" "ot_mtime_ms tk = m" "w_mtime w' ?p = w_mtime w ?p"
      using u by (simp_all add: unmodified_def)
    then have f: "w_files w ?p = Some c'" using advances_same [OF adv, of ?p] c'(1) by simp
    have um: "unmodified it m w" using same by (simp add: unmodified_def)
    then have "c' = c" using src_untouched [OF src] f by simp
    have a: "agrees (unat (ot_committed tk)) (obj b (ot_target tk) w) c'"
      by (rule old(2) [OF _ f c'(2)]) (simp add: unmodified_def same)
    show ?thesis
    proof (cases "ot_target tk = url")
      case True
      then show ?thesis
        using agrees_patched [OF a _ body [OF um, folded \<open>c' = c\<close>]] t by (simp add: touches_def)
    next
      case False
      then show ?thesis using a t by (simp add: touches_def)
    qed
  qed
  then show "ot_mtime_ms tk \<le> m \<and> (\<forall>c. unmodified it (ot_mtime_ms tk) w' \<longrightarrow> w_files w' ?p = Some c
      \<longrightarrow> of_nat (length c) = ot_size tk \<longrightarrow> agrees (unat (ot_committed tk)) (obj b (ot_target tk) w') c)"
    using old(1) by blast
qed

lemma local_read_touches: "local_read label it w w' \<Longrightarrow> touches b label it url s [] w w'"
  by (simp add: local_read_def touches_def obj_def)

lemma local_read_sound:
  "offset_sound b label field it m w \<Longrightarrow> src_is it m c w \<Longrightarrow> local_read label it w w' \<Longrightarrow> offset_sound b label field it m w'"
  by (rule touches_sound [OF _ _ local_read_touches]) (simp_all add: range_of_def)

lemma offset_sound_upd [simp]:
  "offset_sound b label field it m (w\<lparr>w_fate := fs\<rparr>) = offset_sound b label field it m w"
  "offset_sound b label field it m (w\<lparr>w_sent := n\<rparr>) = offset_sound b label field it m w"
  by (simp_all add: offset_sound_def obj_def)

lemma obj_upd [simp]:
  "obj b u (w\<lparr>w_fate := fs\<rparr>) = obj b u w" "obj b u (w\<lparr>w_sent := n\<rparr>) = obj b u w" "obj b u (w\<lparr>w_db := d\<rparr>) = obj b u w"
  by (simp_all add: obj_def)

lemma wp_save_offset:
  assumes sound: "offset_sound b label field it m w" and src: "src_is it m c w" "of_nat (length c) = n"
    and here: "unmodified it m w \<Longrightarrow> agrees (unat k) (obj b target w) c"
    and i64: "in_i64 m" and field: "field \<notin> {''size'', ''mtimeMs'', ''bytesCommitted''}"
    and next_state: "\<And>w'. advances w w' \<Longrightarrow> offset_sound b label field it m w' \<Longrightarrow> w_files w' = w_files w \<Longrightarrow>
      w_mtime w' = w_mtime w \<Longrightarrow> w_remote w' = w_remote w \<Longrightarrow> Q () w' \<and> C w'"
  shows "wp (save_offset store it label field target n m k) Q C w"
  unfolding save_offset_def
proof (rule wp_save_row)
  fix fs
  let ?t = "\<lparr>ot_target = target, ot_size = n, ot_mtime_ms = m, ot_committed = k\<rparr>"
  let ?w = "w\<lparr>w_fate := fs, w_db := save_resume (wi_instance it) (wi_relpath it) label (offset_to_resume label field ?t) (w_db w)\<rparr>"
  have rt: "offset_from_resume label field (offset_to_resume label field ?t) = Some ?t"
    by (rule offset_round_trip) (use i64 field in simp_all)
  have "offset_sound b label field it m ?w"
    unfolding offset_sound_def ckpt_saved using rt here src src_untouched [OF src(1)]
    by (auto simp: obj_def)
  then show "Q () ?w" using next_state [of ?w] by simp
  show "Q () (w\<lparr>w_fate := fs\<rparr>)" "C (w\<lparr>w_fate := fs\<rparr>)"
    using next_state [of "w\<lparr>w_fate := fs\<rparr>"] sound by simp_all
qed

lemma wp_clear_offset:
  assumes "offset_sound b label field it m w"
    and "\<And>w'. advances w w' \<Longrightarrow> offset_sound b label field it m w' \<Longrightarrow> w_files w' = w_files w \<Longrightarrow>
      w_mtime w' = w_mtime w \<Longrightarrow> w_remote w' = w_remote w \<Longrightarrow> Q () w' \<and> C w'"
  shows "wp (clear_row store it label) Q C w"
proof (rule wp_clear_row)
  fix fs
  let ?w = "w\<lparr>w_fate := fs, w_db := clear_resume (wi_instance it) (wi_relpath it) label (w_db w)\<rparr>"
  have "offset_sound b label field it m ?w" by (simp add: offset_sound_def ckpt_saved)
  then show "Q () ?w" using assms(2) [of ?w] by simp
  show "Q () (w\<lparr>w_fate := fs\<rparr>)" "C (w\<lparr>w_fate := fs\<rparr>)"
    using assms(2) [of "w\<lparr>w_fate := fs\<rparr>"] assms(1) by simp_all
qed

lemma offset_reusable_Some:
  assumes "offset_reusable label field resume target n m = Some t" "resume = row \<or> resume = None"
  shows "\<exists>rs. row = Some rs \<and> offset_from_resume label field rs = Some t \<and> ot_target t = target \<and> ot_size t = n
    \<and> ot_mtime_ms t = m"
proof (cases resume)
  case None
  then show ?thesis using assms(1) by (simp add: offset_reusable_def)
next
  case (Some rs)
  then show ?thesis using assms by (auto simp: offset_reusable_def offset_matches_def split: option.splits if_splits)
qed

end
