(* ===== verification/Gcs_Delivery.thy ===== *)
theory Gcs_Delivery
  imports Offset_Delivery
begin

text \<open>
  The delivery theorem of the Cloud Storage destination. A resumable session is an entry of
  \<open>w_uploads\<close>: its object's name and the bytes staged so far. The code never asks the service how
  much it holds; that what is staged agrees with the source, whatever its length, is enough
  for the object to be right once the service publishes it.
\<close>

section \<open>The documented behaviour of the service\<close>

definition staged :: "string \<Rightarrow> world \<Rightarrow> (string \<times> bytes) option" where
  "staged uri w = w_uploads w uri 0"

lemma staged_upd [simp]:
  "staged u (w\<lparr>w_fate := fs\<rparr>) = staged u w" "staged u (w\<lparr>w_sent := n\<rparr>) = staged u w" "staged u (w\<lparr>w_db := d\<rparr>) = staged u w"
  by (simp_all add: staged_def)

text \<open>
  A chunk changes bytes of its range in its own session, which may also be gone afterwards. A
  \<open>308\<close> keeps the session and publishes nothing; a success publishes the staged bytes, the
  declared number of them. A new session is empty and its URI is new; an empty media upload
  stores the empty object.
\<close>

definition session_touch :: "work_item \<Rightarrow> string \<Rightarrow> nat \<Rightarrow> bytes \<Rightarrow> world \<Rightarrow> world \<Rightarrow> bool" where
  "session_touch it uri s body w w' =
     (advances w w' \<and> ckpt ''gcs'' it w' = ckpt ''gcs'' it w
      \<and> (\<forall>u ob st'. staged u w' = Some (ob, st') \<longrightarrow>
           (\<exists>st. staged u w = Some (ob, st) \<and> (if u = uri then patched s body st st' else st' = st))))"

definition chunk_law :: "work_item \<Rightarrow> string \<Rightarrow> http_client \<Rightarrow> bool" where
  "chunk_law it b C =
     (\<forall>rq s e n w. rq_verb rq = PutV \<longrightarrow> rq_headers rq = [(''content-range'', content_range_header s e n)] \<longrightarrow>
        wp (C rq)
          (\<lambda>r w'. session_touch it (rq_url rq) (unat s) (rq_body rq) w w'
             \<and> (\<forall>p. r = Inr p \<longrightarrow> (rp_status p = 308 \<longrightarrow> staged (rq_url rq) w' \<noteq> None)
                  \<and> (is_success (rp_status p) \<longrightarrow> (\<exists>ob st x. staged (rq_url rq) w = Some (ob, st)
                       \<and> patched (unat s) (rq_body rq) st x \<and> length x = unat n \<and> w_remote w' b ob = Some x))))
          (\<lambda>w'. session_touch it (rq_url rq) (unat s) (rq_body rq) w w') w)"

definition new_session :: "work_item \<Rightarrow> string \<Rightarrow> world \<Rightarrow> world \<Rightarrow> bool" where
  "new_session it new w w' =
     (advances w w' \<and> ckpt ''gcs'' it w' = ckpt ''gcs'' it w
      \<and> (\<forall>u x. u \<noteq> new \<longrightarrow> staged u w' = Some x \<longrightarrow> staged u w = Some x)
      \<and> (\<forall>rs t. ckpt ''gcs'' it w = Some rs \<longrightarrow> gcs_from_resume rs = Some t \<longrightarrow> gt_session_uri t \<noteq> new))"

definition session_law :: "work_item \<Rightarrow> string \<Rightarrow> url_api \<Rightarrow> http_client \<Rightarrow> bool" where
  "session_law it object U C =
     (\<forall>rq base w. rq_verb rq = PostV \<longrightarrow> rq_url rq = ua_query U base [(''uploadType'', ''resumable''), (''name'', object)]
        \<longrightarrow> rq_headers rq \<noteq> [] \<longrightarrow>
        wp (C rq)
          (\<lambda>r w'. \<exists>new. new_session it new w w'
             \<and> (\<forall>p u. r = Inr p \<longrightarrow> is_success (rp_status p) \<longrightarrow> rp_headers p ''location'' = Some u \<longrightarrow>
                  u = new \<and> staged u w' = Some (object, [])))
          (\<lambda>w'. \<exists>new. new_session it new w w') w)"

definition media_law :: "work_item \<Rightarrow> string \<Rightarrow> string \<Rightarrow> url_api \<Rightarrow> http_client \<Rightarrow> bool" where
  "media_law it b object U C =
     (\<forall>rq base w. rq_verb rq = PostV \<longrightarrow> rq_url rq = ua_query U base [(''uploadType'', ''media''), (''name'', object)]
        \<longrightarrow> rq_headers rq = [] \<longrightarrow>
        wp (C rq)
          (\<lambda>r w'. session_touch it [] 0 [] w w'
             \<and> (\<forall>p. r = Inr p \<longrightarrow> is_success (rp_status p) \<longrightarrow> w_remote w' b object = Some (rq_body rq)))
          (\<lambda>w'. session_touch it [] 0 [] w w') w)"

definition gcs_service :: "work_item \<Rightarrow> string \<Rightarrow> gcs_dest \<Rightarrow> bool" where
  "gcs_service it object G =
     (chunk_law it (gd_bucket G) (gd_client G) \<and> session_law it object (gd_urls G) (gd_client G)
      \<and> media_law it (gd_bucket G) object (gd_urls G) (gd_client G))"

section \<open>Sound checkpoints\<close>

definition session_good :: "string \<Rightarrow> bytes \<Rightarrow> string \<Rightarrow> world \<Rightarrow> bool" where
  "session_good object c uri w = (\<forall>ob st. staged uri w = Some (ob, st) \<longrightarrow> ob = object \<and> agrees (length st) st c)"

definition gcs_row_sound :: "work_item \<Rightarrow> i64 \<Rightarrow> world \<Rightarrow> bool" where
  "gcs_row_sound it bound w =
     (\<forall>rs t. ckpt ''gcs'' it w = Some rs \<longrightarrow> gcs_from_resume rs = Some t \<longrightarrow>
        gt_mtime_ms t \<le> bound
        \<and> (\<forall>c. unmodified it (gt_mtime_ms t) w \<longrightarrow> w_files w (wi_abs_source it) = Some c
             \<longrightarrow> of_nat (length c) = gt_size t \<longrightarrow> session_good (gt_object t) c (gt_session_uri t) w))"

definition gcs_sound :: "work_item \<Rightarrow> i64 \<Rightarrow> bytes \<Rightarrow> world \<Rightarrow> bool" where
  "gcs_sound it m c w = (gcs_row_sound it m w \<and> src_is it m c w)"

lemma gcs_sound_upd [simp]:
  "gcs_sound it m c (w\<lparr>w_fate := fs\<rparr>) = gcs_sound it m c w" "gcs_sound it m c (w\<lparr>w_sent := n\<rparr>) = gcs_sound it m c w"
  by (simp_all add: gcs_sound_def gcs_row_sound_def session_good_def)

lemma gcs_round_trip: "in_i64 (gt_mtime_ms t) \<Longrightarrow> gcs_from_resume (gcs_to_resume t) = Some t"
  by (simp add: gcs_from_resume_def gcs_to_resume_def gcs_token_from_json_def gcs_token_to_json_def or_default_def)

lemma agrees_patched_all:
  "agrees (length st) st c \<Longrightarrow> patched s body st st' \<Longrightarrow> range_of s body c \<Longrightarrow> agrees (length st') st' c"
proof -
  assume a: "agrees (length st) st c" and p: "patched s body st st'" "range_of s body c"
  have "agrees (length st') st c" using a by (simp add: agrees_def)
  from agrees_patched [OF this p] show ?thesis .
qed

lemma session_good_touch:
  assumes "session_good object c u w" "session_touch it uri s body w w'" "range_of s body c"
  shows "session_good object c u w'"
  unfolding session_good_def
proof (intro allI impI)
  fix ob st' assume "staged u w' = Some (ob, st')"
  then obtain st where st: "staged u w = Some (ob, st)" "if u = uri then patched s body st st' else st' = st"
    using assms(2) unfolding session_touch_def by blast
  then have "ob = object" "agrees (length st) st c" using assms(1) by (auto simp: session_good_def)
  then show "ob = object \<and> agrees (length st') st' c"
    using st(2) agrees_patched_all [OF _ _ assms(3), of st] by (auto split: if_splits)
qed

text \<open>A step that keeps every session the checkpoint may name.\<close>

lemma gcs_sound_step:
  assumes s: "gcs_sound it m c w" and adv: "advances w w'" and row: "ckpt ''gcs'' it w' = ckpt ''gcs'' it w"
    and sessions: "\<And>rs t ob. ckpt ''gcs'' it w = Some rs \<Longrightarrow> gcs_from_resume rs = Some t \<Longrightarrow> unmodified it m w \<Longrightarrow>
      session_good ob c (gt_session_uri t) w \<Longrightarrow> session_good ob c (gt_session_uri t) w'"
  shows "gcs_sound it m c w'"
proof -
  let ?p = "wi_abs_source it"
  have src: "src_is it m c w" using s by (simp add: gcs_sound_def)
  have "gcs_row_sound it m w'"
    unfolding gcs_row_sound_def
  proof (intro allI impI)
    fix rs t assume rs: "ckpt ''gcs'' it w' = Some rs" "gcs_from_resume rs = Some t"
    then have rs': "ckpt ''gcs'' it w = Some rs" using row by simp
    have old: "gt_mtime_ms t \<le> m" "\<And>c. unmodified it (gt_mtime_ms t) w \<Longrightarrow> w_files w ?p = Some c
        \<Longrightarrow> of_nat (length c) = gt_size t \<Longrightarrow> session_good (gt_object t) c (gt_session_uri t) w"
      using s rs' rs(2) by (auto simp: gcs_sound_def gcs_row_sound_def)
    have "session_good (gt_object t) c' (gt_session_uri t) w'"
      if u: "unmodified it (gt_mtime_ms t) w'" and c': "w_files w' ?p = Some c'" "of_nat (length c') = gt_size t" for c'
    proof -
      have "m \<le> w_mtime w ?p" "w_mtime w ?p \<le> w_mtime w' ?p"
        using src advances_le [OF adv] by (simp_all add: src_is_def)
      then have same: "w_mtime w ?p = m" "gt_mtime_ms t = m" "w_mtime w' ?p = w_mtime w ?p"
        using u old(1) by (simp_all add: unmodified_def)
      have f: "w_files w ?p = Some c'" using advances_same [OF adv, of ?p] same c'(1) by simp
      have um: "unmodified it m w" using same by (simp add: unmodified_def)
      then have eq: "c' = c" using src_untouched [OF src] f by simp
      have "session_good (gt_object t) c' (gt_session_uri t) w"
        by (rule old(2) [OF _ f c'(2)]) (simp add: unmodified_def same)
      then show ?thesis unfolding eq by (rule sessions [OF rs' rs(2) um])
    qed
    then show "gt_mtime_ms t \<le> m \<and> (\<forall>c. unmodified it (gt_mtime_ms t) w' \<longrightarrow> w_files w' ?p = Some c
        \<longrightarrow> of_nat (length c) = gt_size t \<longrightarrow> session_good (gt_object t) c (gt_session_uri t) w')"
      using old(1) by blast
  qed
  then show ?thesis using src_is_step(1) [OF src adv] by (simp add: gcs_sound_def)
qed

lemma gcs_sound_touch:
  assumes "gcs_sound it m c w" "session_touch it uri s body w w'" "unmodified it m w \<Longrightarrow> range_of s body c"
  shows "gcs_sound it m c w'"
  by (rule gcs_sound_step [OF assms(1)])
    (use assms(2) session_good_touch [OF _ assms(2) assms(3)] in \<open>auto simp: session_touch_def\<close>)

lemma read_session_touch: "local_read ''gcs'' it w w' \<Longrightarrow> session_touch it [] 0 [] w w'"
  by (simp add: local_read_def session_touch_def staged_def)

lemma range_of_Nil [simp]: "range_of s [] c"
  by (simp add: range_of_def)

lemma gcs_sound_read: "gcs_sound it m c w \<Longrightarrow> local_read ''gcs'' it w w' \<Longrightarrow> gcs_sound it m c w'"
  by (rule gcs_sound_touch [OF _ read_session_touch]) simp_all

section \<open>The delivery\<close>

definition gcs_holds :: "work_item \<Rightarrow> i64 \<Rightarrow> bytes \<Rightarrow> string \<Rightarrow> string \<Rightarrow> string \<Rightarrow> u64 \<Rightarrow> u64 \<Rightarrow> world \<Rightarrow> bool" where
  "gcs_holds it m c b object uri k0 k w =
     (gcs_sound it m c w \<and> (unmodified it m w \<longrightarrow> session_good object c uri w)
      \<and> (unmodified it m w \<longrightarrow> k = k0 \<or> staged uri w \<noteq> None \<or> w_remote w b object = Some c))"

text \<open>
  What a success means: the object is the source, or the session still waits for bytes (the
  last answer was a \<open>308\<close>), or the delivery had nothing left to send (\<open>whole\<close>).
\<close>

definition gcs_done ::
  "'h digests \<Rightarrow> gcs_dest \<Rightarrow> work_item \<Rightarrow> i64 \<Rightarrow> bytes \<Rightarrow> string \<Rightarrow> bool \<Rightarrow> delivered \<Rightarrow> world \<Rightarrow> bool" where
  "gcs_done D G it m c object whole d w =
     (dl_bytes d = of_nat (length c) \<and> dl_handle d = gcs_handle (gd_bucket G) object (gd_algo G)
      \<and> (unmodified it m w \<longrightarrow> dl_checksum d = digest D (gd_algo G) c
           \<and> (w_remote w (gd_bucket G) object = Some c \<or> (\<exists>uri st. staged uri w = Some (object, st)) \<or> whole)))"

abbreviation gcs_post ::
  "'h digests \<Rightarrow> gcs_dest \<Rightarrow> work_item \<Rightarrow> i64 \<Rightarrow> bytes \<Rightarrow> string \<Rightarrow> bool \<Rightarrow> 'e + delivered \<Rightarrow> world \<Rightarrow> bool" where
  "gcs_post D G it m c object whole r w \<equiv>
     gcs_sound it m c w \<and> (\<forall>d. r = Inr d \<longrightarrow> gcs_done D G it m c object whole d w)"

lemma wp_gcs_chunk:
  assumes "chunk_law it b (gd_client G)"
  shows "wp (gcs_send_chunk G uri (content_range_header s e n) body)
    (\<lambda>r w'. session_touch it uri (unat s) body w w'
       \<and> (r = Inr () \<longrightarrow> staged uri w' \<noteq> None \<or> (\<exists>ob st x. staged uri w = Some (ob, st)
            \<and> patched (unat s) body st x \<and> length x = unat n \<and> w_remote w' b ob = Some x)))
    (\<lambda>w'. session_touch it uri (unat s) body w w') w"
proof -
  let ?rq = "\<lparr>rq_verb = PutV, rq_url = uri, rq_headers = [(''content-range'', content_range_header s e n)],
      rq_auth = NoAuth, rq_body = body\<rparr>"
  note law = assms [unfolded chunk_law_def, rule_format, of ?rq s e n w, simplified]
  show ?thesis
    unfolding gcs_send_chunk_def wp_bnd wp_ret
    by (rule wp_conseq [OF law]) (auto split: sum.split if_splits)
qed

lemma wp_gcs_save:
  assumes h: "gcs_holds it m c b object uri k0 k w" and i64: "in_i64 m"
    and next_state: "\<And>w'. advances w w' \<Longrightarrow> gcs_holds it m c b object uri k0 k w' \<Longrightarrow> Q () w' \<and> C w'"
  shows "wp (gcs_persist G it object uri (of_nat (length c)) m kk) Q C w"
  unfolding gcs_persist_def
proof (rule wp_save_row)
  fix fs
  let ?t = "\<lparr>gt_bucket = gd_bucket G, gt_object = object, gt_session_uri = uri, gt_size = of_nat (length c), gt_mtime_ms = m,
      gt_committed = kk\<rparr>"
  let ?w = "w\<lparr>w_fate := fs, w_db := save_resume (wi_instance it) (wi_relpath it) ''gcs'' (gcs_to_resume ?t) (w_db w)\<rparr>"
  have src: "src_is it m c w" using h by (simp add: gcs_holds_def gcs_sound_def)
  have rt: "gcs_from_resume (gcs_to_resume ?t) = Some ?t" by (rule gcs_round_trip) (use i64 in simp)
  have "gcs_row_sound it m ?w"
    unfolding gcs_row_sound_def ckpt_saved using rt h src_untouched [OF src]
    by (auto simp: gcs_holds_def session_good_def)
  then have "gcs_holds it m c b object uri k0 k ?w"
    using h by (simp add: gcs_holds_def gcs_sound_def session_good_def)
  then show "Q () ?w" using next_state [of ?w] by simp
  have "gcs_holds it m c b object uri k0 k (w\<lparr>w_fate := fs\<rparr>)" using h by (simp add: gcs_holds_def session_good_def)
  then show "Q () (w\<lparr>w_fate := fs\<rparr>)" "C (w\<lparr>w_fate := fs\<rparr>)" using next_state [of "w\<lparr>w_fate := fs\<rparr>"] by simp_all
qed

lemma wp_gcs_clear:
  assumes s: "gcs_sound it m c w"
    and next_state: "\<And>w'. advances w w' \<Longrightarrow> gcs_sound it m c w' \<Longrightarrow> unmodified it m w' = unmodified it m w \<Longrightarrow>
      w_remote w' = w_remote w \<Longrightarrow> w_uploads w' = w_uploads w \<Longrightarrow> w_files w' = w_files w \<Longrightarrow> Q () w' \<and> C w'"
  shows "wp (gcs_clear G it) Q C w"
  unfolding gcs_clear_def
proof (rule wp_clear_row)
  fix fs
  let ?w = "w\<lparr>w_fate := fs, w_db := clear_resume (wi_instance it) (wi_relpath it) ''gcs'' (w_db w)\<rparr>"
  have "gcs_sound it m c ?w" using s by (simp add: gcs_sound_def gcs_row_sound_def ckpt_saved)
  then show "Q () ?w" using next_state [of ?w] by simp
  show "Q () (w\<lparr>w_fate := fs\<rparr>)" "C (w\<lparr>w_fate := fs\<rparr>)" using next_state [of "w\<lparr>w_fate := fs\<rparr>"] s by simp_all
qed

lemma gcs_holds_src: "gcs_holds it m c b object uri k0 k w \<Longrightarrow> src_is it m c w"
  by (simp add: gcs_holds_def gcs_sound_def)

lemma gcs_holds_before:
  "gcs_holds it m c b object uri k0 k w \<Longrightarrow> advances w w' \<Longrightarrow> unmodified it m w' \<Longrightarrow> unmodified it m w"
  by (rule src_is_step(2) [OF gcs_holds_src])

lemma gcs_holds_touch:
  assumes h: "gcs_holds it m c b object uri k0 k w" and t: "session_touch it uri s body w w'"
    and r: "unmodified it m w \<Longrightarrow> range_of s body c"
  shows "gcs_sound it m c w'" "unmodified it m w' \<Longrightarrow> session_good object c uri w'"
proof -
  have adv: "advances w w'" using t by (simp add: session_touch_def)
  show "gcs_sound it m c w'" by (rule gcs_sound_touch [OF _ t r]) (use h in \<open>simp_all add: gcs_holds_def\<close>)
  assume "unmodified it m w'"
  then have u: "unmodified it m w" by (rule gcs_holds_before [OF h adv])
  show "session_good object c uri w'"
    by (rule session_good_touch [OF _ t r [OF u]]) (use h u in \<open>simp add: gcs_holds_def\<close>)
qed

lemma gcs_holds_read:
  assumes h: "gcs_holds it m c b object uri k0 k w" and l: "local_read ''gcs'' it w w'"
  shows "gcs_holds it m c b object uri k0 k w'"
proof -
  have u: "unmodified it m w' \<Longrightarrow> unmodified it m w"
    by (rule gcs_holds_before [OF h]) (use l in \<open>simp_all add: local_read_def\<close>)
  show ?thesis
    using h u gcs_sound_read [OF _ l] l by (auto simp: gcs_holds_def session_good_def staged_def local_read_def)
qed

lemma gcs_round:
  assumes law: "chunk_law it b (gd_client G)" and i64: "in_i64 m" and n: "unat n = length c"
    and small: "unat n + unat (max 1 chunk) < 2 ^ 64"
  shows "round_ok it m c chunk n (\<lambda>s e buf. gcs_send_chunk G uri (content_range_header s e n) buf)
    (gcs_persist G it object uri n m) (gcs_holds it m c b object uri k0) (\<lambda>_. gcs_sound it m c) (gcs_sound it m c)"
  unfolding round_ok_def
proof (intro allI impI)
  fix k s e buf w
  assume h: "gcs_holds it m c b object uri k0 k w" and k: "k < n" and bd: "chunk_bounds k chunk n = (s, e)"
    and buf: "unmodified it m w \<longrightarrow> buf = take (length buf) (drop (unat s) c)"
  have n': "n = of_nat (length c)" by (simp flip: n)
  have r: "unmodified it m w \<Longrightarrow> range_of (unat s) buf c" using buf by (simp add: range_of_def)
  show "wp (gcs_send_chunk G uri (content_range_header s e n) buf)
      (\<lambda>r w'. advances w w' \<and> (case r of Inl x \<Rightarrow> gcs_sound it m c w'
         | Inr _ \<Rightarrow> wp (gcs_persist G it object uri n m (e + 1))
             (\<lambda>_ w''. advances w' w'' \<and> gcs_holds it m c b object uri k0 (e + 1) w'') (gcs_sound it m c) w'))
      (gcs_sound it m c) w"
  proof (rule wp_conseq [OF wp_gcs_chunk [OF law]], goal_cases)
    case (1 x w')
    then have t: "session_touch it uri (unat s) buf w w'" by simp
    note after = gcs_holds_touch [OF h t r]
    have adv: "advances w w'" using t by (simp add: session_touch_def)
    have before: "unmodified it m w' \<Longrightarrow> unmodified it m w" by (rule gcs_holds_before [OF h adv])
    show ?case
    proof (cases x)
      case (Inl err)
      then show ?thesis using after(1) adv by simp
    next
      case (Inr u)
      have "gcs_holds it m c b object uri k0 (e + 1) w'"
      proof -
        have "staged uri w' \<noteq> None \<or> w_remote w' b object = Some c" if un: "unmodified it m w'"
        proof (cases "staged uri w' = None")
          case True
          then obtain ob st y where y: "staged uri w = Some (ob, st)" "patched (unat s) buf st y" "length y = unat n"
            "w_remote w' b ob = Some y" using 1 Inr by auto
          have "session_good object c uri w" using h before [OF un] by (simp add: gcs_holds_def)
          then have ob: "ob = object" "agrees (length st) st c" using y(1) by (auto simp: session_good_def)
          have "agrees (length y) y c" by (rule agrees_patched_all [OF ob(2) y(2) r [OF before [OF un]]])
          then have "take (length c) y = c" using y(3) n by (intro agrees_full) simp_all
          then show ?thesis using y(3,4) n ob(1) by simp
        qed simp
        then show ?thesis using after by (auto simp: gcs_holds_def)
      qed
      then show ?thesis
        unfolding Inr sum.case n' using adv
        by (auto intro!: wp_gcs_save [OF _ i64] simp: gcs_holds_def)
    qed
  next
    case (2 w')
    then show ?case by (rule gcs_holds_touch(1) [OF h _ r])
  qed
qed

lemma run_session_wp:
  assumes D: "lawful_digests D" and law: "chunk_law it (gd_bucket G) (gd_client G)"
    and progress: "\<And>j. frames (local_read ''gcs'' it) (progress j)"
    and i64: "in_i64 m" and small: "length c + unat (max 1 (gd_chunk_bytes G)) < 2 ^ 64"
    and h: "gcs_holds it m c (gd_bucket G) object uri k k w" "unat k \<le> length c"
  shows "wp (run_session D G it object (of_nat (length c)) m uri k progress)
    (gcs_post D G it m c object (unat k = length c)) (gcs_sound it m c) w"
proof -
  let ?n = "of_nat (length c) :: u64" and ?b = "gd_bucket G"
  have n: "unat ?n = length c" using small by (simp add: unat_length)
  have le: "k \<le> ?n" using h(2) n by (simp add: word_le_nat_alt)
  have sm: "unat ?n + unat (max 1 (gd_chunk_bytes G)) < 2 ^ 64" using small n by simp
  have src: "src_is it m c w" using h(1) by (simp add: gcs_holds_def gcs_sound_def)
  note round = gcs_round [OF law i64 n sm, of uri object k]
  have loop: "wp (chunk_loop (chunk_fuel ?n) D SessionFatal (wi_abs_source it) (gd_chunk_bytes G) ?n progress
        (\<lambda>s e buf. gcs_send_chunk G uri (content_range_header s e ?n) buf) (gcs_persist G it object uri ?n m) k hs)
      (\<lambda>r w'. case r of Inl x \<Rightarrow> gcs_sound it m c w'
         | Inr h' \<Rightarrow> advances v w' \<and> src_is it m c w' \<and> gcs_holds it m c ?b object uri k ?n w' \<and> fed D (gd_algo G) it m c h' w')
      (gcs_sound it m c) v"
    if v: "gcs_holds it m c ?b object uri k k v" "fed D (gd_algo G) it m (take (unat k) c) hs v" for v hs
  proof (rule chunk_loop_wp [OF D progress n sm round])
    show "gcs_holds it m c ?b object uri k k v" "k \<le> ?n" "fed D (gd_algo G) it m (take (unat k) c) hs v" by (fact v le)+
    show "src_is it m c v" using v(1) by (simp add: gcs_holds_def gcs_sound_def)
    show "gcs_holds it m c ?b object uri k k' w'"
      if "gcs_holds it m c ?b object uri k k' w" "local_read ''gcs'' it w w'" for k' w w'
      by (rule gcs_holds_read [OF that])
  qed (simp_all add: gcs_holds_def)
  show ?thesis
    unfolding run_session_def wp_rules
  proof (rule wp_hash_committed [OF D, where label = "''gcs''" and it = it], goal_cases)
    case (1 w1 hs)
    have h1: "gcs_holds it m c ?b object uri k k w1" by (rule gcs_holds_read [OF h(1) 1(1)])
    have adv1: "advances w w1" using 1(1) by (simp add: local_read_def)
    have f1: "fed D (gd_algo G) it m (take (unat k) c) hs w1"
      unfolding fed_def using 1(2) src_untouched [OF src] src_is_step(2) [OF src adv1] by simp
    have src1: "src_is it m c w1" by (rule src_is_step(1) [OF src adv1])
    show ?case
      unfolding sum.case wp_seqn wp_set_sent
    proof (rule wp_gcs_save [OF h1 i64], intro conjI, goal_cases)
      case (1 w2)
      have f2: "fed D (gd_algo G) it m (take (unat k) c) hs (w2\<lparr>w_sent := k\<rparr>)"
        using f1 src_is_step(2) [OF src1 1(1)] by (simp add: fed_def)
      have h2: "gcs_holds it m c ?b object uri k k (w2\<lparr>w_sent := k\<rparr>)"
        using 1(2) by (simp add: gcs_holds_def session_good_def)
      show ?case
      proof (rule wp_conseq [OF loop [OF h2 f2]], goal_cases)
       case (1 r v)
       show ?case
       proof (cases r)
        case (Inl x)
        then show ?thesis using 1 by simp
       next
        case (Inr hh)
        then have hv: "gcs_holds it m c ?b object uri k ?n v" "fed D (gd_algo G) it m c hh v" using 1 by simp_all
        show ?thesis
          unfolding Inr sum.case wp_seqn
        proof (rule wp_gcs_clear [of it m c v], goal_cases)
          case (2 v')
          have "gcs_done D G it m c object (unat k = length c) (gcs_delivered D G object ?n hh) v'"
            using hv 2(3-6) n
            by (auto simp: gcs_done_def gcs_delivered_def gcs_holds_def fed_def digest_def staged_def session_good_def)
          then show ?case using 2(2) by (simp add: wp_ret)
        qed (use hv in \<open>simp add: gcs_holds_def\<close>)
       qed
      qed simp
    qed (simp add: gcs_holds_def)
  qed (use h gcs_sound_read [of it m c w] in \<open>auto simp: gcs_holds_def\<close>)
qed

lemma gcs_done_whole: "gcs_done D G it m c object False d w \<Longrightarrow> gcs_done D G it m c object whole d w"
  by (auto simp: gcs_done_def)

lemma wp_init_session:
  assumes law: "session_law it object (gd_urls G) (gd_client G)" and s: "gcs_sound it m c w"
    and got: "\<And>w' uri. gcs_holds it m c b object uri 0 0 w' \<Longrightarrow> Q (Inr uri) w'"
    and failed: "\<And>w' e. gcs_sound it m c w' \<Longrightarrow> Q (Inl e) w'" and died: "\<And>w'. gcs_sound it m c w' \<Longrightarrow> C w'"
  shows "wp (init_session G object) Q C w"
proof (cases "upload_base_url G")
  case (Inl e)
  then show ?thesis using failed [OF s] by (simp add: init_session_def wp_rules)
next
  case (Inr base)
  let ?rq = "\<lparr>rq_verb = PostV, rq_url = ua_query (gd_urls G) base [(''uploadType'', ''resumable''), (''name'', object)],
        rq_headers = [(''content-type'', ''application/json; charset=UTF-8'')], rq_auth = gcs_auth (gd_creds G),
        rq_body = gd_name_json G object\<rparr>"
  note law' = law [unfolded session_law_def, rule_format, of ?rq base w, simplified]
  have sound: "gcs_sound it m c w'" if "new_session it new w w'" for w' new
    by (rule gcs_sound_step [OF s]) (use that in \<open>auto simp: session_good_def new_session_def\<close>)
  show ?thesis
    unfolding init_session_def Inr wp_try wp_ret sum.case gcs_request_def wp_bnd
  proof (rule wp_conseq [OF law'], goal_cases)
    case (1 r w')
    then obtain new where new: "new_session it new w w'"
      "\<And>p u. r = Inr p \<Longrightarrow> is_success (rp_status p) \<Longrightarrow> rp_headers p ''location'' = Some u \<Longrightarrow>
         staged u w' = Some (object, [])" by auto
    have s': "gcs_sound it m c w'" by (rule sound [OF new(1)])
    have h: "gcs_holds it m c b object u 0 0 w'" if "staged u w' = Some (object, [])" for u
      using s' that by (simp add: gcs_holds_def session_good_def agrees_def)
    show ?case
    proof (cases r)
      case (Inr p)
      then show ?thesis
        using got [OF h] new(2) [OF Inr] failed [OF s'] by (cases "rp_headers p ''location''") (simp_all add: wp_rules ok_def err_def)
    qed (use failed [OF s'] in simp)
  next
    case (2 w')
    then show ?case using sound died by blast
  qed
qed

lemma fresh_session_wp:
  assumes D: "lawful_digests D" and law: "gcs_service it object G"
    and progress: "\<And>j. frames (local_read ''gcs'' it) (progress j)"
    and i64: "in_i64 m" and small: "length c + unat (max 1 (gd_chunk_bytes G)) < 2 ^ 64" and c: "c \<noteq> []"
    and s: "gcs_sound it m c w"
  shows "wp (fresh_session D G it object (of_nat (length c)) m progress)
    (gcs_post D G it m c object False) (gcs_sound it m c) w"
  unfolding fresh_session_def wp_try
proof (rule wp_init_session [where b = "gd_bucket G", OF _ s], goal_cases)
  case 1
  show ?case using law by (simp add: gcs_service_def)
next
  case (2 w' uri)
  have cl: "chunk_law it (gd_bucket G) (gd_client G)" using law by (simp add: gcs_service_def)
  show ?case
    unfolding sum.case wp_bnd
    by (rule wp_conseq [OF run_session_wp [OF D cl progress i64 small 2]])
      (use c in \<open>auto simp: wp_rules ok_def err_def split: sum.split session_err.split\<close>)
qed simp_all

lemma gcs_empty_wp:
  assumes law: "gcs_service it object G" and s: "gcs_sound it m [] w" and D: "lawful_digests D"
  shows "wp (gcs_empty D G it object) (gcs_post D G it m [] object False) (gcs_sound it m []) w"
proof (cases "upload_base_url G")
  case (Inl e)
  then show ?thesis using s by (simp add: gcs_empty_def wp_rules)
next
  case (Inr base)
  let ?rq = "\<lparr>rq_verb = PostV, rq_url = ua_query (gd_urls G) base [(''uploadType'', ''media''), (''name'', object)],
        rq_headers = [], rq_auth = gcs_auth (gd_creds G), rq_body = []\<rparr>"
  have ml: "media_law it (gd_bucket G) object (gd_urls G) (gd_client G)" using law by (simp add: gcs_service_def)
  note law' = ml [unfolded media_law_def, rule_format, of ?rq base w, simplified]
  have sound: "gcs_sound it m [] w'" if "session_touch it [] 0 [] w w'" for w'
    by (rule gcs_sound_touch [OF s that]) simp
  have dg: "hasher_finish D (hasher_new D (gd_algo G)) = digest D (gd_algo G) []"
    using D by (simp add: digest_def lawful_digests_def)
  show ?thesis
    unfolding gcs_empty_def Inr wp_try wp_ret sum.case gcs_request_def wp_bnd
  proof (rule wp_conseq [OF law'], goal_cases)
    case (1 r w')
    then have s': "gcs_sound it m [] w'" using sound by simp
    show ?case
    proof (cases r)
      case (Inr p)
      show ?thesis
      proof (cases "is_success (rp_status p)")
        case True
        then have "w_remote w' (gd_bucket G) object = Some []" using 1 Inr by simp
        then show ?thesis
          using True Inr by (auto simp: wp_rules ok_def gcs_done_def gcs_delivered_def dg intro!: wp_gcs_clear [OF s'])
      qed (use s' Inr in \<open>simp add: wp_rules err_def\<close>)
    qed (use s' in simp)
  qed (rule sound)
qed

text \<open>The delivery: what it returns is right, and what it leaves behind can be resumed.\<close>

lemma gcs_deliver_wp:
  assumes D: "lawful_digests D" and law: "gcs_service it (gcs_object_path (gd_prefix G) (wi_relpath it)) G"
    and progress: "\<And>j. frames (local_read ''gcs'' it) (progress j)"
    and c: "w_files w (wi_abs_source it) = Some c" "length c + unat (max 1 (gd_chunk_bytes G)) < 2 ^ 64"
    and m: "m = w_mtime w (wi_abs_source it)" "in_i64 m"
    and sound: "gcs_row_sound it m w" and resume: "resume = ckpt ''gcs'' it w \<or> resume = None"
    and whole: "whole \<longleftrightarrow> (\<exists>t. Option.bind resume gcs_from_resume = Some t \<and> length c \<le> unat (gt_committed t))"
  shows "wp (gcs_deliver D G it resume progress)
    (gcs_post D G it m c (gcs_object_path (gd_prefix G) (wi_relpath it)) whole) (gcs_sound it m c) w"
  unfolding gcs_deliver_def wp_try wp_map_err
proof (rule wp_metadata, goal_cases)
  case (1 fs c')
  let ?w = "w\<lparr>w_fate := fs\<rparr>" and ?n = "of_nat (length c) :: u64" and ?o = "gcs_object_path (gd_prefix G) (wi_relpath it)"
  have c': "c' = c" using 1 c(1) by simp
  have n: "unat ?n = length c" using c(2) by (simp add: unat_length)
  have s: "gcs_sound it m c ?w" "unmodified it m ?w"
    using sound src_is_now [OF c(1)] m by (simp_all add: gcs_sound_def unmodified_def gcs_row_sound_def session_good_def)
  note fresh = fresh_session_wp [OF D law progress m(2) c(2)]
  have weak: "gcs_post D G it m c ?o False r v \<Longrightarrow> gcs_post D G it m c ?o whole r v"
    for r :: "repl_error + delivered" and v using gcs_done_whole by blast
  show ?case
  proof (cases "?n = 0")
    case True
    then have e: "c = []" using n by simp
    have se: "gcs_sound it m [] ?w" using s(1) e by simp
    show ?thesis
      unfolding c' m(1) [symmetric] sum.case prod.case Let_def if_P [OF True]
      unfolding e by (rule wp_conseq [OF gcs_empty_wp [OF law se D]]) (use weak e in simp_all)
  next
    case False
    then have ne: "c \<noteq> []" by auto
    show ?thesis
    proof (cases "gcs_reusable G resume ?o ?n m")
      case None
      show ?thesis
        unfolding c' m(1) [symmetric] sum.case prod.case Let_def if_not_P [OF False] None option.case
        by (rule wp_conseq [OF fresh [OF ne s(1)]]) (use weak in simp_all)
    next
      case (Some t)
      then obtain rs where t: "resume = Some rs" "gcs_from_resume rs = Some t" "gcs_matches t (gd_bucket G) ?o ?n m"
        by (cases resume) (auto simp: gcs_reusable_def split: option.splits if_splits)
      have row: "ckpt ''gcs'' it w = Some rs" using t(1) resume by auto
      let ?k = "min (gt_committed t) ?n"
      have kn: "unat ?k \<le> length c" "unat ?k = length c \<longrightarrow> whole"
        using n t whole by (auto simp: min_def word_le_nat_alt split: if_splits)
      have "session_good ?o c (gt_session_uri t) ?w"
        using sound row t m c(1) by (auto simp: gcs_row_sound_def gcs_matches_def unmodified_def session_good_def)
      then have h: "gcs_holds it m c (gd_bucket G) ?o (gt_session_uri t) ?k ?k ?w" using s by (simp add: gcs_holds_def)
      have cl: "chunk_law it (gd_bucket G) (gd_client G)" using law by (simp add: gcs_service_def)
      show ?thesis
        unfolding c' m(1) [symmetric] sum.case prod.case Let_def if_not_P [OF False] Some option.case wp_bnd
      proof (rule wp_conseq [OF run_session_wp [OF D cl progress m(2) c(2) h kn(1)]], goal_cases)
        case (1 r v)
        show ?case
        proof (cases r)
          case (Inr d)
          then show ?thesis using 1 kn(2) by (auto simp: wp_rules ok_def gcs_done_def)
        next
          case (Inl e)
          then have sv: "gcs_sound it m c v" using 1 by simp
          show ?thesis
          proof (cases e)
            case SessionGone
            show ?thesis
              unfolding Inl SessionGone sum.case session_err.case wp_seqn
              by (rule wp_gcs_clear [OF sv], intro conjI wp_conseq [OF fresh [OF ne]]) (use weak in auto)
          qed (use sv Inl in \<open>simp add: wp_rules err_def\<close>)
        qed
      qed
    qed
  qed
qed (use sound src_is_now [OF c(1)] m in \<open>simp_all add: gcs_sound_def gcs_row_sound_def session_good_def\<close>)

end
