(* ===== verification/Http_Delivery.thy ===== *)
theory Http_Delivery
  imports Offset_Delivery
begin

text \<open>
  The delivery theorem of the HTTP destination, for a server that honours \<open>Content-Range\<close>
  (\<open>http_service\<close>) and a source that others may rewrite.
\<close>

section \<open>The documented behaviour of the server\<close>

text \<open>
  A ranged request changes only bytes of its range at its URL (it may lose the end of the
  object), and has written the range when it succeeds; a request without a range replaces the
  object. \<open>HEAD\<close> changes nothing and reports the length, or 404 when there is no object.
\<close>

definition ranged_law :: "work_item \<Rightarrow> http_client \<Rightarrow> bool" where
  "ranged_law it C =
     (\<forall>rq hs s e n w. rq_verb rq = PutV \<longrightarrow> rq_headers rq = hs @ [(''content-range'', content_range_header s e n)] \<longrightarrow>
        wp (C rq)
          (\<lambda>r w'. touches ''http'' ''http'' it (rq_url rq) (unat s) (rq_body rq) w w'
             \<and> (\<forall>p. r = Inr p \<longrightarrow> is_success (rp_status p) \<longrightarrow>
                  written (unat s) (rq_body rq) (obj ''http'' (rq_url rq) w) (obj ''http'' (rq_url rq) w')))
          (\<lambda>w'. touches ''http'' ''http'' it (rq_url rq) (unat s) (rq_body rq) w w') w)"

definition whole_law :: "work_item \<Rightarrow> http_client \<Rightarrow> bool" where
  "whole_law it C =
     (\<forall>rq w. rq_verb rq \<in> {PutV, PostV} \<longrightarrow> ''content-range'' \<notin> fst ` set (rq_headers rq) \<longrightarrow>
        wp (C rq)
          (\<lambda>r w'. touches ''http'' ''http'' it (rq_url rq) 0 (rq_body rq) w w'
             \<and> (\<forall>p. r = Inr p \<longrightarrow> is_success (rp_status p) \<longrightarrow> obj ''http'' (rq_url rq) w' = rq_body rq))
          (\<lambda>w'. touches ''http'' ''http'' it (rq_url rq) 0 (rq_body rq) w w') w)"

definition head_honest :: "work_item \<Rightarrow> http_client \<Rightarrow> bool" where
  "head_honest it C =
     (\<forall>rq w. rq_verb rq = HeadV \<longrightarrow>
        wp (C rq)
          (\<lambda>r w'. local_read ''http'' it w w'
             \<and> (\<forall>p. r = Inr p \<longrightarrow> rp_status p = 404
                   \<or> (is_success (rp_status p) \<and> (\<exists>n. content_length p = Some n \<and> unat n = length (obj ''http'' (rq_url rq) w')))))
          (\<lambda>w'. local_read ''http'' it w w') w)"

definition http_service :: "work_item \<Rightarrow> http_client \<Rightarrow> bool" where
  "http_service it C = (ranged_law it C \<and> whole_law it C \<and> head_honest it C)"

section \<open>The requests of a delivery\<close>

lemma wp_http_answer [wp_rules]:
  "wp (http_answer m) Q C = wp m (\<lambda>r. Q (case r of Inl _ \<Rightarrow> Inl (classify_http None True) | Inr p \<Rightarrow> Inr p)) C"
  by (simp add: http_answer_def wp_bnd wp_ret)

abbreviation http_touch :: "work_item \<Rightarrow> string \<Rightarrow> nat \<Rightarrow> bytes \<Rightarrow> world \<Rightarrow> world \<Rightarrow> bool" where
  "http_touch it url s body \<equiv> touches ''http'' ''http'' it url s body"

lemma wp_send_ranged:
  assumes "ranged_law it (hd_client H)" "hd_method H = MPut"
  shows "wp (http_send_chunk H url (Some (content_range_header s e n)) body)
    (\<lambda>r w'. http_touch it url (unat s) body w w'
       \<and> (r = Inr () \<longrightarrow> written (unat s) body (obj ''http'' url w) (obj ''http'' url w')))
    (\<lambda>w'. http_touch it url (unat s) body w w') w"
proof -
  let ?rq = "\<lparr>rq_verb = PutV, rq_url = url, rq_headers = hd_headers H @ [(''content-range'', content_range_header s e n)],
      rq_auth = hd_auth H, rq_body = body\<rparr>"
  note law = assms(1) [unfolded ranged_law_def, rule_format, of ?rq "hd_headers H" s e n w, simplified]
  show ?thesis
    unfolding http_send_chunk_def assms(2) wp_rules http_verb_of_def http_method.case option.case
    by (rule wp_conseq [OF law]) (auto split: sum.split simp: wp_ok_err wp_ret ok_def err_def)
qed

lemma wp_send_whole:
  assumes "whole_law it (hd_client H)" "''content-range'' \<notin> fst ` set (hd_headers H)"
  shows "wp (http_send_chunk H url None body)
    (\<lambda>r w'. http_touch it url 0 body w w' \<and> (r = Inr () \<longrightarrow> obj ''http'' url w' = body))
    (\<lambda>w'. http_touch it url 0 body w w') w"
proof -
  let ?rq = "\<lparr>rq_verb = http_verb_of (hd_method H), rq_url = url, rq_headers = hd_headers H @ [],
      rq_auth = hd_auth H, rq_body = body\<rparr>"
  have v: "rq_verb ?rq \<in> {PutV, PostV}" by (simp add: http_verb_of_def split: http_method.split)
  note law = assms(1) [unfolded whole_law_def, rule_format, of ?rq w, OF v]
  show ?thesis
    unfolding http_send_chunk_def wp_rules option.case
    by (rule wp_conseq [OF law]) (use assms(2) in \<open>auto split: sum.split simp: wp_ok_err wp_ret ok_def err_def\<close>)
qed

lemma wp_committed:
  assumes law: "head_honest it (hd_client H)"
    and done_: "\<And>w' k. local_read ''http'' it w w' \<Longrightarrow>
      unat k \<le> (case reusable of None \<Rightarrow> 0 | Some t \<Rightarrow> min (unat (ot_committed t)) (unat n)) \<Longrightarrow>
      unat k \<le> length (obj ''http'' url w') \<Longrightarrow> Q (Inr k) w'"
    and failed: "\<And>w' e. local_read ''http'' it w w' \<Longrightarrow> Q (Inl e) w'"
    and died: "\<And>w'. local_read ''http'' it w w' \<Longrightarrow> C w'"
  shows "wp (http_committed H url n reusable) Q C w"
proof -
  let ?k = "case reusable of Some t \<Rightarrow> min (ot_committed t) n | None \<Rightarrow> 0"
  have le: "unat ?k = (case reusable of None \<Rightarrow> 0 | Some t \<Rightarrow> min (unat (ot_committed t)) (unat n))"
    by (auto split: option.split simp: min_def word_le_nat_alt)
  have refl: "local_read ''http'' it w w" by (simp add: local_read_def)
  show ?thesis
  proof (cases "0 < ?k")
    case False
    then have "?k = 0" by (simp add: word_gt_0)
    then show ?thesis using done_ [OF refl, of 0] by (simp add: http_committed_def wp_ret ok_def)
  next
    case True
    let ?rq = "\<lparr>rq_verb = HeadV, rq_url = url, rq_headers = [], rq_auth = hd_auth H, rq_body = []\<rparr>"
    note head = law [unfolded head_honest_def, rule_format, of ?rq w, simplified]
    show ?thesis
      unfolding http_committed_def Let_def if_P [OF True] reconcile_remote_len_def http_bare_def wp_rules
    proof (rule wp_conseq [OF head], goal_cases)
      case (1 r w')
      show ?case
      proof (cases r)
        case (Inl u)
        then show ?thesis using 1 failed by (simp split: sum.split)
      next
        case (Inr p)
        then consider "rp_status p = 404"
          | m where "rp_status p \<noteq> 404" "is_success (rp_status p)" "content_length p = Some m"
              "unat m = length (obj ''http'' url w')"
          using 1 by blast
        then show ?thesis
        proof cases
          case 1
          then show ?thesis using Inr \<open>local_read ''http'' it w w' \<and> _\<close> done_ [of w' 0] by (simp add: ok_def wp_rules)
        next
          case 2
          have "unat (min ?k m) \<le> unat ?k" "unat (min ?k m) \<le> unat m" by (simp_all add: min_def word_le_nat_alt)
          then show ?thesis
            using Inr 2 \<open>local_read ''http'' it w w' \<and> _\<close> done_ [of w' "min ?k m"] le by (simp add: ok_def wp_rules)
        qed
      qed
    qed (rule died)
  qed
qed

section \<open>The delivery\<close>

definition http_sound :: "work_item \<Rightarrow> i64 \<Rightarrow> bytes \<Rightarrow> world \<Rightarrow> bool" where
  "http_sound it m c w = (offset_sound ''http'' ''http'' ''url'' it m w \<and> src_is it m c w)"

definition http_holds :: "work_item \<Rightarrow> i64 \<Rightarrow> bytes \<Rightarrow> string \<Rightarrow> u64 \<Rightarrow> world \<Rightarrow> bool" where
  "http_holds it m c url k w =
     (http_sound it m c w \<and> (unmodified it m w \<longrightarrow> agrees (unat k) (obj ''http'' url w) c)
      \<and> unat k \<le> length (obj ''http'' url w))"

definition http_done ::
  "'h digests \<Rightarrow> http_dest \<Rightarrow> work_item \<Rightarrow> i64 \<Rightarrow> bytes \<Rightarrow> string \<Rightarrow> delivered \<Rightarrow> world \<Rightarrow> bool" where
  "http_done D H it m c url d w =
     (dl_bytes d = of_nat (length c) \<and> dl_handle d = http_handle url (hd_algo H)
      \<and> (unmodified it m w \<longrightarrow> dl_checksum d = digest D (hd_algo H) c
           \<and> take (length c) (obj ''http'' url w) = c \<and> (\<not> hd_resumable H \<longrightarrow> obj ''http'' url w = c)))"

lemma http_sound_upd [simp]:
  "http_sound it m c (w\<lparr>w_fate := fs\<rparr>) = http_sound it m c w" "http_sound it m c (w\<lparr>w_sent := n\<rparr>) = http_sound it m c w"
  by (simp_all add: http_sound_def)

lemma http_sound_touch:
  "http_sound it m c w \<Longrightarrow> http_touch it url s body w w' \<Longrightarrow> (unmodified it m w \<Longrightarrow> range_of s body c) \<Longrightarrow> http_sound it m c w'"
  unfolding http_sound_def using touches_sound [of "''http''" "''http''" "''url''"] src_is_step(1) [of it m c w w']
  by (auto simp: touches_def)

lemma http_sound_read: "http_sound it m c w \<Longrightarrow> local_read ''http'' it w w' \<Longrightarrow> http_sound it m c w'"
  by (rule http_sound_touch [OF _ local_read_touches]) (simp_all add: range_of_def)

lemma http_holds_read: "http_holds it m c url k w \<Longrightarrow> local_read ''http'' it w w' \<Longrightarrow> http_holds it m c url k w'"
proof -
  assume h: "http_holds it m c url k w" and l: "local_read ''http'' it w w'"
  have "obj ''http'' url w' = obj ''http'' url w" using l by (simp add: local_read_def obj_def)
  moreover have "unmodified it m w' \<Longrightarrow> unmodified it m w"
    using h l src_is_step(2) [of it m c w w'] by (simp add: http_holds_def http_sound_def local_read_def)
  ultimately show ?thesis using h http_sound_read [OF _ l] by (auto simp: http_holds_def)
qed

lemma wp_http_persist:
  assumes h: "http_holds it m c url k w" and i64: "in_i64 m"
    and next_state: "\<And>w'. advances w w' \<Longrightarrow> http_holds it m c url k w' \<Longrightarrow> Q () w' \<and> C w'"
  shows "wp (http_persist H it url (of_nat (length c)) m k) Q C w"
  unfolding http_persist_def
proof (rule wp_save_offset [of "''http''" "''http''" "''url''" it m w c])
  fix w' assume adv: "advances w w'" and s: "offset_sound ''http'' ''http'' ''url'' it m w'"
    and same: "w_files w' = w_files w" "w_mtime w' = w_mtime w" "w_remote w' = w_remote w"
  have "http_holds it m c url k w'"
    using h s same by (simp add: http_holds_def http_sound_def src_is_def unmodified_def obj_def)
  then show "Q () w' \<and> C w'" by (rule next_state [OF adv])
qed (use h i64 in \<open>auto simp: http_holds_def http_sound_def\<close>)

text \<open>Clearing the checkpoint and reporting.\<close>

lemma wp_http_delivered:
  assumes s: "http_sound it m c w" and n: "n = of_nat (length c)"
    and ck: "unmodified it m w \<Longrightarrow> h = hasher_update D (hasher_new D (hd_algo H)) c"
    and held: "unmodified it m w \<Longrightarrow> take (length c) (obj ''http'' url w) = c \<and> (\<not> hd_resumable H \<longrightarrow> obj ''http'' url w = c)"
  shows "wp (http_delivered D H it url n h)
    (\<lambda>r w'. http_sound it m c w' \<and> (\<forall>d. r = Inr d \<longrightarrow> http_done D H it m c url d w')) (http_sound it m c) w"
  unfolding http_delivered_def http_clear_def wp_seqn
proof (rule wp_clear_offset [of "''http''" "''http''" "''url''" it m w])
  fix w' assume off: "offset_sound ''http'' ''http'' ''url'' it m w'"
    and same: "w_files w' = w_files w" "w_mtime w' = w_mtime w" "w_remote w' = w_remote w"
  have "http_sound it m c w'" using s off same by (simp add: http_sound_def src_is_def unmodified_def)
  moreover have "unmodified it m w' = unmodified it m w" "obj ''http'' url w' = obj ''http'' url w"
    using same by (simp_all add: unmodified_def obj_def)
  ultimately show "wp (ok \<lparr>dl_bytes = n, dl_checksum = hasher_finish D h, dl_handle = http_handle url (hd_algo H)\<rparr>)
      (\<lambda>r w'. http_sound it m c w' \<and> (\<forall>d. r = Inr d \<longrightarrow> http_done D H it m c url d w')) (http_sound it m c) w'
    \<and> http_sound it m c w'"
    using n ck held by (auto simp: ok_def wp_ret http_done_def digest_def)
qed (use s in \<open>simp add: http_sound_def\<close>)

text \<open>One round of the loop.\<close>

lemma http_round:
  assumes law: "ranged_law it (hd_client H)" "hd_method H = MPut" and i64: "in_i64 m" and n: "unat n = length c"
    and small: "unat n + unat (max 1 chunk) < 2 ^ 64"
  shows "round_ok it m c chunk n (\<lambda>s e buf. http_send_chunk H url (Some (content_range_header s e n)) buf)
    (http_persist H it url n m) (http_holds it m c url) (\<lambda>_. http_sound it m c) (http_sound it m c)"
  unfolding round_ok_def
proof (intro allI impI)
  fix k s e buf w
  assume h: "http_holds it m c url k w" and src: "src_is it m c w" and k: "k < n"
    and b: "chunk_bounds k chunk n = (s, e)" and len: "length buf = unat (e - s + 1)"
    and buf: "unmodified it m w \<longrightarrow> buf = take (length buf) (drop (unat s) c)"
  note g = chunk_geometry [OF b k small]
  have n': "n = of_nat (length c)" using n by (simp flip: n)
  have r: "unmodified it m w \<Longrightarrow> range_of (unat s) buf c" using buf by (simp add: range_of_def)
  have sl: "unat s + length buf = unat (e + 1)" using g len by (simp add: word_less_nat_alt)
  have ht: "http_sound it m c w" using h by (simp add: http_holds_def)
  show "wp (http_send_chunk H url (Some (content_range_header s e n)) buf)
      (\<lambda>r w'. advances w w' \<and> (case r of Inl x \<Rightarrow> http_sound it m c w'
         | Inr _ \<Rightarrow> wp (http_persist H it url n m (e + 1))
             (\<lambda>_ w''. advances w' w'' \<and> http_holds it m c url (e + 1) w'') (http_sound it m c) w'))
      (http_sound it m c) w"
  proof (rule wp_conseq [OF wp_send_ranged [OF law]], goal_cases)
    case (1 x w')
    then have t: "http_touch it url (unat s) buf w w'" by simp
    have s': "http_sound it m c w'" by (rule http_sound_touch [OF ht t r])
    have adv: "advances w w'" using t by (simp add: touches_def)
    have "http_holds it m c url (e + 1) w'"
      if wr: "written (unat s) buf (obj ''http'' url w) (obj ''http'' url w')"
    proof -
      have "agrees (unat (e + 1)) (obj ''http'' url w') c" if "unmodified it m w'"
      proof -
        have u: "unmodified it m w" by (rule src_is_step(2) [OF src adv that])
        then have "agrees (unat s) (obj ''http'' url w) c" using h g(1) by (simp add: http_holds_def)
        from agrees_written [OF this wr r [OF u]] show ?thesis using sl by simp
      qed
      moreover have "unat (e + 1) \<le> length (obj ''http'' url w')" using wr sl by (simp add: written_def)
      ultimately show ?thesis using s' by (simp add: http_holds_def)
    qed
    then show ?case
      using 1 s' adv by (auto split: sum.split simp: n' intro!: wp_http_persist [OF _ i64] simp: http_holds_def)
  next
    case (2 w')
    then show ?case by (rule http_sound_touch [OF ht _ r])
  qed
qed

text \<open>What every branch ends in.\<close>

abbreviation http_post ::
  "'h digests \<Rightarrow> http_dest \<Rightarrow> work_item \<Rightarrow> i64 \<Rightarrow> bytes \<Rightarrow> string \<Rightarrow> delivered res \<Rightarrow> world \<Rightarrow> bool" where
  "http_post D H it m c url r w \<equiv> http_sound it m c w \<and> (\<forall>d. r = Inr d \<longrightarrow> http_done D H it m c url d w)"

lemma http_ranged_wp:
  assumes D: "lawful_digests D" and law: "http_service it (hd_client H)" "hd_method H = MPut"
    and progress: "\<And>j. frames (local_read ''http'' it) (progress j)"
    and i64: "in_i64 m" and small: "length c + unat (max 1 (hd_chunk_bytes H)) < 2 ^ 64" and res: "hd_resumable H"
    and h: "http_holds it m c url k w" "unat k \<le> length c" "fed D (hd_algo H) it m (take (unat k) c) hs w"
  shows "wp (http_ranged D H it url (of_nat (length c)) m k hs progress) (http_post D H it m c url) (http_sound it m c) w"
proof -
  let ?n = "of_nat (length c) :: u64"
  have n: "unat ?n = length c" using small by (simp add: unat_length)
  have le: "k \<le> ?n" using h(2) n by (simp add: word_le_nat_alt)
  have rl: "ranged_law it (hd_client H)" using law by (simp add: http_service_def)
  have sm: "unat ?n + unat (max 1 (hd_chunk_bytes H)) < 2 ^ 64" using small n by simp
  note round = http_round [OF rl law(2) i64 n sm]
  have loop: "wp (chunk_loop (chunk_fuel ?n) D (\<lambda>e. e) (wi_abs_source it) (hd_chunk_bytes H) ?n progress
        (\<lambda>s e buf. http_send_chunk H url (Some (content_range_header s e ?n)) buf) (http_persist H it url ?n m) k hs)
      (\<lambda>r w'. case r of Inl x \<Rightarrow> http_sound it m c w'
         | Inr h' \<Rightarrow> advances v w' \<and> src_is it m c w' \<and> http_holds it m c url ?n w' \<and> fed D (hd_algo H) it m c h' w')
      (http_sound it m c) v"
    if v: "http_holds it m c url k v" "fed D (hd_algo H) it m (take (unat k) c) hs v" for v
  proof (rule chunk_loop_wp [OF D progress n sm round])
    show "http_holds it m c url k v" "k \<le> ?n" "fed D (hd_algo H) it m (take (unat k) c) hs v" by (fact v le)+
    show "src_is it m c v" using v(1) by (simp add: http_holds_def http_sound_def)
    show "http_holds it m c url k w'" if "http_holds it m c url k w" "local_read ''http'' it w w'" for k w w'
      by (rule http_holds_read [OF that])
  qed (simp_all add: http_holds_def)
  show ?thesis
    unfolding http_ranged_def wp_seqn wp_set_sent wp_try
  proof (rule wp_http_persist [OF h(1) i64])
    fix w' assume adv: "advances w w'" and h': "http_holds it m c url k w'"
    have src: "src_is it m c w" using h(1) by (simp add: http_holds_def http_sound_def)
    have f: "fed D (hd_algo H) it m (take (unat k) c) hs (w'\<lparr>w_sent := k\<rparr>)"
      using h(3) src_is_step(2) [OF src adv] by (simp add: fed_def)
    have hs': "http_holds it m c url k (w'\<lparr>w_sent := k\<rparr>)" using h' by (simp add: http_holds_def)
    show "wp (chunk_loop (chunk_fuel ?n) D (\<lambda>e. e) (wi_abs_source it) (hd_chunk_bytes H) ?n progress
          (\<lambda>s e buf. http_send_chunk H url (Some (content_range_header s e ?n)) buf) (http_persist H it url ?n m) k hs)
        (\<lambda>r. case r of Inl e \<Rightarrow> http_post D H it m c url (Inl e)
           | Inr x \<Rightarrow> wp (http_delivered D H it url ?n x) (http_post D H it m c url) (http_sound it m c))
        (http_sound it m c) (w'\<lparr>w_sent := k\<rparr>) \<and> http_sound it m c w'"
    proof (intro conjI wp_conseq [OF loop [OF hs' f]], goal_cases)
      case (1 r v)
      show ?case
      proof (cases r)
        case (Inl e)
        then show ?thesis using 1 by simp
      next
        case (Inr hh)
        then have s: "http_sound it m c v" and held: "http_holds it m c url ?n v" and fd: "fed D (hd_algo H) it m c hh v"
          using 1 by (simp_all add: http_holds_def)
        show ?thesis
          unfolding Inr sum.case
        proof (rule wp_http_delivered [OF s refl])
          assume u: "unmodified it m v"
          then show "hh = hasher_update D (hasher_new D (hd_algo H)) c" using fd by (simp add: fed_def)
          show "take (length c) (obj ''http'' url v) = c \<and> (\<not> hd_resumable H \<longrightarrow> obj ''http'' url v = c)"
            using held u n res by (auto simp: http_holds_def intro: agrees_full)
        qed
      qed
    qed (use h' in \<open>auto simp: http_holds_def\<close>)
  qed
qed

lemma http_single_wp:
  assumes D: "lawful_digests D" and law: "http_service it (hd_client H)" "''content-range'' \<notin> fst ` set (hd_headers H)"
    and progress: "\<And>j. frames (local_read ''http'' it) (progress j)" and small: "length c < 2 ^ 64"
    and s: "http_sound it m c w" "unmodified it m w"
  shows "wp (http_single D H it url (of_nat (length c)) progress) (http_post D H it m c url) (http_sound it m c) w"
  unfolding http_single_def wp_seqn wp_set_sent wp_try
proof (rule wp_read_source_range [OF progress], goal_cases)
  case (1 w1 buf c')
  let ?w = "w\<lparr>w_sent := 0\<rparr>"
  have s0: "http_sound it m c ?w" using s(1) by simp
  have "src_is it m c w" using s(1) by (simp add: http_sound_def)
  then have "c' = c" using 1(2) src_untouched [OF _ s(2)] by simp
  then have buf: "buf = c" using 1(3) small by (simp add: unat_length)
  have s1: "http_sound it m c w1" by (rule http_sound_read [OF s0 1(1)])
  have wl: "whole_law it (hd_client H)" using law by (simp add: http_service_def)
  have r: "range_of 0 c c" by (simp add: range_of_def)
  show ?case
    unfolding buf sum.case
  proof (rule wp_conseq [OF wp_send_whole [OF wl law(2)]], goal_cases)
    case (1 x w2)
    then have s2: "http_sound it m c w2" using http_sound_touch [OF s1 _ r] by blast
    show ?case
    proof (cases x)
      case (Inr u)
      have "hasher_update D (hasher_new D (hd_algo H)) c = hasher_update D (hasher_new D (hd_algo H)) c" ..
      then show ?thesis
        unfolding Inr sum.case by (intro wp_http_delivered [OF s2 refl]) (use 1 Inr in simp_all)
    qed (use s2 in simp)
  next
    case (2 w2)
    then show ?case by (rule http_sound_touch [OF s1 _ r])
  qed
next
  case (2 w1 e)
  then show ?case using http_sound_read [of it m c "w\<lparr>w_sent := 0\<rparr>" w1] s(1) by simp
next
  case (3 w1)
  then show ?case using http_sound_read [of it m c "w\<lparr>w_sent := 0\<rparr>" w1] s(1) by simp
qed

definition http_sane :: "http_dest \<Rightarrow> bool" where
  "http_sane H =
     ((hd_resumable H \<longrightarrow> hd_method H = MPut) \<and> ''content-range'' \<notin> fst ` set (hd_headers H)
      \<and> unat (hd_chunk_bytes H) \<le> 2 ^ 62)"

lemma http_small:
  assumes "length c \<le> 2 ^ 62" "unat (chunk :: u64) \<le> 2 ^ 62"
  shows "length c + unat (max 1 chunk) < 2 ^ 64"
proof -
  have "unat (max 1 chunk) \<le> 2 ^ 62" using assms(2) by (simp add: max_def)
  then show ?thesis using assms(1) by simp
qed

lemma http_deliver_wp:
  assumes D: "lawful_digests D" and law: "http_service it (hd_client H)" and sane: "http_sane H"
    and progress: "\<And>j. frames (local_read ''http'' it) (progress j)"
    and c: "w_files w (wi_abs_source it) = Some c" "length c \<le> 2 ^ 62" and m: "m = w_mtime w (wi_abs_source it)" "in_i64 m"
    and sound: "offset_sound ''http'' ''http'' ''url'' it m w" and resume: "resume = ckpt ''http'' it w \<or> resume = None"
    and url: "http_build_url (hd_urls H) (hd_base_url H) (wi_relpath it) = Inr url"
  shows "wp (http_deliver D H it resume progress) (http_post D H it m c url) (http_sound it m c) w"
  unfolding http_deliver_def wp_try wp_map_err wp_ret url sum.case
proof (rule wp_metadata, goal_cases)
  case (1 fs c')
  let ?w = "w\<lparr>w_fate := fs\<rparr>" and ?n = "of_nat (length c) :: u64"
  have c': "c' = c" using 1 c(1) by simp
  have small: "length c + unat (max 1 (hd_chunk_bytes H)) < 2 ^ 64"
    by (rule http_small) (use c sane in \<open>simp_all add: http_sane_def\<close>)
  have n: "unat ?n = length c" using small by (simp add: unat_length)
  have s: "http_sound it m c ?w" "unmodified it m ?w"
    using sound src_is_now [OF c(1)] m by (simp_all add: http_sound_def unmodified_def)
  note hl = law [unfolded http_service_def]
  have refl: "local_read ''http'' it v v" for v by (simp add: local_read_def)
  show ?case
  proof (cases "hd_resumable H")
    case False
    then show ?thesis
      unfolding c' m(1) [symmetric] sum.case prod.case wp_try wp_ret
      using http_single_wp [OF D law _ progress _ s, of url] sane small by (simp add: http_sane_def)
  next
    case True
    let ?tk = "offset_reusable ''http'' ''url'' resume url ?n m"
    have put: "hd_method H = MPut" using True sane by (simp add: http_sane_def)
    have rl: "ranged_law it (hd_client H)" and hh: "head_honest it (hd_client H)" using hl by simp_all
    have token: "agrees (min (unat (ot_committed t)) (unat ?n)) (obj ''http'' url ?w) c" if t: "?tk = Some t" for t
    proof -
      obtain rs where rs: "ckpt ''http'' it ?w = Some rs" "offset_from_resume ''http'' ''url'' rs = Some t"
        "ot_target t = url" "ot_size t = ?n" "ot_mtime_ms t = m"
        using offset_reusable_Some [OF t, of "ckpt ''http'' it w"] resume by auto
      have "agrees (unat (ot_committed t)) (obj ''http'' url ?w) c"
        using offset_soundD(2) [of "''http''" "''http''" "''url''" it m ?w rs t c] rs s c(1) sound
        by (simp add: http_sound_def)
      then show ?thesis by (rule agrees_less) simp
    qed
    show ?thesis
      unfolding c' m(1) [symmetric] sum.case prod.case wp_try wp_ret if_not_P [OF not_not [THEN iffD2, OF True]]
    proof (rule wp_committed [OF hh], goal_cases)
      case (1 w1 k)
      note here = 1
      have adv: "advances ?w w1" and ob: "obj ''http'' url w1 = obj ''http'' url ?w" using here(1) by (simp_all add: local_read_def obj_def)
      have s1: "http_sound it m c w1" by (rule http_sound_read [OF s(1) here(1)])
      have kn: "unat k \<le> length c" using here(2) n by (auto split: option.splits)
      have ag: "agrees (unat k) (obj ''http'' url w1) c"
      proof (cases ?tk)
        case None
        then show ?thesis using here(2) by simp
      next
        case (Some t)
        then show ?thesis unfolding ob using here(2) by (intro agrees_less [OF token [OF Some]]) simp
      qed
      have h1: "http_holds it m c url k w1" using s1 ag here(3) by (simp add: http_holds_def)
      show ?case
        unfolding sum.case
      proof (rule wp_hash_committed [OF D, where label = "''http''" and it = it], goal_cases)
        case (1 w2 hs)
        have src: "src_is it m c w1" using s1 by (simp add: http_sound_def)
        have h2: "http_holds it m c url k w2" by (rule http_holds_read [OF h1 1(1)])
        have f: "fed D (hd_algo H) it m (take (unat k) c) hs w2"
          unfolding fed_def
        proof
          assume "unmodified it m w2"
          then have "unmodified it m w1" using src_is_step(2) [OF src, of w2] 1(1) by (simp add: local_read_def)
          then show "hs = hasher_update D (hasher_new D (hd_algo H)) (take (unat k) c)"
            using 1(2) src_untouched [OF src] by simp
        qed
        show ?case
        proof (cases "?n = 0")
          case False
          then show ?thesis
            unfolding sum.case if_not_P [OF False]
            by (intro http_ranged_wp [OF D law put progress m(2) small True h2 kn f])
        next
          case empty: True
          then have c0: "c = []" "k = 0" using n kn by (simp_all add: unat_eq_zero)
          have r: "range_of 0 [] c" by (simp add: range_of_def)
          have s2: "http_sound it m c w2" using h2 by (simp add: http_holds_def)
          show ?thesis
            unfolding sum.case if_P [OF empty] wp_try
          proof (rule wp_conseq [OF wp_send_ranged [OF rl put]], goal_cases)
            case (1 x w3)
            then have t: "http_touch it url (unat 0) [] w2 w3" by simp
            have s3: "http_sound it m c w3" by (rule http_sound_touch [OF s2 t]) (simp add: r)
            have adv: "advances w2 w3" using t by (simp add: touches_def)
            show ?case
            proof (cases x)
              case (Inr u)
              show ?thesis
                unfolding Inr sum.case
              proof (rule wp_http_delivered [OF s3])
                show "(0 :: u64) = of_nat (length c)" using c0 by simp
                assume "unmodified it m w3"
                then have "unmodified it m w2"
                  using s2 src_is_step(2) [OF _ adv] by (auto simp: http_sound_def)
                then show "hs = hasher_update D (hasher_new D (hd_algo H)) c" using f c0 by (simp add: fed_def)
              qed (use c0 True in simp)
            qed (use s3 in simp)
          next
            case (2 w3)
            then show ?case by (rule http_sound_touch [OF s2]) (simp add: r)
          qed
        qed
      qed (use s1 http_sound_read in auto)
    qed (use http_sound_read [OF s(1)] in auto)
  qed
qed (use sound src_is_now [OF c(1)] m in \<open>simp_all add: http_sound_def\<close>)

end
