(* ===== verification/Http_Properties.thy ===== *)
theory Http_Properties
  imports Http_Delivery S3_Properties
begin

text \<open>
  The properties of the HTTP destination: what a successful delivery holds, and what it holds
  when the source is rewritten on the way. An in-memory server instantiates the laws.
\<close>

section \<open>Ranges\<close>

text \<open>The offset at which a \<open>Content-Range\<close> header starts, as a server reads it.\<close>

definition range_start :: "string \<Rightarrow> nat option" where
  "range_start v =
     Option.bind (strip_prefix ''bytes '' v) (\<lambda>r.
     Option.bind (str_split_once (CHR ''-'') r) (\<lambda>(s, e). parse_uint 64 s))"

lemma split_once_app: "c \<notin> set s \<Longrightarrow> str_split_once c (s @ c # t) = Some (s, t)"
  by (induction s) auto

lemma digits_no_dash: "\<not> is_digit c \<Longrightarrow> c \<notin> set (show_nat n)"
  using show_nat_digits by blast

lemma range_start_header: "range_start (content_range_header s e n) = Some (unat s)"
proof -
  have "CHR ''-'' \<notin> set (show_nat (unat s))" by (rule digits_no_dash) (simp add: is_digit_def)
  moreover have "unat s < 2 ^ 64" using unsigned_less [of s, where 'a = nat] by simp
  ultimately show ?thesis
    by (simp add: range_start_def content_range_header_def strip_prefix_def split_once_app parse_uint_show_nat)
qed

section \<open>An in-memory server\<close>

definition reply :: "nat \<Rightarrow> bytes \<Rightarrow> http_response" where
  "reply st ob = \<lparr>rp_status = st, rp_headers = (\<lambda>k. if k = ''content-length'' then Some (show_nat (length ob)) else None),
     rp_body = [ob], rp_cut = False\<rparr>"

definition overwrite :: "nat \<Rightarrow> bytes \<Rightarrow> bytes \<Rightarrow> bytes" where
  "overwrite s body ob = take s ob @ body @ drop (s + length body) ob"

definition mem_http :: http_client where
  "mem_http rq w =
     (let u = rq_url rq; ob = obj ''http'' u w in
      case rq_verb rq of
        HeadV \<Rightarrow> (if length ob < 2 ^ 64 then (Some (Inr (reply 200 ob)), w) else (Some (Inr (reply 404 [])), w))
      | GetV \<Rightarrow> (if length ob < 2 ^ 64 then (Some (Inr (reply 200 ob)), w) else (Some (Inr (reply 404 [])), w))
      | DeleteV \<Rightarrow> (Some (Inr (reply 200 [])), w)
      | _ \<Rightarrow>
        (case map_of (rev (rq_headers rq)) ''content-range'' of
           None \<Rightarrow> (Some (Inr (reply 200 [])), mem_store ''http'' u (rq_body rq) w)
         | Some v \<Rightarrow>
             (case range_start v of
                Some s \<Rightarrow>
                  if s \<le> length ob
                  then (Some (Inr (reply 200 [])), mem_store ''http'' u (overwrite s (rq_body rq) ob) w)
                  else (Some (Inr (reply 416 [])), w)
              | None \<Rightarrow> (Some (Inr (reply 416 [])), w))))"

lemma obj_store: "obj b u (mem_store b k x w) = (if u = k then x else obj b u w)"
  by (simp add: obj_def mem_store_def unwrap_or_def)

lemma store_touches:
  "patched s body (obj b k w) x \<Longrightarrow> touches b label it k s body w (mem_store b k x w)"
  by (simp add: touches_def obj_store) (simp add: mem_store_def advances_def ckpt_def)

lemma overwrite_written: "s \<le> length ob \<Longrightarrow> written s body ob (overwrite s body ob)"
  by (auto simp: written_def patched_def overwrite_def nth_append min_def)

lemma refl_touches: "touches b label it k s body w w"
  by (simp add: touches_def)

lemma whole_patched: "patched 0 body ob body"
  by (simp add: patched_def)

lemma mem_http_service: "http_service it mem_http"
proof -
  have "ranged_law it mem_http"
    unfolding ranged_law_def mem_http_def Let_def
    by (auto simp: wp_def range_start_header refl_touches obj_store is_success_def reply_def
        intro!: store_touches written_patched overwrite_written)
  moreover have "whole_law it mem_http"
    unfolding whole_law_def
  proof (intro allI impI)
    fix rq :: http_request and w assume v: "rq_verb rq \<in> {PutV, PostV}" "''content-range'' \<notin> fst ` set (rq_headers rq)"
    have "map_of (rev (rq_headers rq)) ''content-range'' = None" using v(2) by (simp add: map_of_eq_None_iff)
    then have "mem_http rq w = (Some (Inr (reply 200 [])), mem_store ''http'' (rq_url rq) (rq_body rq) w)"
      using v(1) by (auto simp: mem_http_def Let_def)
    then show "wp (mem_http rq)
        (\<lambda>r w'. touches ''http'' ''http'' it (rq_url rq) 0 (rq_body rq) w w'
           \<and> (\<forall>p. r = Inr p \<longrightarrow> is_success (rp_status p) \<longrightarrow> obj ''http'' (rq_url rq) w' = rq_body rq))
        (\<lambda>w'. touches ''http'' ''http'' it (rq_url rq) 0 (rq_body rq) w w') w"
      by (simp add: wp_def obj_store store_touches whole_patched)
  qed
  moreover have "head_honest it mem_http"
    unfolding head_honest_def mem_http_def Let_def
    by (auto simp: wp_def local_read_def reply_def content_length_def parse_uint_show_nat is_success_def unat_length)
  ultimately show ?thesis by (simp add: http_service_def)
qed

section \<open>Delivered and verified\<close>

text \<open>A \<open>GET\<close> changes nothing and returns the object, when it succeeds and is not cut off.\<close>

definition get_honest :: "work_item \<Rightarrow> http_client \<Rightarrow> bool" where
  "get_honest it C =
     (\<forall>rq w. rq_verb rq = GetV \<longrightarrow>
        wp (C rq)
          (\<lambda>r w'. local_read ''http'' it w w'
             \<and> (\<forall>p. r = Inr p \<longrightarrow> is_success (rp_status p) \<longrightarrow> \<not> rp_cut p \<longrightarrow>
                  concat (rp_body p) = obj ''http'' (rq_url rq) w' \<and> length (concat (rp_body p)) < 2 ^ 64))
          (\<lambda>w'. local_read ''http'' it w w') w)"

lemma wp_http_head:
  assumes "head_honest it (hd_client H)"
  shows "wp (http_bare H HeadV url)
    (\<lambda>r w'. local_read ''http'' it w w' \<and> (\<forall>p n. r = Inr p \<longrightarrow> is_success (rp_status p) \<longrightarrow> content_length p = Some n \<longrightarrow>
       unat n = length (obj ''http'' url w')))
    (\<lambda>w'. local_read ''http'' it w w') w"
proof -
  let ?rq = "\<lparr>rq_verb = HeadV, rq_url = url, rq_headers = [], rq_auth = hd_auth H, rq_body = []\<rparr>"
  note law = assms [unfolded head_honest_def, rule_format, of ?rq w, simplified]
  show ?thesis
    unfolding http_bare_def wp_http_answer
    by (rule wp_conseq [OF law]) (auto simp: is_success_def split: sum.splits)
qed

lemma wp_http_get:
  assumes "get_honest it (hd_client H)"
  shows "wp (http_bare H GetV url)
    (\<lambda>r w'. local_read ''http'' it w w' \<and> (\<forall>p. r = Inr p \<longrightarrow> is_success (rp_status p) \<longrightarrow> \<not> rp_cut p \<longrightarrow>
       concat (rp_body p) = obj ''http'' url w' \<and> length (obj ''http'' url w') < 2 ^ 64))
    (\<lambda>w'. local_read ''http'' it w w') w"
proof -
  let ?rq = "\<lparr>rq_verb = GetV, rq_url = url, rq_headers = [], rq_auth = hd_auth H, rq_body = []\<rparr>"
  note law = assms [unfolded get_honest_def, rule_format, of ?rq w, simplified]
  show ?thesis
    unfolding http_bare_def wp_http_answer
    by (rule wp_conseq [OF law]) (auto split: sum.splits)
qed

lemma verify_size_dl: "verify_size n k = Inr () \<Longrightarrow> k = n"
  by (simp add: verify_size_ok)

lemma http_verify_wp:
  assumes laws: "head_honest it (hd_client H)" "get_honest it (hd_client H)" and D: "lawful_digests D"
    and url: "ua_parse (hd_urls H) url = Inr url" "dl_handle dl = http_handle url a"
  shows "wp (http_verify D H it dl pol)
    (\<lambda>r w'. local_read ''http'' it w w' \<and> (r = Inr () \<longrightarrow> pol \<noteq> VNone \<longrightarrow> length (obj ''http'' url w') = unat (dl_bytes dl)))
    (\<lambda>w'. local_read ''http'' it w w') w"
proof (cases "pol = VNone")
  case True
  then show ?thesis by (simp add: http_verify_def wp_ok_err local_read_def)
next
  case False
  have target: "verify_target (hd_urls H) H it dl = Inr url"
    using url by (simp add: verify_target_def bind_res_def need_def first_some_def handle_url_def http_handle_def)
  show ?thesis
  proof (cases "pol = VSize")
    case True
    show ?thesis
      unfolding http_verify_def if_not_P [OF False] if_P [OF True] target wp_try wp_ret sum.case
    proof (rule wp_conseq [OF wp_http_head [OF laws(1)]], goal_cases)
      case (1 r v)
      show ?case
      proof (cases r)
        case (Inr p)
        show ?thesis
          using 1 unfolding Inr
          by (cases "content_length p") (auto dest!: verify_size_dl simp: bind_res_def need_success_def wp_ret)
      qed (use 1 in simp)
    qed
  next
    case other: False
    have size: "length (obj ''http'' url w') = unat (dl_bytes dl)"
      if "verify_digest D (hd_algo H) dl cs = Inr ()" "concat cs = obj ''http'' url w'" "length (obj ''http'' url w') < 2 ^ 64"
      for cs w'
      using verify_digest_ok(1) [OF D that(1)] unat_length [OF that(3)] unfolding that(2) by metis
    show ?thesis
      unfolding http_verify_def if_not_P [OF False] if_not_P [OF other] target wp_try wp_ret sum.case
    proof (rule wp_conseq [OF wp_http_get [OF laws(2)]], goal_cases)
      case (1 r v)
      show ?case
      proof (cases r)
        case (Inr p)
        show ?thesis
          using 1 size [of "rp_body p" v] unfolding Inr
          by (simp add: bind_res_def need_success_def whole_body_def wp_ret)
      qed (use 1 in simp)
    qed
  qed
qed

text \<open>What \<open>build\<close> guarantees.\<close>

lemma http_build_sane:
  assumes "http_build cfg creds store C U = Inr H" "''content-range'' \<notin> fst ` set (he_headers cfg)"
    and "unat (unwrap_or (he_chunk_bytes cfg) http_default_chunk) \<le> 2 ^ 62"
  shows "http_sane H" "hd_client H = C" "hd_urls H = U" "hd_base_url H = he_url cfg"
proof -
  have m: "m \<noteq> MPost \<longleftrightarrow> m = MPut" for m by (cases m) simp_all
  have u: "unat (max 1 k) \<le> 2 ^ 62" if "unat k \<le> 2 ^ 62" for k :: u64 using that by (simp add: max_def)
  show "http_sane H" "hd_client H = C" "hd_urls H = U" "hd_base_url H = he_url cfg"
    using assms u by (auto simp: http_build_def bind_res_def http_sane_def m split: sum.splits)
qed

lemma http_verified_wp:
  assumes D: "lawful_digests D" and law: "http_service it (hd_client H)" "get_honest it (hd_client H)" and sane: "http_sane H"
    and progress: "\<And>j. frames (local_read ''http'' it) (progress j)"
    and c: "w_files w (wi_abs_source it) = Some c" "length c \<le> 2 ^ 62" and m: "m = w_mtime w (wi_abs_source it)" "in_i64 m"
    and sound: "offset_sound ''http'' ''http'' ''url'' it m w" and resume: "resume = ckpt ''http'' it w \<or> resume = None"
    and url: "http_build_url (hd_urls H) (hd_base_url H) (wi_relpath it) = Inr url" "ua_parse (hd_urls H) url = Inr url"
  shows "wp (deliver_and_verify (http_destination D H) it resume progress pol)
    (\<lambda>r w'. http_sound it m c w' \<and> (\<forall>d. r = Inr d \<longrightarrow> http_done D H it m c url d w'
       \<and> (pol \<noteq> VNone \<longrightarrow> unmodified it m w' \<longrightarrow> obj ''http'' url w' = c))) (http_sound it m c) w"
  unfolding deliver_and_verify_def http_destination_def destination.simps wp_try
proof (rule wp_conseq [OF http_deliver_wp [OF D law(1) sane progress c m sound resume url(1)]], goal_cases)
  case (1 r v)
  show ?case
  proof (cases r)
    case (Inr d)
    then have s: "http_sound it m c v" and d: "http_done D H it m c url d v" using 1 by simp_all
    have hh: "head_honest it (hd_client H)" using law(1) by (simp add: http_service_def)
    have h: "dl_handle d = http_handle url (hd_algo H)" using d by (simp add: http_done_def)
    show ?thesis
      unfolding Inr sum.case
    proof (rule wp_conseq [OF http_verify_wp [OF hh law(2) D url(2) h]], goal_cases)
      case (1 x v')
      then have l: "local_read ''http'' it v v'" by simp
      have s': "http_sound it m c v'" by (rule http_sound_read [OF s l])
      have src: "src_is it m c v" using s by (simp add: http_sound_def)
      have ob: "obj ''http'' url v' = obj ''http'' url v" using l by (simp add: local_read_def obj_def)
      have un: "unmodified it m v' \<Longrightarrow> unmodified it m v"
        using src_is_step(2) [OF src, of v'] l by (simp add: local_read_def)
      have d': "http_done D H it m c url d v'" using d un by (simp add: http_done_def ob)
      have "obj ''http'' url v' = c" if "x = Inr ()" "pol \<noteq> VNone" "unmodified it m v'"
      proof -
        have "length (obj ''http'' url v') = unat (dl_bytes d)" using 1 that by simp
        also have "\<dots> = length c" using d c(2) by (simp add: http_done_def unat_length)
        finally show ?thesis using d' that(3) by (simp add: http_done_def)
      qed
      then show ?case using s' d' by (cases x) (simp_all add: wp_ok_err)
    qed (rule http_sound_read [OF s])
  qed (use 1 in simp)
qed


definition plain_urls :: url_api where
  "plain_urls =
     \<lparr>ua_parse = Inr, ua_extend = (\<lambda>u segs. Some (str_join ''/'' (u # segs))), ua_query = (\<lambda>u ps. u @ ''?'' @ concat (List.map snd ps))\<rparr>"

definition ex_http_egress :: http_egress where
  "ex_http_egress =
     \<lparr>he_url = ''http://h/d'', he_method = None, he_headers = [], he_resumable = None, he_chunk_bytes = Some 2,
      he_checksum_algorithm = None, he_credentials = None, he_bearer_token = None, he_username = None, he_password = None\<rparr>"

definition ex_http :: "http_client \<Rightarrow> http_dest" where
  "ex_http C =
     \<lparr>hd_base_url = ''http://h/d'', hd_method = MPut, hd_headers = [], hd_auth = NoAuth, hd_resumable = True,
      hd_chunk_bytes = 2, hd_algo = AlgCrc32c, hd_store = False, hd_client = C, hd_urls = plain_urls\<rparr>"

lemma ex_http_built: "http_build ex_http_egress None False C plain_urls = Inr (ex_http C)"
  by (simp add: http_build_def ex_http_egress_def checksum_algorithm_def http_method_parse_def resolve_http_auth_def
      http_build_url_def plain_urls_def bind_res_def ex_http_def unwrap_or_def)

text \<open>Fault-free steps of a concrete run.\<close>

lemma calm_open: "w_fate w = [] \<Longrightarrow> w_files w p = Some c \<Longrightarrow> fs_open p w = (Some (Inr c), w)"
  by (simp add: fs_open_def effect_def next_fate_def)

lemma calm_touch: "w_fate w = [] \<Longrightarrow> fs_touch w = (Some (Inr ()), w)"
  by (simp add: fs_touch_def effect_def next_fate_def)

lemma one_read: "xs \<noteq> [] \<Longrightarrow> length xs \<le> 65536 \<Longrightarrow> read_chunks xs = [xs]"
  by (subst read_chunks.simps, simp, subst read_chunks.simps, simp)

lemma calm_read:
  assumes "w_fate w = []" "w_files w p = Some c" "xs = take (unat len) (drop (unat off) c)"
    "xs \<noteq> []" "length xs \<le> 65536" "length xs = unat len"
  shows "read_source_range p off len (report_total (\<lambda>_. ret ())) w = (Some (Inr xs), w\<lparr>w_sent := w_sent w + len\<rparr>)"
proof -
  have len: "of_nat (length xs) = len" using assms(6) by simp
  show ?thesis
    unfolding read_source_range_def
    using assms(1,2,4-6) len
    by (simp add: try_act_def map_err_def bnd_def ret_def ok_def calm_open calm_touch assms(3) [symmetric] Let_def one_read
        seqn_def report_total_def get_world_def set_sent_def del: length_take length_drop)
qed

lemma chunk_numerals:
  "chunk_bounds 0 2 3 = (0, 1)" "chunk_bounds 2 2 3 = (2, 2)" "chunk_fuel 3 = Suc (Suc (Suc (Suc 0)))"
  by (simp_all add: chunk_bounds_def chunk_fuel_def)

lemma range_headers:
  "range_start (content_range_header 0 e n) = Some 0" "range_start (content_range_header 2 e n) = Some 2"
  by (simp_all add: range_start_header)

lemma ex_http_simps [simp]:
  "hd_store (ex_http C) = False" "hd_client (ex_http C) = C" "hd_algo (ex_http C) = AlgCrc32c" "hd_chunk_bytes (ex_http C) = 2"
  "hd_resumable (ex_http C) = True" "hd_method (ex_http C) = MPut" "hd_headers (ex_http C) = []"
  "hd_urls (ex_http C) = plain_urls" "hd_auth (ex_http C) = NoAuth"
  by (simp_all add: ex_http_def)

lemma ex_persist: "http_persist (ex_http C) it u n m k = ret ()" "http_clear (ex_http C) it = ret ()"
  by (simp_all add: http_persist_def save_offset_def save_row_def http_clear_def clear_row_def)

lemma ex_http_url: "http_build_url (hd_urls (ex_http C)) (hd_base_url (ex_http C)) (wi_relpath ex_item) = Inr ''http://h/d/a.csv''"
  by (simp add: http_build_url_def plain_urls_def ex_item_def) (simp add: ex_http_def)

lemma ex_loop:
  assumes "w_fate w = []" "w_files w [''in'', ''a.csv''] = Some [x, y, z]"
    and "http_send_chunk (ex_http C) u (Some (content_range_header 0 1 3)) [x, y] (w\<lparr>w_sent := w_sent w + 2\<rparr>) = (Some (Inr ()), v)"
    and "w_fate v = []" "w_files v [''in'', ''a.csv''] = Some [x', y', z']"
    and "http_send_chunk (ex_http C) u (Some (content_range_header 2 2 3)) [z'] (v\<lparr>w_sent := w_sent v + 1\<rparr>) = (Some (Inr ()), v')"
  shows "chunk_loop (chunk_fuel 3) D (\<lambda>e. e) [''in'', ''a.csv''] 2 3 (\<lambda>_. ret ())
     (\<lambda>s e buf. http_send_chunk (ex_http C) u (Some (content_range_header s e 3)) buf) (http_persist (ex_http C) it u 3 0) 0 h w
   = (Some (Inr (hasher_update D (hasher_update D h [x, y]) [z'])), v')"
proof -
  have r1: "read_source_range [''in'', ''a.csv''] 0 2 (report_total (\<lambda>_. ret ())) w = (Some (Inr [x, y]), w\<lparr>w_sent := w_sent w + 2\<rparr>)"
    by (rule calm_read [OF assms(1,2)]) simp_all
  have r2: "read_source_range [''in'', ''a.csv''] 2 1 (report_total (\<lambda>_. ret ())) v = (Some (Inr [z']), v\<lparr>w_sent := w_sent v + 1\<rparr>)"
    by (rule calm_read [OF assms(4,5)]) simp_all
  show ?thesis
    by (simp add: chunk_numerals try_with_def fatal_err_def bnd_def ret_def r1 r2 assms(3,6) seqn_def ex_persist)
qed

text \<open>A delivery of the example in two chunks, the second read from \<open>v\<close>, and its checksum verification.\<close>

lemma ex_two_chunks:
  assumes w: "w_fate w = []" "w_files w [''in'', ''a.csv''] = Some [x, y, z]" "w_mtime w [''in'', ''a.csv''] = 0"
    and one: "http_send_chunk (ex_http C) ''http://h/d/a.csv'' (Some (content_range_header 0 1 3)) [x, y] (w\<lparr>w_sent := 2\<rparr>)
        = (Some (Inr ()), v)"
    and v: "w_fate v = []" "w_files v [''in'', ''a.csv''] = Some [x', y', z']"
    and two: "http_send_chunk (ex_http C) ''http://h/d/a.csv'' (Some (content_range_header 2 2 3)) [z'] (v\<lparr>w_sent := w_sent v + 1\<rparr>)
        = (Some (Inr ()), v')"
    and get: "http_bare (ex_http C) GetV ''http://h/d/a.csv'' v' = (Some (Inr (reply 200 [x, y, z'])), v')"
  shows "deliver_and_verify (http_destination sum_digests (ex_http C)) ex_item None (\<lambda>_. ret ()) VChecksum w
    = (Some (Inr \<lparr>dl_bytes = 3, dl_checksum = Crc32c (ucast x + ucast y + ucast z'),
         dl_handle = http_handle ''http://h/d/a.csv'' AlgCrc32c\<rparr>), v')"
proof -
  let ?h = "hasher_update sum_digests (hasher_update sum_digests (hasher_new sum_digests AlgCrc32c) [x, y]) [z']"
  let ?d = "\<lparr>dl_bytes = 3, dl_checksum = hasher_finish sum_digests ?h, dl_handle = http_handle ''http://h/d/a.csv'' AlgCrc32c\<rparr>"
  have loop: "chunk_loop (chunk_fuel 3) sum_digests (\<lambda>e. e) [''in'', ''a.csv''] 2 3 (\<lambda>_. ret ())
     (\<lambda>s e buf. http_send_chunk (ex_http C) ''http://h/d/a.csv'' (Some (content_range_header s e 3)) buf)
     (http_persist (ex_http C) ex_item ''http://h/d/a.csv'' 3 0) 0 (hasher_new sum_digests AlgCrc32c) (w\<lparr>w_sent := 0\<rparr>)
   = (Some (Inr ?h), v')"
    by (rule ex_loop [where z' = z' and x' = x' and y' = y']) (use assms in simp_all)
  have n: "(0 :: u64) < 3" by simp
  have deliver: "http_deliver sum_digests (ex_http C) ex_item None (\<lambda>_. ret ()) w = (Some (Inr ?d), v')"
    using w
    by (simp add: http_deliver_def try_act_def map_err_def bnd_def ret_def ex_metadata ex_http_url [simplified] http_committed_def
        offset_reusable_def Let_def ok_def hash_committed_def http_ranged_def seqn_def ex_persist
        set_sent_def loop http_delivered_def)
  have target: "verify_target plain_urls (ex_http C) ex_item ?d = Inr ''http://h/d/a.csv''"
    by (simp add: verify_target_def bind_res_def need_def first_some_def handle_url_def http_handle_def plain_urls_def)
  have sum: "hasher_finish sum_digests ?h = Crc32c (ucast x + ucast y + ucast z')"
    by (simp add: hasher_finish_def hasher_update_def hasher_new_def sum_digests_def)
  have check: "verify_digest sum_digests AlgCrc32c ?d [[x, y, z']] = Inr ()"
    unfolding sum
    by (simp add: verify_digest_def bind_res_def verify_size_def verify_checksum_def hasher_finish_def hasher_update_def
        hasher_new_def sum_digests_def)
  show ?thesis
    using check unfolding sum [symmetric]
    by (simp add: deliver_and_verify_def http_destination_def try_act_def bnd_def deliver http_verify_def target ret_def get
        bind_res_def need_success_def reply_def is_success_def whole_body_def ok_def)
qed

text \<open>A writer that replaces the source while the first chunk is on its way.\<close>

definition rewriting_http :: http_client where
  "rewriting_http rq w =
     (case mem_http rq w of (r, w') \<Rightarrow>
        if rq_headers rq = [(''content-range'', content_range_header 0 1 3)]
        then (r, w'\<lparr>w_files := (w_files w')([''in'', ''a.csv''] \<mapsto> [5, 6, 7]), w_mtime := (w_mtime w')([''in'', ''a.csv''] := 1)\<rparr>)
        else (r, w'))"

lemma ex_chunk:
  assumes "hd_client H = mem_http" "hd_method H = MPut" "hd_headers H = []" "obj ''http'' u w = ob" "unat s \<le> length ob"
  shows "http_send_chunk H u (Some (content_range_header s e n)) body w
    = (Some (Inr ()), mem_store ''http'' u (overwrite (unat s) body ob) w)"
  using assms
  by (simp add: http_send_chunk_def try_act_def http_answer_def bnd_def ret_def http_verb_of_def mem_http_def range_start_header
      Let_def reply_def is_success_def ok_def)

lemma ex_get:
  assumes "hd_client H = mem_http" "length (obj ''http'' u w) < 2 ^ 64" shows "http_bare H GetV u w = (Some (Inr (reply 200 (obj ''http'' u w))), w)"
  using assms by (simp add: http_bare_def http_answer_def bnd_def ret_def mem_http_def Let_def)

lemma ex_http_run:
  "\<exists>w'. deliver_and_verify (http_destination sum_digests (ex_http mem_http)) ex_item None (\<lambda>_. ret ()) VChecksum (ex_tracked [])
     = (Some (Inr \<lparr>dl_bytes = 3, dl_checksum = Crc32c 6, dl_handle = http_handle ''http://h/d/a.csv'' AlgCrc32c\<rparr>), w')
   \<and> w_files w' [''in'', ''a.csv''] = Some [1, 2, 3] \<and> w_mtime w' [''in'', ''a.csv''] = 0
   \<and> w_remote w' ''http'' ''http://h/d/a.csv'' = Some [1, 2, 3]"
proof -
  let ?u = "''http://h/d/a.csv''" and ?w = "ex_tracked []"
  let ?v = "mem_store ''http'' ?u [1, 2] (?w\<lparr>w_sent := 2\<rparr>)"
  let ?v' = "mem_store ''http'' ?u [1, 2, 3] (?v\<lparr>w_sent := w_sent ?v + 1\<rparr>)"
  have store: "w_fate (mem_store b k x w) = w_fate w" "w_files (mem_store b k x w) = w_files w" "w_mtime (mem_store b k x w) = w_mtime w"
    for b k x w by (simp_all add: mem_store_def)
  have w: "w_fate ?w = []" "w_files ?w [''in'', ''a.csv''] = Some [1, 2, 3]" "w_mtime ?w [''in'', ''a.csv''] = 0"
    by (simp_all add: ex_tracked_db)
  have none: "obj ''http'' ?u (?w\<lparr>w_sent := 2\<rparr>) = []" by (simp add: obj_def ex_tracked_def ex_world_def unwrap_or_def)
  have one: "http_send_chunk (ex_http mem_http) ?u (Some (content_range_header 0 1 3)) [1, 2] (?w\<lparr>w_sent := 2\<rparr>) = (Some (Inr ()), ?v)"
    by (subst ex_chunk [OF _ _ _ none]) (simp_all add: overwrite_def)
  have two: "http_send_chunk (ex_http mem_http) ?u (Some (content_range_header 2 2 3)) [3] (?v\<lparr>w_sent := w_sent ?v + 1\<rparr>) = (Some (Inr ()), ?v')"
    by (subst ex_chunk [where ob = "[1, 2]"]) (simp_all add: overwrite_def obj_store)
  have get: "http_bare (ex_http mem_http) GetV ?u ?v' = (Some (Inr (reply 200 [1, 2, 3])), ?v')"
    by (subst ex_get) (simp_all add: obj_store)
  have v: "w_fate ?v = []" "w_files ?v [''in'', ''a.csv''] = Some [1, 2, 3]" using w by (simp_all add: store)
  show ?thesis
    using ex_two_chunks [OF w one v two get] w by (intro exI [of _ ?v']) (simp add: store)
qed

text \<open>
  C12. A file rewritten while it is sent over HTTP can be reported as delivered and verified although
  the object is neither its old nor its new content: the first chunk is read before, the second
  after the rewrite, the expected digest is that of the bytes as they were read, and nothing
  compares the source's size or modification time with those at the start.
\<close>

theorem http_torn_object_verifies:
  "\<exists>d w'. deliver_and_verify (http_destination sum_digests (ex_http rewriting_http)) ex_item None (\<lambda>_. ret ()) VChecksum (ex_tracked [])
     = (Some (Inr d), w')
   \<and> w_files (ex_tracked []) [''in'', ''a.csv''] = Some [1, 2, 3] \<and> w_files w' [''in'', ''a.csv''] = Some [5, 6, 7]
   \<and> w_remote w' ''http'' ''http://h/d/a.csv'' = Some [1, 2, 7]"
proof -
  let ?u = "''http://h/d/a.csv''" and ?w = "ex_tracked []" and ?C = rewriting_http
  let ?s = "mem_store ''http'' ?u [1, 2] (?w\<lparr>w_sent := 2\<rparr>)"
  let ?v = "?s\<lparr>w_files := (w_files ?s)([''in'', ''a.csv''] \<mapsto> [5, 6, 7]), w_mtime := (w_mtime ?s)([''in'', ''a.csv''] := 1)\<rparr>"
  let ?v' = "mem_store ''http'' ?u [1, 2, 7] (?v\<lparr>w_sent := w_sent ?v + 1\<rparr>)"
  have hdr: "content_range_header 0 1 3 \<noteq> content_range_header 2 2 3"
    using range_headers(1) [of 1 3] range_headers(2) [of 2 3] by auto
  have w: "w_fate ?w = []" "w_files ?w [''in'', ''a.csv''] = Some [1, 2, 3]" "w_mtime ?w [''in'', ''a.csv''] = 0"
    by (simp_all add: ex_tracked_db)
  have none: "obj ''http'' ?u (?w\<lparr>w_sent := 2\<rparr>) = []" by (simp add: obj_def ex_tracked_def ex_world_def unwrap_or_def)
  have send: "http_send_chunk (ex_http ?C) u (Some r) b x = (case http_send_chunk (ex_http mem_http) u (Some r) b x of (a, w') \<Rightarrow>
      if r = content_range_header 0 1 3
      then (a, w'\<lparr>w_files := (w_files w')([''in'', ''a.csv''] \<mapsto> [5, 6, 7]), w_mtime := (w_mtime w')([''in'', ''a.csv''] := 1)\<rparr>)
      else (a, w'))" for u r b x
    by (simp add: http_send_chunk_def try_act_def http_answer_def bnd_def ret_def rewriting_http_def ok_def err_def
        split: prod.splits option.splits sum.splits)
  have one: "http_send_chunk (ex_http ?C) ?u (Some (content_range_header 0 1 3)) [1, 2] (?w\<lparr>w_sent := 2\<rparr>) = (Some (Inr ()), ?v)"
    unfolding send by (subst ex_chunk [OF _ _ _ none]) (simp_all add: overwrite_def)
  have two: "http_send_chunk (ex_http ?C) ?u (Some (content_range_header 2 2 3)) [7] (?v\<lparr>w_sent := w_sent ?v + 1\<rparr>) = (Some (Inr ()), ?v')"
    unfolding send by (subst ex_chunk [where ob = "[1, 2]"]) (use hdr in \<open>simp_all add: overwrite_def obj_store obj_def mem_store_def unwrap_or_def\<close>)
  have get: "http_bare (ex_http ?C) GetV ?u ?v' = (Some (Inr (reply 200 [1, 2, 7])), ?v')"
    using ex_get [of "ex_http mem_http" ?u ?v'] by (simp add: http_bare_def http_answer_def bnd_def rewriting_http_def obj_store)
  have v: "w_fate ?v = []" "w_files ?v [''in'', ''a.csv''] = Some [5, 6, 7]" using w by (simp_all add: mem_store_def)
  show ?thesis
    using ex_two_chunks [OF w one v two get] w v by (intro exI [of _ ?v'] exI conjI) (simp_all add: mem_store_def)
qed


section \<open>Headers\<close>

text \<open>An endpoint that answers only requests with its header, a fixed API key.\<close>

definition keyed_http :: "string \<times> string \<Rightarrow> http_client \<Rightarrow> http_client" where
  "keyed_http kv C rq w = (if kv \<in> set (rq_headers rq) then C rq w else (Some (Inr (reply 401 [])), w))"

lemma bare_unauthorized:
  "hd_client H = keyed_http kv C \<Longrightarrow> http_bare H v url w = (Some (Inr (reply 401 [])), w)"
  by (simp add: http_bare_def http_answer_def bnd_def ret_def keyed_http_def)

text \<open>
  The configured headers go with the chunks only. An endpoint that asks for a fixed API-key
  header takes the whole file, but refuses the \<open>HEAD\<close> or \<open>GET\<close> of the verification, whose request
  carries no header, with a status the backend takes for permanent; so under size or checksum
  verification no file is ever replicated there, and the \<open>HEAD\<close> that reconciles a resume is
  answered in the same way, which the backend takes for an unknown length.
\<close>

theorem http_keyed_endpoint_never_verifies:
  assumes "kv \<in> set (hd_headers H)" "hd_client H = keyed_http kv C"
    and "verify_target (hd_urls H) H it dl = Inr url" "pol \<noteq> VNone"
  shows "http_send_chunk H url rng body w = http_send_chunk (H\<lparr>hd_client := C\<rparr>) url rng body w
    \<and> http_verify D H it dl pol w = (Some (Inl (Permanent ''http status 401'')), w)
    \<and> reconcile_remote_len H url w = (Some (Inr RUnknown), w)"
proof (intro conjI)
  show "http_send_chunk H url rng body w = http_send_chunk (H\<lparr>hd_client := C\<rparr>) url rng body w"
    using assms(1) by (simp add: http_send_chunk_def http_answer_def try_act_def bnd_def assms(2) keyed_http_def)
  have no: "need_success classify_http (reply 401 []) = Inl (Permanent ''http status 401'')"
    by (simp add: need_success_def reply_def is_success_def classify_http_def classify_status_def show_nat.simps digit_char_def)
      code_simp
  show "http_verify D H it dl pol w = (Some (Inl (Permanent ''http status 401'')), w)"
    using assms(4)
    by (simp add: http_verify_def try_act_def bnd_def ret_def assms(3) bare_unauthorized [OF assms(2)] no bind_res_def)
  show "reconcile_remote_len H url w = (Some (Inr RUnknown), w)"
    by (simp add: reconcile_remote_len_def try_act_def bnd_def bare_unauthorized [OF assms(2)] reply_def is_success_def ok_def ret_def)
qed

theorem http_keyed_endpoint_never_verifies_witness:
  "http_verify sum_digests ((ex_http (keyed_http (''x-api-key'', ''k'') mem_http))\<lparr>hd_headers := [(''x-api-key'', ''k'')]\<rparr>) ex_item
      \<lparr>dl_bytes = 3, dl_checksum = NoChecksum, dl_handle = http_handle ''http://h/d/a.csv'' AlgCrc32c\<rparr> VSize (ex_tracked [])
    = (Some (Inl (Permanent ''http status 401'')), ex_tracked [])"
  using http_keyed_endpoint_never_verifies [where kv = "(''x-api-key'', ''k'')" and C = mem_http and D = sum_digests
      and H = "(ex_http (keyed_http (''x-api-key'', ''k'') mem_http))\<lparr>hd_headers := [(''x-api-key'', ''k'')]\<rparr>" and it = ex_item
      and dl = "\<lparr>dl_bytes = 3, dl_checksum = NoChecksum, dl_handle = http_handle ''http://h/d/a.csv'' AlgCrc32c\<rparr>"
      and url = "''http://h/d/a.csv''" and pol = VSize and w = "ex_tracked []"]
  by (simp add: verify_target_def bind_res_def need_def first_some_def handle_url_def http_handle_def plain_urls_def)

end
