(* ===== verification/Gcs_Properties.thy ===== *)
theory Gcs_Properties
  imports Gcs_Delivery Http_Properties
begin

text \<open>
  The properties of the Cloud Storage destination: what a reported delivery means, and what it does not
  when the service keeps less of the last chunk than was sent. An in-memory service instantiates
  the laws.
\<close>

section \<open>An in-memory service\<close>

definition range_total :: "string \<Rightarrow> nat option" where
  "range_total v = Option.bind (str_split_once (CHR ''/'') v) (\<lambda>(r, n). parse_uint 64 n)"

lemma range_total_header: "range_total (content_range_header s e n) = Some (unat n)"
proof -
  have "CHR ''/'' \<notin> set (show_nat k)" for k by (rule digits_no_dash) (simp add: is_digit_def)
  then have "CHR ''/'' \<notin> set (''bytes '' @ show_nat (unat s) @ ''-'' @ show_nat (unat e))" by simp
  from split_once_app [OF this, of "show_nat (unat n)"]
  have "str_split_once (CHR ''/'') (content_range_header s e n)
      = Some (''bytes '' @ show_nat (unat s) @ ''-'' @ show_nat (unat e), show_nat (unat n))"
    by (simp add: content_range_header_def)
  moreover have "unat n < 2 ^ 64" using unsigned_less [of n, where 'a = nat] by simp
  ultimately show ?thesis by (simp add: range_total_def parse_uint_show_nat)
qed

definition fresh_uri :: "work_item \<Rightarrow> world \<Rightarrow> string" where
  "fresh_uri it w = (case Option.bind (ckpt ''gcs'' it w) gcs_from_resume of
     None \<Rightarrow> ''u'' | Some t \<Rightarrow> CHR ''u'' # gt_session_uri t)"

definition located :: "string \<Rightarrow> http_response" where
  "located u = \<lparr>rp_status = 200, rp_headers = (\<lambda>k. if k = ''location'' then Some u else None), rp_body = [], rp_cut = False\<rparr>"

text \<open>\<open>kp\<close>: how many bytes of a chunk the service stores.\<close>

definition mem_chunk :: "(nat \<Rightarrow> nat) \<Rightarrow> string \<Rightarrow> string \<Rightarrow> nat \<Rightarrow> nat \<Rightarrow> bytes \<Rightarrow> world \<Rightarrow> nat \<times> world" where
  "mem_chunk kp b uri s n body w =
     (case staged uri w of
        None \<Rightarrow> (404, w)
      | Some (ob, st) \<Rightarrow>
          let st' = (if s = length st then st @ take (kp (length body)) body else st) in
          if length st' = n then (200, mem_drop uri (mem_store b ob st' w))
          else (308, mem_part uri 0 (Some (ob, st')) w))"

definition mem_gcs :: "(nat \<Rightarrow> nat) \<Rightarrow> work_item \<Rightarrow> string \<Rightarrow> string \<Rightarrow> http_client" where
  "mem_gcs kp it b object rq w =
     (case rq_verb rq of
        PutV \<Rightarrow>
          (case Option.bind (map_of (rq_headers rq) ''content-range'') (\<lambda>v.
                Option.bind (range_start v) (\<lambda>s. map_option (Pair s) (range_total v))) of
             None \<Rightarrow> (Some (Inr (reply 400 [])), w)
           | Some (s, n) \<Rightarrow> (case mem_chunk kp b (rq_url rq) s n (rq_body rq) w of (st, w') \<Rightarrow> (Some (Inr (reply st [])), w')))
      | PostV \<Rightarrow>
          (if rq_headers rq \<noteq> []
           then (Some (Inr (located (fresh_uri it w))), mem_part (fresh_uri it w) 0 (Some (object, [])) w)
           else (Some (Inr (reply 200 [])), mem_store b object (rq_body rq) w))
      | _ \<Rightarrow> (Some (Inr (reply 404 [])), w))"

lemma staged_mem [simp]:
  "staged u (mem_store b k x w) = staged u w" "staged u (mem_drop v w) = (if u = v then None else staged u w)"
  "staged u (mem_part v 0 y w) = (if u = v then y else staged u w)"
  by (simp_all add: staged_def mem_store_def mem_drop_def mem_part_def)

lemma mem_ckpt [simp]:
  "ckpt l it (mem_store b k x w) = ckpt l it w" "ckpt l it (mem_drop v w) = ckpt l it w" "ckpt l it (mem_part v j y w) = ckpt l it w"
  "advances w (mem_store b k x w')  = advances w w'" "advances w (mem_drop v w') = advances w w'" "advances w (mem_part v j y w') = advances w w'"
  by (simp_all add: mem_store_def mem_drop_def mem_part_def advances_def)

lemma patched_append: "patched (length st) body st (st @ take k body)"
  by (auto simp: patched_def nth_append)

lemma mem_chunk_touch: "session_touch it uri s body w (snd (mem_chunk kp b uri s n body w))"
  by (auto simp: mem_chunk_def session_touch_def Let_def patched_append split: option.split if_splits)

lemma mem_gcs_service:
  assumes "gd_client G = mem_gcs kp it (gd_bucket G) object"
  shows "gcs_service it object G"
proof -
  have chunk: "chunk_law it b (mem_gcs kp it b object)" for b
    unfolding chunk_law_def
  proof (intro allI impI)
    fix rq :: http_request and s e n :: u64 and w :: world
    assume rq: "rq_verb rq = PutV" "rq_headers rq = [(''content-range'', content_range_header s e n)]"
    obtain st w' where run: "mem_chunk kp b (rq_url rq) (unat s) (unat n) (rq_body rq) w = (st, w')" by force
    have t: "session_touch it (rq_url rq) (unat s) (rq_body rq) w w'"
      using mem_chunk_touch [of it "rq_url rq" "unat s" "rq_body rq" w kp b "unat n"] run by simp
    have "st = 308 \<longrightarrow> staged (rq_url rq) w' \<noteq> None"
      "is_success st \<longrightarrow> (\<exists>ob x y. staged (rq_url rq) w = Some (ob, x) \<and> patched (unat s) (rq_body rq) x y
          \<and> length y = unat n \<and> w_remote w' b ob = Some y)"
      using run by (auto simp: mem_chunk_def Let_def is_success_def patched_append split: option.splits if_splits)
    then show "wp (mem_gcs kp it b object rq)
          (\<lambda>r w'. session_touch it (rq_url rq) (unat s) (rq_body rq) w w'
             \<and> (\<forall>p. r = Inr p \<longrightarrow> (rp_status p = 308 \<longrightarrow> staged (rq_url rq) w' \<noteq> None)
                  \<and> (is_success (rp_status p) \<longrightarrow> (\<exists>ob st x. staged (rq_url rq) w = Some (ob, st)
                       \<and> patched (unat s) (rq_body rq) st x \<and> length x = unat n \<and> w_remote w' b ob = Some x))))
          (\<lambda>w'. session_touch it (rq_url rq) (unat s) (rq_body rq) w w') w"
      using t rq run by (simp add: wp_def mem_gcs_def range_start_header range_total_header reply_def)
  qed
  have fresh: "gt_session_uri t \<noteq> fresh_uri it w" if "ckpt ''gcs'' it w = Some rs" "gcs_from_resume rs = Some t" for rs t w
    using that by (simp add: fresh_uri_def)
  have session: "session_law it object U (mem_gcs kp it b object)" for U b
    unfolding session_law_def
  proof (intro allI impI)
    fix rq :: http_request and base and w :: world
    assume rq: "rq_verb rq = PostV" "rq_headers rq \<noteq> []"
    have "new_session it (fresh_uri it w) w (mem_part (fresh_uri it w) 0 (Some (object, [])) w)"
      using fresh by (auto simp: new_session_def)
    then show "wp (mem_gcs kp it b object rq)
          (\<lambda>r w'. \<exists>new. new_session it new w w'
             \<and> (\<forall>p u. r = Inr p \<longrightarrow> is_success (rp_status p) \<longrightarrow> rp_headers p ''location'' = Some u \<longrightarrow>
                  u = new \<and> staged u w' = Some (object, [])))
          (\<lambda>w'. \<exists>new. new_session it new w w') w"
      using rq by (auto simp: wp_def mem_gcs_def located_def)
  qed
  have media: "media_law it b object U (mem_gcs kp it b object)" for U b
    unfolding media_law_def by (auto simp: wp_def mem_gcs_def session_touch_def)
  show ?thesis
    using chunk session media by (simp add: gcs_service_def assms)
qed

section \<open>A reported delivery\<close>


definition ex_gcs :: "http_client \<Rightarrow> gcs_dest" where
  "ex_gcs C =
     \<lparr>gd_bucket = ''b'', gd_prefix = ''p'', gd_endpoint = ''http://g'', gd_creds = Anonymous, gd_chunk_bytes = gcs_align,
      gd_algo = AlgCrc32c, gd_store = False, gd_client = C, gd_urls = plain_urls, gd_name_json = (\<lambda>s. List.map (\<lambda>c. of_char c) s),
      gd_meta = (\<lambda>_. None), gd_b64 = (\<lambda>_. None)\<rparr>"

lemma ex_gcs_simps [simp]:
  "gd_client (ex_gcs C) = C" "gd_algo (ex_gcs C) = AlgCrc32c" "gd_bucket (ex_gcs C) = ''b''" "gd_prefix (ex_gcs C) = ''p''"
  "gd_chunk_bytes (ex_gcs C) = gcs_align" "gd_store (ex_gcs C) = False" "gd_urls (ex_gcs C) = plain_urls"
  by (simp_all add: ex_gcs_def)

lemma ex_gcs_object: "gcs_object_path ''p'' (wi_relpath ex_item) = ''p/a.csv''"
  using ex_key by (simp add: gcs_object_path_def ex_s3_def)

lemma ex_gcs_persist: "gcs_persist (ex_gcs C) it object uri n m k = ret ()" "gcs_clear (ex_gcs C) it = ret ()"
  by (simp_all add: gcs_persist_def save_row_def gcs_clear_def clear_row_def)

lemma ex_gcs_base: "\<exists>base. upload_base_url (ex_gcs C) = Inr base"
  by (simp add: upload_base_url_def gcs_url_def need_def plain_urls_def)

lemma gcs_chunk_numerals: "chunk_bounds 0 gcs_align 3 = (0, 2)"
  by (simp add: chunk_bounds_def gcs_align_def)

text \<open>A delivery of the example in one chunk, of which the service keeps \<open>kp 3\<close> bytes.\<close>

lemma ex_gcs_deliver:
  assumes w: "w_fate w = []" "w_files w [''in'', ''a.csv''] = Some [x, y, z]" "w_mtime w [''in'', ''a.csv''] = 0"
    and chunk: "mem_chunk kp ''b'' (fresh_uri ex_item w) 0 3 [x, y, z]
      ((mem_part (fresh_uri ex_item w) 0 (Some (''p/a.csv'', [])) w)\<lparr>w_sent := 3\<rparr>) = (st, w')" "st = 308 \<or> is_success st"
  shows "gcs_deliver sum_digests (ex_gcs (mem_gcs kp ex_item ''b'' ''p/a.csv'')) ex_item None (\<lambda>_. ret ()) w
    = (Some (Inr (gcs_delivered sum_digests (ex_gcs (mem_gcs kp ex_item ''b'' ''p/a.csv'')) ''p/a.csv'' 3
         (hasher_update sum_digests (hasher_new sum_digests AlgCrc32c) [x, y, z]))), w')"
proof -
  let ?C = "mem_gcs kp ex_item ''b'' ''p/a.csv''" and ?u = "fresh_uri ex_item w"
  let ?w0 = "mem_part ?u 0 (Some (''p/a.csv'', [])) w" and ?p = "[''in'', ''a.csv'']"
  obtain base where base: "upload_base_url (ex_gcs ?C) = Inr base" using ex_gcs_base by blast
  have init: "init_session (ex_gcs ?C) ''p/a.csv'' w = (Some (Inr ?u), ?w0)"
    by (simp add: init_session_def base try_act_def bnd_def ret_def gcs_request_def mem_gcs_def located_def is_success_def ok_def)
  have rd: "read_source_range ?p 0 3 (report_total (\<lambda>_. ret ())) (?w0\<lparr>w_sent := 0\<rparr>) = (Some (Inr [x, y, z]), ?w0\<lparr>w_sent := 3\<rparr>)"
    using calm_read [of "?w0\<lparr>w_sent := 0\<rparr>" ?p "[x, y, z]" "[x, y, z]" 3 0] w by (simp add: mem_part_def)
  have send: "gcs_send_chunk (ex_gcs ?C) ?u (content_range_header 0 2 3) [x, y, z] (?w0\<lparr>w_sent := 3\<rparr>) = (Some (Inr ()), w')"
    using chunk
    by (simp add: gcs_send_chunk_def bnd_def ret_def mem_gcs_def range_start_header range_total_header reply_def)
  have loop: "chunk_loop (chunk_fuel 3) sum_digests SessionFatal ?p gcs_align 3 (\<lambda>_. ret ())
      (\<lambda>s e buf. gcs_send_chunk (ex_gcs ?C) ?u (content_range_header s e 3) buf) (gcs_persist (ex_gcs ?C) ex_item ''p/a.csv'' ?u 3 0)
      0 h (?w0\<lparr>w_sent := 0\<rparr>) = (Some (Inr (hasher_update sum_digests h [x, y, z])), w')" for h
    by (simp add: chunk_numerals(3) gcs_chunk_numerals try_with_def fatal_err_def bnd_def ret_def rd send seqn_def ex_gcs_persist)
  have session: "run_session sum_digests (ex_gcs ?C) ex_item ''p/a.csv'' 3 0 ?u 0 (\<lambda>_. ret ()) ?w0
      = (Some (Inr (gcs_delivered sum_digests (ex_gcs ?C) ''p/a.csv'' 3
           (hasher_update sum_digests (hasher_new sum_digests AlgCrc32c) [x, y, z]))), w')"
    by (simp add: run_session_def try_with_def fatal_err_def bnd_def ret_def hash_committed_def ok_def seqn_def ex_gcs_persist
        set_sent_def loop)
  show ?thesis
    using w
    by (simp add: gcs_deliver_def try_act_def map_err_def bnd_def ret_def ex_metadata Let_def ex_gcs_object gcs_reusable_def
        fresh_session_def init session ok_def)
qed


definition all_but_one :: "nat \<Rightarrow> nat" where
  "all_but_one n = n - 1"

text \<open>
  C14. A delivery to Cloud Storage can report success although the object does not exist. A service
  that keeps less of the last chunk than was sent answers 308 and says so in the \<open>Range\<close>
  header; the code compares it only for its log, counts the chunk as committed, clears the
  checkpoint, and so leaves an open session nobody will finish. Without verification the source is then
  released.
\<close>

theorem gcs_short_chunk_reported_delivered:
  "\<exists>d w' uri. deliver_and_verify (gcs_destination sum_digests (ex_gcs (mem_gcs all_but_one ex_item ''b'' ''p/a.csv''))) ex_item None
         (\<lambda>_. ret ()) VNone (ex_tracked []) = (Some (Inr d), w')
     \<and> dl_bytes d = 3 \<and> w_remote w' ''b'' ''p/a.csv'' = None \<and> staged uri w' = Some (''p/a.csv'', [1, 2])"
proof -
  let ?G = "ex_gcs (mem_gcs all_but_one ex_item ''b'' ''p/a.csv'')" and ?u = "fresh_uri ex_item (ex_tracked [])"
  let ?w = "mem_part ?u 0 (Some (''p/a.csv'', [1, 2])) ((mem_part ?u 0 (Some (''p/a.csv'', [])) (ex_tracked []))\<lparr>w_sent := 3\<rparr>)"
  have run: "gcs_deliver sum_digests ?G ex_item None (\<lambda>_. ret ()) (ex_tracked [])
    = (Some (Inr (gcs_delivered sum_digests ?G ''p/a.csv'' 3
         (hasher_update sum_digests (hasher_new sum_digests AlgCrc32c) [1, 2, 3]))), ?w)"
    by (rule ex_gcs_deliver [where st = 308])
      (simp_all add: all_but_one_def ex_tracked_db mem_chunk_def Let_def is_success_def)
  let ?d = "gcs_delivered sum_digests ?G ''p/a.csv'' 3 (hasher_update sum_digests (hasher_new sum_digests AlgCrc32c) [1, 2, 3])"
  have "deliver_and_verify (gcs_destination sum_digests ?G) ex_item None (\<lambda>_. ret ()) VNone (ex_tracked []) = (Some (Inr ?d), ?w)"
    by (simp add: deliver_and_verify_def gcs_destination_def try_act_def bnd_def run gcs_verify_def ok_def ret_def)
  moreover have "dl_bytes ?d = 3" by (simp add: gcs_delivered_def)
  moreover have "w_remote ?w ''b'' ''p/a.csv'' = None" by (simp add: mem_part_def ex_tracked_def ex_world_def)
  moreover have "staged ?u ?w = Some (''p/a.csv'', [1, 2])" by simp
  ultimately show ?thesis by blast
qed

end
