(* ===== verification/Azure_Properties.thy ===== *)
theory Azure_Properties
  imports Http_Properties
begin

text \<open>
  The properties of the Blob Storage destination: the names of its blocks, and what a failed commit can
  be taken for.
\<close>

section \<open>Block ids\<close>

lemma show_nat_length: "n < 10 ^ Suc k \<Longrightarrow> length (show_nat n) \<le> Suc k"
proof (induction k arbitrary: n)
  case 0
  then show ?case by (subst show_nat.simps) simp
next
  case (Suc k)
  then have "n div 10 < 10 ^ Suc k" by simp
  from Suc.IH [OF this] show ?case by (subst show_nat.simps) simp
qed

lemma digits_val_zeros: "digits_val (replicate k (CHR ''0'') @ s) = digits_val s"
proof (induction s rule: rev_induct)
  case Nil
  show ?case by (induction k) (simp_all add: digits_val_def digit_val_def)
next
  case (snoc c s)
  then show ?case using digits_val_snoc [of "replicate k (CHR ''0'') @ s" c] by (simp add: digits_val_snoc)
qed

lemma unat_u32: "unat (n :: u32) < 10 ^ Suc 9"
  using unsigned_less [of n, where 'a = nat] by simp


section \<open>A failed commit and an older blob\<close>

text \<open>A service that stages blocks, answers every commit with 503, and keeps its blobs.\<close>

definition busy_azure :: azure_api where
  "busy_azure =
     \<lparr>aa_put_blob = (\<lambda>b x. ret (Inl (Some 503))), aa_put_block = (\<lambda>b i x. ret (Inr ())),
      aa_put_block_list = (\<lambda>b ids. ret (Inl (Some 503))),
      aa_properties = (\<lambda>b w. (Some (case w_remote w ''azure'' b of None \<Rightarrow> Inl (Some 404) | Some x \<Rightarrow> Inr (of_nat (length x))), w)),
      aa_get = (\<lambda>b w. (Some ([unwrap_or (w_remote w ''azure'' b) []], None), w))\<rparr>"

definition ex_azure :: azure_dest where
  "ex_azure =
     \<lparr>zd_account = ''acc'', zd_container = ''c'', zd_prefix = ''p'', zd_endpoint_url = None, zd_creds = AccountKey ''k'',
      zd_blocks = block_resolve \<lparr>bc_threshold_bytes = Some 0, bc_block_size_bytes = None\<rparr>, zd_algo = AlgCrc32c, zd_store = False,
      zd_client = busy_azure\<rparr>"

lemma ex_azure_simps [simp]:
  "zd_client ex_azure = busy_azure" "zd_store ex_azure = False" "zd_algo ex_azure = AlgCrc32c" "zd_prefix ex_azure = ''p''"
  "zd_blocks ex_azure = block_resolve \<lparr>bc_threshold_bytes = Some 0, bc_block_size_bytes = None\<rparr>"
  by (simp_all add: ex_azure_def)

lemma ex_azure_plan: "azure_plan_upload 3 (zd_blocks ex_azure) = ABlocks 16777216 1"
  by (simp add: block_resolve_def azure_plan_upload_def word_clamp_def word_div_ceil_def azure_default_block_def
      azure_max_block_def azure_max_blocks_def mib_def Let_def unwrap_or_def)

definition ex_older_blob :: world where
  "ex_older_blob = mem_store ''azure'' ''p/a.csv'' [9, 9, 9] (ex_tracked [])"

text \<open>
  A commit that fails for a passing reason can be taken for a success. When \<open>Put Block List\<close> is
  answered with 503 and an older version of the file with the same length is at its path, the code concludes
  that an earlier commit went through, clears the checkpoint and reports the file as delivered; size
  verification passes, since it asks only for the length, and the source is released with only the
  older content in the container. The recovery is meant for a 400 about committed block ids.
\<close>

theorem azure_failed_commit_accepts_older_blob:
  "\<exists>d w'. deliver_and_verify (azure_destination sum_digests ex_azure) ex_item None (\<lambda>_. ret ()) VSize ex_older_blob = (Some (Inr d), w')
     \<and> w_files w' [''in'', ''a.csv''] = Some [1, 2, 3] \<and> w_remote w' ''azure'' ''p/a.csv'' = Some [9, 9, 9]
     \<and> dl_checksum d = digest sum_digests AlgCrc32c [1, 2, 3]"
proof -
  let ?p = "[''in'', ''a.csv'']" and ?w = "ex_older_blob\<lparr>w_sent := 3\<rparr>"
  have w: "w_fate ex_older_blob = []" "w_files ex_older_blob ?p = Some [1, 2, 3]" "w_mtime ex_older_blob ?p = 0"
    "w_remote ex_older_blob ''azure'' ''p/a.csv'' = Some [9, 9, 9]"
    by (simp_all add: ex_older_blob_def mem_store_def ex_tracked_db [unfolded ex_tracked_def] ex_tracked_def ex_world_def)
  have blob: "blob_path ''p'' (wi_relpath ex_item) = ''p/a.csv''"
    using ex_key by (simp add: blob_path_def ex_s3_def)
  have persist: "azure_persist ex_azure it b s n m k = ret ()" "azure_clear ex_azure it = ret ()" for it b s n m k
    by (simp_all add: azure_persist_def save_row_def azure_clear_def clear_row_def)
  have bounds: "chunk_bounds 0 16777216 3 = (0, 2)" by (simp add: chunk_bounds_def)
  have rd: "read_source_range ?p 0 3 (report_total (\<lambda>_. ret ())) (ex_older_blob\<lparr>w_sent := 0\<rparr>) = (Some (Inr [1, 2, 3]), ?w)"
    using calm_read [of "ex_older_blob\<lparr>w_sent := 0\<rparr>" ?p "[1, 2, 3]" "[1, 2, 3]" 3 0] w by simp
  have put: "aa_put_block busy_azure b i x v = (Some (Inr ()), v)" "aa_put_block_list busy_azure b ids v = (Some (Inl (Some 503)), v)"
    "aa_properties busy_azure b v = (Some (case w_remote v ''azure'' b of None \<Rightarrow> Inl (Some 404) | Some x \<Rightarrow> Inr (of_nat (length x))), v)"
    for b i x ids v by (simp_all add: busy_azure_def ret_def)
  let ?h = "hasher_update sum_digests (hasher_new sum_digests AlgCrc32c) [1, 2, 3]"
  have loop: "chunk_loop (chunk_fuel 3) sum_digests (\<lambda>e. e) ?p 16777216 3 (\<lambda>_. ret ())
      (\<lambda>s e buf. azure_call (aa_put_block busy_azure ''p/a.csv'' (block_id_bytes (ucast (s div 16777216) + 1)) buf))
      (azure_persist ex_azure ex_item ''p/a.csv'' 16777216 3 0) 0 (hasher_new sum_digests AlgCrc32c) (ex_older_blob\<lparr>w_sent := 0\<rparr>)
    = (Some (Inr ?h), ?w)"
    by (simp add: chunk_numerals(3) bounds try_with_def fatal_err_def bnd_def ret_def rd seqn_def persist azure_call_def put)
  let ?d = "\<lparr>dl_bytes = 3, dl_checksum = hasher_finish sum_digests ?h, dl_handle = azure_handle ''p/a.csv'' AlgCrc32c\<rparr>"
  have commit: "commit_blocks sum_digests ex_azure ex_item ''p/a.csv'' 3 1 ?h ?w = (Some (Inr ?d), ?w)"
    using w(4)
    by (simp add: commit_blocks_def bnd_def put blob_committed_at_size_def try_act_def ok_def ret_def azure_delivered_def
        seqn_def persist)
  have deliver: "azure_deliver sum_digests ex_azure ex_item None (\<lambda>_. ret ()) ex_older_blob = (Some (Inr ?d), ?w)"
    using w
    by (simp add: azure_deliver_def try_act_def map_err_def bnd_def ret_def ex_metadata Let_def blob ex_azure_plan [simplified]
        deliver_blocks_def azure_reusable_def hash_committed_def ok_def seqn_def persist set_sent_def loop commit)
  have "deliver_and_verify (azure_destination sum_digests ex_azure) ex_item None (\<lambda>_. ret ()) VSize ex_older_blob = (Some (Inr ?d), ?w)"
    using w(4)
    by (simp add: deliver_and_verify_def azure_destination_def try_act_def bnd_def deliver azure_verify_def azure_handle_def
        handle_blob_path_def azure_call_def put ret_def verify_size_def ok_def unwrap_or_def)
  moreover have "dl_checksum ?d = digest sum_digests AlgCrc32c [1, 2, 3]" by (simp add: digest_def)
  moreover have "w_files ?w ?p = Some [1, 2, 3]" "w_remote ?w ''azure'' ''p/a.csv'' = Some [9, 9, 9]" using w by simp_all
  ultimately show ?thesis by blast
qed

end
