(* ===== verification/Sftp_Properties.thy ===== *)
theory Sftp_Properties
  imports Remote_Laws S3_Properties
begin

text \<open>
  The properties of the SFTP destination's session and of its publishing rename.
\<close>

section \<open>The host key\<close>

text \<open>The library opens a connection only when the callback has accepted the key the server presented.\<close>

definition honest_handshake :: "(nat \<Rightarrow> string) \<Rightarrow> sftp_api \<Rightarrow> bool" where
  "honest_handshake presented A =
     (\<forall>h p check w c w'. sf_handshake A h p check w = (Some (Inr c), w') \<longrightarrow> check (presented c))"

definition pinned_fields :: "sftp_dest \<Rightarrow> (string \<times> string) option" where
  "pinned_fields F = Option.bind (fd_host_key F) (\<lambda>k. key_fields (str_trim k))"

lemma check_server_key_iff:
  "check_server_key F k \<longleftrightarrow>
     (case fd_host_key F of None \<Rightarrow> fd_insecure F
      | Some p \<Rightarrow> pinned_fields F \<noteq> None \<and> key_fields (str_trim k) = pinned_fields F)"
  by (auto simp: check_server_key_def check_host_key_def host_key_matches_def pinned_fields_def split: option.splits)

lemma sftp_connect_after_handshake:
  assumes h: "honest_handshake presented A"
    and same: "\<And>c. check_server_key F (presented c) \<Longrightarrow> f c = g c"
  shows "try_act (via_ssh (sf_handshake A host port (check_server_key F))) f
       = try_act (via_ssh (sf_handshake A host port (check_server_key F))) g"
proof (rule ext)
  fix w
  show "try_act (via_ssh (sf_handshake A host port (check_server_key F))) f w
      = try_act (via_ssh (sf_handshake A host port (check_server_key F))) g w"
    using h [unfolded honest_handshake_def, rule_format, of host port "check_server_key F" w] same
    by (auto simp: try_act_def via_ssh_def bnd_def ret_def split: prod.splits option.splits sum.splits)
qed

text \<open>
  C15. The SFTP credentials reach only a server whose key was checked. Take two servers that differ only
  in what they do with a login, a subsystem request or a session start on connections whose key has
  not the algorithm and the base64 text of the pinned one (or, when none is pinned, on every connection):
  unless the configuration opts in to any host key, connecting to either is the same, so none of
  these steps was ever taken there.
\<close>

theorem sftp_credentials_stay_with_pinned_host:
  assumes "honest_handshake presented (fd_api F)" "\<not> (fd_insecure F \<and> fd_host_key F = None)"
    and "sf_handshake B = sf_handshake (fd_api F)" "sf_load_key B = sf_load_key (fd_api F)"
    and "\<And>c. pinned_fields F \<noteq> None \<Longrightarrow> key_fields (str_trim (presented c)) = pinned_fields F \<Longrightarrow>
      sf_login B c = sf_login (fd_api F) c \<and> sf_subsystem B c = sf_subsystem (fd_api F) c \<and> sf_start B c = sf_start (fd_api F) c"
  shows "sftp_connect (F\<lparr>fd_api := B\<rparr>) = sftp_connect F"
proof -
  have check: "check_server_key (F\<lparr>fd_api := B\<rparr>) = check_server_key F"
    by (rule ext) (simp add: check_server_key_def)
  have login: "sftp_login_of (F\<lparr>fd_api := B\<rparr>) = sftp_login_of F"
    using assms(4) by (cases "fd_auth F") (simp_all add: sftp_login_of_def load_private_key_def)
  have same: "sf_login B c = sf_login (fd_api F) c \<and> sf_subsystem B c = sf_subsystem (fd_api F) c \<and> sf_start B c = sf_start (fd_api F) c"
    if "check_server_key F (presented c)" for c
    by (rule assms(5)) (use that assms(2) in \<open>auto simp: check_server_key_iff split: option.splits\<close>)
  have sel: "fd_api (F\<lparr>fd_api := B\<rparr>) = B" "fd_host (F\<lparr>fd_api := B\<rparr>) = fd_host F" "fd_port (F\<lparr>fd_api := B\<rparr>) = fd_port F"
    by simp_all
  show ?thesis
    unfolding sftp_connect_def check login sel assms(3)
    by (rule sftp_connect_after_handshake [OF assms(1)]) (simp only: same)
qed

section \<open>The session\<close>

text \<open>
  C16. A dead session is not used again. An operation on a cached session that fails with a retriable
  error drops that session, so the next operation connects afresh; after a success or a permanent
  error the session stays. A session another task has cached meanwhile is never dropped.
\<close>

theorem sftp_session_after:
  assumes "w_session w = Some c" "f c w = (Some r, v)"
  shows "\<exists>w'. with_session F f w = (Some r, w')
    \<and> w_session w' = (if (\<exists>e. r = Inl e \<and> is_transient e) \<and> w_session v = Some c then None else w_session v)
    \<and> (w_session w' = None \<longrightarrow> sftp_conn F w' = try_act (sftp_connect F) (\<lambda>c. seqn (set_session (Some c)) (ok c)) w')"
  using assms
  by (auto simp: with_session_def sftp_conn_def try_act_def bnd_def get_world_def ok_def ret_def seqn_def
      invalidate_on_transient_def reset_conn_def set_session_def split: sum.split)

theorem sftp_session_after_witness:
  "\<forall>F. \<exists>w'. with_session F (\<lambda>c. err (Transient ''x'')) ((ex_tracked [])\<lparr>w_session := Some 7\<rparr>) = (Some (Inl (Transient ''x'')), w')
     \<and> w_session w' = None"
proof
  fix F :: sftp_dest
  show "\<exists>w'. with_session F (\<lambda>c. err (Transient ''x'')) ((ex_tracked [])\<lparr>w_session := Some 7\<rparr>) = (Some (Inl (Transient ''x'')), w')
     \<and> w_session w' = None"
    using sftp_session_after [of "(ex_tracked [])\<lparr>w_session := Some 7\<rparr>" 7 "\<lambda>c. err (Transient ''x'')" "Inl (Transient ''x'')"
        "(ex_tracked [])\<lparr>w_session := Some 7\<rparr>" F]
    by (auto simp: err_def ret_def)
qed

text \<open>A server that presents the right key, one that does not, and a pinned key.\<close>

definition ex_sftp_api :: "sftp_api" where
  "ex_sftp_api =
     \<lparr>sf_handshake = (\<lambda>h p check. ret (if check ''ssh-ed25519 GOOD host'' then Inr 1 else Inl ShUnknownKey)),
      sf_load_key = (\<lambda>_ _. Inl ''no key''), sf_login = (\<lambda>c l. ret (Inr True)), sf_subsystem = (\<lambda>c. ret (Inr ())),
      sf_start = (\<lambda>c. ret (Inr ())), sf_mkdir = (\<lambda>c p. ret (Inr ())), sf_size = (\<lambda>c p. ret (Inr None)),
      sf_open = (\<lambda>c p b. ret (Inr ())), sf_write = (\<lambda>c p n x. ret (Inr ())), sf_flush = (\<lambda>c p. ret (Inr ())),
      sf_sync = (\<lambda>c p. ret (Inr ())), sf_close = (\<lambda>c p. ret (Inr ())), sf_rename = (\<lambda>c p q. ret (Inr ())),
      sf_remove = (\<lambda>c p. ret (Inr ())), sf_read = (\<lambda>c p. ret (Inr ([], None)))\<rparr>"

definition ex_sftp :: "string \<Rightarrow> sftp_dest" where
  "ex_sftp key =
     \<lparr>fd_host = ''h'', fd_port = 22, fd_base_dir = ''/d'', fd_auth = SftpPassword ''u'' ''pw'', fd_host_key = Some key,
      fd_insecure = False, fd_temp_suffix = ''.part'', fd_fsync = False, fd_algo = AlgCrc32c, fd_store = True,
      fd_api = ex_sftp_api\<rparr>"

section \<open>Publishing\<close>

text \<open>
  A server whose rename refuses an existing target. A fault of a rename is a lost answer: the
  server has renamed, the client sees a timeout.
\<close>

definition mem_rename :: "string \<Rightarrow> string \<Rightarrow> string \<Rightarrow> world \<Rightarrow> (sftp_error + unit) \<times> world" where
  "mem_rename h p q w =
     (if w_remote w h p = None then (Inl (SfStatus StNoSuchFile), w)
      else if w_remote w h q \<noteq> None then (Inl (SfStatus StFailure), w)
      else (Inr (), w\<lparr>w_remote := (w_remote w)(h := (w_remote w h)(q := w_remote w h p, p := None))\<rparr>))"

definition renaming_server :: "string \<Rightarrow> sftp_api \<Rightarrow> sftp_api" where
  "renaming_server h A =
     A\<lparr>sf_rename := (\<lambda>c p q. effect (mem_rename h p q) (\<lambda>e n w. case mem_rename h p q w of (_, w') \<Rightarrow> (Inl SfTimeout, w'))),
       sf_remove := (\<lambda>c p. effect (\<lambda>w. (Inr (), w\<lparr>w_remote := (w_remote w)(h := (w_remote w h)(p := None))\<rparr>))
                                  (\<lambda>e n w. (Inl SfTimeout, w)))\<rparr>"

text \<open>
  The publishing rename is not safe against a lost answer. A first delivery whose rename the
  server has carried out, but whose answer times out, removes the file it has just put at its place, and
  then renames a temporary file that is gone: the object is at neither path, and the error is a
  permanent one, so the item is given up although a retry would have delivered it. When no answer
  gets lost, the content is at its path afterwards, whatever was there before.
\<close>

theorem sftp_publish_lost_answer:
  assumes "w_remote w h temp = Some c" "temp \<noteq> remote" "w_fate w = []"
  shows "(\<exists>w'. sftp_publish (renaming_server h A) k temp remote w = (Some (Inr ()), w')
       \<and> w_remote w' h remote = Some c \<and> w_remote w' h temp = None)
    \<and> (w_remote w h remote = None \<longrightarrow>
       (\<exists>w'. sftp_publish (renaming_server h A) k temp remote (w\<lparr>w_fate := [Fault e n]\<rparr>)
            = (Some (Inl (Permanent ''sftp error: no_such_file'')), w')
          \<and> w_remote w' h remote = None \<and> w_remote w' h temp = None))"
proof (intro conjI impI)
  show "\<exists>w'. sftp_publish (renaming_server h A) k temp remote w = (Some (Inr ()), w')
       \<and> w_remote w' h remote = Some c \<and> w_remote w' h temp = None"
    using assms
    by (simp add: sftp_publish_def renaming_server_def bnd_def seqn_def via_sftp_def effect_def next_fate_def mem_rename_def
        ret_def ok_def split_beta)
next
  have code: "map_sftp (SfStatus StNoSuchFile) = Permanent ''sftp error: no_such_file''" by code_simp
  assume "w_remote w h remote = None"
  then show "\<exists>w'. sftp_publish (renaming_server h A) k temp remote (w\<lparr>w_fate := [Fault e n]\<rparr>)
            = (Some (Inl (Permanent ''sftp error: no_such_file'')), w')
          \<and> w_remote w' h remote = None \<and> w_remote w' h temp = None"
    using assms code
    by (simp add: sftp_publish_def renaming_server_def bnd_def seqn_def via_sftp_def effect_def next_fate_def mem_rename_def
        ret_def ok_def split_beta)
qed

theorem sftp_publish_lost_answer_witness:
  "\<exists>w'. sftp_publish (renaming_server ''h'' ex_sftp_api) 0 ''d/.a.part'' ''d/a''
         ((mem_store ''h'' ''d/.a.part'' [1, 2, 3] (ex_tracked []))\<lparr>w_fate := [Fault enoent 0]\<rparr>)
       = (Some (Inl (Permanent ''sftp error: no_such_file'')), w') \<and> w_remote w' ''h'' ''d/a'' = None"
proof -
  have "w_remote (mem_store ''h'' ''d/.a.part'' [1, 2, 3] (ex_tracked [])) ''h'' ''d/a'' = None"
    by (simp add: mem_store_def ex_tracked_def ex_world_def)
  moreover have "w_fate (mem_store ''h'' ''d/.a.part'' [1, 2, 3] (ex_tracked [])) = []" by (simp add: mem_store_def)
  ultimately show ?thesis
    using sftp_publish_lost_answer [of "mem_store ''h'' ''d/.a.part'' [1, 2, 3] (ex_tracked [])" "''h''" "''d/.a.part''" "[1, 2, 3]"
        "''d/a''" ex_sftp_api 0 enoent 0] by auto
qed

theorem sftp_credentials_stay_with_pinned_host_witness:
  "sftp_connect ((ex_sftp ''ssh-ed25519 OTHER'')\<lparr>fd_api := ex_sftp_api\<lparr>sf_login := (\<lambda>c l w. (None, w))\<rparr>\<rparr>)
     = sftp_connect (ex_sftp ''ssh-ed25519 OTHER'')"
proof (rule sftp_credentials_stay_with_pinned_host [where presented = "\<lambda>_. ''ssh-ed25519 GOOD host''"])
  show "honest_handshake (\<lambda>_. ''ssh-ed25519 GOOD host'') (fd_api (ex_sftp ''ssh-ed25519 OTHER''))"
    by (simp add: honest_handshake_def ex_sftp_def ex_sftp_api_def ret_def)
  have ne: "key_fields (str_trim ''ssh-ed25519 GOOD host'') \<noteq> pinned_fields (ex_sftp ''ssh-ed25519 OTHER'')"
    unfolding pinned_fields_def ex_sftp_def by (simp del: not_None_eq) code_simp
  show "sf_login (ex_sftp_api\<lparr>sf_login := (\<lambda>c l w. (None, w))\<rparr>) c = sf_login (fd_api (ex_sftp ''ssh-ed25519 OTHER'')) c
      \<and> sf_subsystem (ex_sftp_api\<lparr>sf_login := (\<lambda>c l w. (None, w))\<rparr>) c = sf_subsystem (fd_api (ex_sftp ''ssh-ed25519 OTHER'')) c
      \<and> sf_start (ex_sftp_api\<lparr>sf_login := (\<lambda>c l w. (None, w))\<rparr>) c = sf_start (fd_api (ex_sftp ''ssh-ed25519 OTHER'')) c"
    if "key_fields (str_trim ''ssh-ed25519 GOOD host'') = pinned_fields (ex_sftp ''ssh-ed25519 OTHER'')" for c
    using that ne by simp
qed (simp_all add: ex_sftp_def)

end
