(* ===== verification/Checkpoints.thy ===== *)
theory Checkpoints
  imports Gcs_Delivery S3_Delivery Azure_Dest Ftps_Dest
begin

text \<open>
  The resume checkpoint of every remote destination, from the token a transfer writes through the
  row of the store to the token a later attempt takes up.
\<close>

lemma azure_round_trip: "in_i64 (at_mtime_ms t) \<Longrightarrow> azure_from_resume (azure_to_resume t) = Some t"
  by (simp add: azure_from_resume_def azure_to_resume_def azure_token_from_json_def azure_token_to_json_def or_default_def)

lemmas taken_up = offset_reusable_def offset_matches_def gcs_reusable_def gcs_matches_def azure_reusable_def
  azure_matches_def reusable_token_def token_matches_def

text \<open>
  C19. What a transfer saved, a later attempt reads back from the store unchanged, and takes it up
  exactly when it is about the same target, with the same size and modification time of the source
  (for S3 and Azure also the same part or block size); the three backends that checkpoint an offset,
  the session of GCS, the blocks of Azure and the parts of S3 alike. The modification time must be
  an \<open>i64\<close>, which the code's type guarantees.
\<close>

theorem checkpoint_taken_up_exactly:
  assumes "in_i64 m" "(label, field) \<in> {(''http'', ''url''), (''sftp'', ''tempPath''), (''ftps'', ''tempPath'')}"
  shows "offset_reusable label field (load_resume inst rel label (save_resume inst rel label
            (offset_to_resume label field \<lparr>ot_target = x, ot_size = s, ot_mtime_ms = m, ot_committed = n\<rparr>) db)) x' s' m'
           = (if (x', s', m') = (x, s, m) then Some \<lparr>ot_target = x, ot_size = s, ot_mtime_ms = m, ot_committed = n\<rparr> else None)
      \<and> gcs_reusable G (load_resume inst rel ''gcs'' (save_resume inst rel ''gcs'' (gcs_to_resume
            \<lparr>gt_bucket = b, gt_object = x, gt_session_uri = u, gt_size = s, gt_mtime_ms = m, gt_committed = n\<rparr>) db)) x' s' m'
           = (if (gd_bucket G, x', s', m') = (b, x, s, m)
              then Some \<lparr>gt_bucket = b, gt_object = x, gt_session_uri = u, gt_size = s, gt_mtime_ms = m, gt_committed = n\<rparr> else None)
      \<and> azure_reusable (load_resume inst rel ''azure'' (save_resume inst rel ''azure'' (azure_to_resume
            \<lparr>at_blob = x, at_block_size = k, at_size = s, at_mtime_ms = m, at_committed = n\<rparr>) db)) x' k' s' m'
           = (if (x', k', s', m') = (x, k, s, m)
              then Some \<lparr>at_blob = x, at_block_size = k, at_size = s, at_mtime_ms = m, at_committed = n\<rparr> else None)
      \<and> reusable_token (load_resume inst rel ''s3'' (save_resume inst rel ''s3'' (token_to_resume
            \<lparr>tk_upload_id = u, tk_key = x, tk_part_size = k, tk_total_size = s, tk_mtime_ms = m, tk_completed = ps\<rparr> np tot) db)) x' k' s' m'
           = (if (x', k', s', m') = (x, k, s, m)
              then Some \<lparr>tk_upload_id = u, tk_key = x, tk_part_size = k, tk_total_size = s, tk_mtime_ms = m, tk_completed = ps\<rparr> else None)"
proof -
  have field: "field \<notin> {''size'', ''mtimeMs'', ''bytesCommitted''}" using assms(2) by auto
  show ?thesis
    using assms(1) field by (auto simp: taken_up load_save_resume offset_round_trip gcs_round_trip azure_round_trip token_round_trip)
qed

theorem checkpoint_taken_up_exactly_witness:
  "offset_reusable ''sftp'' ''tempPath'' (load_resume ''i'' ''a'' ''sftp'' (save_resume ''i'' ''a'' ''sftp''
     (offset_to_resume ''sftp'' ''tempPath'' \<lparr>ot_target = ''.a.part'', ot_size = 9, ot_mtime_ms = 7, ot_committed = 4\<rparr>) open_in_memory))
     ''.a.part'' 9 7 = Some \<lparr>ot_target = ''.a.part'', ot_size = 9, ot_mtime_ms = 7, ot_committed = 4\<rparr>
   \<and> offset_reusable ''sftp'' ''tempPath'' (load_resume ''i'' ''a'' ''sftp'' (save_resume ''i'' ''a'' ''sftp''
     (offset_to_resume ''sftp'' ''tempPath'' \<lparr>ot_target = ''.a.part'', ot_size = 9, ot_mtime_ms = 7, ot_committed = 4\<rparr>) open_in_memory))
     ''.a.part'' 9 8 = None"
  using checkpoint_taken_up_exactly [of 7 "''sftp''" "''tempPath''" "''i''" "''a''" "''.a.part''" 9 4 open_in_memory "''.a.part''" 9 7]
    checkpoint_taken_up_exactly [of 7 "''sftp''" "''tempPath''" "''i''" "''a''" "''.a.part''" 9 4 open_in_memory "''.a.part''" 9 8]
  by (simp add: in_i64_def)

end
