(* ===== verification/Factory.thy ===== *)
theory Factory
  imports Remote_Laws Worker_Properties
begin

text \<open>
  The destination factory (\<open>src/dest/mod.rs\<close>) and its use in \<open>Instance::build\<close>: from the egress
  entries of an instance to the list of its destinations. The cargo features of the build, the
  clients of the backends and the two views of the credential service are arguments.
\<close>

section \<open>The factory\<close>

record local_egress =
  le_path :: path
  le_fsync :: bool

datatype egress_cfg =
    EgLocal local_egress | EgS3 s3_egress | EgSftp sftp_egress | EgFtps ftps_egress | EgHttp http_egress
  | EgAzure azure_egress | EgGcs gcs_egress

record dest_features =
  feat_s3 :: bool
  feat_sftp :: bool
  feat_ftps :: bool
  feat_http :: bool
  feat_azure :: bool
  feat_gcs :: bool

record dest_deps =
  dd_vault :: "vault option"
  dd_credentials :: "secret_store option"
  dd_store :: bool

record dest_clients =
  dc_s3 :: s3_api
  dc_order :: "u32 list \<Rightarrow> u32 list"
  dc_sftp :: sftp_api
  dc_ftps :: ftps_api
  dc_http :: http_client
  dc_urls :: url_api
  dc_azure :: azure_api
  dc_gcs :: http_client
  dc_name_json :: "string \<Rightarrow> bytes"
  dc_meta :: "bytes \<Rightarrow> (string \<times> string option) option"
  dc_b64 :: "string \<Rightarrow> bytes option"

definition egress_kind :: "egress_cfg \<Rightarrow> string" where
  "egress_kind cfg =
     (case cfg of
        EgLocal _ \<Rightarrow> ''local'' | EgS3 _ \<Rightarrow> ''s3'' | EgSftp _ \<Rightarrow> ''sftp'' | EgFtps _ \<Rightarrow> ''ftps'' | EgHttp _ \<Rightarrow> ''http''
      | EgAzure _ \<Rightarrow> ''azure'' | EgGcs _ \<Rightarrow> ''gcs'')"

text \<open>The arm of a backend that is not compiled in.\<close>

definition gated :: "bool \<Rightarrow> string \<Rightarrow> 'a res \<Rightarrow> 'a res" where
  "gated on kind r =
     (if on then r
      else Inl (Permanent (kind @ '' destination is not available in this build (enable feature dest-'' @ kind @ '')'')))"

definition build_destination ::
  "'h digests \<Rightarrow> (work_item \<Rightarrow> u64) \<Rightarrow> nat option \<Rightarrow> dest_features \<Rightarrow> dest_clients \<Rightarrow> dest_deps \<Rightarrow> egress_cfg \<Rightarrow> destination res" where
  "build_destination D tag cancel ft C deps cfg =
     (case cfg of
        EgLocal e \<Rightarrow> Inr (local_destination D tag (local_new (le_path e) (le_fsync e) AlgCrc32c))
      | EgS3 e \<Rightarrow> gated (feat_s3 ft) ''s3''
          (map_res s3_destination (s3_build e (dd_vault deps) (dd_store deps) (dc_s3 C) (dc_order C)))
      | EgSftp e \<Rightarrow> gated (feat_sftp ft) ''sftp''
          (map_res (sftp_destination D) (sftp_build e (dd_credentials deps) (dd_store deps) (dc_sftp C)))
      | EgFtps e \<Rightarrow> gated (feat_ftps ft) ''ftps''
          (map_res (ftps_destination cancel D) (ftps_build e (dd_credentials deps) (dd_store deps) (dc_ftps C)))
      | EgHttp e \<Rightarrow> gated (feat_http ft) ''http''
          (map_res (http_destination D) (http_build e (dd_credentials deps) (dd_store deps) (dc_http C) (dc_urls C)))
      | EgAzure e \<Rightarrow> gated (feat_azure ft) ''azure''
          (map_res (azure_destination D) (azure_build e (dd_credentials deps) (dd_store deps) (dc_azure C)))
      | EgGcs e \<Rightarrow> gated (feat_gcs ft) ''gcs''
          (map_res (gcs_destination D) (gcs_build e (dd_credentials deps) (dd_store deps) (dc_gcs C) (dc_urls C)
             (dc_name_json C) (dc_meta C) (dc_b64 C))))"

text \<open>The destinations of an instance: the first entry that cannot be built fails it.\<close>

definition instance_destinations ::
  "'h digests \<Rightarrow> (work_item \<Rightarrow> u64) \<Rightarrow> nat option \<Rightarrow> dest_features \<Rightarrow> dest_clients \<Rightarrow> dest_deps \<Rightarrow> egress_cfg list
   \<Rightarrow> destination list res" where
  "instance_destinations D tag cancel ft C deps egress =
     (if egress = [] then Inl (Permanent ''at least one egress destination is required'')
      else collect_res (List.map (build_destination D tag cancel ft C (deps\<lparr>dd_store := True\<rparr>)) egress))"

section \<open>What is built\<close>

lemma bind_ok: "bind_res m f = Inr y \<longleftrightarrow> (\<exists>x. m = Inr x \<and> f x = Inr y)"
  by (cases m) auto

lemma map_res_ok: "map_res f r = Inr y \<longleftrightarrow> (\<exists>x. r = Inr x \<and> y = f x)"
  by (cases r) auto

lemma collect_res_ok: "collect_res rs = Inr ys \<longleftrightarrow> rs = List.map Inr ys"
proof (induction rs arbitrary: ys)
  case (Cons r rs)
  have "(\<exists>xs. rs = List.map Inr xs \<and> ys = x # xs) \<longleftrightarrow> Inr x # rs = List.map Inr ys" for x
    by (cases ys) auto
  then show ?case by (cases r) (auto simp: map_res_ok Cons.IH)
qed auto

lemma gated_ok: "gated b k r = Inr y \<longleftrightarrow> b \<and> r = Inr y"
  by (simp add: gated_def)

lemma built_client:
  "s3_build e1 v st c1 ord = Inr S \<Longrightarrow> sd_client S = c1"
  "sftp_build e2 cr st c2 = Inr F \<Longrightarrow> fd_api F = c2"
  "ftps_build e3 cr st c3 = Inr P \<Longrightarrow> pd_api P = c3"
  "http_build e4 cr st c4 U = Inr H \<Longrightarrow> hd_client H = c4"
  "azure_build e5 cr st c5 = Inr Z \<Longrightarrow> zd_client Z = c5"
  by (auto simp: s3_build_def sftp_build_def ftps_build_def http_build_def azure_build_def bind_ok split: sum.splits if_splits)

lemma built_gcs_client: "gcs_build e cr st c U nj me b = Inr G \<Longrightarrow> gd_client G = c"
  by (cases "ua_parse U (unwrap_or (ge_endpoint_url e) gcs_default_endpoint)") (auto simp: gcs_build_def bind_ok Let_def)

lemma built_kind: "build_destination D tag cancel ft C deps cfg = Inr d \<Longrightarrow> d_kind d = egress_kind cfg"
  by (auto simp: build_destination_def egress_kind_def gated_ok map_res_ok local_destination_def s3_destination_def
      sftp_destination_def ftps_destination_def http_destination_def azure_destination_def gcs_destination_def
      split: egress_cfg.splits)

definition calm_clients :: "path set \<Rightarrow> dest_clients \<Rightarrow> bool" where
  "calm_clients K C =
     (s3_calm K (dc_s3 C) \<and> calm_sftp K (dc_sftp C) \<and> calm_ftps K (dc_ftps C) \<and> calm_client K (dc_http C)
      \<and> calm_azure K (dc_azure C) \<and> calm_client K (dc_gcs C))"

definition out_paths :: "egress_cfg list \<Rightarrow> bool" where
  "out_paths egress = (\<forall>e. EgLocal e \<in> set egress \<longrightarrow> (\<exists>p. le_path e = ''out'' # p))"

lemma built_well_behaved:
  assumes b: "build_destination D tag cancel ft C deps cfg = Inr d" and calm: "calm_clients {''in'' # src} C"
    and out: "\<And>e. cfg = EgLocal e \<Longrightarrow> \<exists>p. le_path e = ''out'' # p"
  shows "well_behaved {''in'' # src} it d"
proof (cases cfg)
  case (EgLocal e)
  then obtain p where p: "le_path e = ''out'' # p" using out by blast
  let ?L = "local_new (le_path e) (le_fsync e) AlgCrc32c"
  have "local_safe {''in'' # src} tag ?L it"
    using p hd_temp_path [of "final_path ?L it" "tag it"]
    by (auto simp: local_safe_def final_path_def local_new_def join_rel_def)
  then show ?thesis using b EgLocal by (auto simp: build_destination_def intro: local_well_behaved)
qed (use b calm built_client built_gcs_client in \<open>auto simp: build_destination_def gated_ok map_res_ok calm_clients_def
      intro!: s3_well_behaved sftp_well_behaved ftps_well_behaved http_well_behaved azure_well_behaved gcs_well_behaved\<close>)

text \<open>A worker on the destinations of an instance, its local directories as in \<open>Deployment\<close>.\<close>

definition fanout_worker ::
  "'h digests \<Rightarrow> platform \<Rightarrow> (json \<Rightarrow> bytes) \<Rightarrow> deployment \<Rightarrow> destination list \<Rightarrow> 'h worker" where
  "fanout_worker D pf ser P ds =
     new_multi (dp_instance P) ds (local_completion P) (''in'' # dp_in P) (dp_retry P) D pf ser (\<lambda>ss. ss)"

lemma fanout_source: "abs_source (fanout_worker D pf ser P ds) it = ''in'' # dp_in P @ rel_segments (wi_relpath it)"
  by (simp add: fanout_worker_def new_multi_def abs_source_def join_rel_def)

lemma fanout_env:
  assumes b: "instance_destinations D tag cancel ft C deps egress = Inr ds"
    and calm: "calm_clients {abs_source (fanout_worker D pf ser P ds) it} C" and out: "out_paths egress"
  shows "worker_env (fanout_worker D pf ser P ds) it"
proof
  let ?L = "local_worker D (\<lambda>_. 0) pf ser P" and ?W = "fanout_worker D pf ser P ds"
  note local = worker_env.archive_safe [OF local_worker_env [of D "\<lambda>_. 0" pf ser P it]]
    worker_env.quarantine_safe [OF local_worker_env [of D "\<lambda>_. 0" pf ser P it]]
  have same: "wo_completion ?W = wo_completion ?L" "abs_source ?W it = abs_source ?L it"
    by (simp_all add: fanout_worker_def local_worker_def new_multi_def abs_source_def)
  let ?b = "build_destination D tag cancel ft C (deps\<lparr>dd_store := True\<rparr>)"
  have all: "List.map ?b egress = List.map Inr ds"
    using b by (simp add: instance_destinations_def collect_res_ok split: if_splits)
  show "well_behaved {abs_source ?W it} it (slot_dest s)" if s: "s \<in> set (wo_dests ?W)" for s
  proof -
    have "slot_dest s \<in> set ds" using s by (auto simp: fanout_worker_def new_multi_def dest: set_zip_rightD)
    then have "Inr (slot_dest s) \<in> set (List.map ?b egress)" unfolding all by simp
    then obtain e where "e \<in> set egress" "?b e = Inr (slot_dest s)" by (auto simp: image_iff)
    then show ?thesis
      using calm out unfolding fanout_source by (auto intro: built_well_behaved simp: out_paths_def)
  qed
  show "set (wo_order ?W ss) = set ss" for ss by (simp add: fanout_worker_def new_multi_def)
  show "ctx_safe (cleanup_ctx_of ?W it NoChecksum)"
    using local(1) same by (simp add: cleanup_ctx_of_def)
  show "quarantined_safe (abs_source ?W it) (wi_relpath it) (co_failed_dir (wo_completion ?W))"
    using local(2) same by simp
qed

lemma length_labels: "length (label_destinations ds) = length ds"
proof -
  have "length (label_from all seen ks) = length ks" for all seen ks
    by (induction ks arbitrary: seen) (simp_all add: Let_def)
  then show ?thesis by (simp add: label_destinations_def Let_def)
qed


section \<open>An example\<close>

text \<open>Servers that cannot be reached.\<close>

definition down_s3 :: s3_api where
  "down_s3 =
     \<lparr>sa_put = (\<lambda>_ _ _ _ _ _. ret (Inl \<lparr>se_code = None, se_status = None, se_transport = True\<rparr>)),
       sa_create = (\<lambda>_ _ _ _. ret (Inl \<lparr>se_code = None, se_status = None, se_transport = True\<rparr>)),
       sa_upload_part = (\<lambda>_ _ _ _ _ _. ret (Inl \<lparr>se_code = None, se_status = None, se_transport = True\<rparr>)),
       sa_complete = (\<lambda>_ _ _ _. ret (Inl \<lparr>se_code = None, se_status = None, se_transport = True\<rparr>)),
       sa_abort = (\<lambda>_ _ _. ret (Inl \<lparr>se_code = None, se_status = None, se_transport = True\<rparr>)), sa_head = (\<lambda>_ _ _. ret (Inl \<lparr>se_code = None, se_status = None, se_transport = True\<rparr>))\<rparr>"

definition down_sftp :: sftp_api where
  "down_sftp =
     \<lparr>sf_handshake = (\<lambda>h p check. ret (Inl ShIo)), sf_load_key = (\<lambda>_ _. Inl ''no key''), sf_login = (\<lambda>c l. ret (Inl ShIo)),
      sf_subsystem = (\<lambda>c. ret (Inl ShIo)), sf_start = (\<lambda>c. ret (Inl SfIo)), sf_mkdir = (\<lambda>c p. ret (Inl SfIo)),
      sf_size = (\<lambda>c p. ret (Inl SfIo)), sf_open = (\<lambda>c p b. ret (Inl SfIo)), sf_write = (\<lambda>c p n x. ret (Inl enoent)),
      sf_flush = (\<lambda>c p. ret (Inl enoent)), sf_sync = (\<lambda>c p. ret (Inl ''lost'')), sf_close = (\<lambda>c p. ret (Inl enoent)),
      sf_rename = (\<lambda>c p q. ret (Inl SfIo)), sf_remove = (\<lambda>c p. ret (Inl SfIo)), sf_read = (\<lambda>c p. ret (Inl SfIo))\<rparr>"

definition down_ftps :: ftps_api where
  "down_ftps =
     \<lparr>ft_connect = (\<lambda>_. ret (Inl FtConnection)), ft_secure = (\<lambda>_. ret (Inl FtConnection)), ft_login = (\<lambda>_ _. ret (Inl FtConnection)),
      ft_binary = ret (Inl FtConnection), ft_mkdir = (\<lambda>_. ret (Inl FtConnection)), ft_size = (\<lambda>_. ret (Inl FtConnection)),
      ft_rest = (\<lambda>_. ret (Inl FtConnection)), ft_stor = (\<lambda>_ _. ret (Inl FtConnection)), ft_write = (\<lambda>_ _ _. ret (Inl enoent)),
      ft_finalize = (\<lambda>_. ret (Inl FtConnection)), ft_rename = (\<lambda>_ _. ret (Inl FtConnection)), ft_rm = (\<lambda>_. ret (Inl FtConnection)),
      ft_retr = (\<lambda>_. ret (Inl FtConnection))\<rparr>"

definition down_azure :: azure_api where
  "down_azure =
     \<lparr>aa_put_blob = (\<lambda>_ _. ret (Inl None)), aa_put_block = (\<lambda>_ _ _. ret (Inl None)), aa_put_block_list = (\<lambda>_ _. ret (Inl None)),
      aa_properties = (\<lambda>_. ret (Inl None)), aa_get = (\<lambda>_. ret ([], Some None))\<rparr>"

definition flat_urls :: url_api where
  "flat_urls = \<lparr>ua_parse = Inr, ua_extend = (\<lambda>u segs. Some (str_join ''/'' (u # segs))), ua_query = (\<lambda>u ps. u)\<rparr>"

definition down_clients :: dest_clients where
  "down_clients =
     \<lparr>dc_s3 = down_s3, dc_order = (\<lambda>ns. ns), dc_sftp = down_sftp, dc_ftps = down_ftps, dc_http = (\<lambda>_. ret (Inl ())),
      dc_urls = flat_urls, dc_azure = down_azure, dc_gcs = (\<lambda>_. ret (Inl ())), dc_name_json = (\<lambda>_. []), dc_meta = (\<lambda>_. None),
      dc_b64 = (\<lambda>_. None)\<rparr>"

lemma down_calm: "calm_clients K down_clients"
  by (simp add: calm_clients_def down_clients_def s3_calm_def down_s3_def calm_sftp_def down_sftp_def calm_ftps_def down_ftps_def
      calm_client_def calm_azure_def down_azure_def kept_order.R_ret)

definition ex_egress :: "egress_cfg list" where
  "ex_egress =
     [EgLocal \<lparr>le_path = [''out''], le_fsync = True\<rparr>,
      EgHttp \<lparr>he_url = ''http://h/d'', he_method = None, he_headers = [], he_resumable = None, he_chunk_bytes = None,
        he_checksum_algorithm = None, he_credentials = None, he_bearer_token = None, he_username = None, he_password = None\<rparr>]"

definition ex_features :: dest_features where
  "ex_features = \<lparr>feat_s3 = False, feat_sftp = False, feat_ftps = False, feat_http = True, feat_azure = False, feat_gcs = False\<rparr>"

lemma ex_built:
  "\<exists>ds. instance_destinations sum_digests (\<lambda>_. 7) None ex_features down_clients
     \<lparr>dd_vault = None, dd_credentials = None, dd_store = False\<rparr> ex_egress = Inr ds"
  by (simp add: instance_destinations_def ex_egress_def build_destination_def gated_def ex_features_def http_build_def
      checksum_algorithm_def http_method_parse_def resolve_http_auth_def http_build_url_def down_clients_def flat_urls_def)


end
