(* ===== verification/Config.thy ===== *)
theory Config
  imports Factory Instance
begin

text \<open>
  The configuration model (\<open>src/config.rs\<close>): the typed structs and their deserialization from the JSON
  of \<open>component.global\<close> and \<open>component.instances[]\<close>. A derived deserializer reads the named fields of
  an object; a value it refuses is \<open>None\<close>, without the library's message. Of its alternative input
  forms (an array for a struct, a one-member object for a unit variant) nothing is modelled.
  \<open>PathBuf::from\<close> is the argument \<open>pb\<close>.
\<close>

section \<open>Fields\<close>

definition jas_bool :: "json \<Rightarrow> bool option" where
  "jas_bool v = (case v of JBool b \<Rightarrow> Some b | _ \<Rightarrow> None)"

definition jas_list :: "(json \<Rightarrow> 'a option) \<Rightarrow> json \<Rightarrow> 'a list option" where
  "jas_list p v = (case v of JArr xs \<Rightarrow> collect_opt (List.map p xs) | _ \<Rightarrow> None)"

text \<open>A required field, one with a default, and an optional one (absent or null is \<open>None\<close>).\<close>

definition req :: "string \<Rightarrow> (json \<Rightarrow> 'a option) \<Rightarrow> json \<Rightarrow> 'a option" where
  "req k p j = Option.bind (jget k j) p"

definition dflt :: "'a \<Rightarrow> string \<Rightarrow> (json \<Rightarrow> 'a option) \<Rightarrow> json \<Rightarrow> 'a option" where
  "dflt d k p j = (case jget k j of None \<Rightarrow> Some d | Some v \<Rightarrow> p v)"

definition opt :: "string \<Rightarrow> (json \<Rightarrow> 'a option) \<Rightarrow> json \<Rightarrow> 'a option option" where
  "opt k p j =
     (case jget k j of None \<Rightarrow> Some None | Some v \<Rightarrow> if v = JNull then Some None else map_option Some (p v))"

definition struct :: "(json \<Rightarrow> 'a option) \<Rightarrow> json \<Rightarrow> 'a option" where
  "struct p j = (if is_object j then p j else None)"

section \<open>Lenient numbers\<close>

text \<open>\<open>f as u64\<close> and \<open>f as i64\<close>: towards zero, saturating.\<close>

definition trunc_float :: "int \<Rightarrow> nat \<Rightarrow> int" where
  "trunc_float a b = (if a < 0 then - (- a div int b) else a div int b)"

definition int_to_u64 :: "int \<Rightarrow> u64" where
  "int_to_u64 n = (if n < 0 then 0 else if 2 ^ 64 \<le> n then - 1 else word_of_int n)"

definition lenient_u64 :: "json \<Rightarrow> u64 option" where
  "lenient_u64 v =
     (case v of JNum n \<Rightarrow> Some (int_to_u64 n) | JFloat a b \<Rightarrow> Some (int_to_u64 (trunc_float a b)) | _ \<Rightarrow> None)"

definition lenient_opt_u64 :: "string \<Rightarrow> json \<Rightarrow> u64 option option" where
  "lenient_opt_u64 k j = opt k lenient_u64 j"

definition lenient_opt_u32 :: "string \<Rightarrow> json \<Rightarrow> u32 option option" where
  "lenient_opt_u32 k j = map_option (map_option ucast) (lenient_opt_u64 k j)"

definition lenient_opt_u16 :: "string \<Rightarrow> json \<Rightarrow> nat option option" where
  "lenient_opt_u16 k j = map_option (map_option (\<lambda>n. unat n mod 2 ^ 16)) (lenient_opt_u64 k j)"

definition i32_wrap :: "int \<Rightarrow> int" where
  "i32_wrap n = (n + 2 ^ 31) mod 2 ^ 32 - 2 ^ 31"

definition lenient_i32 :: "json \<Rightarrow> int option" where
  "lenient_i32 v =
     (case v of
        JNum n \<Rightarrow> Some (i32_wrap (i64_sat n))
      | JFloat a b \<Rightarrow> Some (i32_wrap (i64_sat (trunc_float a b)))
      | _ \<Rightarrow> None)"

section \<open>Permission policies\<close>

definition permission_policy_from_value :: "json \<Rightarrow> permission_policy option" where
  "permission_policy_from_value v =
     (case v of
        JStr s \<Rightarrow> map_of [(''disableInstance'', DisableInstance), (''fatal'', permission_policy.Fatal), (''retain'', Retain)] s
      | _ \<Rightarrow> None)"

definition lenient_permission_policy_global :: "json \<Rightarrow> permission_policy option" where
  "lenient_permission_policy_global v = Some (unwrap_or (permission_policy_from_value v) DisableInstance)"

definition lenient_permission_policy_opt :: "json \<Rightarrow> permission_policy option option" where
  "lenient_permission_policy_opt v = (if v = JNull then Some None else Some (permission_policy_from_value v))"

section \<open>Egress\<close>

definition parse_local :: "(string \<Rightarrow> path) \<Rightarrow> json \<Rightarrow> local_egress option" where
  "parse_local pb j =
     Option.bind (req ''path'' jas_str j) (\<lambda>p.
     Option.bind (dflt False ''fsync'' jas_bool j) (\<lambda>f. Some \<lparr>le_path = pb p, le_fsync = f\<rparr>))"

definition parse_multipart :: "json \<Rightarrow> multipart_cfg option" where
  "parse_multipart = struct (\<lambda>j.
     Option.bind (lenient_opt_u64 ''thresholdBytes'' j) (\<lambda>t.
     Option.bind (lenient_opt_u64 ''partSizeBytes'' j) (\<lambda>p.
     Option.bind (lenient_opt_u64 ''maxConcurrentParts'' j) (\<lambda>c.
     Some \<lparr>mc_threshold_bytes = t, mc_part_size_bytes = p, mc_max_concurrent_parts = c\<rparr>))))"

definition parse_s3 :: "json \<Rightarrow> s3_egress option" where
  "parse_s3 j =
     Option.bind (req ''bucket'' jas_str j) (\<lambda>b.
     Option.bind (dflt [] ''prefix'' jas_str j) (\<lambda>p.
     Option.bind (opt ''region'' jas_str j) (\<lambda>r.
     Option.bind (opt ''endpointUrl'' jas_str j) (\<lambda>u.
     Option.bind (opt ''credentials'' Some j) (\<lambda>c.
     Option.bind (opt ''storageClass'' jas_str j) (\<lambda>sc.
     Option.bind (opt ''sse'' jas_str j) (\<lambda>sse.
     Option.bind (opt ''kmsKeyId'' jas_str j) (\<lambda>kms.
     Option.bind (dflt False ''accelerate'' jas_bool j) (\<lambda>ac.
     Option.bind (dflt False ''unsignedPayload'' jas_bool j) (\<lambda>un.
     Option.bind (opt ''checksumAlgorithm'' jas_str j) (\<lambda>al.
     Option.bind (dflt \<lparr>mc_threshold_bytes = None, mc_part_size_bytes = None, mc_max_concurrent_parts = None\<rparr>
                    ''multipart'' parse_multipart j) (\<lambda>m.
     Some \<lparr>eg_bucket = b, eg_prefix = p, eg_region = r, eg_endpoint_url = u, eg_credentials = c, eg_storage_class = sc,
           eg_sse = sse, eg_kms_key_id = kms, eg_accelerate = ac, eg_unsigned_payload = un, eg_checksum_algorithm = al,
           eg_multipart = m\<rparr>))))))))))))"

definition parse_sftp :: "json \<Rightarrow> sftp_egress option" where
  "parse_sftp j =
     Option.bind (req ''host'' jas_str j) (\<lambda>h.
     Option.bind (lenient_opt_u16 ''port'' j) (\<lambda>port.
     Option.bind (dflt [] ''baseDir'' jas_str j) (\<lambda>d.
     Option.bind (opt ''username'' jas_str j) (\<lambda>u.
     Option.bind (opt ''password'' jas_str j) (\<lambda>pw.
     Option.bind (opt ''privateKey'' jas_str j) (\<lambda>key.
     Option.bind (opt ''passphrase'' jas_str j) (\<lambda>pp.
     Option.bind (opt ''credentials'' Some j) (\<lambda>c.
     Option.bind (opt ''hostKey'' jas_str j) (\<lambda>hk.
     Option.bind (dflt False ''insecureAcceptAnyHostKey'' jas_bool j) (\<lambda>ins.
     Option.bind (opt ''tempSuffix'' jas_str j) (\<lambda>t.
     Option.bind (dflt False ''fsync'' jas_bool j) (\<lambda>f.
     Option.bind (opt ''checksumAlgorithm'' jas_str j) (\<lambda>al.
     Some \<lparr>fe_host = h, fe_port = port, fe_base_dir = d, fe_credentials = c, fe_username = u, fe_password = pw,
           fe_private_key = key, fe_passphrase = pp, fe_host_key = hk, fe_insecure_accept_any_host_key = ins,
           fe_temp_suffix = t, fe_fsync = f, fe_checksum_algorithm = al\<rparr>)))))))))))))"

definition parse_ftps :: "json \<Rightarrow> ftps_egress option" where
  "parse_ftps j =
     Option.bind (req ''host'' jas_str j) (\<lambda>h.
     Option.bind (lenient_opt_u16 ''port'' j) (\<lambda>port.
     Option.bind (dflt [] ''baseDir'' jas_str j) (\<lambda>d.
     Option.bind (opt ''username'' jas_str j) (\<lambda>u.
     Option.bind (opt ''password'' jas_str j) (\<lambda>pw.
     Option.bind (opt ''credentials'' Some j) (\<lambda>c.
     Option.bind (opt ''explicitTls'' jas_bool j) (\<lambda>tls.
     Option.bind (opt ''passive'' jas_bool j) (\<lambda>pas.
     Option.bind (opt ''tempSuffix'' jas_str j) (\<lambda>t.
     Option.bind (opt ''checksumAlgorithm'' jas_str j) (\<lambda>al.
     Some \<lparr>pe_host = h, pe_port = port, pe_base_dir = d, pe_credentials = c, pe_username = u, pe_password = pw,
           pe_explicit_tls = tls, pe_passive = pas, pe_temp_suffix = t, pe_checksum_algorithm = al\<rparr>))))))))))"

text \<open>A map of strings is kept in the order of its keys.\<close>

fun str_less :: "string \<Rightarrow> string \<Rightarrow> bool" where
  "str_less _ [] = False"
| "str_less [] (_ # _) = True"
| "str_less (a # s) (b # t) =
     ((of_char a :: nat) < of_char b \<or> (a = b \<and> str_less s t))"

fun put_key :: "string \<Rightarrow> 'a \<Rightarrow> (string \<times> 'a) list \<Rightarrow> (string \<times> 'a) list" where
  "put_key k v [] = [(k, v)]"
| "put_key k v ((k', v') # m) =
     (if k = k' then (k, v) # m else if str_less k k' then (k, v) # (k', v') # m else (k', v') # put_key k v m)"

definition jas_map :: "json \<Rightarrow> (string \<times> string) list option" where
  "jas_map v =
     (case v of
        JObj kvs \<Rightarrow> map_option (foldl (\<lambda>m (k, s). put_key k s m) [])
                     (collect_opt (List.map (\<lambda>(k, x). map_option (Pair k) (jas_str x)) kvs))
      | _ \<Rightarrow> None)"

definition parse_http :: "json \<Rightarrow> http_egress option" where
  "parse_http j =
     Option.bind (req ''url'' jas_str j) (\<lambda>u.
     Option.bind (opt ''method'' jas_str j) (\<lambda>m.
     Option.bind (dflt [] ''headers'' jas_map j) (\<lambda>hs.
     Option.bind (opt ''bearerToken'' jas_str j) (\<lambda>bt.
     Option.bind (opt ''username'' jas_str j) (\<lambda>un.
     Option.bind (opt ''password'' jas_str j) (\<lambda>pw.
     Option.bind (opt ''credentials'' Some j) (\<lambda>c.
     Option.bind (opt ''resumable'' jas_bool j) (\<lambda>r.
     Option.bind (lenient_opt_u64 ''chunkBytes'' j) (\<lambda>ch.
     Option.bind (opt ''checksumAlgorithm'' jas_str j) (\<lambda>al.
     Some \<lparr>he_url = u, he_method = m, he_headers = hs, he_resumable = r, he_chunk_bytes = ch, he_checksum_algorithm = al,
           he_credentials = c, he_bearer_token = bt, he_username = un, he_password = pw\<rparr>))))))))))"

definition parse_blocks :: "json \<Rightarrow> azure_block_cfg option" where
  "parse_blocks = struct (\<lambda>j.
     Option.bind (lenient_opt_u64 ''thresholdBytes'' j) (\<lambda>t.
     Option.bind (lenient_opt_u64 ''blockSizeBytes'' j) (\<lambda>b.
     Some \<lparr>bc_threshold_bytes = t, bc_block_size_bytes = b\<rparr>)))"

definition parse_azure :: "json \<Rightarrow> azure_egress option" where
  "parse_azure j =
     Option.bind (req ''account'' jas_str j) (\<lambda>a.
     Option.bind (req ''container'' jas_str j) (\<lambda>co.
     Option.bind (dflt [] ''prefix'' jas_str j) (\<lambda>p.
     Option.bind (opt ''endpointUrl'' jas_str j) (\<lambda>u.
     Option.bind (opt ''accountKey'' jas_str j) (\<lambda>key.
     Option.bind (opt ''connectionString'' jas_str j) (\<lambda>cs.
     Option.bind (opt ''credentials'' Some j) (\<lambda>c.
     Option.bind (dflt \<lparr>bc_threshold_bytes = None, bc_block_size_bytes = None\<rparr> ''blocks'' parse_blocks j) (\<lambda>bl.
     Option.bind (opt ''checksumAlgorithm'' jas_str j) (\<lambda>al.
     Some \<lparr>ae_account = a, ae_container = co, ae_prefix = p, ae_endpoint_url = u, ae_credentials = c, ae_account_key = key,
           ae_connection_string = cs, ae_checksum_algorithm = al, ae_blocks = bl\<rparr>)))))))))"

definition parse_gcs :: "json \<Rightarrow> gcs_egress option" where
  "parse_gcs j =
     Option.bind (req ''bucket'' jas_str j) (\<lambda>b.
     Option.bind (dflt [] ''prefix'' jas_str j) (\<lambda>p.
     Option.bind (opt ''endpointUrl'' jas_str j) (\<lambda>u.
     Option.bind (opt ''accessToken'' jas_str j) (\<lambda>t.
     Option.bind (dflt False ''anonymous'' jas_bool j) (\<lambda>an.
     Option.bind (opt ''credentials'' Some j) (\<lambda>c.
     Option.bind (lenient_opt_u64 ''chunkBytes'' j) (\<lambda>ch.
     Option.bind (opt ''checksumAlgorithm'' jas_str j) (\<lambda>al.
     Some \<lparr>ge_bucket = b, ge_prefix = p, ge_endpoint_url = u, ge_chunk_bytes = ch, ge_checksum_algorithm = al,
           ge_credentials = c, ge_access_token = t, ge_anonymous = an\<rparr>))))))))"

definition parse_egress :: "(string \<Rightarrow> path) \<Rightarrow> json \<Rightarrow> egress_cfg option" where
  "parse_egress pb j =
     Option.bind (req ''type'' jas_str j) (\<lambda>t.
       if t = ''local'' then map_option EgLocal (parse_local pb j)
       else if t = ''s3'' then map_option EgS3 (parse_s3 j)
       else if t = ''sftp'' then map_option EgSftp (parse_sftp j)
       else if t = ''ftps'' then map_option EgFtps (parse_ftps j)
       else if t = ''http'' then map_option EgHttp (parse_http j)
       else if t = ''azure'' then map_option EgAzure (parse_azure j)
       else if t = ''gcs'' then map_option EgGcs (parse_gcs j)
       else None)"

section \<open>Ingress and schedule\<close>

definition parse_readiness :: "json \<Rightarrow> readiness_cfg option" where
  "parse_readiness j =
     Option.bind (req ''strategy'' jas_str j) (\<lambda>t.
       if t = ''stability'' then map_option CfgStability (dflt 5 ''quietSecs'' lenient_u64 j)
       else if t = ''marker'' then map_option CfgMarker (dflt ''.done'' ''suffix'' jas_str j)
       else if t = ''rename'' then Some CfgRename
       else if t = ''glob'' then map_option CfgGlob (dflt [] ''ready'' (jas_list jas_str) j)
       else None)"

record ingress_cfg =
  ig_path :: path
  ig_recursive :: bool
  ig_include :: "string list"
  ig_exclude :: "string list"
  ig_rescan_secs :: "u64 option"
  ig_readiness :: readiness_cfg

definition parse_ingress :: "(string \<Rightarrow> path) \<Rightarrow> json \<Rightarrow> ingress_cfg option" where
  "parse_ingress pb = struct (\<lambda>j.
     Option.bind (req ''path'' jas_str j) (\<lambda>p.
     Option.bind (dflt False ''recursive'' jas_bool j) (\<lambda>r.
     Option.bind (dflt [] ''include'' (jas_list jas_str) j) (\<lambda>inc.
     Option.bind (dflt [] ''exclude'' (jas_list jas_str) j) (\<lambda>exc.
     Option.bind (lenient_opt_u64 ''rescanSecs'' j) (\<lambda>rs.
     Option.bind (dflt (CfgStability 5) ''readiness'' parse_readiness j) (\<lambda>rd.
     Some \<lparr>ig_path = pb p, ig_recursive = r, ig_include = inc, ig_exclude = exc, ig_rescan_secs = rs,
           ig_readiness = rd\<rparr>)))))))"

definition parse_window_close :: "json \<Rightarrow> window_close option" where
  "parse_window_close v =
     (case v of JStr s \<Rightarrow> map_of [(''pauseResume'', PauseResume), (''finishCurrent'', FinishCurrent)] s | _ \<Rightarrow> None)"

text \<open>The one number without the lenient conversion: \<open>durationMins\<close>.\<close>

definition parse_schedule :: "json \<Rightarrow> schedule_cfg option" where
  "parse_schedule j =
     Option.bind (req ''mode'' jas_str j) (\<lambda>t.
       if t = ''immediate'' then Some CfgImmediate
       else if t = ''cron'' then
         Option.bind (req ''expression'' jas_str j) (\<lambda>e.
         Option.bind (opt ''timezone'' jas_str j) (\<lambda>z. Some (CfgCron \<lparr>cs_expression = e, cs_timezone = z\<rparr>)))
       else if t = ''window'' then
         Option.bind (req ''open'' jas_str j) (\<lambda>opn.
         Option.bind (opt ''close'' jas_str j) (\<lambda>cls.
         Option.bind (opt ''durationMins'' jas_u64 j) (\<lambda>m.
         Option.bind (opt ''timezone'' jas_str j) (\<lambda>z.
         Option.bind (dflt PauseResume ''onWindowClose'' parse_window_close j) (\<lambda>oc.
         Some (CfgWindow \<lparr>wc_open = opn, wc_close = cls, wc_duration_mins = m, wc_timezone = z, wc_on_window_close = oc\<rparr>))))))
       else None)"

section \<open>Completion, retry and limits\<close>

definition choice :: "(string \<times> 'a) list \<Rightarrow> json \<Rightarrow> 'a option" where
  "choice vs v = (case v of JStr s \<Rightarrow> map_of vs s | _ \<Rightarrow> None)"

definition completion_default :: completion_cfg where
  "completion_default =
     \<lparr>co_on_success = OnArchive, co_archive_dir = None, co_on_exhausted = RetainInPlace, co_failed_dir = None,
      co_on_collision = Suffix, co_verify = VChecksum\<rparr>"

definition parse_completion :: "(string \<Rightarrow> path) \<Rightarrow> json \<Rightarrow> completion_cfg option" where
  "parse_completion pb = struct (\<lambda>j.
     Option.bind (dflt OnArchive ''onSuccess'' (choice [(''archive'', OnArchive), (''delete'', OnDelete)]) j) (\<lambda>s.
     Option.bind (opt ''archiveDir'' jas_str j) (\<lambda>a.
     Option.bind (dflt RetainInPlace ''onExhausted''
        (choice [(''retainInPlace'', RetainInPlace), (''quarantine'', Quarantine)]) j) (\<lambda>e.
     Option.bind (opt ''failedDir'' jas_str j) (\<lambda>f.
     Option.bind (dflt Suffix ''onCollision''
        (choice [(''suffix'', Suffix), (''overwrite'', Overwrite), (''fail'', CFail)]) j) (\<lambda>c.
     Option.bind (dflt VChecksum ''verify''
        (choice [(''checksum'', VChecksum), (''size'', VSize), (''none'', VNone)]) j) (\<lambda>v.
     Some \<lparr>co_on_success = s, co_archive_dir = map_option pb a, co_on_exhausted = e, co_failed_dir = map_option pb f,
           co_on_collision = c, co_verify = v\<rparr>)))))))"

definition parse_retry :: "json \<Rightarrow> retry_cfg option" where
  "parse_retry = struct (\<lambda>j.
     Option.bind (lenient_opt_u64 ''baseDelayMs'' j) (\<lambda>b.
     Option.bind (lenient_opt_u64 ''maxDelayMs'' j) (\<lambda>m.
     Option.bind (opt ''giveUpAfter'' jas_str j) (\<lambda>g.
     Option.bind (lenient_opt_u32 ''maxAttempts'' j) (\<lambda>a.
     Some \<lparr>rc_base_delay_ms = b, rc_max_delay_ms = m, rc_give_up_after = g, rc_max_attempts = a\<rparr>)))))"

record limits_cfg =
  li_max_concurrent_files :: "u64 option"
  li_max_bandwidth :: "string option"

definition parse_limits :: "json \<Rightarrow> limits_cfg option" where
  "parse_limits = struct (\<lambda>j.
     Option.bind (lenient_opt_u64 ''maxConcurrentFiles'' j) (\<lambda>n.
     Option.bind (opt ''maxBandwidth'' jas_str j) (\<lambda>b.
     Some \<lparr>li_max_concurrent_files = n, li_max_bandwidth = b\<rparr>)))"

section \<open>Instances and the component\<close>

record instance_cfg =
  cf_id :: string
  cf_enabled :: bool
  cf_ingress :: ingress_cfg
  cf_egress :: "egress_cfg list"
  cf_schedule :: schedule_cfg
  cf_completion :: completion_cfg
  cf_retry :: "retry_cfg option"
  cf_limits :: "limits_cfg option"
  cf_on_permission_error :: "permission_policy option"
  cf_priority :: int

definition parse_instance :: "(string \<Rightarrow> path) \<Rightarrow> json \<Rightarrow> instance_cfg option" where
  "parse_instance pb = struct (\<lambda>j.
     Option.bind (req ''id'' jas_str j) (\<lambda>i.
     Option.bind (dflt True ''enabled'' jas_bool j) (\<lambda>en.
     Option.bind (req ''ingress'' (parse_ingress pb) j) (\<lambda>ing.
     Option.bind (dflt [] ''egress'' (jas_list (struct (parse_egress pb))) j) (\<lambda>eg.
     Option.bind (dflt CfgImmediate ''schedule'' (struct parse_schedule) j) (\<lambda>sch.
     Option.bind (dflt completion_default ''completion'' (parse_completion pb) j) (\<lambda>co.
     Option.bind (opt ''retry'' parse_retry j) (\<lambda>rt.
     Option.bind (opt ''limits'' parse_limits j) (\<lambda>li.
     Option.bind (dflt None ''onPermissionError'' lenient_permission_policy_opt j) (\<lambda>pe.
     Option.bind (dflt 100 ''priority'' lenient_i32 j) (\<lambda>pr.
     Some \<lparr>cf_id = i, cf_enabled = en, cf_ingress = ing, cf_egress = eg, cf_schedule = sch, cf_completion = co,
           cf_retry = rt, cf_limits = li, cf_on_permission_error = pe, cf_priority = pr\<rparr>)))))))))))"

record global_defaults =
  gl_retry :: "retry_cfg option"
  gl_timezone :: "string option"

record global_cfg =
  gc_limits :: "limits_cfg option"
  gc_defaults :: "global_defaults option"
  gc_on_permission_error :: permission_policy

definition global_default :: global_cfg where
  "global_default = \<lparr>gc_limits = None, gc_defaults = None, gc_on_permission_error = DisableInstance\<rparr>"

definition parse_defaults :: "json \<Rightarrow> global_defaults option" where
  "parse_defaults = struct (\<lambda>j.
     Option.bind (opt ''retry'' parse_retry j) (\<lambda>r.
     Option.bind (opt ''timezone'' jas_str j) (\<lambda>z. Some \<lparr>gl_retry = r, gl_timezone = z\<rparr>)))"

definition parse_global :: "json \<Rightarrow> global_cfg option" where
  "parse_global = struct (\<lambda>j.
     Option.bind (opt ''limits'' parse_limits j) (\<lambda>l.
     Option.bind (opt ''defaults'' parse_defaults j) (\<lambda>d.
     Option.bind (dflt DisableInstance ''onPermissionError'' lenient_permission_policy_global j) (\<lambda>p.
     Some \<lparr>gc_limits = l, gc_defaults = d, gc_on_permission_error = p\<rparr>))))"

text \<open>
  The parsed document of the library: the global subtree, the ids of the instances, and each
  instance's subtree.
\<close>

record config_doc =
  cd_global :: json
  cd_instance_ids :: "string list"
  cd_instance :: "string \<Rightarrow> json option"

definition load_global :: "config_doc \<Rightarrow> global_cfg" where
  "load_global c = unwrap_or (parse_global (cd_global c)) global_default"

definition load_instances :: "(string \<Rightarrow> path) \<Rightarrow> config_doc \<Rightarrow> instance_cfg list" where
  "load_instances pb c = List.map_filter (\<lambda>i. Option.bind (cd_instance c i) (parse_instance pb)) (cd_instance_ids c)"

definition resolve_permission_policy :: "instance_cfg \<Rightarrow> global_cfg \<Rightarrow> permission_policy" where
  "resolve_permission_policy inst glob = unwrap_or (cf_on_permission_error inst) (gc_on_permission_error glob)"

end
