(* ===== verification/Config_Properties.thy ===== *)
theory Config_Properties
  imports Config
begin

text \<open>
  What the parsers of \<open>Config\<close> accept: numbers delivered as doubles, unknown permission policies,
  and the one number that must be written as an integer.
\<close>

section \<open>Numbers as doubles\<close>

text \<open>A document whose integers arrive as doubles, as far as a double holds them exactly.\<close>

definition exact_double :: "int \<Rightarrow> bool" where
  "exact_double n = (\<bar>n\<bar> \<le> 2 ^ 53)"

primrec to_doubles :: "json \<Rightarrow> json" where
  "to_doubles JNull = JNull"
| "to_doubles (JBool b) = JBool b"
| "to_doubles (JNum n) = (if exact_double n then JFloat n 1 else JNum n)"
| "to_doubles (JFloat a b) = JFloat a b"
| "to_doubles (JStr s) = JStr s"
| "to_doubles (JArr xs) = JArr (List.map to_doubles xs)"
| "to_doubles (JObj kvs) = JObj (List.map (map_prod id to_doubles) kvs)"

text \<open>The members whose value is taken as it is written hold no such integer.\<close>

definition verbatim_keys :: "string list" where
  "verbatim_keys = [''credentials'', ''durationMins'']"

fun verbatim_free :: "json \<Rightarrow> bool" where
  "verbatim_free (JArr xs) = list_all verbatim_free xs"
| "verbatim_free (JObj kvs) =
     list_all (\<lambda>kv. verbatim_free (snd kv) \<and> (fst kv \<in> set verbatim_keys \<longrightarrow> to_doubles (snd kv) = snd kv)) kvs"
| "verbatim_free _ = True"

definition doubled :: "config_doc \<Rightarrow> config_doc" where
  "doubled c = c\<lparr>cd_global := to_doubles (cd_global c), cd_instance := (\<lambda>i. map_option to_doubles (cd_instance c i))\<rparr>"

definition doc_verbatim_free :: "config_doc \<Rightarrow> bool" where
  "doc_verbatim_free c =
     (verbatim_free (cd_global c)
      \<and> list_all (\<lambda>i. case cd_instance c i of None \<Rightarrow> True | Some j \<Rightarrow> verbatim_free j) (cd_instance_ids c))"

text \<open>A parser is steady when it reads such a document and the original alike.\<close>

definition steady :: "(json \<Rightarrow> 'a) \<Rightarrow> bool" where
  "steady p \<longleftrightarrow> (\<forall>j. verbatim_free j \<longrightarrow> p (to_doubles j) = p j)"

named_theorems steady

lemma steadyI: "(\<And>j. verbatim_free j \<Longrightarrow> p (to_doubles j) = p j) \<Longrightarrow> steady p"
  by (simp add: steady_def)

lemma steadyD: "steady p \<Longrightarrow> verbatim_free j \<Longrightarrow> p (to_doubles j) = p j"
  by (simp add: steady_def)

lemma jget_doubles: "jget k (to_doubles j) = map_option to_doubles (jget k j)"
proof -
  have "map_of (List.map (map_prod id to_doubles) kvs) k = map_option to_doubles (map_of kvs k)" for kvs
    by (induction kvs) auto
  then show ?thesis by (cases j) simp_all
qed

lemma jget_verbatim:
  assumes "verbatim_free j" "jget k j = Some v"
  shows "verbatim_free v" "k \<in> set verbatim_keys \<Longrightarrow> to_doubles v = v"
proof -
  obtain kvs where j: "j = JObj kvs" using assms(2) by (cases j) auto
  then have "(k, v) \<in> set kvs" using assms(2) by (auto dest: map_of_SomeD)
  then show "verbatim_free v" "k \<in> set verbatim_keys \<Longrightarrow> to_doubles v = v"
    using assms(1) j by (auto simp: list_all_iff)
qed

lemma null_doubles: "to_doubles v = JNull \<longleftrightarrow> v = JNull"
  by (cases v) simp_all

lemma steady_const [steady]: "steady (\<lambda>_. c)"
  by (simp add: steady_def)

lemma steady_bind [steady]:
  "steady p \<Longrightarrow> (\<And>x. steady (q x)) \<Longrightarrow> steady (\<lambda>j. Option.bind (p j) (\<lambda>x. q x j))"
  by (simp add: steady_def)

lemma steady_if [steady]: "steady p \<Longrightarrow> steady q \<Longrightarrow> steady (\<lambda>j. if b then p j else q j)"
  by (simp add: steady_def)

lemma steady_map [steady]: "steady p \<Longrightarrow> steady (\<lambda>j. map_option f (p j))"
  by (simp add: steady_def)

text \<open>A field is read alike when its value is, or when it is one of the verbatim members.\<close>

lemma field_doubles:
  assumes "steady p" "verbatim_free j" "jget k j = Some v"
  shows "p (to_doubles v) = p v"
  using assms by (auto intro: steadyD dest: jget_verbatim(1))

lemma steady_req [steady]: "steady p \<Longrightarrow> steady (req k p)"
  by (rule steadyI, simp only: req_def jget_doubles)
     (auto simp: field_doubles bind_eq_Some_conv split: Option.bind_splits)

lemma steady_dflt [steady]: "steady p \<Longrightarrow> steady (dflt d k p)"
  by (rule steadyI) (auto simp: dflt_def jget_doubles field_doubles split: option.split)

lemma steady_opt [steady]: "steady p \<Longrightarrow> steady (opt k p)"
  by (rule steadyI) (auto simp: opt_def jget_doubles field_doubles null_doubles split: option.split)

lemma steady_opt_verbatim [steady]:
  assumes "k \<in> set verbatim_keys"
  shows "steady (opt k p)"
proof (rule steadyI)
  fix j
  assume "verbatim_free j"
  then have "map_option to_doubles (jget k j) = jget k j"
    using assms by (cases "jget k j") (auto dest: jget_verbatim(2))
  then show "opt k p (to_doubles j) = opt k p j" by (simp add: opt_def jget_doubles)
qed

lemma steady_struct [steady]: "steady p \<Longrightarrow> steady (struct p)"
proof (rule steadyI)
  fix j
  assume "steady p" "verbatim_free j"
  moreover have "is_object (to_doubles j) = is_object j" by (cases j) (simp_all add: is_object_def)
  ultimately show "struct p (to_doubles j) = struct p j" by (simp add: struct_def steadyD)
qed

lemma steady_list [steady]:
  assumes "steady p"
  shows "steady (jas_list p)"
proof (rule steadyI)
  fix j
  assume "verbatim_free j"
  then have "List.map p (List.map to_doubles xs) = List.map p xs" if "j = JArr xs" for xs
    using that assms by (auto simp: list_all_iff intro: steadyD)
  then show "jas_list p (to_doubles j) = jas_list p j" by (cases j) (auto simp: jas_list_def simp del: map_map)
qed

lemma steady_strings [steady]:
  "steady jas_str" "steady jas_bool" "steady (choice vs)" "steady parse_window_close" "steady lenient_permission_policy_opt"
  "steady lenient_permission_policy_global"
proof -
  have shape: "(case to_doubles v of JStr s \<Rightarrow> f s | _ \<Rightarrow> d) = (case v of JStr s \<Rightarrow> f s | _ \<Rightarrow> d)"
    for f :: "string \<Rightarrow> 'b" and d v by (cases v) simp_all
  have "jas_str (to_doubles v) = jas_str v" "jas_bool (to_doubles v) = jas_bool v" for v
    by (cases v, simp_all add: jas_bool_def)+
  then show "steady jas_str" "steady jas_bool" by (auto intro: steadyI)
  show "steady (choice vs)" "steady parse_window_close" "steady lenient_permission_policy_opt"
    "steady lenient_permission_policy_global"
    by (auto intro!: steadyI simp: choice_def parse_window_close_def lenient_permission_policy_opt_def
        lenient_permission_policy_global_def permission_policy_from_value_def shape null_doubles)
qed

lemma trunc_whole [simp]: "trunc_float n (Suc 0) = n"
  by (simp add: trunc_float_def)

lemma lenient_doubles: "lenient_u64 (to_doubles v) = lenient_u64 v" "lenient_i32 (to_doubles v) = lenient_i32 v"
  by (cases v, simp_all add: lenient_u64_def lenient_i32_def)+

lemma steady_numbers [steady]:
  "steady lenient_u64" "steady lenient_i32" "steady (lenient_opt_u64 k)" "steady (lenient_opt_u32 k)" "steady (lenient_opt_u16 k)"
proof -
  show n: "steady lenient_u64" and "steady lenient_i32" by (rule steadyI, simp add: lenient_doubles)+
  show "steady (lenient_opt_u64 k)" unfolding lenient_opt_u64_def [abs_def] by (rule steady_opt [OF n])
  then show "steady (lenient_opt_u32 k)" "steady (lenient_opt_u16 k)"
    unfolding lenient_opt_u32_def [abs_def] lenient_opt_u16_def [abs_def] by (rule steady_map)+
qed

lemma steady_headers [steady]: "steady jas_map"
proof (rule steadyI)
  fix j
  have "jas_str (to_doubles v) = jas_str v" for v by (cases v) simp_all
  then have "(\<lambda>(k :: string, x). map_option (Pair k) (jas_str x)) \<circ> map_prod id to_doubles = (\<lambda>(k, x). map_option (Pair k) (jas_str x))"
    by (auto simp: fun_eq_iff)
  then show "jas_map (to_doubles j) = jas_map j" by (cases j) (simp_all add: jas_map_def)
qed

lemma verbatim_members [simp]: "''credentials'' \<in> set verbatim_keys" "''durationMins'' \<in> set verbatim_keys"
  by (simp_all add: verbatim_keys_def)

lemma steady_parsers [steady]:
  "steady (parse_local pb)" "steady parse_multipart" "steady parse_sftp" "steady parse_ftps" "steady parse_http"
  "steady parse_blocks" "steady parse_gcs" "steady parse_readiness" "steady parse_retry" "steady parse_limits"
  "steady (parse_completion pb)" "steady parse_schedule"
  unfolding parse_local_def [abs_def] parse_multipart_def parse_sftp_def [abs_def] parse_ftps_def [abs_def]
    parse_http_def [abs_def] parse_blocks_def parse_gcs_def [abs_def] parse_readiness_def [abs_def] parse_retry_def
    parse_limits_def parse_completion_def parse_schedule_def [abs_def]
  by (intro steady verbatim_members)+

lemma steady_components [steady]:
  "steady parse_s3" "steady parse_azure" "steady (parse_ingress pb)" "steady parse_defaults"
  unfolding parse_s3_def [abs_def] parse_azure_def [abs_def] parse_ingress_def parse_defaults_def
  by (intro steady verbatim_members)+

lemma steady_egress [steady]: "steady (parse_egress pb)"
  unfolding parse_egress_def [abs_def] by (intro steady)

lemma steady_instance: "steady (parse_instance pb)" and steady_global: "steady parse_global"
  unfolding parse_instance_def parse_global_def by (intro steady)+


definition ex_instance :: json where
  "ex_instance =
     JObj [(''id'', JStr ''a''), (''ingress'', JObj [(''path'', JStr ''in''), (''rescanSecs'', JNum 10)]),
           (''limits'', JObj [(''maxConcurrentFiles'', JNum 2)]), (''priority'', JNum (- 5))]"

definition ex_doc :: config_doc where
  "ex_doc = \<lparr>cd_global = JObj [(''limits'', JObj [(''maxConcurrentFiles'', JNum 4)])], cd_instance_ids = [''a''],
             cd_instance = (\<lambda>_. Some ex_instance)\<rparr>"


section \<open>The one number that must be an integer\<close>

text \<open>
  C27. The minutes of a window must be written as an integer: an instance whose window schedule gives
  \<open>durationMins\<close> as a double is malformed, whatever else it says, and is dropped when the
  configuration is loaded, while every other instance is read as if it were not listed.
\<close>

theorem double_window_length_drops_instance:
  assumes "cd_instance c i = Some j" "jget ''schedule'' j = Some s" "jget ''mode'' s = Some (JStr ''window'')"
    "jget ''durationMins'' s = Some (JFloat a b)"
  shows "parse_instance pb j = None
    \<and> load_instances pb c = load_instances pb (c\<lparr>cd_instance_ids := removeAll i (cd_instance_ids c)\<rparr>)"
proof
  have "opt ''durationMins'' jas_u64 s = None" using assms(4) by (simp add: opt_def jas_u64.simps)
  then have "parse_schedule s = None"
    using assms(3) by (simp add: parse_schedule_def req_def bind_eq_None_conv Option.bind_eq_None_conv)
  then have "struct parse_schedule s = None" by (simp add: struct_def)
  then have "dflt CfgImmediate ''schedule'' (struct parse_schedule) j = None" using assms(2) by (simp add: dflt_def)
  then show none: "parse_instance pb j = None"
    by (simp add: parse_instance_def struct_def bind_eq_None_conv)
  have "List.map_filter f xs = List.map_filter f (removeAll i xs)" if "f i = None" for f :: "string \<Rightarrow> instance_cfg option" and xs
    using that by (induction xs) (auto simp: List.map_filter_simps split: option.split)
  from this [of "\<lambda>i. Option.bind (cd_instance c i) (parse_instance pb)"]
  show "load_instances pb c = load_instances pb (c\<lparr>cd_instance_ids := removeAll i (cd_instance_ids c)\<rparr>)"
    using none assms(1) by (simp add: load_instances_def)
qed

definition ex_window :: json where
  "ex_window = JObj [(''id'', JStr ''w''), (''ingress'', JObj [(''path'', JStr ''in'')]),
     (''schedule'', JObj [(''mode'', JStr ''window''), (''open'', JStr ''0 2 * * *''), (''durationMins'', JFloat 60 1)])]"

theorem double_window_length_drops_instance_witness:
  "parse_instance (\<lambda>s. [s]) ex_window = None
   \<and> load_instances (\<lambda>s. [s]) (ex_doc\<lparr>cd_instance := (\<lambda>_. Some ex_window)\<rparr>)
     = load_instances (\<lambda>s. [s]) (ex_doc\<lparr>cd_instance := (\<lambda>_. Some ex_window),
         cd_instance_ids := removeAll ''a'' (cd_instance_ids (ex_doc\<lparr>cd_instance := (\<lambda>_. Some ex_window)\<rparr>))\<rparr>)"
  using double_window_length_drops_instance [of "ex_doc\<lparr>cd_instance := (\<lambda>_. Some ex_window)\<rparr>" "''a''" ex_window _ 60 1 "\<lambda>s. [s]"]
  by (simp add: ex_window_def)

section \<open>Misspelt policies\<close>

lemma policy_fields:
  "dflt d k lenient_permission_policy_global j
     = Some (case jget k j of None \<Rightarrow> d | Some v \<Rightarrow> unwrap_or (permission_policy_from_value v) DisableInstance)"
  "dflt None k lenient_permission_policy_opt j = Some (Option.bind (jget k j) permission_policy_from_value)"
  by (simp_all add: dflt_def lenient_permission_policy_global_def lenient_permission_policy_opt_def
      permission_policy_from_value_def split: option.split)

text \<open>
  A misspelt \<open>onPermissionError\<close> costs only itself. Whatever value the field holds, the rest of
  the global settings and the rest of the instance are read as without it; the policy is the named
  one, else the default (global), else inherited (instance).
\<close>

theorem misspelt_policy_costs_itself:
  "parse_global (JObj ((''onPermissionError'', v) # kvs))
     = map_option (\<lambda>g. g\<lparr>gc_on_permission_error := unwrap_or (permission_policy_from_value v) DisableInstance\<rparr>)
         (parse_global (JObj kvs))
   \<and> parse_instance pb (JObj ((''onPermissionError'', v) # kvs))
     = map_option (\<lambda>i. i\<lparr>cf_on_permission_error := permission_policy_from_value v\<rparr>) (parse_instance pb (JObj kvs))"
proof
  note field = req_def opt_def dflt_def lenient_opt_u64_def
  show "parse_global (JObj ((''onPermissionError'', v) # kvs))
     = map_option (\<lambda>g. g\<lparr>gc_on_permission_error := unwrap_or (permission_policy_from_value v) DisableInstance\<rparr>)
         (parse_global (JObj kvs))"
    unfolding parse_global_def struct_def policy_fields
    by (simp add: is_object_def map_option_bind comp_def field)
  show "parse_instance pb (JObj ((''onPermissionError'', v) # kvs))
     = map_option (\<lambda>i. i\<lparr>cf_on_permission_error := permission_policy_from_value v\<rparr>) (parse_instance pb (JObj kvs))"
    unfolding parse_instance_def struct_def policy_fields
    by (simp add: is_object_def map_option_bind comp_def field)
qed

end
