(* ===== verification/Ratelimit.thy ===== *)
theory Ratelimit
  imports Sugar Complex_Main
begin

text \<open>
  The bandwidth governor (\<open>src/ratelimit.rs\<close>): a token bucket per instance and one for the
  component, and the parser of human byte rates; with the parser of \<open>f64\<close> literals that the durations of
  the retry policy use too. The clock is an argument, an instant a number of seconds. Floating-point
  arithmetic is exact here: the model speaks of the rational value, without its rounding to 53 bits.
\<close>

section \<open>Floating-point literals\<close>

datatype f64 = Finite rat | NonFinite

definition all_digits :: "string \<Rightarrow> bool" where
  "all_digits s = (\<forall>c\<in>set s. is_digit c)"

text \<open>Digits with at most one dot, and at least one digit.\<close>

definition decimal_val :: "string \<Rightarrow> rat option" where
  "decimal_val s =
     (case str_split_once (CHR ''.'') s of
        None \<Rightarrow> if s \<noteq> [] \<and> all_digits s then Some (of_nat (digits_val s)) else None
      | Some (a, b) \<Rightarrow>
          if all_digits a \<and> all_digits b \<and> a @ b \<noteq> []
          then Some (of_nat (digits_val (a @ b)) / 10 ^ length b) else None)"

definition split_sign :: "string \<Rightarrow> bool \<times> string" where
  "split_sign s =
     (case s of
        [] \<Rightarrow> (False, [])
      | c # cs \<Rightarrow> if c = CHR ''-'' then (True, cs) else if c = CHR ''+'' then (False, cs) else (False, s))"

definition exponent_val :: "string \<Rightarrow> int option" where
  "exponent_val s =
     (case split_sign s of (neg, ds) \<Rightarrow>
        if ds \<noteq> [] \<and> all_digits ds then Some (if neg then - int (digits_val ds) else int (digits_val ds)) else None)"

definition scale10 :: "int \<Rightarrow> rat \<Rightarrow> rat" where
  "scale10 e x = (if 0 \<le> e then x * 10 ^ nat e else x / 10 ^ nat (- e))"

text \<open>From this value on a literal rounds to infinity.\<close>

definition f64_overflow :: rat where
  "f64_overflow = 2 ^ 1024 - 2 ^ 970"

definition to_f64 :: "rat \<Rightarrow> f64" where
  "to_f64 x = (if f64_overflow \<le> \<bar>x\<bar> then NonFinite else Finite x)"

definition parse_f64 :: "string \<Rightarrow> f64 option" where
  "parse_f64 s =
     (case split_sign s of (neg, body) \<Rightarrow>
        let lower = to_ascii_lowercase body; sgn = (if neg then -1 else 1) in
        if lower \<in> set [''inf'', ''infinity'', ''nan''] then Some NonFinite
        else (case str_split_once (CHR ''e'') lower of
                None \<Rightarrow> map_option (\<lambda>x. to_f64 (sgn * x)) (decimal_val lower)
              | Some (m, e) \<Rightarrow>
                  Option.bind (decimal_val m) (\<lambda>x.
                  map_option (\<lambda>k. to_f64 (sgn * scale10 k x)) (exponent_val e))))"

text \<open>\<open>round() as u64\<close>: half away from zero, saturating; of a value that is not negative.\<close>

definition round_u64 :: "rat \<Rightarrow> u64" where
  "round_u64 x = (let n = \<lfloor>x + 1 / 2\<rfloor> in if n < 0 then 0 else if 2 ^ 64 \<le> n then - 1 else word_of_int n)"

section \<open>Byte rates\<close>

text \<open>The \<open>{:?}\<close> form of a text (control characters other than these three do not occur).\<close>

definition debug_char :: "char \<Rightarrow> string" where
  "debug_char c =
     (let n = of_char c :: nat in
      if n = 34 \<or> n = 92 then [CHR 0x5C, c]
      else if n = 9 then [CHR 0x5C, CHR ''t''] else if n = 10 then [CHR 0x5C, CHR ''n'']
      else if n = 13 then [CHR 0x5C, CHR ''r''] else [c])"

definition debug_str :: "string \<Rightarrow> string" where
  "debug_str s = CHR 0x22 # concat (List.map debug_char s) @ [CHR 0x22]"

definition rate_body :: "string \<Rightarrow> string \<times> bool" where
  "rate_body lower =
     (case strip_suffix ''bps'' lower of
        Some x \<Rightarrow> (x, True)
      | None \<Rightarrow> (case strip_suffix ''/sec'' lower of
          Some x \<Rightarrow> (x, False)
        | None \<Rightarrow> (case strip_suffix ''/s'' lower of Some x \<Rightarrow> (x, False) | None \<Rightarrow> (lower, False))))"

definition byte_unit :: "string \<Rightarrow> string" where
  "byte_unit u =
     (case strip_suffix ''bytes'' u of
        Some x \<Rightarrow> x
      | None \<Rightarrow> (case strip_suffix ''byte'' u of
          Some x \<Rightarrow> x
        | None \<Rightarrow> (case strip_suffix ''b'' u of Some x \<Rightarrow> x | None \<Rightarrow> u)))"

definition unit_mult :: "string \<Rightarrow> rat option" where
  "unit_mult u =
     map_of [('''', 1), (''k'', 10 ^ 3), (''ki'', 1024), (''m'', 10 ^ 6), (''mi'', 1024 ^ 2), (''g'', 10 ^ 9),
       (''gi'', 1024 ^ 3), (''t'', 10 ^ 12), (''ti'', 1024 ^ 4)] u"

definition rate_char :: "char \<Rightarrow> bool" where
  "rate_char c = (is_digit c \<or> c = CHR ''.'')"

definition parse_byte_rate :: "string \<Rightarrow> string + u64" where
  "parse_byte_rate input =
     (let s = str_trim input in
      if s = [] then Inl ''empty byte-rate''
      else (case rate_body (to_ascii_lowercase s) of (raw, is_bits) \<Rightarrow>
        let body = str_trim raw;
            num_str = str_trim (takeWhile rate_char body);
            unit_raw = str_trim (dropWhile rate_char body) in
        if num_str = [] then Inl (''no numeric value in byte-rate '' @ debug_str input)
        else (case parse_f64 num_str of
            None \<Rightarrow> Inl (''invalid number in byte-rate '' @ debug_str input)
          | Some NonFinite \<Rightarrow> Inl (''byte-rate must be non-negative and finite: '' @ debug_str input)
          | Some (Finite v) \<Rightarrow>
              if v < 0 then Inl (''byte-rate must be non-negative and finite: '' @ debug_str input)
              else (let unit = (if is_bits then unit_raw else byte_unit unit_raw) in
                case unit_mult unit of
                  None \<Rightarrow> Inl (''unknown byte-rate unit '' @ debug_str unit @ '' in '' @ debug_str input)
                | Some m \<Rightarrow> Inr (round_u64 (if is_bits then v * m / 8 else v * m))))))"

section \<open>The bucket\<close>

record token_bucket =
  tb_rate :: u64
  tb_capacity :: rat
  tb_tokens :: rat
  tb_last :: rat

definition rat_of :: "u64 \<Rightarrow> rat" where
  "rat_of n = of_nat (unat n)"

definition bucket_new :: "u64 \<Rightarrow> rat \<Rightarrow> token_bucket" where
  "bucket_new rate now = \<lparr>tb_rate = rate, tb_capacity = rat_of rate, tb_tokens = rat_of rate, tb_last = now\<rparr>"

definition is_unlimited :: "token_bucket \<Rightarrow> bool" where
  "is_unlimited b = (tb_rate b = 0)"

text \<open>Account for \<open>n\<close> bytes; the wait before they may be sent. The tokens may become a debt.\<close>

definition bucket_acquire :: "token_bucket \<Rightarrow> rat \<Rightarrow> u64 \<Rightarrow> rat \<times> token_bucket" where
  "bucket_acquire b now n =
     (if tb_rate b = 0 then (0, b)
      else
        let elapsed = max 0 (now - tb_last b);
            tokens = min (tb_tokens b + elapsed * rat_of (tb_rate b)) (tb_capacity b);
            need = rat_of n;
            b' = b\<lparr>tb_tokens := tokens - need, tb_last := now\<rparr> in
        if need \<le> tokens then (0, b') else ((need - tokens) / rat_of (tb_rate b), b'))"

record bandwidth =
  bw_per_instance :: token_bucket
  bw_global :: token_bucket
  bw_delay_ms :: "u64 option"

definition bandwidth_new :: "token_bucket \<Rightarrow> token_bucket \<Rightarrow> bandwidth" where
  "bandwidth_new per_instance global = \<lparr>bw_per_instance = per_instance, bw_global = global, bw_delay_ms = None\<rparr>"

definition with_delay_recorder :: "bandwidth \<Rightarrow> bandwidth" where
  "with_delay_recorder B = B\<lparr>bw_delay_ms := Some 0\<rparr>"

definition recorded_throttle_delay_ms :: "bandwidth \<Rightarrow> u64" where
  "recorded_throttle_delay_ms B = (case bw_delay_ms B of Some d \<Rightarrow> d | None \<Rightarrow> 0)"

text \<open>Reserve the bytes in both buckets; the caller sleeps for the longer wait.\<close>

definition throttle :: "bandwidth \<Rightarrow> rat \<Rightarrow> u64 \<Rightarrow> rat \<times> bandwidth" where
  "throttle B now n =
     (case bucket_acquire (bw_per_instance B) now n of (w1, i) \<Rightarrow>
      case bucket_acquire (bw_global B) now n of (w2, g) \<Rightarrow>
        let wait = max w1 w2;
            delay = (if wait = 0 then bw_delay_ms B
                     else map_option (\<lambda>d. d + word_of_int \<lfloor>wait * 1000\<rfloor>) (bw_delay_ms B)) in
        (wait, \<lparr>bw_per_instance = i, bw_global = g, bw_delay_ms = delay\<rparr>))"

definition limit_bytes_per_sec :: "bandwidth \<Rightarrow> u64" where
  "limit_bytes_per_sec B =
     (let p = tb_rate (bw_per_instance B); g = tb_rate (bw_global B) in
      if p = 0 \<and> g = 0 then 0 else if p = 0 then g else if g = 0 then p else min p g)"

section \<open>The rate is kept\<close>

text \<open>
  The credit of a bucket at time \<open>T\<close>: what it may still let through by then. Bytes that are sent no
  earlier than their wait allows are paid for from it.
\<close>

definition credit :: "token_bucket \<Rightarrow> rat \<Rightarrow> rat" where
  "credit b T = max 0 (tb_tokens b + rat_of (tb_rate b) * (T - tb_last b))"

lemma rat_of_nonneg [simp]: "0 \<le> rat_of n"
  unfolding rat_of_def by (rule of_nat_0_le_iff)

lemma rat_of_pos: "n \<noteq> 0 \<Longrightarrow> 0 < rat_of n"
  unfolding rat_of_def of_nat_0_less_iff by (simp add: unat_gt_0)

lemma acquire_fields:
  assumes "bucket_acquire b t n = (w, b')" "tb_rate b \<noteq> 0" "tb_last b \<le> t"
  shows "tb_rate b' = tb_rate b" "tb_last b' = t" "tb_capacity b' = tb_capacity b"
    and "tb_tokens b' \<le> tb_tokens b + rat_of (tb_rate b) * (t - tb_last b) - rat_of n"
    and "0 \<le> w" "- tb_tokens b' \<le> w * rat_of (tb_rate b)"
proof -
  have r: "0 < rat_of (tb_rate b)" using assms(2) by (rule rat_of_pos)
  show "tb_rate b' = tb_rate b" "tb_last b' = t" "tb_capacity b' = tb_capacity b"
      "tb_tokens b' \<le> tb_tokens b + rat_of (tb_rate b) * (t - tb_last b) - rat_of n"
    using assms by (auto simp: bucket_acquire_def Let_def algebra_simps split: if_splits)
  obtain k where k: "tb_tokens b' = k - rat_of n" "w = (if rat_of n \<le> k then 0 else (rat_of n - k) / rat_of (tb_rate b))"
    using assms(1,2) by (auto simp: bucket_acquire_def Let_def split: if_splits)
  show "0 \<le> w" "- tb_tokens b' \<le> w * rat_of (tb_rate b)" using r by (simp_all add: k)
qed

lemma acquire_capped:
  assumes "bucket_acquire b t n = (w, b')" "tb_rate b \<noteq> 0"
  shows "tb_tokens b' \<le> tb_capacity b - rat_of n" "0 < w \<Longrightarrow> tb_tokens b' = - (w * rat_of (tb_rate b))"
  using assms rat_of_pos [OF assms(2)] by (auto simp: bucket_acquire_def Let_def field_simps split: if_splits)

lemma pay_credit:
  assumes a: "bucket_acquire b t n = (w, b')" "tb_rate b \<noteq> 0" "tb_last b \<le> t" and s: "t + w \<le> s"
    and x: "tb_tokens b' + rat_of n \<le> x"
  shows "(if s \<le> T then rat_of n else 0) + credit b' T \<le> max 0 (x + rat_of (tb_rate b) * (T - t))"
proof -
  note f = acquire_fields [OF a]
  let ?r = "rat_of (tb_rate b)"
  have r: "0 < ?r" using a(2) by (rule rat_of_pos)
  show ?thesis
  proof (cases "s \<le> T")
    case True
    have "w \<le> T - t" using True s by simp
    then have "w * ?r \<le> ?r * (T - t)" using r by (metis mult.commute mult_right_mono less_imp_le)
    then have "0 \<le> tb_tokens b' + ?r * (T - t)" using f(6) by simp
    then show ?thesis using True x f(1,2) by (simp add: credit_def)
  next
    case False
    have "tb_tokens b' \<le> x" using x rat_of_nonneg [of n] by linarith
    then show ?thesis using False f(1,2) by (auto simp: credit_def)
  qed
qed

lemma acquire_credit:
  assumes a: "bucket_acquire b t n = (w, b')" "tb_rate b \<noteq> 0" "tb_last b \<le> t" and s: "t + w \<le> s"
  shows "(if s \<le> T then rat_of n else 0) + credit b' T \<le> credit b T"
proof -
  have "tb_tokens b' + rat_of n \<le> tb_tokens b + rat_of (tb_rate b) * (t - tb_last b)"
    using acquire_fields(4) [OF a] by simp
  then show ?thesis using pay_credit [OF a s] by (fastforce simp: credit_def algebra_simps)
qed

section \<open>One bucket, any window\<close>

text \<open>Requests with their arrival and size; the instant each may be sent.\<close>

fun bucket_run :: "token_bucket \<Rightarrow> (rat \<times> u64) list \<Rightarrow> (rat \<times> u64) list" where
  "bucket_run b [] = []"
| "bucket_run b ((t, n) # rs) = (case bucket_acquire b t n of (w, b') \<Rightarrow> (t + w, n) # bucket_run b' rs)"

definition bytes_within :: "rat \<Rightarrow> rat \<Rightarrow> (rat \<times> u64) list \<Rightarrow> rat" where
  "bytes_within S T sent = (\<Sum>(s, n)\<leftarrow>sent. if S < s \<and> s \<le> T then rat_of n else 0)"

fun in_order :: "rat \<Rightarrow> rat list \<Rightarrow> bool" where
  "in_order t0 [] = True"
| "in_order t0 (t # ts) = (t0 \<le> t \<and> in_order t ts)"

lemma bytes_within_simps [simp]:
  "bytes_within S T [] = 0"
  "bytes_within S T ((s, n) # sent) = (if S < s \<and> s \<le> T then rat_of n else 0) + bytes_within S T sent"
  by (simp_all add: bytes_within_def)

lemma counted_once: "(if S < s \<and> s \<le> T then rat_of n else 0) \<le> (if s \<le> T then rat_of n else 0)"
  by simp

lemma run_credit:
  "in_order (tb_last b) (List.map fst rs) \<Longrightarrow> tb_rate b \<noteq> 0 \<Longrightarrow> bytes_within S T (bucket_run b rs) \<le> credit b T"
proof (induction rs arbitrary: b)
  case Nil
  then show ?case by (simp add: credit_def)
next
  case (Cons q rs)
  obtain t n w b' where q: "q = (t, n)" and a: "bucket_acquire b t n = (w, b')"
    by (cases q) (metis surj_pair)
  have t: "tb_last b \<le> t" using Cons.prems(1) q by simp
  note f = acquire_fields [OF a Cons.prems(2) t]
  have "bytes_within S T (bucket_run b' rs) \<le> credit b' T" using Cons f(1,2) q by simp
  moreover have "(if t + w \<le> T then rat_of n else 0) + credit b' T \<le> credit b T"
    by (rule acquire_credit [OF a Cons.prems(2) t order_refl])
  ultimately show ?case using counted_once [of S "t + w" T n] by (simp add: q a del: if_split)
qed

lemma run_window:
  assumes "in_order (tb_last b) (List.map fst rs)" "tb_rate b \<noteq> 0" "S \<le> T" "tb_last b \<le> S"
    and "tb_capacity b \<le> m" "\<forall>(t, n)\<in>set rs. rat_of n \<le> m" "0 \<le> m"
  shows "bytes_within S T (bucket_run b rs) \<le> rat_of (tb_rate b) * (T - S) + m"
  using assms
proof (induction rs arbitrary: b)
  case Nil
  then show ?case by simp
next
  case (Cons q rs)
  let ?r = "rat_of (tb_rate b)"
  obtain t n w b' where q: "q = (t, n)" and a: "bucket_acquire b t n = (w, b')"
    by (cases q) (metis surj_pair)
  have t: "tb_last b \<le> t" using Cons.prems(1) q by simp
  note f = acquire_fields [OF a Cons.prems(2) t]
  have r: "0 < ?r" using Cons.prems(2) by (rule rat_of_pos)
  have n: "rat_of n \<le> m" using Cons.prems(6) q by simp
  have rest: "bytes_within S T (bucket_run b' rs) \<le> credit b' T"
    using run_credit [of b' rs S T] Cons.prems(1,2) f(1,2) q by simp
  have head: "bytes_within S T (bucket_run b (q # rs))
      = (if S < t + w \<and> t + w \<le> T then rat_of n else 0) + bytes_within S T (bucket_run b' rs)"
    by (simp add: q a)
  show ?case
  proof (cases "S \<le> t")
    case True
    have "(if t + w \<le> T then rat_of n else 0) + credit b' T \<le> max 0 (tb_capacity b + ?r * (T - t))"
      by (rule pay_credit [OF a Cons.prems(2) t order_refl]) (use acquire_capped(1) [OF a Cons.prems(2)] in simp)
    moreover have "?r * (T - t) \<le> ?r * (T - S)" using True r by (simp add: mult_left_mono)
    moreover have "0 \<le> ?r * (T - S)" using r Cons.prems(3) by simp
    ultimately show ?thesis
      unfolding head using rest Cons.prems(5,7) counted_once [of S "t + w" T n] by linarith
  next
    case False
    then have ih: "bytes_within S T (bucket_run b' rs) \<le> ?r * (T - S) + m"
      using Cons.IH [of b'] Cons.prems f(1,2,3) q by simp
    show ?thesis
    proof (cases "S < t + w")
      case late: True
      then have "0 < w" using False by simp
      then have "credit b' T = max 0 (?r * (T - (t + w)))"
        using acquire_capped(2) [OF a Cons.prems(2)] f(1,2) by (simp add: credit_def algebra_simps)
      moreover have "?r * (T - (t + w)) \<le> ?r * (T - S)" using late r by (simp add: mult_left_mono)
      moreover have "0 \<le> ?r * (T - S)" using r Cons.prems(3) by simp
      ultimately have "credit b' T \<le> ?r * (T - S)" by simp
      then show ?thesis unfolding head using rest n Cons.prems(7) by (auto split: if_splits)
    qed (use ih head in simp)
  qed
qed

lemma bucket_new_fields [simp]:
  "tb_rate (bucket_new r t) = r" "tb_capacity (bucket_new r t) = rat_of r" "tb_tokens (bucket_new r t) = rat_of r"
  "tb_last (bucket_new r t) = t"
  by (simp_all add: bucket_new_def)

text \<open>
  No window of time sees a burst: between any two instants \<open>S\<close> and \<open>T\<close> a limited bucket lets
  through at most its rate times the length of the window plus one second's worth, or one request
  where that is larger, whatever requests of at most \<open>m\<close> bytes arrive when, and however long the
  bucket was idle before.
\<close>

theorem bucket_window_bound:
  assumes "in_order t0 (List.map fst rs)" "rate \<noteq> 0" "t0 \<le> S" "S \<le> T"
    and "rat_of rate \<le> m" "\<forall>(t, n)\<in>set rs. rat_of n \<le> m"
  shows "bytes_within S T (bucket_run (bucket_new rate t0) rs) \<le> rat_of rate * (T - S) + m"
  using run_window [of "bucket_new rate t0" rs S T m] assms rat_of_nonneg [of rate] by simp

theorem bucket_window_bound_witness:
  "bytes_within 5 7 (bucket_run (bucket_new 100 0) [(5, 100), (5, 100), (6, 50), (6, 400)]) \<le> 600"
proof -
  have c: "rat_of 100 = 100" "rat_of 50 = 50" "rat_of 400 = 400" by (simp_all add: rat_of_def)
  show ?thesis
    using bucket_window_bound [of 0 "[(5, 100), (5, 100), (6, 50), (6, 400)]" 100 5 7 400] by (simp add: c)
qed

section \<open>Instance and component together\<close>

text \<open>
  Requests of all instances in the order they reach the governor: the instance, the arrival, the
  bytes. Each instance has its bucket, the component one bucket for all.
\<close>

fun governor_run ::
  "(string \<Rightarrow> token_bucket) \<Rightarrow> token_bucket \<Rightarrow> (string \<times> rat \<times> u64) list \<Rightarrow> (string \<times> rat \<times> u64) list" where
  "governor_run I g [] = []"
| "governor_run I g ((i, t, n) # rs) =
     (case throttle (bandwidth_new (I i) g) t n of (w, B) \<Rightarrow>
        (i, t + w, n) # governor_run (I(i := bw_per_instance B)) (bw_global B) rs)"

definition sent_bytes :: "(string \<Rightarrow> bool) \<Rightarrow> rat \<Rightarrow> (string \<times> rat \<times> u64) list \<Rightarrow> rat" where
  "sent_bytes P T sent = (\<Sum>(i, s, n)\<leftarrow>sent. if P i \<and> s \<le> T then rat_of n else 0)"

lemma sent_bytes_simps [simp]:
  "sent_bytes P T [] = 0"
  "sent_bytes P T ((i, s, n) # sent) = (if P i \<and> s \<le> T then rat_of n else 0) + sent_bytes P T sent"
  by (simp_all add: sent_bytes_def)

lemma sent_bytes_mono: "(\<And>i. P i \<Longrightarrow> Q i) \<Longrightarrow> sent_bytes P T sent \<le> sent_bytes Q T sent"
  unfolding sent_bytes_def by (rule sum_list_mono) auto

lemma throttle_step:
  assumes "throttle (bandwidth_new b g) t n = (w, B)"
  obtains w1 w2 where "bucket_acquire b t n = (w1, bw_per_instance B)" "bucket_acquire g t n = (w2, bw_global B)"
    "t + w1 \<le> t + w" "t + w2 \<le> t + w"
  using assms by (auto simp: throttle_def bandwidth_new_def Let_def split: prod.splits)

lemma acquire_last: "bucket_acquire b t n = (w, b') \<Longrightarrow> tb_last b \<le> t \<Longrightarrow> tb_last b' \<le> t"
  by (auto simp: bucket_acquire_def Let_def split: if_splits)

lemma acquire_rate: "bucket_acquire b t n = (w, b') \<Longrightarrow> tb_rate b' = tb_rate b"
  by (auto simp: bucket_acquire_def Let_def split: if_splits)

lemma governor_credit:
  "in_order t0 (List.map (\<lambda>(i, t, n). t) rs) \<Longrightarrow> \<forall>j. tb_last (I j) \<le> t0 \<Longrightarrow> tb_last g \<le> t0 \<Longrightarrow>
   (tb_rate (I i) \<noteq> 0 \<longrightarrow> sent_bytes (\<lambda>j. j = i) T (governor_run I g rs) \<le> credit (I i) T)
   \<and> (tb_rate g \<noteq> 0 \<longrightarrow> sent_bytes (\<lambda>_. True) T (governor_run I g rs) \<le> credit g T)"
proof (induction rs arbitrary: t0 I g)
  case Nil
  show ?case by (simp add: credit_def)
next
  case (Cons q rs)
  obtain k t n where q: "q = (k, t, n)" by (metis surj_pair)
  obtain w B where th: "throttle (bandwidth_new (I k) g) t n = (w, B)" by (metis surj_pair)
  obtain w1 w2 where a: "bucket_acquire (I k) t n = (w1, bw_per_instance B)" "bucket_acquire g t n = (w2, bw_global B)"
      and w: "t + w1 \<le> t + w" "t + w2 \<le> t + w"
    by (rule throttle_step [OF th])
  let ?I = "I(k := bw_per_instance B)"
  have ord: "in_order t (List.map (\<lambda>(i, t, n). t) rs)" and le: "t0 \<le> t" using Cons.prems(1) by (simp_all add: q)
  have lt: "tb_last (I j) \<le> t" "tb_last g \<le> t" for j using Cons.prems(2,3) order_trans [OF _ le] by simp_all
  have last: "\<forall>j. tb_last (?I j) \<le> t" "tb_last (bw_global B) \<le> t"
    using lt acquire_last [OF a(1) lt(1)] acquire_last [OF a(2) lt(2)] by simp_all
  obtain R where R: "R = governor_run ?I (bw_global B) rs" by simp
  have step: "governor_run I g (q # rs) = (k, t + w, n) # R" by (simp add: q th R)
  have ih: "(tb_rate (?I i) \<noteq> 0 \<longrightarrow> sent_bytes (\<lambda>j. j = i) T R \<le> credit (?I i) T)
      \<and> (tb_rate (bw_global B) \<noteq> 0 \<longrightarrow> sent_bytes (\<lambda>_. True) T R \<le> credit (bw_global B) T)"
    unfolding R by (rule Cons.IH [OF ord last])
  have inst: "(if t + w \<le> T then rat_of n else 0) + credit (bw_per_instance B) T \<le> credit (I k) T" if "tb_rate (I k) \<noteq> 0"
    by (rule acquire_credit [OF a(1) that lt(1) w(1)])
  have all: "(if t + w \<le> T then rat_of n else 0) + credit (bw_global B) T \<le> credit g T" if "tb_rate g \<noteq> 0"
    by (rule acquire_credit [OF a(2) that lt(2) w(2)])
  show ?case
    using ih inst all acquire_rate [OF a(1)] acquire_rate [OF a(2)] unfolding step by (cases "k = i") force+
qed



section \<open>The parser\<close>

lemma small_f64: "0 \<le> x \<Longrightarrow> x < 2 ^ 64 \<Longrightarrow> to_f64 x = Finite x"
proof -
  have "(2 :: rat) ^ 64 \<le> f64_overflow" unfolding f64_overflow_def by simp
  then show "0 \<le> x \<Longrightarrow> x < 2 ^ 64 \<Longrightarrow> to_f64 x = Finite x" by (simp add: to_f64_def)
qed

lemma strip_suffix_digits:
  assumes "\<forall>c\<in>set p. \<not> is_digit c"
  shows "strip_suffix p (show_nat n @ v) = map_option ((@) (show_nat n)) (strip_suffix p v)"
proof (cases "length p \<le> length v")
  case True
  then show ?thesis by (simp add: strip_suffix_def)
next
  case False
  let ?s = "show_nat n"
  have "drop (length ?s + length v - length p) (?s @ v) \<noteq> p" if "length p \<le> length ?s + length v"
  proof
    assume "drop (length ?s + length v - length p) (?s @ v) = p"
    then have eq: "drop (length ?s + length v - length p) ?s @ v = p" using False by (simp add: drop_append)
    have "drop (length ?s + length v - length p) ?s \<noteq> []" using False that by simp
    then obtain c where "c \<in> set (drop (length ?s + length v - length p) ?s)" by (metis list.set_sel(1))
    then have "c \<in> set ?s" "c \<in> set p" using eq in_set_dropD by (metis, metis Un_iff set_append)
    then show False using assms show_nat_digits [of n] by blast
  qed
  then show ?thesis using False by (simp add: strip_suffix_def)
qed

lemma digit_facts: "is_digit c \<Longrightarrow> ascii_lower c = c" "is_digit c \<Longrightarrow> rate_char c" "is_digit c \<Longrightarrow> c \<noteq> CHR ''-'' \<and> c \<noteq> CHR ''+''"
  by (auto simp: is_digit_def ascii_lower_def rate_char_def Let_def)

lemma split_once_absent: "c \<notin> set s \<Longrightarrow> str_split_once c s = None"
  by (induction s) auto

lemma not_in_digits: "\<not> is_digit c \<Longrightarrow> c \<notin> set (show_nat n)"
  using show_nat_digits by blast

lemma lower_digits: "to_ascii_lowercase (show_nat n) = show_nat n"
  using show_nat_digits [of n] by (auto simp: to_ascii_lowercase_def digit_facts intro: map_idI)

lemma no_sign: "split_sign (show_nat n) = (False, show_nat n)"
proof -
  obtain c cs where "show_nat n = c # cs" by (meson neq_Nil_conv show_nat_nonempty)
  then show ?thesis using show_nat_digits [of n] digit_facts(3) [of c] by (simp add: split_sign_def)
qed

lemma not_a_word: "show_nat n \<notin> set [''inf'', ''infinity'', ''nan'']"
proof -
  have "\<not> is_digit (CHR ''n'')" by (simp add: is_digit_def)
  then show ?thesis using not_in_digits [of "CHR ''n''" n] by auto
qed

lemma parse_digits:
  assumes "n < 2 ^ 64"
  shows "parse_f64 (show_nat n) = Some (Finite (of_nat n))"
proof -
  have "\<not> is_digit (CHR ''e'')" "\<not> is_digit (CHR ''.'')" by (simp_all add: is_digit_def)
  then have "str_split_once (CHR ''e'') (show_nat n) = None" "str_split_once (CHR ''.'') (show_nat n) = None"
    by (simp_all add: split_once_absent not_in_digits)
  moreover have "(of_nat n :: rat) < 2 ^ 64" using assms by (metis of_nat_less_iff of_nat_numeral of_nat_power)
  ultimately show ?thesis
    using not_a_word [of n] show_nat_digits [of n]
    by (simp add: parse_f64_def no_sign lower_digits decimal_val_def all_digits_def small_f64)
qed

lemma literal_not_digit:
  "\<forall>c\<in>set ''bps''. \<not> is_digit c" "\<forall>c\<in>set ''/sec''. \<not> is_digit c" "\<forall>c\<in>set ''/s''. \<not> is_digit c"
  by (simp_all add: is_digit_def)

lemma rate_body_digits: "rate_body (show_nat n @ v) = map_prod ((@) (show_nat n)) id (rate_body v)"
  by (simp add: rate_body_def strip_suffix_digits [OF literal_not_digit(1)] strip_suffix_digits [OF literal_not_digit(2)]
      strip_suffix_digits [OF literal_not_digit(3)] split: option.split)

definition plain :: "string \<Rightarrow> bool" where
  "plain s = (\<forall>c\<in>set s. \<not> ascii_ws c)"

lemma parse_rate:
  assumes n: "n < 2 ^ 64" and u: "plain u" "rate_body (to_ascii_lowercase u) = (v, bits)" "plain v"
    and v: "v = [] \<or> \<not> rate_char (hd v)" and m: "unit_mult (if bits then v else byte_unit v) = Some m"
  shows "parse_byte_rate (show_nat n @ u) = Inr (round_u64 (if bits then of_nat n * m / 8 else of_nat n * m))"
proof -
  have trim: "str_trim (show_nat n @ s) = show_nat n @ s" if "plain s" for s
    using that show_nat_no_ws [of n] by (intro str_trim_plain) (auto simp: plain_def)
  have trim': "str_trim s = s" if "plain s" for s using that by (intro str_trim_plain) (simp add: plain_def)
  have lower: "to_ascii_lowercase (show_nat n @ u) = show_nat n @ to_ascii_lowercase u"
    using lower_digits [of n] by (simp add: to_ascii_lowercase_def)
  have digits: "\<forall>c\<in>set (show_nat n). rate_char c" using show_nat_digits [of n] digit_facts(2) by blast
  have take: "takeWhile rate_char (show_nat n @ v) = show_nat n" "dropWhile rate_char (show_nat n @ v) = v"
    using digits v by (cases v; simp add: takeWhile_append2 dropWhile_append2)+
  have num: "str_trim (show_nat n) = show_nat n" using trim [of "[]"] by (simp add: plain_def)
  show ?thesis
    using n m
    by (simp add: parse_byte_rate_def trim [OF u(1)] lower rate_body_digits u(2) trim [OF u(3)] take num
        trim' [OF u(3)] parse_digits Let_def split: if_splits)
qed

lemma round_nat: "round_u64 (of_nat k) = (if k < 2 ^ 64 then of_nat k else - 1)"
proof -
  have "\<lfloor>(of_nat k :: rat) + 1 / 2\<rfloor> = int k" by (simp add: floor_eq_iff)
  moreover have "(2 ^ 64 \<le> int k) = (\<not> k < 2 ^ 64)" by (metis not_le of_nat_le_iff of_nat_numeral of_nat_power)
  ultimately show ?thesis by (simp add: round_u64_def)
qed

lemma round_eighth: "n < 2 ^ 64 \<Longrightarrow> round_u64 (of_nat n / 8) = of_nat ((n + 4) div 8)"
proof -
  assume n: "n < 2 ^ 64"
  have "(of_nat n :: rat) / 8 + 1 / 2 = of_nat (n + 4) / of_nat 8" by (simp add: add_divide_distrib)
  then have fl: "\<lfloor>(of_nat n :: rat) / 8 + 1 / 2\<rfloor> = int ((n + 4) div 8)" by (metis floor_divide_of_nat_eq)
  have "(n + 4) div 8 < 2 ^ 64" using n by simp
  then have "\<not> 2 ^ 64 \<le> int ((n + 4) div 8)" by (metis not_le of_nat_le_iff of_nat_numeral of_nat_power)
  moreover have "\<not> int k < 0" for k by simp
  ultimately show ?thesis unfolding round_u64_def Let_def fl by (simp only: if_False of_int_of_nat_eq)
qed

text \<open>The usual units, with the bytes per second of one.\<close>

definition rate_units :: "(string \<times> nat) list" where
  "rate_units =
     [('''', 1), (''B/s'', 1), (''bytes'', 1), (''KB/s'', 10 ^ 3), (''KiB/s'', 2 ^ 10), (''MB/s'', 10 ^ 6), (''MB/sec'', 10 ^ 6),
      (''MiB/s'', 2 ^ 20), (''GB'', 10 ^ 9), (''GiB/s'', 2 ^ 30), (''TB/s'', 10 ^ 12), (''TiB/s'', 2 ^ 40),
      (''Kbps'', 125), (''Mbps'', 125000), (''Gbps'', 125000000)]"

definition unit_ok :: "string \<Rightarrow> rat \<Rightarrow> bool" where
  "unit_ok u m =
     (plain u \<and> (case rate_body (to_ascii_lowercase u) of (v, bits) \<Rightarrow>
        plain v \<and> (v = [] \<or> \<not> rate_char (hd v)) \<and> unit_mult (if bits then v else byte_unit v) = Some (if bits then m * 8 else m)))"

lemma parse_unit:
  assumes "n < 2 ^ 64" "unit_ok u m"
  shows "parse_byte_rate (show_nat n @ u) = Inr (round_u64 (of_nat n * m))"
proof -
  obtain v bits where r: "rate_body (to_ascii_lowercase u) = (v, bits)" by (metis surj_pair)
  show ?thesis
    using assms(2) parse_rate [OF assms(1) _ r, of "if bits then m * 8 else m"] unfolding unit_ok_def r by (simp split: if_splits)
qed

lemma unit_letters:
  "ascii_lower (CHR ''K'') = CHR ''k''" "ascii_lower (CHR ''M'') = CHR ''m''" "ascii_lower (CHR ''G'') = CHR ''g''" "ascii_lower (CHR ''T'') = CHR ''t''" "ascii_lower (CHR ''B'') = CHR ''b''"
  "ascii_lower (CHR ''i'') = CHR ''i''" "ascii_lower (CHR ''p'') = CHR ''p''" "ascii_lower (CHR ''s'') = CHR ''s''"
  "ascii_lower (CHR ''e'') = CHR ''e''" "ascii_lower (CHR ''c'') = CHR ''c''" "ascii_lower (CHR ''b'') = CHR ''b''" "ascii_lower (CHR ''y'') = CHR ''y''" "ascii_lower (CHR ''t'') = CHR ''t''" "ascii_lower (CHR ''/'') = CHR ''/''"
  by code_simp+

lemmas unit_eval = unit_letters unit_ok_def plain_def ascii_ws_def to_ascii_lowercase_def rate_body_def strip_suffix_def
  byte_unit_def unit_mult_def rate_char_def is_digit_def Let_def

lemma rate_units_ok: "\<forall>(u, k)\<in>set rate_units. unit_ok u (of_nat k)"
  unfolding rate_units_def list.set ball_simps prod.case by (intro conjI; simp add: unit_eval)

text \<open>
  A byte rate is read exactly: a whole number with any of the units is the product in bytes per
  second, saturated at the largest \<open>u64\<close>, and plain bits are eighths rounded half up.
\<close>

theorem byte_rates_exact:
  assumes "n < 2 ^ 64"
  shows "(\<forall>(u, k)\<in>set rate_units. parse_byte_rate (show_nat n @ u) = Inr (if n * k < 2 ^ 64 then of_nat (n * k) else - 1))
    \<and> parse_byte_rate (show_nat n @ ''bps'') = Inr (of_nat ((n + 4) div 8))"
proof (intro conjI ballI, clarify)
  fix u k
  assume "(u, k) \<in> set rate_units"
  then have "unit_ok u (of_nat k)" using rate_units_ok by blast
  then have "parse_byte_rate (show_nat n @ u) = Inr (round_u64 (of_nat (n * k)))"
    using parse_unit [OF assms] by simp
  then show "parse_byte_rate (show_nat n @ u) = Inr (if n * k < 2 ^ 64 then of_nat (n * k) else - 1)"
    unfolding round_nat .
next
  have "unit_ok ''bps'' (1 / 8)" by (simp add: unit_eval)
  then show "parse_byte_rate (show_nat n @ ''bps'') = Inr (of_nat ((n + 4) div 8))"
    using parse_unit [OF assms, of "''bps''" "1 / 8"] round_eighth [OF assms] by simp
qed

theorem byte_rates_exact_witness:
  "parse_byte_rate ''20MB/s'' = Inr 20000000 \<and> parse_byte_rate ''5Mbps'' = Inr 625000"
proof -
  have n: "show_nat 20 = ''20''" "show_nat 5 = ''5''" by code_simp+
  have m: "(''MB/s'', 10 ^ 6) \<in> set rate_units" "(''Mbps'', 125000) \<in> set rate_units" by (simp_all add: rate_units_def)
  have "parse_byte_rate (show_nat 20 @ ''MB/s'') = Inr 20000000" using byte_rates_exact [of 20, THEN conjunct1] m(1) by force
  moreover have "parse_byte_rate (show_nat 5 @ ''Mbps'') = Inr 625000"
    using byte_rates_exact [of 5, THEN conjunct1] m(2) by force
  ultimately show ?thesis by (simp add: n)
qed

text \<open>
  A configured limit below half a byte per second is no limit at all: its rate rounds to zero,
  which the bucket takes for unlimited, so that no request ever waits.
\<close>

theorem tiny_rate_is_no_limit:
  "parse_byte_rate ''3bps'' = Inr 0 \<and> (\<forall>t now n. fst (bucket_acquire (bucket_new 0 t) now n) = 0)"
proof
  have "show_nat 3 = ''3''" by code_simp
  moreover have "unit_ok ''bps'' (1 / 8)" by (simp add: unit_eval)
  ultimately show "parse_byte_rate ''3bps'' = Inr 0"
    using parse_unit [of 3 "''bps''" "1 / 8"] round_eighth [of 3] by simp
qed (simp add: bucket_acquire_def)

end
