(* ===== verification/Assembly.thy ===== *)
theory Assembly
  imports Config Ratelimit Admission
begin

text \<open>
  The assembly of an instance (\<open>build\<close> and \<open>build_with_dests\<close> in \<open>src/instance/mod.rs\<close>): from its
  configuration and the component-wide settings to the worker, the queue, the watcher, the schedule
  and the governors it runs on; the duration parser of the retry policy; and the run loop.

  Arguments are the libraries of the parsers (cron, globs), the clients of the destinations, the
  orders the scheduler picks, the two clock readings (\<open>utc\<close> and the monotonic instant) and what the
  store answered to \<open>load_activation\<close>. The error texts are kept as the cause, without the prefix that
  names the instance.
\<close>

section \<open>Durations\<close>

definition duration_suffix :: "string \<Rightarrow> string \<times> rat" where
  "duration_suffix s =
     (case strip_suffix ''ms'' s of
        Some x \<Rightarrow> (x, 1)
      | None \<Rightarrow> (case strip_suffix ''s'' s of
          Some x \<Rightarrow> (x, 1000)
        | None \<Rightarrow> (case strip_suffix ''m'' s of
            Some x \<Rightarrow> (x, 60000)
          | None \<Rightarrow> (case strip_suffix ''h'' s of
              Some x \<Rightarrow> (x, 3600000)
            | None \<Rightarrow> (case strip_suffix ''d'' s of
                Some x \<Rightarrow> (x, 86400000)
              | None \<Rightarrow> (s, 1))))))"

definition parse_duration_ms :: "string \<Rightarrow> u64 option" where
  "parse_duration_ms input =
     (let s = to_ascii_lowercase (str_trim input) in
      if s = [] then None
      else (case duration_suffix s of (num, mult) \<Rightarrow>
        (case parse_f64 (str_trim num) of
           Some (Finite v) \<Rightarrow> if v < 0 then None else Some (round_u64 (v * mult))
         | _ \<Rightarrow> None)))"

section \<open>The parts of an instance\<close>

datatype build_error =
    NoDestination
  | BadEgress repl_error
  | BadSchedule schedule_error
  | BadGlob
  | BadBandwidth string
  | ActivationUnread repl_error

definition schedule_mode :: "schedule_cfg \<Rightarrow> string" where
  "schedule_mode s =
     (case s of CfgImmediate \<Rightarrow> ''immediate'' | CfgCron _ \<Rightarrow> ''cron'' | CfgWindow _ \<Rightarrow> ''window'')"

definition readiness_strategy_name :: "readiness_cfg \<Rightarrow> string" where
  "readiness_strategy_name r =
     (case r of CfgStability _ \<Rightarrow> ''stability'' | CfgMarker _ \<Rightarrow> ''marker'' | CfgRename \<Rightarrow> ''rename''
      | CfgGlob _ \<Rightarrow> ''glob'')"

definition default_per_instance_concurrency :: u64 where
  "default_per_instance_concurrency = 4"

definition default_rescan_secs :: u64 where
  "default_rescan_secs = 30"

text \<open>The directories that discovery leaves out: the configured ones and local output under the root.\<close>

definition skip_dirs :: "instance_cfg \<Rightarrow> path list" where
  "skip_dirs cfg =
     (case co_archive_dir (cf_completion cfg) of None \<Rightarrow> [] | Some d \<Rightarrow> [d])
     @ (case co_failed_dir (cf_completion cfg) of None \<Rightarrow> [] | Some d \<Rightarrow> [d])
     @ concat (List.map (\<lambda>e. case e of
                 EgLocal l \<Rightarrow> if path_starts_with (le_path l) (ig_path (cf_ingress cfg)) then [le_path l] else []
               | _ \<Rightarrow> []) (cf_egress cfg))"

definition watcher_from_cfg ::
  "(string \<Rightarrow> (string \<Rightarrow> bool) option) \<Rightarrow> ingress_cfg \<Rightarrow> path list \<Rightarrow> watcher option" where
  "watcher_from_cfg glob ing skip =
     Option.bind (glob_new glob (ig_include ing)) (\<lambda>inc.
     Option.bind (glob_new glob (ig_exclude ing)) (\<lambda>exc.
     map_option (\<lambda>s.
       \<lparr>wa_scan = \<lparr>sc_root = ig_path ing, sc_recursive = ig_recursive ing, sc_include = inc, sc_exclude = exc,
                   sc_skip = skip\<rparr>, wa_strategy = s\<rparr>)
       (strategy_from_cfg glob (ig_readiness ing))))"

definition per_limit :: "instance_cfg \<Rightarrow> global_cfg \<Rightarrow> u64" where
  "per_limit cfg glob =
     max (unwrap_or (or_opt (Option.bind (cf_limits cfg) li_max_concurrent_files)
                        (Option.bind (gc_limits glob) li_max_concurrent_files)) default_per_instance_concurrency) 1"

text \<open>A configured rate, or 0 when there is none.\<close>

definition limit_rate :: "limits_cfg option \<Rightarrow> string + u64" where
  "limit_rate l =
     (case Option.bind l li_max_bandwidth of None \<Rightarrow> Inr 0 | Some s \<Rightarrow> parse_byte_rate s)"

definition instance_retry :: "instance_cfg \<Rightarrow> global_cfg \<Rightarrow> retry_policy" where
  "instance_retry cfg glob =
     retry_resolve parse_duration_ms (cf_retry cfg) (Option.bind (gc_defaults glob) gl_retry)"

definition instance_rescan_secs :: "instance_cfg \<Rightarrow> u64" where
  "instance_rescan_secs cfg = max (unwrap_or (ig_rescan_secs (cf_ingress cfg)) default_rescan_secs) 1"

section \<open>The instance\<close>

record ('h, 'tz) build_env =
  be_cron :: "'tz cron_lib"
  be_utc :: utc
  be_instant :: rat
  be_glob :: "string \<Rightarrow> (string \<Rightarrow> bool) option"
  be_digests :: "'h digests"
  be_tag :: "work_item \<Rightarrow> u64"
  be_cancel :: "nat option"
  be_features :: dest_features
  be_clients :: dest_clients
  be_deps :: dest_deps
  be_platform :: platform
  be_serialize :: "json \<Rightarrow> bytes"
  be_dest_order :: "dest_slot list \<Rightarrow> dest_slot list"
  be_batch_order :: "work_item list \<Rightarrow> work_item list"

text \<open>What an instance holds beside its engine: the governors and what it reports about itself.\<close>

record 'h live_instance =
  in_engine :: "'h inst_cfg"
  in_state :: inst_state
  in_dest_kind :: string
  in_schedule_mode :: string
  in_readiness_strategy :: string
  in_rescan_secs :: u64
  in_bandwidth :: bandwidth
  in_priority :: int

abbreviation in_id :: "'h live_instance \<Rightarrow> string" where
  "in_id x \<equiv> ic_id (in_engine x)"

definition lift_err :: "('e \<Rightarrow> 'f) \<Rightarrow> 'e + 'a \<Rightarrow> 'f + 'a" where
  "lift_err f r = (case r of Inl e \<Rightarrow> Inl (f e) | Inr x \<Rightarrow> Inr x)"

definition build_with_dests ::
  "('h, 'tz) build_env \<Rightarrow> global_cfg \<Rightarrow> token_bucket \<Rightarrow> activation_info option res \<Rightarrow> destination list \<Rightarrow> instance_cfg
   \<Rightarrow> build_error + 'h live_instance" where
  "build_with_dests E glob global_bw stored dests cfg =
     (if dests = [] then Inl NoDestination
      else bind_res (lift_err BadSchedule
             (from_cfg (be_cron E) (be_utc E) (cf_schedule cfg) (Option.bind (gc_defaults glob) gl_timezone))) (\<lambda>sched.
      case watcher_from_cfg (be_glob E) (cf_ingress cfg) (skip_dirs cfg) of
        None \<Rightarrow> Inl BadGlob
      | Some wt \<Rightarrow>
      bind_res (lift_err BadBandwidth (limit_rate (cf_limits cfg))) (\<lambda>rate.
      bind_res (lift_err ActivationUnread stored) (\<lambda>act.
      Inr \<lparr>in_engine =
             \<lparr>ic_worker = new_multi (cf_id cfg) dests (cf_completion cfg) (ig_path (cf_ingress cfg))
                (instance_retry cfg glob) (be_digests E) (be_platform E) (be_serialize E) (be_dest_order E),
              ic_per_limit = per_limit cfg glob, ic_schedule = sched, ic_config_enabled = cf_enabled cfg,
              ic_supports_resume = list_all d_supports_resume dests, ic_watch = wa_scan wt,
              ic_batch_order = be_batch_order E\<rparr>,
           in_state = \<lparr>is_active = (case act of Some a \<Rightarrow> av_active a | None \<Rightarrow> cf_enabled cfg),
              is_strategy = wa_strategy wt, is_last_fire = None, is_window_open = False, is_perm = []\<rparr>,
           in_dest_kind = str_join ''+'' (List.map d_kind dests),
           in_schedule_mode = schedule_mode (cf_schedule cfg),
           in_readiness_strategy = readiness_strategy_name (ig_readiness (cf_ingress cfg)),
           in_rescan_secs = instance_rescan_secs cfg,
           in_bandwidth = bandwidth_new (bucket_new rate (be_instant E)) global_bw,
           in_priority = cf_priority cfg\<rparr>))))"

definition build_with_dest ::
  "('h, 'tz) build_env \<Rightarrow> global_cfg \<Rightarrow> token_bucket \<Rightarrow> activation_info option res \<Rightarrow> destination \<Rightarrow> instance_cfg
   \<Rightarrow> build_error + 'h live_instance" where
  "build_with_dest E glob global_bw stored d cfg = build_with_dests E glob global_bw stored [d] cfg"

definition build_instance ::
  "('h, 'tz) build_env \<Rightarrow> global_cfg \<Rightarrow> token_bucket \<Rightarrow> activation_info option res \<Rightarrow> instance_cfg
   \<Rightarrow> build_error + 'h live_instance" where
  "build_instance E glob global_bw stored cfg =
     bind_res (lift_err BadEgress
       (instance_destinations (be_digests E) (be_tag E) (be_cancel E) (be_features E) (be_clients E) (be_deps E)
          (cf_egress cfg))) (\<lambda>dests.
     build_with_dests E glob global_bw stored dests cfg)"

section \<open>The run loop\<close>

text \<open>
  Recovery, one sweep, then a sweep per wake-up until the cancellation. Why the loop woke up (the
  rescan interval, a file event, an edge of the schedule, a recheck of an unstable file) does not
  matter to the sweep; each brings the clock and what the tick sees. The value
  \<open>None\<close> says that the claim loop of a tick ran out of its fuel.
\<close>

datatype wake = Rescan | Nudge | ScheduleEdge | Recheck

fun run_wakes :: "'h inst_cfg \<Rightarrow> (wake \<times> i64 \<times> tick_env) list \<Rightarrow> inst_state \<Rightarrow> inst_state option act" where
  "run_wakes I [] st = ret (Some st)"
| "run_wakes I ((_, now, env) # ws) st =
     bnd (run_tick I now tick_default env st) (\<lambda>r.
       case r of None \<Rightarrow> ret None | Some st' \<Rightarrow> run_wakes I ws st')"

definition run_instance ::
  "'h inst_cfg \<Rightarrow> i64 \<Rightarrow> i64 \<times> tick_env \<Rightarrow> (wake \<times> i64 \<times> tick_env) list \<Rightarrow> inst_state \<Rightarrow> inst_state option act" where
  "run_instance I started first ws st =
     seqn (recover (ic_worker I) started)
       (bnd (run_tick I (fst first) tick_default (snd first) st) (\<lambda>r.
          case r of None \<Rightarrow> ret None | Some st' \<Rightarrow> run_wakes I ws st'))"

text \<open>The delay of the recheck, in nanoseconds, when a file is inside its stability window.\<close>

definition recheck_delay :: "u64 \<Rightarrow> nat option \<Rightarrow> nat option" where
  "recheck_delay rescan_secs pending =
     map_option (clamp_nat (100 * 1000000) (unat rescan_secs * 1000000000)) pending"

end
