(* ===== verification/Assembly_Properties.thy ===== *)
theory Assembly_Properties
  imports Assembly
begin

text \<open>
  What holds of every instance that \<open>build\<close> assembles, whatever its configuration.
\<close>

section \<open>What an assembled instance keeps\<close>

lemma lift_err_ok [simp]: "lift_err f r = Inr y \<longleftrightarrow> r = Inr y"
  by (cases r) (simp_all add: lift_err_def)

lemma built_with:
  assumes "build_with_dests E glob bw stored dests cfg = Inr x"
  obtains sched wt rate act where
    "dests \<noteq> []"
    "from_cfg (be_cron E) (be_utc E) (cf_schedule cfg) (Option.bind (gc_defaults glob) gl_timezone) = Inr sched"
    "watcher_from_cfg (be_glob E) (cf_ingress cfg) (skip_dirs cfg) = Some wt"
    "limit_rate (cf_limits cfg) = Inr rate" "stored = Inr act"
    "ic_watch (in_engine x) = wa_scan wt" "is_strategy (in_state x) = wa_strategy wt"
    "ic_per_limit (in_engine x) = per_limit cfg glob" "in_rescan_secs x = instance_rescan_secs cfg"
    "wo_retry (ic_worker (in_engine x)) = instance_retry cfg glob"
    "is_active (in_state x) = (case act of Some a \<Rightarrow> av_active a | None \<Rightarrow> cf_enabled cfg)"
    "in_bandwidth x = bandwidth_new (bucket_new rate (be_instant E)) bw" "in_id x = cf_id cfg"
    "in_priority x = cf_priority cfg" "ic_config_enabled (in_engine x) = cf_enabled cfg"
    "wo_ingress_root (ic_worker (in_engine x)) = ig_path (cf_ingress cfg)"
    "wo_completion (ic_worker (in_engine x)) = cf_completion cfg"
  using assms
  by (auto simp: build_with_dests_def bind_ok new_multi_def split: if_splits option.splits)

lemma built_from:
  assumes "build_instance E glob bw stored cfg = Inr x"
  obtains dests where "build_with_dests E glob bw stored dests cfg = Inr x"
    "instance_destinations (be_digests E) (be_tag E) (be_cancel E) (be_features E) (be_clients E) (be_deps E)
       (cf_egress cfg) = Inr dests"
  using assms by (auto simp: build_instance_def bind_ok)

lemma watcher_skips: "watcher_from_cfg glob ing skip = Some wt \<Longrightarrow> sc_skip (wa_scan wt) = skip \<and> sc_root (wa_scan wt) = ig_path ing"
  by (auto simp: watcher_from_cfg_def bind_eq_Some_conv)

lemma discovered_unskipped:
  assumes "discover_report now probe d w = (rp, w')" "c \<in> set (sr_ready rp)"
  shows "\<not> skipped (wa_scan w) (ca_abs c)"
proof -
  obtain s' where "judge now probe (sc_exclude (wa_scan w)) (fst (scan (wa_scan w) d)) (wa_strategy w)
      \<lparr>sr_ready = [], sr_issues = snd (scan (wa_scan w) d), sr_discovered = length (fst (scan (wa_scan w) d)), sr_ignored = 0\<rparr>
      = (rp, s')"
    using assms(1) by (auto simp: discover_report_def split: prod.splits)
  from judge_counts [OF this] show ?thesis using assms(2) scan_unskipped by auto
qed

text \<open>The persisted override decides, else the configuration.\<close>

lemma built_active:
  assumes "build_instance E glob bw (Inr act) cfg = Inr x"
  shows "is_active (in_state x) = (case act of Some a \<Rightarrow> av_active a | None \<Rightarrow> cf_enabled cfg)"
proof -
  obtain dests where "build_with_dests E glob bw (Inr act) dests cfg = Inr x" by (rule built_from [OF assms])
  then show ?thesis by (rule built_with) simp
qed

text \<open>The directories an instance writes to below the root it watches.\<close>

definition own_output :: "instance_cfg \<Rightarrow> path \<Rightarrow> bool" where
  "own_output cfg p =
     (\<exists>d. path_starts_with p d
        \<and> (co_archive_dir (cf_completion cfg) = Some d \<or> co_failed_dir (cf_completion cfg) = Some d
           \<or> (\<exists>l. EgLocal l \<in> set (cf_egress cfg) \<and> d = le_path l
                \<and> path_starts_with d (ig_path (cf_ingress cfg)))))"

lemma own_output_skipped:
  "sc_skip sc = skip_dirs cfg \<Longrightarrow> own_output cfg p \<longleftrightarrow> skipped sc p"
  unfolding own_output_def skipped_def
  by (force simp: skip_dirs_def split: option.splits egress_cfg.splits if_splits)

text \<open>
  C22. An instance never takes up its own output. Whatever the tree holds and whatever the readiness
  strategy says, no file that discovery hands to the queue lies in the archive directory, in the
  quarantine directory, or in a local destination below the watched root, and a file that such a
  destination publishes is never discovered again; so no delivery nests into the next one.
\<close>

theorem own_output_never_discovered:
  assumes "build_instance E glob bw stored cfg = Inr x"
    "discover_report now probe d \<lparr>wa_scan = ic_watch (in_engine x), wa_strategy = s\<rparr> = (rp, w')"
    "c \<in> set (sr_ready rp)"
  shows "\<not> own_output cfg (ca_abs c)
    \<and> (\<forall>l it. EgLocal l \<in> set (cf_egress cfg) \<and> path_starts_with (le_path l) (ig_path (cf_ingress cfg))
         \<longrightarrow> ca_abs c \<noteq> final_path (local_new (le_path l) (le_fsync l) AlgCrc32c) it)"
proof -
  obtain dests where "build_with_dests E glob bw stored dests cfg = Inr x" by (rule built_from [OF assms(1)])
  then obtain wt where wt: "watcher_from_cfg (be_glob E) (cf_ingress cfg) (skip_dirs cfg) = Some wt"
    "ic_watch (in_engine x) = wa_scan wt"
    by (rule built_with)
  then have "sc_skip (ic_watch (in_engine x)) = skip_dirs cfg" using watcher_skips by simp
  then have none: "\<not> own_output cfg (ca_abs c)"
    using discovered_unskipped [OF assms(2,3)] own_output_skipped by simp
  have "own_output cfg (final_path (local_new (le_path l) (le_fsync l) AlgCrc32c) it)"
    if "EgLocal l \<in> set (cf_egress cfg)" "path_starts_with (le_path l) (ig_path (cf_ingress cfg))" for l it
    using that by (auto simp: own_output_def final_path_def local_new_def join_rel_def path_starts_with_def
        intro!: exI [of _ "le_path l"])
  then show ?thesis using none by metis
qed

text \<open>
  No configuration value stops an instance. Whatever the numbers of its configuration and of the
  global settings are, an assembled instance may claim at least one file at a time, waits at least a
  second between rescans, and retries with a base delay of at least a millisecond and a cap no lower
  than the base; it starts active exactly when the persisted override, or without one the
  configuration, says so.
\<close>

theorem assembled_instance_can_work:
  assumes "build_instance E glob bw (Inr act) cfg = Inr x"
  shows "1 \<le> ic_per_limit (in_engine x) \<and> 1 \<le> in_rescan_secs x
    \<and> 1 \<le> base_delay_ms (wo_retry (ic_worker (in_engine x)))
    \<and> base_delay_ms (wo_retry (ic_worker (in_engine x))) \<le> max_delay_ms (wo_retry (ic_worker (in_engine x)))
    \<and> (is_active (in_state x) \<longleftrightarrow> (case act of Some a \<Rightarrow> av_active a | None \<Rightarrow> cf_enabled cfg))"
proof -
  obtain dests where "build_with_dests E glob bw (Inr act) dests cfg = Inr x" by (rule built_from [OF assms])
  then show ?thesis
    by (rule built_with) (simp add: per_limit_def instance_rescan_secs_def instance_retry_def retry_resolve_def Let_def)
qed

section \<open>An assembled instance\<close>

definition ex_build_env :: "(u32, unit) build_env" where
  "ex_build_env =
     \<lparr>be_cron = \<lparr>cl_zone = (\<lambda>_. None), cl_cron = (\<lambda>_ _. None)\<rparr>, be_utc = 0, be_instant = 0, be_glob = (\<lambda>p. Some (\<lambda>s. s = p)),
      be_digests = sum_digests, be_tag = (\<lambda>_. 7), be_cancel = None, be_features = ex_features, be_clients = down_clients,
      be_deps = \<lparr>dd_vault = None, dd_credentials = None, dd_store = False\<rparr>, be_platform = PUnix, be_serialize = (\<lambda>_. []),
      be_dest_order = (\<lambda>ss. ss), be_batch_order = (\<lambda>its. its)\<rparr>"

text \<open>A local destination below the watched root, and no concurrency to speak of.\<close>

definition ex_nested :: instance_cfg where
  "ex_nested =
     \<lparr>cf_id = ''a'', cf_enabled = True,
      cf_ingress = \<lparr>ig_path = [''data''], ig_recursive = True, ig_include = [], ig_exclude = [], ig_rescan_secs = Some 0,
                    ig_readiness = CfgRename\<rparr>,
      cf_egress = [EgLocal \<lparr>le_path = [''data'', ''out''], le_fsync = True\<rparr>], cf_schedule = CfgImmediate,
      cf_completion = completion_default, cf_retry = None,
      cf_limits = Some \<lparr>li_max_concurrent_files = Some 0, li_max_bandwidth = None\<rparr>,
      cf_on_permission_error = None, cf_priority = 100\<rparr>"

definition ex_tree_nested :: fs_dir where
  "ex_tree_nested = Entries [Entry ''a'' (NFile (Some (3, 5))), Entry ''out'' (NDir (Entries [Entry ''a'' (NFile None)]))]"

definition ex_live :: "u32 live_instance" where
  "ex_live = (case build_instance ex_build_env global_default (bucket_new 0 0) (Inr None) ex_nested of Inr x \<Rightarrow> x)"

lemma ex_live_built: "build_instance ex_build_env global_default (bucket_new 0 0) (Inr None) ex_nested = Inr ex_live"
proof -
  have "\<exists>x. build_instance ex_build_env global_default (bucket_new 0 0) (Inr None) ex_nested = Inr x"
    by (simp add: build_instance_def build_with_dests_def ex_build_env_def ex_nested_def instance_destinations_def
        build_destination_def from_cfg_def watcher_from_cfg_def glob_new_def strategy_from_cfg_def limit_rate_def lift_err_def)
  then show ?thesis by (auto simp: ex_live_def)
qed

lemma ex_live_watch:
  "ic_watch (in_engine ex_live) =
     \<lparr>sc_root = [''data''], sc_recursive = True, sc_include = \<lparr>gm_match = (\<lambda>_. False), gm_count = 0\<rparr>,
      sc_exclude = \<lparr>gm_match = (\<lambda>_. False), gm_count = 0\<rparr>, sc_skip = [[''data'', ''out'']]\<rparr>"
proof -
  obtain dests where "build_with_dests ex_build_env global_default (bucket_new 0 0) (Inr None) dests ex_nested = Inr ex_live"
    by (rule built_from [OF ex_live_built])
  then obtain wt where "watcher_from_cfg (be_glob ex_build_env) (cf_ingress ex_nested) (skip_dirs ex_nested) = Some wt"
    "ic_watch (in_engine ex_live) = wa_scan wt"
    by (rule built_with)
  then show ?thesis
    by (auto simp: watcher_from_cfg_def ex_nested_def glob_new_def strategy_from_cfg_def skip_dirs_def completion_default_def
        path_starts_with_def)
qed

theorem own_output_never_discovered_witness:
  "\<exists>rp w' c. discover_report 9 \<lparr>rp_observe = (\<lambda>_. Inl enoent), rp_marker_exists = (\<lambda>_. True)\<rparr> ex_tree_nested
       \<lparr>wa_scan = ic_watch (in_engine ex_live), wa_strategy = RRename\<rparr> = (rp, w')
     \<and> sr_ready rp = [c] \<and> ca_abs c = [''data'', ''a''] \<and> \<not> own_output ex_nested (ca_abs c)"
proof -
  let ?p = "\<lparr>rp_observe = (\<lambda>_. Inl enoent), rp_marker_exists = (\<lambda>_. True)\<rparr>"
    and ?w = "\<lparr>wa_scan = ic_watch (in_engine ex_live), wa_strategy = RRename\<rparr>"
  have "\<exists>rp w' c. discover_report 9 ?p ex_tree_nested ?w = (rp, w') \<and> sr_ready rp = [c] \<and> ca_abs c = [''data'', ''a'']"
    by (simp add: ex_live_watch ex_tree_nested_def discover_report_def scan_def scan_entry_def skipped_def path_starts_with_def
        rel_key_def to_str_ok_def select_def mk_candidate_def is_ready_def rename_ready_def Let_def)
  then obtain rp w' c where run: "discover_report 9 ?p ex_tree_nested ?w = (rp, w')" "sr_ready rp = [c]"
    "ca_abs c = [''data'', ''a'']" by blast
  then show ?thesis using own_output_never_discovered [OF ex_live_built run(1), of c] by auto
qed

theorem assembled_instance_can_work_witness:
  "1 \<le> ic_per_limit (in_engine ex_live) \<and> 1 \<le> in_rescan_secs ex_live \<and> is_active (in_state ex_live)"
  using assembled_instance_can_work [OF ex_live_built] by (simp add: ex_nested_def)

end
