(* ===== verification/App.thy ===== *)
theory App
  imports Assembly
begin

text \<open>
  The application (\<open>src/app.rs\<close>): from the loaded configuration to the instances that start, the ones
  that are disabled and the failures that stop the component. A startup ends in an error or in \<open>app\<close>,
  the state the control plane and the run loops work on.

  The probes of the directories, whether an id is a valid name on the message bus (an instance with an
  invalid one publishes nothing) and what the store answers for an activation are arguments. An event
  carries the instance it is published for, \<open>None\<close> for the component. The store is opened before, metrics
  and log lines are left out.
\<close>

section \<open>Duplicate ids\<close>

fun dedup_from :: "string list \<Rightarrow> instance_cfg list \<Rightarrow> instance_cfg list \<times> string list" where
  "dedup_from seen [] = ([], [])"
| "dedup_from seen (c # cs) =
     (if cf_id c \<in> set seen then (case dedup_from seen cs of (kept_cfgs, dropped) \<Rightarrow> (kept_cfgs, cf_id c # dropped))
      else (case dedup_from (cf_id c # seen) cs of (kept_cfgs, dropped) \<Rightarrow> (c # kept_cfgs, dropped)))"

definition dedup_instance_ids :: "instance_cfg list \<Rightarrow> instance_cfg list \<times> string list" where
  "dedup_instance_ids cfgs = dedup_from [] cfgs"

section \<open>Startup validation\<close>

text \<open>What the probes look at.\<close>

definition probe_cfg :: "instance_cfg \<Rightarrow> validate_cfg" where
  "probe_cfg cfg =
     \<lparr>vc_ingress = path_display (ig_path (cf_ingress cfg)),
      vc_egress = List.map (\<lambda>e. case e of EgLocal l \<Rightarrow> ELocal (path_display (le_path l)) | _ \<Rightarrow> EOther (egress_kind e))
                    (cf_egress cfg),
      vc_archive_dir = map_option path_display (co_archive_dir (cf_completion cfg)),
      vc_failed_dir = map_option path_display (co_failed_dir (cf_completion cfg))\<rparr>"

record disabled_info =
  di_id :: string
  di_reason :: string
  di_role :: string
  di_path :: string

definition disabled_of :: "string \<Rightarrow> violation list \<Rightarrow> disabled_info" where
  "disabled_of i vs =
     \<lparr>di_id = i,
      di_reason = str_join ''; '' (List.map (\<lambda>v. role_as_str (vi_role v) @ '': '' @ vi_path v @ '' ('' @ vi_msg v @ '')'') vs),
      di_role = role_as_str (vi_role (hd vs)), di_path = vi_path (hd vs)\<rparr>"

definition violation_event :: "violation \<Rightarrow> event" where
  "violation_event v = PermissionDeniedEvent (vi_path v) (role_as_str (vi_role v)) (vi_msg v)"

section \<open>Starting the instances\<close>

record ('h, 'tz) app_env =
  ae_build :: "('h, 'tz) build_env"
  ae_probe :: probe_io
  ae_bus_name :: "string \<Rightarrow> bool"
  ae_stored :: "string \<Rightarrow> activation_info option res"
  ae_now :: i64

record 'h startup =
  su_started :: "'h live_instance list"
  su_disabled :: "disabled_info list"
  su_events :: "(string option \<times> event) list"

text \<open>
  \<open>FatalPermission i n ids\<close>: instance \<open>i\<close> has \<open>n\<close> violations under the policy \<open>fatal\<close>; the instances
  \<open>ids\<close> that already ran have been cancelled and awaited.
\<close>

datatype app_error =
    BadGlobalBandwidth string
  | FatalPermission string nat "string list"
  | NothingStarted

definition announce_violations :: "('h, 'tz) app_env \<Rightarrow> instance_cfg \<Rightarrow> violation list \<Rightarrow> 'h startup \<Rightarrow> 'h startup" where
  "announce_violations A cfg vs st =
     (if ae_bus_name A (cf_id cfg)
      then st\<lparr>su_events := su_events st @ List.map (\<lambda>v. (Some (cf_id cfg), violation_event v)) vs\<rparr>
      else st)"

definition seed_instance :: "violation list \<Rightarrow> i64 \<Rightarrow> 'h live_instance \<Rightarrow> 'h live_instance" where
  "seed_instance vs now x = (if vs = [] then x else x\<lparr>in_state := seed_permission_log vs now (in_state x)\<rparr>)"

fun start_each ::
  "('h, 'tz) app_env \<Rightarrow> global_cfg \<Rightarrow> token_bucket \<Rightarrow> instance_cfg list \<Rightarrow> 'h startup \<Rightarrow> app_error + 'h startup" where
  "start_each A glob bw [] st = Inr st"
| "start_each A glob bw (cfg # cfgs) st =
     (let vs = validate_instance (ae_probe A) (probe_cfg cfg);
          st' = announce_violations A cfg vs st in
      case apply_policy (resolve_permission_policy cfg glob) vs of
        PFatal \<Rightarrow> Inl (FatalPermission (cf_id cfg) (length vs) (List.map in_id (su_started st')))
      | PSkip \<Rightarrow> start_each A glob bw cfgs (st'\<lparr>su_disabled := su_disabled st' @ [disabled_of (cf_id cfg) vs]\<rparr>)
      | PStart \<Rightarrow>
          (case build_instance (ae_build A) glob bw (ae_stored A (cf_id cfg)) cfg of
             Inl _ \<Rightarrow> start_each A glob bw cfgs st'
           | Inr x \<Rightarrow>
               start_each A glob bw cfgs (st'\<lparr>su_started := su_started st' @ [seed_instance vs (ae_now A) x]\<rparr>)))"

section \<open>The application\<close>

definition default_global_slots :: u64 where
  "default_global_slots = 64"

definition global_slots :: "global_cfg \<Rightarrow> u64" where
  "global_slots glob = max (unwrap_or (Option.bind (gc_limits glob) li_max_concurrent_files) default_global_slots) 1"

record 'h app =
  app_gate :: gate
  app_bandwidth :: token_bucket
  app_instances :: "'h live_instance list"
  app_disabled :: "disabled_info list"
  app_events :: "(string option \<times> event) list"
  app_source_dirs :: "(string \<times> path) list"

definition no_startup :: "'h startup" where
  "no_startup = \<lparr>su_started = [], su_disabled = [], su_events = []\<rparr>"

definition app_start ::
  "('h, 'tz) app_env \<Rightarrow> (string \<Rightarrow> path) \<Rightarrow> string \<Rightarrow> config_doc \<Rightarrow> app_error + 'h app" where
  "app_start A pb version doc =
     (let cfgs = load_instances pb doc; glob = load_global doc in
      bind_res (lift_err BadGlobalBandwidth (limit_rate (gc_limits glob))) (\<lambda>rate.
      let bw = bucket_new rate (be_instant (ae_build A)); unique = fst (dedup_instance_ids cfgs) in
      bind_res (start_each A glob bw unique no_startup) (\<lambda>st.
      if su_started st = [] then Inl NothingStarted
      else Inr \<lparr>app_gate = gate_new (unat (global_slots glob)), app_bandwidth = bw, app_instances = su_started st,
                app_disabled = su_disabled st,
                app_events = su_events st @ [(None, ComponentReady (of_nat (length (su_started st))) version)],
                app_source_dirs = List.map (\<lambda>c. (cf_id c, ig_path (cf_ingress c))) unique\<rparr>)))"

text \<open>The liveness of the instances: is the watched directory there, with its path.\<close>

definition source_dir_connectivity :: "(path \<Rightarrow> bool) \<Rightarrow> (string \<times> path) list \<Rightarrow> (string \<times> bool \<times> string) list" where
  "source_dir_connectivity is_dir dirs = List.map (\<lambda>(i, p). (i, is_dir p, path_display p)) dirs"

end
