(* ===== verification/App_Properties.thy ===== *)
theory App_Properties
  imports App Assembly_Properties
begin

text \<open>
  What a startup of the application does with every configured instance.
\<close>

section \<open>Distinct ids\<close>

lemma dedup_distinct:
  "distinct (List.map cf_id (fst (dedup_from seen cs)))
   \<and> set seen \<inter> cf_id ` set (fst (dedup_from seen cs)) = {}"
proof (induction cs arbitrary: seen)
  case (Cons c cs)
  then show ?case using Cons.IH [of seen] Cons.IH [of "cf_id c # seen"] by (auto simp: split_beta)
qed simp

lemma dedup_keeps: "cf_id ` set (fst (dedup_from seen cs)) \<union> set seen = cf_id ` set cs \<union> set seen"
proof (induction cs arbitrary: seen)
  case (Cons c cs)
  then show ?case using Cons.IH [of seen] Cons.IH [of "cf_id c # seen"] by (auto simp: split_beta insert_absorb)
qed simp

section \<open>One startup\<close>

definition start_outcome :: "('h, 'tz) app_env \<Rightarrow> global_cfg \<Rightarrow> instance_cfg \<Rightarrow> policy_outcome" where
  "start_outcome A glob cfg =
     apply_policy (resolve_permission_policy cfg glob) (validate_instance (ae_probe A) (probe_cfg cfg))"

definition startable :: "('h, 'tz) app_env \<Rightarrow> global_cfg \<Rightarrow> token_bucket \<Rightarrow> instance_cfg \<Rightarrow> bool" where
  "startable A glob bw cfg =
     (start_outcome A glob cfg = PStart
      \<and> (case build_instance (ae_build A) glob bw (ae_stored A (cf_id cfg)) cfg of Inl _ \<Rightarrow> False | Inr _ \<Rightarrow> True))"

lemma built_id: "build_instance E glob bw stored cfg = Inr x \<Longrightarrow> in_id x = cf_id cfg"
  by (elim built_from built_with)

lemma seed_keeps [simp]: "in_engine (seed_instance vs now x) = in_engine x"
  by (simp add: seed_instance_def)

lemma announce_keeps [simp]:
  "su_started (announce_violations A cfg vs st) = su_started st"
  "su_disabled (announce_violations A cfg vs st) = su_disabled st"
  by (simp_all add: announce_violations_def)

lemma start_each_runs:
  assumes "list_all (\<lambda>c. start_outcome A glob c \<noteq> PFatal) cfgs"
  shows "\<exists>st'. start_each A glob bw cfgs st = Inr st'
    \<and> List.map in_id (su_started st') = List.map in_id (su_started st) @ List.map cf_id (filter (startable A glob bw) cfgs)
    \<and> List.map di_id (su_disabled st') = List.map di_id (su_disabled st)
        @ List.map cf_id (filter (\<lambda>c. start_outcome A glob c = PSkip) cfgs)"
  using assms
proof (induction cfgs arbitrary: st)
  case (Cons c cs)
  let ?vs = "validate_instance (ae_probe A) (probe_cfg c)"
  note IH = Cons.IH [OF Cons.prems [simplified, THEN conjunct2]]
  have o: "start_outcome A glob c = apply_policy (resolve_permission_policy c glob) ?vs" by (simp add: start_outcome_def)
  show ?case
  proof (cases "start_outcome A glob c")
    case PStart
    show ?thesis
    proof (cases "build_instance (ae_build A) glob bw (ae_stored A (cf_id c)) c")
      case (Inl e)
      then show ?thesis using IH [of "announce_violations A c ?vs st"] o PStart
        by (simp add: startable_def Let_def)
    next
      case (Inr x)
      let ?st = "(announce_violations A c ?vs st)\<lparr>su_started := su_started st @ [seed_instance ?vs (ae_now A) x]\<rparr>"
      show ?thesis using IH [of ?st] o PStart Inr built_id [OF Inr] by (simp add: startable_def Let_def)
    qed
  next
    case PSkip
    then show ?thesis
      using IH [of "(announce_violations A c ?vs st)\<lparr>su_disabled := su_disabled st @ [disabled_of (cf_id c) ?vs]\<rparr>"] o
      by (simp add: startable_def Let_def disabled_of_def)
  next
    case PFatal
    then show ?thesis using Cons.prems by simp
  qed
qed simp

lemma start_each_fatal:
  assumes "list_ex (\<lambda>c. start_outcome A glob c = PFatal) cfgs"
  shows "\<exists>i n ids. start_each A glob bw cfgs st = Inl (FatalPermission i n ids)"
  using assms
proof (induction cfgs arbitrary: st)
  case (Cons c cs)
  then show ?case
    by (cases "start_outcome A glob c") (auto simp: start_outcome_def Let_def split: sum.split policy_outcome.split)
qed simp


section \<open>A startup\<close>

text \<open>Three entries: one runs, one repeats its id, one has no ingress.\<close>

definition ex_entry :: json where
  "ex_entry =
     JObj [(''id'', JStr ''a''), (''ingress'', JObj [(''path'', JStr ''in'')]),
           (''egress'', JArr [JObj [(''type'', JStr ''local''), (''path'', JStr ''out'')]])]"

definition ex_component :: config_doc where
  "ex_component = \<lparr>cd_global = JObj [], cd_instance_ids = [''a'', ''a'', ''b''],
     cd_instance = (\<lambda>i. if i = ''a'' then Some ex_entry else Some (JObj [(''id'', JStr ''b'')]))\<rparr>"

definition ex_app_env :: "(u32, unit) app_env" where
  "ex_app_env =
     \<lparr>ae_build = ex_build_env,
      ae_probe = \<lparr>pr_read_dir = (\<lambda>_. None), pr_create_dir_all = (\<lambda>_. None), pr_write_probe = (\<lambda>_. None)\<rparr>,
      ae_bus_name = (\<lambda>_. True), ae_stored = (\<lambda>_. Inr None), ae_now = 0\<rparr>"

definition ex_parsed :: instance_cfg where
  "ex_parsed =
     \<lparr>cf_id = ''a'', cf_enabled = True,
      cf_ingress = \<lparr>ig_path = [''in''], ig_recursive = False, ig_include = [], ig_exclude = [], ig_rescan_secs = None,
                    ig_readiness = CfgStability 5\<rparr>,
      cf_egress = [EgLocal \<lparr>le_path = [''out''], le_fsync = False\<rparr>], cf_schedule = CfgImmediate,
      cf_completion = completion_default, cf_retry = None, cf_limits = None, cf_on_permission_error = None, cf_priority = 100\<rparr>"

lemma ex_entry_parsed: "parse_instance (\<lambda>s. [s]) ex_entry = Some ex_parsed"
  by (simp add: parse_instance_def ex_entry_def ex_parsed_def struct_def is_object_def req_def dflt_def opt_def jas_list_def
      parse_egress_def parse_local_def parse_ingress_def lenient_opt_u64_def jas_bool_def)

lemma ex_loaded:
  "load_instances (\<lambda>s. [s]) ex_component = [ex_parsed, ex_parsed]" "load_global ex_component = global_default"
proof -
  have "parse_instance (\<lambda>s. [s]) (JObj [(''id'', JStr ''b'')]) = None"
    by (simp add: parse_instance_def struct_def is_object_def req_def dflt_def)
  then show "load_instances (\<lambda>s. [s]) ex_component = [ex_parsed, ex_parsed]"
    by (simp add: load_instances_def ex_component_def List.map_filter_simps ex_entry_parsed)
  show "load_global ex_component = global_default"
    by (simp add: load_global_def ex_component_def parse_global_def struct_def is_object_def opt_def dflt_def global_default_def
        unwrap_or_def)
qed

lemma ex_parsed_starts:
  "start_outcome ex_app_env global_default ex_parsed = PStart"
  "startable ex_app_env global_default (bucket_new 0 0) ex_parsed"
proof -
  show o: "start_outcome ex_app_env global_default ex_parsed = PStart"
    by (simp add: start_outcome_def ex_app_env_def ex_parsed_def probe_cfg_def validate_instance_def to_violation_def
        probe_writable_def apply_policy_def completion_default_def)
  have "\<exists>x. build_instance ex_build_env global_default (bucket_new 0 0) (Inr None) ex_parsed = Inr x"
    by (simp add: build_instance_def build_with_dests_def ex_build_env_def ex_parsed_def instance_destinations_def
        build_destination_def from_cfg_def watcher_from_cfg_def glob_new_def strategy_from_cfg_def limit_rate_def lift_err_def)
  then show "startable ex_app_env global_default (bucket_new 0 0) ex_parsed"
    using o by (auto simp: startable_def ex_app_env_def)
qed


end
