(* ===== verification/Control.thy ===== *)
theory Control
  imports App
begin

text \<open>
  The control plane (\<open>src/control.rs\<close>): the three verbs of the command inbox over the running instances
  and the store, and the status documents. A message is its body; the inbox, which checks the scope of
  a verb and routes the reply, is not modelled. A command ends in a coded error or in a document.

  \<open>spawn_trigger\<close> starts a scan in the background: the scans a command starts are part of its result.
  A percentage is computed exactly, in tenths. The formatter of an instant is the argument \<open>rfc\<close>.
\<close>

section \<open>Requests\<close>

type_synonym cmd_error = "string \<times> string"

definition unknown_instance :: "string \<Rightarrow> cmd_error" where
  "unknown_instance i = (''UNKNOWN_INSTANCE'', ''unknown instance '' @ [CHR 0x27] @ i @ [CHR 0x27])"

fun put_member :: "string \<Rightarrow> json \<Rightarrow> (string \<times> json) list \<Rightarrow> (string \<times> json) list" where
  "put_member k v [] = [(k, v)]"
| "put_member k v ((k', v') # m) = (if k = k' then (k, v) # m else (k', v') # put_member k v m)"

definition address :: "json \<Rightarrow> string option \<Rightarrow> json" where
  "address body addressed =
     (case addressed of
        None \<Rightarrow> body
      | Some i \<Rightarrow> (case body of
          JObj kvs \<Rightarrow> JObj (put_member ''instance'' (JStr i) kvs)
        | _ \<Rightarrow> JObj [(''instance'', JStr i)]))"

definition instance_of :: "json \<Rightarrow> string option" where
  "instance_of body = Option.bind (jget ''instance'' body) jas_str"

definition lenient_bool :: "json option \<Rightarrow> bool option" where
  "lenient_bool v =
     (case v of
        Some (JBool b) \<Rightarrow> Some b
      | Some (JNum n) \<Rightarrow> Some (n \<noteq> 0)
      | Some (JFloat a b) \<Rightarrow> Some (a \<noteq> 0)
      | Some (JStr s) \<Rightarrow>
          (let t = to_ascii_lowercase (str_trim s) in
           if t \<in> set [''true'', ''1''] then Some True else if t \<in> set [''false'', ''0''] then Some False else None)
      | _ \<Rightarrow> None)"

section \<open>Status documents\<close>

definition max_listed :: nat where
  "max_listed = 100"

definition jnat :: "nat \<Rightarrow> json" where
  "jnat n = JNum (int n)"

definition percent_tenths :: "u64 \<Rightarrow> u64 \<Rightarrow> int" where
  "percent_tenths bytes_done fsize =
     (if fsize = 0 then if bytes_done = 0 then 0 else 1000
      else max 0 (min 1000 \<lfloor>rat_of bytes_done * 1000 / rat_of fsize + 1 / 2\<rfloor>))"

definition age_secs :: "i64 \<Rightarrow> i64 \<Rightarrow> i64" where
  "age_secs now discovered_at = max (now - discovered_at) 0 div 1000"

record status_inputs =
  si_id :: string
  si_active :: bool
  si_configured_enabled :: bool
  si_schedule_mode :: string
  si_dest_label :: string
  si_stats :: stats_info
  si_awaiting :: "work_item list"
  si_in_progress :: "work_item list"
  si_failed :: "work_item list"

definition awaiting_json :: "i64 \<Rightarrow> work_item \<Rightarrow> json" where
  "awaiting_json now it =
     JObj [(''path'', JStr (wi_relpath it)), (''size'', ju64 (wi_size it)), (''ageSecs'', JNum (age_secs now (wi_discovered_at it)))]"

definition in_progress_json :: "string \<Rightarrow> work_item \<Rightarrow> json" where
  "in_progress_json label it =
     JObj [(''path'', JStr (wi_relpath it)), (''size'', ju64 (wi_size it)), (''bytesDone'', ju64 (wi_bytes_done it)),
           (''percent'', JFloat (percent_tenths (wi_bytes_done it) (wi_size it)) 10), (''destination'', JStr label),
           (''attempt'', jnum32 (wi_attempts it + 1))]"

definition failed_json :: "(i64 \<Rightarrow> string) \<Rightarrow> work_item \<Rightarrow> json" where
  "failed_json rfc it =
     JObj ([(''path'', JStr (wi_relpath it)), (''attempts'', jnum32 (wi_attempts it)),
            (''lastError'', JStr (unwrap_or (wi_last_error it) [])), (''state'', JStr (item_as_str (wi_state it)))]
       @ (if wi_state it = Quarantined then [(''quarantinedAt'', JStr (rfc (wi_updated_at it)))] else [])
       @ (if wi_state it = CleanupFailed then [(''cleanupAttempts'', jnum32 (wi_cleanup_attempts it))] else []))"

definition instance_status_json :: "(i64 \<Rightarrow> string) \<Rightarrow> status_inputs \<Rightarrow> i64 \<Rightarrow> json" where
  "instance_status_json rfc inp now =
     JObj [(''instance'', JStr (si_id inp)), (''active'', JBool (si_active inp)),
       (''configuredEnabled'', JBool (si_configured_enabled inp)),
       (''schedule'', JObj [(''mode'', JStr (si_schedule_mode inp))]),
       (''awaiting'', JObj [(''count'', jnat (length (si_awaiting inp))),
          (''bytes'', ju64 (sum_list (List.map wi_size (si_awaiting inp)))),
          (''files'', JArr (List.map (awaiting_json now) (take max_listed (si_awaiting inp))))]),
       (''inProgress'', JArr (List.map (in_progress_json (si_dest_label inp)) (take max_listed (si_in_progress inp)))),
       (''replicated'', JObj [(''count'', ju64 (st_replicated (si_stats inp))), (''bytes'', ju64 (st_bytes (si_stats inp)))]),
       (''failed'', JObj [(''count'', jnat (length (si_failed inp))),
          (''items'', JArr (List.map (failed_json rfc) (take max_listed (si_failed inp))))])]"

definition disabled_status_json :: "disabled_info \<Rightarrow> json" where
  "disabled_status_json d =
     JObj [(''instance'', JStr (di_id d)), (''active'', JBool False), (''configuredEnabled'', JBool False),
       (''disabled'', JBool True), (''disabledReason'', JStr (di_reason d)), (''disabledRole'', JStr (di_role d)),
       (''disabledPath'', JStr (di_path d)), (''schedule'', JObj [(''mode'', JStr ''disabled'')]),
       (''awaiting'', JObj [(''count'', JNum 0), (''bytes'', JNum 0), (''files'', JArr [])]), (''inProgress'', JArr []),
       (''replicated'', JObj [(''count'', JNum 0), (''bytes'', JNum 0)]),
       (''failed'', JObj [(''count'', JNum 0), (''items'', JArr [])])]"

text \<open>A read of the store, or the default when it fails.\<close>

definition read_or :: "'a \<Rightarrow> (db \<Rightarrow> 'a res) \<Rightarrow> 'a act" where
  "read_or d f = bnd (db_read f) (\<lambda>r. ret (case r of Inl _ \<Rightarrow> d | Inr x \<Rightarrow> x))"

definition instance_state_snapshot ::
  "(i64 \<Rightarrow> string) \<Rightarrow> string \<Rightarrow> bool \<Rightarrow> bool \<Rightarrow> string \<Rightarrow> string \<Rightarrow> i64 \<Rightarrow> json act" where
  "instance_state_snapshot rfc i active enabled mode label now =
     bnd (read_or \<lparr>st_replicated = 0, st_failed = 0, st_bytes = 0\<rparr> (\<lambda>d. Inr (read_stats i d))) (\<lambda>stats.
     bnd (read_or [] (list_by_state i Ready)) (\<lambda>awaiting.
     bnd (read_or [] (list_by_state i InProgress)) (\<lambda>in_progress.
     bnd (read_or [] (list_by_state i Failed)) (\<lambda>f1.
     bnd (read_or [] (list_by_state i Exhausted)) (\<lambda>f2.
     bnd (read_or [] (list_by_state i Quarantined)) (\<lambda>f3.
     bnd (read_or [] (list_by_state i CleanupFailed)) (\<lambda>f4.
     ret (instance_status_json rfc
       \<lparr>si_id = i, si_active = active, si_configured_enabled = enabled, si_schedule_mode = mode, si_dest_label = label,
        si_stats = stats, si_awaiting = awaiting, si_in_progress = in_progress, si_failed = f1 @ f2 @ f3 @ f4\<rparr> now))))))))"

section \<open>The control plane\<close>

record 'h control_plane =
  cp_component :: string
  cp_thing :: string
  cp_instances :: "'h live_instance list"
  cp_disabled :: "disabled_info list"

definition control_new :: "string \<Rightarrow> string \<Rightarrow> 'h live_instance list \<Rightarrow> 'h control_plane" where
  "control_new component thing xs = \<lparr>cp_component = component, cp_thing = thing, cp_instances = xs, cp_disabled = []\<rparr>"

definition with_disabled :: "disabled_info list \<Rightarrow> 'h control_plane \<Rightarrow> 'h control_plane" where
  "with_disabled ds P = P\<lparr>cp_disabled := ds\<rparr>"

text \<open>The plane of a started application.\<close>

definition app_control :: "string \<Rightarrow> string \<Rightarrow> 'h app \<Rightarrow> 'h control_plane" where
  "app_control component thing a = with_disabled (app_disabled a) (control_new component thing (app_instances a))"

definition find_instance :: "'h control_plane \<Rightarrow> string \<Rightarrow> 'h live_instance option" where
  "find_instance P i = List.find (\<lambda>x. in_id x = i) (cp_instances P)"

definition find_disabled :: "'h control_plane \<Rightarrow> string \<Rightarrow> disabled_info option" where
  "find_disabled P i = List.find (\<lambda>d. di_id d = i) (cp_disabled P)"

definition live_status :: "(i64 \<Rightarrow> string) \<Rightarrow> i64 \<Rightarrow> 'h live_instance \<Rightarrow> json act" where
  "live_status rfc now x =
     instance_state_snapshot rfc (in_id x) (is_active (in_state x)) (ic_config_enabled (in_engine x)) (in_schedule_mode x)
       (in_dest_kind x) now"

fun collect_act :: "'a act list \<Rightarrow> 'a list act" where
  "collect_act [] = ret []"
| "collect_act (m # ms) = bnd m (\<lambda>x. bnd (collect_act ms) (\<lambda>xs. ret (x # xs)))"

definition component_status_json :: "(i64 \<Rightarrow> string) \<Rightarrow> i64 \<Rightarrow> 'h control_plane \<Rightarrow> json act" where
  "component_status_json rfc now P =
     bnd (collect_act (List.map (live_status rfc now) (cp_instances P))) (\<lambda>docs.
     ret (JObj [(''component'', JStr (cp_component P)), (''thing'', JStr (cp_thing P)),
       (''instances'', JArr (docs @ List.map disabled_status_json (cp_disabled P))),
       (''summary'', JObj [(''instances'', jnat (length (cp_instances P) + length (cp_disabled P))),
          (''active'', jnat (length (filter (\<lambda>x. is_active (in_state x)) (cp_instances P)))),
          (''disabled'', jnat (length (cp_disabled P)))])]))"

definition on_get_status :: "(i64 \<Rightarrow> string) \<Rightarrow> i64 \<Rightarrow> 'h control_plane \<Rightarrow> json \<Rightarrow> (cmd_error + json) act" where
  "on_get_status rfc now P body =
     (case instance_of body of
        None \<Rightarrow> bnd (component_status_json rfc now P) (\<lambda>j. ret (Inr j))
      | Some i \<Rightarrow> (case find_instance P i of
          Some x \<Rightarrow> bnd (live_status rfc now x) (\<lambda>j. ret (Inr j))
        | None \<Rightarrow> (case find_disabled P i of
            Some d \<Rightarrow> ret (Inr (disabled_status_json d))
          | None \<Rightarrow> ret (Inl (unknown_instance i)))))"

text \<open>The reply and the background scans: the instance, the clock and whether the schedule is ignored.\<close>

definition on_trigger ::
  "i64 \<Rightarrow> 'h control_plane \<Rightarrow> json \<Rightarrow> ((cmd_error + json) \<times> (string \<times> i64 \<times> bool) list) act" where
  "on_trigger now P body =
     (let ign = unwrap_or (lenient_bool (jget ''ignoreWindow'' body)) False in
      case instance_of body of
        None \<Rightarrow>
          (let on = filter (\<lambda>x. is_active (in_state x)) (cp_instances P);
               off = filter (\<lambda>x. \<not> is_active (in_state x)) (cp_instances P) in
           seqn (emit_event (ScheduleTriggered ''all''))
             (ret (Inr (JObj [(''scope'', JStr ''all''), (''triggered'', jnat (length on)),
                (''instances'', JArr (List.map (\<lambda>x. JStr (in_id x)) on)),
                (''skipped'', JArr (List.map (\<lambda>x. JStr (in_id x)) off)), (''ignoreWindow'', JBool ign)]),
                List.map (\<lambda>x. (in_id x, now, ign)) on)))
      | Some i \<Rightarrow> (case find_instance P i of
          None \<Rightarrow> ret (Inl (unknown_instance i), [])
        | Some x \<Rightarrow>
            if \<not> is_active (in_state x)
            then ret (Inr (JObj [(''scope'', JStr i), (''triggered'', JNum 0), (''skipped'', JStr ''inactive''),
                   (''ignoreWindow'', JBool ign)]), [])
            else seqn (emit_event (ScheduleTriggered i))
                   (ret (Inr (JObj [(''scope'', JStr i), (''triggered'', JNum 1), (''ignoreWindow'', JBool ign)]),
                      [(i, now, ign)]))))"

definition emit_activation :: "bool \<Rightarrow> unit act" where
  "emit_activation active = emit_event (if active then InstanceActivated ''control'' else InstanceDeactivated ''control'')"

fun put_state :: "string \<Rightarrow> inst_state \<Rightarrow> 'h live_instance list \<Rightarrow> 'h live_instance list" where
  "put_state i st [] = []"
| "put_state i st (x # xs) = (if in_id x = i then x\<lparr>in_state := st\<rparr> # xs else x # put_state i st xs)"

text \<open>The end of an activation command: the reply, the event and the new state of the instance.\<close>

definition activation_reply ::
  "'h control_plane \<Rightarrow> 'h live_instance \<Rightarrow> (string \<times> json) \<Rightarrow> bool res \<times> inst_state
   \<Rightarrow> ((cmd_error + json) \<times> 'h control_plane) act" where
  "activation_reply P x extra out =
     (let P' = P\<lparr>cp_instances := put_state (in_id x) (snd out) (cp_instances P)\<rparr> in
      case fst out of
        Inl e \<Rightarrow> ret (Inl (''ACTIVATION_FAILED'', error_text e), P')
      | Inr effective \<Rightarrow>
          seqn (emit_activation effective)
            (ret (Inr (JObj [(''instance'', JStr (in_id x)), (''active'', JBool effective),
               (''configuredEnabled'', JBool (ic_config_enabled (in_engine x))), extra]), P')))"

definition on_set_activation :: "i64 \<Rightarrow> 'h control_plane \<Rightarrow> json \<Rightarrow> ((cmd_error + json) \<times> 'h control_plane) act" where
  "on_set_activation now P body =
     (case instance_of body of
        None \<Rightarrow> ret (Inl (''INSTANCE_REQUIRED'',
                 ''set-activation requires an \"instance\" field (it has no \"all\" form)''), P)
      | Some i \<Rightarrow> (case find_instance P i of
          None \<Rightarrow> ret (Inl (unknown_instance i), P)
        | Some x \<Rightarrow>
            if unwrap_or (lenient_bool (jget ''reset'' body)) False
            then bnd (reset_activation (in_engine x) (in_state x)) (activation_reply P x (''reset'', JBool True))
            else (case lenient_bool (jget ''active'' body) of
                Some active \<Rightarrow>
                  (let persist = unwrap_or (lenient_bool (jget ''persist'' body)) True in
                   bnd (apply_activation (in_engine x) active persist ''control'' now (in_state x))
                     (activation_reply P x (''persisted'', JBool persist)))
              | None \<Rightarrow> ret (Inl (''INVALID_REQUEST'', ''set-activation requires `active` (bool) or `reset: true`''), P))))"

text \<open>The three verbs as they are registered: the topic's instance is folded into the body first.\<close>

datatype verb = GetStatus | Trigger | SetActivation

definition dispatch ::
  "(i64 \<Rightarrow> string) \<Rightarrow> i64 \<Rightarrow> verb \<Rightarrow> 'h control_plane \<Rightarrow> string option \<Rightarrow> json
   \<Rightarrow> ((cmd_error + json) \<times> (string \<times> i64 \<times> bool) list \<times> 'h control_plane) act" where
  "dispatch rfc now vb P addressed body =
     (let req_body = address body addressed in
      case vb of
        GetStatus \<Rightarrow> bnd (on_get_status rfc now P req_body) (\<lambda>r. ret (r, [], P))
      | Trigger \<Rightarrow> bnd (on_trigger now P req_body) (\<lambda>(r, scans). ret (r, scans, P))
      | SetActivation \<Rightarrow> bnd (on_set_activation now P req_body) (\<lambda>(r, P'). ret (r, [], P')))"

end
