(* ===== verification/Control_Properties.thy ===== *)
theory Control_Properties
  imports Control Assembly_Properties
begin

text \<open>
  What a command of the control plane does, and what it leaves alone.
\<close>

section \<open>Activation rows\<close>

lemma load_set:
  "load_activation j (set_activation i active source now d) =
     (if j = i then Some \<lparr>av_active = active, av_source = source, av_updated_at = now\<rparr> else load_activation j d)"
  by (auto simp: load_activation_def set_activation_def t_find_upsert split: option.split)

lemma load_clear: "load_activation j (clear_activation i d) = (if j = i then None else load_activation j d)"
proof -
  have "t_find ar_instance j (t_delete (\<lambda>r. ar_instance r = i) t) = (if j = i then None else t_find ar_instance j t)"
    for t :: "activation_row list"
    by (induction t) (auto simp: t_find_def t_delete_def)
  then show ?thesis by (simp add: load_activation_def clear_activation_def)
qed

text \<open>Of the database, an action touches the activation of one instance at most.\<close>

definition acts_only :: "string \<Rightarrow> world \<Rightarrow> world \<Rightarrow> bool" where
  "acts_only i w w' =
     ((\<forall>j. j \<noteq> i \<longrightarrow> load_activation j (w_db w') = load_activation j (w_db w))
      \<and> db_items (w_db w') = db_items (w_db w) \<and> db_resume (w_db w') = db_resume (w_db w)
      \<and> db_dests (w_db w') = db_dests (w_db w) \<and> db_stats (w_db w') = db_stats (w_db w) \<and> w_files w' = w_files w)"

lemma acts_only_refl [simp]: "acts_only i w w"
  by (simp add: acts_only_def)

lemma acts_only_blind: "blind (acts_only i w)"
  by (simp add: blind_def acts_only_def)

lemma acts_only_events [simp]: "acts_only i w (w'\<lparr>w_events := es\<rparr>) = acts_only i w w'"
  by (simp add: acts_only_def)

lemma act_rows [simp]:
  "db_items (set_activation i a s n d) = db_items d" "db_resume (set_activation i a s n d) = db_resume d"
  "db_dests (set_activation i a s n d) = db_dests d" "db_stats (set_activation i a s n d) = db_stats d"
  "db_items (clear_activation i d) = db_items d" "db_resume (clear_activation i d) = db_resume d"
  "db_dests (clear_activation i d) = db_dests d" "db_stats (clear_activation i d) = db_stats d"
  by (simp_all add: set_activation_def clear_activation_def)

section \<open>Requests and instances\<close>

lemma addressed_instance [simp]: "instance_of (address body (Some i)) = Some i"
proof -
  have "map_of (put_member k v kvs) k = Some v" for k :: string and v :: json and kvs
    by (induction kvs) auto
  then show ?thesis by (cases body) (simp_all add: instance_of_def address_def)
qed

lemma found_id: "find_instance P i = Some x \<Longrightarrow> in_id x = i"
  by (auto simp: find_instance_def find_Some_iff)

lemma find_put:
  "List.find (\<lambda>x. in_id x = j) (put_state i st xs) =
     (if j = i then map_option (\<lambda>x. x\<lparr>in_state := st\<rparr>) (List.find (\<lambda>x. in_id x = i) xs)
      else List.find (\<lambda>x. in_id x = j) xs)"
  by (induction xs) auto

lemma put_same: "List.find (\<lambda>x. in_id x = i) xs = Some y \<Longrightarrow> put_state i (in_state y) xs = xs"
  by (induction xs) (auto split: if_splits)

section \<open>Status reads\<close>

lemma keeps_read_or: "blind P \<Longrightarrow> keeps P (read_or d f)"
  unfolding read_or_def by (auto intro: keeps_db_read)

lemma keeps_live_status: "blind P \<Longrightarrow> keeps P (live_status rfc now x)"
  unfolding live_status_def instance_state_snapshot_def by (intro keeps_bnd keeps_read_or keeps_ret)

lemma wp_keeps: "keeps P m \<Longrightarrow> P w \<Longrightarrow> (\<And>x w'. P w' \<Longrightarrow> Q x w') \<Longrightarrow> wp m Q P w"
  by (rule wp_conseq, erule (1) keepsD) auto

section \<open>Activation\<close>

lemma wp_apply:
  "wp (apply_activation I active persist source now st)
     (\<lambda>(r, st') w'. (case r of
          Inl _ \<Rightarrow> st' = st \<and> w_db w' = w_db w
        | Inr b \<Rightarrow> b = active \<and> st' = st\<lparr>is_active := active\<rparr>
            \<and> w_db w' = (if persist then set_activation (ic_id I) active source now (w_db w) else w_db w))
        \<and> acts_only (ic_id I) w w')
     (acts_only (ic_id I) w) w"
  unfolding apply_activation_def inst_set_activation_def
  by (auto simp: wp_rules wp_ret map_res_def intro!: wp_db_write)
     (auto simp: acts_only_def load_set)

lemma wp_reset:
  "wp (reset_activation I st) (\<lambda>(r, st') w'. (case r of Inl _ \<Rightarrow> st' = st | Inr _ \<Rightarrow> True) \<and> acts_only (ic_id I) w w')
     (acts_only (ic_id I) w) w"
  unfolding reset_activation_def inst_clear_activation_def
  by (auto simp: wp_rules wp_ret map_res_def intro!: wp_db_write)
     (auto simp: acts_only_def load_clear)

text \<open>The plane after a command of instance \<open>i\<close>, and its reply.\<close>

abbreviation plane_with :: "'h control_plane \<Rightarrow> string \<Rightarrow> inst_state \<Rightarrow> 'h control_plane" where
  "plane_with P i st \<equiv> P\<lparr>cp_instances := put_state i st (cp_instances P)\<rparr>"

lemma plane_find:
  "find_instance P i = Some x \<Longrightarrow>
   find_instance (plane_with P i st) j = (if j = i then Some (x\<lparr>in_state := st\<rparr>) else find_instance P j)"
  by (simp add: find_instance_def find_put)

lemma plane_same: "find_instance P i = Some x \<Longrightarrow> plane_with P i (in_state x) = P"
  by (simp add: find_instance_def put_same)

lemma reply_wp:
  assumes "find_instance P i = Some x" "\<And>e. r = Inl e \<Longrightarrow> Q (Inl (''ACTIVATION_FAILED'', error_text e), plane_with P i st) w"
    "\<And>b doc es. r = Inr b \<Longrightarrow> Q (Inr doc, plane_with P i st) (w\<lparr>w_events := es\<rparr>)"
  shows "wp (activation_reply P x extra (r, st)) Q C w"
  using assms(2,3) found_id [OF assms(1)]
  by (cases r) (simp_all add: activation_reply_def wp_rules wp_ret emit_activation_def Let_def)

lemma wp_activation_others:
  assumes "instance_of body = Some i"
  shows "wp (on_set_activation now P body)
      (\<lambda>(r, P') w'. acts_only i w w' \<and> (\<forall>j. j \<noteq> i \<longrightarrow> find_instance P' j = find_instance P j)) (acts_only i w) w"
proof (cases "find_instance P i")
  case None
  then show ?thesis by (simp add: on_set_activation_def assms wp_ret)
next
  case (Some x)
  have i: "in_id x = i" by (rule found_id [OF Some])
  let ?Q = "\<lambda>(r, P') w'. acts_only i w w' \<and> (\<forall>j. j \<noteq> i \<longrightarrow> find_instance P' j = find_instance P j)"
  have reply: "wp (activation_reply P x extra (r, st)) ?Q (acts_only i w) u" if "acts_only i w u" for extra r st u
    by (rule reply_wp [OF Some]) (simp_all add: that plane_find [OF Some])
  have "wp (bnd (reset_activation (in_engine x) (in_state x)) (activation_reply P x e)) ?Q (acts_only i w) w" for e
    unfolding wp_bnd by (rule wp_conseq [OF wp_reset]) (auto simp: i intro: reply)
  moreover have "wp (bnd (apply_activation (in_engine x) a p ''control'' now (in_state x)) (activation_reply P x e)) ?Q (acts_only i w) w"
    for a p e
    unfolding wp_bnd by (rule wp_conseq [OF wp_apply]) (auto simp: i intro: reply)
  ultimately show ?thesis by (auto simp: on_set_activation_def assms Some wp_ret Let_def split: option.split)
qed

lemma wp_status_others: "wp (on_get_status rfc now P body) (\<lambda>_. acts_only i w) (acts_only i w) w"
proof -
  have "keeps (acts_only i w) (collect_act (List.map (live_status rfc now) xs))" for xs :: "'a live_instance list"
    by (induction xs) (auto intro!: keeps_live_status acts_only_blind)
  then have "keeps (acts_only i w) (on_get_status rfc now P body)"
    unfolding on_get_status_def component_status_json_def
    by (auto intro!: keeps_live_status acts_only_blind split: option.split)
  then show ?thesis by (rule keepsD) simp
qed

lemma wp_trigger_others:
  "wp (on_trigger now P body) (\<lambda>(r, scans) w'. acts_only i w w'
      \<and> (\<forall>k. instance_of body = Some k \<longrightarrow> fst ` set scans \<subseteq> {k})) (acts_only i w) w"
  by (auto simp: on_trigger_def Let_def wp_rules wp_ret split: option.split)

text \<open>
  C23. A command addressed to an instance stays with it. Whatever the verb and the body say, a delivery
  on the topic of instance \<open>i\<close> starts no scan of another instance, changes the live state of no other
  instance and no row of the store but the activation of \<open>i\<close>, and no file, in every run with
  failing writes and crashes.
\<close>

theorem addressed_command_stays_with_instance:
  assumes "dispatch rfc now vb P (Some i) body w = (out, w')"
  shows "acts_only i w w'
    \<and> (\<forall>r scans P'. out = Some (r, scans, P') \<longrightarrow>
         fst ` set scans \<subseteq> {i} \<and> (\<forall>j. j \<noteq> i \<longrightarrow> find_instance P' j = find_instance P j))"
proof -
  let ?Q = "\<lambda>(r, scans, P') w'. acts_only i w w' \<and> fst ` set scans \<subseteq> {i} \<and> (\<forall>j. j \<noteq> i \<longrightarrow> find_instance P' j = find_instance P j)"
  have "wp (dispatch rfc now vb P (Some i) body) ?Q (acts_only i w) w"
  proof (cases vb)
    case GetStatus
    show ?thesis unfolding GetStatus dispatch_def Let_def verb.case wp_bnd
      by (rule wp_conseq [OF wp_status_others]) (auto simp: wp_ret)
  next
    case Trigger
    show ?thesis unfolding Trigger dispatch_def Let_def verb.case wp_bnd
      by (rule wp_conseq [OF wp_trigger_others]) (auto simp: wp_ret)
  next
    case SetActivation
    show ?thesis unfolding SetActivation dispatch_def Let_def verb.case wp_bnd
      by (rule wp_conseq [OF wp_activation_others]) (auto simp: wp_ret)
  qed
  from wp_run [OF this assms] show ?thesis by (cases out) auto
qed

text \<open>
  C21. Activating or deactivating an instance is exact and survives a restart when it is persisted. On
  success the instance is in the requested state at once; an instance assembled later from the store,
  whatever its configuration, starts in the requested state if the command was persistent (the
  default), and as it would have started before if not. On failure neither the plane nor the store has
  changed. No scan is started.
\<close>

theorem activation_survives_restart:
  assumes "find_instance P i = Some x" "instance_of (address body addressed) = Some i"
    "lenient_bool (jget ''reset'' (address body addressed)) \<noteq> Some True"
    "lenient_bool (jget ''active'' (address body addressed)) = Some b"
    "persist = unwrap_or (lenient_bool (jget ''persist'' (address body addressed))) True"
    "dispatch rfc now SetActivation P addressed body w = (Some (r, scans, P'), w')"
  shows "scans = [] \<and>
    (case r of
       Inl e \<Rightarrow> P' = P \<and> w_db w' = w_db w
     | Inr doc \<Rightarrow>
         find_instance P' i = Some (x\<lparr>in_state := (in_state x)\<lparr>is_active := b\<rparr>\<rparr>)
         \<and> (\<forall>E glob bw cfg y. build_instance E glob bw (Inr (load_activation i (w_db w'))) cfg = Inr y \<longrightarrow>
              (is_active (in_state y) \<longleftrightarrow>
                 (if persist then b
                  else (case load_activation i (w_db w) of Some a \<Rightarrow> av_active a | None \<Rightarrow> cf_enabled cfg)))))"
proof -
  let ?body = "address body addressed" and ?p = "unwrap_or (lenient_bool (jget ''persist'' (address body addressed))) True"
  have i: "in_id x = i" by (rule found_id [OF assms(1)])
  let ?Q = "\<lambda>(r, P') w'. case r of
       Inl e \<Rightarrow> P' = P \<and> w_db w' = w_db w
     | Inr doc \<Rightarrow> find_instance P' i = Some (x\<lparr>in_state := (in_state x)\<lparr>is_active := b\<rparr>\<rparr>)
         \<and> w_db w' = (if ?p then set_activation i b ''control'' now (w_db w) else w_db w)"
  have "wp (bnd (apply_activation (in_engine x) b ?p ''control'' now (in_state x)) (activation_reply P x (''persisted'', JBool ?p)))
      ?Q (\<lambda>_. True) w"
    unfolding wp_bnd
  proof (rule wp_conseq [OF wp_apply])
    fix out :: "bool res \<times> inst_state" and u
    obtain r st where out: "out = (r, st)" by force
    assume "(case out of (r, st') \<Rightarrow> \<lambda>w'. (case r of
          Inl _ \<Rightarrow> st' = in_state x \<and> w_db w' = w_db w
        | Inr c \<Rightarrow> c = b \<and> st' = (in_state x)\<lparr>is_active := b\<rparr>
            \<and> w_db w' = (if ?p then set_activation (in_id x) b ''control'' now (w_db w) else w_db w))
        \<and> acts_only (in_id x) w w') u"
    then show "wp (activation_reply P x (''persisted'', JBool ?p) out) ?Q (\<lambda>_. True) u"
      unfolding out by (intro reply_wp [OF assms(1)]) (auto simp: i plane_find [OF assms(1)] plane_same [OF assms(1)])
  qed simp
  moreover have "on_set_activation now P ?body
      = bnd (apply_activation (in_engine x) b ?p ''control'' now (in_state x)) (activation_reply P x (''persisted'', JBool ?p))"
    using assms(1-4) by (auto simp: on_set_activation_def unwrap_or_def Let_def split: option.split)
  moreover have "scans = []" and "on_set_activation now P ?body w = (Some (r, P'), w')"
    using assms(6) by (auto simp: dispatch_def Let_def bnd_def ret_def split: option.splits prod.splits)
  ultimately have "scans = []" "?Q (r, P') w'" using wp_run [of _ ?Q "\<lambda>_. True" w "Some (r, P')" w'] by simp_all
  then show ?thesis using assms(5) by (auto simp: load_set built_active split: sum.splits)
qed

section \<open>Status\<close>

definition rows_in :: "string \<Rightarrow> item_state list \<Rightarrow> db \<Rightarrow> nat" where
  "rows_in i sts d = length (filter (\<lambda>r. ir_instance r = i \<and> ir_state r \<in> item_as_str ` set sts) (db_items d))"

definition jpath :: "string list \<Rightarrow> json \<Rightarrow> json option" where
  "jpath ks j = foldl (\<lambda>v k. Option.bind v (jget k)) (Some j) ks"

definition jlen :: "json option \<Rightarrow> nat option" where
  "jlen v = (case v of Some (JArr xs) \<Rightarrow> Some (length xs) | _ \<Rightarrow> None)"

lemma listed_rows:
  assumes "db_ok d"
  shows "\<exists>its. list_by_state i st d = Inr its \<and> length its = rows_in i [st] d"
proof -
  let ?rows = "sort_key ir_discovered_at (filter (\<lambda>r. ir_instance r = i \<and> ir_state r = item_as_str st) (db_items d))"
  have "collect_res (List.map row_to_item ?rows) = Inr (List.map the_item ?rows)"
    using assms by (intro collect_items) (auto simp: db_ok_def)
  then show ?thesis by (simp add: list_by_state_def rows_in_def)
qed

lemma rows_in_split: "distinct (st # sts) \<Longrightarrow> rows_in i (st # sts) d = rows_in i [st] d + rows_in i sts d"
proof -
  assume "distinct (st # sts)"
  then have "item_as_str st \<notin> item_as_str ` set sts" by auto
  then have "length (filter (\<lambda>r. ir_instance r = i \<and> ir_state r \<in> item_as_str ` set (st # sts)) rs)
      = length (filter (\<lambda>r. ir_instance r = i \<and> ir_state r \<in> item_as_str ` set [st]) rs)
        + length (filter (\<lambda>r. ir_instance r = i \<and> ir_state r \<in> item_as_str ` set sts) rs)" for rs :: "item_row list"
    by (induction rs) auto
  then show ?thesis unfolding rows_in_def .
qed

lemmas rows_in_split2 = rows_in_split [of st "st' # sts" for st st' sts]

lemma read_or_fine: "w_fate w = [] \<Longrightarrow> read_or d f w = (Some (case f (w_db w) of Inl _ \<Rightarrow> d | Inr x \<Rightarrow> x), w)"
  by (simp add: read_or_def bnd_def db_read_def effect_def next_fate_def ret_def)

text \<open>
  C26. The totals of a status are the truth of the store. When its reads run, the document of an instance
  counts every ready item as awaiting and every failed, exhausted, quarantined or cleanup-failed item as
  failed, however long the lists are; the lists hold no more than a hundred entries and all of them up to
  there; and the query changes nothing.
\<close>

theorem status_counts_exact:
  assumes "db_ok (w_db w)" "w_fate w = []"
    "failing = [Failed, Exhausted, Quarantined, CleanupFailed]" "i = in_id x"
  shows "\<exists>doc. live_status rfc now x w = (Some doc, w)
    \<and> jpath [''awaiting'', ''count''] doc = Some (jnat (rows_in i [Ready] (w_db w)))
    \<and> jlen (jpath [''awaiting'', ''files''] doc) = Some (min 100 (rows_in i [Ready] (w_db w)))
    \<and> jlen (jpath [''inProgress''] doc) = Some (min 100 (rows_in i [InProgress] (w_db w)))
    \<and> jpath [''failed'', ''count''] doc = Some (jnat (rows_in i failing (w_db w)))
    \<and> jlen (jpath [''failed'', ''items''] doc) = Some (min 100 (rows_in i failing (w_db w)))
    \<and> jpath [''replicated'', ''count''] doc = Some (ju64 (st_replicated (read_stats i (w_db w))))"
proof -
  have four: "rows_in i failing (w_db w) = rows_in i [Failed] (w_db w) + rows_in i [Exhausted] (w_db w)
      + rows_in i [Quarantined] (w_db w) + rows_in i [CleanupFailed] (w_db w)"
    by (simp add: assms(3) rows_in_split2)
  note some = listed_rows [OF assms(1), of i]
  obtain r where r: "list_by_state i Ready (w_db w) = Inr r" "length r = rows_in i [Ready] (w_db w)" using some by blast
  obtain p where p: "list_by_state i InProgress (w_db w) = Inr p" "length p = rows_in i [InProgress] (w_db w)" using some by blast
  obtain f where f: "list_by_state i Failed (w_db w) = Inr f" "length f = rows_in i [Failed] (w_db w)" using some by blast
  obtain e where e: "list_by_state i Exhausted (w_db w) = Inr e" "length e = rows_in i [Exhausted] (w_db w)" using some by blast
  obtain q where q: "list_by_state i Quarantined (w_db w) = Inr q" "length q = rows_in i [Quarantined] (w_db w)" using some by blast
  obtain c where c: "list_by_state i CleanupFailed (w_db w) = Inr c" "length c = rows_in i [CleanupFailed] (w_db w)"
    using some by blast
  let ?inp = "\<lparr>si_id = i, si_active = is_active (in_state x), si_configured_enabled = ic_config_enabled (in_engine x),
      si_schedule_mode = in_schedule_mode x, si_dest_label = in_dest_kind x, si_stats = read_stats i (w_db w),
      si_awaiting = r, si_in_progress = p, si_failed = f @ e @ q @ c\<rparr>"
  have step: "bnd (read_or d g) h w = h (case g (w_db w) of Inl _ \<Rightarrow> d | Inr y \<Rightarrow> y) w"
    for d :: 'c and g and h :: "'c \<Rightarrow> json act"
    by (simp add: bnd_def read_or_fine [OF assms(2)])
  have run: "live_status rfc now x w = (Some (instance_status_json rfc ?inp now), w)"
    unfolding live_status_def instance_state_snapshot_def assms(4) [symmetric] step r(1) p(1) f(1) e(1) q(1) c(1) sum.case
    by (simp add: ret_def)
  show ?thesis unfolding run four
    by (simp add: instance_status_json_def jpath_def jlen_def max_listed_def r(2) p(2) f(2) e(2) q(2) c(2) min.commute add.assoc)
qed

section \<open>Commands to one instance\<close>

definition ex_plane :: "u32 control_plane" where
  "ex_plane = control_new ''file-replicator'' ''t'' [ex_live]"

definition ex_deactivate :: json where
  "ex_deactivate = JObj [(''instance'', JStr ''a''), (''active'', JFloat 0 1)]"

lemma ex_live_id: "in_id ex_live = ''a''"
proof -
  obtain dests where "build_with_dests ex_build_env global_default (bucket_new 0 0) (Inr None) dests ex_nested = Inr ex_live"
    by (rule built_from [OF ex_live_built])
  then show ?thesis by (rule built_with) (simp add: ex_nested_def)
qed

lemma ex_plane_find: "find_instance ex_plane ''a'' = Some ex_live"
  by (simp add: find_instance_def ex_plane_def control_new_def ex_live_id)

lemma ex_deactivated:
  "\<exists>doc P' w'. dispatch (\<lambda>_. []) 5 SetActivation ex_plane None ex_deactivate (ex_world []) = (Some (Inr doc, [], P'), w')"
  by (simp add: dispatch_def address_def ex_deactivate_def on_set_activation_def instance_of_def ex_plane_find lenient_bool_def
      unwrap_or_def apply_activation_def inst_set_activation_def bnd_def db_write_def effect_def next_fate_def ret_def
      activation_reply_def seqn_def emit_activation_def emit_event_def map_res_def ex_world_def Let_def)

theorem activation_survives_restart_witness:
  "\<exists>doc P' w'. dispatch (\<lambda>_. []) 5 SetActivation ex_plane None ex_deactivate (ex_world []) = (Some (Inr doc, [], P'), w')
     \<and> find_instance P' ''a'' = Some (ex_live\<lparr>in_state := (in_state ex_live)\<lparr>is_active := False\<rparr>\<rparr>)"
proof -
  obtain doc P' w' where run: "dispatch (\<lambda>_. []) 5 SetActivation ex_plane None ex_deactivate (ex_world []) = (Some (Inr doc, [], P'), w')"
    using ex_deactivated by blast
  have "instance_of (address ex_deactivate None) = Some ''a''"
    "lenient_bool (jget ''reset'' (address ex_deactivate None)) \<noteq> Some True"
    "lenient_bool (jget ''active'' (address ex_deactivate None)) = Some False"
    by (simp_all add: address_def instance_of_def ex_deactivate_def lenient_bool_def)
  from activation_survives_restart [OF ex_plane_find this refl run] run show ?thesis by auto
qed

theorem addressed_command_stays_with_instance_witness:
  "\<exists>out w'. dispatch (\<lambda>_. []) 5 Trigger ex_plane (Some ''a'') (JObj [(''instance'', JStr ''b'')]) (ex_world [Crash]) = (out, w')
     \<and> acts_only ''a'' (ex_world [Crash]) w'"
proof -
  obtain out w' where run:
    "dispatch (\<lambda>_. []) 5 Trigger ex_plane (Some ''a'') (JObj [(''instance'', JStr ''b'')]) (ex_world [Crash]) = (out, w')" by force
  from addressed_command_stays_with_instance [OF run] run show ?thesis by auto
qed

theorem status_counts_exact_witness:
  "\<exists>doc. live_status (\<lambda>_. []) 5 ex_live (ex_world []) = (Some doc, ex_world [])
     \<and> jpath [''failed'', ''count''] doc = Some (JNum 0)"
proof -
  have ok: "db_ok (w_db (ex_world []))" and fine: "w_fate (ex_world []) = []"
    by (simp_all add: ex_world_def open_in_memory_def db_ok_def t_ok_def)
  have "rows_in ''a'' [Failed, Exhausted, Quarantined, CleanupFailed] (w_db (ex_world [])) = 0"
    by (simp add: ex_world_def open_in_memory_def rows_in_def)
  with status_counts_exact [OF ok fine refl ex_live_id [symmetric], of "\<lambda>_. []" 5] show ?thesis
    by (auto simp: jnat_def)
qed

end
