(* ===== verification/Spec2Isabelle.thy ===== *)
theory Spec2Isabelle
  imports Admission Instance_Properties S3_Properties Gcs_Properties Azure_Properties Sftp_Properties Checkpoints Factory
    Config_Properties Assembly_Properties App_Properties Control_Properties
begin

text \<open>
  Verification development of \<^verbatim>\<open>file-replicator\<close>.

  The program watches a directory tree and replicates every stable file to one or more
  destinations. A file is a tracked item of a durable store; a worker takes it through
  delivery, verification, and the completion of the source (archive or delete), retries
  what fails, and gives up into a quarantine. The development follows that split.

  \<^item> \<open>Prelude\<close>, \<open>Errors\<close>, \<open>Json\<close>, \<open>Domain\<close>, \<open>Integrity_Check\<close>: shared lemmas; \<^verbatim>\<open>error.rs\<close>,
    the JSON values of checkpoints and events, \<^verbatim>\<open>domain.rs\<close>, \<^verbatim>\<open>integrity.rs\<close>. Every error
    has one retry class, tokens round trip, a checksum depends on the bytes alone.
  \<^item> \<open>Admission\<close>: \<^verbatim>\<open>admission.rs\<close>, the permit gate with direct hand-off, as a step relation
    over acquire, observe, release and the two halves of a cancellation. Permits are
    conserved and nobody is stranded, except in the one interleaving that mints a permit.
  \<^item> \<open>Tables\<close>, \<open>Store\<close>, \<open>Store_Laws\<close>: \<^verbatim>\<open>state.rs\<close>, each statement of the SQLite store on tables
    as row lists; rediscovery, claiming, recovery queries, isolation of instances.
  \<^item> \<open>Retry\<close>, \<open>Permission\<close>, \<open>Events\<close>, \<open>Paths\<close>: the retry policy and path functions of
    \<^verbatim>\<open>instance/worker.rs\<close>, \<^verbatim>\<open>permission.rs\<close>, \<^verbatim>\<open>events.rs\<close>.
  \<^item> \<open>World\<close>: the state effects act on. Every durable effect consumes one \<open>fate\<close>: it runs,
    it fails, or the process dies there, so a theorem over all fate lists covers each
    fault and each crash point. \<open>wp\<close> is the program logic, with a postcondition for the
    return and one for the crash.
  \<^item> \<open>SourceFs\<close>, \<open>Source_Laws\<close>: the completion and quarantine actions of \<^verbatim>\<open>instance/worker.rs\<close>.
  \<^item> \<open>Worker\<close>: the rest of \<^verbatim>\<open>instance/worker.rs\<close>: labels, one attempt (\<open>run_one_dest\<close>), the
    fan-out (\<open>run_pipeline\<close>), cleanup, exhaustion, recovery. \<open>Frames\<close> holds what each
    function leaves alone, \<open>Cleanup_Laws\<close> the specification of a cleanup, \<open>Pipeline_Laws\<close> that
    of a pass under the contract \<open>worker_env\<close> of the destinations and paths,
    \<open>Fanout_Laws\<close> which destinations a pass attempts, \<open>Worker_Properties\<close> the guarantees.
  \<^item> \<open>Local_Dest\<close>, \<open>Local_Laws\<close>: \<^verbatim>\<open>dest/local.rs\<close>, the local destination. \<open>Deployment\<close> interprets
    \<open>worker_env\<close> on a worker with local directories.
  \<^item> \<open>Sugar\<close>, \<open>Schedule\<close>: \<^verbatim>\<open>schedule/\<close>: the phrase compiler, cron and window schedules, the
    admission decision and the wake-ups, against a reference set of open intervals.
  \<^item> \<open>Readiness\<close>, \<open>Watcher\<close>: \<^verbatim>\<open>readiness.rs\<close>, \<^verbatim>\<open>instance/watcher.rs\<close>: the readiness strategies, the
    walk over the tree and the discovery pass.
  \<^item> \<open>Instance\<close>: \<^verbatim>\<open>instance/mod.rs\<close>, \<^verbatim>\<open>instance/queue.rs\<close>: activation, the tick, the claim loop, what a
    closing window does to a batch. \<open>Views\<close> states once which predicates of the store and the
    events a worker keeps; \<open>Instance_Laws\<close> and \<open>Instance_Properties\<close> use it for whole ticks.

  \<^item> \<open>S3_Plan\<close>, \<open>S3_Client\<close>: \<^verbatim>\<open>dest/s3/\<close>: the upload plan, keys, checkpoint tokens and error
    classes, and the transfers over a record of SDK actions. \<open>S3_Laws\<close> shows that they stay
    within the worker's contract, \<open>S3_Delivery\<close> that a delivery is exact and its checkpoints
    sound while others rewrite the source, \<open>S3_Properties\<close> the guarantees and, on an in-memory
    service, the runs where they fail.
  \<^item> \<open>Ranged\<close>: what the other five remote backends each have a copy of: secrets, the offset
    checkpoint, reading and hashing ranges of the source, the chunk loop. \<open>Http_Dest\<close>, \<open>Gcs_Dest\<close>,
    \<open>Azure_Dest\<close>, \<open>Sftp_Dest\<close>, \<open>Ftps_Dest\<close>: \<^verbatim>\<open>dest/http/\<close>, \<^verbatim>\<open>dest/gcs/\<close>, \<^verbatim>\<open>dest/azure/\<close>, \<^verbatim>\<open>dest/sftp/\<close>,
    \<^verbatim>\<open>dest/ftps/\<close> over an HTTP client or a record of library actions. \<open>Remote_Laws\<close>: each of them keeps
    the worker's contract whatever the service answers.
  \<^item> \<open>Ranged_Delivery\<close>, \<open>Offset_Delivery\<close>, \<open>Http_Delivery\<close>, \<open>Gcs_Delivery\<close>: the loop invariants that make an
    HTTP and a GCS delivery exact for an unmodified source, in \<open>Http_Properties\<close> and \<open>Gcs_Properties\<close>
    with the runs on an in-memory service where an object is torn or missing. \<open>Azure_Properties\<close>,
    \<open>Sftp_Properties\<close>: block ids, failed commits, host keys, the life of a session, publication.
    \<open>Checkpoints\<close>: what each remote backend saves and takes up again.
  \<^item> \<open>Factory\<close>: \<^verbatim>\<open>dest/mod.rs\<close> and the destinations of \<open>Instance::build\<close>, with the worker's central
    guarantee for any configured list of destinations.
  \<^item> \<open>Ratelimit\<close>: \<^verbatim>\<open>ratelimit.rs\<close>: the token buckets, the governor of a transfer, the byte rates. Over any
    window an instance keeps its rate and all of them together the global one.
  \<^item> \<open>Config\<close>, \<open>Config_Properties\<close>: \<^verbatim>\<open>config.rs\<close>: the deserializers of the configuration. Numbers that
    arrive as doubles are read as integers, except the one that drops its instance.
  \<^item> \<open>Assembly\<close>, \<open>Assembly_Properties\<close>: \<open>build\<close> and \<open>run\<close> of \<^verbatim>\<open>instance/mod.rs\<close>: from a configuration to the
    instance that \<open>Instance\<close> runs; what it never discovers, and its lower bounds.
  \<^item> \<open>App\<close>, \<open>App_Properties\<close>: the startup of \<^verbatim>\<open>app.rs\<close>: which instances run, which are disabled, when the
    component fails. \<open>Control\<close>, \<open>Control_Properties\<close>: \<^verbatim>\<open>control.rs\<close>: the commands on a started application and
    its status documents; what a command leaves alone, what survives a restart.

  Bounds and fuel: \<open>first_free\<close> tries the 9999 suffixes the code tries; loops over lists are
  structural; the claim loop (\<open>run_admitted\<close>) carries fuel, and \<open>drain_terminates\<close> shows that one
  round more than there are ready items is enough. The chunk loop of a remote transfer carries
  \<open>chunk_fuel\<close>, one more than the size of the file, and every round commits at least one byte
  (\<open>chunk_loop_fuel\<close>).

  Parameters: digests (\<open>crc32c\<close>, \<open>sha2\<close>), random draws, clock values, the serializer and
  the temporary-name hash are arguments. The order in which the concurrent attempts of one
  pass end is an arbitrary permutation (\<open>wo_order\<close>), and an attempt runs to its end before
  the next one starts: attempts of one pass share no row but the item's progress counter.
  The cron engine, the time zones and the glob compiler are arguments of the schedules and
  the readiness strategies; the tree a walk sees and the instants at which a window closes
  are arguments of the tick. The services behind the remote destinations are arbitrary actions; the
  theorems that need it state their documented behaviour as a named hypothesis (\<open>ranged_law\<close>,
  \<open>whole_law\<close> and \<open>head_honest\<close> for HTTP, \<open>chunk_law\<close>, \<open>session_law\<close> and \<open>media_law\<close> for the resumable
  session, \<open>honest_handshake\<close> for SSH), each with an in-memory service that satisfies it.

  Not modelled: metrics, logging, the progress-event drainer, the library's message bus and command
  inbox, opening the store and the shutdown of the process, the construction of network clients and
  their TLS settings, the redacting \<open>Debug\<close> implementations, and the operating system's file watch, which
  only wakes the run loop. The destinations do not call the governor of \<open>Ratelimit\<close> in the model: a
  transfer takes no time there. Floating-point arithmetic of rates, durations and percentages is exact,
  without its rounding.
\<close>

end
